(* ===== verification/Prelude.thy ===== *)
theory Prelude
  imports Main "HOL-Library.Word"
begin

text \<open>
  Shared vocabulary of the development: the machine types, Rust's checked and saturating
  integer operations, results and state-carrying results, and the slice operations of byte
  buffers (\<open>&buf[a..b]\<close> and \<open>copy_from_slice\<close>) with the lemmas every component uses.

  Conventions. Bytes are \<open>8 word\<close>. Geometry, identifiers that are only compared, byte counts
  and times are \<open>nat\<close>; every operation of the source on them that can leave its width is
  written with its width below (\<open>checked_add_u32\<close>, \<open>sat_add_u64\<close>, ...). Counters
  that wrap in the source are words. \<open>usize\<close> has 64 bits (the AArch64 target). A
  \<open>Duration\<close> is a number of nanoseconds.
\<close>

named_theorems range_simps \<open>facts that turn Rust range checks into plain inequalities\<close>
named_theorems arith_defs \<open>definitions of the checked and saturating operations\<close>

type_synonym u8 = "8 word"
type_synonym u16 = "16 word"
type_synonym u32 = "32 word"
type_synonym u64 = "64 word"
type_synonym bytes = "u8 list"

section \<open>Checked and saturating arithmetic\<close>

definition u8_max :: nat where "u8_max = 2 ^ 8 - 1"
definition u16_max :: nat where "u16_max = 2 ^ 16 - 1"
definition u32_max :: nat where "u32_max = 2 ^ 32 - 1"
definition u64_max :: nat where "u64_max = 2 ^ 64 - 1"

lemmas max_defs = u8_max_def u16_max_def u32_max_def u64_max_def

definition checked_add_u32 :: "nat \<Rightarrow> nat \<Rightarrow> nat option" where
  [arith_defs]: "checked_add_u32 a b = (if a + b \<le> u32_max then Some (a + b) else None)"

definition checked_add_u64 :: "nat \<Rightarrow> nat \<Rightarrow> nat option" where
  [arith_defs]: "checked_add_u64 a b = (if a + b \<le> u64_max then Some (a + b) else None)"

definition checked_add_usize :: "nat \<Rightarrow> nat \<Rightarrow> nat option" where
  [arith_defs]: "checked_add_usize a b = (if a + b \<le> u64_max then Some (a + b) else None)"

definition checked_mul_usize :: "nat \<Rightarrow> nat \<Rightarrow> nat option" where
  [arith_defs]: "checked_mul_usize a b = (if a * b \<le> u64_max then Some (a * b) else None)"

definition sat_add_u32 :: "nat \<Rightarrow> nat \<Rightarrow> nat" where
  [arith_defs]: "sat_add_u32 a b = min (a + b) u32_max"

definition sat_mul_u32 :: "nat \<Rightarrow> nat \<Rightarrow> nat" where
  [arith_defs]: "sat_mul_u32 a b = min (a * b) u32_max"

definition sat_add_u64 :: "nat \<Rightarrow> nat \<Rightarrow> nat" where
  [arith_defs]: "sat_add_u64 a b = min (a + b) u64_max"

definition sat_mul_u64 :: "nat \<Rightarrow> nat \<Rightarrow> nat" where
  [arith_defs]: "sat_mul_u64 a b = min (a * b) u64_max"

text \<open>Plain \<open>+\<close> and \<open>*\<close> on \<open>u32\<close> wrap in a release build.\<close>

definition wrap_u32 :: "nat \<Rightarrow> nat" where
  [arith_defs]: "wrap_u32 n = n mod 2 ^ 32"

lemma wrap_u32_id: "n \<le> u32_max \<Longrightarrow> wrap_u32 n = n"
  by (simp add: wrap_u32_def u32_max_def)

definition div_ceil :: "nat \<Rightarrow> nat \<Rightarrow> nat" where
  "div_ceil a b = (if a mod b = 0 then a div b else a div b + 1)"

lemma checked_add_u32_Some [range_simps]:
  "checked_add_u32 a b = Some c \<longleftrightarrow> c = a + b \<and> a + b \<le> u32_max"
  by (auto simp: checked_add_u32_def)

lemma checked_mul_usize_Some [range_simps]:
  "checked_mul_usize a b = Some c \<longleftrightarrow> c = a * b \<and> a * b \<le> u64_max"
  by (auto simp: checked_mul_usize_def)

lemma checked_add_usize_Some [range_simps]:
  "checked_add_usize a b = Some c \<longleftrightarrow> c = a + b \<and> a + b \<le> u64_max"
  by (auto simp: checked_add_usize_def)

lemma sat_add_u32_le [simp]: "sat_add_u32 a b \<le> u32_max"
  by (simp add: sat_add_u32_def)

lemma sat_add_u32_zero [simp]: "sat_add_u32 0 b = min b u32_max"
  by (simp add: sat_add_u32_def)

lemma div_ceil_le_iff:
  assumes b: "0 < b"
  shows "i < div_ceil a b \<longleftrightarrow> i * b < a"
proof -
  have a: "a = (a div b) * b + a mod b" by simp
  have m: "a mod b < b" using b by simp
  show ?thesis
  proof (cases "i < a div b")
    case True
    then have "Suc i * b \<le> (a div b) * b" by (intro mult_le_mono1) simp
    then have "i * b + b \<le> (a div b) * b" by simp
    then have "i * b < a" using a b by linarith
    then show ?thesis using True by (simp add: div_ceil_def)
  next
    case False
    then have i: "(a div b) * b \<le> i * b" by (intro mult_le_mono1) simp
    show ?thesis
    proof (cases "i = a div b")
      case True
      have "(a div b) * b < a \<longleftrightarrow> a mod b \<noteq> 0" using a by linarith
      then show ?thesis using True by (simp add: div_ceil_def)
    next
      case False
      with \<open>\<not> i < a div b\<close> have "Suc (a div b) * b \<le> i * b" by (intro mult_le_mono1) simp
      then have "(a div b) * b + b \<le> i * b" by simp
      then have "a \<le> i * b" using a m by linarith
      then show ?thesis using False \<open>\<not> i < a div b\<close> by (simp add: div_ceil_def)
    qed
  qed
qed

section \<open>Results\<close>

text \<open>
  \<open>Result<A, E>\<close> is \<open>'e + 'a\<close> with the error on the left. A method with \<open>&mut self\<close>
  returns its result together with the new state, because an early \<open>?\<close> return keeps the
  mutations made before it.
\<close>

type_synonym ('e, 'a) result = "'e + 'a"

definition is_ok :: "('e, 'a) result \<Rightarrow> bool" where
  "is_ok r = (case r of Inl _ \<Rightarrow> False | Inr _ \<Rightarrow> True)"

definition ok_or :: "'e \<Rightarrow> 'a option \<Rightarrow> ('e, 'a) result" where
  "ok_or e v = (case v of None \<Rightarrow> Inl e | Some a \<Rightarrow> Inr a)"

definition and_then :: "('e, 'a) result \<Rightarrow> ('a \<Rightarrow> ('e, 'b) result) \<Rightarrow> ('e, 'b) result" where
  "and_then r f = (case r of Inl e \<Rightarrow> Inl e | Inr a \<Rightarrow> f a)"

lemma is_ok_simps [simp]: "is_ok (Inl e) = False" "is_ok (Inr a) = True"
  by (simp_all add: is_ok_def)

lemma ok_or_simps [simp]: "ok_or e None = Inl e" "ok_or e (Some a) = Inr a"
  by (simp_all add: ok_or_def)

lemma and_then_simps [simp]: "and_then (Inl e) f = Inl e" "and_then (Inr a) f = f a"
  by (simp_all add: and_then_def)

lemma ok_or_Inr_iff [simp]: "ok_or e v = Inr a \<longleftrightarrow> v = Some a"
  by (cases v) auto

lemma ok_or_Inl_iff [simp]: "ok_or e v = Inl e' \<longleftrightarrow> v = None \<and> e' = e"
  by (cases v) auto

lemma and_then_Inr_iff: "and_then r f = Inr b \<longleftrightarrow> (\<exists>a. r = Inr a \<and> f a = Inr b)"
  by (cases r) auto

lemma and_then_Inl_iff: "and_then r f = Inl e \<longleftrightarrow> r = Inl e \<or> (\<exists>a. r = Inr a \<and> f a = Inl e)"
  by (cases r) auto

section \<open>Byte buffers\<close>

text \<open>
  \<open>slice xs a n\<close> is \<open>&xs[a..a + n]\<close>, and \<open>copy_into xs a ys\<close> is
  \<open>xs[a..a + ys.len()].copy_from_slice(ys)\<close>; both panic in Rust when the range leaves the
  buffer, which \<open>in_bounds\<close> states. The blit loops of the source write one row after
  another: \<open>blit W bpp dst x y w h src\<close> is that loop for a \<open>w\<close> by \<open>h\<close> rectangle at
  \<open>(x, y)\<close> of a buffer whose rows hold \<open>W\<close> pixels of \<open>bpp\<close> bytes.
\<close>

definition slice :: "'a list \<Rightarrow> nat \<Rightarrow> nat \<Rightarrow> 'a list" where
  "slice xs a n = take n (drop a xs)"

definition in_bounds :: "'a list \<Rightarrow> nat \<Rightarrow> nat \<Rightarrow> bool" where
  "in_bounds xs a n = (a + n \<le> length xs)"

definition copy_into :: "'a list \<Rightarrow> nat \<Rightarrow> 'a list \<Rightarrow> 'a list" where
  "copy_into xs a ys = take a xs @ ys @ drop (a + length ys) xs"

definition blit_row :: "nat \<Rightarrow> nat \<Rightarrow> nat \<Rightarrow> nat \<Rightarrow> nat \<Rightarrow> 'a list \<Rightarrow> nat \<Rightarrow> 'a list \<Rightarrow> 'a list" where
  "blit_row W bpp x y w src row dst =
     copy_into dst (((y + row) * W + x) * bpp) (slice src (row * (w * bpp)) (w * bpp))"

definition blit ::
  "nat \<Rightarrow> nat \<Rightarrow> 'a list \<Rightarrow> nat \<Rightarrow> nat \<Rightarrow> nat \<Rightarrow> nat \<Rightarrow> 'a list \<Rightarrow> 'a list" where
  "blit W bpp dst x y w h src = fold (blit_row W bpp x y w src) [0..<h] dst"

lemma length_slice: "in_bounds xs a n \<Longrightarrow> length (slice xs a n) = n"
  by (simp add: slice_def in_bounds_def)

lemma nth_slice: "in_bounds xs a n \<Longrightarrow> i < n \<Longrightarrow> slice xs a n ! i = xs ! (a + i)"
  by (simp add: slice_def in_bounds_def)

lemma length_copy_into:
  "in_bounds xs a (length ys) \<Longrightarrow> length (copy_into xs a ys) = length xs"
  by (simp add: copy_into_def in_bounds_def)

lemma nth_copy_into:
  assumes "in_bounds xs a (length ys)" and "i < length xs"
  shows "copy_into xs a ys ! i = (if a \<le> i \<and> i < a + length ys then ys ! (i - a) else xs ! i)"
  using assms by (auto simp: copy_into_def in_bounds_def nth_append min_def)

lemma slice_eq_iff:
  assumes "in_bounds xs a n" and "in_bounds ys b n"
  shows "slice xs a n = slice ys b n \<longleftrightarrow> (\<forall>i<n. xs ! (a + i) = ys ! (b + i))"
  using assms by (auto simp: list_eq_iff_nth_eq length_slice nth_slice)


subsection \<open>Cell positions\<close>

lemma cell_ge_iff: "k < b \<Longrightarrow> c0 * b \<le> c * b + k \<longleftrightarrow> c0 \<le> (c::nat)"
  using less_eq_div_iff_mult_less_eq [of b c0 "c * b + k"] by simp

lemma cell_less_iff: "k < b \<Longrightarrow> c * b + k < c1 * b \<longleftrightarrow> (c::nat) < c1"
  using cell_ge_iff [of k b c1 c] by linarith

lemma row_major_inside:
  fixes px W x w py r :: nat
  assumes "px < W" and "x + w \<le> W"
  shows "r * W + x \<le> py * W + px \<and> py * W + px < r * W + x + w \<longleftrightarrow>
    py = r \<and> x \<le> px \<and> px < x + w"
proof (cases py r rule: linorder_cases)
  case less
  then have "Suc py * W \<le> r * W" by (intro mult_le_mono1) simp
  with less assms show ?thesis by simp
next
  case equal
  then show ?thesis by auto
next
  case greater
  then have "Suc r * W \<le> py * W" by (intro mult_le_mono1) simp
  with greater assms show ?thesis by simp
qed

lemma byte_in_row:
  fixes px W x w py r k bpp :: nat
  assumes "px < W" and "x + w \<le> W" and "k < bpp"
  shows "(r * W + x) * bpp \<le> (py * W + px) * bpp + k \<and>
      (py * W + px) * bpp + k < (r * W + x) * bpp + w * bpp \<longleftrightarrow>
    py = r \<and> x \<le> px \<and> px < x + w"
  using row_major_inside [OF assms(1,2), of r py]
  by (simp add: cell_ge_iff cell_less_iff assms(3) add_mult_distrib [symmetric])

lemma cell_bound:
  fixes px W py H :: nat
  assumes "px < W" and "py < H"
  shows "py * W + px < H * W"
proof -
  have "Suc py * W \<le> H * W" using assms(2) by (intro mult_le_mono1) simp
  with assms(1) show ?thesis by simp
qed

lemma byte_bound:
  fixes px W py H k bpp :: nat
  assumes "px < W" and "py < H" and "k < bpp"
  shows "(py * W + px) * bpp + k < W * H * bpp"
  using cell_less_iff [OF assms(3), of "py * W + px" "W * H"] cell_bound [OF assms(1,2)]
  by (simp add: mult.commute)

lemma byte_position_exists:
  fixes i W H bpp :: nat
  assumes "i < W * H * bpp"
  shows "\<exists>px py k. px < W \<and> py < H \<and> k < bpp \<and> i = (py * W + px) * bpp + k"
proof (intro exI conjI)
  have b: "0 < bpp" and W: "0 < W" using assms by (cases "bpp = 0"; cases "W = 0"; simp)+
  show "i mod bpp < bpp" using b by simp
  show "(i div bpp) mod W < W" using W by simp
  have "i div bpp < H * W" using assms b by (simp add: div_less_iff_less_mult mult.commute)
  then show "(i div bpp) div W < H" using W by (simp add: div_less_iff_less_mult)
  show "i = ((i div bpp) div W * W + (i div bpp) mod W) * bpp + i mod bpp" by simp
qed

lemma rect_row_in_bounds:
  fixes W H bpp x y w h row :: nat
  assumes "length xs = W * H * bpp" and "x + w \<le> W" and "y + h \<le> H" and "row < h"
  shows "in_bounds xs (((y + row) * W + x) * bpp) (w * bpp)"
proof -
  have "Suc (y + row) * W \<le> H * W" using assms(3,4) by (intro mult_le_mono1) simp
  then have "(y + row) * W + x + w \<le> W * H" using assms(2) by (simp add: mult.commute)
  then have "((y + row) * W + x + w) * bpp \<le> W * H * bpp" by (rule mult_le_mono1)
  then show ?thesis by (simp add: in_bounds_def assms(1) add_mult_distrib)
qed

lemma source_row_in_bounds:
  fixes w h bpp row :: nat
  assumes "length src = w * h * bpp" and "row < h"
  shows "in_bounds src (row * (w * bpp)) (w * bpp)"
  using rect_row_in_bounds [of src w h bpp 0 w 0 h row] assms
  by (simp add: algebra_simps)


subsection \<open>What a blit writes\<close>

text \<open>
  \<open>blit_ok\<close> collects the range facts a caller establishes once by validation; under it no
  row copy of the loop can panic.
\<close>

definition blit_ok ::
  "nat \<Rightarrow> nat \<Rightarrow> nat \<Rightarrow> 'a list \<Rightarrow> nat \<Rightarrow> nat \<Rightarrow> nat \<Rightarrow> nat \<Rightarrow> 'a list \<Rightarrow> bool" where
  "blit_ok W H bpp dst x y w h src \<longleftrightarrow>
     length dst = W * H * bpp \<and> x + w \<le> W \<and> y + h \<le> H \<and> length src = w * h * bpp"

lemma blit_row_length:
  assumes "blit_ok W H bpp dst x y w h src" and "row < h"
  shows "length (blit_row W bpp x y w src row dst) = length dst"
  using assms rect_row_in_bounds [of dst W H bpp x w y h row] source_row_in_bounds [of src w h bpp row]
  by (simp add: blit_ok_def blit_row_def length_copy_into length_slice)

lemma blit_row_nth:
  assumes ok: "blit_ok W H bpp dst x y w h src" and row: "row < h"
    and px: "px < W" and py: "py < H" and k: "k < bpp"
  shows "blit_row W bpp x y w src row dst ! ((py * W + px) * bpp + k) =
    (if py = y + row \<and> x \<le> px \<and> px < x + w then src ! ((row * w + (px - x)) * bpp + k)
     else dst ! ((py * W + px) * bpp + k))"
proof -
  let ?a = "((y + row) * W + x) * bpp" and ?i = "(py * W + px) * bpp + k"
  have src: "in_bounds src (row * (w * bpp)) (w * bpp)" and dst: "in_bounds dst ?a (w * bpp)"
    using ok row source_row_in_bounds [of src w h bpp row] rect_row_in_bounds [of dst W H bpp x w y h row]
    by (simp_all add: blit_ok_def)
  have i: "?i < length dst" using byte_bound [OF px py k] ok by (simp add: blit_ok_def)
  have w: "x + w \<le> W" using ok by (simp add: blit_ok_def)
  have range: "?a \<le> ?i \<and> ?i < ?a + w * bpp \<longleftrightarrow> py = y + row \<and> x \<le> px \<and> px < x + w"
    by (rule byte_in_row [OF px w k])
  have "blit_row W bpp x y w src row dst ! ?i =
      (if ?a \<le> ?i \<and> ?i < ?a + w * bpp then slice src (row * (w * bpp)) (w * bpp) ! (?i - ?a)
       else dst ! ?i)"
    using src dst i by (simp add: blit_row_def nth_copy_into length_slice)
  also have "\<dots> = (if py = y + row \<and> x \<le> px \<and> px < x + w
      then src ! ((row * w + (px - x)) * bpp + k) else dst ! ?i)"
  proof (cases "py = y + row \<and> x \<le> px \<and> px < x + w")
    case True
    then have le: "?a \<le> ?i" and lt: "?i < ?a + w * bpp" using range by blast+
    obtain d where d: "px = x + d" using True le_Suc_ex by blast
    have off: "?i - ?a = d * bpp + k" using True d by (simp add: algebra_simps)
    have "slice src (row * (w * bpp)) (w * bpp) ! (?i - ?a) = src ! (row * (w * bpp) + (?i - ?a))"
      using le lt by (intro nth_slice [OF src]) linarith
    also have "row * (w * bpp) + (?i - ?a) = (row * w + (px - x)) * bpp + k"
      unfolding off using d by (simp add: algebra_simps)
    finally show ?thesis using True le lt by simp
  next
    case False
    then show ?thesis using range by (simp only: if_False)
  qed
  finally show ?thesis .
qed

lemma blit_Suc: "blit W bpp dst x y w (Suc h) src =
    blit_row W bpp x y w src h (blit W bpp dst x y w h src)"
  by (simp add: blit_def)

lemma blit_rows_length:
  assumes ok: "blit_ok W H bpp dst x y w h src"
  shows "n \<le> h \<Longrightarrow> length (blit W bpp dst x y w n src) = length dst"
proof (induction n)
  case 0
  then show ?case by (simp add: blit_def)
next
  case (Suc n)
  then have "blit_ok W H bpp (blit W bpp dst x y w n src) x y w h src"
    using ok by (simp add: blit_ok_def)
  from blit_row_length [OF this, of n] Suc show ?case by (simp add: blit_Suc)
qed

lemma blit_rows_nth:
  assumes ok: "blit_ok W H bpp dst x y w h src" and p: "px < W" "py < H" "k < bpp"
  shows "n \<le> h \<Longrightarrow> blit W bpp dst x y w n src ! ((py * W + px) * bpp + k) =
    (if x \<le> px \<and> px < x + w \<and> y \<le> py \<and> py < y + n
     then src ! (((py - y) * w + (px - x)) * bpp + k)
     else dst ! ((py * W + px) * bpp + k))"
proof (induction n)
  case 0
  then show ?case by (auto simp: blit_def)
next
  case (Suc n)
  then have "blit_ok W H bpp (blit W bpp dst x y w n src) x y w h src"
    using ok blit_rows_length [OF ok, of n] by (simp add: blit_ok_def)
  from blit_row_nth [OF this _ p, of n] Suc
  show ?case by (auto simp: blit_Suc less_Suc_eq)
qed

lemma blit_length:
  "blit_ok W H bpp dst x y w h src \<Longrightarrow> length (blit W bpp dst x y w h src) = length dst"
  by (rule blit_rows_length [OF _ order_refl])

lemma blit_nth:
  "blit_ok W H bpp dst x y w h src \<Longrightarrow> px < W \<Longrightarrow> py < H \<Longrightarrow> k < bpp \<Longrightarrow>
    blit W bpp dst x y w h src ! ((py * W + px) * bpp + k) =
    (if x \<le> px \<and> px < x + w \<and> y \<le> py \<and> py < y + h
     then src ! (((py - y) * w + (px - x)) * bpp + k)
     else dst ! ((py * W + px) * bpp + k))"
  by (rule blit_rows_nth [OF _ _ _ _ order_refl])


section \<open>Fallible steps on a state\<close>

text \<open>The operator \<open>?\<close>: an error keeps the state reached so far.\<close>

definition try_then ::
  "('e, 'a) result \<times> 's \<Rightarrow> ('a \<Rightarrow> 's \<Rightarrow> ('e, 'b) result \<times> 's) \<Rightarrow> ('e, 'b) result \<times> 's" where
  "try_then r f = (case r of (Inl e, s) \<Rightarrow> (Inl e, s) | (Inr a, s) \<Rightarrow> f a s)"

lemma try_then_simps [simp]: "try_then (Inl e, s) f = (Inl e, s)" "try_then (Inr a, s) f = f a s"
  by (simp_all add: try_then_def)

section \<open>Numbers as text\<close>

text \<open>What \<open>to_string\<close> and the hexadecimal formats of the standard library print.\<close>

fun decimal_nat :: "nat \<Rightarrow> string" where
  "decimal_nat n = (if n < 10 then [char_of (48 + n)] else decimal_nat (n div 10) @ [char_of (48 + n mod 10)])"

declare decimal_nat.simps [simp del]

definition hex_digit :: "nat \<Rightarrow> char" where
  "hex_digit n = ''0123456789abcdef'' ! n"

definition hex_encode :: "bytes \<Rightarrow> string" where
  "hex_encode bs = concat (map (\<lambda>b. [hex_digit (unat b div 16), hex_digit (unat b mod 16)]) bs)"

end
