(* ===== verification/Protocol.thy ===== *)
theory Protocol
  imports Prelude
begin

text \<open>
  The protocol data of \<open>protocol/rm_display/v2/rm_display.proto\<close> that the receiver's logic
  reads: enumerations, rectangles, regions and frames. Protobuf stores an enumeration as an
  \<open>i32\<close>; \<open>try_from\<close> of the generated code is the partial inverse \<open>*_of_i32\<close>.
  The last section holds the geometry of rectangles that every later component shares.
\<close>

section \<open>Enumerations\<close>

datatype pixel_format = FormatUnspecified | Gray8 | Gray4 | Rgb565Le

datatype encoding = EncodingUnspecified | Raw | Zlib | Zstd

datatype frame_intent = IntentUnspecified | Latest | Settled

datatype content_class = ClassUnspecified | TextUi | Photo | Video | Mixed

fun pixel_format_i32 :: "pixel_format \<Rightarrow> int" where
  "pixel_format_i32 FormatUnspecified = 0"
| "pixel_format_i32 Gray8 = 1"
| "pixel_format_i32 Gray4 = 2"
| "pixel_format_i32 Rgb565Le = 3"

definition pixel_format_of_i32 :: "int \<Rightarrow> pixel_format option" where
  "pixel_format_of_i32 v = (if v = 0 then Some FormatUnspecified else if v = 1 then Some Gray8
     else if v = 2 then Some Gray4 else if v = 3 then Some Rgb565Le else None)"

fun encoding_i32 :: "encoding \<Rightarrow> int" where
  "encoding_i32 EncodingUnspecified = 0"
| "encoding_i32 Raw = 1"
| "encoding_i32 Zlib = 2"
| "encoding_i32 Zstd = 3"

definition encoding_of_i32 :: "int \<Rightarrow> encoding option" where
  "encoding_of_i32 v = (if v = 0 then Some EncodingUnspecified else if v = 1 then Some Raw
     else if v = 2 then Some Zlib else if v = 3 then Some Zstd else None)"

fun frame_intent_i32 :: "frame_intent \<Rightarrow> int" where
  "frame_intent_i32 IntentUnspecified = 0"
| "frame_intent_i32 Latest = 1"
| "frame_intent_i32 Settled = 2"

definition frame_intent_of_i32 :: "int \<Rightarrow> frame_intent option" where
  "frame_intent_of_i32 v = (if v = 0 then Some IntentUnspecified else if v = 1 then Some Latest
     else if v = 2 then Some Settled else None)"

fun content_class_i32 :: "content_class \<Rightarrow> int" where
  "content_class_i32 ClassUnspecified = 0"
| "content_class_i32 TextUi = 1"
| "content_class_i32 Photo = 2"
| "content_class_i32 Video = 3"
| "content_class_i32 Mixed = 4"

definition content_class_of_i32 :: "int \<Rightarrow> content_class option" where
  "content_class_of_i32 v = (if v = 0 then Some ClassUnspecified else if v = 1 then Some TextUi
     else if v = 2 then Some Photo else if v = 3 then Some Video else if v = 4 then Some Mixed
     else None)"

lemma encoding_roundtrip [simp]: "encoding_of_i32 (encoding_i32 e) = Some e"
  by (cases e) (simp_all add: encoding_of_i32_def)

lemma pixel_format_roundtrip [simp]: "pixel_format_of_i32 (pixel_format_i32 e) = Some e"
  by (cases e) (simp_all add: pixel_format_of_i32_def)

lemma frame_intent_roundtrip [simp]: "frame_intent_of_i32 (frame_intent_i32 e) = Some e"
  by (cases e) (simp_all add: frame_intent_of_i32_def)

lemma content_class_roundtrip [simp]: "content_class_of_i32 (content_class_i32 e) = Some e"
  by (cases e) (simp_all add: content_class_of_i32_def)

section \<open>Frames\<close>

record rect =
  rect_x :: nat
  rect_y :: nat
  rect_w :: nat
  rect_h :: nat

record frame_region =
  region_rect :: "rect option"
  region_encoding :: int
  decoded_len :: nat
  decoded_crc32 :: u32
  region_data :: bytes

record frame =
  frame_surface_id :: nat
  frame_generation :: nat
  frame_frame_id :: nat
  frame_base_id :: nat
  frame_intent_field :: int
  frame_content_class :: int
  frame_regions :: "frame_region list"
  source_timestamp_us :: nat

section \<open>Rectangle geometry\<close>

definition mk_rect :: "nat \<Rightarrow> nat \<Rightarrow> nat \<Rightarrow> nat \<Rightarrow> rect" where
  "mk_rect x y w h = \<lparr>rect_x = x, rect_y = y, rect_w = w, rect_h = h\<rparr>"

definition inside :: "rect \<Rightarrow> nat \<Rightarrow> nat \<Rightarrow> bool" where
  "inside r px py \<longleftrightarrow> rect_x r \<le> px \<and> px < rect_x r + rect_w r \<and>
     rect_y r \<le> py \<and> py < rect_y r + rect_h r"

definition covers :: "rect list \<Rightarrow> nat \<Rightarrow> nat \<Rightarrow> bool" where
  "covers rs px py = (\<exists>r\<in>set rs. inside r px py)"

text \<open>The validity test of every rectangle: nonempty, and its far edges inside the surface.\<close>

definition rect_ok :: "nat \<Rightarrow> nat \<Rightarrow> rect \<Rightarrow> bool" where
  "rect_ok W H r \<longleftrightarrow> rect_w r \<noteq> 0 \<and> rect_h r \<noteq> 0 \<and>
     rect_x r + rect_w r \<le> W \<and> rect_y r + rect_h r \<le> H"

definition disjoint_rects :: "rect \<Rightarrow> rect \<Rightarrow> bool" where
  "disjoint_rects a b = (\<forall>px py. \<not> (inside a px py \<and> inside b px py))"

lemma mk_rect_simps [simp]:
  "rect_x (mk_rect x y w h) = x" "rect_y (mk_rect x y w h) = y"
  "rect_w (mk_rect x y w h) = w" "rect_h (mk_rect x y w h) = h"
  by (simp_all add: mk_rect_def)

lemma covers_simps [simp]:
  "covers [] px py = False"
  "covers (r # rs) px py = (inside r px py \<or> covers rs px py)"
  "covers (rs @ ss) px py = (covers rs px py \<or> covers ss px py)"
  by (auto simp: covers_def)

lemma coversI [intro]: "r \<in> set rs \<Longrightarrow> inside r px py \<Longrightarrow> covers rs px py"
  by (auto simp: covers_def)

lemma rect_ok_inside: "rect_ok W H r \<Longrightarrow> inside r px py \<Longrightarrow> px < W \<and> py < H"
  by (auto simp: rect_ok_def inside_def)

lemma covers_bounds: "\<forall>r\<in>set rs. rect_ok W H r \<Longrightarrow> covers rs px py \<Longrightarrow> px < W \<and> py < H"
  by (auto simp: covers_def dest: rect_ok_inside)

lemma full_rect_inside [simp]: "inside (mk_rect 0 0 W H) px py \<longleftrightarrow> px < W \<and> py < H"
  by (auto simp: inside_def)

lemma full_rect_ok [simp]: "rect_ok W H (mk_rect 0 0 W H) \<longleftrightarrow> W \<noteq> 0 \<and> H \<noteq> 0"
  by (auto simp: rect_ok_def)

text \<open>The test \<open>overlaps\<close> of both \<open>semantic.rs\<close> and \<open>surface.rs\<close>.\<close>

definition overlaps :: "rect \<Rightarrow> rect \<Rightarrow> bool" where
  "overlaps left right \<longleftrightarrow>
     rect_x left < rect_x right + rect_w right \<and> rect_x right < rect_x left + rect_w left \<and>
     rect_y left < rect_y right + rect_h right \<and> rect_y right < rect_y left + rect_h left"

lemma overlaps_sym: "overlaps a b = overlaps b a"
  by (auto simp: overlaps_def)

lemma overlaps_iff_common_pixel:
  assumes "rect_ok W H a" and "rect_ok W H b"
  shows "overlaps a b \<longleftrightarrow> \<not> disjoint_rects a b"
proof
  assume o: "overlaps a b"
  let ?x = "max (rect_x a) (rect_x b)" and ?y = "max (rect_y a) (rect_y b)"
  have "inside a ?x ?y" "inside b ?x ?y"
    using o assms by (auto simp: overlaps_def inside_def rect_ok_def max_def)
  then show "\<not> disjoint_rects a b" by (auto simp: disjoint_rects_def)
next
  assume "\<not> disjoint_rects a b"
  then show "overlaps a b" by (auto simp: disjoint_rects_def inside_def overlaps_def)
qed

text \<open>
  The pairwise test the source runs with two nested loops over the regions, the inner one from
  the index after the outer one.
\<close>

fun any_overlap :: "rect list \<Rightarrow> bool" where
  "any_overlap [] = False"
| "any_overlap (left # rest) = (list_ex (\<lambda>right. overlaps left right) rest \<or> any_overlap rest)"

lemma any_overlap_sound:
  assumes "\<not> any_overlap rs" and "i < j" and "j < length rs"
  shows "\<not> overlaps (rs ! i) (rs ! j)"
  using assms
proof (induction rs arbitrary: i j)
  case Nil
  then show ?case by simp
next
  case (Cons r rs)
  from Cons.prems(2) obtain j' where j: "j = Suc j'" by (cases j) auto
  show ?case
  proof (cases i)
    case 0
    with Cons.prems j show ?thesis by (auto simp: list_ex_iff)
  next
    case (Suc i')
    with Cons j show ?thesis by simp
  qed
qed

end
