(* ===== verification/Refresh.thy ===== *)
theory Refresh
  imports Protocol
begin

text \<open>
  The semantic refresh policy, \<open>crates/rm-display-core/src/refresh.rs\<close>: profiles and their
  presets, validation of a configuration, the decision for one submission, and the cleanup
  debt that the policy counts. The lemmas give the decision table, the invariant of the
  policy and the bound that periodic cleanup puts on the debt.
\<close>

section \<open>Data\<close>

datatype waveform = Fastest | Fast | QualityWf | FullQuality

datatype refresh_profile = Realtime | Animate | Balanced | Reading | QualityProfile | Custom

datatype full_refresh_reason =
  ReasonNone | PartialDisabled | Forced | FirstFrame | Periodic | LargeDamage | StaticFastDebt

datatype refresh_config_error =
  ZeroDamageTile | InvalidAreaThreshold | ConfiguredFullQuality | DebtWithoutPresentation

fun waveform_value :: "waveform \<Rightarrow> nat" where
  "waveform_value Fastest = 0"
| "waveform_value Fast = 1"
| "waveform_value QualityWf = 3"
| "waveform_value FullQuality = 4"

fun profile_as_str :: "refresh_profile \<Rightarrow> string" where
  "profile_as_str Realtime = ''realtime''"
| "profile_as_str Animate = ''animate''"
| "profile_as_str Balanced = ''balanced''"
| "profile_as_str Reading = ''reading''"
| "profile_as_str QualityProfile = ''quality''"
| "profile_as_str Custom = ''custom''"

record refresh_decision =
  dec_waveform :: waveform
  complete_refresh :: bool
  dec_reason :: full_refresh_reason

record refresh_debt =
  debt_has_presented :: bool
  debt_partial_updates :: nat

record refresh_config =
  cfg_profile :: refresh_profile
  latest_text_waveform :: waveform
  latest_photo_waveform :: waveform
  latest_video_waveform :: waveform
  settled_waveform :: waveform
  partial_refresh_enabled :: bool
  cleanup_after_updates :: nat
  clean_first_frame :: bool
  large_update_threshold_percent :: nat
  static_cleanup_after_fast_updates :: nat
  cfg_damage_tile :: nat

record refresh_policy =
  pol_config :: refresh_config
  presented_since_cleanup :: nat
  has_presented :: bool

section \<open>Configuration\<close>

definition debt_validate :: "refresh_debt \<Rightarrow> (refresh_config_error, unit) result" where
  "debt_validate d =
     (if \<not> debt_has_presented d \<and> debt_partial_updates d \<noteq> 0 then Inl DebtWithoutPresentation
      else Inr ())"

fun for_profile :: "refresh_profile \<Rightarrow> refresh_config" where
  "for_profile Realtime = \<lparr>cfg_profile = Realtime, latest_text_waveform = Fastest,
     latest_photo_waveform = QualityWf, latest_video_waveform = Fastest,
     settled_waveform = QualityWf, partial_refresh_enabled = True, cleanup_after_updates = 0,
     clean_first_frame = False, large_update_threshold_percent = 0,
     static_cleanup_after_fast_updates = 0, cfg_damage_tile = 64\<rparr>"
| "for_profile Animate = \<lparr>cfg_profile = Animate, latest_text_waveform = Fastest,
     latest_photo_waveform = QualityWf, latest_video_waveform = Fastest,
     settled_waveform = QualityWf, partial_refresh_enabled = True, cleanup_after_updates = 0,
     clean_first_frame = True, large_update_threshold_percent = 0,
     static_cleanup_after_fast_updates = 0, cfg_damage_tile = 64\<rparr>"
| "for_profile Balanced = \<lparr>cfg_profile = Balanced, latest_text_waveform = Fast,
     latest_photo_waveform = QualityWf, latest_video_waveform = Fastest,
     settled_waveform = QualityWf, partial_refresh_enabled = True, cleanup_after_updates = 0,
     clean_first_frame = True, large_update_threshold_percent = 0,
     static_cleanup_after_fast_updates = 0, cfg_damage_tile = 64\<rparr>"
| "for_profile Reading = \<lparr>cfg_profile = Reading, latest_text_waveform = QualityWf,
     latest_photo_waveform = QualityWf, latest_video_waveform = Fast,
     settled_waveform = QualityWf, partial_refresh_enabled = True, cleanup_after_updates = 0,
     clean_first_frame = True, large_update_threshold_percent = 0,
     static_cleanup_after_fast_updates = 0, cfg_damage_tile = 64\<rparr>"
| "for_profile QualityProfile = \<lparr>cfg_profile = QualityProfile, latest_text_waveform = QualityWf,
     latest_photo_waveform = QualityWf, latest_video_waveform = QualityWf,
     settled_waveform = QualityWf, partial_refresh_enabled = True, cleanup_after_updates = 0,
     clean_first_frame = True, large_update_threshold_percent = 0,
     static_cleanup_after_fast_updates = 0, cfg_damage_tile = 64\<rparr>"
| "for_profile Custom = \<lparr>cfg_profile = Custom, latest_text_waveform = Fast,
     latest_photo_waveform = QualityWf, latest_video_waveform = Fastest,
     settled_waveform = QualityWf, partial_refresh_enabled = True, cleanup_after_updates = 90,
     clean_first_frame = True, large_update_threshold_percent = 0,
     static_cleanup_after_fast_updates = 6, cfg_damage_tile = 64\<rparr>"

definition config_validate :: "refresh_config \<Rightarrow> (refresh_config_error, unit) result" where
  "config_validate c =
     (if cfg_damage_tile c = 0 then Inl ZeroDamageTile
      else if large_update_threshold_percent c > 100 then Inl InvalidAreaThreshold
      else if latest_text_waveform c = FullQuality \<or> latest_photo_waveform c = FullQuality \<or>
        latest_video_waveform c = FullQuality \<or> settled_waveform c = FullQuality
      then Inl ConfiguredFullQuality
      else Inr ())"

definition switched_to :: "refresh_config \<Rightarrow> refresh_profile \<Rightarrow> refresh_config" where
  "switched_to c p =
     (let old_preset = for_profile (cfg_profile c);
          next0 = for_profile p;
          next1 = (if cleanup_after_updates c \<noteq> cleanup_after_updates old_preset
                   then next0\<lparr>cleanup_after_updates := cleanup_after_updates c\<rparr> else next0);
          next2 = (if large_update_threshold_percent c \<noteq> large_update_threshold_percent old_preset
                   then next1\<lparr>large_update_threshold_percent := large_update_threshold_percent c\<rparr>
                   else next1);
          next3 = (if static_cleanup_after_fast_updates c
                        \<noteq> static_cleanup_after_fast_updates old_preset
                   then next2\<lparr>static_cleanup_after_fast_updates :=
                                static_cleanup_after_fast_updates c\<rparr>
                   else next2)
      in next3\<lparr>partial_refresh_enabled := partial_refresh_enabled c,
               clean_first_frame := clean_first_frame c,
               cfg_damage_tile := cfg_damage_tile c\<rparr>)"

definition default_config :: refresh_config where
  "default_config = for_profile Balanced"

section \<open>The policy\<close>

definition policy_new :: "refresh_config \<Rightarrow> (refresh_config_error, refresh_policy) result" where
  "policy_new c = and_then (config_validate c)
     (\<lambda>_. Inr \<lparr>pol_config = c, presented_since_cleanup = 0, has_presented = False\<rparr>)"

definition area_cleanup_due :: "refresh_config \<Rightarrow> frame_intent \<Rightarrow> nat \<Rightarrow> nat \<Rightarrow> bool" where
  "area_cleanup_due c intent damage panel \<longleftrightarrow>
     intent = Settled \<and> large_update_threshold_percent c > 0 \<and>
     sat_mul_u64 damage 100 \<ge> sat_mul_u64 panel (large_update_threshold_percent c)"

definition full_reason ::
  "refresh_policy \<Rightarrow> frame_intent \<Rightarrow> nat \<Rightarrow> nat \<Rightarrow> bool \<Rightarrow> full_refresh_reason" where
  "full_reason p intent damage panel force_cleanup =
     (let c = pol_config p in
      if \<not> partial_refresh_enabled c then PartialDisabled
      else if force_cleanup then Forced
      else if \<not> has_presented p \<and> clean_first_frame c then FirstFrame
      else if cleanup_after_updates c > 0 \<and> presented_since_cleanup p \<ge> cleanup_after_updates c
      then Periodic
      else if area_cleanup_due c intent damage panel then LargeDamage
      else ReasonNone)"

definition decide ::
  "refresh_policy \<Rightarrow> frame_intent \<Rightarrow> content_class \<Rightarrow> nat \<Rightarrow> nat \<Rightarrow> bool \<Rightarrow> refresh_decision" where
  "decide p intent class damage panel force_cleanup =
     (let c = pol_config p; reason = full_reason p intent damage panel force_cleanup in
      if reason \<noteq> ReasonNone then
        \<lparr>dec_waveform = (case cfg_profile c of QualityProfile \<Rightarrow> FullQuality | _ \<Rightarrow> QualityWf),
         complete_refresh = True, dec_reason = reason\<rparr>
      else
        \<lparr>dec_waveform =
           (if intent = Settled then settled_waveform c
            else case class of
                Photo \<Rightarrow> latest_photo_waveform c
              | Video \<Rightarrow> latest_video_waveform c
              | _ \<Rightarrow> latest_text_waveform c),
         complete_refresh = False, dec_reason = ReasonNone\<rparr>)"

definition presented_submissions :: "refresh_decision \<Rightarrow> nat \<Rightarrow> refresh_policy \<Rightarrow> refresh_policy" where
  "presented_submissions d n p = p\<lparr>has_presented := True,
     presented_since_cleanup :=
       (if complete_refresh d then 0 else sat_add_u32 (presented_since_cleanup p) n)\<rparr>"

definition policy_presented :: "refresh_decision \<Rightarrow> refresh_policy \<Rightarrow> refresh_policy" where
  "policy_presented d p = presented_submissions d 1 p"

definition policy_debt :: "refresh_policy \<Rightarrow> refresh_debt" where
  "policy_debt p = \<lparr>debt_has_presented = has_presented p,
     debt_partial_updates = presented_since_cleanup p\<rparr>"

definition restore_debt ::
  "refresh_debt \<Rightarrow> refresh_policy \<Rightarrow> (refresh_config_error, refresh_policy) result" where
  "restore_debt d p = and_then (debt_validate d)
     (\<lambda>_. Inr (p\<lparr>has_presented := debt_has_presented d,
                presented_since_cleanup := debt_partial_updates d\<rparr>))"

definition reconfigure ::
  "refresh_config \<Rightarrow> refresh_policy \<Rightarrow> (refresh_config_error, refresh_policy) result" where
  "reconfigure c p = and_then (config_validate c) (\<lambda>_. Inr (p\<lparr>pol_config := c\<rparr>))"

definition damage_for_decision :: "refresh_decision \<Rightarrow> nat \<Rightarrow> nat \<Rightarrow> rect list \<Rightarrow> rect list" where
  "damage_for_decision d width height damage =
     (if complete_refresh d then [mk_rect 0 0 width height] else damage)"

section \<open>Validity\<close>

definition config_ok :: "refresh_config \<Rightarrow> bool" where
  "config_ok c = is_ok (config_validate c)"

lemma config_ok_iff: "config_ok c \<longleftrightarrow>
    cfg_damage_tile c \<noteq> 0 \<and> large_update_threshold_percent c \<le> 100 \<and>
    latest_text_waveform c \<noteq> FullQuality \<and> latest_photo_waveform c \<noteq> FullQuality \<and>
    latest_video_waveform c \<noteq> FullQuality \<and> settled_waveform c \<noteq> FullQuality"
  by (auto simp: config_ok_def config_validate_def)

lemma config_validate_Inr [simp]: "config_validate c = Inr u \<longleftrightarrow> config_ok c"
  by (auto simp: config_ok_def config_validate_def)

lemma for_profile_ok [simp]: "config_ok (for_profile p)"
  by (cases p) (simp_all add: config_ok_iff)

lemma switched_to_simps [simp]:
  "cfg_profile (switched_to c p) = p"
  "cfg_damage_tile (switched_to c p) = cfg_damage_tile c"
  "partial_refresh_enabled (switched_to c p) = partial_refresh_enabled c"
  "clean_first_frame (switched_to c p) = clean_first_frame c"
  "latest_text_waveform (switched_to c p) = latest_text_waveform (for_profile p)"
  "latest_photo_waveform (switched_to c p) = latest_photo_waveform (for_profile p)"
  "latest_video_waveform (switched_to c p) = latest_video_waveform (for_profile p)"
  "settled_waveform (switched_to c p) = settled_waveform (for_profile p)"
  by (cases p; simp add: switched_to_def Let_def)+

lemma switched_to_counters:
  "cleanup_after_updates (switched_to c p) =
     (if cleanup_after_updates c \<noteq> cleanup_after_updates (for_profile (cfg_profile c))
      then cleanup_after_updates c else cleanup_after_updates (for_profile p))"
  "large_update_threshold_percent (switched_to c p) =
     (if large_update_threshold_percent c
          \<noteq> large_update_threshold_percent (for_profile (cfg_profile c))
      then large_update_threshold_percent c
      else large_update_threshold_percent (for_profile p))"
  "static_cleanup_after_fast_updates (switched_to c p) =
     (if static_cleanup_after_fast_updates c
          \<noteq> static_cleanup_after_fast_updates (for_profile (cfg_profile c))
      then static_cleanup_after_fast_updates c
      else static_cleanup_after_fast_updates (for_profile p))"
  by (simp_all add: switched_to_def Let_def)

lemma switched_to_ok: "config_ok c \<Longrightarrow> config_ok (switched_to c p)"
  using for_profile_ok [of p] by (auto simp: config_ok_iff switched_to_counters)

section \<open>The decision\<close>

lemma full_reason_None_iff: "full_reason p intent damage panel force = ReasonNone \<longleftrightarrow>
    partial_refresh_enabled (pol_config p) \<and> \<not> force \<and>
    (has_presented p \<or> \<not> clean_first_frame (pol_config p)) \<and>
    (cleanup_after_updates (pol_config p) = 0 \<or>
     presented_since_cleanup p < cleanup_after_updates (pol_config p)) \<and>
    \<not> area_cleanup_due (pol_config p) intent damage panel"
  by (auto simp: full_reason_def Let_def)

lemma decide_complete [simp]:
  "complete_refresh (decide p i c d n f) \<longleftrightarrow> full_reason p i d n f \<noteq> ReasonNone"
  by (simp add: decide_def Let_def)

lemma decide_reason [simp]: "dec_reason (decide p i c d n f) = full_reason p i d n f"
  by (simp add: decide_def Let_def)

lemma decide_forced [simp]: "complete_refresh (decide p i c d n True)"
  by (simp add: full_reason_None_iff)

lemma decide_waveform:
  "dec_waveform (decide p i c d n f) =
    (if full_reason p i d n f \<noteq> ReasonNone
     then (if cfg_profile (pol_config p) = QualityProfile then FullQuality else QualityWf)
     else if i = Settled then settled_waveform (pol_config p)
     else case c of Photo \<Rightarrow> latest_photo_waveform (pol_config p)
            | Video \<Rightarrow> latest_video_waveform (pol_config p)
            | _ \<Rightarrow> latest_text_waveform (pol_config p))"
  by (simp add: decide_def Let_def split: refresh_profile.splits)

section \<open>The policy as a state machine\<close>

text \<open>
  The states a policy can take: it is created from a configuration and then changed by
  recorded submissions, reconfiguration and restored debt. \<open>u32\<close> bounds of the arguments
  are premises of the rules, since the model's counters are \<open>nat\<close>.
\<close>

inductive policy_reachable :: "refresh_policy \<Rightarrow> bool" where
  policy_init: "policy_new c = Inr p \<Longrightarrow> policy_reachable p"
| policy_present: "policy_reachable p \<Longrightarrow> policy_reachable (presented_submissions d n p)"
| policy_reconfigure:
    "policy_reachable p \<Longrightarrow> reconfigure c p = Inr p' \<Longrightarrow> policy_reachable p'"
| policy_restore:
    "policy_reachable p \<Longrightarrow> debt_partial_updates d \<le> u32_max \<Longrightarrow> restore_debt d p = Inr p' \<Longrightarrow>
     policy_reachable p'"

definition policy_inv :: "refresh_policy \<Rightarrow> bool" where
  "policy_inv p \<longleftrightarrow> config_ok (pol_config p) \<and>
     (has_presented p \<or> presented_since_cleanup p = 0) \<and> presented_since_cleanup p \<le> u32_max"

lemma policy_new_inv: "policy_new c = Inr p \<Longrightarrow> policy_inv p"
  by (auto simp: policy_new_def and_then_Inr_iff policy_inv_def)

lemma presented_submissions_inv: "policy_inv p \<Longrightarrow> policy_inv (presented_submissions d n p)"
  by (simp add: policy_inv_def presented_submissions_def)

lemma reconfigure_inv: "policy_inv p \<Longrightarrow> reconfigure c p = Inr p' \<Longrightarrow> policy_inv p'"
  by (auto simp: policy_inv_def reconfigure_def and_then_Inr_iff)

lemma restore_debt_inv:
  "policy_inv p \<Longrightarrow> debt_partial_updates d \<le> u32_max \<Longrightarrow> restore_debt d p = Inr p' \<Longrightarrow> policy_inv p'"
  by (auto simp: policy_inv_def restore_debt_def debt_validate_def and_then_Inr_iff
      split: if_splits)

lemma policy_reachable_inv: "policy_reachable p \<Longrightarrow> policy_inv p"
  by (induction rule: policy_reachable.induct)
    (auto intro: policy_new_inv presented_submissions_inv reconfigure_inv restore_debt_inv)

text \<open>
  Claim C30. In every reachable policy state the configuration is valid, debt exists only after a
  presentation, and a decision uses the reserved FULL_QUALITY waveform only for a complete
  refresh under the quality profile; a partial update never uses it.
\<close>

theorem full_quality_reserved:
  assumes "policy_reachable p"
  shows "policy_inv p \<and>
    (dec_waveform (decide p intent cls damage panel force) = FullQuality \<longleftrightarrow>
       complete_refresh (decide p intent cls damage panel force) \<and>
       cfg_profile (pol_config p) = QualityProfile)"
proof -
  have inv: "policy_inv p" using assms by (rule policy_reachable_inv)
  then show ?thesis
    by (cases cls) (auto simp: decide_waveform policy_inv_def config_ok_iff)
qed

lemma policy_reachable_default:
  "policy_reachable \<lparr>pol_config = for_profile q, presented_since_cleanup = 0, has_presented = False\<rparr>"
  by (rule policy_reachable.policy_init [of "for_profile q"]) (auto simp: policy_new_def and_then_Inr_iff)

theorem full_quality_reserved_witness:
  "dec_waveform (decide \<lparr>pol_config = for_profile QualityProfile, presented_since_cleanup = 0,
     has_presented = False\<rparr> Latest TextUi 1 100 False) = FullQuality"
  using full_quality_reserved [OF policy_reachable_default [of QualityProfile],
      of Latest TextUi 1 100 False]
  by (simp add: full_reason_def)

text \<open>When a decision is a complete refresh, in terms of the configuration alone.\<close>

lemma decision_table:
  "complete_refresh (decide p intent cls damage panel force) \<longleftrightarrow>
     (\<not> partial_refresh_enabled (pol_config p) \<or> force \<or>
      (\<not> has_presented p \<and> clean_first_frame (pol_config p)) \<or>
      (0 < cleanup_after_updates (pol_config p) \<and>
       cleanup_after_updates (pol_config p) \<le> presented_since_cleanup p) \<or>
      (intent = Settled \<and> 0 < large_update_threshold_percent (pol_config p) \<and>
       sat_mul_u64 panel (large_update_threshold_percent (pol_config p)) \<le> sat_mul_u64 damage 100))"
  by (auto simp: full_reason_None_iff area_cleanup_due_def)

section \<open>Periodic cleanup bounds the debt\<close>

text \<open>
  One presentation of the scheduler, seen from the policy: decide, submit (the backend reports
  how many physical updates it made), record.
\<close>

record refresh_request =
  req_intent :: frame_intent
  req_class :: content_class
  req_damage :: nat
  req_panel :: nat
  req_force :: bool
  req_physical :: nat

definition policy_step :: "refresh_request \<Rightarrow> refresh_policy \<Rightarrow> refresh_policy" where
  "policy_step r p = presented_submissions
     (decide p (req_intent r) (req_class r) (req_damage r) (req_panel r) (req_force r))
     (req_physical r) p"

lemma policy_step_config [simp]: "pol_config (policy_step r p) = pol_config p"
  by (simp add: policy_step_def presented_submissions_def)

lemma policy_step_bound:
  assumes n: "0 < cleanup_after_updates (pol_config p)"
    and c: "presented_since_cleanup p < cleanup_after_updates (pol_config p) + k"
    and k: "req_physical r \<le> k"
  shows "presented_since_cleanup (policy_step r p) < cleanup_after_updates (pol_config p) + k"
  using assms
  by (auto simp: policy_step_def presented_submissions_def full_reason_None_iff sat_add_u32_def)


definition custom_policy :: "nat \<Rightarrow> refresh_policy" where
  "custom_policy n = \<lparr>pol_config = (for_profile Custom)\<lparr>cleanup_after_updates := n\<rparr>,
     presented_since_cleanup = 0, has_presented = True\<rparr>"

definition latest_request :: refresh_request where
  "latest_request = \<lparr>req_intent = Latest, req_class = TextUi, req_damage = 1, req_panel = 100,
     req_force = False, req_physical = 1\<rparr>"


section \<open>Switching presets\<close>

lemma named_counters:
  "p \<noteq> Custom \<Longrightarrow> cleanup_after_updates (for_profile p) = 0"
  "p \<noteq> Custom \<Longrightarrow> large_update_threshold_percent (for_profile p) = 0"
  "p \<noteq> Custom \<Longrightarrow> static_cleanup_after_fast_updates (for_profile p) = 0"
  by (cases p; simp)+

text \<open>
  Switching among the named presets keeps every operator override: after switching to
  another named preset and back, the configuration equals the original one with the waveforms
  of its preset, and a valid configuration stays valid on the way.
\<close>

theorem switch_roundtrip:
  assumes "cfg_profile c \<noteq> Custom" and "q \<noteq> Custom" and "config_ok c"
  shows "switched_to (switched_to c q) (cfg_profile c) =
      c\<lparr>latest_text_waveform := latest_text_waveform (for_profile (cfg_profile c)),
        latest_photo_waveform := latest_photo_waveform (for_profile (cfg_profile c)),
        latest_video_waveform := latest_video_waveform (for_profile (cfg_profile c)),
        settled_waveform := settled_waveform (for_profile (cfg_profile c))\<rparr> \<and>
    config_ok (switched_to c q)"
  using assms switched_to_ok [of c q]
  by (auto intro!: refresh_config.equality simp: switched_to_counters named_counters)

theorem switch_roundtrip_witness:
  "switched_to (switched_to ((for_profile Balanced)\<lparr>cleanup_after_updates := 7\<rparr>) QualityProfile)
     Balanced = (for_profile Balanced)\<lparr>cleanup_after_updates := 7\<rparr>"
  using switch_roundtrip [of "(for_profile Balanced)\<lparr>cleanup_after_updates := 7\<rparr>" QualityProfile]
  by (simp add: config_ok_iff)

text \<open>
  Through CUSTOM the round trip fails: an override that happens to equal a value of the CUSTOM
  baseline is taken for a preset value and dropped on the way back.
\<close>

lemma switch_through_custom_loses_override:
  "cleanup_after_updates (switched_to (switched_to
     ((for_profile Balanced)\<lparr>cleanup_after_updates := 90\<rparr>) Custom) Balanced) = 0"
  by (simp add: switched_to_counters)

end
