(* ===== verification/Grid.thy ===== *)
theory Grid
  imports Protocol
begin

text \<open>
  Packed pixel buffers seen pixel by pixel. \<open>pixel_at b xs j\<close> is pixel \<open>j\<close> (in row-major
  order) of a buffer whose pixels have \<open>b\<close> bytes. The loops of the source that walk over
  rectangles, rows and pixels are described by \<open>writes n b f P g\<close>: the step \<open>f\<close> replaces
  every pixel \<open>j\<close> with \<open>P j\<close> by \<open>g j\<close> of its old value and leaves the others. Such
  steps compose, and a fold of them is again such a step when no pixel is visited twice or
  visiting it twice makes no difference; that one lemma carries the loops of copying, blending
  and composing.
\<close>

definition pixel_at :: "nat \<Rightarrow> 'a list \<Rightarrow> nat \<Rightarrow> 'a list" where
  "pixel_at b xs j = slice xs (j * b) b"

definition in_rect :: "nat \<Rightarrow> rect \<Rightarrow> nat \<Rightarrow> bool" where
  "in_rect W r j = inside r (j mod W) (j div W)"

lemma pixel_in_bounds: "length xs = n * b \<Longrightarrow> j < n \<Longrightarrow> in_bounds xs (j * b) b"
  using mult_le_mono1 [of "Suc j" n b] by (simp add: in_bounds_def)

lemma length_pixel_at: "length xs = n * b \<Longrightarrow> j < n \<Longrightarrow> length (pixel_at b xs j) = b"
  unfolding pixel_at_def by (rule length_slice [OF pixel_in_bounds])

lemma pixel_at_one: "j < length xs \<Longrightarrow> pixel_at (Suc 0) xs j = [xs ! j]"
  by (simp add: pixel_at_def slice_def take_Suc_conv_app_nth Cons_nth_drop_Suc [symmetric])

lemma nth_pixel_at: "length xs = n * b \<Longrightarrow> j < n \<Longrightarrow> k < b \<Longrightarrow> pixel_at b xs j ! k = xs ! (j * b + k)"
  unfolding pixel_at_def by (rule nth_slice [OF pixel_in_bounds])

lemma pixel_at_eqI:
  assumes "length xs = n * b" and "length ys = n * b"
    and "\<And>j. j < n \<Longrightarrow> pixel_at b xs j = pixel_at b ys j"
  shows "xs = ys"
proof (rule nth_equalityI)
  show "length xs = length ys" using assms by simp
next
  fix i assume i: "i < length xs"
  then have b: "0 < b" using assms by (cases b) auto
  have j: "i div b < n" using i b assms(1) by (simp add: div_less_iff_less_mult)
  have k: "i mod b < b" using b by simp
  have "pixel_at b xs (i div b) ! (i mod b) = pixel_at b ys (i div b) ! (i mod b)"
    using assms(3) [OF j] by simp
  then show "xs ! i = ys ! i"
    using nth_pixel_at [OF assms(1) j k] nth_pixel_at [OF assms(2) j k] by simp
qed

lemma pixel_at_eq_iff:
  assumes "length xs = n * b" and "length ys = n * b" and "j < n"
  shows "pixel_at b xs j = pixel_at b ys j \<longleftrightarrow> (\<forall>k<b. xs ! (j * b + k) = ys ! (j * b + k))"
  using length_pixel_at [OF assms(1,3)] length_pixel_at [OF assms(2,3)]
    nth_pixel_at [OF assms(1,3)] nth_pixel_at [OF assms(2,3)]
  by (auto simp: list_eq_iff_nth_eq)

lemma row_pixel_position: "x < W \<Longrightarrow> (y * W + x) mod W = x \<and> (y * W + x) div W = (y :: nat)"
  by simp

lemma in_rect_position [simp]: "x < W \<Longrightarrow> in_rect W r (y * W + x) = inside r x y"
  by (simp add: in_rect_def)

lemma position_less: "j < W * H \<Longrightarrow> j mod W < W \<and> j div W < (H :: nat)"
  by (cases "W = 0") (simp_all add: div_less_iff_less_mult mult.commute)

section \<open>Pixelwise steps\<close>

definition writes ::
  "nat \<Rightarrow> nat \<Rightarrow> ('a list \<Rightarrow> 'a list) \<Rightarrow> (nat \<Rightarrow> bool) \<Rightarrow> (nat \<Rightarrow> 'a list \<Rightarrow> 'a list) \<Rightarrow> bool" where
  "writes n b f P g \<longleftrightarrow> (\<forall>xs. length xs = n * b \<longrightarrow> length (f xs) = n * b \<and>
     (\<forall>j<n. pixel_at b (f xs) j = (if P j then g j (pixel_at b xs j) else pixel_at b xs j)))"

lemma writesI:
  assumes "\<And>xs. length xs = n * b \<Longrightarrow> length (f xs) = n * b"
    and "\<And>xs j. length xs = n * b \<Longrightarrow> j < n \<Longrightarrow>
      pixel_at b (f xs) j = (if P j then g j (pixel_at b xs j) else pixel_at b xs j)"
  shows "writes n b f P g"
  using assms by (simp add: writes_def)

lemma writes_length: "writes n b f P g \<Longrightarrow> length xs = n * b \<Longrightarrow> length (f xs) = n * b"
  by (simp add: writes_def)

lemma writes_pixel:
  "writes n b f P g \<Longrightarrow> length xs = n * b \<Longrightarrow> j < n \<Longrightarrow>
   pixel_at b (f xs) j = (if P j then g j (pixel_at b xs j) else pixel_at b xs j)"
  by (simp add: writes_def)

lemma writes_id: "writes n b (\<lambda>xs. xs) (\<lambda>_. False) g"
  by (simp add: writes_def)

lemma writes_comp:
  assumes "writes n b f P g" and "writes n b f' P' g"
    and "\<And>j v. j < n \<Longrightarrow> P j \<Longrightarrow> P' j \<Longrightarrow> g j (g j v) = g j v"
  shows "writes n b (\<lambda>xs. f' (f xs)) (\<lambda>j. P j \<or> P' j) g"
  using assms by (intro writesI) (simp_all add: writes_length writes_pixel)

lemma writes_cong:
  assumes "writes n b f P g" and "\<And>j. j < n \<Longrightarrow> P j = P' j"
    and "\<And>j v. j < n \<Longrightarrow> P' j \<Longrightarrow> length v = b \<Longrightarrow> g j v = g' j v"
  shows "writes n b f P' g'"
proof (rule writesI)
  fix xs :: "'a list" assume xs: "length xs = n * b"
  then show "length (f xs) = n * b" by (rule writes_length [OF assms(1)])
  fix j assume j: "j < n"
  then show "pixel_at b (f xs) j = (if P' j then g' j (pixel_at b xs j) else pixel_at b xs j)"
    using writes_pixel [OF assms(1) xs j] assms(2) [OF j] assms(3) [OF j _ length_pixel_at [OF xs j]]
    by simp
qed

text \<open>Every pixel is visited once, or visiting it again changes nothing.\<close>

definition revisit_ok :: "nat \<Rightarrow> (nat \<Rightarrow> 'a list \<Rightarrow> 'a list) \<Rightarrow> ('b \<Rightarrow> nat \<Rightarrow> bool) \<Rightarrow> 'b list \<Rightarrow> bool" where
  "revisit_ok n g P = sorted_wrt (\<lambda>x y. \<forall>j<n. P x j \<and> P y j \<longrightarrow> (\<forall>v. g j (g j v) = g j v))"

lemma revisit_ok_const [simp]: "revisit_ok n (\<lambda>j v. h j) P xs"
  by (simp add: revisit_ok_def sorted_wrt_iff_nth_less)

lemma writes_fold:
  assumes "\<And>x. x \<in> set xs \<Longrightarrow> writes n b (f x) (P x) g" and "revisit_ok n g P xs"
  shows "writes n b (fold f xs) (\<lambda>j. \<exists>x\<in>set xs. P x j) g"
  using assms
proof (induction xs)
  case Nil
  then show ?case by (simp add: writes_id id_def)
next
  case (Cons x xs)
  have "writes n b (fold f xs) (\<lambda>j. \<exists>x\<in>set xs. P x j) g"
    using Cons by (simp add: revisit_ok_def)
  moreover have "writes n b (f x) (P x) g" using Cons.prems by simp
  ultimately have "writes n b (\<lambda>ys. fold f xs (f x ys)) (\<lambda>j. P x j \<or> (\<exists>x\<in>set xs. P x j)) g"
    using Cons.prems(2) by (intro writes_comp) (auto simp: revisit_ok_def)
  then show ?case by (simp add: comp_def)
qed

lemma writes_one_pixel:
  assumes "\<And>xs. length xs = n * b \<Longrightarrow> f xs = copy_into xs (i * b) (g i (pixel_at b xs i))"
    and "\<And>v. length v = b \<Longrightarrow> length (g i v) = b" and "i < n"
  shows "writes n b f (\<lambda>j. j = i) g"
proof (rule writesI)
  fix xs :: "'a list"
  assume xs: "length xs = n * b"
  have len: "length (g i (pixel_at b xs i)) = b"
    by (rule assms(2) [OF length_pixel_at [OF xs assms(3)]])
  have bounds: "in_bounds xs (i * b) (length (g i (pixel_at b xs i)))"
    using pixel_in_bounds [OF xs assms(3)] len by simp
  show f: "length (f xs) = n * b" using assms(1) [OF xs] bounds xs by (simp add: length_copy_into)
  fix j assume j: "j < n"
  have "pixel_at b (f xs) j ! k =
      (if j = i then g j (pixel_at b xs j) else pixel_at b xs j) ! k" if k: "k < b" for k
  proof -
    have "j * b + k < length xs" using j k xs mult_le_mono1 [of "Suc j" n b] by simp
    then have "f xs ! (j * b + k) = (if j = i then g i (pixel_at b xs i) ! k else xs ! (j * b + k))"
      using nth_copy_into [OF bounds] assms(1) [OF xs] len k
        cell_ge_iff [of k b i j] cell_less_iff [of k b j "Suc i"]
      by (auto simp: algebra_simps)
    then show ?thesis using nth_pixel_at [OF f j k] nth_pixel_at [OF xs j k]
        nth_pixel_at [of _ n b j k] len k by auto
  qed
  moreover have "length (if j = i then g j (pixel_at b xs j) else pixel_at b xs j) = b"
    using length_pixel_at [OF xs j] len by auto
  ultimately show "pixel_at b (f xs) j = (if j = i then g j (pixel_at b xs j) else pixel_at b xs j)"
    using length_pixel_at [OF f j] by (intro nth_equalityI) simp_all
qed

lemma writes_row_copy:
  assumes "length src = n * b" and "left + w \<le> n"
  shows "writes n b (\<lambda>xs. copy_into xs (left * b) (slice src (left * b) (w * b)))
    (\<lambda>j. left \<le> j \<and> j < left + w) (\<lambda>j v. pixel_at b src j)"
proof (rule writesI)
  fix xs :: "'a list"
  assume xs: "length xs = n * b"
  have "(left + w) * b \<le> n * b" using assms(2) by (rule mult_le_mono1)
  then have sb: "in_bounds src (left * b) (w * b)" "in_bounds xs (left * b) (w * b)"
    using assms(1) xs by (simp_all add: in_bounds_def algebra_simps)
  let ?f = "copy_into xs (left * b) (slice src (left * b) (w * b))"
  show len: "length ?f = n * b" using sb xs by (simp add: length_copy_into length_slice)
  fix j assume j: "j < n"
  show "pixel_at b ?f j = (if left \<le> j \<and> j < left + w then pixel_at b src j else pixel_at b xs j)"
  proof (rule nth_equalityI)
    show "length (pixel_at b ?f j) =
        length (if left \<le> j \<and> j < left + w then pixel_at b src j else pixel_at b xs j)"
      using length_pixel_at [OF len j] length_pixel_at [OF xs j] length_pixel_at [OF assms(1) j]
      by simp
  next
    fix k assume "k < length (pixel_at b ?f j)"
    then have k: "k < b" using length_pixel_at [OF len j] by simp
    have i: "j * b + k < length xs" using j k xs mult_le_mono1 [of "Suc j" n b] by simp
    have range: "left * b \<le> j * b + k \<and> j * b + k < left * b + w * b \<longleftrightarrow> left \<le> j \<and> j < left + w"
      using cell_ge_iff [OF k, of left j] cell_less_iff [OF k, of j "left + w"]
      by (simp add: algebra_simps)
    have "?f ! (j * b + k) = (if left \<le> j \<and> j < left + w then src ! (j * b + k) else xs ! (j * b + k))"
      using nth_copy_into [of xs "left * b" "slice src (left * b) (w * b)" "j * b + k"] sb i range
      by (auto simp: length_slice nth_slice)
    then show "pixel_at b ?f j ! k =
        (if left \<le> j \<and> j < left + w then pixel_at b src j else pixel_at b xs j) ! k"
      using nth_pixel_at [OF len j k] nth_pixel_at [OF xs j k] nth_pixel_at [OF assms(1) j k]
      by simp
  qed
qed

end
