(* ===== verification/Pixels.thy ===== *)
theory Pixels
  imports Prelude
begin

unbundle bit_operations_syntax

text \<open>
  The pixel arithmetic at the end of \<open>crates/rm-display-core/src/surface.rs\<close>: alpha
  blending in 16 bits and the RGB565 pixel format. The lemmas show that no intermediate value
  wraps, that blending stays between its two inputs, and that unpacking and packing an RGB565
  pixel is the identity, so that a transparent overlay pixel leaves either format unchanged.
\<close>

section \<open>Definitions\<close>

definition blend :: "u8 \<Rightarrow> u8 \<Rightarrow> u8 \<Rightarrow> u8" where
  "blend background foreground alpha =
     (let alpha' = ucast alpha :: u16
      in ucast ((ucast foreground * alpha' + ucast background * (255 - alpha') + 127) div 255))"

definition expand5 :: "u8 \<Rightarrow> u8" where
  "expand5 value = (let v = value AND 0x1f in push_bit 3 v OR drop_bit 2 v)"

definition expand6 :: "u8 \<Rightarrow> u8" where
  "expand6 value = (let v = value AND 0x3f in push_bit 2 v OR drop_bit 4 v)"

definition pack_rgb565 :: "u8 \<Rightarrow> u8 \<Rightarrow> u8 \<Rightarrow> u16" where
  "pack_rgb565 red green blue =
     push_bit 8 (ucast red AND 0xf8) OR push_bit 3 (ucast green AND 0xfc) OR drop_bit 3 (ucast blue)"

text \<open>\<open>u16::to_le_bytes\<close> and \<open>u16::from_le_bytes\<close>.\<close>

definition u16_le_bytes :: "u16 \<Rightarrow> bytes" where
  "u16_le_bytes v = [ucast v, ucast (drop_bit 8 v)]"

definition u16_from_le :: "u8 \<Rightarrow> u8 \<Rightarrow> u16" where
  "u16_from_le lo hi = ucast lo OR push_bit 8 (ucast hi)"

definition blend_rgb565 :: "u16 \<Rightarrow> u8 \<Rightarrow> u8 \<Rightarrow> u16" where
  "blend_rgb565 packed foreground alpha =
     pack_rgb565 (blend (expand5 (ucast (drop_bit 11 packed))) foreground alpha)
       (blend (expand6 (ucast (drop_bit 5 packed))) foreground alpha)
       (blend (expand5 (ucast packed)) foreground alpha)"

section \<open>Blending\<close>

lemma u8_le: "unat (w :: u8) \<le> 255"
proof -
  have "unat w < 2 ^ LENGTH(8)" by (rule unsigned_less)
  then show ?thesis by simp
qed

lemma blend_nat:
  "unat (blend background foreground alpha) =
   (unat foreground * unat alpha + unat background * (255 - unat alpha) + 127) div 255"
proof -
  let ?b = "unat background" and ?f = "unat foreground" and ?a = "unat alpha"
  have le: "?a \<le> 255" "?f \<le> 255" "?b \<le> 255" by (rule u8_le)+
  have "?f * ?a \<le> 255 * ?a" "?b * (255 - ?a) \<le> 255 * (255 - ?a)" using le by simp_all
  moreover have "255 * ?a + 255 * (255 - ?a) = 65025" using le by simp
  ultimately have sum: "?f * ?a + ?b * (255 - ?a) \<le> 65025" by linarith
  have u: "unat (ucast w :: u16) = unat w" for w :: u8
    using u8_le [of w] by (simp add: unsigned_ucast_eq take_bit_eq_mod)
  have sub: "unat (255 - ucast alpha :: u16) = 255 - ?a"
    using le by (simp add: unat_sub word_le_nat_alt u)
  have "unat (ucast foreground * ucast alpha + ucast background * (255 - ucast alpha) + 127 :: u16) =
      ?f * ?a + ?b * (255 - ?a) + 127"
    using sum by (simp add: unat_word_ariths u sub)
  then have "unat ((ucast foreground * ucast alpha + ucast background * (255 - ucast alpha) + 127)
      div 255 :: u16) = (?f * ?a + ?b * (255 - ?a) + 127) div 255"
    by (simp add: unat_div)
  then show ?thesis
    using sum by (simp add: blend_def Let_def unsigned_ucast_eq take_bit_eq_mod)
qed

lemma blend_transparent [simp]: "blend background foreground 0 = background"
  by (rule word_unat_eq_iff [THEN iffD2]) (simp add: blend_nat)

lemma blend_opaque [simp]: "blend background foreground 255 = foreground"
  by (rule word_unat_eq_iff [THEN iffD2]) (simp add: blend_nat)

lemma blend_same [simp]: "blend v v alpha = v"
proof -
  have "unat alpha \<le> 255" by (rule u8_le)
  then have "unat v * unat alpha + unat v * (255 - unat alpha) = unat v * 255"
    by (simp add: distrib_left [symmetric])
  then show ?thesis by (intro word_unat_eq_iff [THEN iffD2]) (simp add: blend_nat)
qed

text \<open>The rounding term is half a step: the result is the nearest integer to the exact mix.\<close>

lemma blend_nearest:
  "\<bar>255 * int (unat (blend background foreground alpha)) -
    (int (unat foreground) * int (unat alpha) +
     int (unat background) * (255 - int (unat alpha)))\<bar> \<le> 127"
proof -
  let ?n = "unat foreground * unat alpha + unat background * (255 - unat alpha)"
  have a: "unat alpha \<le> 255" by (rule u8_le)
  then have n: "int ?n = int (unat foreground) * int (unat alpha) +
      int (unat background) * (255 - int (unat alpha))"
    by (simp add: of_nat_diff)
  have "255 * ((?n + 127) div 255) \<le> ?n + 127" "?n + 127 < 255 * ((?n + 127) div 255) + 255"
    using div_mult_mod_eq [of "?n + 127" 255] mod_less_divisor [of 255 "?n + 127"]
    by (linarith, linarith)
  then show ?thesis unfolding blend_nat n [symmetric] by linarith
qed

text \<open>
  Blending is exact at both ends, never leaves the interval between background and
  foreground, and rounds to the nearest value of the 255-step mix; in particular the 16-bit
  intermediate of the source never wraps.
\<close>

theorem blend_correct:
  "blend b f 0 = b \<and> blend b f 255 = f \<and>
   min b f \<le> blend b f a \<and> blend b f a \<le> max b f \<and>
   \<bar>255 * int (unat (blend b f a)) -
     (int (unat f) * int (unat a) + int (unat b) * (255 - int (unat a)))\<bar> \<le> 127"
proof -
  let ?b = "unat b" and ?f = "unat f" and ?a = "unat a"
  have a: "?a \<le> 255" by (rule u8_le)
  have split: "m * ?a + m * (255 - ?a) = 255 * m" for m
    using a by (simp add: distrib_left [symmetric])
  have "?f * ?a \<le> max ?b ?f * ?a" "?b * (255 - ?a) \<le> max ?b ?f * (255 - ?a)" by simp_all
  then have hi: "?f * ?a + ?b * (255 - ?a) \<le> 255 * max ?b ?f"
    using split [of "max ?b ?f"] by linarith
  have "min ?b ?f * ?a \<le> ?f * ?a" "min ?b ?f * (255 - ?a) \<le> ?b * (255 - ?a)" by simp_all
  then have lo: "255 * min ?b ?f \<le> ?f * ?a + ?b * (255 - ?a)"
    using split [of "min ?b ?f"] by linarith
  have "min ?b ?f \<le> (?f * ?a + ?b * (255 - ?a) + 127) div 255"
    and "(?f * ?a + ?b * (255 - ?a) + 127) div 255 \<le> max ?b ?f"
    using hi lo by linarith+
  then have "min b f \<le> blend b f a" "blend b f a \<le> max b f"
    by (auto simp: word_le_nat_alt blend_nat min_def max_def split: if_splits)
  with blend_nearest [of b f a] show ?thesis by simp
qed

section \<open>RGB565\<close>

lemma field_masks:
  "(0x1f :: u8) = mask 5" "(0x3f :: u8) = mask 6"
  "(0xf8 :: u16) = push_bit 3 (mask 5)" "(0xfc :: u16) = push_bit 2 (mask 6)"
  by (simp_all add: mask_eq_exp_minus_1 push_bit_eq_mult)

lemma bit_expand5: "n < 8 \<Longrightarrow> bit (expand5 v) n = bit v (if 3 \<le> n then n - 3 else 2 + n)"
  by (auto simp: expand5_def Let_def field_masks bit_push_bit_iff bit_drop_bit_eq
      bit_and_iff bit_or_iff bit_mask_iff)

lemma bit_expand6: "n < 8 \<Longrightarrow> bit (expand6 v) n = bit v (if 2 \<le> n then n - 2 else 4 + n)"
  by (auto simp: expand6_def Let_def field_masks bit_push_bit_iff bit_drop_bit_eq
      bit_and_iff bit_or_iff bit_mask_iff)

lemma bit_pack_rgb565: "n < 16 \<Longrightarrow> bit (pack_rgb565 r g b) n =
    (if 11 \<le> n then bit r (n - 8) else if 5 \<le> n then bit g (n - 3) else bit b (3 + n))"
  by (auto simp: pack_rgb565_def field_masks bit_push_bit_iff bit_drop_bit_eq
      bit_and_iff bit_or_iff bit_mask_iff bit_unsigned_iff dest: bit_imp_le_length)

lemma rgb565_repack:
  "pack_rgb565 (expand5 (ucast (drop_bit 11 p))) (expand6 (ucast (drop_bit 5 p)))
     (expand5 (ucast p)) = p"
proof (rule bit_word_eqI)
  fix n assume "n < LENGTH(16)"
  then have n: "n < 16" by simp
  show "bit (pack_rgb565 (expand5 (ucast (drop_bit 11 p))) (expand6 (ucast (drop_bit 5 p)))
      (expand5 (ucast p))) n = bit p n"
  proof (cases "11 \<le> n")
    case True
    then have "3 \<le> n - 8" "n - 11 < 8" using n by arith+
    with n True show ?thesis
      by (simp add: bit_pack_rgb565 bit_expand5 bit_unsigned_iff bit_drop_bit_eq)
  next
    case False
    then have "5 \<le> n \<Longrightarrow> 2 \<le> n - 3" "n - 5 < 8" by arith+
    with n False show ?thesis
      by (cases "5 \<le> n")
        (simp_all add: bit_pack_rgb565 bit_expand5 bit_expand6 bit_unsigned_iff bit_drop_bit_eq)
  qed
qed

lemma u16_le_roundtrip: "u16_from_le (ucast v) (ucast (drop_bit 8 v)) = v"
  by (rule bit_word_eqI) (auto simp: u16_from_le_def bit_simps)

lemma u16_from_le_bytes: "u16_le_bytes (u16_from_le lo hi) = [lo, hi]"
  by (auto simp: u16_le_bytes_def u16_from_le_def intro!: bit_word_eqI)
    (auto simp: bit_simps dest: bit_imp_le_length)

lemma blend_rgb565_transparent [simp]: "blend_rgb565 p f 0 = p"
  by (simp add: blend_rgb565_def rgb565_repack)

lemma length_u16_le_bytes [simp]: "length (u16_le_bytes v) = 2"
  by (simp add: u16_le_bytes_def)

end
