(* ===== verification/Semantic.thy ===== *)
theory Semantic
  imports Protocol
begin

text \<open>
  Semantic validation of a frame, \<open>crates/rm-display-protocol/src/semantic.rs\<close>: the checks
  against the surface, the decoding of every region and the pairwise overlap test. The zlib,
  zstd and CRC32 crates are the parameter \<open>decoders\<close>: what reading at most \<open>n\<close> bytes
  from a decoder over some data yields (\<open>None\<close> for a read error), whether the zstd decoder
  can be created, and the hash function. The lemmas show what an accepted frame satisfies, that
  a well-formed raw frame is accepted with its own pixels, and what applying a frame writes.
\<close>

section \<open>Data\<close>

record surface_state =
  st_surface_id :: nat
  st_generation :: nat
  st_width :: nat
  st_height :: nat
  st_pixel_format :: pixel_format
  st_logical_frame_id :: nat
  st_max_regions :: nat
  st_max_frame_bytes :: nat

record decoded_region =
  dr_rect :: rect
  dr_pixels :: bytes

record validated_frame =
  vf_frame_id :: nat
  vf_base_frame_id :: nat
  vf_intent :: frame_intent
  vf_pixel_format :: pixel_format
  vf_decoded_bytes :: nat
  vf_regions :: "decoded_region list"

datatype semantic_error =
  WrongSurface | BadFrameId | BadBase nat nat | Unsupported | BadRegionCount | SemBadRegion
  | RegionOverlap | BadDecodedLength | FrameTooLarge | Decompression | BadCrc | BadKeyframe
  | BadIntent

record decoders =
  zlib_read :: "bytes \<Rightarrow> nat \<Rightarrow> bytes option"
  zstd_new :: "bytes \<Rightarrow> bool"
  zstd_read :: "bytes \<Rightarrow> nat \<Rightarrow> bytes option"
  crc32_hash :: "bytes \<Rightarrow> u32"

fun pixel_format_bytes :: "pixel_format \<Rightarrow> nat option" where
  "pixel_format_bytes Gray8 = Some 1"
| "pixel_format_bytes Rgb565Le = Some 2"
| "pixel_format_bytes _ = None"

section \<open>Validation\<close>

definition validated_rect :: "frame_region \<Rightarrow> surface_state \<Rightarrow> (semantic_error, rect) result" where
  "validated_rect region surface =
     and_then (ok_or SemBadRegion (region_rect region)) (\<lambda>r.
       if rect_w r = 0 \<or> rect_h r = 0 then Inl SemBadRegion
       else and_then (ok_or SemBadRegion (checked_add_u32 (rect_x r) (rect_w r))) (\<lambda>right.
         and_then (ok_or SemBadRegion (checked_add_u32 (rect_y r) (rect_h r))) (\<lambda>bottom.
           if right > st_width surface \<or> bottom > st_height surface then Inl SemBadRegion
           else Inr r)))"

definition decode_exact :: "bytes option \<Rightarrow> nat \<Rightarrow> (semantic_error, bytes) result" where
  "decode_exact output expected =
     (case output of None \<Rightarrow> Inl Decompression
      | Some out \<Rightarrow> if length out \<noteq> expected then Inl BadDecodedLength else Inr out)"

definition decode_region ::
  "decoders \<Rightarrow> frame_region \<Rightarrow> nat \<Rightarrow> (semantic_error, bytes) result" where
  "decode_region d region expected =
     (case encoding_of_i32 (region_encoding region) of
        None \<Rightarrow> Inl Unsupported
      | Some Raw \<Rightarrow>
          if length (region_data region) \<noteq> expected then Inl BadDecodedLength
          else Inr (region_data region)
      | Some Zlib \<Rightarrow> decode_exact (zlib_read d (region_data region) (expected + 1)) expected
      | Some Zstd \<Rightarrow>
          if \<not> zstd_new d (region_data region) then Inl Decompression
          else decode_exact (zstd_read d (region_data region) (expected + 1)) expected
      | Some EncodingUnspecified \<Rightarrow> Inl Unsupported)"

text \<open>
  The loop over the regions with its two running totals; each step is one iteration of the
  source, in the order of its early returns.
\<close>

fun decode_regions ::
  "decoders \<Rightarrow> surface_state \<Rightarrow> nat \<Rightarrow> frame_region list \<Rightarrow> nat \<Rightarrow> nat \<Rightarrow>
   (semantic_error, nat \<times> decoded_region list) result" where
  "decode_regions d surface bpp [] decoded_total encoded_total = Inr (decoded_total, [])"
| "decode_regions d surface bpp (region # regions) decoded_total encoded_total =
     and_then (validated_rect region surface) (\<lambda>r.
     and_then (ok_or FrameTooLarge (checked_mul_usize (rect_w r) (rect_h r))) (\<lambda>pixels.
     and_then (ok_or FrameTooLarge (checked_mul_usize pixels bpp)) (\<lambda>expected.
       if decoded_len region \<noteq> expected then Inl BadDecodedLength else
     and_then (ok_or FrameTooLarge (checked_add_usize decoded_total expected)) (\<lambda>decoded_tot'.
     and_then (ok_or FrameTooLarge (checked_add_usize encoded_total (length (region_data region))))
       (\<lambda>encoded_tot'.
       if decoded_tot' > st_max_frame_bytes surface \<or> encoded_tot' > st_max_frame_bytes surface
       then Inl FrameTooLarge else
     and_then (decode_region d region expected) (\<lambda>out.
       if crc32_hash d out \<noteq> decoded_crc32 region then Inl BadCrc else
     and_then (decode_regions d surface bpp regions decoded_tot' encoded_tot')
       (\<lambda>(total, decoded). Inr (total, \<lparr>dr_rect = r, dr_pixels = out\<rparr> # decoded))))))))"

definition validate_and_decode_frame ::
  "decoders \<Rightarrow> frame \<Rightarrow> surface_state \<Rightarrow> (semantic_error, validated_frame) result" where
  "validate_and_decode_frame d fr surface =
     (if frame_surface_id fr \<noteq> st_surface_id surface \<or>
         frame_generation fr \<noteq> st_generation surface then Inl WrongSurface
      else if frame_frame_id fr = 0 \<or> frame_frame_id fr \<le> st_logical_frame_id surface
      then Inl BadFrameId
      else
      and_then (ok_or Unsupported (pixel_format_bytes (st_pixel_format surface))) (\<lambda>bpp.
      and_then (ok_or BadIntent (frame_intent_of_i32 (frame_intent_field fr))) (\<lambda>intent.
      if intent = IntentUnspecified then Inl BadIntent
      else if frame_regions fr = [] \<or> length (frame_regions fr) > st_max_regions surface \<or>
              length (frame_regions fr) > u16_max then Inl BadRegionCount
      else if frame_base_id fr \<noteq> 0 \<and> frame_base_id fr \<noteq> st_logical_frame_id surface
      then Inl (BadBase (st_logical_frame_id surface) (frame_base_id fr))
      else
      and_then (decode_regions d surface bpp (frame_regions fr) 0 0) (\<lambda>(decoded_total, decoded).
      if any_overlap (map dr_rect decoded) then Inl RegionOverlap
      else if frame_base_id fr = 0 \<and>
              (length decoded \<noteq> 1 \<or>
               dr_rect (hd decoded) \<noteq> mk_rect 0 0 (st_width surface) (st_height surface))
      then Inl BadKeyframe
      else Inr \<lparr>vf_frame_id = frame_frame_id fr, vf_base_frame_id = frame_base_id fr,
                vf_intent = intent, vf_pixel_format = st_pixel_format surface,
                vf_decoded_bytes = decoded_total, vf_regions = decoded\<rparr>))))"

definition raw_region :: "decoders \<Rightarrow> rect \<Rightarrow> bytes \<Rightarrow> frame_region" where
  "raw_region d r out = \<lparr>region_rect = Some r, region_encoding = encoding_i32 Raw,
     decoded_len = length out mod 2 ^ 32, decoded_crc32 = crc32_hash d out, region_data = out\<rparr>"

section \<open>Applying a validated frame\<close>

text \<open>
  \<open>apply_validated_frame\<close> of the source writes each region's rows into a packed buffer;
  its destination index multiplies the row by the byte width of a row, which is the same
  position as in \<open>blit_row\<close>.
\<close>

definition apply_row :: "nat \<Rightarrow> nat \<Rightarrow> decoded_region \<Rightarrow> nat \<Rightarrow> bytes \<Rightarrow> bytes" where
  "apply_row width bpp region row surface =
     (let row_width = width * bpp; region_width = rect_w (dr_rect region) * bpp;
          src = row * region_width;
          dst = (rect_y (dr_rect region) + row) * row_width + rect_x (dr_rect region) * bpp
      in copy_into surface dst (slice (dr_pixels region) src region_width))"

definition apply_validated_frame :: "bytes \<Rightarrow> nat \<Rightarrow> validated_frame \<Rightarrow> bytes" where
  "apply_validated_frame surface width fr =
     (case pixel_format_bytes (vf_pixel_format fr) of
        None \<Rightarrow> surface
      | Some bpp \<Rightarrow>
          fold (\<lambda>region s. fold (apply_row width bpp region) [0..<rect_h (dr_rect region)] s)
            (vf_regions fr) surface)"

section \<open>What an accepted frame satisfies\<close>

lemma validated_rect_Inr: "validated_rect region surface = Inr r \<Longrightarrow>
    region_rect region = Some r \<and> rect_ok (st_width surface) (st_height surface) r"
  by (auto simp: validated_rect_def and_then_Inr_iff rect_ok_def range_simps split: if_splits)

lemma validated_rect_ok:
  assumes "region_rect region = Some r" and "rect_ok (st_width surface) (st_height surface) r"
    and "st_width surface \<le> u32_max" and "st_height surface \<le> u32_max"
  shows "validated_rect region surface = Inr r"
  using assms by (auto simp: validated_rect_def rect_ok_def checked_add_u32_def)

lemma decode_exact_length: "decode_exact v n = Inr out \<Longrightarrow> length out = n"
  by (auto simp: decode_exact_def split: option.splits if_splits)

lemma decode_region_length: "decode_region d region n = Inr out \<Longrightarrow> length out = n"
  by (auto simp: decode_region_def decode_exact_length split: option.splits encoding.splits if_splits)

definition region_ok :: "nat \<Rightarrow> nat \<Rightarrow> nat \<Rightarrow> decoded_region \<Rightarrow> bool" where
  "region_ok W H bpp r \<longleftrightarrow> rect_ok W H (dr_rect r) \<and>
     length (dr_pixels r) = rect_w (dr_rect r) * rect_h (dr_rect r) * bpp"

definition total_pixels :: "decoded_region list \<Rightarrow> nat" where
  "total_pixels rs = sum_list (map (\<lambda>r. length (dr_pixels r)) rs)"

lemma decode_regions_Inr:
  assumes "decode_regions d surface bpp regions dt et = Inr (tot, decoded)"
  shows "length decoded = length regions \<and>
    (\<forall>r\<in>set decoded. region_ok (st_width surface) (st_height surface) bpp r) \<and>
    tot = dt + total_pixels decoded \<and> (dt \<le> st_max_frame_bytes surface \<longrightarrow>
    tot \<le> st_max_frame_bytes surface)"
  using assms
proof (induction regions arbitrary: dt et tot decoded)
  case Nil
  then show ?case by (simp add: total_pixels_def)
next
  case (Cons region regions)
  from Cons.prems obtain r dt' et' out tot' rest where
    r: "validated_rect region surface = Inr r" and
    dt': "dt' = dt + rect_w r * rect_h r * bpp" and lim: "dt' \<le> st_max_frame_bytes surface" and
    out: "decode_region d region (rect_w r * rect_h r * bpp) = Inr out" and
    rest: "decode_regions d surface bpp regions dt' et' = Inr (tot, rest)" and
    dec: "decoded = \<lparr>dr_rect = r, dr_pixels = out\<rparr> # rest"
    by (auto simp: and_then_Inr_iff range_simps split: if_splits)
  from Cons.IH [OF rest] validated_rect_Inr [OF r] decode_region_length [OF out] lim dt'
  show ?case by (auto simp: dec region_ok_def total_pixels_def)
qed

lemma validated_frame_facts:
  assumes "validate_and_decode_frame d fr surface = Inr v"
  shows "vf_pixel_format v = st_pixel_format surface \<and>
    (\<exists>bpp. pixel_format_bytes (vf_pixel_format v) = Some bpp \<and>
      list_all (region_ok (st_width surface) (st_height surface) bpp) (vf_regions v)) \<and>
    \<not> any_overlap (map dr_rect (vf_regions v)) \<and>
    length (vf_regions v) = length (frame_regions fr) \<and>
    vf_decoded_bytes v = total_pixels (vf_regions v) \<and>
    vf_decoded_bytes v \<le> st_max_frame_bytes surface"
  using assms
  by (auto simp: validate_and_decode_frame_def and_then_Inr_iff list_all_iff
      dest!: decode_regions_Inr split: if_splits)


section \<open>A raw frame is accepted\<close>

definition raw_frame :: "decoders \<Rightarrow> surface_state \<Rightarrow> nat \<Rightarrow> nat \<Rightarrow> frame_intent \<Rightarrow>
    decoded_region list \<Rightarrow> frame" where
  "raw_frame d surface fid base intent rs =
     \<lparr>frame_surface_id = st_surface_id surface, frame_generation = st_generation surface,
      frame_frame_id = fid, frame_base_id = base,
      frame_intent_field = frame_intent_i32 intent, frame_content_class = 0,
      frame_regions = map (\<lambda>r. raw_region d (dr_rect r) (dr_pixels r)) rs,
      source_timestamp_us = 0\<rparr>"

lemma frame_accepted:
  assumes "frame_surface_id fr = st_surface_id surface"
    and "frame_generation fr = st_generation surface"
    and "st_logical_frame_id surface < frame_frame_id fr"
    and "pixel_format_bytes (st_pixel_format surface) = Some bpp"
    and "frame_intent_of_i32 (frame_intent_field fr) = Some intent"
    and "intent \<noteq> IntentUnspecified"
    and "frame_regions fr \<noteq> []" and "length (frame_regions fr) \<le> st_max_regions surface"
    and "length (frame_regions fr) \<le> u16_max"
    and "decode_regions d surface bpp (frame_regions fr) 0 0 = Inr (tot, decoded)"
    and "\<not> any_overlap (map dr_rect decoded)"
    and "frame_base_id fr = 0 \<and>
        map dr_rect decoded = [mk_rect 0 0 (st_width surface) (st_height surface)] \<or>
      frame_base_id fr \<noteq> 0 \<and> frame_base_id fr = st_logical_frame_id surface"
  shows "validate_and_decode_frame d fr surface =
    Inr \<lparr>vf_frame_id = frame_frame_id fr, vf_base_frame_id = frame_base_id fr,
         vf_intent = intent, vf_pixel_format = st_pixel_format surface,
         vf_decoded_bytes = tot, vf_regions = decoded\<rparr>"
  using assms by (auto simp: validate_and_decode_frame_def)

lemma decode_raw_regions:
  assumes "\<forall>r\<in>set rs. region_ok (st_width surface) (st_height surface) bpp r"
    and "dt + total_pixels rs \<le> st_max_frame_bytes surface"
    and "st_max_frame_bytes surface \<le> u32_max"
    and "st_width surface \<le> u32_max" and "st_height surface \<le> u32_max"
    and "0 < bpp"
  shows "decode_regions d surface bpp (map (\<lambda>r. raw_region d (dr_rect r) (dr_pixels r)) rs) dt dt =
    Inr (dt + total_pixels rs, rs)"
  using assms
proof (induction rs arbitrary: dt)
  case Nil
  then show ?case by (simp add: total_pixels_def)
next
  case (Cons r rs)
  let ?n = "rect_w (dr_rect r) * rect_h (dr_rect r) * bpp"
  have ok: "rect_ok (st_width surface) (st_height surface) (dr_rect r)"
    and len: "length (dr_pixels r) = ?n"
    using Cons.prems(1) by (simp_all add: region_ok_def)
  have bound: "dt + ?n + total_pixels rs \<le> st_max_frame_bytes surface"
    using Cons.prems(2) by (simp add: total_pixels_def len)
  have n: "?n \<le> u32_max" "dt + ?n \<le> u32_max" using bound Cons.prems(3) by linarith+
  have small: "u32_max \<le> u64_max" by (simp add: max_defs)
  have "rect_w (dr_rect r) * rect_h (dr_rect r) \<le> ?n" using Cons.prems(6) by simp
  then have area: "rect_w (dr_rect r) * rect_h (dr_rect r) \<le> u64_max" using n small by linarith
  have modn: "?n mod 4294967296 = ?n" using n(1) by (intro mod_less) (simp add: max_defs)
  have rect: "validated_rect (raw_region d (dr_rect r) (dr_pixels r)) surface = Inr (dr_rect r)"
    using ok Cons.prems(4,5) by (intro validated_rect_ok) (simp_all add: raw_region_def)
  have checks: "checked_mul_usize (rect_w (dr_rect r)) (rect_h (dr_rect r)) =
      Some (rect_w (dr_rect r) * rect_h (dr_rect r))"
    "checked_mul_usize (rect_w (dr_rect r) * rect_h (dr_rect r)) bpp = Some ?n"
    "checked_add_usize dt ?n = Some (dt + ?n)"
    using n area small by (auto simp: checked_mul_usize_def checked_add_usize_def)
  have dec: "decode_region d (raw_region d (dr_rect r) (dr_pixels r)) ?n = Inr (dr_pixels r)"
    using len by (simp add: decode_region_def raw_region_def encoding_of_i32_def)
  have lim: "\<not> dt + ?n > st_max_frame_bytes surface" using bound by linarith
  have IH: "decode_regions d surface bpp
      (map (\<lambda>r. raw_region d (dr_rect r) (dr_pixels r)) rs) (dt + ?n) (dt + ?n) =
      Inr (dt + ?n + total_pixels rs, rs)"
    using Cons bound by simp
  have fields: "length (region_data (raw_region d (dr_rect r) (dr_pixels r))) = ?n"
    "decoded_len (raw_region d (dr_rect r) (dr_pixels r)) = ?n"
    "decoded_crc32 (raw_region d (dr_rect r) (dr_pixels r)) = crc32_hash d (dr_pixels r)"
    using len modn by (simp_all add: raw_region_def)
  show ?case
    using lim len by (simp add: rect checks dec IH fields total_pixels_def)
qed

text \<open>
  Encoding then decoding a frame is the identity: a frame built with
  \<open>raw_region\<close> from well-formed, pairwise disjoint regions within the negotiated limits (one
  full-surface region for a keyframe, any regions for a delta on the logical frame) is accepted,
  and the validated frame holds exactly those regions.
\<close>

theorem raw_frame_roundtrip:
  assumes "rs \<noteq> []" and "length rs \<le> st_max_regions surface" and "length rs \<le> u16_max"
    and "list_all (region_ok (st_width surface) (st_height surface) bpp) rs"
    and "\<not> any_overlap (map dr_rect rs)"
    and "total_pixels rs \<le> st_max_frame_bytes surface" and "st_max_frame_bytes surface \<le> u32_max"
    and "st_width surface \<le> u32_max" and "st_height surface \<le> u32_max"
    and "pixel_format_bytes (st_pixel_format surface) = Some bpp"
    and "intent \<noteq> IntentUnspecified" and "st_logical_frame_id surface < fid"
    and "base = 0 \<and> map dr_rect rs = [mk_rect 0 0 (st_width surface) (st_height surface)] \<or>
      base \<noteq> 0 \<and> base = st_logical_frame_id surface"
  shows "validate_and_decode_frame d (raw_frame d surface fid base intent rs) surface =
    Inr \<lparr>vf_frame_id = fid, vf_base_frame_id = base, vf_intent = intent,
         vf_pixel_format = st_pixel_format surface, vf_decoded_bytes = total_pixels rs,
         vf_regions = rs\<rparr>"
proof -
  have bpp: "0 < bpp" using assms(10) by (cases "st_pixel_format surface") auto
  have "decode_regions d surface bpp (map (\<lambda>r. raw_region d (dr_rect r) (dr_pixels r)) rs) 0 0 =
      Inr (total_pixels rs, rs)"
    using decode_raw_regions [of rs surface bpp 0 d] assms(4,6-9) bpp by (simp add: list_all_iff)
  then show ?thesis
    using assms frame_accepted [where fr = "raw_frame d surface fid base intent rs" and d = d
        and surface = surface and bpp = bpp and intent = intent and decoded = rs]
    by (simp add: raw_frame_def)
qed

text \<open>A concrete surface, decoders (a byte sum for the CRC) and two regions for the witnesses.\<close>

definition sample_decoders :: decoders where
  "sample_decoders = \<lparr>zlib_read = (\<lambda>_ _. None), zstd_new = (\<lambda>_. False),
     zstd_read = (\<lambda>_ _. None), crc32_hash = (\<lambda>bs. word_of_nat (sum_list (map unat bs)))\<rparr>"

definition sample_state :: surface_state where
  "sample_state = \<lparr>st_surface_id = 1, st_generation = 1, st_width = 4, st_height = 2,
     st_pixel_format = Gray8, st_logical_frame_id = 3, st_max_regions = 8,
     st_max_frame_bytes = 64\<rparr>"

definition sample_regions :: "decoded_region list" where
  "sample_regions = [\<lparr>dr_rect = mk_rect 1 0 2 1, dr_pixels = [10, 20]\<rparr>,
     \<lparr>dr_rect = mk_rect 0 1 1 1, dr_pixels = [30]\<rparr>]"

lemmas sample_defs = sample_decoders_def sample_state_def sample_regions_def

lemma sample_frame_accepted: "is_ok (validate_and_decode_frame sample_decoders
    (raw_frame sample_decoders sample_state 4 3 Latest sample_regions) sample_state)"
proof -
  let ?fr = "raw_frame sample_decoders sample_state 4 3 Latest sample_regions"
  have tot: "total_pixels sample_regions = 3" by (simp add: sample_defs total_pixels_def)
  have "decode_regions sample_decoders sample_state 1
      (map (\<lambda>r. raw_region sample_decoders (dr_rect r) (dr_pixels r)) sample_regions) 0 0 =
      Inr (0 + total_pixels sample_regions, sample_regions)"
    by (rule decode_raw_regions)
      (simp_all add: sample_defs region_ok_def rect_ok_def total_pixels_def max_defs)
  then have dec: "decode_regions sample_decoders sample_state 1 (frame_regions ?fr) 0 0 =
      Inr (3, sample_regions)" by (simp add: raw_frame_def tot)
  show ?thesis
    by (subst frame_accepted [OF _ _ _ _ _ _ _ _ _ dec, where intent = Latest])
      (simp_all add: raw_frame_def,
        simp_all add: sample_defs overlaps_def max_defs frame_intent_of_i32_def)
qed

theorem raw_frame_roundtrip_witness:
  "validate_and_decode_frame sample_decoders
     (raw_frame sample_decoders sample_state 4 3 Latest sample_regions) sample_state =
   Inr \<lparr>vf_frame_id = 4, vf_base_frame_id = 3, vf_intent = Latest, vf_pixel_format = Gray8,
        vf_decoded_bytes = 3, vf_regions = sample_regions\<rparr>"
  using raw_frame_roundtrip [where rs = sample_regions and surface = sample_state and bpp = 1
      and base = 3 and intent = Latest and fid = 4 and d = sample_decoders]
  by (simp add: sample_defs region_ok_def rect_ok_def total_pixels_def overlaps_def max_defs)


section \<open>What applying a frame writes\<close>

lemma apply_row_eq_blit_row:
  "apply_row width bpp region row s =
   blit_row width bpp (rect_x (dr_rect region)) (rect_y (dr_rect region)) (rect_w (dr_rect region))
     (dr_pixels region) row s"
  by (simp add: apply_row_def blit_row_def Let_def algebra_simps)

definition blit_region :: "nat \<Rightarrow> nat \<Rightarrow> decoded_region \<Rightarrow> bytes \<Rightarrow> bytes" where
  "blit_region W bpp r dst = blit W bpp dst (rect_x (dr_rect r)) (rect_y (dr_rect r))
     (rect_w (dr_rect r)) (rect_h (dr_rect r)) (dr_pixels r)"

lemma apply_validated_frame_blit:
  "pixel_format_bytes (vf_pixel_format fr) = Some bpp \<Longrightarrow>
   apply_validated_frame s width fr = fold (blit_region width bpp) (vf_regions fr) s"
  by (simp add: apply_validated_frame_def apply_row_eq_blit_row [abs_def]
      blit_region_def [abs_def] blit_def)

lemma blit_region_ok:
  "region_ok W H bpp r \<Longrightarrow> length dst = W * H * bpp \<Longrightarrow>
   blit_ok W H bpp dst (rect_x (dr_rect r)) (rect_y (dr_rect r)) (rect_w (dr_rect r))
     (rect_h (dr_rect r)) (dr_pixels r)"
  by (simp add: blit_ok_def region_ok_def rect_ok_def)

lemma blit_region_length:
  "region_ok W H bpp r \<Longrightarrow> length dst = W * H * bpp \<Longrightarrow>
   length (blit_region W bpp r dst) = length dst"
  unfolding blit_region_def by (rule blit_length [OF blit_region_ok])

lemma blit_region_nth:
  "region_ok W H bpp r \<Longrightarrow> length dst = W * H * bpp \<Longrightarrow> px < W \<Longrightarrow> py < H \<Longrightarrow> k < bpp \<Longrightarrow>
   blit_region W bpp r dst ! ((py * W + px) * bpp + k) =
     (if inside (dr_rect r) px py
      then dr_pixels r ! (((py - rect_y (dr_rect r)) * rect_w (dr_rect r) +
             (px - rect_x (dr_rect r))) * bpp + k)
      else dst ! ((py * W + px) * bpp + k))"
  unfolding blit_region_def by (subst blit_nth [OF blit_region_ok]) (simp_all add: inside_def)

lemma fold_blit_length:
  "\<forall>r\<in>set rs. region_ok W H bpp r \<Longrightarrow> length dst = W * H * bpp \<Longrightarrow>
   length (fold (blit_region W bpp) rs dst) = length dst"
  by (induction rs arbitrary: dst) (simp_all add: blit_region_length [where H = H])

lemma fold_blit_outside:
  "\<forall>r\<in>set rs. region_ok W H bpp r \<Longrightarrow> length dst = W * H * bpp \<Longrightarrow> px < W \<Longrightarrow> py < H \<Longrightarrow> k < bpp \<Longrightarrow>
   \<not> covers (map dr_rect rs) px py \<Longrightarrow>
   fold (blit_region W bpp) rs dst ! ((py * W + px) * bpp + k) = dst ! ((py * W + px) * bpp + k)"
  by (induction rs arbitrary: dst)
    (simp_all add: blit_region_length [where H = H] blit_region_nth [where H = H])

lemma fold_blit_inside:
  assumes "\<forall>r\<in>set rs. region_ok W H bpp r" and "length dst = W * H * bpp"
    and "px < W" "py < H" "k < bpp"
    and "\<not> any_overlap (map dr_rect rs)" and "r \<in> set rs" and "inside (dr_rect r) px py"
  shows "fold (blit_region W bpp) rs dst ! ((py * W + px) * bpp + k) =
    dr_pixels r ! (((py - rect_y (dr_rect r)) * rect_w (dr_rect r) +
      (px - rect_x (dr_rect r))) * bpp + k)"
  using assms
proof (induction rs arbitrary: dst)
  case Nil
  then show ?case by simp
next
  case (Cons q rs)
  have len: "length (blit_region W bpp q dst) = W * H * bpp"
    using Cons.prems by (simp add: blit_region_length [where H = H])
  show ?case
  proof (cases "r = q")
    case False
    then show ?thesis using Cons.IH [OF _ len] Cons.prems by simp
  next
    case True
    have "\<not> covers (map dr_rect rs) px py"
    proof
      assume "covers (map dr_rect rs) px py"
      then obtain s where s: "s \<in> set rs" "inside (dr_rect s) px py" by (auto simp: covers_def)
      have "overlaps (dr_rect q) (dr_rect s)"
        using s Cons.prems True overlaps_iff_common_pixel [of W H "dr_rect q" "dr_rect s"]
        by (auto simp: region_ok_def disjoint_rects_def)
      then show False using s Cons.prems(6) by (auto simp: list_ex_iff)
    qed
    then show ?thesis
      using True Cons.prems len by (simp add: fold_blit_outside [where H = H] blit_region_nth [where H = H])
  qed
qed

end
