(* ===== verification/Surface.thy ===== *)
theory Surface
  imports Grid Pixels Semantic
begin

text \<open>
  \<open>crates/rm-display-core/src/surface.rs\<close>: the pixel surface and the local overlay plane.
  A surface whose construction succeeded satisfies \<open>surface_ok\<close>, an overlay
  \<open>overlay_ok\<close>. A method that writes through \<open>&mut self\<close> returns its result with the
  state it leaves, also on an early error return. Branches the source marks \<open>unreachable!\<close>
  (a surface in an unsupported format) return \<open>BadLength\<close>, and \<open>surface_ok\<close> excludes them.
\<close>

section \<open>Data\<close>

datatype surface_error = InvalidGeometry | BadRegion | BadLength | Overlap | BadOverlay

record pixel_surface =
  ps_width :: nat
  ps_height :: nat
  ps_format :: pixel_format
  ps_pixels :: bytes

record local_overlay =
  ov_luma :: bytes
  ov_alpha :: bytes
  ov_transparent :: bool
  ov_dirty :: "rect option"

definition pixel_len :: "nat \<Rightarrow> nat \<Rightarrow> (surface_error, nat) result" where
  "pixel_len width height =
     (if width = 0 \<or> height = 0 then Inl InvalidGeometry
      else ok_or InvalidGeometry (checked_mul_usize width height))"

definition validate_rect :: "nat \<Rightarrow> nat \<Rightarrow> rect \<Rightarrow> (surface_error, unit) result" where
  "validate_rect width height r =
     (if rect_w r = 0 \<or> rect_h r = 0 \<or>
         (case checked_add_u32 (rect_x r) (rect_w r) of None \<Rightarrow> True | Some right \<Rightarrow> right > width) \<or>
         (case checked_add_u32 (rect_y r) (rect_h r) of None \<Rightarrow> True | Some bottom \<Rightarrow> bottom > height)
      then Inl BadRegion else Inr ())"

definition validate_region_geometry ::
  "nat \<Rightarrow> nat \<Rightarrow> nat \<Rightarrow> decoded_region \<Rightarrow> (surface_error, unit) result" where
  "validate_region_geometry width height bpp region =
     and_then (validate_rect width height (dr_rect region)) (\<lambda>_.
     and_then (ok_or BadLength
         (case checked_mul_usize (rect_w (dr_rect region)) (rect_h (dr_rect region)) of
            None \<Rightarrow> None | Some pixels \<Rightarrow> checked_mul_usize pixels bpp)) (\<lambda>expected.
       if length (dr_pixels region) \<noteq> expected then Inl BadLength else Inr ()))"

fun validate_regions_loop ::
  "nat \<Rightarrow> nat \<Rightarrow> nat \<Rightarrow> decoded_region list \<Rightarrow> (surface_error, unit) result" where
  "validate_regions_loop width height bpp [] = Inr ()"
| "validate_regions_loop width height bpp (region # regions) =
     and_then (validate_region_geometry width height bpp region)
       (\<lambda>_. validate_regions_loop width height bpp regions)"

definition validate_regions ::
  "nat \<Rightarrow> nat \<Rightarrow> nat \<Rightarrow> decoded_region list \<Rightarrow> (surface_error, unit) result" where
  "validate_regions width height bpp regions =
     and_then (validate_regions_loop width height bpp regions) (\<lambda>_.
       if any_overlap (map dr_rect regions) then Inl Overlap else Inr ())"

section \<open>PixelSurface\<close>

definition bytes_per_pixel :: "pixel_surface \<Rightarrow> nat" where
  "bytes_per_pixel s = (case pixel_format_bytes (ps_format s) of None \<Rightarrow> 0 | Some bpp \<Rightarrow> bpp)"

definition surface_new :: "nat \<Rightarrow> nat \<Rightarrow> u8 \<Rightarrow> (surface_error, pixel_surface) result" where
  "surface_new width height fill =
     and_then (pixel_len width height) (\<lambda>len.
       Inr \<lparr>ps_width = width, ps_height = height, ps_format = Gray8,
            ps_pixels = replicate len fill\<rparr>)"

definition surface_new_with_format ::
  "nat \<Rightarrow> nat \<Rightarrow> pixel_format \<Rightarrow> (surface_error, pixel_surface) result" where
  "surface_new_with_format width height format =
     and_then (ok_or BadLength (pixel_format_bytes format)) (\<lambda>bpp.
     and_then (pixel_len width height) (\<lambda>n.
     and_then (ok_or InvalidGeometry (checked_mul_usize n bpp)) (\<lambda>len.
       Inr \<lparr>ps_width = width, ps_height = height, ps_format = format,
            ps_pixels =
              (if format = Rgb565Le
               then concat (replicate (len div 2) (u16_le_bytes 0xffff)) @ replicate (len mod 2) 0xff
               else replicate len 0xff)\<rparr>)))"

definition from_pixels :: "nat \<Rightarrow> nat \<Rightarrow> bytes \<Rightarrow> (surface_error, pixel_surface) result" where
  "from_pixels width height pixels =
     and_then (pixel_len width height) (\<lambda>len.
       if length pixels \<noteq> len then Inl BadLength
       else Inr \<lparr>ps_width = width, ps_height = height, ps_format = Gray8, ps_pixels = pixels\<rparr>)"

definition from_pixels_with_format ::
  "nat \<Rightarrow> nat \<Rightarrow> pixel_format \<Rightarrow> bytes \<Rightarrow> (surface_error, pixel_surface) result" where
  "from_pixels_with_format width height format pixels =
     and_then (ok_or BadLength (pixel_format_bytes format)) (\<lambda>bpp.
     and_then (pixel_len width height) (\<lambda>n.
     and_then (ok_or InvalidGeometry (checked_mul_usize n bpp)) (\<lambda>expected.
       if length pixels \<noteq> expected then Inl BadLength
       else Inr \<lparr>ps_width = width, ps_height = height, ps_format = format,
                 ps_pixels = pixels\<rparr>)))"

definition apply_region :: "nat \<Rightarrow> nat \<Rightarrow> decoded_region \<Rightarrow> bytes \<Rightarrow> bytes" where
  "apply_region width bpp region pixels =
     blit width bpp pixels (rect_x (dr_rect region)) (rect_y (dr_rect region))
       (rect_w (dr_rect region)) (rect_h (dr_rect region)) (dr_pixels region)"

definition apply_regions_atomic ::
  "pixel_surface \<Rightarrow> decoded_region list \<Rightarrow> (surface_error, unit) result \<times> pixel_surface" where
  "apply_regions_atomic self regions =
     (let bpp = bytes_per_pixel self
      in case validate_regions (ps_width self) (ps_height self) bpp regions of
           Inl e \<Rightarrow> (Inl e, self)
         | Inr _ \<Rightarrow> (Inr (), self\<lparr>ps_pixels :=
             fold (apply_region (ps_width self) bpp) regions (ps_pixels self)\<rparr>))"

text \<open>
  Three methods walk over a list of rectangles, validate each one just before using it and
  write its pixels; the ones before a bad rectangle stay written.
\<close>

fun for_rects ::
  "nat \<Rightarrow> nat \<Rightarrow> (rect \<Rightarrow> bytes \<Rightarrow> bytes) \<Rightarrow> rect list \<Rightarrow> bytes \<Rightarrow>
   (surface_error, unit) result \<times> bytes" where
  "for_rects width height step [] pixels = (Inr (), pixels)"
| "for_rects width height step (r # rs) pixels =
     (case validate_rect width height r of
        Inl e \<Rightarrow> (Inl e, pixels)
      | Inr _ \<Rightarrow> for_rects width height step rs (step r pixels))"

definition copy_rect :: "nat \<Rightarrow> nat \<Rightarrow> bytes \<Rightarrow> rect \<Rightarrow> bytes \<Rightarrow> bytes" where
  "copy_rect width bpp source r pixels =
     fold (\<lambda>y px. let start = (y * width + rect_x r) * bpp; row_bytes = rect_w r * bpp
                  in copy_into px start (slice source start row_bytes))
       [rect_y r..<rect_y r + rect_h r] pixels"

definition copy_regions_from ::
  "pixel_surface \<Rightarrow> pixel_surface \<Rightarrow> rect list \<Rightarrow> (surface_error, unit) result \<times> pixel_surface" where
  "copy_regions_from self source regions =
     (if ps_width source \<noteq> ps_width self \<or> ps_height source \<noteq> ps_height self \<or>
         ps_format source \<noteq> ps_format self then (Inl BadLength, self)
      else let (res, pixels) = for_rects (ps_width self) (ps_height self)
             (copy_rect (ps_width self) (bytes_per_pixel self) (ps_pixels source))
             regions (ps_pixels self)
           in (res, self\<lparr>ps_pixels := pixels\<rparr>))"

section \<open>Composition with the overlay\<close>

definition overlay_len :: "local_overlay \<Rightarrow> nat" where
  "overlay_len ov = length (ov_luma ov)"

fun compose_gray8 :: "bytes \<Rightarrow> bytes \<Rightarrow> bytes \<Rightarrow> bytes" where
  "compose_gray8 (out # pixels) (foreground # luma) (alpha # alphas) =
     blend out foreground alpha # compose_gray8 pixels luma alphas"
| "compose_gray8 pixels _ _ = pixels"

fun compose_rgb565 :: "bytes \<Rightarrow> bytes \<Rightarrow> nat \<Rightarrow> bytes \<Rightarrow> bytes" where
  "compose_rgb565 luma alpha index (lo # hi # pixels) =
     u16_le_bytes (blend_rgb565 (u16_from_le lo hi) (luma ! index) (alpha ! index)) @
     compose_rgb565 luma alpha (index + 1) pixels"
| "compose_rgb565 luma alpha index pixels = pixels"

definition compose ::
  "pixel_surface \<Rightarrow> local_overlay \<Rightarrow> (surface_error, pixel_surface) result" where
  "compose self overlay =
     and_then (pixel_len (ps_width self) (ps_height self)) (\<lambda>len.
       if overlay_len overlay \<noteq> len then Inl BadOverlay
       else if ov_transparent overlay then Inr self
       else from_pixels_with_format (ps_width self) (ps_height self) (ps_format self)
         (case ps_format self of
            Gray8 \<Rightarrow> compose_gray8 (ps_pixels self) (ov_luma overlay) (ov_alpha overlay)
          | Rgb565Le \<Rightarrow> compose_rgb565 (ov_luma overlay) (ov_alpha overlay) 0 (ps_pixels self)
          | _ \<Rightarrow> ps_pixels self))"

definition blend_pixel ::
  "pixel_format \<Rightarrow> local_overlay \<Rightarrow> nat \<Rightarrow> bytes \<Rightarrow> bytes" where
  "blend_pixel format overlay i pixels =
     (let a = ov_alpha overlay ! i in
      if a = 0 then pixels
      else let l = ov_luma overlay ! i in
        if format = Gray8 then pixels[i := blend (pixels ! i) l a]
        else let offset = i * 2; p = u16_from_le (pixels ! offset) (pixels ! (offset + 1))
             in copy_into pixels offset (u16_le_bytes (blend_rgb565 p l a)))"

definition blend_rect ::
  "nat \<Rightarrow> pixel_format \<Rightarrow> local_overlay \<Rightarrow> rect \<Rightarrow> bytes \<Rightarrow> bytes" where
  "blend_rect width format overlay r pixels =
     fold (\<lambda>y. fold (\<lambda>x. blend_pixel format overlay (y * width + x))
         [rect_x r..<rect_x r + rect_w r])
       [rect_y r..<rect_y r + rect_h r] pixels"

definition blend_regions ::
  "pixel_surface \<Rightarrow> local_overlay \<Rightarrow> rect list \<Rightarrow> (surface_error, unit) result \<times> pixel_surface" where
  "blend_regions self overlay regions =
     (if ov_transparent overlay then (Inr (), self)
      else if overlay_len overlay \<noteq> ps_width self * ps_height self then (Inl BadOverlay, self)
      else let (res, pixels) = for_rects (ps_width self) (ps_height self)
             (blend_rect (ps_width self) (ps_format self) overlay) regions (ps_pixels self)
           in (res, self\<lparr>ps_pixels := pixels\<rparr>))"

definition compose_pixel ::
  "pixel_format \<Rightarrow> nat \<Rightarrow> bytes \<Rightarrow> local_overlay \<Rightarrow> nat \<Rightarrow> bytes \<Rightarrow> bytes" where
  "compose_pixel format bpp base overlay index out =
     (let luma = ov_luma overlay ! index; alpha = ov_alpha overlay ! index in
      case format of
        Gray8 \<Rightarrow> out[index := blend (base ! index) luma alpha]
      | Rgb565Le \<Rightarrow>
          let offset = index * bpp; packed = u16_from_le (base ! offset) (base ! (offset + 1))
          in copy_into out offset (u16_le_bytes (blend_rgb565 packed luma alpha))
      | _ \<Rightarrow> out)"

definition compose_row ::
  "nat \<Rightarrow> pixel_format \<Rightarrow> nat \<Rightarrow> bytes \<Rightarrow> local_overlay \<Rightarrow> rect \<Rightarrow> nat \<Rightarrow> bytes \<Rightarrow> bytes" where
  "compose_row width format bpp base overlay r y out =
     (let left = y * width + rect_x r in
      if list_all (\<lambda>alpha. alpha = 0) (slice (ov_alpha overlay) left (rect_w r))
      then copy_into out (left * bpp) (slice base (left * bpp) (rect_w r * bpp))
      else fold (\<lambda>x. compose_pixel format bpp base overlay (y * width + x))
             [rect_x r..<rect_x r + rect_w r] out)"

definition compose_rect ::
  "nat \<Rightarrow> pixel_format \<Rightarrow> nat \<Rightarrow> bytes \<Rightarrow> local_overlay \<Rightarrow> rect \<Rightarrow> bytes \<Rightarrow> bytes" where
  "compose_rect width format bpp base overlay r out =
     fold (compose_row width format bpp base overlay r) [rect_y r..<rect_y r + rect_h r] out"

definition compose_regions_into ::
  "pixel_surface \<Rightarrow> local_overlay \<Rightarrow> pixel_surface \<Rightarrow> rect list \<Rightarrow>
   (surface_error, unit) result \<times> pixel_surface" where
  "compose_regions_into self overlay output regions =
     (if ps_width output \<noteq> ps_width self \<or> ps_height output \<noteq> ps_height self \<or>
         ps_format output \<noteq> ps_format self then (Inl BadLength, output)
      else case pixel_len (ps_width self) (ps_height self) of
        Inl e \<Rightarrow> (Inl e, output)
      | Inr len \<Rightarrow>
          if overlay_len overlay \<noteq> len then (Inl BadOverlay, output)
          else if ov_transparent overlay then copy_regions_from output self regions
          else let (res, pixels) = for_rects (ps_width self) (ps_height self)
                 (compose_rect (ps_width self) (ps_format self) (bytes_per_pixel self)
                    (ps_pixels self) overlay) regions (ps_pixels output)
               in (res, output\<lparr>ps_pixels := pixels\<rparr>))"

section \<open>Well-formed surfaces\<close>

definition surface_ok :: "pixel_surface \<Rightarrow> bool" where
  "surface_ok s \<longleftrightarrow> ps_width s \<noteq> 0 \<and> ps_height s \<noteq> 0 \<and>
     ps_width s \<le> u32_max \<and> ps_height s \<le> u32_max \<and>
     (case pixel_format_bytes (ps_format s) of None \<Rightarrow> False
      | Some bpp \<Rightarrow> ps_width s * ps_height s * bpp \<le> u64_max \<and>
          length (ps_pixels s) = ps_width s * ps_height s * bpp)"

definition overlay_ok :: "nat \<Rightarrow> local_overlay \<Rightarrow> bool" where
  "overlay_ok n ov \<longleftrightarrow> length (ov_luma ov) = n \<and> length (ov_alpha ov) = n \<and>
     (if ov_transparent ov then list_all (\<lambda>a. a = 0) (ov_alpha ov) else True)"

definition same_geometry :: "pixel_surface \<Rightarrow> pixel_surface \<Rightarrow> bool" where
  "same_geometry a b \<longleftrightarrow> ps_width a = ps_width b \<and> ps_height a = ps_height b \<and>
     ps_format a = ps_format b"

lemma surface_okD:
  assumes "surface_ok s"
  shows "ps_width s \<noteq> 0" "ps_height s \<noteq> 0" "ps_width s \<le> u32_max" "ps_height s \<le> u32_max"
    "pixel_format_bytes (ps_format s) = Some (bytes_per_pixel s)"
    "length (ps_pixels s) = ps_width s * ps_height s * bytes_per_pixel s"
    "ps_width s * ps_height s * bytes_per_pixel s \<le> u64_max"
    "0 < bytes_per_pixel s" "ps_format s = Gray8 \<or> ps_format s = Rgb565Le"
    "bytes_per_pixel s = (if ps_format s = Gray8 then 1 else 2)"
  using assms by (cases "ps_format s"; simp add: surface_ok_def bytes_per_pixel_def)+

lemma surface_ok_area: "surface_ok s \<Longrightarrow> ps_width s * ps_height s \<le> u64_max"
  by (rule order_trans [OF _ surface_okD(7) [of s]]) (simp_all add: surface_okD)

lemma pixel_len_ok: "surface_ok s \<Longrightarrow>
    pixel_len (ps_width s) (ps_height s) = Inr (ps_width s * ps_height s)"
  using surface_okD(1,2) [of s] surface_ok_area [of s]
  by (simp add: pixel_len_def checked_mul_usize_def)

lemma pixel_len_Inr: "pixel_len w h = Inr n \<longleftrightarrow> w \<noteq> 0 \<and> h \<noteq> 0 \<and> n = w * h \<and> w * h \<le> u64_max"
  by (auto simp: pixel_len_def range_simps)

lemma surface_ok_pixels:
  "surface_ok s \<Longrightarrow> length px = length (ps_pixels s) \<Longrightarrow> surface_ok (s\<lparr>ps_pixels := px\<rparr>)"
  by (simp add: surface_ok_def split: option.splits)

lemma from_pixels_with_format_Inr:
  assumes "w \<le> u32_max" and "h \<le> u32_max" and "from_pixels_with_format w h fmt px = Inr s"
  shows "s = \<lparr>ps_width = w, ps_height = h, ps_format = fmt, ps_pixels = px\<rparr> \<and> surface_ok s"
  using assms
  by (auto simp: from_pixels_with_format_def and_then_Inr_iff pixel_len_Inr range_simps
      surface_ok_def split: if_splits)

lemma from_pixels_with_format_self:
  assumes "surface_ok s" and "length px = length (ps_pixels s)"
  shows "from_pixels_with_format (ps_width s) (ps_height s) (ps_format s) px = Inr (s\<lparr>ps_pixels := px\<rparr>)"
  using surface_okD [OF assms(1)] assms(2) surface_ok_area [OF assms(1)]
  by (simp add: from_pixels_with_format_def pixel_len_ok [OF assms(1)] checked_mul_usize_def)

lemma surface_new_ok:
  "w \<le> u32_max \<Longrightarrow> h \<le> u32_max \<Longrightarrow> surface_new w h fill = Inr s \<Longrightarrow> surface_ok s"
  by (auto simp: surface_new_def and_then_Inr_iff pixel_len_Inr surface_ok_def)

lemma white_bytes: "concat (replicate n (u16_le_bytes 0xffff)) = replicate (2 * n) 0xff"
  by (induction n) (simp_all add: u16_le_bytes_def)

lemma surface_new_with_format_ok:
  assumes "w \<le> u32_max" and "h \<le> u32_max" and "surface_new_with_format w h fmt = Inr s"
  shows "surface_ok s \<and> ps_width s = w \<and> ps_height s = h \<and> ps_format s = fmt \<and>
    ps_pixels s = replicate (w * h * bytes_per_pixel s) 0xff"
  using assms
  by (auto simp: surface_new_with_format_def and_then_Inr_iff pixel_len_Inr range_simps
      surface_ok_def bytes_per_pixel_def white_bytes replicate_add [symmetric])

section \<open>Validation\<close>

lemma validate_rect_cases:
  "w \<le> u32_max \<Longrightarrow> h \<le> u32_max \<Longrightarrow>
   validate_rect w h r = (if rect_ok w h r then Inr () else Inl BadRegion)"
  by (auto simp: validate_rect_def rect_ok_def checked_add_u32_def)

lemma rect_ok_area: "rect_ok w h r \<Longrightarrow> rect_w r * rect_h r \<le> w * h"
  by (auto simp: rect_ok_def intro: mult_le_mono)

lemma validate_region_geometry_iff:
  assumes "w \<le> u32_max" and "h \<le> u32_max" and "w * h * bpp \<le> u64_max" and "0 < bpp"
  shows "validate_region_geometry w h bpp r = Inr () \<longleftrightarrow> region_ok w h bpp r"
proof (cases "rect_ok w h (dr_rect r)")
  case False
  then show ?thesis
    using assms by (simp add: validate_region_geometry_def validate_rect_cases region_ok_def)
next
  case True
  have "rect_w (dr_rect r) * rect_h (dr_rect r) * bpp \<le> w * h * bpp"
    using rect_ok_area [OF True] by (rule mult_le_mono1)
  moreover have "w * h \<le> w * h * bpp" using assms(4) by simp
  ultimately have "rect_w (dr_rect r) * rect_h (dr_rect r) * bpp \<le> u64_max"
    "rect_w (dr_rect r) * rect_h (dr_rect r) \<le> u64_max"
    using assms(3) rect_ok_area [OF True] by linarith+
  then show ?thesis
    using assms True
    by (simp add: validate_region_geometry_def validate_rect_cases region_ok_def checked_mul_usize_def)
qed

lemma validate_regions_iff:
  assumes "surface_ok s"
  shows "validate_regions (ps_width s) (ps_height s) (bytes_per_pixel s) rs = Inr () \<longleftrightarrow>
    list_all (region_ok (ps_width s) (ps_height s) (bytes_per_pixel s)) rs \<and>
    \<not> any_overlap (map dr_rect rs)"
proof -
  have "validate_regions_loop (ps_width s) (ps_height s) (bytes_per_pixel s) rs = Inr () \<longleftrightarrow>
      list_all (region_ok (ps_width s) (ps_height s) (bytes_per_pixel s)) rs"
    using surface_okD [OF assms]
    by (induction rs) (auto simp: and_then_Inr_iff validate_region_geometry_iff)
  then show ?thesis by (auto simp: validate_regions_def and_then_Inr_iff)
qed

lemma apply_region_eq_blit_region: "apply_region = blit_region"
  by (simp add: fun_eq_iff apply_region_def blit_region_def)

lemma for_rects_ok:
  "w \<le> u32_max \<Longrightarrow> h \<le> u32_max \<Longrightarrow> list_all (rect_ok w h) rs \<Longrightarrow>
   for_rects w h step rs px = (Inr (), fold step rs px)"
  by (induction rs arbitrary: px) (simp_all add: validate_rect_cases)

lemma for_rects_Inr:
  "w \<le> u32_max \<Longrightarrow> h \<le> u32_max \<Longrightarrow> for_rects w h step rs px = (Inr (), px') \<Longrightarrow>
   list_all (rect_ok w h) rs \<and> px' = fold step rs px"
  by (induction rs arbitrary: px) (simp_all add: validate_rect_cases split: if_splits)

lemma for_rects_length:
  assumes "w \<le> u32_max" and "h \<le> u32_max"
    and "\<And>r px. rect_ok w h r \<Longrightarrow> length px = n \<Longrightarrow> length (step r px) = n"
  shows "length px = n \<Longrightarrow> length (snd (for_rects w h step rs px)) = n"
  by (induction rs arbitrary: px) (simp_all add: validate_rect_cases assms)

section \<open>Applying regions\<close>

text \<open>
  Claim C25. Applying regions is atomic: it succeeds exactly when every region is nonempty, lies
  inside the surface and has the length of its geometry and no two regions overlap, and on
  any error the surface is unchanged. On success the surface stays well formed, every byte inside
  a region is that region's byte and every other byte is unchanged.
\<close>

theorem apply_regions_atomic_correct:
  assumes "surface_ok s" and "apply_regions_atomic s rs = (res, s')"
  shows "surface_ok s' \<and> same_geometry s' s \<and>
    (is_ok res \<longleftrightarrow> list_all (region_ok (ps_width s) (ps_height s) (bytes_per_pixel s)) rs \<and>
      \<not> any_overlap (map dr_rect rs)) \<and>
    (if is_ok res
     then (\<forall>px py k. px < ps_width s \<and> py < ps_height s \<and> k < bytes_per_pixel s \<longrightarrow>
       (let i = (py * ps_width s + px) * bytes_per_pixel s + k
        in (if covers (map dr_rect rs) px py
          then \<exists>r. r \<in> set rs \<and> inside (dr_rect r) px py \<and>
            ps_pixels s' ! i = dr_pixels r ! (((py - rect_y (dr_rect r)) * rect_w (dr_rect r) +
              (px - rect_x (dr_rect r))) * bytes_per_pixel s + k)
          else ps_pixels s' ! i = ps_pixels s ! i)))
     else s' = s)"
proof (cases "validate_regions (ps_width s) (ps_height s) (bytes_per_pixel s) rs")
  case (Inl e)
  then have "res = Inl e" "s' = s"
    using assms(2) by (simp_all add: apply_regions_atomic_def Let_def)
  moreover have "\<not> (list_all (region_ok (ps_width s) (ps_height s) (bytes_per_pixel s)) rs \<and>
      \<not> any_overlap (map dr_rect rs))"
    using Inl validate_regions_iff [OF assms(1), of rs] by simp
  ultimately show ?thesis using assms(1) by (simp add: same_geometry_def)
next
  case (Inr u)
  let ?W = "ps_width s" and ?H = "ps_height s" and ?b = "bytes_per_pixel s"
  have ok: "\<forall>r\<in>set rs. region_ok ?W ?H ?b r" "\<not> any_overlap (map dr_rect rs)"
    using Inr validate_regions_iff [OF assms(1), of rs] by (simp_all add: list_all_iff)
  have len: "length (ps_pixels s) = ?W * ?H * ?b" by (rule surface_okD(6) [OF assms(1)])
  have s': "s' = s\<lparr>ps_pixels := fold (blit_region ?W ?b) rs (ps_pixels s)\<rparr>" and res: "res = Inr ()"
    using assms(2) Inr by (simp_all add: apply_regions_atomic_def Let_def apply_region_eq_blit_region)
  note nth = fold_blit_inside [OF ok(1) len _ _ _ ok(2)] fold_blit_outside [OF ok(1) len]
  have pix: "if covers (map dr_rect rs) px py
      then \<exists>r. r \<in> set rs \<and> inside (dr_rect r) px py \<and>
        ps_pixels s' ! ((py * ?W + px) * ?b + k) =
          dr_pixels r ! (((py - rect_y (dr_rect r)) * rect_w (dr_rect r) +
            (px - rect_x (dr_rect r))) * ?b + k)
      else ps_pixels s' ! ((py * ?W + px) * ?b + k) = ps_pixels s ! ((py * ?W + px) * ?b + k)"
    if p: "px < ?W" "py < ?H" "k < ?b" for px py k
    using nth(1) [OF p] nth(2) [OF p] by (auto simp: s' covers_def)
  have "surface_ok s'"
    unfolding s' using assms(1) fold_blit_length [OF ok(1) len] len by (intro surface_ok_pixels) simp_all
  moreover have "same_geometry s' s" by (simp add: s' same_geometry_def)
  ultimately show ?thesis
    using pix ok unfolding res is_ok_simps if_True Let_def list_all_iff by blast
qed

text \<open>
  Claim C26. The surface and the protocol crate agree: applying the regions of an accepted frame
  through the surface gives the same pixels as the protocol's own reference
  \<open>apply_validated_frame\<close>, and it cannot fail.
\<close>

theorem apply_regions_matches_semantic:
  assumes "surface_ok s" and "validate_and_decode_frame d fr st = Inr v"
    and "st_width st = ps_width s" and "st_height st = ps_height s"
    and "st_pixel_format st = ps_format s"
  shows "apply_regions_atomic s (vf_regions v) =
    (Inr (), s\<lparr>ps_pixels := apply_validated_frame (ps_pixels s) (ps_width s) v\<rparr>)"
proof -
  have fmt: "vf_pixel_format v = ps_format s"
    and overlap: "\<not> any_overlap (map dr_rect (vf_regions v))"
    using validated_frame_facts [OF assms(2)] assms(5) by auto
  have bpp: "pixel_format_bytes (vf_pixel_format v) = Some (bytes_per_pixel s)"
    using surface_okD(5) [OF assms(1)] fmt by simp
  have regions: "list_all (region_ok (ps_width s) (ps_height s) (bytes_per_pixel s)) (vf_regions v)"
    using validated_frame_facts [OF assms(2)] assms(3-4) bpp by auto
  have "validate_regions (ps_width s) (ps_height s) (bytes_per_pixel s) (vf_regions v) = Inr ()"
    using validate_regions_iff [OF assms(1)] regions overlap by blast
  then show ?thesis
    by (simp add: apply_regions_atomic_def Let_def apply_validated_frame_blit [OF bpp]
        apply_region_eq_blit_region)
qed

section \<open>Pixelwise description of composition\<close>

text \<open>\<open>mix_pixel\<close> is the reference: what the overlay makes of the bytes of pixel \<open>j\<close>.\<close>

definition mix_pixel :: "pixel_format \<Rightarrow> local_overlay \<Rightarrow> nat \<Rightarrow> bytes \<Rightarrow> bytes" where
  "mix_pixel format ov j v =
     (case format of
        Gray8 \<Rightarrow> [blend (v ! 0) (ov_luma ov ! j) (ov_alpha ov ! j)]
      | Rgb565Le \<Rightarrow>
          u16_le_bytes (blend_rgb565 (u16_from_le (v ! 0) (v ! 1)) (ov_luma ov ! j) (ov_alpha ov ! j))
      | _ \<Rightarrow> v)"

lemma one_byte: "length v = 1 \<longleftrightarrow> (\<exists>a. v = [a])"
  by (auto simp: length_Suc_conv)

lemma two_bytes: "length v = 2 \<longleftrightarrow> (\<exists>a c. v = [a, c])"
  by (auto simp: length_Suc_conv numeral_2_eq_2)

lemma mix_transparent:
  assumes "pixel_format_bytes format = Some b" and "length v = b" and "ov_alpha ov ! j = 0"
  shows "mix_pixel format ov j v = v"
  using assms by (cases format)
    (auto simp: mix_pixel_def one_byte two_bytes u16_from_le_bytes length_Suc_conv)

lemma length_mix_pixel:
  "pixel_format_bytes format = Some b \<Longrightarrow> length v = b \<Longrightarrow> length (mix_pixel format ov j v) = b"
  by (cases format) (auto simp: mix_pixel_def)

lemma overlay_alpha_zero: "overlay_ok n ov \<Longrightarrow> ov_transparent ov \<Longrightarrow> j < n \<Longrightarrow> ov_alpha ov ! j = 0"
  by (auto simp: overlay_ok_def list_all_length)

lemma compose_gray8_length [simp]:
  "length (compose_gray8 px l a) = length px"
  by (induction px l a rule: compose_gray8.induct) simp_all

lemma compose_gray8_nth:
  "length l = length px \<Longrightarrow> length a = length px \<Longrightarrow> j < length px \<Longrightarrow>
   compose_gray8 px l a ! j = blend (px ! j) (l ! j) (a ! j)"
proof (induction px l a arbitrary: j rule: compose_gray8.induct)
  case (1 out pixels foreground luma alpha alphas)
  then show ?case by (cases j) simp_all
qed simp_all

lemma compose_rgb565_length [simp]: "length (compose_rgb565 l a i px) = length px"
  by (induction l a i px rule: compose_rgb565.induct) simp_all

lemma compose_rgb565_pixel:
  "length px = n * 2 \<Longrightarrow> j < n \<Longrightarrow> pixel_at 2 (compose_rgb565 l a i px) j =
   u16_le_bytes (blend_rgb565 (u16_from_le (px ! (j * 2)) (px ! (j * 2 + 1))) (l ! (i + j)) (a ! (i + j)))"
proof (induction l a i px arbitrary: n j rule: compose_rgb565.induct)
  case (1 luma alpha index lo hi pixels)
  then obtain m where n: "n = Suc m" by (cases n) simp_all
  show ?case
  proof (cases j)
    case 0
    then show ?thesis by (simp add: pixel_at_def slice_def)
  next
    case (Suc j')
    then have "pixel_at 2 (compose_rgb565 luma alpha (index + 1) pixels) j' =
      u16_le_bytes (blend_rgb565 (u16_from_le (pixels ! (j' * 2)) (pixels ! (j' * 2 + 1)))
        (luma ! (index + 1 + j')) (alpha ! (index + 1 + j')))"
      using 1 n by simp
    then show ?thesis using Suc by (simp add: pixel_at_def slice_def)
  qed
qed simp_all

lemma pixel_at_two_nth:
  assumes "length px = n * 2" and "j < n"
  shows "pixel_at 2 px j ! 0 = px ! (j * 2)" and "pixel_at 2 px j ! 1 = px ! (j * 2 + 1)"
  using nth_pixel_at [OF assms, of 0] nth_pixel_at [OF assms, of 1] by simp_all

section \<open>The loops over a rectangle\<close>

lemma rows_of_rect:
  assumes "rect_ok W H r" and "j < W * H"
  shows "(\<exists>y\<in>set [rect_y r..<rect_y r + rect_h r].
      y * W + rect_x r \<le> j \<and> j < y * W + rect_x r + rect_w r) \<longleftrightarrow> in_rect W r j"
proof -
  have W: "j mod W < W" "rect_x r + rect_w r \<le> W"
    using position_less [OF assms(2)] assms(1) by (auto simp: rect_ok_def)
  have "y * W + rect_x r \<le> j \<and> j < y * W + rect_x r + rect_w r \<longleftrightarrow>
      j div W = y \<and> rect_x r \<le> j mod W \<and> j mod W < rect_x r + rect_w r" for y
    using row_major_inside [OF W, of y "j div W"] by simp
  then show ?thesis by (auto simp: in_rect_def inside_def)
qed

lemma pixels_of_row:
  "(\<exists>x\<in>set [rx..<rx + w]. j = y * W + x) \<longleftrightarrow> y * W + rx \<le> j \<and> j < y * W + rx + (w :: nat)"
proof
  assume "y * W + rx \<le> j \<and> j < y * W + rx + w"
  then have "j = y * W + (j - y * W)" "j - y * W \<in> set [rx..<rx + w]" by auto
  then show "\<exists>x\<in>set [rx..<rx + w]. j = y * W + x" by blast
qed auto

lemma revisit_row: "revisit_ok n g (\<lambda>x j. j = y * W + x) [a..<c]"
  by (auto simp: revisit_ok_def sorted_wrt_iff_nth_less)

lemma revisit_rows:
  assumes "rx + w \<le> W"
  shows "revisit_ok n g (\<lambda>y j. y * W + rx \<le> j \<and> j < y * W + rx + w) [a..<c]"
  unfolding revisit_ok_def sorted_wrt_iff_nth_less
proof (intro allI impI)
  fix i k j v
  assume "i < k" "k < length [a..<c]"
  then have "Suc ([a..<c] ! i) * W \<le> [a..<c] ! k * W" by (intro mult_le_mono1) simp
  moreover assume "([a..<c] ! i * W + rx \<le> j \<and> j < [a..<c] ! i * W + rx + w) \<and>
    ([a..<c] ! k * W + rx \<le> j \<and> j < [a..<c] ! k * W + rx + w)"
  ultimately have False using assms unfolding mult_Suc by linarith
  then show "g j (g j v) = g j v" ..
qed

text \<open>A loop over the rows of a rectangle whose body writes the row.\<close>

lemma writes_rows:
  assumes "rect_ok W H r"
    and "\<And>y. rect_y r \<le> y \<Longrightarrow> y < rect_y r + rect_h r \<Longrightarrow>
      writes (W * H) b (f y) (\<lambda>j. y * W + rect_x r \<le> j \<and> j < y * W + rect_x r + rect_w r) g"
  shows "writes (W * H) b (fold f [rect_y r..<rect_y r + rect_h r]) (in_rect W r) g"
proof (rule writes_cong)
  show "writes (W * H) b (fold f [rect_y r..<rect_y r + rect_h r])
      (\<lambda>j. \<exists>y\<in>set [rect_y r..<rect_y r + rect_h r].
        y * W + rect_x r \<le> j \<and> j < y * W + rect_x r + rect_w r) g"
    using assms by (intro writes_fold revisit_rows) (auto simp: rect_ok_def)
qed (simp_all only: rows_of_rect [OF assms(1)])

lemma row_end: "rect_ok W H r \<Longrightarrow> y < rect_y r + rect_h r \<Longrightarrow> y * W + rect_x r + rect_w r \<le> W * H"
proof -
  assume r: "rect_ok W H r" and y: "y < rect_y r + rect_h r"
  have "Suc y * W \<le> H * W" using r y by (intro mult_le_mono1) (simp add: rect_ok_def)
  then show ?thesis using r by (simp add: rect_ok_def mult.commute)
qed

lemma writes_row_pixels:
  assumes "\<And>i. i < n \<Longrightarrow> writes n b (f i) (\<lambda>j. j = i) g" and "y * W + rx + w \<le> n"
  shows "writes n b (fold (\<lambda>x. f (y * W + x)) [rx..<rx + w])
    (\<lambda>j. y * W + rx \<le> j \<and> j < y * W + rx + w) g"
proof (rule writes_cong)
  show "writes n b (fold (\<lambda>x. f (y * W + x)) [rx..<rx + w])
      (\<lambda>j. \<exists>x\<in>set [rx..<rx + w]. j = y * W + x) g"
    using assms by (intro writes_fold revisit_row) auto
qed (simp_all only: pixels_of_row)

lemma copy_rect_writes:
  assumes "rect_ok W H r" and "length src = W * H * b"
  shows "writes (W * H) b (copy_rect W b src r) (in_rect W r) (\<lambda>j v. pixel_at b src j)"
  unfolding copy_rect_def Let_def
  using assms by (intro writes_rows writes_row_copy) (simp_all add: row_end)

lemma list_update_copy: "i < length xs \<Longrightarrow> xs[i := v] = copy_into xs i [v]"
  by (simp add: copy_into_def upd_conv_take_nth_drop)

lemma blend_pixel_writes:
  assumes "pixel_format_bytes format = Some b" and "length (ov_alpha ov) = n" and "i < n"
  shows "writes n b (blend_pixel format ov i) (\<lambda>j. j = i) (mix_pixel format ov)"
proof (cases "ov_alpha ov ! i = 0")
  case True
  then have "blend_pixel format ov i = (\<lambda>xs. xs)" by (simp add: blend_pixel_def fun_eq_iff)
  moreover have "writes n b (\<lambda>xs. xs) (\<lambda>j. j = i) (mix_pixel format ov)"
  proof (rule writesI)
    fix xs :: bytes and j assume xs: "length xs = n * b" and j: "j < n"
    show "pixel_at b xs j =
        (if j = i then mix_pixel format ov j (pixel_at b xs j) else pixel_at b xs j)"
      using mix_transparent [OF assms(1) length_pixel_at [OF xs j] True] by auto
  qed
  ultimately show ?thesis by simp
next
  case False
  show ?thesis
  proof (rule writes_one_pixel)
    fix xs :: bytes assume xs: "length xs = n * b"
    show "blend_pixel format ov i xs = copy_into xs (i * b) (mix_pixel format ov i (pixel_at b xs i))"
    proof (cases "format = Gray8")
      case True
      then have "b = 1" using assms(1) by simp
      then show ?thesis using True False assms(3) xs
        by (simp add: blend_pixel_def Let_def mix_pixel_def list_update_copy
            pixel_at_one)
    next
      case neq: False
      then have "format = Rgb565Le" "b = 2" using assms(1) by (cases format; simp)+
      then show ?thesis using False xs assms(3) pixel_at_two_nth [of xs n i]
        by (simp add: blend_pixel_def Let_def mix_pixel_def)
    qed
  qed (use assms in \<open>simp_all add: length_mix_pixel\<close>)
qed

lemma blend_rect_writes:
  assumes "rect_ok W H r" and "pixel_format_bytes format = Some b" and "length (ov_alpha ov) = W * H"
  shows "writes (W * H) b (blend_rect W format ov r) (in_rect W r) (mix_pixel format ov)"
  unfolding blend_rect_def
  using assms by (intro writes_rows writes_row_pixels blend_pixel_writes) (simp_all add: row_end)

lemma compose_pixel_writes:
  assumes "pixel_format_bytes format = Some b" and "length base = n * b" and "i < n"
  shows "writes n b (compose_pixel format b base ov i) (\<lambda>j. j = i)
    (\<lambda>j v. mix_pixel format ov j (pixel_at b base j))"
proof (rule writes_one_pixel)
  fix xs :: bytes assume xs: "length xs = n * b"
  show "compose_pixel format b base ov i xs =
      copy_into xs (i * b) (mix_pixel format ov i (pixel_at b base i))"
  proof (cases "format = Gray8")
    case True
    then have "b = 1" using assms(1) by simp
    then show ?thesis using True assms(2,3) xs
      by (simp add: compose_pixel_def Let_def mix_pixel_def list_update_copy
          pixel_at_one)
  next
    case False
    then have f: "format = Rgb565Le" "b = 2" using assms(1) by (cases format; simp)+
    then show ?thesis
      using pixel_at_two_nth [of base n i] assms(2,3)
      by (simp add: compose_pixel_def Let_def mix_pixel_def)
  qed
qed (use assms in \<open>simp_all add: length_mix_pixel [OF assms(1) length_pixel_at [OF assms(2,3)]]\<close>)

lemma compose_row_writes:
  assumes "pixel_format_bytes format = Some b" and "length base = n * b"
    and "length (ov_alpha ov) = n" and "y * W + rect_x r + rect_w r \<le> n"
  shows "writes n b (compose_row W format b base ov r y)
    (\<lambda>j. y * W + rect_x r \<le> j \<and> j < y * W + rect_x r + rect_w r)
    (\<lambda>j v. mix_pixel format ov j (pixel_at b base j))"
proof (cases "list_all (\<lambda>a. a = 0) (slice (ov_alpha ov) (y * W + rect_x r) (rect_w r))")
  case True
  have "ov_alpha ov ! j = 0" if "y * W + rect_x r \<le> j" "j < y * W + rect_x r + rect_w r" for j
  proof -
    have "slice (ov_alpha ov) (y * W + rect_x r) (rect_w r) ! (j - (y * W + rect_x r)) = ov_alpha ov ! j"
      using that assms(3,4) by (simp add: nth_slice in_bounds_def)
    then show ?thesis using True that assms(3,4)
      by (auto simp: list_all_length length_slice in_bounds_def)
  qed
  moreover have "compose_row W format b base ov r y =
      (\<lambda>xs. copy_into xs ((y * W + rect_x r) * b) (slice base ((y * W + rect_x r) * b) (rect_w r * b)))"
    using True by (simp add: compose_row_def fun_eq_iff Let_def)
  ultimately show ?thesis
    by (simp only:) (rule writes_cong [OF writes_row_copy [OF assms(2,4)]],
      simp_all add: mix_transparent [OF assms(1) length_pixel_at [OF assms(2)]])
next
  case False
  then have "compose_row W format b base ov r y =
      fold (\<lambda>x. compose_pixel format b base ov (y * W + x)) [rect_x r..<rect_x r + rect_w r]"
    by (auto simp: compose_row_def fun_eq_iff Let_def)
  then show ?thesis
    using assms by (simp only:) (intro writes_row_pixels compose_pixel_writes, simp_all)
qed

lemma compose_rect_writes:
  assumes "rect_ok W H r" and "pixel_format_bytes format = Some b" and "length base = W * H * b"
    and "length (ov_alpha ov) = W * H"
  shows "writes (W * H) b (compose_rect W format b base ov r) (in_rect W r)
    (\<lambda>j v. mix_pixel format ov j (pixel_at b base j))"
  unfolding compose_rect_def [abs_def]
  using assms by (intro writes_rows compose_row_writes) (simp_all add: row_end)

section \<open>Whole-surface and regional composition\<close>

definition num_pixels :: "pixel_surface \<Rightarrow> nat" where
  "num_pixels s = ps_width s * ps_height s"

definition surface_pixel :: "pixel_surface \<Rightarrow> nat \<Rightarrow> bytes" where
  "surface_pixel s j = pixel_at (bytes_per_pixel s) (ps_pixels s) j"

definition in_rects :: "pixel_surface \<Rightarrow> rect list \<Rightarrow> nat \<Rightarrow> bool" where
  "in_rects s rs j = covers rs (j mod ps_width s) (j div ps_width s)"

lemma in_rects_eq: "in_rects s rs j \<longleftrightarrow> (\<exists>r\<in>set rs. in_rect (ps_width s) r j)"
  by (simp add: in_rects_def covers_def in_rect_def)

lemma same_geometry_simps:
  "same_geometry a b \<Longrightarrow> bytes_per_pixel a = bytes_per_pixel b"
  "same_geometry a b \<Longrightarrow> num_pixels a = num_pixels b"
  "same_geometry a b \<Longrightarrow> in_rects a rs j = in_rects b rs j"
  by (simp_all add: same_geometry_def bytes_per_pixel_def num_pixels_def in_rects_def)

lemma surface_length: "surface_ok s \<Longrightarrow> length (ps_pixels s) = num_pixels s * bytes_per_pixel s"
  by (simp add: surface_okD num_pixels_def)

lemma surface_eqI:
  assumes "surface_ok a" and "surface_ok b" and "same_geometry a b"
    and "\<And>j. j < num_pixels b \<Longrightarrow> surface_pixel a j = surface_pixel b j"
  shows "a = b"
proof -
  have "ps_pixels a = ps_pixels b"
  proof (rule pixel_at_eqI [of _ "num_pixels b" "bytes_per_pixel b"])
    fix j assume "j < num_pixels b"
    from assms(4) [OF this]
    show "pixel_at (bytes_per_pixel b) (ps_pixels a) j = pixel_at (bytes_per_pixel b) (ps_pixels b) j"
      by (simp add: surface_pixel_def same_geometry_simps [OF assms(3)])
  qed (use assms surface_length [OF assms(1)] surface_length [OF assms(2)] in
    \<open>simp_all add: same_geometry_simps\<close>)
  then show ?thesis using assms(3) by (simp add: same_geometry_def)
qed

text \<open>\<open>shows_over ov base out\<close>: \<open>out\<close> is \<open>base\<close> with the overlay on every pixel.\<close>

definition shows_over :: "local_overlay \<Rightarrow> pixel_surface \<Rightarrow> pixel_surface \<Rightarrow> bool" where
  "shows_over ov base out \<longleftrightarrow> surface_ok out \<and> same_geometry out base \<and>
     (\<forall>j. j < num_pixels base \<longrightarrow>
       surface_pixel out j = mix_pixel (ps_format base) ov j (surface_pixel base j))"

lemma compose_shows_over:
  assumes "surface_ok s" and "overlay_ok (num_pixels s) ov"
  shows "\<exists>out. compose s ov = Inr out \<and> shows_over ov s out"
proof -
  note ok = surface_okD [OF assms(1)] and len = surface_length [OF assms(1)]
  have lens: "length (ov_luma ov) = num_pixels s" "length (ov_alpha ov) = num_pixels s"
    using assms(2) by (simp_all add: overlay_ok_def)
  let ?px = "case ps_format s of
      Gray8 \<Rightarrow> compose_gray8 (ps_pixels s) (ov_luma ov) (ov_alpha ov)
    | Rgb565Le \<Rightarrow> compose_rgb565 (ov_luma ov) (ov_alpha ov) 0 (ps_pixels s)
    | _ \<Rightarrow> ps_pixels s"
  show ?thesis
  proof (cases "ov_transparent ov")
    case True
    then have "mix_pixel (ps_format s) ov j (surface_pixel s j) = surface_pixel s j"
      if "j < num_pixels s" for j
      unfolding surface_pixel_def
      using that overlay_alpha_zero [OF assms(2)] len
      by (intro mix_transparent [OF ok(5)] length_pixel_at) simp_all
    moreover have "compose s ov = Inr s"
      using True lens by (simp add: compose_def pixel_len_ok [OF assms(1)] overlay_len_def num_pixels_def)
    ultimately show ?thesis using assms(1) by (auto simp: shows_over_def same_geometry_def)
  next
    case False
    have px: "length ?px = length (ps_pixels s)" using ok(9) by auto
    have "compose s ov = Inr (s\<lparr>ps_pixels := ?px\<rparr>)"
      using False lens px
      by (simp add: compose_def pixel_len_ok [OF assms(1)] overlay_len_def num_pixels_def
          from_pixels_with_format_self [OF assms(1)])
    moreover have "surface_ok (s\<lparr>ps_pixels := ?px\<rparr>)" by (rule surface_ok_pixels [OF assms(1) px])
    moreover have "surface_pixel (s\<lparr>ps_pixels := ?px\<rparr>) j =
        mix_pixel (ps_format s) ov j (surface_pixel s j)" if j: "j < num_pixels s" for j
    proof (cases "ps_format s = Gray8")
      case True
      then have b: "bytes_per_pixel s = 1" using ok(10) by simp
      then have n: "length (ps_pixels s) = num_pixels s" using len by simp
      show ?thesis
        using True b j lens n by (simp add: surface_pixel_def bytes_per_pixel_def mix_pixel_def
            pixel_at_one compose_gray8_nth)
    next
      case False
      then have f: "ps_format s = Rgb565Le" and b: "bytes_per_pixel s = 2" using ok(9,10) by auto
      then have n: "length (ps_pixels s) = num_pixels s * 2" using len by simp
      show ?thesis
        using pixel_at_two_nth [OF n j] compose_rgb565_pixel [OF n j, of "ov_luma ov" "ov_alpha ov" 0] f b
        by (simp add: surface_pixel_def bytes_per_pixel_def mix_pixel_def)
    qed
    ultimately show ?thesis by (auto simp: shows_over_def same_geometry_def)
  qed
qed

lemma for_rects_writes:
  assumes "surface_ok s" and "list_all (rect_ok (ps_width s) (ps_height s)) rs"
    and "\<And>r. rect_ok (ps_width s) (ps_height s) r \<Longrightarrow>
      writes (num_pixels s) (bytes_per_pixel s) (step r) (in_rect (ps_width s) r) g"
    and "revisit_ok (num_pixels s) g (in_rect (ps_width s)) rs"
    and "for_rects (ps_width s) (ps_height s) step rs (ps_pixels s) = (res, px)"
  shows "res = Inr () \<and> surface_ok (s\<lparr>ps_pixels := px\<rparr>) \<and>
    (\<forall>j<num_pixels s. pixel_at (bytes_per_pixel s) px j =
       (if in_rects s rs j then g j (surface_pixel s j) else surface_pixel s j))"
proof -
  have px: "px = fold step rs (ps_pixels s)" "res = Inr ()"
    using for_rects_ok [OF surface_okD(3,4) [OF assms(1)] assms(2), of step "ps_pixels s"] assms(5)
    by simp_all
  have w: "writes (num_pixels s) (bytes_per_pixel s) (fold step rs)
      (\<lambda>j. \<exists>r\<in>set rs. in_rect (ps_width s) r j) g"
    using assms(2-4) by (intro writes_fold) (auto simp: list_all_iff)
  show ?thesis
    using writes_length [OF w surface_length [OF assms(1)]] surface_length [OF assms(1)]
      writes_pixel [OF w surface_length [OF assms(1)]]
    by (simp add: px surface_ok_pixels [OF assms(1)] in_rects_eq surface_pixel_def)
qed

lemma copy_regions_pixels:
  assumes "surface_ok src" and "surface_ok dst" and "same_geometry dst src"
    and "list_all (rect_ok (ps_width src) (ps_height src)) rs"
  shows "\<exists>out. copy_regions_from dst src rs = (Inr (), out) \<and> surface_ok out \<and>
    same_geometry out src \<and>
    (\<forall>j<num_pixels src. surface_pixel out j =
       (if in_rects src rs j then surface_pixel src j else surface_pixel dst j))"
proof -
  have geo: "ps_width dst = ps_width src" "ps_height dst = ps_height src" "ps_format dst = ps_format src"
    using assms(3) by (simp_all add: same_geometry_def)
  let ?step = "copy_rect (ps_width src) (bytes_per_pixel src) (ps_pixels src)"
  obtain res px where fr: "for_rects (ps_width dst) (ps_height dst) ?step rs (ps_pixels dst) = (res, px)"
    by (rule prod.exhaust)
  have "writes (num_pixels dst) (bytes_per_pixel dst) (?step r) (in_rect (ps_width dst) r)
      (\<lambda>j v. pixel_at (bytes_per_pixel src) (ps_pixels src) j)"
    if "rect_ok (ps_width dst) (ps_height dst) r" for r
    using that copy_rect_writes [of "ps_width src" "ps_height src" r "ps_pixels src" "bytes_per_pixel src"]
      surface_length [OF assms(1)] geo
    by (simp add: num_pixels_def same_geometry_simps [OF assms(3)])
  from for_rects_writes [OF assms(2) _ this _ fr]
  have "res = Inr () \<and> surface_ok (dst\<lparr>ps_pixels := px\<rparr>) \<and>
    (\<forall>j<num_pixels dst. pixel_at (bytes_per_pixel dst) px j =
       (if in_rects dst rs j then surface_pixel src j else surface_pixel dst j))"
    using assms(4) geo by (simp add: surface_pixel_def)
  then show ?thesis
    using fr geo by (simp add: copy_regions_from_def same_geometry_simps [OF assms(3)] surface_pixel_def
        same_geometry_def bytes_per_pixel_def)
qed

lemma compose_regions_pixels:
  assumes "surface_ok base" and "surface_ok dst" and "same_geometry dst base"
    and "overlay_ok (num_pixels base) ov"
    and "list_all (rect_ok (ps_width base) (ps_height base)) rs"
  shows "\<exists>out. compose_regions_into base ov dst rs = (Inr (), out) \<and> surface_ok out \<and>
    same_geometry out base \<and>
    (\<forall>j<num_pixels base. surface_pixel out j =
       (if in_rects base rs j then mix_pixel (ps_format base) ov j (surface_pixel base j)
        else surface_pixel dst j))"
proof -
  have geo: "ps_width dst = ps_width base" "ps_height dst = ps_height base" "ps_format dst = ps_format base"
    using assms(3) by (simp_all add: same_geometry_def)
  have lens: "length (ov_luma ov) = num_pixels base" "length (ov_alpha ov) = num_pixels base"
    using assms(4) by (simp_all add: overlay_ok_def)
  note ok = surface_okD [OF assms(1)] and len = surface_length [OF assms(1)]
  show ?thesis
  proof (cases "ov_transparent ov")
    case True
    then have "mix_pixel (ps_format base) ov j (surface_pixel base j) = surface_pixel base j"
      if "j < num_pixels base" for j
      unfolding surface_pixel_def
      using that overlay_alpha_zero [OF assms(4)] len
      by (intro mix_transparent [OF ok(5)] length_pixel_at) simp_all
    moreover have "compose_regions_into base ov dst rs = copy_regions_from dst base rs"
      using True geo lens
      by (simp add: compose_regions_into_def pixel_len_ok [OF assms(1)] overlay_len_def num_pixels_def)
    ultimately show ?thesis using copy_regions_pixels [OF assms(1-3,5)] by auto
  next
    case False
    let ?step = "compose_rect (ps_width base) (ps_format base) (bytes_per_pixel base) (ps_pixels base) ov"
    obtain res px where fr: "for_rects (ps_width dst) (ps_height dst) ?step rs (ps_pixels dst) = (res, px)"
      by (rule prod.exhaust)
    have "writes (num_pixels dst) (bytes_per_pixel dst) (?step r) (in_rect (ps_width dst) r)
        (\<lambda>j v. mix_pixel (ps_format base) ov j (pixel_at (bytes_per_pixel base) (ps_pixels base) j))"
      if "rect_ok (ps_width dst) (ps_height dst) r" for r
      using that compose_rect_writes [of "ps_width base" "ps_height base" r "ps_format base"
          "bytes_per_pixel base" "ps_pixels base" ov] len lens geo ok(5)
      by (simp add: num_pixels_def same_geometry_simps [OF assms(3)])
    from for_rects_writes [OF assms(2) _ this _ fr]
    have "res = Inr () \<and> surface_ok (dst\<lparr>ps_pixels := px\<rparr>) \<and>
      (\<forall>j<num_pixels dst. pixel_at (bytes_per_pixel dst) px j =
         (if in_rects dst rs j then mix_pixel (ps_format base) ov j (surface_pixel base j)
          else surface_pixel dst j))"
      using assms(5) geo by (simp add: surface_pixel_def)
    then show ?thesis
      using False fr geo lens
      by (simp add: compose_regions_into_def pixel_len_ok [OF assms(1)] overlay_len_def
          num_pixels_def surface_pixel_def same_geometry_def bytes_per_pixel_def in_rects_def)
  qed
qed

lemma blend_region_pixels:
  assumes "surface_ok s" and "overlay_ok (num_pixels s) ov"
    and "rect_ok (ps_width s) (ps_height s) r"
  shows "\<exists>out. blend_regions s ov [r] = (Inr (), out) \<and> surface_ok out \<and> same_geometry out s \<and>
    (\<forall>j<num_pixels s. surface_pixel out j =
       (if in_rects s [r] j then mix_pixel (ps_format s) ov j (surface_pixel s j)
        else surface_pixel s j))"
proof (cases "ov_transparent ov")
  case True
  then have "mix_pixel (ps_format s) ov j (surface_pixel s j) = surface_pixel s j"
    if "j < num_pixels s" for j
    unfolding surface_pixel_def
    using that overlay_alpha_zero [OF assms(2)] surface_length [OF assms(1)]
    by (intro mix_transparent [OF surface_okD(5) [OF assms(1)]] length_pixel_at) simp_all
  then show ?thesis using True assms(1) by (simp add: blend_regions_def same_geometry_def)
next
  case False
  have lens: "length (ov_luma ov) = num_pixels s" "length (ov_alpha ov) = num_pixels s"
    using assms(2) by (simp_all add: overlay_ok_def)
  let ?step = "blend_rect (ps_width s) (ps_format s) ov"
  obtain res px where fr: "for_rects (ps_width s) (ps_height s) ?step [r] (ps_pixels s) = (res, px)"
    by (rule prod.exhaust)
  have "writes (num_pixels s) (bytes_per_pixel s) (?step q) (in_rect (ps_width s) q) (mix_pixel (ps_format s) ov)"
    if "rect_ok (ps_width s) (ps_height s) q" for q
    using that blend_rect_writes [of "ps_width s" "ps_height s" q "ps_format s" "bytes_per_pixel s" ov]
      lens surface_okD(5) [OF assms(1)] by (simp add: num_pixels_def)
  from for_rects_writes [OF assms(1) _ this _ fr]
  have "res = Inr () \<and> surface_ok (s\<lparr>ps_pixels := px\<rparr>) \<and>
    (\<forall>j<num_pixels s. pixel_at (bytes_per_pixel s) px j =
       (if in_rects s [r] j then mix_pixel (ps_format s) ov j (surface_pixel s j)
        else surface_pixel s j))"
    using assms(3) by (simp add: revisit_ok_def)
  then show ?thesis
    using False fr lens
    by (simp add: blend_regions_def overlay_len_def num_pixels_def surface_pixel_def
        same_geometry_def bytes_per_pixel_def in_rects_def)
qed

section \<open>A concrete surface\<close>

definition sample_surface :: pixel_surface where
  "sample_surface = \<lparr>ps_width = 2, ps_height = 2, ps_format = Gray8, ps_pixels = [10, 20, 30, 40]\<rparr>"

definition sample_overlay :: local_overlay where
  "sample_overlay = \<lparr>ov_luma = [0, 0, 0, 200], ov_alpha = [0, 0, 0, 255], ov_transparent = False,
     ov_dirty = None\<rparr>"

lemma sample_surface_ok: "surface_ok sample_surface"
  by (simp add: surface_ok_def sample_surface_def max_defs)

lemma sample_overlay_ok: "overlay_ok (num_pixels sample_surface) sample_overlay"
  by (simp add: overlay_ok_def sample_overlay_def sample_surface_def num_pixels_def)

text \<open>
  Claim C27. Regional composition agrees with full composition: on surfaces and planes of one
  geometry, \<open>compose_regions_into\<close> succeeds, writes on every pixel of the regions exactly what
  \<open>compose\<close> gives there (its fast path for rows without coverage included), and leaves the
  pixels outside the regions alone; so an output that agreed with the composition outside the
  regions is the composition afterwards.
\<close>

theorem compose_regions_agree:
  assumes "surface_ok base" and "surface_ok dst" and "same_geometry dst base"
    and "overlay_ok (num_pixels base) ov"
    and "list_all (rect_ok (ps_width base) (ps_height base)) rs"
  shows "\<exists>full out. compose base ov = Inr full \<and>
    compose_regions_into base ov dst rs = (Inr (), out) \<and> surface_ok out \<and>
    same_geometry out base \<and>
    (\<forall>j<num_pixels base. surface_pixel out j =
       (if in_rects base rs j then surface_pixel full j else surface_pixel dst j)) \<and>
    ((\<forall>j<num_pixels base. \<not> in_rects base rs j \<longrightarrow> surface_pixel dst j = surface_pixel full j)
      \<longrightarrow> out = full)"
proof -
  obtain full where full: "compose base ov = Inr full" "shows_over ov base full"
    using compose_shows_over [OF assms(1,4)] by blast
  obtain out where out: "compose_regions_into base ov dst rs = (Inr (), out)" "surface_ok out"
      "same_geometry out base"
      "\<And>j. j < num_pixels base \<Longrightarrow> surface_pixel out j =
         (if in_rects base rs j then surface_pixel full j else surface_pixel dst j)"
    using compose_regions_pixels [OF assms] full(2) by (auto simp: shows_over_def)
  have "out = full"
    if "\<forall>j<num_pixels base. \<not> in_rects base rs j \<longrightarrow> surface_pixel dst j = surface_pixel full j"
  proof (rule surface_eqI)
    show "surface_ok out" by (rule out(2))
    show "surface_ok full" and "same_geometry out full"
      using full(2) out(3) by (auto simp: shows_over_def same_geometry_def)
    fix j assume "j < num_pixels full"
    then have "j < num_pixels base" using full(2) same_geometry_simps(2) by (auto simp: shows_over_def)
    then show "surface_pixel out j = surface_pixel full j" using out(4) that by simp
  qed
  then show ?thesis using full(1) out by blast
qed

theorem apply_regions_atomic_correct_witness:
  "\<exists>res s'. apply_regions_atomic sample_surface [\<lparr>dr_rect = mk_rect 1 0 1 2, dr_pixels = [7, 8]\<rparr>] =
     (res, s') \<and> is_ok res \<and> surface_ok s'"
proof -
  let ?rs = "[\<lparr>dr_rect = mk_rect 1 0 1 2, dr_pixels = [7, 8 :: u8]\<rparr>]"
  obtain res s' where r: "apply_regions_atomic sample_surface ?rs = (res, s')" by (rule prod.exhaust)
  have "list_all (region_ok (ps_width sample_surface) (ps_height sample_surface)
      (bytes_per_pixel sample_surface)) ?rs \<and> \<not> any_overlap (map dr_rect ?rs)"
    by (simp add: sample_surface_def bytes_per_pixel_def region_ok_def rect_ok_def)
  with apply_regions_atomic_correct [OF sample_surface_ok r] r show ?thesis by auto
qed

theorem apply_regions_matches_semantic_witness:
  "\<exists>s v. surface_ok s \<and> apply_regions_atomic s (vf_regions v) =
     (Inr (), s\<lparr>ps_pixels := apply_validated_frame (ps_pixels s) (ps_width s) v\<rparr>) \<and>
     length (vf_regions v) = 2"
proof -
  let ?s = "\<lparr>ps_width = 4, ps_height = 2, ps_format = Gray8, ps_pixels = replicate 8 0\<rparr>"
  have s: "surface_ok ?s" by (simp add: surface_ok_def max_defs)
  obtain v where v: "validate_and_decode_frame sample_decoders
      (raw_frame sample_decoders sample_state 4 3 Latest sample_regions) sample_state = Inr v"
    using sample_frame_accepted by (auto simp: is_ok_def split: sum.splits)
  have "length (vf_regions v) = 2"
    using validated_frame_facts [OF v] by (simp add: raw_frame_def sample_regions_def)
  moreover have "apply_regions_atomic ?s (vf_regions v) =
      (Inr (), ?s\<lparr>ps_pixels := apply_validated_frame (ps_pixels ?s) (ps_width ?s) v\<rparr>)"
    by (rule apply_regions_matches_semantic [OF s v]) (simp_all add: sample_state_def)
  ultimately show ?thesis using s by blast
qed

theorem compose_regions_agree_witness:
  "\<exists>full out. compose sample_surface sample_overlay = Inr full \<and>
    compose_regions_into sample_surface sample_overlay sample_surface [mk_rect 1 1 1 1] = (Inr (), out) \<and>
    surface_pixel out 3 = surface_pixel full 3"
proof -
  have "in_rects sample_surface [mk_rect 1 1 1 1] 3"
    by (simp add: in_rects_def sample_surface_def inside_def)
  moreover have "3 < num_pixels sample_surface" by (simp add: num_pixels_def sample_surface_def)
  moreover have "same_geometry sample_surface sample_surface" by (simp add: same_geometry_def)
  moreover have "list_all (rect_ok (ps_width sample_surface) (ps_height sample_surface))
      [mk_rect 1 1 1 1]"
    by (simp add: rect_ok_def sample_surface_def)
  ultimately show ?thesis
    using compose_regions_agree [OF sample_surface_ok sample_surface_ok _ sample_overlay_ok,
        of "[mk_rect 1 1 1 1]"]
    by metis
qed

end
