(* ===== verification/Damage.thy ===== *)
theory Damage
  imports Surface
begin

text \<open>
  Damage tracking: \<open>tile_damage\<close> and \<open>tile_damage_regions\<close> of
  \<open>crates/rm-display-core/src/surface.rs\<close>, and \<open>full_damage\<close>, \<open>damage_pixels\<close> and
  \<open>merge_tiled_damage\<close> of \<open>scheduler.rs\<close>. All of them report whole tiles of a grid anchored
  at the top left corner and clipped at the right and bottom edges. The lemmas bring the three
  loops into one form, \<open>tiles_where\<close>, from which validity, disjointness and coverage follow.
\<close>

section \<open>Definitions\<close>

definition step_by :: "nat \<Rightarrow> nat \<Rightarrow> nat list" where
  "step_by n tile = map (\<lambda>k. k * tile) [0..<div_ceil n tile]"

text \<open>Does any row of the rectangle at \<open>(x, y)\<close> differ between the two buffers?\<close>

definition rows_differ ::
  "bytes \<Rightarrow> bytes \<Rightarrow> nat \<Rightarrow> nat \<Rightarrow> nat \<Rightarrow> nat \<Rightarrow> nat \<Rightarrow> nat \<Rightarrow> bool" where
  "rows_differ previous current width bpp x y w h =
     list_ex (\<lambda>row. let offset = ((y + row) * width + x) * bpp; byte_width = w * bpp
                    in slice previous offset byte_width \<noteq> slice current offset byte_width) [0..<h]"

definition full_damage :: "nat \<Rightarrow> nat \<Rightarrow> rect list" where
  "full_damage width height = [mk_rect 0 0 width height]"

definition damage_pixels :: "rect list \<Rightarrow> nat" where
  "damage_pixels damage =
     fold (\<lambda>r total. sat_add_u64 total (rect_w r * rect_h r)) damage 0"

definition tile_damage :: "pixel_surface \<Rightarrow> pixel_surface \<Rightarrow> nat \<Rightarrow> rect list" where
  "tile_damage previous current tile =
     (if ps_width previous \<noteq> ps_width current \<or> ps_height previous \<noteq> ps_height current \<or>
         ps_format previous \<noteq> ps_format current \<or> tile = 0
      then [mk_rect 0 0 (ps_width current) (ps_height current)]
      else
        let width = ps_width current; bpp = bytes_per_pixel current in
        concat (map (\<lambda>y. let height = min tile (ps_height current - y) in
          concat (map (\<lambda>x. let rect_width = min tile (width - x) in
            if rows_differ (ps_pixels previous) (ps_pixels current) width bpp x y rect_width height
            then [mk_rect x y rect_width height] else []) (step_by width tile)))
          (step_by (ps_height current) tile)))"

text \<open>Marking the tiles a rectangle touches in the candidate bitmap.\<close>

definition mark_tiles :: "nat \<Rightarrow> nat \<Rightarrow> nat \<Rightarrow> nat \<Rightarrow> nat \<Rightarrow> bool list \<Rightarrow> bool list" where
  "mark_tiles tiles_x start_x end_x start_y end_y candidates =
     fold (\<lambda>tile_y. fold (\<lambda>tile_x c. c[tile_y * tiles_x + tile_x := True]) [start_x..<Suc end_x])
       [start_y..<Suc end_y] candidates"

definition tile_damage_regions ::
  "pixel_surface \<Rightarrow> pixel_surface \<Rightarrow> nat \<Rightarrow> rect list \<Rightarrow> rect list" where
  "tile_damage_regions previous current tile regions =
     (if ps_width previous \<noteq> ps_width current \<or> ps_height previous \<noteq> ps_height current \<or>
         ps_format previous \<noteq> ps_format current \<or> tile = 0
      then [mk_rect 0 0 (ps_width current) (ps_height current)]
      else
        let width = ps_width current; height = ps_height current; bpp = bytes_per_pixel current;
            tiles_x = div_ceil width tile; tiles_y = div_ceil height tile;
            candidates = fold (\<lambda>r. mark_tiles tiles_x (rect_x r div tile)
                ((rect_x r + rect_w r - 1) div tile) (rect_y r div tile)
                ((rect_y r + rect_h r - 1) div tile))
              regions (replicate (tiles_x * tiles_y) False)
        in concat (map (\<lambda>(index, candidate).
             if \<not> candidate then []
             else let x = (index mod tiles_x) * tile; y = (index div tiles_x) * tile;
                      rect_width = min tile (width - x); rect_height = min tile (height - y)
               in if rows_differ (ps_pixels previous) (ps_pixels current) width bpp x y
                       rect_width rect_height
                  then [mk_rect x y rect_width rect_height] else [])
           (enumerate 0 candidates)))"

definition merge_mark :: "nat \<Rightarrow> nat \<Rightarrow> nat \<Rightarrow> rect \<Rightarrow> bool list \<Rightarrow> bool list" where
  "merge_mark width height tile r dirty =
     (let right = min (sat_add_u32 (rect_x r) (rect_w r)) width;
          bottom = min (sat_add_u32 (rect_y r) (rect_h r)) height
      in if rect_x r \<ge> right \<or> rect_y r \<ge> bottom then dirty
         else mark_tiles (div_ceil width tile) (rect_x r div tile) ((right - 1) div tile)
           (rect_y r div tile) ((bottom - 1) div tile) dirty)"

definition merge_tiled_damage ::
  "nat \<Rightarrow> nat \<Rightarrow> nat \<Rightarrow> rect list \<Rightarrow> rect list \<Rightarrow> rect list" where
  "merge_tiled_damage width height tile' existing damage =
     (let tile = max tile' 1; tiles_x = div_ceil width tile; tiles_y = div_ceil height tile;
          dirty = fold (merge_mark width height tile) (existing @ damage)
            (replicate (tiles_x * tiles_y) False)
      in map (\<lambda>(index, d). let x = (index mod tiles_x) * tile; y = (index div tiles_x) * tile
                in mk_rect x y (min tile (width - x)) (min tile (height - y)))
           (filter (\<lambda>(index, d). d) (enumerate 0 dirty)))"

section \<open>The tile grid\<close>

definition tile_rect :: "nat \<Rightarrow> nat \<Rightarrow> nat \<Rightarrow> nat \<Rightarrow> nat \<Rightarrow> rect" where
  "tile_rect W H t tx ty = mk_rect (tx * t) (ty * t) (min t (W - tx * t)) (min t (H - ty * t))"

text \<open>The tiles that satisfy \<open>Q\<close>, in row-major order.\<close>

definition tiles_where :: "nat \<Rightarrow> nat \<Rightarrow> nat \<Rightarrow> (nat \<Rightarrow> nat \<Rightarrow> bool) \<Rightarrow> rect list" where
  "tiles_where W H t Q =
     (let nx = div_ceil W t; ny = div_ceil H t in
      concat (map (\<lambda>i. if Q (i mod nx) (i div nx) then [tile_rect W H t (i mod nx) (i div nx)] else [])
        [0..<nx * ny]))"

lemma div_eq_iff:
  assumes "0 < t"
  shows "p div t = k \<longleftrightarrow> k * t \<le> p \<and> p < k * t + (t :: nat)"
proof
  show "p div t = k \<Longrightarrow> k * t \<le> p \<and> p < k * t + t"
    using dividend_less_times_div [OF assms, of p] by (auto simp: mult.commute add.commute)
  show "k * t \<le> p \<and> p < k * t + t \<Longrightarrow> p div t = k"
    by (intro div_nat_eqI) (simp_all add: mult.commute)
qed

lemma tile_rect_inside:
  assumes "0 < t" and "px < W" and "py < H"
  shows "inside (tile_rect W H t tx ty) px py \<longleftrightarrow> px div t = tx \<and> py div t = ty"
  using assms by (auto simp: inside_def tile_rect_def div_eq_iff)

lemma tile_rect_ok: "0 < t \<Longrightarrow> tx < div_ceil W t \<Longrightarrow> ty < div_ceil H t \<Longrightarrow> rect_ok W H (tile_rect W H t tx ty)"
  by (auto simp: rect_ok_def tile_rect_def div_ceil_le_iff)

lemma tile_of_pixel: "0 < t \<Longrightarrow> p < n \<Longrightarrow> p div t < div_ceil n t"
  by (simp add: div_ceil_le_iff) (meson div_times_less_eq_dividend le_less_trans)

lemma set_tiles_where:
  assumes "0 < t"
  shows "set (tiles_where W H t Q) =
    {tile_rect W H t tx ty | tx ty. tx < div_ceil W t \<and> ty < div_ceil H t \<and> Q tx ty}"
proof -
  have "\<exists>i. i < div_ceil W t * div_ceil H t \<and> i mod div_ceil W t = tx \<and> i div div_ceil W t = ty"
    if "tx < div_ceil W t" "ty < div_ceil H t" for tx ty
    using that cell_bound [OF that] by (intro exI [of _ "ty * div_ceil W t + tx"])
      (auto simp: mult.commute)
  then show ?thesis
    using position_less [of _ "div_ceil W t" "div_ceil H t"]
    by (fastforce simp: tiles_where_def Let_def)
qed

lemma tiles_where_ok: "0 < t \<Longrightarrow> list_all (rect_ok W H) (tiles_where W H t Q)"
  by (auto simp: list_all_iff set_tiles_where intro: tile_rect_ok)

lemma tiles_where_covers:
  assumes "0 < t" and "px < W" and "py < H"
  shows "covers (tiles_where W H t Q) px py \<longleftrightarrow> Q (px div t) (py div t)"
proof
  assume "covers (tiles_where W H t Q) px py"
  then show "Q (px div t) (py div t)"
    using assms by (auto simp: covers_def set_tiles_where tile_rect_inside)
next
  assume Q: "Q (px div t) (py div t)"
  show "covers (tiles_where W H t Q) px py"
    by (rule coversI [of "tile_rect W H t (px div t) (py div t)"])
      (use assms Q tile_of_pixel [OF assms(1,2)] tile_of_pixel [OF assms(1,3)] in
        \<open>auto simp: set_tiles_where tile_rect_inside\<close>)
qed

lemma tile_rects_disjoint:
  assumes "0 < t" and "tx < div_ceil W t" "ty < div_ceil H t" and "(tx, ty) \<noteq> (tx', ty')"
  shows "disjoint_rects (tile_rect W H t tx ty) (tile_rect W H t tx' ty')"
  using assms rect_ok_inside [OF tile_rect_ok [OF assms(1-3)]]
  by (auto simp: disjoint_rects_def) (metis assms(1) tile_rect_inside)+

lemma tiles_where_disjoint:
  assumes "0 < t"
  shows "sorted_wrt disjoint_rects (tiles_where W H t Q)"
proof -
  let ?nx = "div_ceil W t" and ?ny = "div_ceil H t"
  let ?f = "\<lambda>i. if Q (i mod ?nx) (i div ?nx) then [tile_rect W H t (i mod ?nx) (i div ?nx)] else []"
  have "sorted_wrt disjoint_rects (concat (map ?f is))" if "distinct is" "set is \<subseteq> {..<?nx * ?ny}" for "is"
    using that
  proof (induction "is")
    case Nil
    then show ?case by simp
  next
    case (Cons i js)
    have "disjoint_rects (tile_rect W H t (i mod ?nx) (i div ?nx)) (tile_rect W H t (j mod ?nx) (j div ?nx))"
      if "j \<in> set js" for j
    proof (rule tile_rects_disjoint [OF assms])
      show "i mod ?nx < ?nx" "i div ?nx < ?ny" using Cons.prems position_less [of i ?nx ?ny] by auto
      have "i \<noteq> j" using that Cons.prems by auto
      then show "(i mod ?nx, i div ?nx) \<noteq> (j mod ?nx, j div ?nx)" by (metis div_mult_mod_eq prod.inject)
    qed
    then show ?case using Cons by (auto simp: sorted_wrt_append)
  qed
  from this [of "[0..<?nx * ?ny]"] show ?thesis by (simp add: tiles_where_def Let_def subset_eq)
qed

section \<open>Which tiles changed\<close>

definition pixel_changed :: "pixel_surface \<Rightarrow> pixel_surface \<Rightarrow> nat \<Rightarrow> nat \<Rightarrow> bool" where
  "pixel_changed a b px py =
     (surface_pixel a (py * ps_width b + px) \<noteq> surface_pixel b (py * ps_width b + px))"

definition tile_changed :: "pixel_surface \<Rightarrow> pixel_surface \<Rightarrow> nat \<Rightarrow> nat \<Rightarrow> nat \<Rightarrow> bool" where
  "tile_changed a b t tx ty =
     rows_differ (ps_pixels a) (ps_pixels b) (ps_width b) (bytes_per_pixel b) (tx * t) (ty * t)
       (min t (ps_width b - tx * t)) (min t (ps_height b - ty * t))"

lemma rows_differ_iff:
  assumes ok: "surface_ok a" "surface_ok b" "same_geometry a b" and r: "rect_ok (ps_width b) (ps_height b) r"
  shows "rows_differ (ps_pixels a) (ps_pixels b) (ps_width b) (bytes_per_pixel b)
      (rect_x r) (rect_y r) (rect_w r) (rect_h r) \<longleftrightarrow>
    (\<exists>px py. inside r px py \<and> pixel_changed a b px py)"
proof -
  let ?W = "ps_width b" and ?H = "ps_height b" and ?b = "bytes_per_pixel b"
  have len: "length (ps_pixels a) = ?W * ?H * ?b" "length (ps_pixels b) = ?W * ?H * ?b"
    using surface_length [OF ok(1)] surface_length [OF ok(2)] same_geometry_simps [OF ok(3)]
    by (simp_all add: num_pixels_def)
  have box: "rect_x r + rect_w r \<le> ?W" "rect_y r + rect_h r \<le> ?H" using r by (simp_all add: rect_ok_def)
  have bpos: "0 < ?b" by (rule surface_okD(8) [OF ok(2)])
  have row: "slice (ps_pixels a) (((rect_y r + row) * ?W + rect_x r) * ?b) (rect_w r * ?b) \<noteq>
        slice (ps_pixels b) (((rect_y r + row) * ?W + rect_x r) * ?b) (rect_w r * ?b) \<longleftrightarrow>
      (\<exists>c<rect_w r. pixel_changed a b (rect_x r + c) (rect_y r + row))" if h: "row < rect_h r" for row
  proof -
    have bounds: "in_bounds (ps_pixels a) (((rect_y r + row) * ?W + rect_x r) * ?b) (rect_w r * ?b)"
      "in_bounds (ps_pixels b) (((rect_y r + row) * ?W + rect_x r) * ?b) (rect_w r * ?b)"
      using rect_row_in_bounds [OF len(1) box h] rect_row_in_bounds [OF len(2) box h] by simp_all
    have pos: "(rect_y r + row) * ?W + (rect_x r + c) < ?W * ?H" if "c < rect_w r" for c
      using cell_bound [of "rect_x r + c" ?W "rect_y r + row" ?H] that h box
      by (simp add: mult.commute)
    have changed: "pixel_changed a b (rect_x r + c) (rect_y r + row) \<longleftrightarrow>
        (\<exists>k<?b. ps_pixels a ! (((rect_y r + row) * ?W + rect_x r) * ?b + (c * ?b + k)) \<noteq>
          ps_pixels b ! (((rect_y r + row) * ?W + rect_x r) * ?b + (c * ?b + k)))" if "c < rect_w r" for c
      using pixel_at_eq_iff [OF len pos [OF that]] same_geometry_simps(1) [OF ok(3)]
      by (simp add: pixel_changed_def surface_pixel_def algebra_simps)
    have split: "(\<exists>i<rect_w r * ?b. P i) \<longleftrightarrow> (\<exists>c<rect_w r. \<exists>k<?b. P (c * ?b + k))" for P
    proof
      assume "\<exists>i<rect_w r * ?b. P i"
      then obtain i where i: "i < rect_w r * ?b" "P i" by blast
      have "i div ?b < rect_w r" "i mod ?b < ?b" using i bpos by (simp_all add: div_less_iff_less_mult)
      moreover have "P (i div ?b * ?b + i mod ?b)" using i by simp
      ultimately show "\<exists>c<rect_w r. \<exists>k<?b. P (c * ?b + k)" by blast
    next
      assume "\<exists>c<rect_w r. \<exists>k<?b. P (c * ?b + k)"
      then obtain c k where "c < rect_w r" "k < ?b" "P (c * ?b + k)" by blast
      then show "\<exists>i<rect_w r * ?b. P i" using cell_less_iff [of k ?b c "rect_w r"] by blast
    qed
    have "(\<exists>c<rect_w r. pixel_changed a b (rect_x r + c) (rect_y r + row)) \<longleftrightarrow>
        (\<exists>i<rect_w r * ?b. ps_pixels a ! (((rect_y r + row) * ?W + rect_x r) * ?b + i) \<noteq>
          ps_pixels b ! (((rect_y r + row) * ?W + rect_x r) * ?b + i))"
      unfolding split using changed by blast
    then show ?thesis unfolding slice_eq_iff [OF bounds] by blast
  qed
  have "(\<exists>row<rect_h r. \<exists>c<rect_w r. pixel_changed a b (rect_x r + c) (rect_y r + row)) \<longleftrightarrow>
      (\<exists>px py. inside r px py \<and> pixel_changed a b px py)"
  proof
    assume "\<exists>px py. inside r px py \<and> pixel_changed a b px py"
    then obtain px py where "inside r px py" "pixel_changed a b px py" by blast
    then show "\<exists>row<rect_h r. \<exists>c<rect_w r. pixel_changed a b (rect_x r + c) (rect_y r + row)"
      by (intro exI [of _ "py - rect_y r"] conjI exI [of _ "px - rect_x r"]) (auto simp: inside_def)
  next
    assume "\<exists>row<rect_h r. \<exists>c<rect_w r. pixel_changed a b (rect_x r + c) (rect_y r + row)"
    then obtain row c where "row < rect_h r" "c < rect_w r"
      "pixel_changed a b (rect_x r + c) (rect_y r + row)" by blast
    then show "\<exists>px py. inside r px py \<and> pixel_changed a b px py"
      by (intro exI [of _ "rect_x r + c"] exI [of _ "rect_y r + row"]) (simp add: inside_def)
  qed
  then show ?thesis using row by (auto simp: rows_differ_def Let_def list_ex_iff)
qed

lemma tile_changed_iff:
  assumes "surface_ok a" "surface_ok b" "same_geometry a b" "0 < t"
    and "tx < div_ceil (ps_width b) t" "ty < div_ceil (ps_height b) t"
  shows "tile_changed a b t tx ty \<longleftrightarrow>
    (\<exists>px py. px < ps_width b \<and> py < ps_height b \<and> px div t = tx \<and> py div t = ty \<and> pixel_changed a b px py)"
proof -
  let ?r = "tile_rect (ps_width b) (ps_height b) t tx ty"
  have ok: "rect_ok (ps_width b) (ps_height b) ?r" by (rule tile_rect_ok [OF assms(4-6)])
  have "tile_changed a b t tx ty \<longleftrightarrow> (\<exists>px py. inside ?r px py \<and> pixel_changed a b px py)"
    using rows_differ_iff [OF assms(1-3) ok] by (simp add: tile_changed_def tile_rect_def)
  then show ?thesis using rect_ok_inside [OF ok] tile_rect_inside [OF assms(4)] by metis
qed

section \<open>The loops as tile sets\<close>

lemma concat_grid:
  "concat (map (\<lambda>y. concat (map (\<lambda>x. f x y) [0..<nx])) [0..<ny]) =
   concat (map (\<lambda>i. f (i mod nx) (i div nx)) [0..<nx * ny])"
proof (cases "nx = 0")
  case True
  then show ?thesis by (induction ny) simp_all
next
  case False
  show ?thesis
  proof (induction ny)
    case 0
    then show ?case by simp
  next
    case (Suc ny)
    have "[0..<nx * Suc ny] = [0..<nx * ny] @ map (\<lambda>x. x + nx * ny) [0..<nx]"
      using upt_add_eq_append [of 0 "nx * ny" nx] map_add_upt [of "nx * ny" nx]
      by (simp add: add.commute)
    moreover have "map (\<lambda>i. f (i mod nx) (i div nx)) (map (\<lambda>x. x + nx * ny) [0..<nx]) =
        map (\<lambda>x. f x ny) [0..<nx]"
      using False by simp
    ultimately show ?case using Suc by (simp del: map_map)
  qed
qed

lemma tile_damage_tiles:
  assumes "same_geometry a b" and "0 < t"
  shows "tile_damage a b t = tiles_where (ps_width b) (ps_height b) t (tile_changed a b t)"
  using assms concat_grid [of "\<lambda>x y. if tile_changed a b t x y
      then [tile_rect (ps_width b) (ps_height b) t x y] else []" "div_ceil (ps_width b) t" "div_ceil (ps_height b) t"]
  by (simp add: tile_damage_def same_geometry_def tiles_where_def Let_def step_by_def
      comp_def tile_changed_def tile_rect_def cong: if_cong)

text \<open>A candidate bitmap with exactly the tiles of \<open>Q\<close> set, and what collecting it gives.\<close>

definition bitmap_is :: "nat \<Rightarrow> nat \<Rightarrow> (nat \<Rightarrow> nat \<Rightarrow> bool) \<Rightarrow> bool list \<Rightarrow> bool" where
  "bitmap_is nx ny Q c \<longleftrightarrow> length c = nx * ny \<and> (\<forall>i<nx * ny. c ! i \<longleftrightarrow> Q (i mod nx) (i div nx))"

lemma bitmap_empty: "bitmap_is nx ny (\<lambda>_ _. False) (replicate (nx * ny) False)"
  by (simp add: bitmap_is_def)

lemma collect_bitmap:
  assumes "bitmap_is nx ny Q c"
  shows "concat (map (\<lambda>(i, b). if b then f i else []) (enumerate 0 c)) =
    concat (map (\<lambda>i. if Q (i mod nx) (i div nx) then f i else []) [0..<nx * ny])"
proof -
  have "map (\<lambda>(i, b). if b then f i else []) (enumerate 0 c) =
      map (\<lambda>i. if Q (i mod nx) (i div nx) then f i else []) [0..<nx * ny]"
    using assms by (intro nth_equalityI) (auto simp: bitmap_is_def nth_enumerate_eq)
  then show ?thesis by simp
qed

lemma nth_update_True: "j < length c \<Longrightarrow> c[i := True] ! j \<longleftrightarrow> j = i \<or> c ! j"
  by (cases "i < length c") (auto simp: nth_list_update)

lemma mark_row:
  "length (fold (\<lambda>x c. c[y * nx + x := True]) xs c) = length c \<and>
   (\<forall>i<length c. fold (\<lambda>x c. c[y * nx + x := True]) xs c ! i \<longleftrightarrow>
     c ! i \<or> (\<exists>x\<in>set xs. i = y * nx + x))"
proof (induction xs arbitrary: c)
  case Nil
  then show ?case by simp
next
  case (Cons x xs)
  from this [of "c[y * nx + x := True]"] show ?case by (auto simp: nth_update_True)
qed

lemma mark_rows:
  "length (fold (\<lambda>y. fold (\<lambda>x c. c[y * nx + x := True]) xs) ys c) = length c \<and>
   (\<forall>i<length c. fold (\<lambda>y. fold (\<lambda>x c. c[y * nx + x := True]) xs) ys c ! i \<longleftrightarrow>
     c ! i \<or> (\<exists>y\<in>set ys. \<exists>x\<in>set xs. i = y * nx + x))"
proof (induction ys arbitrary: c)
  case Nil
  then show ?case by simp
next
  case (Cons y ys)
  from this [of "fold (\<lambda>x c. c[y * nx + x := True]) xs c"] mark_row [of y nx xs c]
  show ?case by auto
qed

lemma mark_tiles_bitmap:
  assumes "bitmap_is nx ny Q c" and "ex < nx" and "ey < ny"
  shows "bitmap_is nx ny (\<lambda>tx ty. Q tx ty \<or> (sx \<le> tx \<and> tx \<le> ex \<and> sy \<le> ty \<and> ty \<le> ey))
    (mark_tiles nx sx ex sy ey c)"
proof -
  have "(\<exists>y\<in>set [sy..<Suc ey]. \<exists>x\<in>set [sx..<Suc ex]. i = y * nx + x) \<longleftrightarrow>
      sx \<le> i mod nx \<and> i mod nx \<le> ex \<and> sy \<le> i div nx \<and> i div nx \<le> ey" (is "?l \<longleftrightarrow> ?r")
    if "i < nx * ny" for i
  proof
    assume ?l
    then show ?r using assms(2) by auto
  next
    assume ?r
    moreover have "i = i div nx * nx + i mod nx" by simp
    ultimately show ?l by (intro bexI [of _ "i div nx"] bexI [of _ "i mod nx"]) auto
  qed
  then show ?thesis
    using assms(1) mark_rows [of nx "[sx..<Suc ex]" "[sy..<Suc ey]" c]
    by (auto simp: bitmap_is_def mark_tiles_def simp del: upt_Suc)
qed

text \<open>\<open>touches\<close>: some rectangle of the list has a pixel in the tile.\<close>

definition touches :: "nat \<Rightarrow> rect list \<Rightarrow> nat \<Rightarrow> nat \<Rightarrow> bool" where
  "touches t rs tx ty = list_ex (\<lambda>r.
     rect_x r div t \<le> tx \<and> tx \<le> (rect_x r + rect_w r - 1) div t \<and>
     rect_y r div t \<le> ty \<and> ty \<le> (rect_y r + rect_h r - 1) div t) rs"

lemma covers_touches:
  assumes "covers rs px py"
  shows "touches t rs (px div t) (py div t)"
proof -
  obtain r where r: "r \<in> set rs" "inside r px py" using assms by (auto simp: covers_def)
  then have "rect_x r div t \<le> px div t" "px div t \<le> (rect_x r + rect_w r - 1) div t"
    "rect_y r div t \<le> py div t" "py div t \<le> (rect_y r + rect_h r - 1) div t"
    by (auto simp: inside_def intro!: div_le_mono)
  with r show ?thesis by (auto simp: touches_def list_ex_iff)
qed

lemma rect_ok_tiles:
  assumes "rect_ok W H r" and "0 < t"
  shows "(rect_x r + rect_w r - 1) div t < div_ceil W t" "(rect_y r + rect_h r - 1) div t < div_ceil H t"
  using assms by (auto simp: rect_ok_def intro!: tile_of_pixel)

lemma touches_bitmap:
  assumes "list_all (rect_ok W H) rs" and "0 < t" and "bitmap_is (div_ceil W t) (div_ceil H t) Q c"
  shows "bitmap_is (div_ceil W t) (div_ceil H t) (\<lambda>tx ty. Q tx ty \<or> touches t rs tx ty)
    (fold (\<lambda>r. mark_tiles (div_ceil W t) (rect_x r div t) ((rect_x r + rect_w r - 1) div t)
       (rect_y r div t) ((rect_y r + rect_h r - 1) div t)) rs c)"
  using assms(1,3)
proof (induction rs arbitrary: Q c)
  case Nil
  then show ?case by (simp add: touches_def)
next
  case (Cons r rs)
  from Cons.prems(1) have r: "rect_ok W H r" by simp
  from Cons.IH [OF _ mark_tiles_bitmap [OF Cons.prems(2) rect_ok_tiles [OF r assms(2)]]] Cons.prems(1)
  show ?case by (simp add: touches_def disj_assoc)
qed

lemma tile_damage_regions_tiles:
  assumes "same_geometry a b" and "0 < t" and "list_all (rect_ok (ps_width b) (ps_height b)) rs"
  shows "tile_damage_regions a b t rs =
    tiles_where (ps_width b) (ps_height b) t (\<lambda>tx ty. touches t rs tx ty \<and> tile_changed a b t tx ty)"
proof -
  let ?nx = "div_ceil (ps_width b) t" and ?ny = "div_ceil (ps_height b) t"
  let ?c = "fold (\<lambda>r. mark_tiles ?nx (rect_x r div t) ((rect_x r + rect_w r - 1) div t)
       (rect_y r div t) ((rect_y r + rect_h r - 1) div t)) rs (replicate (?nx * ?ny) False)"
  let ?f = "\<lambda>i. if tile_changed a b t (i mod ?nx) (i div ?nx)
      then [tile_rect (ps_width b) (ps_height b) t (i mod ?nx) (i div ?nx)] else []"
  have c: "bitmap_is ?nx ?ny (touches t rs) ?c"
    using touches_bitmap [OF assms(3,2) bitmap_empty] by simp
  have "tile_damage_regions a b t rs =
      concat (map (\<lambda>(i, d). if d then ?f i else []) (enumerate 0 ?c))"
    using assms(1,2)
    by (simp add: tile_damage_regions_def same_geometry_def Let_def tile_changed_def tile_rect_def
        if_distrib [of "\<lambda>d. if d then _ else _"] cong: if_cong)
      (intro arg_cong [of _ _ concat] map_cong, auto)
  also have "\<dots> = concat (map (\<lambda>i. if touches t rs (i mod ?nx) (i div ?nx) then ?f i else []) [0..<?nx * ?ny])"
    by (rule collect_bitmap [OF c])
  finally show ?thesis by (simp add: tiles_where_def Let_def if_bool_eq_conj cong: if_cong)
      (intro arg_cong [of _ _ concat] map_cong, auto)
qed

lemma tile_interval:
  assumes "0 < t" and "0 < w"
  shows "x div t \<le> k \<and> k \<le> (x + w - 1) div t \<longleftrightarrow> (\<exists>p. x \<le> p \<and> p < x + w \<and> p div t = (k :: nat))"
proof
  assume k: "x div t \<le> k \<and> k \<le> (x + w - 1) div t"
  have "x < k * t + t" using k assms(1) by (metis div_less_iff_less_mult less_Suc_eq_le mult_Suc add.commute)
  moreover have "k * t \<le> x + w - 1" using k assms(1) by (simp add: less_eq_div_iff_mult_less_eq)
  then have "k * t < x + w" using assms(2) by linarith
  ultimately show "\<exists>p. x \<le> p \<and> p < x + w \<and> p div t = k"
    using assms by (intro exI [of _ "max x (k * t)"]) (simp add: div_eq_iff max_def)
next
  assume "\<exists>p. x \<le> p \<and> p < x + w \<and> p div t = k"
  then obtain p where "x \<le> p" "p \<le> x + w - 1" "p div t = k" by (auto simp: less_eq_Suc_le)
  then show "x div t \<le> k \<and> k \<le> (x + w - 1) div t" by (auto intro: div_le_mono)
qed

lemma touches_iff:
  assumes "0 < t" and "list_all (rect_ok W H) rs"
  shows "touches t rs tx ty \<longleftrightarrow> (\<exists>px py. covers rs px py \<and> px div t = tx \<and> py div t = ty)"
proof -
  have "(rect_x r div t \<le> tx \<and> tx \<le> (rect_x r + rect_w r - 1) div t \<and>
      rect_y r div t \<le> ty \<and> ty \<le> (rect_y r + rect_h r - 1) div t) \<longleftrightarrow>
    (\<exists>px py. inside r px py \<and> px div t = tx \<and> py div t = ty)" if "r \<in> set rs" for r
  proof -
    have "0 < rect_w r" "0 < rect_h r" using that assms(2) by (auto simp: list_all_iff rect_ok_def)
    then show ?thesis
      using tile_interval [OF assms(1), of "rect_w r" "rect_x r" tx]
        tile_interval [OF assms(1), of "rect_h r" "rect_y r" ty] by (auto simp: inside_def)
  qed
  then show ?thesis by (auto simp: touches_def list_ex_iff covers_def)
qed

lemma fold_cong_set: "(\<And>x. x \<in> set xs \<Longrightarrow> f x = g x) \<Longrightarrow> fold f xs = fold g xs"
  by (induction xs) (simp_all add: fun_eq_iff)

lemma map_filter_concat: "map f (filter P xs) = concat (map (\<lambda>x. if P x then [f x] else []) xs)"
  by (induction xs) simp_all

lemma merge_tiled_damage_tiles:
  assumes "W \<le> u32_max" and "H \<le> u32_max" and "list_all (rect_ok W H) (existing @ damage)"
  shows "merge_tiled_damage W H tile existing damage =
    tiles_where W H (max tile 1) (touches (max tile 1) (existing @ damage))"
proof -
  define t where "t = max tile 1"
  have t: "0 < t" by (simp add: t_def)
  let ?nx = "div_ceil W t" and ?ny = "div_ceil H t"
  let ?mark = "\<lambda>r. mark_tiles ?nx (rect_x r div t) ((rect_x r + rect_w r - 1) div t)
      (rect_y r div t) ((rect_y r + rect_h r - 1) div t)"
  have step: "merge_mark W H t r = ?mark r" if "r \<in> set (existing @ damage)" for r
  proof -
    have "rect_ok W H r" using that assms(3) by (auto simp: list_all_iff)
    then have "min (sat_add_u32 (rect_x r) (rect_w r)) W = rect_x r + rect_w r"
      "min (sat_add_u32 (rect_y r) (rect_h r)) H = rect_y r + rect_h r"
      "rect_w r \<noteq> 0" "rect_h r \<noteq> 0"
      using assms(1,2) by (simp_all add: rect_ok_def sat_add_u32_def)
    then show ?thesis by (simp add: merge_mark_def Let_def fun_eq_iff)
  qed
  have marks: "fold (merge_mark W H t) (existing @ damage) = fold ?mark (existing @ damage)"
    by (rule fold_cong_set) (rule step)
  let ?d = "fold ?mark (existing @ damage) (replicate (?nx * ?ny) False)"
  have d: "bitmap_is ?nx ?ny (touches t (existing @ damage)) ?d"
    using touches_bitmap [OF assms(3) t bitmap_empty] by simp
  have "merge_tiled_damage W H tile existing damage =
      map (\<lambda>(i, d). tile_rect W H t (i mod ?nx) (i div ?nx)) (filter (\<lambda>(i, d). d) (enumerate 0 ?d))"
    unfolding merge_tiled_damage_def Let_def t_def [symmetric] tile_rect_def marks ..
  also have "\<dots> = concat (map (\<lambda>(i, d). if d then [tile_rect W H t (i mod ?nx) (i div ?nx)] else [])
      (enumerate 0 ?d))"
    by (simp only: map_filter_concat) (intro arg_cong [of _ _ concat] map_cong, auto)
  also have "\<dots> = tiles_where W H t (touches t (existing @ damage))"
    by (simp only: collect_bitmap [OF d]) (simp add: tiles_where_def Let_def)
  finally show ?thesis by (simp only: t_def)
qed

section \<open>Correctness\<close>

text \<open>
  Tile damage is exact: its rectangles are nonempty, inside the surface and pairwise
  disjoint, and a pixel is covered precisely when some pixel of its tile changed; so no change is
  ever missed and no unchanged tile is refreshed.
\<close>

theorem tile_damage_exact:
  assumes "surface_ok a" "surface_ok b" "same_geometry a b" "0 < t"
  shows "list_all (rect_ok (ps_width b) (ps_height b)) (tile_damage a b t) \<and>
    sorted_wrt disjoint_rects (tile_damage a b t) \<and>
    (\<forall>px py. px < ps_width b \<and> py < ps_height b \<longrightarrow>
      (covers (tile_damage a b t) px py \<longleftrightarrow>
        (\<exists>qx qy. qx < ps_width b \<and> qy < ps_height b \<and> qx div t = px div t \<and> qy div t = py div t \<and>
          pixel_changed a b qx qy)))"
  using tiles_where_ok [OF assms(4)] tiles_where_disjoint [OF assms(4)] tiles_where_covers [OF assms(4)]
    tile_changed_iff [OF assms(1-4)] tile_of_pixel [OF assms(4)]
  by (simp add: tile_damage_tiles [OF assms(3,4)])


text \<open>What the scheduler needs of the two: a changed pixel of the regions is in the damage.\<close>

lemma tile_damage_regions_covers:
  assumes "surface_ok a" "surface_ok b" "same_geometry a b"
    and "list_all (rect_ok (ps_width b) (ps_height b)) rs"
    and "covers rs px py" and "pixel_changed a b px py"
  shows "covers (tile_damage_regions a b t rs) px py"
proof (cases "t = 0")
  case True
  then show ?thesis
    using assms(4,5) covers_bounds [of rs "ps_width b" "ps_height b" px py]
    by (simp add: tile_damage_regions_def list_all_iff)
next
  case False
  then have t: "0 < t" by simp
  have p: "px < ps_width b" "py < ps_height b"
    using assms(4,5) covers_bounds [of rs "ps_width b" "ps_height b" px py] by (simp_all add: list_all_iff)
  show ?thesis
    using tiles_where_covers [OF t p] covers_touches [OF assms(5)] p assms(6)
      tile_changed_iff [OF assms(1-3) t tile_of_pixel [OF t p(1)] tile_of_pixel [OF t p(2)]]
    by (auto simp: tile_damage_regions_tiles [OF assms(3) t assms(4)])
qed

lemma tile_damage_regions_ok:
  assumes "surface_ok b" "same_geometry a b" and "list_all (rect_ok (ps_width b) (ps_height b)) rs"
  shows "list_all (rect_ok (ps_width b) (ps_height b)) (tile_damage_regions a b t rs)"
proof (cases "t = 0")
  case True
  then show ?thesis using surface_okD [OF assms(1)] by (simp add: tile_damage_regions_def)
next
  case False
  then show ?thesis using tiles_where_ok by (simp add: tile_damage_regions_tiles assms(2,3))
qed

lemma full_damage_ok: "surface_ok s \<Longrightarrow> list_all (rect_ok (ps_width s) (ps_height s)) (full_damage (ps_width s) (ps_height s))"
  by (simp add: full_damage_def surface_okD)

lemma full_damage_covers [simp]: "covers (full_damage W H) px py \<longleftrightarrow> px < W \<and> py < H"
  by (simp add: full_damage_def)

lemma damage_pixels_bound: "damage_pixels damage \<le> u64_max"
proof -
  have "fold (\<lambda>r total. sat_add_u64 total (rect_w r * rect_h r)) damage n \<le> u64_max" if "n \<le> u64_max" for n
    using that by (induction damage arbitrary: n) (simp_all add: sat_add_u64_def)
  then show ?thesis by (simp add: damage_pixels_def)
qed

text \<open>
  Merging damage keeps it tile-exact: the result is a list of valid, pairwise
  disjoint tiles, and a pixel is covered precisely when its tile contains a pixel of one of the two
  inputs; so the merged list covers both.
\<close>

theorem merge_tiled_damage_covers:
  assumes "W \<le> u32_max" and "H \<le> u32_max" and "list_all (rect_ok W H) (existing @ damage)"
  shows "list_all (rect_ok W H) (merge_tiled_damage W H tile existing damage) \<and>
    sorted_wrt disjoint_rects (merge_tiled_damage W H tile existing damage) \<and>
    (\<forall>px py. px < W \<and> py < H \<longrightarrow>
      (covers (merge_tiled_damage W H tile existing damage) px py \<longleftrightarrow>
        (\<exists>qx qy. covers (existing @ damage) qx qy \<and>
          qx div max tile 1 = px div max tile 1 \<and> qy div max tile 1 = py div max tile 1)))"
proof -
  have t: "0 < max tile 1" by simp
  show ?thesis
    using tiles_where_ok [OF t] tiles_where_disjoint [OF t] tiles_where_covers [OF t]
      touches_iff [OF t assms(3)]
    by (simp only: merge_tiled_damage_tiles [OF assms]) simp
qed

lemma merge_tiled_damage_ok:
  assumes "W \<le> u32_max" and "H \<le> u32_max" and "list_all (rect_ok W H) (existing @ damage)"
  shows "list_all (rect_ok W H) (merge_tiled_damage W H tile existing damage)"
  by (simp add: merge_tiled_damage_tiles [OF assms] tiles_where_ok)

lemma merge_tiled_damage_superset:
  assumes "W \<le> u32_max" and "H \<le> u32_max" and "list_all (rect_ok W H) (existing @ damage)"
    and "covers (existing @ damage) px py"
  shows "covers (merge_tiled_damage W H tile existing damage) px py"
proof -
  have "px < W" "py < H"
    using covers_bounds [of "existing @ damage" W H px py] assms(3,4) by (simp_all only: list_all_iff)
  then show ?thesis
    using covers_touches [OF assms(4)] by (simp add: merge_tiled_damage_tiles [OF assms(1-3)] tiles_where_covers)
qed

section \<open>Witnesses\<close>

definition sample_changed :: pixel_surface where
  "sample_changed = sample_surface\<lparr>ps_pixels := [10, 20, 30, 41]\<rparr>"

lemma sample_changed_ok: "surface_ok sample_changed" "same_geometry sample_surface sample_changed"
  by (simp_all add: sample_changed_def sample_surface_def surface_ok_def max_defs same_geometry_def)

lemma sample_pixel_changed: "pixel_changed sample_surface sample_changed 1 1"
  by (simp add: pixel_changed_def surface_pixel_def sample_changed_def sample_surface_def
      bytes_per_pixel_def pixel_at_def slice_def)

theorem tile_damage_exact_witness: "covers (tile_damage sample_surface sample_changed 1) 1 1"
proof -
  have "1 < ps_width sample_changed" "1 < ps_height sample_changed"
    by (simp_all add: sample_changed_def sample_surface_def)
  then show ?thesis
    using tile_damage_exact [OF sample_surface_ok sample_changed_ok, of 1] sample_pixel_changed by auto
qed


theorem merge_tiled_damage_covers_witness:
  "covers (merge_tiled_damage 4 4 2 [mk_rect 0 0 1 1] [mk_rect 3 3 1 1]) 2 2"
proof -
  have "\<exists>qx qy. covers ([mk_rect 0 0 1 1] @ [mk_rect 3 3 1 1]) qx qy \<and>
      qx div max 2 1 = 2 div max 2 1 \<and> qy div max 2 1 = 2 div max 2 (1 :: nat)"
    by (intro exI [of _ 3]) (simp add: inside_def numeral_2_eq_2 [symmetric])
  moreover have "list_all (rect_ok 4 4) ([mk_rect 0 0 1 1] @ [mk_rect 3 3 1 1])"
    by (simp add: rect_ok_def)
  moreover have "(4 :: nat) \<le> u32_max" by (simp add: max_defs)
  ultimately show ?thesis
    using merge_tiled_damage_covers [of 4 4 "[mk_rect 0 0 1 1]" "[mk_rect 3 3 1 1]" 2] by auto
qed

end
