(* ===== verification/Panel.thy ===== *)
theory Panel
  imports Refresh Damage
begin

text \<open>
  \<open>crates/rm-display-core/src/panel.rs\<close>: the backend interface, a record of the trait's three
  methods over the backend's own state, and \<open>MockPanel\<close>, the in-memory backend. The locale
  \<open>panel_contract\<close> states what the scheduler relies on: a view \<open>screen\<close> of what the panel
  shows, which an accepted submission updates exactly on its damage and nothing else changes. The
  mock satisfies it when its screen is the replay of its recorded submissions.
\<close>

section \<open>The backend interface\<close>

record panel_info =
  info_width :: nat
  info_height :: nat
  color_rgb565 :: bool

record submission_metrics =
  sub_convert_us :: nat
  sub_submit_us :: nat
  physical_submissions :: nat

datatype panel_error = PanelUnsupported string | PanelSubmit string | PanelPump string

record 'p panel_backend =
  panel_info_of :: "'p \<Rightarrow> panel_info"
  panel_submit :: "'p \<Rightarrow> pixel_surface \<Rightarrow> rect list \<Rightarrow> refresh_decision \<Rightarrow>
    (panel_error, submission_metrics) result \<times> 'p"
  panel_pump :: "'p \<Rightarrow> (panel_error, unit) result \<times> 'p"

section \<open>MockPanel\<close>

record recorded_submission =
  rec_pixel_format :: pixel_format
  rec_pixels :: bytes
  rec_damage :: "rect list"
  rec_refresh :: refresh_decision

record mock_panel =
  mock_info :: panel_info
  mock_submissions :: "recorded_submission list"
  mock_fail_next :: "string option"
  mock_pump_count :: nat

definition mock_new :: "nat \<Rightarrow> nat \<Rightarrow> mock_panel" where
  "mock_new width height =
     \<lparr>mock_info = \<lparr>info_width = width, info_height = height, color_rgb565 = False\<rparr>,
      mock_submissions = [], mock_fail_next = None, mock_pump_count = 0\<rparr>"

definition mock_with_rgb565 :: "mock_panel \<Rightarrow> mock_panel" where
  "mock_with_rgb565 m = m\<lparr>mock_info := (mock_info m)\<lparr>color_rgb565 := True\<rparr>\<rparr>"

definition mock_fail_next_submit :: "string \<Rightarrow> mock_panel \<Rightarrow> mock_panel" where
  "mock_fail_next_submit message m = m\<lparr>mock_fail_next := Some message\<rparr>"

definition mock_submit ::
  "mock_panel \<Rightarrow> pixel_surface \<Rightarrow> rect list \<Rightarrow> refresh_decision \<Rightarrow>
   (panel_error, submission_metrics) result \<times> mock_panel" where
  "mock_submit m frame damage refresh =
     (if ps_width frame \<noteq> info_width (mock_info m) \<or> ps_height frame \<noteq> info_height (mock_info m)
      then (Inl (PanelUnsupported ''frame dimensions do not match panel''), m)
      else case mock_fail_next m of
        Some message \<Rightarrow> (Inl (PanelSubmit message), m\<lparr>mock_fail_next := None\<rparr>)
      | None \<Rightarrow>
          (Inr \<lparr>sub_convert_us = 0, sub_submit_us = 0, physical_submissions = 1\<rparr>,
           m\<lparr>mock_submissions := mock_submissions m @
               [\<lparr>rec_pixel_format = ps_format frame, rec_pixels = ps_pixels frame,
                 rec_damage = damage, rec_refresh = refresh\<rparr>]\<rparr>))"

definition mock_pump :: "mock_panel \<Rightarrow> (panel_error, unit) result \<times> mock_panel" where
  "mock_pump m = (Inr (), m\<lparr>mock_pump_count := mock_pump_count m + 1\<rparr>)"

definition mock_backend :: "mock_panel panel_backend" where
  "mock_backend = \<lparr>panel_info_of = mock_info, panel_submit = mock_submit, panel_pump = mock_pump\<rparr>"

section \<open>What a client relies on\<close>

text \<open>
  \<open>shows_damage old frame damage new\<close>: \<open>new\<close> is \<open>old\<close> with the pixels of \<open>frame\<close>
  on the damage.
\<close>

definition shows_damage :: "pixel_surface \<Rightarrow> pixel_surface \<Rightarrow> rect list \<Rightarrow> pixel_surface \<Rightarrow> bool" where
  "shows_damage old frame damage new \<longleftrightarrow> surface_ok new \<and> same_geometry new frame \<and>
     (\<forall>j<num_pixels frame. surface_pixel new j =
        (if in_rects frame damage j then surface_pixel frame j else surface_pixel old j))"

lemma shows_damage_unique:
  assumes "shows_damage old frame damage a" and "shows_damage old frame damage b"
  shows "a = b"
proof (rule surface_eqI)
  have g: "same_geometry a frame" "same_geometry b frame" using assms by (auto simp: shows_damage_def)
  show "surface_ok a" "surface_ok b" using assms by (auto simp: shows_damage_def)
  show "same_geometry a b" using g by (simp add: same_geometry_def)
  show "surface_pixel a j = surface_pixel b j" if "j < num_pixels b" for j
    using assms that same_geometry_simps(2) [OF g(2)] by (auto simp: shows_damage_def)
qed

lemma copy_regions_shows:
  assumes "surface_ok frame" "surface_ok old" "same_geometry old frame"
    and "list_all (rect_ok (ps_width frame) (ps_height frame)) damage"
  shows "\<exists>new. copy_regions_from old frame damage = (Inr (), new) \<and> shows_damage old frame damage new"
  using copy_regions_pixels [OF assms] by (auto simp: shows_damage_def)

locale panel_contract =
  fixes backend :: "'p panel_backend" and screen :: "'p \<Rightarrow> pixel_surface"
  assumes submit_shows: "surface_ok frame \<Longrightarrow> surface_ok (screen p) \<Longrightarrow> same_geometry (screen p) frame \<Longrightarrow>
      list_all (rect_ok (ps_width frame) (ps_height frame)) damage \<Longrightarrow>
      panel_submit backend p frame damage d = (Inr m, p') \<Longrightarrow>
      shows_damage (screen p) frame damage (screen p')"
    and submit_fails: "panel_submit backend p frame damage d = (Inl e, p') \<Longrightarrow> screen p' = screen p"
    and pump_keeps: "panel_pump backend p = (r, p') \<Longrightarrow> screen p' = screen p"
begin

text \<open>
  The lemma every presentation path of the scheduler rests on: a frame that agrees with the
  screen outside its damage is the screen after a successful submission.
\<close>

lemma submit_frame:
  assumes "surface_ok frame" and "surface_ok (screen p)" and "same_geometry (screen p) frame"
    and "list_all (rect_ok (ps_width frame) (ps_height frame)) damage"
    and "\<And>j. j < num_pixels frame \<Longrightarrow> \<not> in_rects frame damage j \<Longrightarrow>
      surface_pixel frame j = surface_pixel (screen p) j"
    and "panel_submit backend p frame damage d = (Inr m, p')"
  shows "screen p' = frame"
proof (rule surface_eqI)
  note s = submit_shows [OF assms(1-4,6)]
  show "surface_ok (screen p')" "surface_ok frame" "same_geometry (screen p') frame"
    using s assms(1) by (simp_all add: shows_damage_def)
  show "surface_pixel (screen p') j = surface_pixel frame j" if "j < num_pixels frame" for j
    using s assms(5) [OF that] that by (simp add: shows_damage_def)
qed

end

section \<open>The mock satisfies the contract\<close>

definition mock_replay :: "pixel_surface \<Rightarrow> recorded_submission list \<Rightarrow> pixel_surface" where
  "mock_replay initial submissions = fold (\<lambda>s shown. snd (copy_regions_from shown
     \<lparr>ps_width = ps_width shown, ps_height = ps_height shown, ps_format = rec_pixel_format s,
      ps_pixels = rec_pixels s\<rparr> (rec_damage s))) submissions initial"

definition mock_screen :: "pixel_surface \<Rightarrow> mock_panel \<Rightarrow> pixel_surface" where
  "mock_screen initial m = mock_replay initial (mock_submissions m)"

lemma mock_screen_submit:
  assumes "mock_submit m frame damage d = (Inr r, m')"
    and "same_geometry (mock_screen initial m) frame"
  shows "mock_screen initial m' = snd (copy_regions_from (mock_screen initial m) frame damage)"
proof -
  have "mock_submissions m' = mock_submissions m @
      [\<lparr>rec_pixel_format = ps_format frame, rec_pixels = ps_pixels frame, rec_damage = damage,
        rec_refresh = d\<rparr>]"
    using assms(1) by (auto simp: mock_submit_def split: if_splits option.splits)
  moreover have "\<lparr>ps_width = ps_width (mock_screen initial m), ps_height = ps_height (mock_screen initial m),
      ps_format = ps_format frame, ps_pixels = ps_pixels frame\<rparr> = frame"
    using assms(2) by (simp add: same_geometry_def)
  ultimately show ?thesis by (simp add: mock_screen_def mock_replay_def)
qed

interpretation mock: panel_contract mock_backend "mock_screen initial"
proof
  fix frame p damage d m p'
  assume a: "surface_ok frame" "surface_ok (mock_screen initial p)"
    "same_geometry (mock_screen initial p) frame"
    "list_all (rect_ok (ps_width frame) (ps_height frame)) damage"
    "panel_submit mock_backend p frame damage d = (Inr m, p')"
  show "shows_damage (mock_screen initial p) frame damage (mock_screen initial p')"
    using copy_regions_shows [OF a(1-4)] mock_screen_submit [OF _ a(3), of damage d m p'] a(5)
    by (auto simp: mock_backend_def)
next
  fix p frame damage d e p'
  assume "panel_submit mock_backend p frame damage d = (Inl e, p')"
  then show "mock_screen initial p' = mock_screen initial p"
    by (auto simp: mock_backend_def mock_submit_def mock_screen_def split: if_splits option.splits)
next
  fix p r p'
  assume "panel_pump mock_backend p = (r, p')"
  then show "mock_screen initial p' = mock_screen initial p"
    by (auto simp: mock_backend_def mock_pump_def mock_screen_def)
qed

text \<open>
  Claim C32. The mock panel is a faithful panel: submitting a frame that agrees with what the panel
  shows outside the damage makes the panel show exactly that frame, and a submission that fails
  (injected failure or wrong size) or a pump changes nothing that is shown.
\<close>

theorem mock_panel_shows_frame:
  assumes "surface_ok frame" and "surface_ok (mock_screen initial p)"
    and "same_geometry (mock_screen initial p) frame"
    and "list_all (rect_ok (ps_width frame) (ps_height frame)) damage"
    and "\<And>j. j < num_pixels frame \<Longrightarrow> \<not> in_rects frame damage j \<Longrightarrow>
      surface_pixel frame j = surface_pixel (mock_screen initial p) j"
    and "mock_submit p frame damage d = (res, p')"
  shows "mock_screen initial p' = (if is_ok res then frame else mock_screen initial p) \<and>
    mock_screen initial (snd (mock_pump p)) = mock_screen initial p"
proof (cases res)
  case (Inl e)
  then show ?thesis
    using mock.submit_fails [of p frame damage d e p' initial] assms(6)
    by (simp add: mock_backend_def mock_pump_def mock_screen_def)
next
  case (Inr m)
  then show ?thesis
    using mock.submit_frame [OF assms(1-5), of d m p'] assms(6)
    by (simp add: mock_backend_def mock_pump_def mock_screen_def)
qed

theorem mock_panel_shows_frame_witness:
  "mock_screen sample_surface (snd (mock_submit (mock_new 2 2) sample_changed (full_damage 2 2)
     \<lparr>dec_waveform = Fastest, complete_refresh = False, dec_reason = ReasonNone\<rparr>)) = sample_changed"
proof -
  let ?d = "\<lparr>dec_waveform = Fastest, complete_refresh = False, dec_reason = ReasonNone\<rparr>"
  obtain res p' where r: "mock_submit (mock_new 2 2) sample_changed (full_damage 2 2) ?d = (res, p')"
    by (rule prod.exhaust)
  have start: "mock_screen sample_surface (mock_new 2 2) = sample_surface"
    by (simp add: mock_screen_def mock_new_def mock_replay_def)
  have cover: "in_rects sample_changed (full_damage 2 2) j" if "j < num_pixels sample_changed" for j
    using that position_less [of j 2 2]
    by (simp add: in_rects_def num_pixels_def sample_changed_def sample_surface_def)
  have "is_ok res"
    using r by (auto simp: mock_submit_def mock_new_def sample_changed_def sample_surface_def)
  then show ?thesis
    using mock_panel_shows_frame [OF sample_changed_ok(1) _ _ _ _ r, of sample_surface]
      sample_surface_ok sample_changed_ok(2) cover full_damage_ok [OF sample_changed_ok(1)] r start
    by (simp add: sample_changed_def sample_surface_def)
qed

end
