(* ===== verification/Overlay.thy ===== *)
theory Overlay
  imports Surface "HOL-Library.Signed_Division"
begin

text \<open>
  The operations of \<open>LocalOverlay\<close> in \<open>crates/rm-display-core/src/surface.rs\<close>: clearing,
  patching and replacing the planes, the coverage bitmap, and \<open>ink_line\<close>, which draws or
  erases one pen segment and extends the dirty rectangle. Signed pen arithmetic (\<open>i64\<close> in the
  source) is on \<open>int\<close>, with Rust's truncating division as \<open>sdiv\<close>; coordinates are bounded
  by the panel size, far below the width of \<open>i64\<close>.
\<close>

unbundle bit_operations_syntax

section \<open>Operations\<close>

definition overlay_transparent :: "nat \<Rightarrow> nat \<Rightarrow> (surface_error, local_overlay) result" where
  "overlay_transparent width height =
     and_then (pixel_len width height) (\<lambda>len.
       Inr \<lparr>ov_luma = replicate len 0, ov_alpha = replicate len 0, ov_transparent = True,
            ov_dirty = None\<rparr>)"

definition mark_bit :: "nat \<Rightarrow> bytes \<Rightarrow> bytes" where
  "mark_bit index bitmap =
     bitmap[index div 8 := (bitmap ! (index div 8)) OR drop_bit (index mod 8) 0x80]"

definition coverage_bitmap :: "local_overlay \<Rightarrow> bytes" where
  "coverage_bitmap ov =
     fold (\<lambda>(index, alpha) bitmap. if alpha \<noteq> 0 then mark_bit index bitmap else bitmap)
       (enumerate 0 (ov_alpha ov)) (replicate (div_ceil (length (ov_alpha ov)) 8) 0)"

definition overlay_clear :: "local_overlay \<Rightarrow> local_overlay" where
  "overlay_clear ov = ov\<lparr>ov_alpha := replicate (length (ov_alpha ov)) 0, ov_transparent := True,
     ov_dirty := None\<rparr>"

definition overlay_patch ::
  "local_overlay \<Rightarrow> nat \<Rightarrow> rect \<Rightarrow> bytes \<Rightarrow> bytes \<Rightarrow> (surface_error, unit) result \<times> local_overlay" where
  "overlay_patch ov width r luma alpha =
     (let count = rect_w r * rect_h r in
      if width = 0 \<or> rect_w r = 0 \<or> rect_h r = 0 \<or>
         (case checked_add_u32 (rect_x r) (rect_w r) of None \<Rightarrow> True | Some e \<Rightarrow> e > width) \<or>
         (case checked_add_u32 (rect_y r) (rect_h r) of None \<Rightarrow> True
          | Some e \<Rightarrow> e > overlay_len ov div width) \<or>
         length luma \<noteq> count \<or> length alpha \<noteq> count
      then (Inl BadOverlay, ov)
      else
        let row = (\<lambda>src row dst. copy_into dst ((rect_y r + row) * width + rect_x r)
                     (slice src (row * rect_w r) (rect_w r)));
            alpha' = fold (row alpha) [0..<rect_h r] (ov_alpha ov)
        in (Inr (), ov\<lparr>ov_luma := fold (row luma) [0..<rect_h r] (ov_luma ov),
              ov_alpha := alpha', ov_transparent := \<not> list_ex (\<lambda>v. v \<noteq> 0) alpha'\<rparr>))"

definition take_dirty :: "local_overlay \<Rightarrow> rect option \<times> local_overlay" where
  "take_dirty ov = (ov_dirty ov, ov\<lparr>ov_dirty := None\<rparr>)"

definition replace_planes ::
  "local_overlay \<Rightarrow> bytes \<Rightarrow> bytes \<Rightarrow> (surface_error, unit) result \<times> local_overlay" where
  "replace_planes ov luma alpha =
     (if length luma \<noteq> overlay_len ov \<or> length alpha \<noteq> overlay_len ov then (Inl BadOverlay, ov)
      else (Inr (), ov\<lparr>ov_luma := luma, ov_alpha := alpha,
              ov_transparent := \<not> list_ex (\<lambda>v. v \<noteq> 0) alpha\<rparr>))"

text \<open>The inner body of \<open>ink_line\<close>, its two pixel loops, its step loop and the dirty update.\<close>

definition ink_pixel ::
  "nat \<Rightarrow> bool \<Rightarrow> int \<Rightarrow> int \<Rightarrow> int \<Rightarrow> int \<Rightarrow> int \<Rightarrow> local_overlay \<Rightarrow> local_overlay" where
  "ink_pixel width erase radius x y py px ov =
     (if (px - x) ^ 2 + (py - y) ^ 2 \<le> radius ^ 2
      then let i = nat py * width + nat px
           in ov\<lparr>ov_luma := (ov_luma ov)[i := 0],
                 ov_alpha := (ov_alpha ov)[i := if erase then 0 else 255]\<rparr>
      else ov)"

definition ink_dot ::
  "nat \<Rightarrow> nat \<Rightarrow> bool \<Rightarrow> int \<Rightarrow> int \<Rightarrow> int \<Rightarrow> local_overlay \<Rightarrow> local_overlay" where
  "ink_dot width height erase radius x y ov =
     fold (\<lambda>py. fold (ink_pixel width erase radius x y py)
         [max 0 (x - radius)..min (x + radius) (int width - 1)])
       [max 0 (y - radius)..min (y + radius) (int height - 1)] ov"

definition ink_steps :: "nat \<times> nat \<Rightarrow> nat \<times> nat \<Rightarrow> int" where
  "ink_steps from to =
     max (max \<bar>int (fst to) - int (fst from)\<bar> \<bar>int (snd to) - int (snd from)\<bar>) 1"

definition ink_point :: "nat \<times> nat \<Rightarrow> nat \<times> nat \<Rightarrow> int \<Rightarrow> int \<times> int" where
  "ink_point from to step =
     (let dx = int (fst to) - int (fst from); dy = int (snd to) - int (snd from);
          steps = ink_steps from to
      in (int (fst from) + (dx * step) sdiv steps, int (snd from) + (dy * step) sdiv steps))"

definition ink_dirty :: "nat \<Rightarrow> nat \<Rightarrow> nat \<times> nat \<Rightarrow> nat \<times> nat \<Rightarrow> nat \<Rightarrow> rect option \<Rightarrow> rect" where
  "ink_dirty width height from to radius old =
     (let left = min (fst from) (fst to) - radius; top = min (snd from) (snd to) - radius;
          right = min (max (fst from) (fst to) + radius + 1) width;
          bottom = min (max (snd from) (snd to) + radius + 1) height
      in case old of
           None \<Rightarrow> mk_rect left top (right - left) (bottom - top)
         | Some o' \<Rightarrow>
             let right' = max right (rect_x o' + rect_w o');
                 bottom' = max bottom (rect_y o' + rect_h o');
                 x = min left (rect_x o'); y = min top (rect_y o')
             in mk_rect x y (right' - x) (bottom' - y))"

definition ink_line ::
  "nat \<Rightarrow> nat \<times> nat \<Rightarrow> nat \<times> nat \<Rightarrow> nat \<Rightarrow> bool \<Rightarrow> local_overlay \<Rightarrow> local_overlay" where
  "ink_line width from to radius erase ov =
     (let height = overlay_len ov div width;
          drawn = fold (\<lambda>step. case ink_point from to step of (x, y) \<Rightarrow>
                      ink_dot width height erase (int radius) x y)
                    [0..ink_steps from to] ov
      in drawn\<lparr>ov_transparent := False,
               ov_dirty := Some (ink_dirty width height from to radius (ov_dirty ov))\<rparr>)"

section \<open>Plane operations keep an overlay well formed\<close>

lemma overlay_transparent_ok: "overlay_transparent w h = Inr ov \<Longrightarrow> overlay_ok (w * h) ov"
  by (auto simp: overlay_transparent_def and_then_Inr_iff pixel_len_Inr overlay_ok_def list_all_iff)

lemma overlay_clear_ok: "overlay_ok n ov \<Longrightarrow> overlay_ok n (overlay_clear ov)"
  by (auto simp: overlay_clear_def overlay_ok_def list_all_iff)

lemma take_dirty_ok: "overlay_ok n ov \<Longrightarrow> overlay_ok n (snd (take_dirty ov))"
  by (simp add: take_dirty_def overlay_ok_def)

lemma replace_planes_ok: "overlay_ok n ov \<Longrightarrow> overlay_ok n (snd (replace_planes ov l a))"
  by (auto simp: replace_planes_def overlay_ok_def overlay_len_def list_all_iff list_ex_iff)

section \<open>Patching\<close>

lemma patch_row:
  "(\<lambda>row dst. copy_into dst ((y + row) * W + x) (slice src (row * w) w)) =
   blit_row W (Suc 0) x y w src"
  by (simp add: fun_eq_iff blit_row_def)

lemma overlay_patch_blit:
  "overlay_patch ov width r luma alpha =
   (if rect_ok width (overlay_len ov div width) r \<and> rect_x r + rect_w r \<le> u32_max \<and>
       rect_y r + rect_h r \<le> u32_max \<and>
       length luma = rect_w r * rect_h r \<and> length alpha = rect_w r * rect_h r
    then let alpha' = blit width 1 (ov_alpha ov) (rect_x r) (rect_y r) (rect_w r) (rect_h r) alpha
      in (Inr (), ov\<lparr>ov_luma := blit width 1 (ov_luma ov) (rect_x r) (rect_y r) (rect_w r) (rect_h r) luma,
           ov_alpha := alpha', ov_transparent := \<not> list_ex (\<lambda>v. v \<noteq> 0) alpha'\<rparr>)
    else (Inl BadOverlay, ov))"
  by (auto simp: overlay_patch_def rect_ok_def checked_add_u32_def Let_def blit_def patch_row
      split: if_splits)

text \<open>
  Patching the overlay is atomic: it either reports \<open>BadOverlay\<close> and changes
  nothing, or the patched rectangle shows the new luma and alpha values, every other pixel of both
  planes is unchanged, and the transparency flag is exact: it is set precisely when no pixel is
  covered. Either way the overlay stays well formed.
\<close>

theorem overlay_patch_correct:
  assumes "overlay_ok (W * H) ov" and "overlay_patch ov W r luma alpha = (res, ov')"
  shows "overlay_ok (W * H) ov' \<and>
    (if is_ok res
     then rect_ok W H r \<and> (ov_transparent ov' \<longleftrightarrow> list_all (\<lambda>a. a = 0) (ov_alpha ov')) \<and>
       (\<forall>px py. px < W \<and> py < H \<longrightarrow>
         (let i = py * W + px; k = (py - rect_y r) * rect_w r + (px - rect_x r) in
          if inside r px py then ov_luma ov' ! i = luma ! k \<and> ov_alpha ov' ! i = alpha ! k
          else ov_luma ov' ! i = ov_luma ov ! i \<and> ov_alpha ov' ! i = ov_alpha ov ! i))
     else ov' = ov)"
proof (cases "is_ok res")
  case False
  then have "ov' = ov" using assms(2) by (auto simp: overlay_patch_blit Let_def split: if_splits)
  then show ?thesis using False assms(1) by simp
next
  case True
  then have ok: "rect_ok W (overlay_len ov div W) r" "length luma = rect_w r * rect_h r"
      "length alpha = rect_w r * rect_h r"
    and ov': "ov_luma ov' = blit W 1 (ov_luma ov) (rect_x r) (rect_y r) (rect_w r) (rect_h r) luma"
      "ov_alpha ov' = blit W 1 (ov_alpha ov) (rect_x r) (rect_y r) (rect_w r) (rect_h r) alpha"
      "ov_transparent ov' \<longleftrightarrow> \<not> list_ex (\<lambda>v. v \<noteq> 0) (ov_alpha ov')"
    using assms(2) by (auto simp: overlay_patch_blit Let_def split: if_splits)
  have lens: "length (ov_luma ov) = W * H" "length (ov_alpha ov) = W * H"
    using assms(1) by (simp_all add: overlay_ok_def)
  have W: "0 < W" using ok(1) by (auto simp: rect_ok_def)
  then have r: "rect_ok W H r" using ok(1) lens by (simp add: overlay_len_def)
  have blits: "blit_ok W H 1 (ov_luma ov) (rect_x r) (rect_y r) (rect_w r) (rect_h r) luma"
    "blit_ok W H 1 (ov_alpha ov) (rect_x r) (rect_y r) (rect_w r) (rect_h r) alpha"
    using r ok lens by (simp_all add: blit_ok_def rect_ok_def)
  have "overlay_ok (W * H) ov'"
    using blit_length [OF blits(1)] blit_length [OF blits(2)] lens ov'
    by (auto simp: overlay_ok_def list_all_iff list_ex_iff)
  moreover have "ov_transparent ov' \<longleftrightarrow> list_all (\<lambda>a. a = 0) (ov_alpha ov')"
    using ov'(3) by (auto simp: list_all_iff list_ex_iff)
  ultimately show ?thesis
    using True r blit_nth [OF blits(1), of _ _ 0] blit_nth [OF blits(2), of _ _ 0]
    by (simp add: ov'(1,2) Let_def inside_def)
qed

section \<open>The coverage bitmap\<close>

definition bitmap_bit :: "bytes \<Rightarrow> nat \<Rightarrow> bool" where
  "bitmap_bit bitmap i = bit (bitmap ! (i div 8)) (7 - i mod 8)"

lemma bit_0x80: "bit (drop_bit k (0x80 :: u8)) m \<longleftrightarrow> k + m = 7"
proof -
  have e: "(0x80 :: u8) = push_bit 7 1" by simp
  show ?thesis unfolding e bit_drop_bit_eq o_def bit_push_bit_iff by (auto simp: bit_1_iff)
qed

lemma mark_bit_length [simp]: "length (mark_bit index bm) = length bm"
  by (simp add: mark_bit_def)

lemma bitmap_bit_mark:
  assumes "index div 8 < length bm"
  shows "bitmap_bit (mark_bit index bm) i \<longleftrightarrow> i = index \<or> bitmap_bit bm i"
proof (cases "i div 8 = index div 8")
  case False
  then show ?thesis by (auto simp: bitmap_bit_def mark_bit_def)
next
  case True
  have "index mod 8 + (7 - i mod 8) = 7 \<longleftrightarrow> i mod 8 = index mod 8"
    using mod_less_divisor [of 8 i] mod_less_divisor [of 8 index] by arith
  also have "\<dots> \<longleftrightarrow> i = index" using True by (metis div_mult_mod_eq)
  finally show ?thesis
    using True assms by (auto simp: bitmap_bit_def mark_bit_def bit_or_iff bit_0x80)
qed

lemma coverage_fold:
  assumes "\<forall>p\<in>set ps. fst p div 8 < length bm"
  shows "length (fold (\<lambda>(index, alpha) bm. if alpha \<noteq> 0 then mark_bit index bm else bm) ps bm) = length bm \<and>
    (bitmap_bit (fold (\<lambda>(index, alpha) bm. if alpha \<noteq> 0 then mark_bit index bm else bm) ps bm) i \<longleftrightarrow>
      bitmap_bit bm i \<or> (\<exists>a. (i, a) \<in> set ps \<and> a \<noteq> 0))"
  using assms
proof (induction ps arbitrary: bm)
  case Nil
  then show ?case by simp
next
  case (Cons p ps)
  obtain index a where p: "p = (index, a)" by (cases p)
  show ?case using Cons.IH [of bm] Cons.IH [of "mark_bit index bm"] Cons.prems
    by (auto simp: p bitmap_bit_mark)
qed

text \<open>
  The coverage bitmap is exact: it has one bit per pixel rounded up to whole bytes,
  bit \<open>i\<close> (most significant first) is set precisely when pixel \<open>i\<close> is covered, and the
  unused tail bits are zero.
\<close>

theorem coverage_bitmap_exact:
  "length (coverage_bitmap ov) = div_ceil (length (ov_alpha ov)) 8 \<and>
   (\<forall>i. i < 8 * length (coverage_bitmap ov) \<longrightarrow>
     (bitmap_bit (coverage_bitmap ov) i \<longleftrightarrow> i < length (ov_alpha ov) \<and> ov_alpha ov ! i \<noteq> 0))"
proof -
  let ?n = "length (ov_alpha ov)" and ?start = "replicate (div_ceil (length (ov_alpha ov)) 8) (0 :: u8)"
  have inside: "\<forall>p\<in>set (enumerate 0 (ov_alpha ov)). fst p div 8 < length ?start"
  proof
    fix p assume "p \<in> set (enumerate 0 (ov_alpha ov))"
    then have "fst p < ?n" by (auto simp: in_set_enumerate_eq)
    then have "fst p div 8 * 8 < ?n" by (rule le_less_trans [rotated]) simp
    then show "fst p div 8 < length ?start" by (simp add: div_ceil_le_iff)
  qed
  have start: "\<not> bitmap_bit ?start i" if "i < 8 * length ?start" for i
    using that by (simp add: bitmap_bit_def div_less_iff_less_mult mult.commute)
  have member: "(\<exists>a. (i, a) \<in> set (enumerate 0 (ov_alpha ov)) \<and> a \<noteq> 0) \<longleftrightarrow>
      i < ?n \<and> ov_alpha ov ! i \<noteq> 0" for i
    by (auto simp: in_set_enumerate_eq)
  show ?thesis
    using coverage_fold [OF inside] start
    by (simp add: coverage_bitmap_def member)
qed

section \<open>Pen segments\<close>

subsection \<open>The points of a segment\<close>

lemma sdiv_between:
  fixes d step steps :: int
  assumes "0 \<le> step" and "step \<le> steps" and "0 < steps"
  shows "min 0 d \<le> (d * step) sdiv steps \<and> (d * step) sdiv steps \<le> max 0 d"
proof -
  have "\<bar>d\<bar> * step \<le> \<bar>d\<bar> * steps" using assms(2) by (rule mult_left_mono) simp
  then have "\<bar>d\<bar> * step div steps \<le> \<bar>d\<bar> * steps div steps" using assms(3) by (intro zdiv_mono1)
  then have le: "\<bar>d\<bar> * step div steps \<le> \<bar>d\<bar>" using assms(3) by simp
  have ge: "0 \<le> \<bar>d\<bar> * step div steps" using assms by (intro div_int_pos_iff [THEN iffD2]) simp
  have "(d * step) sdiv steps = sgn d * (\<bar>d\<bar> * step div steps)"
    using assms by (cases "step = 0") (simp_all add: signed_divide_int_def abs_mult sgn_mult)
  then show ?thesis using le ge by (cases d "0 :: int" rule: linorder_cases) simp_all
qed

lemma ink_steps_pos [simp]: "0 < ink_steps from to"
  by (simp add: ink_steps_def)

lemma ink_point_end: "ink_point from to (ink_steps from to) = (int (fst to), int (snd to))"
  using ink_steps_pos [of "from" to]
  by (simp add: ink_point_def Let_def signed_divide_int_def sgn_mult abs_mult
      less_imp_neq [symmetric] mult_sgn_abs)

lemma ink_point_between:
  assumes "ink_point from to step = (x, y)" and "0 \<le> step" and "step \<le> ink_steps from to"
  shows "int (min (fst from) (fst to)) \<le> x \<and> x \<le> int (max (fst from) (fst to)) \<and>
    int (min (snd from) (snd to)) \<le> y \<and> y \<le> int (max (snd from) (snd to))"
  using sdiv_between [OF assms(2,3) ink_steps_pos, of "int (fst to) - int (fst from)"]
    sdiv_between [OF assms(2,3) ink_steps_pos, of "int (snd to) - int (snd from)"] assms(1)
  by (auto simp: ink_point_def Let_def min_def max_def split: if_splits)

subsection \<open>What the loops write\<close>

definition disc :: "int \<Rightarrow> int \<Rightarrow> int \<Rightarrow> int \<Rightarrow> int \<Rightarrow> bool" where
  "disc radius x y px py \<longleftrightarrow> (px - x) ^ 2 + (py - y) ^ 2 \<le> radius ^ 2"

text \<open>The reference for a segment: the pixels within the radius of one of its points.\<close>

definition inked :: "nat \<Rightarrow> nat \<times> nat \<Rightarrow> nat \<times> nat \<Rightarrow> nat \<Rightarrow> nat \<Rightarrow> bool" where
  "inked W from to radius j =
     list_ex (\<lambda>step. case ink_point from to step of (x, y) \<Rightarrow>
         disc (int radius) x y (int (j mod W)) (int (j div W)))
       [0..ink_steps from to]"

definition plane_pixel :: "nat \<Rightarrow> 'a \<Rightarrow> int \<Rightarrow> int \<Rightarrow> int \<Rightarrow> int \<Rightarrow> int \<Rightarrow> 'a list \<Rightarrow> 'a list" where
  "plane_pixel W v radius x y py px xs =
     (if disc radius x y px py then xs[nat py * W + nat px := v] else xs)"

definition plane_dot :: "nat \<Rightarrow> nat \<Rightarrow> 'a \<Rightarrow> int \<Rightarrow> int \<Rightarrow> int \<Rightarrow> 'a list \<Rightarrow> 'a list" where
  "plane_dot W H v radius x y =
     fold (\<lambda>py. fold (plane_pixel W v radius x y py)
         [max 0 (x - radius)..min (x + radius) (int W - 1)])
       [max 0 (y - radius)..min (y + radius) (int H - 1)]"

definition plane_line :: "nat \<Rightarrow> nat \<Rightarrow> 'a \<Rightarrow> nat \<times> nat \<Rightarrow> nat \<times> nat \<Rightarrow> nat \<Rightarrow> 'a list \<Rightarrow> 'a list" where
  "plane_line W H v from to radius =
     fold (\<lambda>step. case ink_point from to step of (x, y) \<Rightarrow> plane_dot W H v (int radius) x y)
       [0..ink_steps from to]"

lemma fold_project: "(\<And>x s. p (f x s) = g x (p s)) \<Longrightarrow> p (fold f xs s) = fold g xs (p s)"
  by (induction xs arbitrary: s) simp_all

lemma ink_planes:
  "ov_alpha (ink_dot W H erase r x y ov) = plane_dot W H (if erase then 0 else 255) r x y (ov_alpha ov)"
  "ov_luma (ink_dot W H erase r x y ov) = plane_dot W H 0 r x y (ov_luma ov)"
  unfolding ink_dot_def plane_dot_def
  by (intro fold_project; simp add: ink_pixel_def plane_pixel_def disc_def Let_def)+

lemma ink_line_planes:
  fixes W radius and erase and ov
  defines "H \<equiv> overlay_len ov div W"
  shows "ov_alpha (ink_line W p q radius erase ov) =
      plane_line W H (if erase then 0 else 255) p q radius (ov_alpha ov)"
    and "ov_luma (ink_line W p q radius erase ov) = plane_line W H 0 p q radius (ov_luma ov)"
    and "ov_dirty (ink_line W p q radius erase ov) = Some (ink_dirty W H p q radius (ov_dirty ov))"
    and "ov_transparent (ink_line W p q radius erase ov) = False"
proof -
  let ?dot = "\<lambda>step. case ink_point p q step of (x, y) \<Rightarrow> ink_dot W H erase (int radius) x y"
  have "ov_alpha (fold ?dot xs ov) = fold (\<lambda>step. case ink_point p q step of
      (x, y) \<Rightarrow> plane_dot W H (if erase then 0 else 255) (int radius) x y) xs (ov_alpha ov)" for xs
    by (rule fold_project) (simp add: ink_planes split: prod.split)
  moreover have "ov_luma (fold ?dot xs ov) = fold (\<lambda>step. case ink_point p q step of
      (x, y) \<Rightarrow> plane_dot W H 0 (int radius) x y) xs (ov_luma ov)" for xs
    by (rule fold_project) (simp add: ink_planes split: prod.split)
  ultimately show "ov_alpha (ink_line W p q radius erase ov) =
      plane_line W H (if erase then 0 else 255) p q radius (ov_alpha ov)"
    and "ov_luma (ink_line W p q radius erase ov) = plane_line W H 0 p q radius (ov_luma ov)"
    by (simp_all add: ink_line_def Let_def H_def plane_line_def)
qed (simp_all add: ink_line_def Let_def H_def)

lemma plane_pixel_writes:
  assumes "nat py * W + nat px < n"
  shows "writes n 1 (plane_pixel W v radius x y py px)
    (\<lambda>j. disc radius x y px py \<and> j = nat py * W + nat px) (\<lambda>j _. [v])"
proof (cases "disc radius x y px py")
  case True
  have "writes n 1 (plane_pixel W v radius x y py px) (\<lambda>j. j = nat py * W + nat px) (\<lambda>j _. [v])"
    using assms True by (intro writes_one_pixel) (simp_all add: plane_pixel_def list_update_copy)
  then show ?thesis using True by simp
next
  case False
  then have "plane_pixel W v radius x y py px = (\<lambda>xs. xs)" by (simp add: plane_pixel_def fun_eq_iff)
  then show ?thesis using False by (simp add: writes_id)
qed

lemma disc_range:
  assumes "disc radius x y px py" and "0 \<le> radius"
  shows "\<bar>px - x\<bar> \<le> radius \<and> \<bar>py - y\<bar> \<le> radius"
proof -
  have "(px - x)\<^sup>2 \<le> radius\<^sup>2" "(py - y)\<^sup>2 \<le> radius\<^sup>2"
    using assms(1) zero_le_power2 [of "px - x"] zero_le_power2 [of "py - y"]
    unfolding disc_def by linarith+
  then show ?thesis using assms(2) by (simp add: abs_le_square_iff [symmetric])
qed

lemma plane_dot_writes:
  assumes "0 \<le> radius"
  shows "writes (W * H) 1 (plane_dot W H v radius x y)
    (\<lambda>j. disc radius x y (int (j mod W)) (int (j div W))) (\<lambda>j _. [v])"
proof -
  let ?xs = "[max 0 (x - radius)..min (x + radius) (int W - 1)]"
  let ?ys = "[max 0 (y - radius)..min (y + radius) (int H - 1)]"
  have bound: "nat py * W + nat px < W * H" if "px \<in> set ?xs" "py \<in> set ?ys" for px py
    using that cell_bound [of "nat px" W "nat py" H] by (auto simp: mult.commute)
  have w: "writes (W * H) 1 (plane_dot W H v radius x y)
      (\<lambda>j. \<exists>py\<in>set ?ys. \<exists>px\<in>set ?xs. disc radius x y px py \<and> j = nat py * W + nat px) (\<lambda>j _. [v])"
    unfolding plane_dot_def
    by (intro writes_fold revisit_ok_const plane_pixel_writes bound)
  show ?thesis
  proof (rule writes_cong [OF w])
    fix j assume j: "j < W * H"
    show "(\<exists>py\<in>set ?ys. \<exists>px\<in>set ?xs. disc radius x y px py \<and> j = nat py * W + nat px) =
      disc radius x y (int (j mod W)) (int (j div W))" (is "?l = ?r")
    proof
      assume ?l
      then obtain px py where p: "px \<in> set ?xs" "py \<in> set ?ys" "disc radius x y px py"
        "j = nat py * W + nat px" by blast
      then have "nat px < W" by auto
      then show ?r using p by simp
    next
      assume r: ?r
      have "int (j mod W) \<in> set ?xs" "int (j div W) \<in> set ?ys"
        using disc_range [OF r assms] position_less [OF j] by auto
      moreover have "j = nat (int (j div W)) * W + nat (int (j mod W))" by simp
      ultimately show ?l using r by blast
    qed
  qed simp
qed

lemma plane_line_writes:
  "writes (W * H) 1 (plane_line W H v p q radius) (inked W p q radius) (\<lambda>j _. [v])"
proof (rule writes_cong)
  show "writes (W * H) 1 (plane_line W H v p q radius)
      (\<lambda>j. \<exists>step\<in>set [0..ink_steps p q].
        case ink_point p q step of (x, y) \<Rightarrow> disc (int radius) x y (int (j mod W)) (int (j div W)))
      (\<lambda>j _. [v])"
    unfolding plane_line_def
    by (intro writes_fold revisit_ok_const)
      (simp del: One_nat_def add: plane_dot_writes split: prod.split)
qed (simp_all add: inked_def list_ex_iff)

lemma plane_line_nth:
  assumes "length xs = W * H"
  shows "length (plane_line W H v p q radius xs) = W * H"
    and "j < W * H \<Longrightarrow> plane_line W H v p q radius xs ! j = (if inked W p q radius j then v else xs ! j)"
proof -
  show len: "length (plane_line W H v p q radius xs) = W * H"
    using writes_length [OF plane_line_writes, of xs W H v p q radius] assms by simp
  show "j < W * H \<Longrightarrow> plane_line W H v p q radius xs ! j = (if inked W p q radius j then v else xs ! j)"
    using writes_pixel [OF plane_line_writes, of xs W H j v p q radius] assms len
    by (auto simp: pixel_at_one split: if_splits)
qed

subsection \<open>The dirty rectangle\<close>

definition dirty_ok :: "nat \<Rightarrow> nat \<Rightarrow> local_overlay \<Rightarrow> bool" where
  "dirty_ok W H ov = (case ov_dirty ov of None \<Rightarrow> True | Some d \<Rightarrow> rect_ok W H d)"

text \<open>The bounding box of two boxes given by their edges.\<close>

lemma bounding_interval:
  fixes l r ol ow px W :: nat
  assumes "l < r" "r \<le> W" "0 < ow" "ol + ow \<le> W"
  shows "min l ol < max r (ol + ow)" "min l ol + (max r (ol + ow) - min l ol) \<le> W"
    "l \<le> px \<and> px < r \<or> ol \<le> px \<and> px < ol + ow \<Longrightarrow>
      min l ol \<le> px \<and> px < min l ol + (max r (ol + ow) - min l ol)"
proof -
  show lt: "min l ol < max r (ol + ow)" using assms(1) by (simp add: min_less_iff_disj less_max_iff_disj)
  have e: "min l ol + (max r (ol + ow) - min l ol) = max r (ol + ow)"
    using less_imp_le [OF lt] by (rule le_add_diff_inverse)
  show "min l ol + (max r (ol + ow) - min l ol) \<le> W" unfolding e using assms by simp
  show "l \<le> px \<and> px < r \<or> ol \<le> px \<and> px < ol + ow \<Longrightarrow>
      min l ol \<le> px \<and> px < min l ol + (max r (ol + ow) - min l ol)"
    unfolding e by (auto simp: min_le_iff_disj less_max_iff_disj)
qed

lemma bounding_box:
  assumes "l < r" "r \<le> W" "t < b" "b \<le> H" "rect_ok W H d"
  defines "u \<equiv> mk_rect (min l (rect_x d)) (min t (rect_y d))
    (max r (rect_x d + rect_w d) - min l (rect_x d)) (max b (rect_y d + rect_h d) - min t (rect_y d))"
  shows "rect_ok W H u \<and> (inside (mk_rect l t (r - l) (b - t)) px py \<or> inside d px py \<longrightarrow>
    inside u px py)"
proof -
  have d: "0 < rect_w d" "rect_x d + rect_w d \<le> W" "0 < rect_h d" "rect_y d + rect_h d \<le> H"
    using assms(5) by (simp_all add: rect_ok_def)
  note x = bounding_interval [OF assms(1,2) d(1,2)] and y = bounding_interval [OF assms(3,4) d(3,4)]
  have "rect_ok W H u"
    unfolding u_def rect_ok_def mk_rect_simps using x(1,2) y(1,2) by (auto simp only: diff_is_0_eq)
  moreover have "inside u px py" if "inside (mk_rect l t (r - l) (b - t)) px py \<or> inside d px py"
  proof -
    have "l \<le> px \<and> px < r \<or> rect_x d \<le> px \<and> px < rect_x d + rect_w d"
      "t \<le> py \<and> py < b \<or> rect_y d \<le> py \<and> py < rect_y d + rect_h d"
      using that assms(1,3) unfolding inside_def mk_rect_simps by linarith+
    from x(3) [OF this(1)] y(3) [OF this(2)] show ?thesis by (simp add: u_def inside_def)
  qed
  ultimately show ?thesis by blast
qed

lemma ink_dirty_ok:
  assumes "fst p < W" "fst q < W" "snd p < H" "snd q < H"
    and "case old of None \<Rightarrow> True | Some d \<Rightarrow> rect_ok W H d"
  shows "rect_ok W H (ink_dirty W H p q radius old) \<and>
    (inside (ink_dirty W H p q radius None) px py \<longrightarrow> inside (ink_dirty W H p q radius old) px py) \<and>
    (\<forall>d. old = Some d \<longrightarrow> inside d px py \<longrightarrow> inside (ink_dirty W H p q radius old) px py)"
proof -
  define l where "l = min (fst p) (fst q) - radius"
  define t where "t = min (snd p) (snd q) - radius"
  define r where "r = min (max (fst p) (fst q) + radius + 1) W"
  define b where "b = min (max (snd p) (snd q) + radius + 1) H"
  have e: "l < r" "r \<le> W" "t < b" "b \<le> H"
    using assms(1-4) by (auto simp: l_def t_def r_def b_def)
  have d0: "ink_dirty W H p q radius None = mk_rect l t (r - l) (b - t)"
    by (simp add: ink_dirty_def Let_def l_def t_def r_def b_def)
  show ?thesis
  proof (cases old)
    case None
    then show ?thesis using e by (simp add: d0 rect_ok_def)
  next
    case (Some d)
    have "ink_dirty W H p q radius old = mk_rect (min l (rect_x d)) (min t (rect_y d))
      (max r (rect_x d + rect_w d) - min l (rect_x d)) (max b (rect_y d + rect_h d) - min t (rect_y d))"
      by (simp add: ink_dirty_def Some Let_def l_def t_def r_def b_def)
    then show ?thesis using bounding_box [OF e, of d] assms(5) Some by (simp add: d0)
  qed
qed

lemma interval_end: "(a :: nat) \<le> x \<Longrightarrow> x < c \<Longrightarrow> x < a + (c - a)"
  by simp

lemma inked_in_dirty:
  assumes "inked W p q radius j" and "j < W * H"
  shows "in_rect W (ink_dirty W H p q radius None) j"
proof -
  obtain step where step: "0 \<le> step" "step \<le> ink_steps p q"
    "case ink_point p q step of (x, y) \<Rightarrow> disc (int radius) x y (int (j mod W)) (int (j div W))"
    using assms(1) by (auto simp: inked_def list_ex_iff)
  obtain x y where xy: "ink_point p q step = (x, y)" by (rule prod.exhaust)
  note s = step(1,2) xy step(3) [unfolded xy prod.case]
  have "\<bar>int (j mod W) - x\<bar> \<le> int radius \<and> \<bar>int (j div W) - y\<bar> \<le> int radius"
    using disc_range [OF s(4)] by simp
  then have "min (fst p) (fst q) - radius \<le> j mod W"
    "j mod W < min (max (fst p) (fst q) + radius + 1) W"
    "min (snd p) (snd q) - radius \<le> j div W"
    "j div W < min (max (snd p) (snd q) + radius + 1) H"
    using ink_point_between [OF s(3,1,2)] position_less [OF assms(2)] by auto
  then show ?thesis
    unfolding in_rect_def inside_def ink_dirty_def Let_def option.case mk_rect_simps
    by (intro conjI interval_end)
qed

lemma inked_end:
  assumes "fst q < W"
  shows "inked W p q radius (snd q * W + fst q)"
proof -
  have "ink_steps p q \<in> set [0..ink_steps p q]"
    using less_imp_le [OF ink_steps_pos [of p q]] by simp
  moreover have "case ink_point p q (ink_steps p q) of (x, y) \<Rightarrow>
      disc (int radius) x y (int ((snd q * W + fst q) mod W)) (int ((snd q * W + fst q) div W))"
    using assms by (simp add: ink_point_end disc_def)
  ultimately show ?thesis unfolding inked_def list_ex_iff by (rule bexI [rotated])
qed

lemma ink_line_ok:
  assumes "overlay_ok (W * H) ov" and "0 < W"
  shows "overlay_ok (W * H) (ink_line W p q radius erase ov)"
  using assms by (auto simp: overlay_ok_def ink_line_planes overlay_len_def plane_line_nth(1))

lemma ink_line_planes_outside:
  assumes "overlay_ok (W * H) ov" and "0 < W" and "j < W * H" and "\<not> inked W p q radius j"
  shows "ov_luma (ink_line W p q radius erase ov) ! j = ov_luma ov ! j"
    and "ov_alpha (ink_line W p q radius erase ov) ! j = ov_alpha ov ! j"
  using assms by (auto simp: overlay_ok_def ink_line_planes overlay_len_def plane_line_nth(2))

text \<open>
  A pen segment writes exactly the discs around its points: drawn pixels become
  black and fully covered (or uncovered when erasing), all other pixels keep both planes, the end
  point is always written, and the overlay stays well formed. The dirty rectangle stays inside the
  surface, contains every written pixel and everything that was already dirty.
\<close>

theorem ink_line_correct:
  assumes "overlay_ok (W * H) ov" and "dirty_ok W H ov"
    and "fst p < W" "fst q < W" "snd p < H" "snd q < H"
    and "ov' = ink_line W p q radius erase ov"
  shows "overlay_ok (W * H) ov' \<and> inked W p q radius (snd q * W + fst q) \<and>
    (\<forall>j. j < W * H \<longrightarrow>
      (if inked W p q radius j
       then ov_luma ov' ! j = 0 \<and> ov_alpha ov' ! j = (if erase then 0 else 255)
       else ov_luma ov' ! j = ov_luma ov ! j \<and> ov_alpha ov' ! j = ov_alpha ov ! j)) \<and>
    (\<exists>d. ov_dirty ov' = Some d \<and> rect_ok W H d \<and>
      (\<forall>j. j < W * H \<longrightarrow> inked W p q radius j \<or>
        (\<exists>o'. ov_dirty ov = Some o' \<and> in_rect W o' j) \<longrightarrow> in_rect W d j))"
proof -
  have W: "0 < W" using assms(3) by simp
  have lens: "length (ov_luma ov) = W * H" "length (ov_alpha ov) = W * H"
    using assms(1) by (simp_all add: overlay_ok_def)
  then have H: "overlay_len ov div W = H" using W by (simp add: overlay_len_def)
  let ?d = "ink_dirty W H p q radius (ov_dirty ov)"
  have old: "case ov_dirty ov of None \<Rightarrow> True | Some d \<Rightarrow> rect_ok W H d"
    using assms(2) by (simp add: dirty_ok_def)
  note d = ink_dirty_ok [OF assms(3-6) old, of radius]
  have "ov_dirty ov' = Some ?d" by (simp add: assms(7) ink_line_planes H)
  moreover have "in_rect W ?d j" if "j < W * H" and
    "inked W p q radius j \<or> (\<exists>o'. ov_dirty ov = Some o' \<and> in_rect W o' j)" for j
    using that inked_in_dirty [of W p q radius j H] d [of "j mod W" "j div W"]
    by (auto simp: in_rect_def)
  ultimately have "\<exists>d. ov_dirty ov' = Some d \<and> rect_ok W H d \<and>
      (\<forall>j. j < W * H \<longrightarrow> inked W p q radius j \<or>
        (\<exists>o'. ov_dirty ov = Some o' \<and> in_rect W o' j) \<longrightarrow> in_rect W d j)"
    using d by blast
  then show ?thesis
    using ink_line_ok [OF assms(1) W] inked_end [OF assms(4)]
      plane_line_nth(2) [OF lens(1)] plane_line_nth(2) [OF lens(2)]
    by (simp add: assms(7) ink_line_planes H)
qed

section \<open>Concrete planes\<close>

definition blank_plane :: local_overlay where
  "blank_plane = \<lparr>ov_luma = replicate 4 0, ov_alpha = replicate 4 0, ov_transparent = True,
     ov_dirty = None\<rparr>"

lemma blank_plane_ok: "overlay_ok (2 * 2) blank_plane"
  by (simp add: overlay_ok_def blank_plane_def list_all_iff)

theorem overlay_patch_correct_witness:
  "\<exists>res ov'. overlay_patch blank_plane 2 (mk_rect 1 1 1 1) [7] [255] = (res, ov') \<and>
     is_ok res \<and> ov_luma ov' ! 3 = 7 \<and> \<not> ov_transparent ov'"
proof -
  obtain res ov' where r: "overlay_patch blank_plane 2 (mk_rect 1 1 1 1) [7] [255] = (res, ov')"
    by (rule prod.exhaust)
  moreover from r have "is_ok res"
    by (auto simp: overlay_patch_def blank_plane_def overlay_len_def checked_add_u32_def max_defs Let_def)
  moreover note overlay_patch_correct [OF blank_plane_ok r]
  ultimately have "(\<forall>px py. px < 2 \<and> py < 2 \<longrightarrow>
      (let i = py * 2 + px; k = (py - 1) * 1 + (px - 1) in
        if inside (mk_rect 1 1 1 1) px py then ov_luma ov' ! i = [7] ! k \<and> ov_alpha ov' ! i = [255] ! k
        else ov_luma ov' ! i = ov_luma blank_plane ! i \<and> ov_alpha ov' ! i = ov_alpha blank_plane ! i))"
    and ok: "overlay_ok 4 ov'" and t: "ov_transparent ov' \<longleftrightarrow> list_all (\<lambda>a. a = 0) (ov_alpha ov')"
    by simp_all
  from this(1) [rule_format, of 1 1] have "ov_luma ov' ! 3 = 7" "ov_alpha ov' ! 3 = 255"
    by (simp_all add: inside_def Let_def)
  moreover have "3 < length (ov_alpha ov')" using ok by (simp add: overlay_ok_def)
  ultimately show ?thesis using r \<open>is_ok res\<close> t by (auto simp: list_all_length)
qed

theorem ink_line_correct_witness:
  "\<exists>ov'. ov' = ink_line 2 (0, 0) (1, 1) 0 False blank_plane \<and> overlay_ok (2 * 2) ov' \<and>
     ov_alpha ov' ! 3 = 255"
proof -
  have e: "ov_dirty blank_plane = None" by (simp add: blank_plane_def)
  note c = ink_line_correct [OF blank_plane_ok, of "(0, 0)" "(1, 1)"
      "ink_line 2 (0, 0) (1, 1) 0 False blank_plane" 0 False]
  have "inked 2 (0, 0) (1, 1) 0 3"
    using inked_end [of "(1, 1)" 2 "(0, 0)" 0] by simp
  moreover have "overlay_ok (2 * 2) (ink_line 2 (0, 0) (1, 1) 0 False blank_plane) \<and>
    (\<forall>j<4. inked 2 (0, 0) (1, 1) 0 j \<longrightarrow>
      ov_alpha (ink_line 2 (0, 0) (1, 1) 0 False blank_plane) ! j = 255)"
    using c by (simp add: dirty_ok_def e del: One_nat_def)
  ultimately show ?thesis by simp
qed

theorem coverage_bitmap_exact_witness:
  "length (coverage_bitmap (blank_plane\<lparr>ov_alpha := [0, 0, 9]\<rparr>)) = 1 \<and>
   bitmap_bit (coverage_bitmap (blank_plane\<lparr>ov_alpha := [0, 0, 9]\<rparr>)) 2 \<and>
   \<not> bitmap_bit (coverage_bitmap (blank_plane\<lparr>ov_alpha := [0, 0, 9]\<rparr>)) 1"
  using coverage_bitmap_exact [of "blank_plane\<lparr>ov_alpha := [0, 0, 9]\<rparr>"]
  by (simp add: div_ceil_def)

end
