(* ===== verification/Scheduler.thy ===== *)
theory Scheduler
  imports Panel Overlay
begin

text \<open>
  \<open>crates/rm-display-core/src/scheduler.rs\<close>: \<open>DisplayCore\<close>, which owns the logical base
  image, the local planes, one pending presentation and the software copy of what the panel shows.
  Every method is a function of the state (and of the panel state, through a \<open>panel_backend\<close>)
  that returns its result with the new states. Times are nanoseconds; the intervals the source
  reads from \<open>Instant::elapsed\<close> are the argument \<open>clock_obs\<close>. \<open>tick_inner\<close> is split
  into the steps of its body, in order. \<open>mem::swap(presented, working)\<close> followed by the copy of
  the damage is written out as such.
\<close>

section \<open>Data\<close>

datatype presentation_outcome = Presented | Superseded | Cancelled | BackendFailure

record presentation_metrics =
  met_decode_us :: nat
  met_queue_us :: nat
  met_present_us :: nat
  met_compose_us :: nat
  met_convert_us :: nat
  met_submit_us :: nat
  met_damage_pixels :: nat
  met_damage_regions :: nat
  met_waveform :: nat
  met_complete_refresh :: bool
  met_full_refresh_reason :: full_refresh_reason

record terminal_frame =
  tf_frame_id :: nat
  tf_outcome :: presentation_outcome
  tf_metrics :: presentation_metrics

record commit_report =
  report_logical_frame_id :: nat
  report_superseded :: "terminal_frame option"

record cleanup_report =
  cleanup_performed :: bool
  report_cleanup_pending :: bool
  report_backend_failed :: bool
  report_terminals :: "terminal_frame list"

record refresh_profile_change =
  change_config :: refresh_config
  change_changed :: bool
  change_cleanup_performed :: bool
  change_cleanup_pending :: bool
  change_backend_failed :: bool
  change_terminals :: "terminal_frame list"

datatype core_error =
  CoreSurface surface_error | CoreRefreshConfig refresh_config_error | SettledBarrier
  | CoreBadFrameId | NeedKeyframe | CorePixelFormat | CorePanel panel_error

record pending_presentation =
  pd_frame_id :: nat
  pd_intent :: frame_intent
  pd_content_class :: content_class
  pd_accepted_at :: nat
  pd_force_full_damage :: bool
  pd_force_cleanup :: bool
  pd_decode_us :: nat
  pd_decoded_bytes :: nat
  pd_damage_hint :: "rect list"

record display_core =
  dc_base :: pixel_surface
  dc_overlay :: local_overlay
  dc_peer_overlay :: local_overlay
  dc_ink :: local_overlay
  dc_ink_waveform :: waveform
  dc_presented_base :: pixel_surface
  dc_presented :: pixel_surface
  dc_working :: pixel_surface
  dc_logical_frame_id :: nat
  dc_presented_frame_id :: nat
  dc_base_valid :: bool
  dc_pending :: "pending_presentation option"
  dc_last_present_at :: "nat option"
  dc_frame_interval :: nat
  dc_settled_deadline :: nat
  dc_refresh_policy :: refresh_policy
  dc_damage_tile :: nat
  dc_panel_state_uncertain :: bool
  dc_force_cleanup_next :: bool
  dc_settle_damage :: "rect list"
  dc_fast_updates_since_settled :: nat
  dc_partial_damage_pixels :: nat
  dc_last_partial_at :: "nat option"
  dc_last_idle_cleanup_failure :: "nat option"

text \<open>Observed \<open>Instant::elapsed\<close> values, in nanoseconds.\<close>

record clock_obs =
  obs_apply :: nat
  obs_compose :: nat
  obs_present :: nat

type_synonym ('p, 'a) core_step = "(core_error, 'a) result \<times> display_core \<times> 'p"

section \<open>Time\<close>

definition duration_max :: nat where
  "duration_max = u64_max * 1000000000 + 999999999"

definition duration_saturating_add :: "nat \<Rightarrow> nat \<Rightarrow> nat" where
  "duration_saturating_add a b = min (a + b) duration_max"

definition duration_us :: "nat \<Rightarrow> nat" where
  "duration_us d = min (d div 1000) u32_max"

definition secs :: "nat \<Rightarrow> nat" where
  "secs n = n * 1000000000"

section \<open>Construction and small methods\<close>

definition map_err :: "('e \<Rightarrow> 'f) \<Rightarrow> ('e, 'a) result \<Rightarrow> ('f, 'a) result" where
  "map_err f r = (case r of Inl e \<Rightarrow> Inl (f e) | Inr a \<Rightarrow> Inr a)"

definition default_metrics :: presentation_metrics where
  "default_metrics = \<lparr>met_decode_us = 0, met_queue_us = 0, met_present_us = 0, met_compose_us = 0,
     met_convert_us = 0, met_submit_us = 0, met_damage_pixels = 0, met_damage_regions = 0,
     met_waveform = 0, met_complete_refresh = False, met_full_refresh_reason = ReasonNone\<rparr>"

definition core_new_with_format ::
  "nat \<Rightarrow> nat \<Rightarrow> pixel_format \<Rightarrow> nat \<Rightarrow> nat \<Rightarrow> refresh_config \<Rightarrow> (core_error, display_core) result" where
  "core_new_with_format width height format max_fps_x100 settled_deadline config =
     (let fps_x100 = max max_fps_x100 100; interval_us = div_ceil 100000000 fps_x100 in
      and_then (map_err CoreRefreshConfig (policy_new config)) (\<lambda>policy.
      and_then (map_err CoreSurface (surface_new_with_format width height format)) (\<lambda>surface.
      and_then (map_err CoreSurface (overlay_transparent width height)) (\<lambda>plane.
        Inr \<lparr>dc_base = surface, dc_overlay = plane, dc_peer_overlay = plane, dc_ink = plane,
             dc_ink_waveform = Fastest, dc_presented_base = surface, dc_presented = surface,
             dc_working = surface, dc_logical_frame_id = 0, dc_presented_frame_id = 0,
             dc_base_valid = False, dc_pending = None, dc_last_present_at = None,
             dc_frame_interval = interval_us * 1000, dc_settled_deadline = settled_deadline,
             dc_refresh_policy = policy, dc_damage_tile = cfg_damage_tile config,
             dc_panel_state_uncertain = False, dc_force_cleanup_next = False,
             dc_settle_damage = [], dc_fast_updates_since_settled = 0,
             dc_partial_damage_pixels = 0, dc_last_partial_at = None,
             dc_last_idle_cleanup_failure = None\<rparr>))))"

definition core_new ::
  "nat \<Rightarrow> nat \<Rightarrow> nat \<Rightarrow> nat \<Rightarrow> refresh_config \<Rightarrow> (core_error, display_core) result" where
  "core_new width height max_fps_x100 settled_deadline config =
     core_new_with_format width height Gray8 max_fps_x100 settled_deadline config"

abbreviation core_width :: "display_core \<Rightarrow> nat" where
  "core_width c \<equiv> ps_width (dc_base c)"

abbreviation core_height :: "display_core \<Rightarrow> nat" where
  "core_height c \<equiv> ps_height (dc_base c)"

definition pending_is_settled :: "display_core \<Rightarrow> bool" where
  "pending_is_settled c = (case dc_pending c of None \<Rightarrow> False | Some p \<Rightarrow> pd_intent p = Settled)"

definition pending_bytes :: "display_core \<Rightarrow> nat" where
  "pending_bytes c = (case dc_pending c of None \<Rightarrow> 0 | Some p \<Rightarrow> pd_decoded_bytes p)"

definition restore_refresh_debt ::
  "refresh_debt \<Rightarrow> display_core \<Rightarrow> (core_error, unit) result \<times> display_core" where
  "restore_refresh_debt debt c =
     (case restore_debt debt (dc_refresh_policy c) of
        Inl e \<Rightarrow> (Inl (CoreRefreshConfig e), c)
      | Inr p \<Rightarrow> (Inr (), c\<lparr>dc_refresh_policy := p\<rparr>))"

definition require_cleanup :: "display_core \<Rightarrow> display_core" where
  "require_cleanup c = c\<lparr>dc_force_cleanup_next := True\<rparr>"

definition record_panel_damage ::
  "refresh_decision \<Rightarrow> rect list \<Rightarrow> nat \<Rightarrow> display_core \<Rightarrow> display_core" where
  "record_panel_damage decision damage now c =
     (if complete_refresh decision
      then c\<lparr>dc_partial_damage_pixels := 0, dc_last_partial_at := None\<rparr>
      else c\<lparr>dc_partial_damage_pixels :=
               sat_add_u64 (dc_partial_damage_pixels c) (damage_pixels damage),
             dc_last_partial_at := Some now\<rparr>)"

fun idle_cleanup_limits :: "refresh_profile \<Rightarrow> (nat \<times> nat) option" where
  "idle_cleanup_limits Realtime = Some (8, secs 10)"
| "idle_cleanup_limits Animate = Some (6, secs 8)"
| "idle_cleanup_limits Balanced = Some (4, secs 6)"
| "idle_cleanup_limits Reading = Some (3, secs 5)"
| "idle_cleanup_limits QualityProfile = Some (2, secs 4)"
| "idle_cleanup_limits Custom = None"

definition adaptive_cleanup_due :: "display_core \<Rightarrow> nat \<Rightarrow> bool" where
  "adaptive_cleanup_due c now =
     (case idle_cleanup_limits (cfg_profile (pol_config (dc_refresh_policy c))) of
        None \<Rightarrow> False
      | Some (screen_equivalents, idle) \<Rightarrow>
          dc_presented_frame_id c \<noteq> 0 \<and>
          dc_partial_damage_pixels c \<ge>
            sat_mul_u64 (sat_mul_u64 (core_width c) (core_height c)) screen_equivalents \<and>
          (case dc_last_partial_at c of None \<Rightarrow> False | Some last_at \<Rightarrow> now - last_at \<ge> idle))"

definition update_refresh_config ::
  "refresh_config \<Rightarrow> display_core \<Rightarrow> (core_error, bool) result \<times> display_core" where
  "update_refresh_config config c =
     (let changed = (config \<noteq> pol_config (dc_refresh_policy c)) in
      case reconfigure config (dc_refresh_policy c) of
        Inl e \<Rightarrow> (Inl (CoreRefreshConfig e), c)
      | Inr p \<Rightarrow> (Inr changed,
          c\<lparr>dc_refresh_policy := p, dc_damage_tile := cfg_damage_tile config\<rparr>))"

definition set_ink_waveform :: "waveform \<Rightarrow> display_core \<Rightarrow> display_core" where
  "set_ink_waveform w c = c\<lparr>dc_ink_waveform := w\<rparr>"

text \<open>\<open>overlay_mut\<close>, \<open>peer_overlay_mut\<close> and \<open>ink_mut\<close> hand out the plane to edit.\<close>

definition edit_overlay :: "(local_overlay \<Rightarrow> local_overlay) \<Rightarrow> display_core \<Rightarrow> display_core" where
  "edit_overlay f c = c\<lparr>dc_overlay := f (dc_overlay c)\<rparr>"

definition edit_peer_overlay :: "(local_overlay \<Rightarrow> local_overlay) \<Rightarrow> display_core \<Rightarrow> display_core" where
  "edit_peer_overlay f c = c\<lparr>dc_peer_overlay := f (dc_peer_overlay c)\<rparr>"

definition edit_ink :: "(local_overlay \<Rightarrow> local_overlay) \<Rightarrow> display_core \<Rightarrow> display_core" where
  "edit_ink f c = c\<lparr>dc_ink := f (dc_ink c)\<rparr>"

definition cancel_pending :: "display_core \<Rightarrow> terminal_frame option \<times> display_core" where
  "cancel_pending c =
     (case dc_pending c of
        None \<Rightarrow> (None, c)
      | Some pending \<Rightarrow>
          (Some \<lparr>tf_frame_id = pd_frame_id pending, tf_outcome = Cancelled,
                 tf_metrics = default_metrics\<lparr>met_decode_us := pd_decode_us pending\<rparr>\<rparr>,
           c\<lparr>dc_pending := None\<rparr>))"

definition freeze_presented :: "display_core \<Rightarrow> terminal_frame option \<times> display_core" where
  "freeze_presented c =
     (let (terminal, c') = cancel_pending c
      in (terminal, c'\<lparr>dc_base := dc_presented_base c', dc_base_valid := False\<rparr>))"

definition mark_panel_failure :: "display_core \<Rightarrow> display_core" where
  "mark_panel_failure c = c\<lparr>dc_base_valid := False, dc_logical_frame_id := 0,
     dc_panel_state_uncertain := True, dc_settle_damage := [],
     dc_fast_updates_since_settled := 0\<rparr>"

definition next_deadline :: "display_core \<Rightarrow> nat option" where
  "next_deadline c =
     (case dc_pending c of
        None \<Rightarrow> None
      | Some pending \<Rightarrow>
          let fps_due = (case dc_last_present_at c of
                None \<Rightarrow> pd_accepted_at pending
              | Some last_at \<Rightarrow> duration_saturating_add last_at (dc_frame_interval c))
          in Some (if pd_intent pending = Settled
                   then min fps_due (duration_saturating_add (pd_accepted_at pending) (dc_settled_deadline c))
                   else fps_due))"

section \<open>Committing a frame\<close>

definition commit_timed ::
  "validated_frame \<Rightarrow> content_class \<Rightarrow> nat \<Rightarrow> nat \<Rightarrow> clock_obs \<Rightarrow> display_core \<Rightarrow>
   (core_error, commit_report) result \<times> display_core" where
  "commit_timed frame content_class now decode_us obs c =
     (if pending_is_settled c then (Inl SettledBarrier, c)
      else if vf_frame_id frame = 0 \<or> vf_frame_id frame \<le> dc_logical_frame_id c
      then (Inl CoreBadFrameId, c)
      else if vf_pixel_format frame \<noteq> ps_format (dc_base c) then (Inl CorePixelFormat, c)
      else
        let keyframe = (vf_base_frame_id frame = 0); recovering_base = (\<not> dc_base_valid c) in
        if \<not> keyframe \<and> (\<not> dc_base_valid c \<or> vf_base_frame_id frame \<noteq> dc_logical_frame_id c)
        then (Inl NeedKeyframe, c)
        else case apply_regions_atomic (dc_base c) (vf_regions frame) of
          (Inl e, base) \<Rightarrow> (Inl (CoreSurface e), c\<lparr>dc_base := base\<rparr>)
        | (Inr _, base) \<Rightarrow>
            let decode_us' = sat_add_u32 decode_us (duration_us (obs_apply obs));
                old_pending = dc_pending c;
                carry_full_damage = (case old_pending of None \<Rightarrow> False | Some p \<Rightarrow> pd_force_full_damage p);
                carry_cleanup = (case old_pending of None \<Rightarrow> False | Some p \<Rightarrow> pd_force_cleanup p);
                damage_hint = map dr_rect (vf_regions frame) @
                  (case old_pending of None \<Rightarrow> [] | Some p \<Rightarrow> pd_damage_hint p);
                superseded = map_option (\<lambda>old.
                  \<lparr>tf_frame_id = pd_frame_id old, tf_outcome = Superseded,
                   tf_metrics = default_metrics\<lparr>met_decode_us := pd_decode_us old,
                     met_queue_us := duration_us (now - pd_accepted_at old)\<rparr>\<rparr>) old_pending
            in (Inr \<lparr>report_logical_frame_id = vf_frame_id frame, report_superseded = superseded\<rparr>,
                c\<lparr>dc_base := base, dc_logical_frame_id := vf_frame_id frame, dc_base_valid := True,
                  dc_pending := Some
                    \<lparr>pd_frame_id = vf_frame_id frame, pd_intent = vf_intent frame,
                     pd_content_class = content_class, pd_accepted_at = now,
                     pd_force_full_damage = (carry_full_damage \<or>
                       keyframe \<and> (dc_presented_frame_id c = 0 \<or> recovering_base)),
                     pd_force_cleanup = (carry_cleanup \<or> keyframe \<and> dc_panel_state_uncertain c),
                     pd_decode_us = decode_us', pd_decoded_bytes = vf_decoded_bytes frame,
                     pd_damage_hint = damage_hint\<rparr>\<rparr>))"

definition commit ::
  "validated_frame \<Rightarrow> content_class \<Rightarrow> nat \<Rightarrow> clock_obs \<Rightarrow> display_core \<Rightarrow>
   (core_error, commit_report) result \<times> display_core" where
  "commit frame content_class now obs c = commit_timed frame content_class now 0 obs c"

section \<open>Presenting the pending frame\<close>

definition compose_base :: "display_core \<Rightarrow> (surface_error, pixel_surface) result" where
  "compose_base c =
     (if ov_transparent (dc_peer_overlay c) \<and> ov_transparent (dc_ink c) then Inr (dc_base c)
      else and_then (compose (dc_base c) (dc_peer_overlay c)) (\<lambda>s. compose s (dc_ink c)))"

text \<open>Composing base, planes and overlay into \<open>working\<close> on some regions.\<close>

definition compose_working ::
  "rect list \<Rightarrow> display_core \<Rightarrow> (surface_error, unit) result \<times> display_core" where
  "compose_working regions c =
     (if ov_transparent (dc_peer_overlay c) \<and> ov_transparent (dc_ink c)
      then let (r, w) = compose_regions_into (dc_base c) (dc_overlay c) (dc_working c) regions
        in (r, c\<lparr>dc_working := w\<rparr>)
      else case compose_base c of
        Inl e \<Rightarrow> (Inl e, c)
      | Inr composed \<Rightarrow>
          let (r, w) = compose_regions_into composed (dc_overlay c) (dc_working c) regions
          in (r, c\<lparr>dc_working := w\<rparr>))"

text \<open>The complete recomposition before a complete refresh, which has no fast path.\<close>

definition compose_everything ::
  "display_core \<Rightarrow> (surface_error, unit) result \<times> display_core" where
  "compose_everything c =
     (case compose_base c of
        Inl e \<Rightarrow> (Inl e, c)
      | Inr composed \<Rightarrow>
          let (r, w) = compose_regions_into composed (dc_overlay c) (dc_working c)
                (full_damage (core_width c) (core_height c))
          in (r, c\<lparr>dc_working := w\<rparr>))"

definition tick_regions :: "pending_presentation \<Rightarrow> display_core \<Rightarrow> rect list" where
  "tick_regions pending c =
     (if pd_force_full_damage pending then full_damage (core_width c) (core_height c)
      else pd_damage_hint pending) @
     (if pd_intent pending = Settled then dc_settle_damage c else [])"

definition tick_damage :: "pending_presentation \<Rightarrow> rect list \<Rightarrow> display_core \<Rightarrow> rect list" where
  "tick_damage pending regions c =
     (let damage = (if pd_force_full_damage pending then full_damage (core_width c) (core_height c)
            else tile_damage_regions (dc_presented c) (dc_working c) (dc_damage_tile c) regions)
      in if pd_intent pending = Settled
         then merge_tiled_damage (core_width c) (core_height c) (dc_damage_tile c) (dc_settle_damage c) damage
         else damage)"

definition static_cleanup_due :: "pending_presentation \<Rightarrow> display_core \<Rightarrow> bool" where
  "static_cleanup_due pending c \<longleftrightarrow>
     \<not> (pd_force_cleanup pending \<or> dc_force_cleanup_next c) \<and> pd_intent pending = Settled \<and>
     dc_settle_damage c \<noteq> [] \<and>
     static_cleanup_after_fast_updates (pol_config (dc_refresh_policy c)) > 0 \<and>
     dc_fast_updates_since_settled c \<ge>
       static_cleanup_after_fast_updates (pol_config (dc_refresh_policy c))"

definition tick_decision ::
  "pending_presentation \<Rightarrow> rect list \<Rightarrow> display_core \<Rightarrow> refresh_decision" where
  "tick_decision pending decision_damage c =
     (let force_cleanup = (pd_force_cleanup pending \<or> dc_force_cleanup_next c);
          static_due = static_cleanup_due pending c;
          decision = decide (dc_refresh_policy c) (pd_intent pending) (pd_content_class pending)
            (damage_pixels decision_damage) (core_width c * core_height c)
            (force_cleanup \<or> static_due)
      in if static_due \<and> dec_reason decision = Forced
         then decision\<lparr>dec_reason := StaticFastDebt\<rparr> else decision)"

definition tick_metrics ::
  "pending_presentation \<Rightarrow> nat \<Rightarrow> rect list \<Rightarrow> refresh_decision \<Rightarrow> clock_obs \<Rightarrow> presentation_metrics" where
  "tick_metrics pending now damage decision obs =
     default_metrics\<lparr>met_decode_us := pd_decode_us pending,
       met_queue_us := duration_us (now - pd_accepted_at pending),
       met_compose_us := duration_us (obs_compose obs),
       met_damage_pixels := min (damage_pixels damage) u32_max,
       met_damage_regions := min (length damage) u32_max,
       met_waveform := waveform_value (dec_waveform decision),
       met_complete_refresh := complete_refresh decision,
       met_full_refresh_reason := dec_reason decision\<rparr>"

text \<open>The bookkeeping of a successful submission.\<close>

definition tick_success ::
  "pending_presentation \<Rightarrow> nat \<Rightarrow> rect list \<Rightarrow> refresh_decision \<Rightarrow> submission_metrics \<Rightarrow>
   presentation_metrics \<Rightarrow> display_core \<Rightarrow> (core_error, terminal_frame list) result \<times> display_core" where
  "tick_success pending now damage decision pm metrics c0 =
     (let c1 = record_panel_damage decision damage now c0;
          c2 = c1\<lparr>dc_presented := dc_working c1, dc_working := dc_presented c1\<rparr>
      in case copy_regions_from (dc_working c2) (dc_presented c2) damage of
        (Inl e, w) \<Rightarrow> (Inl (CoreSurface e), c2\<lparr>dc_working := w\<rparr>)
      | (Inr _, w) \<Rightarrow>
          let c3 = c2\<lparr>dc_working := w, dc_presented_frame_id := pd_frame_id pending,
                dc_presented_base := dc_base c2, dc_last_present_at := Some now,
                dc_panel_state_uncertain := False,
                dc_refresh_policy :=
                  presented_submissions decision (physical_submissions pm) (dc_refresh_policy c2)\<rparr>;
              c4 = (if complete_refresh decision \<or> pd_intent pending = Settled
                then c3\<lparr>dc_settle_damage := [], dc_fast_updates_since_settled := 0\<rparr>
                else if dec_waveform decision = Fastest \<or> dec_waveform decision = Fast
                then c3\<lparr>dc_settle_damage := merge_tiled_damage (core_width c3) (core_height c3)
                       (dc_damage_tile c3) (dc_settle_damage c3) damage,
                     dc_fast_updates_since_settled :=
                       sat_add_u32 (dc_fast_updates_since_settled c3) (physical_submissions pm)\<rparr>
                else c3);
              c5 = (if complete_refresh decision then c4\<lparr>dc_force_cleanup_next := False\<rparr> else c4)
          in (Inr [\<lparr>tf_frame_id = pd_frame_id pending, tf_outcome = Presented,
                    tf_metrics = metrics\<rparr>], c5))"

definition tick_submit ::
  "'p panel_backend \<Rightarrow> pending_presentation \<Rightarrow> nat \<Rightarrow> rect list \<Rightarrow> refresh_decision \<Rightarrow> clock_obs \<Rightarrow>
   display_core \<Rightarrow> 'p \<Rightarrow> ('p, terminal_frame list) core_step" where
  "tick_submit backend pending now damage decision obs c p =
     (let metrics = tick_metrics pending now damage decision obs;
          timed = metrics\<lparr>met_present_us := duration_us (obs_present obs)\<rparr>
      in if damage = []
         then (Inr [\<lparr>tf_frame_id = pd_frame_id pending, tf_outcome = Presented, tf_metrics = timed\<rparr>],
               c\<lparr>dc_presented_frame_id := pd_frame_id pending, dc_presented_base := dc_base c,
                 dc_last_present_at := Some now\<rparr>, p)
         else case panel_submit backend p (dc_working c) damage decision of
           (Inl e, p') \<Rightarrow>
             (Inr [\<lparr>tf_frame_id = pd_frame_id pending, tf_outcome = BackendFailure,
                    tf_metrics = timed\<rparr>],
              mark_panel_failure (c\<lparr>dc_working := dc_presented c\<rparr>), p')
         | (Inr pm, p') \<Rightarrow>
             let (r, c') = tick_success pending now damage decision pm
                   (timed\<lparr>met_convert_us := sub_convert_us pm, met_submit_us := sub_submit_us pm\<rparr>) c
             in (r, c', p'))"

definition tick_present ::
  "'p panel_backend \<Rightarrow> pending_presentation \<Rightarrow> nat \<Rightarrow> clock_obs \<Rightarrow> display_core \<Rightarrow> 'p \<Rightarrow>
   ('p, terminal_frame list) core_step" where
  "tick_present backend pending now obs c p =
     (let regions = tick_regions pending c in
      case compose_working regions c of
        (Inl e, c1) \<Rightarrow> (Inl (CoreSurface e), c1, p)
      | (Inr _, c1) \<Rightarrow>
          let damage0 = tick_damage pending regions c1;
              decision = tick_decision pending damage0 c1;
              damage1 = damage_for_decision decision (core_width c1) (core_height c1) damage0
          in if complete_refresh decision
             then case compose_everything c1 of
                 (Inl e, c2) \<Rightarrow> (Inl (CoreSurface e), c2, p)
               | (Inr _, c2) \<Rightarrow>
                   tick_submit backend pending now (full_damage (core_width c2) (core_height c2))
                     decision obs c2 p
             else tick_submit backend pending now damage1 decision obs c1 p)"

definition tick_inner ::
  "'p panel_backend \<Rightarrow> nat \<Rightarrow> bool \<Rightarrow> clock_obs \<Rightarrow> display_core \<Rightarrow> 'p \<Rightarrow>
   ('p, terminal_frame list) core_step" where
  "tick_inner backend now ignore_deadline obs c p =
     (case next_deadline c of
        None \<Rightarrow> (Inr [], c, p)
      | Some deadline \<Rightarrow>
          if \<not> ignore_deadline \<and> now < deadline then (Inr [], c, p)
          else case panel_pump backend p of
            (Inl e, p') \<Rightarrow>
              (Inr (case dc_pending c of
                  None \<Rightarrow> []
                | Some pending \<Rightarrow> [\<lparr>tf_frame_id = pd_frame_id pending, tf_outcome = BackendFailure,
                    tf_metrics = default_metrics\<lparr>met_decode_us := pd_decode_us pending,
                      met_queue_us := duration_us (now - pd_accepted_at pending)\<rparr>\<rparr>]),
               (mark_panel_failure c)\<lparr>dc_pending := None\<rparr>, p')
          | (Inr _, p') \<Rightarrow>
              (case dc_pending c of
                 None \<Rightarrow> (Inr [], c, p')
               | Some pending \<Rightarrow> tick_present backend pending now obs (c\<lparr>dc_pending := None\<rparr>) p'))"

section \<open>Cleanup, profile changes and ticks\<close>

definition idle_report :: cleanup_report where
  "idle_report = \<lparr>cleanup_performed = False, report_cleanup_pending = True,
     report_backend_failed = False, report_terminals = []\<rparr>"

definition request_cleanup ::
  "'p panel_backend \<Rightarrow> nat \<Rightarrow> clock_obs \<Rightarrow> display_core \<Rightarrow> 'p \<Rightarrow> ('p, cleanup_report) core_step" where
  "request_cleanup backend now obs c0 p =
     (let c = c0\<lparr>dc_force_cleanup_next := True\<rparr> in
      if dc_pending c \<noteq> None then
        (case tick_inner backend now True obs c p of
           (Inl e, c', p') \<Rightarrow> (Inl e, c', p')
         | (Inr terminals, c', p') \<Rightarrow>
             (Inr \<lparr>cleanup_performed = list_ex (\<lambda>t. tf_outcome t = Presented \<and>
                     met_complete_refresh (tf_metrics t)) terminals,
                   report_cleanup_pending = dc_force_cleanup_next c',
                   report_backend_failed = list_ex (\<lambda>t. tf_outcome t = BackendFailure) terminals,
                   report_terminals = terminals\<rparr>, c', p'))
      else if dc_presented_frame_id c = 0 then (Inr idle_report, c, p)
      else case panel_pump backend p of
        (Inl e, p') \<Rightarrow> (Inr (idle_report\<lparr>report_backend_failed := True\<rparr>), mark_panel_failure c, p')
      | (Inr _, p') \<Rightarrow>
          let area = core_width c * core_height c;
              decision = decide (dc_refresh_policy c) Settled Mixed area area True;
              damage = full_damage (core_width c) (core_height c)
          in case panel_submit backend p' (dc_presented c) damage decision of
            (Inl e, p'') \<Rightarrow>
              (Inr (idle_report\<lparr>report_backend_failed := True\<rparr>), mark_panel_failure c, p'')
          | (Inr pm, p'') \<Rightarrow>
              let c1 = c\<lparr>dc_last_present_at := Some now, dc_panel_state_uncertain := False,
                    dc_refresh_policy := policy_presented decision (dc_refresh_policy c)\<rparr>;
                  c2 = record_panel_damage decision damage now c1
              in (Inr (idle_report\<lparr>cleanup_performed := True, report_cleanup_pending := False\<rparr>),
                  c2\<lparr>dc_force_cleanup_next := False, dc_settle_damage := [],
                     dc_fast_updates_since_settled := 0\<rparr>, p''))"

definition change_refresh_profile ::
  "'p panel_backend \<Rightarrow> refresh_config \<Rightarrow> nat \<Rightarrow> clock_obs \<Rightarrow> display_core \<Rightarrow> 'p \<Rightarrow>
   ('p, refresh_profile_change) core_step" where
  "change_refresh_profile backend config now obs c p =
     (case update_refresh_config config c of
        (Inl e, c') \<Rightarrow> (Inl e, c', p)
      | (Inr changed, c') \<Rightarrow>
          let report = (\<lambda>r. \<lparr>change_config = config, change_changed = changed,
                change_cleanup_performed = cleanup_performed r,
                change_cleanup_pending = report_cleanup_pending r,
                change_backend_failed = report_backend_failed r,
                change_terminals = report_terminals r\<rparr>)
          in if changed \<or> dc_force_cleanup_next c'
             then case request_cleanup backend now obs c' p of
                 (Inl e, c'', p') \<Rightarrow> (Inl e, c'', p')
               | (Inr r, c'', p') \<Rightarrow> (Inr (report r), c'', p')
             else (Inr (report \<lparr>cleanup_performed = False, report_cleanup_pending = False,
                     report_backend_failed = False, report_terminals = []\<rparr>), c', p))"

definition tick_interactive ::
  "'p panel_backend \<Rightarrow> nat \<Rightarrow> bool \<Rightarrow> clock_obs \<Rightarrow> display_core \<Rightarrow> 'p \<Rightarrow>
   ('p, terminal_frame list) core_step" where
  "tick_interactive backend now interaction_idle obs c p =
     (if interaction_idle \<and> dc_pending c = None \<and> adaptive_cleanup_due c now \<and>
         (case dc_last_idle_cleanup_failure c of None \<Rightarrow> True | Some last_at \<Rightarrow> now - last_at \<ge> secs 5)
      then case request_cleanup backend now obs c p of
          (Inl e, c', p') \<Rightarrow> (Inl e, c', p')
        | (Inr r, c', p') \<Rightarrow>
            (Inr (report_terminals r),
             c'\<lparr>dc_last_idle_cleanup_failure := (if report_backend_failed r then Some now else None)\<rparr>,
             p')
      else tick_inner backend now False obs c p)"

definition tick ::
  "'p panel_backend \<Rightarrow> nat \<Rightarrow> clock_obs \<Rightarrow> display_core \<Rightarrow> 'p \<Rightarrow> ('p, terminal_frame list) core_step" where
  "tick backend now obs c p = tick_interactive backend now True obs c p"

definition tick_without_idle_cleanup ::
  "'p panel_backend \<Rightarrow> nat \<Rightarrow> clock_obs \<Rightarrow> display_core \<Rightarrow> 'p \<Rightarrow> ('p, terminal_frame list) core_step" where
  "tick_without_idle_cleanup backend now obs c p = tick_inner backend now False obs c p"

section \<open>Presenting a local plane\<close>

definition blend_planes :: "rect list \<Rightarrow> display_core \<Rightarrow> (surface_error, unit) result \<times> display_core" where
  "blend_planes regions c =
     (case copy_regions_from (dc_working c) (dc_base c) regions of
        (Inl e, w) \<Rightarrow> (Inl e, c\<lparr>dc_working := w\<rparr>)
      | (Inr _, w) \<Rightarrow> (case blend_regions w (dc_peer_overlay c) regions of
          (Inl e, w) \<Rightarrow> (Inl e, c\<lparr>dc_working := w\<rparr>)
        | (Inr _, w) \<Rightarrow> (case blend_regions w (dc_ink c) regions of
            (Inl e, w) \<Rightarrow> (Inl e, c\<lparr>dc_working := w\<rparr>)
          | (Inr _, w) \<Rightarrow> (case blend_regions w (dc_overlay c) regions of
              (r, w) \<Rightarrow> (r, c\<lparr>dc_working := w\<rparr>)))))"

definition plane_damage :: "frame_intent \<Rightarrow> rect list \<Rightarrow> display_core \<Rightarrow> rect list" where
  "plane_damage intent regions c =
     (if intent = Latest then
        let bpp = bytes_per_pixel (dc_working c); stride = core_width c * bpp in
        filter (\<lambda>r. list_ex (\<lambda>y.
            let left = y * stride + rect_x r * bpp
            in slice (ps_pixels (dc_working c)) left (rect_w r * bpp) \<noteq>
               slice (ps_pixels (dc_presented c)) left (rect_w r * bpp))
          [rect_y r..<rect_y r + rect_h r]) regions
      else tile_damage_regions (dc_presented c) (dc_working c) (dc_damage_tile c) regions)"

definition plane_decision :: "frame_intent \<Rightarrow> rect list \<Rightarrow> display_core \<Rightarrow> refresh_decision" where
  "plane_decision intent damage c =
     (if intent = Latest
      then \<lparr>dec_waveform = dc_ink_waveform c, complete_refresh = False, dec_reason = ReasonNone\<rparr>
      else decide (dc_refresh_policy c) intent TextUi (damage_pixels damage)
        (core_width c * core_height c) False)"

definition plane_success ::
  "nat \<Rightarrow> rect list \<Rightarrow> refresh_decision \<Rightarrow> submission_metrics \<Rightarrow> display_core \<Rightarrow>
   (surface_error, unit) result \<times> display_core" where
  "plane_success now damage decision pm c =
     (let c1 = record_panel_damage decision damage now c in
      case copy_regions_from (dc_presented c1) (dc_working c1) damage of
        (Inl e, s) \<Rightarrow> (Inl e, c1\<lparr>dc_presented := s\<rparr>)
      | (Inr _, s) \<Rightarrow>
          let c2 = c1\<lparr>dc_presented := s, dc_last_present_at := Some now,
                dc_panel_state_uncertain := False,
                dc_refresh_policy :=
                  presented_submissions decision (physical_submissions pm) (dc_refresh_policy c1)\<rparr>;
              c3 = (if complete_refresh decision then c2\<lparr>dc_force_cleanup_next := False\<rparr> else c2)
          in (Inr (),
              if complete_refresh decision \<or> dec_waveform decision \<noteq> Fastest
              then c3\<lparr>dc_settle_damage := [], dc_fast_updates_since_settled := 0\<rparr>
              else c3\<lparr>dc_settle_damage := merge_tiled_damage (core_width c3) (core_height c3)
                     (dc_damage_tile c3) (dc_settle_damage c3) damage,
                   dc_fast_updates_since_settled :=
                     sat_add_u32 (dc_fast_updates_since_settled c3) (physical_submissions pm)\<rparr>))"

definition plane_present ::
  "'p panel_backend \<Rightarrow> nat \<Rightarrow> frame_intent \<Rightarrow> rect list \<Rightarrow> display_core \<Rightarrow> 'p \<Rightarrow> ('p, unit) core_step" where
  "plane_present backend now intent regions c p =
     (case blend_planes regions c of
        (Inl e, c1) \<Rightarrow> (Inl (CoreSurface e), c1, p)
      | (Inr _, c1) \<Rightarrow>
          let damage0 = plane_damage intent regions c1 in
          if damage0 = [] then (Inr (), c1, p)
          else
            let decision = plane_decision intent damage0 c1;
                damage = damage_for_decision decision (core_width c1) (core_height c1) damage0
            in case panel_submit backend p (dc_working c1) damage decision of
                 (Inl e, p') \<Rightarrow> (Inl (CorePanel e), c1, p')
               | (Inr pm, p') \<Rightarrow>
                   let (r, c2) = plane_success now damage decision pm c1
                   in (map_err CoreSurface r, c2, p'))"

definition present_plane ::
  "'p panel_backend \<Rightarrow> nat \<Rightarrow> frame_intent \<Rightarrow> clock_obs \<Rightarrow> display_core \<Rightarrow> 'p \<Rightarrow>
   ('p, terminal_frame list) core_step" where
  "present_plane backend now intent obs c p =
     (case (if dc_pending c \<noteq> None then tick_inner backend now True obs c p else (Inr [], c, p)) of
        (Inl e, c1, p1) \<Rightarrow> (Inl e, c1, p1)
      | (Inr terminals, c1, p1) \<Rightarrow>
          let (regions, c2) =
                (if intent = Latest
                 then let (dirty, ink) = take_dirty (dc_ink c1)
                   in (case dirty of None \<Rightarrow> [] | Some r \<Rightarrow> [r], c1\<lparr>dc_ink := ink\<rparr>)
                 else (full_damage (core_width c1) (core_height c1), c1))
          in if regions = [] then (Inr terminals, c2, p1)
             else let (r, c3, p2) = plane_present backend now intent regions c2 p1
               in (and_then r (\<lambda>_. Inr terminals), c3, p2))"

definition present_overlay ::
  "'p panel_backend \<Rightarrow> nat \<Rightarrow> clock_obs \<Rightarrow> display_core \<Rightarrow> 'p \<Rightarrow> ('p, terminal_frame list) core_step" where
  "present_overlay backend now obs c p = present_plane backend now Settled obs c p"

definition present_ink ::
  "'p panel_backend \<Rightarrow> nat \<Rightarrow> clock_obs \<Rightarrow> display_core \<Rightarrow> 'p \<Rightarrow> ('p, terminal_frame list) core_step" where
  "present_ink backend now obs c p = present_plane backend now Latest obs c p"

end
