(* ===== verification/Scheduler_Inv.thy ===== *)
theory Scheduler_Inv
  imports Scheduler
begin

text \<open>
  Correctness of the scheduler. \<open>core_ok\<close> is the invariant of \<open>DisplayCore\<close>;
  \<open>composite_pixel\<close> is the reference for what the panel should show (overlay over ink over peer
  overlay over base). The lemmas show that a tick never fails, keeps \<open>working\<close> equal to
  \<open>presented\<close>, keeps \<open>presented\<close> equal to what the panel shows, and that the damage
  bookkeeping never leaves a stale pixel behind.
\<close>

section \<open>The invariant\<close>

abbreviation core_pixels :: "display_core \<Rightarrow> nat" where
  "core_pixels c \<equiv> num_pixels (dc_base c)"

definition rects_ok :: "display_core \<Rightarrow> rect list \<Rightarrow> bool" where
  "rects_ok c rs = list_all (rect_ok (core_width c) (core_height c)) rs"

definition surfaces_ok :: "display_core \<Rightarrow> bool" where
  "surfaces_ok c \<longleftrightarrow> surface_ok (dc_base c) \<and>
     surface_ok (dc_presented_base c) \<and> same_geometry (dc_presented_base c) (dc_base c) \<and>
     surface_ok (dc_presented c) \<and> same_geometry (dc_presented c) (dc_base c) \<and>
     surface_ok (dc_working c) \<and> same_geometry (dc_working c) (dc_base c)"

definition planes_ok :: "display_core \<Rightarrow> bool" where
  "planes_ok c \<longleftrightarrow> overlay_ok (core_pixels c) (dc_overlay c) \<and>
     overlay_ok (core_pixels c) (dc_peer_overlay c) \<and> overlay_ok (core_pixels c) (dc_ink c) \<and>
     dirty_ok (core_width c) (core_height c) (dc_ink c)"

definition pending_ok :: "display_core \<Rightarrow> bool" where
  "pending_ok c = (case dc_pending c of
       None \<Rightarrow> True
     | Some p \<Rightarrow> rects_ok c (pd_damage_hint p) \<and> pd_frame_id p = dc_logical_frame_id c \<and>
         pd_frame_id p \<noteq> 0 \<and> dc_base_valid c)"

definition core_ok :: "display_core \<Rightarrow> bool" where
  "core_ok c \<longleftrightarrow> surfaces_ok c \<and> planes_ok c \<and> pending_ok c \<and> rects_ok c (dc_settle_damage c)"

text \<open>The reference composition of one pixel.\<close>

definition composite_pixel :: "display_core \<Rightarrow> nat \<Rightarrow> bytes" where
  "composite_pixel c j =
     mix_pixel (ps_format (dc_base c)) (dc_overlay c) j
       (mix_pixel (ps_format (dc_base c)) (dc_ink c) j
         (mix_pixel (ps_format (dc_base c)) (dc_peer_overlay c) j (surface_pixel (dc_base c) j)))"

text \<open>A surface of the core's geometry.\<close>

definition fits :: "display_core \<Rightarrow> pixel_surface \<Rightarrow> bool" where
  "fits c s \<longleftrightarrow> surface_ok s \<and> same_geometry s (dc_base c)"

lemma same_geometry_refl [simp]: "same_geometry s s"
  by (simp add: same_geometry_def)

lemma same_geometry_sym: "same_geometry a b \<Longrightarrow> same_geometry b a"
  by (simp add: same_geometry_def)

lemma same_geometry_trans: "same_geometry a b \<Longrightarrow> same_geometry b c \<Longrightarrow> same_geometry a c"
  by (simp add: same_geometry_def)

lemma core_okD:
  assumes "core_ok c"
  shows "surface_ok (dc_base c)" "fits c (dc_base c)" "fits c (dc_presented c)" "fits c (dc_working c)"
    "fits c (dc_presented_base c)"
    "overlay_ok (core_pixels c) (dc_overlay c)" "overlay_ok (core_pixels c) (dc_peer_overlay c)"
    "overlay_ok (core_pixels c) (dc_ink c)" "rects_ok c (dc_settle_damage c)"
  using assms by (simp_all add: core_ok_def surfaces_ok_def planes_ok_def fits_def)

lemma fitsD: "fits c s \<Longrightarrow> surface_ok s" "fits c s \<Longrightarrow> same_geometry s (dc_base c)"
    "fits c s \<Longrightarrow> num_pixels s = core_pixels c" "fits c s \<Longrightarrow> ps_format s = ps_format (dc_base c)"
    "fits c s \<Longrightarrow> ps_width s = core_width c" "fits c s \<Longrightarrow> ps_height s = core_height c"
    "fits c s \<Longrightarrow> in_rects s rs j = in_rects (dc_base c) rs j"
  using same_geometry_simps [of s "dc_base c"] by (auto simp: fits_def same_geometry_def)

lemma fits_same: "fits c a \<Longrightarrow> fits c b \<Longrightarrow> same_geometry a b"
  by (auto simp: fits_def same_geometry_def)

lemma fits_eqI:
  assumes "fits c a" "fits c b" "\<And>j. j < core_pixels c \<Longrightarrow> surface_pixel a j = surface_pixel b j"
  shows "a = b"
  using assms(3) fitsD(3) [OF assms(2)]
  by (intro surface_eqI fitsD(1) [OF assms(1)] fitsD(1) [OF assms(2)] fits_same [OF assms(1,2)]) simp

lemma full_rects_ok: "surface_ok (dc_base c) \<Longrightarrow> rects_ok c (full_damage (core_width c) (core_height c))"
  by (simp add: rects_ok_def full_damage_ok)

lemma in_full: "j < core_pixels c \<Longrightarrow> in_rects (dc_base c) (full_damage (core_width c) (core_height c)) j"
  using position_less [of j "core_width c" "core_height c"] by (simp add: in_rects_def num_pixels_def)

lemma surface_pixel_length:
  "surface_ok s \<Longrightarrow> j < num_pixels s \<Longrightarrow> length (surface_pixel s j) = bytes_per_pixel s"
  unfolding surface_pixel_def by (rule length_pixel_at [OF surface_length])

section \<open>Composition\<close>

lemma compose_base_spec:
  assumes "core_ok c"
  shows "\<exists>s. compose_base c = Inr s \<and> fits c s \<and>
    (\<forall>j<core_pixels c. surface_pixel s j =
      mix_pixel (ps_format (dc_base c)) (dc_ink c) j
        (mix_pixel (ps_format (dc_base c)) (dc_peer_overlay c) j (surface_pixel (dc_base c) j)))"
proof (cases "ov_transparent (dc_peer_overlay c) \<and> ov_transparent (dc_ink c)")
  case True
  note ok = core_okD [OF assms]
  have "mix_pixel (ps_format (dc_base c)) (dc_ink c) j
        (mix_pixel (ps_format (dc_base c)) (dc_peer_overlay c) j (surface_pixel (dc_base c) j)) =
      surface_pixel (dc_base c) j" if "j < core_pixels c" for j
    using True overlay_alpha_zero [OF ok(7) _ that] overlay_alpha_zero [OF ok(8) _ that]
    by (simp add: mix_transparent [OF surface_okD(5) [OF ok(1)] surface_pixel_length [OF ok(1) that]])
  then show ?thesis using True ok(2) by (simp add: compose_base_def)
next
  case False
  note ok = core_okD [OF assms]
  obtain s where s: "compose (dc_base c) (dc_peer_overlay c) = Inr s"
    "shows_over (dc_peer_overlay c) (dc_base c) s"
    using compose_shows_over [OF ok(1,7)] by blast
  then have fs: "fits c s" by (simp add: shows_over_def fits_def)
  then have "overlay_ok (num_pixels s) (dc_ink c)" using ok(8) fitsD(3) by simp
  then obtain t where t: "compose s (dc_ink c) = Inr t" "shows_over (dc_ink c) s t"
    using compose_shows_over [OF fitsD(1) [OF fs]] by blast
  have "fits c t" using t(2) fs by (auto simp: shows_over_def fits_def same_geometry_def)
  then show ?thesis
    using False s t fitsD(3,4) [OF fs] by (auto simp: compose_base_def shows_over_def)
qed

lemma compose_onto:
  assumes "core_ok c" and "fits c base" and "rects_ok c regions"
    and "\<And>j. j < core_pixels c \<Longrightarrow>
      mix_pixel (ps_format (dc_base c)) (dc_overlay c) j (surface_pixel base j) = composite_pixel c j"
  shows "\<exists>w. compose_regions_into base (dc_overlay c) (dc_working c) regions = (Inr (), w) \<and> fits c w \<and>
    (\<forall>j<core_pixels c. surface_pixel w j =
      (if in_rects (dc_base c) regions j then composite_pixel c j else surface_pixel (dc_working c) j))"
proof -
  note ok = core_okD [OF assms(1)] and b = fitsD [OF assms(2)]
  have "list_all (rect_ok (ps_width base) (ps_height base)) regions"
    using assms(3) b(5,6) by (simp add: rects_ok_def)
  moreover have "overlay_ok (num_pixels base) (dc_overlay c)" using ok(6) b(3) by simp
  ultimately obtain w where w: "compose_regions_into base (dc_overlay c) (dc_working c) regions = (Inr (), w)"
    "surface_ok w" "same_geometry w base"
    "\<forall>j<num_pixels base. surface_pixel w j =
       (if in_rects base regions j then mix_pixel (ps_format base) (dc_overlay c) j (surface_pixel base j)
        else surface_pixel (dc_working c) j)"
    using compose_regions_pixels [OF b(1) fitsD(1) [OF ok(4)] fits_same [OF ok(4) assms(2)]] by blast
  moreover have "fits c w" using w(2,3) b(2) by (auto simp: fits_def same_geometry_def)
  ultimately show ?thesis using assms(4) b(3,4,7) by simp
qed

lemma compose_working_spec:
  assumes "core_ok c" and "rects_ok c regions"
  shows "\<exists>w. compose_working regions c = (Inr (), c\<lparr>dc_working := w\<rparr>) \<and> fits c w \<and>
    (\<forall>j<core_pixels c. surface_pixel w j =
      (if in_rects (dc_base c) regions j then composite_pixel c j else surface_pixel (dc_working c) j))"
proof -
  obtain s where s: "compose_base c = Inr s" "fits c s"
    "\<forall>j<core_pixels c. mix_pixel (ps_format (dc_base c)) (dc_overlay c) j (surface_pixel s j) = composite_pixel c j"
    using compose_base_spec [OF assms(1)] by (auto simp: composite_pixel_def)
  obtain w where "compose_regions_into s (dc_overlay c) (dc_working c) regions = (Inr (), w)" "fits c w"
    "\<forall>j<core_pixels c. surface_pixel w j =
      (if in_rects (dc_base c) regions j then composite_pixel c j else surface_pixel (dc_working c) j)"
    using compose_onto [OF assms(1) s(2) assms(2)] s(3) by blast
  moreover have "ov_transparent (dc_peer_overlay c) \<and> ov_transparent (dc_ink c) \<Longrightarrow> s = dc_base c"
    using s(1) by (simp add: compose_base_def)
  ultimately show ?thesis
    using s(1) by (auto simp: compose_working_def)
qed

lemma compose_everything_spec:
  assumes "core_ok c"
  shows "\<exists>w. compose_everything c = (Inr (), c\<lparr>dc_working := w\<rparr>) \<and> fits c w \<and>
    (\<forall>j<core_pixels c. surface_pixel w j = composite_pixel c j)"
proof -
  obtain s where s: "compose_base c = Inr s" "fits c s"
    "\<forall>j<core_pixels c. mix_pixel (ps_format (dc_base c)) (dc_overlay c) j (surface_pixel s j) = composite_pixel c j"
    using compose_base_spec [OF assms] by (auto simp: composite_pixel_def)
  from compose_onto [OF assms s(2) full_rects_ok [OF core_okD(1) [OF assms]]] s(1,3) in_full
  show ?thesis by (auto simp: compose_everything_def)
qed

section \<open>Damage\<close>

lemma tick_regions_ok:
  "core_ok c \<Longrightarrow> rects_ok c (pd_damage_hint pending) \<Longrightarrow> rects_ok c (tick_regions pending c)"
  using full_rects_ok [OF core_okD(1)] core_okD(9) by (auto simp: tick_regions_def rects_ok_def)

lemma core_ok_working: "core_ok c \<Longrightarrow> fits c w \<Longrightarrow> core_ok (c\<lparr>dc_working := w\<rparr>)"
  by (auto simp: core_ok_def surfaces_ok_def planes_ok_def pending_ok_def rects_ok_def fits_def
      split: option.splits)

text \<open>
  The damage of a tick is valid and covers every pixel of the composed regions that differs from
  what was presented.
\<close>

lemma tick_damage_spec:
  assumes "core_ok c" and "rects_ok c regions"
  shows "rects_ok c (tick_damage pending regions c)"
    and "j < core_pixels c \<Longrightarrow> in_rects (dc_base c) regions j \<Longrightarrow>
      surface_pixel (dc_working c) j \<noteq> surface_pixel (dc_presented c) j \<Longrightarrow>
      in_rects (dc_base c) (tick_damage pending regions c) j"
    and "j < core_pixels c \<Longrightarrow> pd_force_full_damage pending \<Longrightarrow>
      in_rects (dc_base c) (tick_damage pending regions c) j"
proof -
  note ok = core_okD [OF assms(1)] and w = fitsD [OF core_okD(4) [OF assms(1)]]
  let ?W = "core_width c" and ?H = "core_height c"
  let ?d = "if pd_force_full_damage pending then full_damage ?W ?H
      else tile_damage_regions (dc_presented c) (dc_working c) (dc_damage_tile c) regions"
  have small: "?W \<le> u32_max" "?H \<le> u32_max" using surface_okD(3,4) [OF ok(1)] by simp_all
  have rs: "list_all (rect_ok (ps_width (dc_working c)) (ps_height (dc_working c))) regions"
    using assms(2) w(5,6) by (simp add: rects_ok_def)
  have d: "rects_ok c ?d"
    using full_rects_ok [OF ok(1)] tile_damage_regions_ok [OF w(1) fits_same [OF ok(3,4)] rs] w(5,6)
    by (simp add: rects_ok_def)
  then have merged: "list_all (rect_ok ?W ?H) (dc_settle_damage c @ ?d)"
    using ok(9) by (simp add: rects_ok_def)
  show "rects_ok c (tick_damage pending regions c)"
    using d merge_tiled_damage_ok [OF small merged] by (simp add: tick_damage_def rects_ok_def Let_def)
  have full: "covers ?d (j mod ?W) (j div ?W)" if "j < core_pixels c" "pd_force_full_damage pending" for j
    using that position_less [of j ?W ?H] by (simp add: num_pixels_def)
  then show "j < core_pixels c \<Longrightarrow> pd_force_full_damage pending \<Longrightarrow>
      in_rects (dc_base c) (tick_damage pending regions c) j"
    using merge_tiled_damage_superset [OF small merged] by (simp add: tick_damage_def in_rects_def Let_def)
  assume j: "j < core_pixels c" "in_rects (dc_base c) regions j"
    "surface_pixel (dc_working c) j \<noteq> surface_pixel (dc_presented c) j"
  have pos: "j div ?W * ?W + j mod ?W = j" by simp
  have "covers ?d (j mod ?W) (j div ?W)"
  proof (cases "pd_force_full_damage pending")
    case True
    then show ?thesis using full j(1) by simp
  next
    case False
    have "pixel_changed (dc_presented c) (dc_working c) (j mod ?W) (j div ?W)"
      using j(3) w(5) pos by (simp add: pixel_changed_def)
    then show ?thesis
      using False tile_damage_regions_covers [OF fitsD(1) [OF ok(3)] w(1) fits_same [OF ok(3,4)] rs] j(2)
      by (simp add: in_rects_def)
  qed
  then show "in_rects (dc_base c) (tick_damage pending regions c) j"
    using merge_tiled_damage_superset [OF small merged] by (simp add: tick_damage_def in_rects_def Let_def)
qed

section \<open>One presentation\<close>

text \<open>
  \<open>agrees_off c s rs\<close>: \<open>working\<close> and \<open>s\<close> agree outside the rectangles. After the
  composition of a tick this holds for \<open>presented\<close> and the damage.
\<close>

definition agrees_off :: "display_core \<Rightarrow> pixel_surface \<Rightarrow> rect list \<Rightarrow> bool" where
  "agrees_off c s rs = (\<forall>j<core_pixels c. \<not> in_rects (dc_base c) rs j \<longrightarrow>
     surface_pixel (dc_working c) j = surface_pixel s j)"

lemma agrees_nothing: "fits c (dc_working c) \<Longrightarrow> fits c s \<Longrightarrow> agrees_off c s [] \<Longrightarrow> dc_working c = s"
  by (rule fits_eqI) (auto simp: agrees_off_def in_rects_def)

lemma record_panel_damage_simps [simp]:
  "dc_working (record_panel_damage d r n c) = dc_working c"
  "dc_presented (record_panel_damage d r n c) = dc_presented c"
  "dc_base (record_panel_damage d r n c) = dc_base c"
  "dc_overlay (record_panel_damage d r n c) = dc_overlay c"
  "dc_peer_overlay (record_panel_damage d r n c) = dc_peer_overlay c"
  "dc_ink (record_panel_damage d r n c) = dc_ink c"
  "dc_presented_base (record_panel_damage d r n c) = dc_presented_base c"
  "dc_pending (record_panel_damage d r n c) = dc_pending c"
  "dc_logical_frame_id (record_panel_damage d r n c) = dc_logical_frame_id c"
  "dc_presented_frame_id (record_panel_damage d r n c) = dc_presented_frame_id c"
  "dc_base_valid (record_panel_damage d r n c) = dc_base_valid c"
  "dc_settle_damage (record_panel_damage d r n c) = dc_settle_damage c"
  "dc_damage_tile (record_panel_damage d r n c) = dc_damage_tile c"
  "dc_refresh_policy (record_panel_damage d r n c) = dc_refresh_policy c"
  "dc_force_cleanup_next (record_panel_damage d r n c) = dc_force_cleanup_next c"
  "dc_fast_updates_since_settled (record_panel_damage d r n c) = dc_fast_updates_since_settled c"
  by (simp_all add: record_panel_damage_def)

text \<open>Copying the damage from the submitted frame brings the other buffer level with it.\<close>

lemma copy_back:
  assumes "fits c w" "fits c old" "rects_ok c damage"
    and "\<forall>j<core_pixels c. \<not> in_rects (dc_base c) damage j \<longrightarrow> surface_pixel w j = surface_pixel old j"
  shows "copy_regions_from old w damage = (Inr (), w)"
proof -
  note fw = fitsD [OF assms(1)]
  have "list_all (rect_ok (ps_width w) (ps_height w)) damage"
    using assms(3) fw(5,6) by (simp add: rects_ok_def)
  from copy_regions_pixels [OF fw(1) fitsD(1) [OF assms(2)] fits_same [OF assms(2,1)] this]
  obtain out where out: "copy_regions_from old w damage = (Inr (), out)" "surface_ok out"
    "same_geometry out w" "\<forall>j<num_pixels w. surface_pixel out j =
       (if in_rects w damage j then surface_pixel w j else surface_pixel old j)" by blast
  moreover have "out = w"
  proof (rule surface_eqI [OF out(2) fw(1) out(3)])
    fix j assume "j < num_pixels w"
    then show "surface_pixel out j = surface_pixel w j" using out(4) fw(3,7) assms(4) by simp
  qed
  ultimately show ?thesis by simp
qed

lemma tick_success_spec:
  assumes "core_ok c" and "rects_ok c damage" and "agrees_off c (dc_presented c) damage"
    and "tick_success pending now damage decision pm metrics c = (r, c')"
  shows "r = Inr [\<lparr>tf_frame_id = pd_frame_id pending, tf_outcome = Presented, tf_metrics = metrics\<rparr>] \<and>
    dc_working c' = dc_working c \<and> dc_presented c' = dc_working c \<and> dc_base c' = dc_base c \<and>
    dc_overlay c' = dc_overlay c \<and> dc_peer_overlay c' = dc_peer_overlay c \<and> dc_ink c' = dc_ink c \<and>
    dc_pending c' = dc_pending c \<and> dc_base_valid c' = dc_base_valid c \<and>
    dc_logical_frame_id c' = dc_logical_frame_id c \<and> dc_presented_frame_id c' = pd_frame_id pending \<and>
    dc_presented_base c' = dc_base c \<and> rects_ok c (dc_settle_damage c') \<and>
    (complete_refresh decision \<longrightarrow> \<not> dc_force_cleanup_next c') \<and>
    dc_refresh_policy c' = presented_submissions decision (physical_submissions pm) (dc_refresh_policy c)"
proof -
  note ok = core_okD [OF assms(1)]
  have copy: "copy_regions_from (dc_presented c) (dc_working c) damage = (Inr (), dc_working c)"
    using assms(3) by (intro copy_back [OF ok(4,3) assms(2)]) (simp add: agrees_off_def)
  have small: "core_width c \<le> u32_max" "core_height c \<le> u32_max"
    using surface_okD(3,4) [OF ok(1)] by simp_all
  have settle: "list_all (rect_ok (core_width c) (core_height c))
      (merge_tiled_damage (core_width c) (core_height c) (dc_damage_tile c) (dc_settle_damage c) damage)"
    using ok(9) assms(2) by (intro merge_tiled_damage_ok [OF small]) (simp add: rects_ok_def)
  show ?thesis
    using assms(4) copy settle ok(9)
    by (auto simp: tick_success_def Let_def rects_ok_def split: if_splits)
qed

lemma core_ok_presented:
  assumes "core_ok c" and "dc_pending c = None" and "fits c (dc_working c)"
    and "dc_working c' = w" "dc_presented c' = w" "fits c w" "dc_base c' = dc_base c"
    and "dc_overlay c' = dc_overlay c" "dc_peer_overlay c' = dc_peer_overlay c" "dc_ink c' = dc_ink c"
    and "dc_pending c' = None" and "fits c (dc_presented_base c')" and "rects_ok c (dc_settle_damage c')"
  shows "core_ok c'"
  using assms by (auto simp: core_ok_def surfaces_ok_def planes_ok_def pending_ok_def rects_ok_def fits_def)

text \<open>
  The outcome of presenting one frame. Either the frame is reported as presented and both buffers
  hold the composed image \<open>w\<close>, or the backend failed and both buffers keep the old image, the
  base is invalid and no frame is pending.
\<close>

definition presented_as ::
  "display_core \<Rightarrow> pending_presentation \<Rightarrow> pixel_surface \<Rightarrow> terminal_frame list \<Rightarrow> display_core \<Rightarrow> bool" where
  "presented_as c pending w ts c' \<longleftrightarrow>
     (\<exists>t. ts = [t] \<and> tf_frame_id t = pd_frame_id pending \<and> tf_outcome t = Presented) \<and>
     dc_working c' = w \<and> dc_presented c' = w \<and> dc_base c' = dc_base c \<and>
     dc_overlay c' = dc_overlay c \<and> dc_peer_overlay c' = dc_peer_overlay c \<and> dc_ink c' = dc_ink c \<and>
     dc_pending c' = None \<and> dc_base_valid c' = dc_base_valid c \<and>
     dc_logical_frame_id c' = dc_logical_frame_id c \<and>
     dc_presented_frame_id c' = pd_frame_id pending \<and> dc_presented_base c' = dc_base c"

definition failed_as ::
  "display_core \<Rightarrow> pending_presentation \<Rightarrow> terminal_frame list \<Rightarrow> display_core \<Rightarrow> bool" where
  "failed_as c pending ts c' \<longleftrightarrow>
     (\<exists>t. ts = [t] \<and> tf_frame_id t = pd_frame_id pending \<and> tf_outcome t = BackendFailure) \<and>
     dc_working c' = dc_presented c \<and> dc_presented c' = dc_presented c \<and> dc_base c' = dc_base c \<and>
     dc_overlay c' = dc_overlay c \<and> dc_peer_overlay c' = dc_peer_overlay c \<and> dc_ink c' = dc_ink c \<and>
     dc_pending c' = None \<and> \<not> dc_base_valid c' \<and> dc_logical_frame_id c' = 0 \<and>
     dc_presented_frame_id c' = dc_presented_frame_id c \<and>
     dc_presented_base c' = dc_presented_base c \<and> dc_panel_state_uncertain c'"

lemma tick_submit_spec:
  assumes "core_ok c" and "dc_pending c = None" and "rects_ok c damage"
    and "agrees_off c (dc_presented c) damage"
    and "tick_submit backend pending now damage decision obs c p = (r, c', p')"
  shows "\<exists>ts. r = Inr ts \<and> core_ok c' \<and>
    (presented_as c pending (dc_working c) ts c' \<and>
       (damage = [] \<and> p' = p \<or>
        (\<exists>pm. panel_submit backend p (dc_working c) damage decision = (Inr pm, p'))) \<or>
     failed_as c pending ts c' \<and> (\<exists>e. panel_submit backend p (dc_working c) damage decision = (Inl e, p')))"
proof (cases "damage = []")
  case True
  note ok = core_okD [OF assms(1)]
  have w: "dc_working c = dc_presented c"
    using agrees_nothing [OF ok(4,3)] assms(4) True by simp
  have c': "c' = c\<lparr>dc_presented_frame_id := pd_frame_id pending, dc_presented_base := dc_base c,
      dc_last_present_at := Some now\<rparr>" and r: "p' = p"
    and ts: "\<exists>t. r = Inr [t] \<and> tf_frame_id t = pd_frame_id pending \<and> tf_outcome t = Presented"
    using assms(5) True by (auto simp: tick_submit_def Let_def)
  have "core_ok c'"
    by (rule core_ok_presented [OF assms(1,2) ok(4), where w = "dc_working c"])
      (use ok assms(2) w in \<open>simp_all add: c'\<close>)
  then show ?thesis using ts r w assms(2) True by (auto simp: presented_as_def c')
next
  case False
  note ok = core_okD [OF assms(1)]
  obtain res q where sub: "panel_submit backend p (dc_working c) damage decision = (res, q)"
    by (rule prod.exhaust)
  show ?thesis
  proof (cases res)
    case (Inl e)
    have c': "c' = mark_panel_failure (c\<lparr>dc_working := dc_presented c\<rparr>)" and p': "p' = q"
      and ts: "\<exists>t. r = Inr [t] \<and> tf_frame_id t = pd_frame_id pending \<and> tf_outcome t = BackendFailure"
      using assms(5) False sub Inl by (auto simp: tick_submit_def Let_def)
    have "core_ok c'"
      by (rule core_ok_presented [OF assms(1,2) ok(4), where w = "dc_presented c"])
        (use ok assms(2) in \<open>simp_all add: c' mark_panel_failure_def rects_ok_def\<close>)
    then show ?thesis
      using ts p' sub Inl assms(2) by (auto simp: failed_as_def c' mark_panel_failure_def)
  next
    case (Inr pm)
    obtain metrics where succ: "tick_success pending now damage decision pm metrics c = (r, c')"
      and p': "p' = q"
      using assms(5) False sub Inr by (auto simp: tick_submit_def Let_def split: prod.splits)
    note s = tick_success_spec [OF assms(1,3,4) succ]
    have "core_ok c'"
      by (rule core_ok_presented [OF assms(1,2) ok(4), where w = "dc_working c"])
        (use s ok assms(2) in simp_all)
    then show ?thesis using s p' sub Inr assms(2) by (auto simp: presented_as_def)
  qed
qed

lemma core_ok_take_pending: "core_ok c \<Longrightarrow> core_ok (c\<lparr>dc_pending := None\<rparr>)"
  by (simp add: core_ok_def surfaces_ok_def planes_ok_def pending_ok_def rects_ok_def)

lemma composite_working [simp]: "composite_pixel (c\<lparr>dc_working := w\<rparr>) j = composite_pixel c j"
  by (simp add: composite_pixel_def)

lemma composite_pending [simp]: "composite_pixel (c\<lparr>dc_pending := q\<rparr>) j = composite_pixel c j"
  by (simp add: composite_pixel_def)

lemma presented_as_working: "presented_as (c\<lparr>dc_working := v\<rparr>) = presented_as c"
  by (simp add: presented_as_def fun_eq_iff)

lemma failed_as_working: "failed_as (c\<lparr>dc_working := v\<rparr>) = failed_as c"
  by (simp add: failed_as_def fun_eq_iff)

lemma rects_ok_working [simp]: "rects_ok (c\<lparr>dc_working := v\<rparr>) = rects_ok c"
  by (simp add: rects_ok_def fun_eq_iff)

text \<open>The image \<open>w\<close> a tick submits, and its damage.\<close>

definition composed_for ::
  "display_core \<Rightarrow> pending_presentation \<Rightarrow> pixel_surface \<Rightarrow> rect list \<Rightarrow> bool" where
  "composed_for c pending w damage \<longleftrightarrow> fits c w \<and> rects_ok c damage \<and>
     (pd_force_full_damage pending \<longrightarrow> (\<forall>j<core_pixels c. in_rects (dc_base c) damage j)) \<and>
     (\<forall>j<core_pixels c. (in_rects (dc_base c) (tick_regions pending c) j \<longrightarrow>
        surface_pixel w j = composite_pixel c j) \<and>
       (surface_pixel w j = composite_pixel c j \<or> surface_pixel w j = surface_pixel (dc_presented c) j) \<and>
       (\<not> in_rects (dc_base c) damage j \<longrightarrow> surface_pixel w j = surface_pixel (dc_presented c) j))"

text \<open>
  The body of a tick: the image it submits is the composition on the tick's regions and the old
  image elsewhere (the composition everywhere for a complete refresh).
\<close>

lemma tick_present_spec:
  assumes "core_ok c" and "dc_pending c = None" and "dc_working c = dc_presented c"
    and "rects_ok c (pd_damage_hint pending)"
    and "tick_present backend pending now obs c p = (r, c', p')"
  shows "\<exists>ts w damage decision. r = Inr ts \<and> core_ok c' \<and> composed_for c pending w damage \<and>
    (presented_as c pending w ts c' \<and>
       (damage = [] \<and> p' = p \<or> (\<exists>pm. panel_submit backend p w damage decision = (Inr pm, p'))) \<or>
     failed_as c pending ts c' \<and> (\<exists>e. panel_submit backend p w damage decision = (Inl e, p')))"
proof -
  let ?rs = "tick_regions pending c"
  have rs: "rects_ok c ?rs" by (rule tick_regions_ok [OF assms(1,4)])
  obtain w where w: "compose_working ?rs c = (Inr (), c\<lparr>dc_working := w\<rparr>)" "fits c w"
    "\<forall>j<core_pixels c. surface_pixel w j =
      (if in_rects (dc_base c) ?rs j then composite_pixel c j else surface_pixel (dc_working c) j)"
    using compose_working_spec [OF assms(1) rs] by blast
  let ?c1 = "c\<lparr>dc_working := w\<rparr>"
  have c1: "core_ok ?c1" by (rule core_ok_working [OF assms(1) w(2)])
  let ?d = "tick_damage pending ?rs ?c1" and ?dec = "tick_decision pending (tick_damage pending ?rs ?c1) ?c1"
  have d: "rects_ok c ?d" using tick_damage_spec(1) [OF c1, of ?rs pending] rs by simp
  have off: "agrees_off ?c1 (dc_presented ?c1) ?d"
    using tick_damage_spec(2) [OF c1, of ?rs _ pending] rs w(3) assms(3)
    by (auto simp: agrees_off_def)
  show ?thesis
  proof (cases "complete_refresh ?dec")
    case False
    then have "tick_submit backend pending now ?d ?dec obs ?c1 p = (r, c', p')"
      using assms(5) w(1) by (simp add: tick_present_def Let_def damage_for_decision_def)
    from tick_submit_spec [OF c1 _ _ off this] assms(2) d
    obtain ts where "r = Inr ts" "core_ok c'"
      "presented_as c pending w ts c' \<and>
         (?d = [] \<and> p' = p \<or> (\<exists>pm. panel_submit backend p w ?d ?dec = (Inr pm, p'))) \<or>
       failed_as c pending ts c' \<and> (\<exists>e. panel_submit backend p w ?d ?dec = (Inl e, p'))"
      by (auto simp: presented_as_working failed_as_working)
    moreover have "surface_pixel w j = surface_pixel (dc_presented c) j"
      if "j < core_pixels c" "\<not> in_rects (dc_base c) ?d j" for j
      using off that by (simp add: agrees_off_def)
    moreover have "in_rects (dc_base c) ?d j" if "j < core_pixels c" "pd_force_full_damage pending" for j
      using tick_damage_spec(3) [OF c1, of ?rs j pending] rs that by simp
    ultimately show ?thesis
      using w(2,3) d assms(3)
      by (intro exI [of _ ts] exI [of _ w] exI [of _ ?d] exI [of _ ?dec]) (auto simp: composed_for_def)
  next
    case True
    obtain v where v: "compose_everything ?c1 = (Inr (), ?c1\<lparr>dc_working := v\<rparr>)" "fits ?c1 v"
      "\<forall>j<core_pixels ?c1. surface_pixel v j = composite_pixel ?c1 j"
      using compose_everything_spec [OF c1] by blast
    let ?c2 = "c\<lparr>dc_working := v\<rparr>" and ?full = "full_damage (core_width c) (core_height c)"
    have fv: "fits c v" using v(2) by (simp add: fits_def)
    have c2: "core_ok ?c2" by (rule core_ok_working [OF assms(1) fv])
    have full: "rects_ok c ?full" by (rule full_rects_ok [OF core_okD(1) [OF assms(1)]])
    have off2: "agrees_off ?c2 (dc_presented ?c2) ?full" using in_full by (simp add: agrees_off_def)
    have "tick_submit backend pending now ?full ?dec obs ?c2 p = (r, c', p')"
      using assms(5) w(1) v(1) True by (simp add: tick_present_def Let_def)
    from tick_submit_spec [OF c2 _ _ off2 this] assms(2) full
    obtain ts where "r = Inr ts" "core_ok c'"
      "presented_as c pending v ts c' \<and>
         (?full = [] \<and> p' = p \<or> (\<exists>pm. panel_submit backend p v ?full ?dec = (Inr pm, p'))) \<or>
       failed_as c pending ts c' \<and> (\<exists>e. panel_submit backend p v ?full ?dec = (Inl e, p'))"
      by (auto simp: presented_as_working failed_as_working)
    then show ?thesis
      using fv v(3) full in_full
      by (intro exI [of _ ts] exI [of _ v] exI [of _ ?full] exI [of _ ?dec]) (auto simp: composed_for_def)
  qed
qed

section \<open>Ticks, cleanups and profile changes\<close>

lemma core_ok_pending: "core_ok c \<Longrightarrow> dc_pending c = Some pending \<Longrightarrow> rects_ok c (pd_damage_hint pending)"
  by (simp add: core_ok_def pending_ok_def)

lemma take_pending_simps [simp]:
  "composed_for (c\<lparr>dc_pending := q\<rparr>) = composed_for c"
  "presented_as (c\<lparr>dc_pending := q\<rparr>) = presented_as c"
  "failed_as (c\<lparr>dc_pending := q\<rparr>) = failed_as c"
  by (simp_all add: fun_eq_iff composed_for_def presented_as_def failed_as_def fits_def rects_ok_def
      tick_regions_def)

definition tick_outcome ::
  "'p panel_backend \<Rightarrow> display_core \<Rightarrow> 'p \<Rightarrow> terminal_frame list \<Rightarrow> display_core \<Rightarrow> 'p \<Rightarrow> bool" where
  "tick_outcome backend c p ts c' p' \<longleftrightarrow> core_ok c' \<and> dc_working c' = dc_presented c' \<and>
     (ts = [] \<and> c' = c \<and> p' = p \<or>
      (\<exists>pending. dc_pending c = Some pending \<and>
        (failed_as c pending ts c' \<and> (\<exists>e. panel_pump backend p = (Inl e, p')) \<or>
         (\<exists>q w damage decision. panel_pump backend p = (Inr (), q) \<and> composed_for c pending w damage \<and>
           (presented_as c pending w ts c' \<and>
              (damage = [] \<and> p' = q \<or> (\<exists>pm. panel_submit backend q w damage decision = (Inr pm, p'))) \<or>
            failed_as c pending ts c' \<and> (\<exists>e. panel_submit backend q w damage decision = (Inl e, p')))))))"

lemma tick_inner_spec:
  assumes "core_ok c" and "dc_working c = dc_presented c"
    and "tick_inner backend now ig obs c p = (r, c', p')"
  shows "\<exists>ts. r = Inr ts \<and> tick_outcome backend c p ts c' p'"
proof (cases "dc_pending c = None \<or> c' = c \<and> r = Inr [] \<and> p' = p")
  case True
  then have "r = Inr [] \<and> c' = c \<and> p' = p"
    using assms(3) by (auto simp: tick_inner_def next_deadline_def)
  then show ?thesis using assms(1,2) by (simp add: tick_outcome_def)
next
  case False
  then obtain pending where pend: "dc_pending c = Some pending" by (cases "dc_pending c") auto
  obtain deadline where dl: "next_deadline c = Some deadline"
    using pend by (simp add: next_deadline_def Let_def)
  have due: "\<not> (\<not> ig \<and> now < deadline)"
    using False assms(3) dl by (auto simp: tick_inner_def)
  obtain res q where pump: "panel_pump backend p = (res, q)" by (rule prod.exhaust)
  show ?thesis
  proof (cases res)
    case (Inl e)
    have c': "c' = (mark_panel_failure c)\<lparr>dc_pending := None\<rparr>" "p' = q"
      and r: "\<exists>t. r = Inr [t] \<and> tf_frame_id t = pd_frame_id pending \<and> tf_outcome t = BackendFailure"
      using assms(3) dl due pump Inl pend by (auto simp: tick_inner_def)
    have "core_ok c'"
      using assms(1) by (auto simp: c' core_ok_def surfaces_ok_def planes_ok_def pending_ok_def
          rects_ok_def mark_panel_failure_def)
    moreover have "\<exists>ts. r = Inr ts \<and> failed_as c pending ts c'"
      using r assms(2) by (auto simp: failed_as_def c' mark_panel_failure_def)
    ultimately show ?thesis
      using pend pump Inl c' assms(2) by (auto simp: tick_outcome_def mark_panel_failure_def)
  next
    case (Inr u)
    let ?c = "c\<lparr>dc_pending := None\<rparr>"
    have "tick_present backend pending now obs ?c q = (r, c', p')"
      using assms(3) dl due pump Inr pend by (auto simp: tick_inner_def)
    note tick = this
    have hint: "rects_ok ?c (pd_damage_hint pending)"
      using core_ok_pending [OF assms(1) pend] by (simp add: rects_ok_def)
    have none: "dc_pending ?c = None" and level: "dc_working ?c = dc_presented ?c"
      using assms(2) by simp_all
    obtain ts w damage decision where t: "r = Inr ts" "core_ok c'" "composed_for c pending w damage"
      "presented_as c pending w ts c' \<and>
         (damage = [] \<and> p' = q \<or> (\<exists>pm. panel_submit backend q w damage decision = (Inr pm, p'))) \<or>
       failed_as c pending ts c' \<and> (\<exists>e. panel_submit backend q w damage decision = (Inl e, p'))"
      using tick_present_spec [OF core_ok_take_pending [OF assms(1)] none level hint tick]
      unfolding take_pending_simps by blast
    moreover have "dc_working c' = dc_presented c'"
      using t(4) by (auto simp: presented_as_def failed_as_def)
    ultimately show ?thesis using pend pump Inr by (auto simp: tick_outcome_def)
  qed
qed

text \<open>A maintenance refresh resubmits the presented image and changes no buffer.\<close>

definition same_images :: "display_core \<Rightarrow> display_core \<Rightarrow> bool" where
  "same_images c c' \<longleftrightarrow> dc_base c' = dc_base c \<and> dc_overlay c' = dc_overlay c \<and>
     dc_peer_overlay c' = dc_peer_overlay c \<and> dc_ink c' = dc_ink c \<and>
     dc_presented_base c' = dc_presented_base c \<and> dc_presented c' = dc_presented c \<and>
     dc_working c' = dc_working c"

lemma core_ok_same_images:
  assumes "core_ok c" and "same_images c c'" and "dc_pending c' = None \<or>
      dc_pending c' = dc_pending c \<and> dc_base_valid c' = dc_base_valid c \<and>
      dc_logical_frame_id c' = dc_logical_frame_id c"
    and "rects_ok c (dc_settle_damage c')"
  shows "core_ok c'"
  using assms
  by (auto simp: core_ok_def surfaces_ok_def planes_ok_def pending_ok_def rects_ok_def same_images_def
      split: option.splits)

lemma force_cleanup_simps [simp]:
  "composed_for (c\<lparr>dc_force_cleanup_next := b\<rparr>) = composed_for c"
  "presented_as (c\<lparr>dc_force_cleanup_next := b\<rparr>) = presented_as c"
  "failed_as (c\<lparr>dc_force_cleanup_next := b\<rparr>) = failed_as c"
  by (simp_all add: fun_eq_iff composed_for_def presented_as_def failed_as_def fits_def rects_ok_def
      tick_regions_def composite_pixel_def)

lemma same_images_refl [simp]: "same_images c c"
  by (simp add: same_images_def)

lemma same_images_failure [simp]: "same_images c (mark_panel_failure c)"
  by (simp add: same_images_def mark_panel_failure_def)

text \<open>
  What a maintenance refresh does: nothing yet, a failed or a successful resubmission of the
  presented image on the whole panel.
\<close>

definition cleanup_outcome ::
  "'p panel_backend \<Rightarrow> display_core \<Rightarrow> 'p \<Rightarrow> display_core \<Rightarrow> 'p \<Rightarrow> bool" where
  "cleanup_outcome backend c p c' p' \<longleftrightarrow> core_ok c' \<and> same_images c c' \<and> dc_pending c' = None \<and>
     dc_presented_frame_id c' = dc_presented_frame_id c \<and>
     (p' = p \<and> dc_base_valid c' = dc_base_valid c \<or>
      (\<exists>e. panel_pump backend p = (Inl e, p')) \<and> \<not> dc_base_valid c' \<or>
      (\<exists>q decision. panel_pump backend p = (Inr (), q) \<and>
        ((\<exists>e. panel_submit backend q (dc_presented c) (full_damage (core_width c) (core_height c))
               decision = (Inl e, p')) \<and> \<not> dc_base_valid c' \<or>
         (\<exists>pm. panel_submit backend q (dc_presented c) (full_damage (core_width c) (core_height c))
               decision = (Inr pm, p')) \<and> dc_base_valid c' = dc_base_valid c)))"

lemma request_cleanup_spec:
  assumes "core_ok c" and "dc_working c = dc_presented c"
    and "request_cleanup backend now obs c p = (r, c', p')"
  shows "\<exists>rep. r = Inr rep \<and> (if dc_pending c = None then
      report_terminals rep = [] \<and> cleanup_outcome backend c p c' p'
    else (\<exists>d. d = c\<lparr>dc_force_cleanup_next := True\<rparr> \<and>
      tick_outcome backend d p (report_terminals rep) c' p'))"
proof (cases "dc_pending c")
  case (Some pending)
  let ?d = "c\<lparr>dc_force_cleanup_next := True\<rparr>"
  have ok: "core_ok ?d"
    using assms(1) by (auto simp: core_ok_def surfaces_ok_def planes_ok_def pending_ok_def rects_ok_def
        split: option.splits)
  obtain tr d p2 where t: "tick_inner backend now True obs ?d p = (tr, d, p2)" by (metis prod_cases3)
  obtain ts where ts: "tr = Inr ts" "tick_outcome backend ?d p ts d p2"
    using tick_inner_spec [OF ok _ t] assms(2) by auto
  then show ?thesis using assms(3) t Some by (auto simp: request_cleanup_def Let_def)
next
  case None
  let ?d = "c\<lparr>dc_force_cleanup_next := True\<rparr>"
  let ?full = "full_damage (core_width c) (core_height c)"
  have simple: "core_ok d" if "same_images c d" "dc_pending d = None" "dc_settle_damage d = [] \<or>
      dc_settle_damage d = dc_settle_damage c" for d
    using that core_okD(9) [OF assms(1)]
    by (intro core_ok_same_images [OF assms(1) that(1)]) (auto simp: rects_ok_def)
  have img: "same_images c ?d" "same_images c (mark_panel_failure ?d)"
    by (simp_all add: same_images_def mark_panel_failure_def)
  show ?thesis
  proof (cases "dc_presented_frame_id c = 0")
    case True
    then have r: "r = Inr idle_report" "c' = ?d" "p' = p"
      using assms(3) None by (simp_all add: request_cleanup_def)
    then show ?thesis
      using None simple [OF img(1)] img by (simp add: cleanup_outcome_def idle_report_def)
  next
    case False
    obtain res q where pump: "panel_pump backend p = (res, q)" by (rule prod.exhaust)
    show ?thesis
    proof (cases res)
      case (Inl e)
      then have r: "r = Inr (idle_report\<lparr>report_backend_failed := True\<rparr>)" "c' = mark_panel_failure ?d" "p' = q"
        using assms(3) None False pump by (simp_all add: request_cleanup_def)
      then show ?thesis
        using None simple [OF img(2)] img pump Inl
        by (simp add: cleanup_outcome_def idle_report_def mark_panel_failure_def)
    next
      case (Inr u)
      let ?dec = "decide (dc_refresh_policy ?d) Settled Mixed (core_width c * core_height c)
          (core_width c * core_height c) True"
      obtain sres q2 where sub: "panel_submit backend q (dc_presented c) ?full ?dec = (sres, q2)"
        by (rule prod.exhaust)
      show ?thesis
      proof (cases sres)
        case (Inl e)
        then have r: "r = Inr (idle_report\<lparr>report_backend_failed := True\<rparr>)" "c' = mark_panel_failure ?d"
            "p' = q2"
          using assms(3) None False pump Inr sub by (simp_all add: request_cleanup_def Let_def)
        then show ?thesis
          using None simple [OF img(2)] img pump Inr sub Inl
          by (auto simp: cleanup_outcome_def idle_report_def mark_panel_failure_def)
      next
        case (Inr pm)
        have c': "r = Inr (idle_report\<lparr>cleanup_performed := True, report_cleanup_pending := False\<rparr>)"
          "p' = q2" "same_images c c'" "dc_pending c' = None" "dc_settle_damage c' = []"
          "dc_base_valid c' = dc_base_valid c" "dc_presented_frame_id c' = dc_presented_frame_id c"
          using assms(3) None False pump \<open>res = Inr u\<close> sub Inr
          by (auto simp: request_cleanup_def Let_def same_images_def)
        then show ?thesis
          using None simple [OF c'(3)] pump \<open>res = Inr u\<close> sub Inr
          by (auto simp: cleanup_outcome_def idle_report_def)
      qed
    qed
  qed
qed

end
