(* ===== verification/Display.thy ===== *)
theory Display
  imports Scheduler_Inv
begin

text \<open>
  The display as a state machine: every public operation of \<open>DisplayCore\<close>
  (\<open>crates/rm-display-core/src/scheduler.rs\<close>) as a step of the core together with its panel,
  and the invariants of every run. The main results are that the software copy \<open>presented\<close> is
  what the panel shows once a frame was presented, and that after a presentation the panel shows
  the full composition of base and planes, although ticks only recompose and submit damaged parts.
\<close>

section \<open>Committing\<close>

lemma apply_regions_outside:
  assumes "surface_ok s" and "apply_regions_atomic s rs = (Inr u, s')"
  shows "surface_ok s' \<and> same_geometry s' s \<and>
    list_all (rect_ok (ps_width s) (ps_height s)) (map dr_rect rs) \<and>
    (\<forall>j<num_pixels s. \<not> in_rects s (map dr_rect rs) j \<longrightarrow> surface_pixel s' j = surface_pixel s j)"
proof -
  let ?W = "ps_width s" and ?H = "ps_height s" and ?b = "bytes_per_pixel s"
  have v: "validate_regions ?W ?H ?b rs = Inr ()"
    using assms(2) by (auto simp: apply_regions_atomic_def Let_def split: sum.splits)
  then have ok: "\<forall>r\<in>set rs. region_ok ?W ?H ?b r"
    using validate_regions_iff [OF assms(1), of rs] by (simp add: list_all_iff)
  have s': "s' = s\<lparr>ps_pixels := fold (blit_region ?W ?b) rs (ps_pixels s)\<rparr>"
    using assms(2) v by (simp add: apply_regions_atomic_def Let_def apply_region_eq_blit_region)
  have len: "length (ps_pixels s) = ?W * ?H * ?b" by (rule surface_okD(6) [OF assms(1)])
  have len': "length (ps_pixels s') = num_pixels s * ?b"
    using fold_blit_length [OF ok len] len by (simp add: s' num_pixels_def)
  have "surface_pixel s' j = surface_pixel s j"
    if j: "j < num_pixels s" and out: "\<not> in_rects s (map dr_rect rs) j" for j
  proof -
    have p: "j mod ?W < ?W" "j div ?W < ?H" using j position_less [of j ?W ?H] by (simp_all add: num_pixels_def)
    have "ps_pixels s' ! (j * ?b + k) = ps_pixels s ! (j * ?b + k)" if "k < ?b" for k
      using fold_blit_outside [OF ok len p that] out by (simp add: s' in_rects_def)
    then have "pixel_at ?b (ps_pixels s') j = pixel_at ?b (ps_pixels s) j"
      using pixel_at_eq_iff [OF len' surface_length [OF assms(1)] j] by simp
    then show ?thesis by (simp add: surface_pixel_def s' bytes_per_pixel_def)
  qed
  moreover have "surface_ok s'"
    unfolding s' using fold_blit_length [OF ok len] len by (intro surface_ok_pixels [OF assms(1)]) simp
  moreover have "same_geometry s' s" by (simp add: s' same_geometry_def)
  ultimately show ?thesis using ok by (auto simp: list_all_iff region_ok_def)
qed

lemma apply_regions_Inl: "apply_regions_atomic s rs = (Inl e, s') \<Longrightarrow> s' = s"
  by (auto simp: apply_regions_atomic_def Let_def split: sum.splits)

lemma commit_Inl: "commit_timed frame cls now us obs c = (Inl e, c') \<Longrightarrow> c' = c"
  by (auto simp: commit_timed_def Let_def split: if_splits prod.splits sum.splits dest!: apply_regions_Inl)

text \<open>What a successful commit does.\<close>

definition committed :: "validated_frame \<Rightarrow> nat \<Rightarrow> display_core \<Rightarrow> display_core \<Rightarrow> bool" where
  "committed frame now c c' \<longleftrightarrow>
     (\<exists>b u q. apply_regions_atomic (dc_base c) (vf_regions frame) = (Inr u, b) \<and>
       c' = c\<lparr>dc_base := b, dc_logical_frame_id := vf_frame_id frame, dc_base_valid := True,
              dc_pending := Some q\<rparr> \<and>
       pd_frame_id q = vf_frame_id frame \<and> pd_intent q = vf_intent frame \<and> pd_accepted_at q = now \<and>
       pd_decoded_bytes q = vf_decoded_bytes frame \<and>
       pd_damage_hint q = map dr_rect (vf_regions frame) @
         (case dc_pending c of None \<Rightarrow> [] | Some p \<Rightarrow> pd_damage_hint p) \<and>
       (pd_force_full_damage q \<longleftrightarrow> (case dc_pending c of None \<Rightarrow> False | Some p \<Rightarrow> pd_force_full_damage p) \<or>
         vf_base_frame_id frame = 0 \<and> (dc_presented_frame_id c = 0 \<or> \<not> dc_base_valid c)) \<and>
       (pd_force_cleanup q \<longleftrightarrow> (case dc_pending c of None \<Rightarrow> False | Some p \<Rightarrow> pd_force_cleanup p) \<or>
         vf_base_frame_id frame = 0 \<and> dc_panel_state_uncertain c)) \<and>
     \<not> pending_is_settled c \<and> vf_frame_id frame \<noteq> 0 \<and> dc_logical_frame_id c < vf_frame_id frame \<and>
     vf_pixel_format frame = ps_format (dc_base c) \<and>
     (vf_base_frame_id frame = 0 \<or> dc_base_valid c \<and> vf_base_frame_id frame = dc_logical_frame_id c)"

lemma commit_Inr:
  assumes "commit_timed frame cls now us obs c = (Inr rep, c')"
  shows "committed frame now c c' \<and> report_logical_frame_id rep = vf_frame_id frame \<and>
    (case dc_pending c of
       None \<Rightarrow> report_superseded rep = None
     | Some old \<Rightarrow> (\<exists>t. report_superseded rep = Some t \<and> tf_frame_id t = pd_frame_id old \<and>
         tf_outcome t = Superseded))"
  using assms
  by (auto simp: commit_timed_def committed_def Let_def split: if_splits prod.splits sum.splits option.splits)

lemma committed_fields:
  assumes "committed frame now c c'"
  shows "dc_base_valid c' \<and> dc_logical_frame_id c' = vf_frame_id frame \<and> dc_ink c' = dc_ink c \<and>
    dc_last_present_at c' = dc_last_present_at c \<and>
    (\<exists>q. dc_pending c' = Some q \<and> pd_frame_id q = vf_frame_id frame \<and> pd_intent q = vf_intent frame \<and>
      pd_accepted_at q = now)"
  using assms unfolding committed_def by (elim exE conjE) simp

lemma committed_ok:
  assumes "core_ok c" and "committed frame now c c'"
  shows "core_ok c' \<and> dc_working c' = dc_working c \<and> dc_presented c' = dc_presented c \<and>
    dc_presented_frame_id c' = dc_presented_frame_id c \<and> fits c (dc_base c') \<and>
    (\<forall>j<core_pixels c. \<not> in_rects (dc_base c) (map dr_rect (vf_regions frame)) j \<longrightarrow>
      surface_pixel (dc_base c') j = surface_pixel (dc_base c) j)"
proof -
  from assms(2) obtain b u q where
    b: "apply_regions_atomic (dc_base c) (vf_regions frame) = (Inr u, b)"
    and c': "c' = c\<lparr>dc_base := b, dc_logical_frame_id := vf_frame_id frame, dc_base_valid := True,
              dc_pending := Some q\<rparr>" and id: "vf_frame_id frame \<noteq> 0" "pd_frame_id q = vf_frame_id frame"
    and hint: "pd_damage_hint q = map dr_rect (vf_regions frame) @
         (case dc_pending c of None \<Rightarrow> [] | Some p \<Rightarrow> pd_damage_hint p)"
    unfolding committed_def by blast
  note ok = core_okD [OF assms(1)] and s = apply_regions_outside [OF core_okD(1) [OF assms(1)] b]
  have geo: "ps_width b = core_width c" "ps_height b = core_height c" "num_pixels b = core_pixels c"
    using s by (auto simp: same_geometry_def num_pixels_def)
  have fb: "fits c b" using s by (simp add: fits_def)
  have "surfaces_ok c'"
    using assms(1) s by (auto simp: core_ok_def surfaces_ok_def c' same_geometry_def)
  moreover have "planes_ok c'"
    using assms(1) geo by (simp add: core_ok_def planes_ok_def c')
  moreover have "pending_ok c'"
    using assms(1) s hint id geo
    by (auto simp: core_ok_def pending_ok_def c' rects_ok_def split: option.splits)
  moreover have "rects_ok c' (dc_settle_damage c')"
    using assms(1) geo by (simp add: core_ok_def rects_ok_def c')
  ultimately have "core_ok c'" by (simp add: core_ok_def)
  then show ?thesis using s fb by (simp add: c')
qed

section \<open>Stale pixels\<close>

text \<open>
  \<open>stale c j\<close>: the bookkeeping still has to present pixel \<open>j\<close>, because the pending frame
  may have changed it or unpresented ink lies on it. \<open>fresh\<close>: every other pixel of the
  presented image is the composition, unless the base was invalidated.
\<close>

definition ink_stale :: "display_core \<Rightarrow> nat \<Rightarrow> bool" where
  "ink_stale c j = (case ov_dirty (dc_ink c) of None \<Rightarrow> False | Some d \<Rightarrow> in_rect (core_width c) d j)"

definition stale :: "display_core \<Rightarrow> nat \<Rightarrow> bool" where
  "stale c j \<longleftrightarrow> ink_stale c j \<or>
     (case dc_pending c of None \<Rightarrow> False
      | Some p \<Rightarrow> pd_force_full_damage p \<or> in_rects (dc_base c) (pd_damage_hint p) j)"

definition fresh :: "display_core \<Rightarrow> bool" where
  "fresh c \<longleftrightarrow> (dc_base_valid c \<longrightarrow>
     (\<forall>j<core_pixels c. \<not> stale c j \<longrightarrow> surface_pixel (dc_presented c) j = composite_pixel c j))"

text \<open>Before the first presentation every pending frame is forced to refresh the whole panel.\<close>

definition first_frame_full :: "display_core \<Rightarrow> bool" where
  "first_frame_full c \<longleftrightarrow> (dc_presented_frame_id c = 0 \<longrightarrow>
     (case dc_pending c of None \<Rightarrow> \<not> dc_base_valid c | Some p \<Rightarrow> pd_force_full_damage p))"

lemma fresh_committed:
  assumes "core_ok c" and "fresh c" and "committed frame now c c'"
  shows "fresh c'"
  unfolding fresh_def
proof (intro impI allI)
  fix j assume j: "j < core_pixels c'" and st: "\<not> stale c' j"
  note cm = committed_ok [OF assms(1,3)]
  from assms(3) obtain b q where
    c': "c' = c\<lparr>dc_base := b, dc_logical_frame_id := vf_frame_id frame, dc_base_valid := True,
              dc_pending := Some q\<rparr>"
    and hint: "pd_damage_hint q = map dr_rect (vf_regions frame) @
         (case dc_pending c of None \<Rightarrow> [] | Some p \<Rightarrow> pd_damage_hint p)"
    and full: "pd_force_full_damage q \<longleftrightarrow> (case dc_pending c of None \<Rightarrow> False | Some p \<Rightarrow> pd_force_full_damage p) \<or>
         vf_base_frame_id frame = 0 \<and> (dc_presented_frame_id c = 0 \<or> \<not> dc_base_valid c)"
    and base: "vf_base_frame_id frame = 0 \<or> dc_base_valid c \<and> vf_base_frame_id frame = dc_logical_frame_id c"
    unfolding committed_def by blast
  have geo: "fits c b" using cm c' by simp
  note fb = fitsD [OF geo]
  have nf: "\<not> pd_force_full_damage q" "\<not> in_rects (dc_base c) (pd_damage_hint q) j" "\<not> ink_stale c j"
    using st fb(5,7) by (auto simp: stale_def ink_stale_def c' split: option.splits)
  then have valid: "dc_base_valid c" using full base by auto
  have "\<not> stale c j" using nf full hint by (auto simp: stale_def in_rects_def split: option.splits)
  moreover have jc: "j < core_pixels c" using j fb(3) by (simp add: c')
  ultimately have "surface_pixel (dc_presented c) j = composite_pixel c j"
    using assms(2) valid by (simp add: fresh_def)
  moreover have "surface_pixel b j = surface_pixel (dc_base c) j"
    using cm jc nf(2) hint by (auto simp: c' in_rects_def)
  ultimately show "surface_pixel (dc_presented c') j = composite_pixel c' j"
    using fb(4) by (simp add: c' composite_pixel_def)
qed

lemma first_frame_full_committed:
  assumes "first_frame_full c" and "committed frame now c c'"
  shows "first_frame_full c'"
  using assms by (auto simp: first_frame_full_def committed_def split: option.splits)

section \<open>Ticking\<close>

lemma stale_tick_regions:
  assumes "dc_pending c = Some pending" and "j < core_pixels c"
    and "\<not> in_rects (dc_base c) (tick_regions pending c) j"
  shows "stale c j \<longleftrightarrow> ink_stale c j"
  using assms in_full [OF assms(2)]
  by (auto simp: stale_def tick_regions_def in_rects_def split: if_splits)

lemma fresh_tick:
  assumes "core_ok c" and "fresh c" and "first_frame_full c" and "tick_outcome backend c p ts c' p'"
  shows "fresh c' \<and> first_frame_full c'"
proof -
  consider "c' = c" | pending where "dc_pending c = Some pending" "failed_as c pending ts c'"
    | pending w damage where "dc_pending c = Some pending" "composed_for c pending w damage"
        "presented_as c pending w ts c'"
    using assms(4) unfolding tick_outcome_def by blast
  then show ?thesis
  proof cases
    case 1
    then show ?thesis using assms by simp
  next
    case 2
    then show ?thesis by (simp add: failed_as_def fresh_def first_frame_full_def)
  next
    case 3
    note pres = 3(3) [unfolded presented_as_def]
    have valid: "dc_base_valid c" "pd_frame_id pending \<noteq> 0"
      using assms(1) 3(1) by (simp_all add: core_ok_def pending_ok_def)
    have "surface_pixel w j = composite_pixel c j" if "j < core_pixels c" "\<not> ink_stale c j" for j
    proof (cases "in_rects (dc_base c) (tick_regions pending c) j")
      case True
      then show ?thesis using 3(2) that(1) by (simp add: composed_for_def)
    next
      case False
      have "\<not> stale c j" using stale_tick_regions [OF 3(1) that(1) False] that(2) by simp
      then have "surface_pixel (dc_presented c) j = composite_pixel c j"
        using assms(2) valid(1) that(1) by (simp add: fresh_def)
      then show ?thesis using 3(2) that(1) by (auto simp: composed_for_def)
    qed
    moreover have "composite_pixel c' j = composite_pixel c j" "ink_stale c' j = ink_stale c j" for j
      using pres by (simp_all add: composite_pixel_def ink_stale_def split: option.splits)
    ultimately have "fresh c'"
      using pres by (simp add: fresh_def stale_def)
    moreover have "first_frame_full c'" using pres valid(2) by (simp add: first_frame_full_def)
    ultimately show ?thesis ..
  qed
qed

text \<open>A due tick always finishes the pending frame with one terminal result.\<close>

lemma tick_inner_due:
  assumes "core_ok c" and "dc_working c = dc_presented c" and "dc_pending c = Some pending"
    and "ig \<or> (\<exists>deadline. next_deadline c = Some deadline \<and> deadline \<le> now)"
    and "tick_inner backend now ig obs c p = (r, c', p')"
  shows "\<exists>t. r = Inr [t] \<and> tf_frame_id t = pd_frame_id pending \<and>
    tf_outcome t \<in> {Presented, BackendFailure} \<and> dc_pending c' = None"
proof -
  obtain deadline where dl: "next_deadline c = Some deadline"
    using assms(3) by (simp add: next_deadline_def Let_def)
  have due: "\<not> (\<not> ig \<and> now < deadline)" using assms(4) dl by auto
  obtain res q where pump: "panel_pump backend p = (res, q)" by (rule prod.exhaust)
  show ?thesis
  proof (cases res)
    case (Inl e)
    then show ?thesis using assms(3,5) dl due pump by (auto simp: tick_inner_def)
  next
    case (Inr u)
    let ?c = "c\<lparr>dc_pending := None\<rparr>"
    have tick: "tick_present backend pending now obs ?c q = (r, c', p')"
      using assms(3,5) dl due pump Inr by (auto simp: tick_inner_def)
    have "rects_ok ?c (pd_damage_hint pending)"
      using core_ok_pending [OF assms(1,3)] by (simp add: rects_ok_def)
    then obtain ts w damage decision where "r = Inr ts"
      "presented_as c pending w ts c' \<or> failed_as c pending ts c'"
      using tick_present_spec [OF core_ok_take_pending [OF assms(1)] _ _ _ tick] assms(2)
      unfolding take_pending_simps by auto
    then show ?thesis by (auto simp: presented_as_def failed_as_def)
  qed
qed

section \<open>Presenting local planes\<close>

lemma in_rects_nil: "\<not> in_rects s [] j"
  by (simp add: in_rects_def)

lemma in_rects_single: "in_rects s [r] j \<longleftrightarrow> in_rect (ps_width s) r j"
  by (simp add: in_rects_eq)

lemma blend_planes_spec:
  assumes "core_ok c" and "rect_ok (core_width c) (core_height c) d"
  shows "\<exists>w. blend_planes [d] c = (Inr (), c\<lparr>dc_working := w\<rparr>) \<and> fits c w \<and>
    (\<forall>j<core_pixels c. surface_pixel w j =
      (if in_rects (dc_base c) [d] j then composite_pixel c j else surface_pixel (dc_working c) j))"
proof -
  note ok = core_okD [OF assms(1)]
  let ?in = "in_rects (dc_base c) [d]" and ?mix = "mix_pixel (ps_format (dc_base c))"
  have blend: "\<exists>t. blend_regions s ov [d] = (Inr (), t) \<and> fits c t \<and>
      (\<forall>j<core_pixels c. surface_pixel t j =
        (if ?in j then ?mix ov j (surface_pixel s j) else surface_pixel s j))"
    if s: "fits c s" and ov: "overlay_ok (core_pixels c) ov" for s ov
  proof -
    note f = fitsD [OF s]
    have "overlay_ok (num_pixels s) ov" "rect_ok (ps_width s) (ps_height s) d"
      using ov assms(2) f(3,5,6) by simp_all
    from blend_region_pixels [OF f(1) this] obtain t where t: "blend_regions s ov [d] = (Inr (), t)"
      "surface_ok t" "same_geometry t s" "\<forall>j<num_pixels s. surface_pixel t j =
       (if in_rects s [d] j then mix_pixel (ps_format s) ov j (surface_pixel s j) else surface_pixel s j)"
      by blast
    moreover have "fits c t" using t(2,3) f(2) by (auto simp: fits_def same_geometry_def)
    ultimately show ?thesis using f(3,4,7) by simp
  qed
  have one: "list_all (rect_ok (core_width c) (core_height c)) [d]" using assms(2) by simp
  obtain a where a: "copy_regions_from (dc_working c) (dc_base c) [d] = (Inr (), a)" "surface_ok a"
    "same_geometry a (dc_base c)" "\<forall>j<core_pixels c. surface_pixel a j =
       (if ?in j then surface_pixel (dc_base c) j else surface_pixel (dc_working c) j)"
    using copy_regions_pixels [OF ok(1) fitsD(1) [OF ok(4)] fitsD(2) [OF ok(4)] one] by blast
  have fa: "fits c a" using a(2,3) by (simp add: fits_def)
  obtain b where b: "blend_regions a (dc_peer_overlay c) [d] = (Inr (), b)" "fits c b"
    "\<forall>j<core_pixels c. surface_pixel b j =
       (if ?in j then ?mix (dc_peer_overlay c) j (surface_pixel a j) else surface_pixel a j)"
    using blend [OF fa ok(7)] by blast
  obtain e where e: "blend_regions b (dc_ink c) [d] = (Inr (), e)" "fits c e"
    "\<forall>j<core_pixels c. surface_pixel e j =
       (if ?in j then ?mix (dc_ink c) j (surface_pixel b j) else surface_pixel b j)"
    using blend [OF b(2) ok(8)] by blast
  obtain w where w: "blend_regions e (dc_overlay c) [d] = (Inr (), w)" "fits c w"
    "\<forall>j<core_pixels c. surface_pixel w j =
       (if ?in j then ?mix (dc_overlay c) j (surface_pixel e j) else surface_pixel e j)"
    using blend [OF e(2) ok(6)] by blast
  have "surface_pixel w j = (if ?in j then composite_pixel c j else surface_pixel (dc_working c) j)"
    if "j < core_pixels c" for j
    using that a(4) b(3) e(3) w(3) by (simp add: composite_pixel_def)
  then show ?thesis using a(1) b(1) e(1) w(1,2)
    by (intro exI [of _ w] conjI) (simp_all add: blend_planes_def)
qed

text \<open>The row comparison of the ink path is the row comparison of tile damage.\<close>

lemma ink_rows_differ:
  "list_ex (\<lambda>y. let left = y * (W * b) + x * b
      in slice cur left (w * b) \<noteq> slice prev left (w * b)) [y0..<y0 + h] =
   rows_differ prev cur W b x y0 w h"
proof -
  have rows: "[y0..<y0 + h] = map (\<lambda>row. y0 + row) [0..<h]"
    using map_add_upt [of y0 h] by (simp add: add.commute)
  have shift: "list_ex P [y0..<y0 + h] = list_ex (\<lambda>row. P (y0 + row)) [0..<h]" for P
    unfolding rows list_ex_iff set_map by blast
  have idx: "(y0 + row) * (W * b) + x * b = ((y0 + row) * W + x) * b" for row
    by (simp add: algebra_simps)
  show ?thesis unfolding shift rows_differ_def Let_def idx
    by (intro arg_cong [of _ _ "\<lambda>P. list_ex P [0..<h]"] ext) auto
qed

lemma plane_damage_spec:
  assumes "core_ok c" and "rect_ok (core_width c) (core_height c) d"
    and "\<forall>j<core_pixels c. \<not> in_rects (dc_base c) [d] j \<longrightarrow>
      surface_pixel (dc_working c) j = surface_pixel (dc_presented c) j"
  shows "rects_ok c (plane_damage intent [d] c) \<and>
    agrees_off c (dc_presented c) (plane_damage intent [d] c)"
proof -
  note ok = core_okD [OF assms(1)] and w = fitsD [OF core_okD(4) [OF assms(1)]]
  have d: "rect_ok (ps_width (dc_working c)) (ps_height (dc_working c)) d" using assms(2) w(5,6) by simp
  have off: "surface_pixel (dc_working c) j = surface_pixel (dc_presented c) j"
    if "j < core_pixels c" "\<not> in_rects (dc_base c) (plane_damage intent [d] c) j" for j
  proof (rule ccontr)
    assume ne: "surface_pixel (dc_working c) j \<noteq> surface_pixel (dc_presented c) j"
    then have ind: "in_rects (dc_base c) [d] j" using assms(3) that(1) by blast
    let ?x = "j mod core_width c" and ?y = "j div core_width c"
    have inside: "inside d ?x ?y" using ind by (simp add: in_rects_def)
    have ch: "pixel_changed (dc_presented c) (dc_working c) ?x ?y"
      using ne w(5) by (simp add: pixel_changed_def)
    have "covers (plane_damage intent [d] c) ?x ?y"
    proof (cases "intent = Latest")
      case True
      have "rows_differ (ps_pixels (dc_presented c)) (ps_pixels (dc_working c)) (core_width c)
          (bytes_per_pixel (dc_working c)) (rect_x d) (rect_y d) (rect_w d) (rect_h d)"
        using rows_differ_iff [OF fitsD(1) [OF ok(3)] w(1) fits_same [OF ok(3,4)] d] inside ch w(5) by auto
      then show ?thesis using True inside
        by (simp add: plane_damage_def Let_def ink_rows_differ [unfolded Let_def])
    next
      case False
      then show ?thesis
        using tile_damage_regions_covers [OF fitsD(1) [OF ok(3)] w(1) fits_same [OF ok(3,4)], of "[d]"] d inside ch
        by (simp add: plane_damage_def)
    qed
    then show False using that(2) by (simp add: in_rects_def)
  qed
  moreover have "rects_ok c (plane_damage intent [d] c)"
    using assms(2) tile_damage_regions_ok [OF w(1) fits_same [OF ok(3,4)], of "[d]"] d w(5,6)
    by (simp add: plane_damage_def rects_ok_def Let_def)
  ultimately show ?thesis by (simp add: agrees_off_def)
qed

lemma rects_ok_nil: "rects_ok c []"
  by (simp add: rects_ok_def)

lemma agrees_full: "agrees_off c s (full_damage (core_width c) (core_height c))"
  using in_full by (simp add: agrees_off_def)

lemma plane_success_spec:
  assumes "core_ok c" and "dc_pending c = None" and "rects_ok c damage"
    and "agrees_off c (dc_presented c) damage"
    and "plane_success now damage decision pm c = (r, c')"
  shows "r = Inr () \<and> core_ok c' \<and> dc_working c' = dc_working c \<and> dc_presented c' = dc_working c \<and>
    dc_base c' = dc_base c \<and> dc_overlay c' = dc_overlay c \<and> dc_peer_overlay c' = dc_peer_overlay c \<and>
    dc_ink c' = dc_ink c \<and> dc_pending c' = None \<and> dc_base_valid c' = dc_base_valid c \<and>
    dc_logical_frame_id c' = dc_logical_frame_id c \<and> dc_presented_frame_id c' = dc_presented_frame_id c"
proof -
  note ok = core_okD [OF assms(1)]
  have copy: "copy_regions_from (dc_presented c) (dc_working c) damage = (Inr (), dc_working c)"
    using assms(4) by (intro copy_back [OF ok(4,3) assms(3)]) (simp add: agrees_off_def)
  have small: "core_width c \<le> u32_max" "core_height c \<le> u32_max"
    using surface_okD(3,4) [OF ok(1)] by simp_all
  have settle: "list_all (rect_ok (core_width c) (core_height c))
      (merge_tiled_damage (core_width c) (core_height c) (dc_damage_tile c) (dc_settle_damage c) damage)"
    using ok(9) assms(3) by (intro merge_tiled_damage_ok [OF small]) (simp add: rects_ok_def)
  have f: "r = Inr () \<and> dc_working c' = dc_working c \<and> dc_presented c' = dc_working c \<and>
    dc_base c' = dc_base c \<and> dc_overlay c' = dc_overlay c \<and> dc_peer_overlay c' = dc_peer_overlay c \<and>
    dc_ink c' = dc_ink c \<and> dc_pending c' = None \<and> dc_base_valid c' = dc_base_valid c \<and>
    dc_logical_frame_id c' = dc_logical_frame_id c \<and> dc_presented_frame_id c' = dc_presented_frame_id c \<and>
    dc_presented_base c' = dc_presented_base c \<and> rects_ok c (dc_settle_damage c')"
    using assms(2,5) copy settle ok(9)
    by (auto simp: plane_success_def Let_def rects_ok_def split: if_splits)
  have "core_ok c'"
    by (rule core_ok_presented [OF assms(1,2) ok(4), where w = "dc_working c"]) (use f ok in simp_all)
  then show ?thesis using f by blast
qed

text \<open>
  Presenting one rectangle of the planes: either the panel rejects the submission and
  \<open>working\<close> is left changed, or \<open>presented\<close> becomes the image \<open>w\<close>.
\<close>

definition plane_image :: "display_core \<Rightarrow> rect \<Rightarrow> pixel_surface \<Rightarrow> rect list \<Rightarrow> bool" where
  "plane_image c d w damage \<longleftrightarrow> fits c w \<and> rects_ok c damage \<and>
     (\<forall>j<core_pixels c. surface_pixel w j =
        (if in_rects (dc_base c) [d] j then composite_pixel c j else surface_pixel (dc_presented c) j)) \<and>
     (\<forall>j<core_pixels c. \<not> in_rects (dc_base c) damage j \<longrightarrow>
        surface_pixel w j = surface_pixel (dc_presented c) j)"

lemma plane_present_spec:
  assumes "core_ok c" and "dc_pending c = None" and "dc_working c = dc_presented c"
    and "rect_ok (core_width c) (core_height c) d"
    and "plane_present backend now intent [d] c p = (r, c', p')"
  shows "\<exists>w damage decision. plane_image c d w damage \<and>
    (r = Inr () \<and> core_ok c' \<and> dc_working c' = w \<and> dc_presented c' = w \<and> dc_base c' = dc_base c \<and>
       dc_overlay c' = dc_overlay c \<and> dc_peer_overlay c' = dc_peer_overlay c \<and> dc_ink c' = dc_ink c \<and>
       dc_pending c' = None \<and> dc_base_valid c' = dc_base_valid c \<and>
       dc_logical_frame_id c' = dc_logical_frame_id c \<and>
       dc_presented_frame_id c' = dc_presented_frame_id c \<and>
       (damage = [] \<and> p' = p \<or> (\<exists>pm. panel_submit backend p w damage decision = (Inr pm, p'))) \<or>
     (\<exists>e. r = Inl (CorePanel e) \<and> c' = c\<lparr>dc_working := w\<rparr> \<and>
        panel_submit backend p w damage decision = (Inl e, p')))"
proof -
  obtain w where w: "blend_planes [d] c = (Inr (), c\<lparr>dc_working := w\<rparr>)" "fits c w"
    "\<forall>j<core_pixels c. surface_pixel w j =
      (if in_rects (dc_base c) [d] j then composite_pixel c j else surface_pixel (dc_working c) j)"
    using blend_planes_spec [OF assms(1,4)] by blast
  let ?c1 = "c\<lparr>dc_working := w\<rparr>"
  have c1: "core_ok ?c1" by (rule core_ok_working [OF assms(1) w(2)])
  let ?d0 = "plane_damage intent [d] ?c1"
  have d0: "rects_ok ?c1 ?d0" "agrees_off ?c1 (dc_presented ?c1) ?d0"
    using plane_damage_spec [OF c1, of d intent] assms(3,4) w(3) by simp_all
  show ?thesis
  proof (cases "?d0 = []")
    case True
    have eq: "w = dc_presented c"
      using agrees_nothing [of ?c1 "dc_presented c"] d0(2) True w(2) core_okD(3) [OF assms(1)]
      by (simp add: fits_def)
    have r: "r = Inr ()" "c' = ?c1" "p' = p" using assms(5) w(1) True by (simp_all add: plane_present_def)
    have img: "plane_image c d w []"
      unfolding plane_image_def using w(2,3) assms(3) eq rects_ok_nil [of c] by metis
    have "core_ok c' \<and> dc_working c' = w \<and> dc_presented c' = w \<and> dc_base c' = dc_base c \<and>
        dc_overlay c' = dc_overlay c \<and> dc_peer_overlay c' = dc_peer_overlay c \<and> dc_ink c' = dc_ink c \<and>
        dc_pending c' = None \<and> dc_base_valid c' = dc_base_valid c \<and>
        dc_logical_frame_id c' = dc_logical_frame_id c \<and>
        dc_presented_frame_id c' = dc_presented_frame_id c"
      using c1 eq [symmetric] assms(2) by (simp add: r(2))
    then show ?thesis using r(1,3) img by blast
  next
    case False
    let ?dec = "plane_decision intent ?d0 ?c1"
    let ?dm = "damage_for_decision ?dec (core_width c) (core_height c) ?d0"
    have dm: "rects_ok ?c1 ?dm" "agrees_off ?c1 (dc_presented ?c1) ?dm"
      using d0 full_rects_ok [OF core_okD(1) [OF assms(1)]] agrees_full [of ?c1 "dc_presented c"]
      by (auto simp: damage_for_decision_def full_damage_def)
    have img: "plane_image c d w ?dm"
      using w(2,3) dm assms(3) by (auto simp: plane_image_def agrees_off_def)
    obtain res q where sub: "panel_submit backend p w ?dm ?dec = (res, q)" by (rule prod.exhaust)
    show ?thesis
    proof (cases res)
      case (Inl e)
      then have "r = Inl (CorePanel e)" "c' = ?c1" "p' = q"
        using assms(5) w(1) False sub by (simp_all add: plane_present_def Let_def)
      then show ?thesis using img sub Inl by blast
    next
      case (Inr pm)
      obtain r2 c2 where succ: "plane_success now ?dm ?dec pm ?c1 = (r2, c2)" by (rule prod.exhaust)
      then have r: "r = map_err CoreSurface r2" "c' = c2" "p' = q"
        using assms(5) w(1) False sub Inr by (simp_all add: plane_present_def Let_def)
      have none: "dc_pending ?c1 = None" using assms(2) by simp
      note s = plane_success_spec [OF c1 none dm succ]
      have ok': "r = Inr ()" using r(1) conjunct1 [OF s] by (simp add: map_err_def)
      have "core_ok c' \<and> dc_working c' = w \<and> dc_presented c' = w \<and> dc_base c' = dc_base c \<and>
          dc_overlay c' = dc_overlay c \<and> dc_peer_overlay c' = dc_peer_overlay c \<and> dc_ink c' = dc_ink c \<and>
          dc_pending c' = None \<and> dc_base_valid c' = dc_base_valid c \<and>
          dc_logical_frame_id c' = dc_logical_frame_id c \<and>
          dc_presented_frame_id c' = dc_presented_frame_id c"
        using conjunct2 [OF s] unfolding r(2) by simp
      moreover have "\<exists>pm. panel_submit backend p w ?dm ?dec = (Inr pm, p')" using sub Inr r(3) by simp
      ultimately show ?thesis using ok' img by blast
    qed
  qed
qed

definition plane_target :: "frame_intent \<Rightarrow> display_core \<Rightarrow> rect option" where
  "plane_target intent c = (if intent = Latest then ov_dirty (dc_ink c)
     else Some (mk_rect 0 0 (core_width c) (core_height c)))"

definition plane_taken :: "frame_intent \<Rightarrow> display_core \<Rightarrow> display_core" where
  "plane_taken intent c = (if intent = Latest then c\<lparr>dc_ink := (dc_ink c)\<lparr>ov_dirty := None\<rparr>\<rparr> else c)"

lemma plane_taken_ok:
  assumes "core_ok c" and "dc_pending c = None" and "dc_working c = dc_presented c"
  shows "core_ok (plane_taken intent c) \<and> dc_pending (plane_taken intent c) = None \<and>
    dc_working (plane_taken intent c) = dc_presented (plane_taken intent c)"
  using assms
  by (auto simp: plane_taken_def core_ok_def surfaces_ok_def planes_ok_def pending_ok_def rects_ok_def
      overlay_ok_def dirty_ok_def)

lemma plane_target_ok:
  "core_ok c \<Longrightarrow> plane_target intent c = Some d \<Longrightarrow> rect_ok (core_width c) (core_height c) d"
  using surface_okD(1,2) [OF core_okD(1)]
  by (auto simp: plane_target_def core_ok_def planes_ok_def dirty_ok_def surfaces_ok_def split: if_splits)

lemma present_plane_split:
  assumes "core_ok c" and "dc_working c = dc_presented c"
    and "present_plane backend now intent obs c p = (r, c', p')"
  shows "\<exists>ts c1 p1. tick_outcome backend c p ts c1 p1 \<and> dc_pending c1 = None \<and>
    (case plane_target intent c1 of
       None \<Rightarrow> r = Inr ts \<and> c' = plane_taken intent c1 \<and> p' = p1
     | Some d \<Rightarrow> \<exists>r2. plane_present backend now intent [d] (plane_taken intent c1) p1 = (r2, c', p') \<and>
         r = and_then r2 (\<lambda>_. Inr ts))"
proof -
  obtain tr c1 p1 where fl: "(if dc_pending c \<noteq> None then tick_inner backend now True obs c p else (Inr [], c, p)) =
      (tr, c1, p1)" by (metis prod_cases3)
  have flushed: "\<exists>ts. tr = Inr ts \<and> tick_outcome backend c p ts c1 p1 \<and> dc_pending c1 = None"
  proof (cases "dc_pending c")
    case None
    then show ?thesis using fl assms(1,2) by (simp add: tick_outcome_def)
  next
    case (Some pending)
    then have t: "tick_inner backend now True obs c p = (tr, c1, p1)" using fl by simp
    from tick_inner_spec [OF assms(1,2) t] tick_inner_due [OF assms(1,2) Some _ t]
    show ?thesis by auto
  qed
  then obtain ts where ts: "tr = Inr ts" "tick_outcome backend c p ts c1 p1" "dc_pending c1 = None" by blast
  have "case plane_target intent c1 of
       None \<Rightarrow> r = Inr ts \<and> c' = plane_taken intent c1 \<and> p' = p1
     | Some d \<Rightarrow> \<exists>r2. plane_present backend now intent [d] (plane_taken intent c1) p1 = (r2, c', p') \<and>
         r = and_then r2 (\<lambda>_. Inr ts)"
    using assms(3) fl ts(1)
    by (auto simp: present_plane_def plane_target_def plane_taken_def take_dirty_def full_damage_def
        Let_def split: if_splits option.splits prod.splits)
  then show ?thesis using ts by blast
qed

section \<open>Editing the planes\<close>

definition planes_edit :: "(display_core \<Rightarrow> display_core) \<Rightarrow> display_core \<Rightarrow> bool" where
  "planes_edit f c \<longleftrightarrow> (\<exists>ov peer ink. f c = c\<lparr>dc_overlay := ov, dc_peer_overlay := peer, dc_ink := ink\<rparr> \<and>
     overlay_ok (core_pixels c) ov \<and> overlay_ok (core_pixels c) peer \<and> overlay_ok (core_pixels c) ink \<and>
     dirty_ok (core_width c) (core_height c) ink)"

lemma planes_edit_ok: "core_ok c \<Longrightarrow> planes_edit f c \<Longrightarrow> core_ok (f c)"
  by (auto simp: planes_edit_def core_ok_def surfaces_ok_def planes_ok_def pending_ok_def rects_ok_def
      split: option.splits)

text \<open>One pen segment, as the session draws it: both ends are clamped to the surface.\<close>

definition draw_ink :: "nat \<times> nat \<Rightarrow> nat \<times> nat \<Rightarrow> nat \<Rightarrow> bool \<Rightarrow> display_core \<Rightarrow> display_core" where
  "draw_ink a b radius erase c = edit_ink (ink_line (core_width c) a b radius erase) c"

lemma draw_ink_edit:
  assumes "core_ok c" and "fst a < core_width c" "fst b < core_width c"
    "snd a < core_height c" "snd b < core_height c"
  shows "planes_edit (draw_ink a b radius erase) c"
proof -
  note ok = core_okD [OF assms(1)]
  let ?W = "core_width c" and ?H = "core_height c"
  have W: "0 < ?W" using assms(2) by simp
  have ink: "overlay_ok (?W * ?H) (dc_ink c)" using ok(8) by (simp add: num_pixels_def)
  have H: "overlay_len (dc_ink c) div ?W = ?H" using ink W by (simp add: overlay_ok_def overlay_len_def)
  have old: "case ov_dirty (dc_ink c) of None \<Rightarrow> True | Some d \<Rightarrow> rect_ok ?W ?H d"
    using assms(1) by (simp add: core_ok_def planes_ok_def dirty_ok_def)
  have "dirty_ok ?W ?H (ink_line ?W a b radius erase (dc_ink c))"
    using ink_dirty_ok [OF assms(2-5) old] by (simp add: dirty_ok_def ink_line_planes H)
  then show ?thesis
    using ink_line_ok [OF ink W] ok(6,7)
    unfolding planes_edit_def draw_ink_def edit_ink_def num_pixels_def
    by (intro exI [of _ "dc_overlay c"] exI [of _ "dc_peer_overlay c"]
        exI [of _ "ink_line ?W a b radius erase (dc_ink c)"]) simp
qed

lemma mix_pixel_cong:
  "ov_luma a ! j = ov_luma b ! j \<Longrightarrow> ov_alpha a ! j = ov_alpha b ! j \<Longrightarrow> mix_pixel fmt a j v = mix_pixel fmt b j v"
  by (simp add: mix_pixel_def split: pixel_format.splits)

lemma fresh_draw_ink:
  assumes "core_ok c" and "fresh c" and "fst a < core_width c" "fst b < core_width c"
    "snd a < core_height c" "snd b < core_height c"
  shows "fresh (draw_ink a b radius erase c)"
  unfolding fresh_def
proof (intro impI allI)
  let ?W = "core_width c" and ?H = "core_height c" and ?ink = "ink_line (core_width c) a b radius erase (dc_ink c)"
  note ok = core_okD [OF assms(1)]
  have W: "0 < ?W" using assms(3) by simp
  have ink: "overlay_ok (?W * ?H) (dc_ink c)" using ok(8) by (simp add: num_pixels_def)
  have H: "overlay_len (dc_ink c) div ?W = ?H" using ink W by (simp add: overlay_ok_def overlay_len_def)
  have old: "case ov_dirty (dc_ink c) of None \<Rightarrow> True | Some d \<Rightarrow> rect_ok ?W ?H d"
    using assms(1) by (simp add: core_ok_def planes_ok_def dirty_ok_def)
  fix j assume valid: "dc_base_valid (draw_ink a b radius erase c)"
    and j: "j < core_pixels (draw_ink a b radius erase c)" and st: "\<not> stale (draw_ink a b radius erase c) j"
  have jn: "j < ?W * ?H" using j by (simp add: draw_ink_def edit_ink_def num_pixels_def)
  have out: "\<not> in_rect ?W (ink_dirty ?W ?H a b radius (ov_dirty (dc_ink c))) j"
    using st by (simp add: stale_def ink_stale_def draw_ink_def edit_ink_def ink_line_planes H)
  then have "\<not> in_rect ?W (ink_dirty ?W ?H a b radius None) j"
    using ink_dirty_ok [OF assms(3-6) old] by (auto simp: in_rect_def)
  then have "\<not> inked ?W a b radius j" using inked_in_dirty jn by blast
  note same = ink_line_planes_outside [OF ink W jn this, of erase]
  have "\<not> ink_stale c j"
    using out ink_dirty_ok [OF assms(3-6) old] by (auto simp: ink_stale_def in_rect_def split: option.splits)
  then have "\<not> stale c j" using st
    by (auto simp: stale_def draw_ink_def edit_ink_def split: option.splits)
  then have "surface_pixel (dc_presented c) j = composite_pixel c j"
    using assms(2) valid jn by (simp add: fresh_def draw_ink_def edit_ink_def num_pixels_def)
  then show "surface_pixel (dc_presented (draw_ink a b radius erase c)) j =
      composite_pixel (draw_ink a b radius erase c) j"
    using mix_pixel_cong [of ?ink j "dc_ink c", OF same]
    by (simp add: draw_ink_def edit_ink_def composite_pixel_def)
qed

section \<open>The display as a state machine\<close>

text \<open>
  One step is one public operation of \<open>DisplayCore\<close> with the panel it is given. Plane edits
  happen together with the presentation that the session performs after them. Presenting a plane is
  a step when it returns \<open>Ok\<close>; what its error path leaves behind is the subject of
  \<open>Display_Faults\<close>. Abandoning a pending frame (\<open>cancel_pending\<close>) is not a step: its
  callers drop the core.
\<close>

inductive display_step ::
  "'p panel_backend \<Rightarrow> display_core \<times> 'p \<Rightarrow> display_core \<times> 'p \<Rightarrow> bool" for backend where
  commit_step: "commit_timed frame cls now us obs c = (res, c') \<Longrightarrow> display_step backend (c, p) (c', p)"
| tick_step: "tick_interactive backend now idle obs c p = (res, c', p') \<Longrightarrow>
    display_step backend (c, p) (c', p')"
| tick_quiet_step: "tick_without_idle_cleanup backend now obs c p = (res, c', p') \<Longrightarrow>
    display_step backend (c, p) (c', p')"
| cleanup_step: "request_cleanup backend now obs c p = (res, c', p') \<Longrightarrow>
    display_step backend (c, p) (c', p')"
| profile_step: "change_refresh_profile backend config now obs c p = (res, c', p') \<Longrightarrow>
    display_step backend (c, p) (c', p')"
| configure_step: "update_refresh_config config c = (res, c') \<Longrightarrow> display_step backend (c, p) (c', p)"
| debt_step: "restore_refresh_debt debt c = (res, c') \<Longrightarrow> display_step backend (c, p) (c', p)"
| require_step: "display_step backend (c, p) (require_cleanup c, p)"
| waveform_step: "display_step backend (c, p) (set_ink_waveform w c, p)"
| freeze_step: "freeze_presented c = (t, c') \<Longrightarrow> display_step backend (c, p) (c', p)"
| draw_step: "fst a < core_width c \<Longrightarrow> fst b < core_width c \<Longrightarrow> snd a < core_height c \<Longrightarrow>
    snd b < core_height c \<Longrightarrow> display_step backend (c, p) (draw_ink a b radius erase c, p)"
| ink_step: "present_ink backend now obs c p = (Inr ts, c', p') \<Longrightarrow> display_step backend (c, p) (c', p')"
| overlay_step: "planes_edit f c \<Longrightarrow> present_overlay backend now obs (f c) p = (Inr ts, c', p') \<Longrightarrow>
    display_step backend (c, p) (c', p')"

text \<open>The invariant of every run.\<close>

definition level :: "display_core \<Rightarrow> bool" where
  "level c \<longleftrightarrow> core_ok c \<and> dc_working c = dc_presented c \<and> first_frame_full c"

lemma level_policy:
  "level c \<Longrightarrow> level (c\<lparr>dc_refresh_policy := q\<rparr>)" "level c \<Longrightarrow> level (c\<lparr>dc_damage_tile := t\<rparr>)"
  "level c \<Longrightarrow> level (c\<lparr>dc_force_cleanup_next := b\<rparr>)" "level c \<Longrightarrow> level (c\<lparr>dc_ink_waveform := w\<rparr>)"
  "level c \<Longrightarrow> level (c\<lparr>dc_last_idle_cleanup_failure := f\<rparr>)"
  "fresh c \<Longrightarrow> fresh (c\<lparr>dc_refresh_policy := q\<rparr>)" "fresh c \<Longrightarrow> fresh (c\<lparr>dc_damage_tile := t\<rparr>)"
  "fresh c \<Longrightarrow> fresh (c\<lparr>dc_force_cleanup_next := b\<rparr>)" "fresh c \<Longrightarrow> fresh (c\<lparr>dc_ink_waveform := w\<rparr>)"
  "fresh c \<Longrightarrow> fresh (c\<lparr>dc_last_idle_cleanup_failure := f\<rparr>)"
  by (auto simp: level_def core_ok_def surfaces_ok_def planes_ok_def pending_ok_def rects_ok_def
      first_frame_full_def fresh_def stale_def ink_stale_def composite_pixel_def split: option.splits)

text \<open>What the panel shows, relative to the core.\<close>

definition panel_level :: "('p \<Rightarrow> pixel_surface) \<Rightarrow> display_core \<Rightarrow> 'p \<Rightarrow> bool" where
  "panel_level screen c p \<longleftrightarrow> fits c (screen p) \<and>
     (dc_presented_frame_id c \<noteq> 0 \<longrightarrow> screen p = dc_presented c)"

lemma fits_base: "same_geometry (dc_base c') (dc_base c) \<Longrightarrow> fits c' s = fits c s"
  by (auto simp: fits_def same_geometry_def)

lemma core_pixels_pos: "core_ok c \<Longrightarrow> 0 < core_pixels c"
  using surface_okD(1,2) [OF core_okD(1)] by (simp add: num_pixels_def)

lemma level_tick:
  assumes "level c" and "fresh c" and "tick_outcome backend c p ts c' p'"
  shows "level c' \<and> fresh c'"
  using assms fresh_tick [of c backend p ts c' p'] by (simp add: level_def tick_outcome_def)

lemma level_planes_edit:
  assumes "level c" and "planes_edit f c"
  shows "level (f c) \<and> dc_presented (f c) = dc_presented c \<and> dc_base (f c) = dc_base c \<and>
    dc_presented_frame_id (f c) = dc_presented_frame_id c"
  using assms planes_edit_ok [of c f]
  by (auto simp: level_def planes_edit_def first_frame_full_def split: option.splits)

lemma level_core_ok: "level c \<Longrightarrow> core_ok c"
  by (simp add: level_def)

text \<open>Presenting the planes makes every pixel of the target fresh.\<close>

lemma plane_success_fresh:
  assumes "level c" and "dc_pending c = None" and "plane_target intent c = Some d"
    and "plane_image (plane_taken intent c) d w damage"
    and "core_ok c'" "dc_working c' = w" "dc_presented c' = w" "dc_base c' = dc_base (plane_taken intent c)"
    "dc_overlay c' = dc_overlay (plane_taken intent c)"
    "dc_peer_overlay c' = dc_peer_overlay (plane_taken intent c)"
    "dc_ink c' = dc_ink (plane_taken intent c)" "dc_pending c' = None"
    "dc_base_valid c' = dc_base_valid (plane_taken intent c)"
    "dc_presented_frame_id c' = dc_presented_frame_id (plane_taken intent c)"
    and "intent = Latest \<Longrightarrow> fresh c"
  shows "level c' \<and> fresh c'"
proof -
  have base: "dc_base c' = dc_base c" "dc_base_valid c' = dc_base_valid c"
    "dc_presented_frame_id c' = dc_presented_frame_id c"
    using assms by (simp_all add: plane_taken_def)
  have ink: "composite_pixel c' j = composite_pixel (plane_taken intent c) j" for j
    using assms by (simp add: composite_pixel_def)
  have taken: "composite_pixel (plane_taken intent c) j = composite_pixel c j" for j
    using mix_pixel_cong [of "(dc_ink c)\<lparr>ov_dirty := None\<rparr>" j "dc_ink c"]
    by (simp add: composite_pixel_def plane_taken_def)
  have "surface_pixel w j = composite_pixel c j"
    if "dc_base_valid c" "j < core_pixels c" "\<not> stale c' j" for j
  proof (cases "in_rects (dc_base c) [d] j")
    case True
    then show ?thesis using assms(4) that(2) taken
      by (simp add: plane_image_def plane_taken_def split: if_splits)
  next
    case False
    have lat: "intent = Latest"
      using False assms(3) that(2) in_full [of j c]
      by (auto simp: plane_target_def full_damage_def split: if_splits)
    then have "\<not> stale c j"
      using False assms(2,3) by (auto simp: stale_def ink_stale_def plane_target_def in_rects_single)
    then have "surface_pixel (dc_presented c) j = composite_pixel c j"
      using assms(15) [OF lat] that(1,2) by (simp add: fresh_def)
    then show ?thesis using assms(4) that(2) False
      by (simp add: plane_image_def plane_taken_def split: if_splits)
  qed
  then have "fresh c'" using base ink taken assms(7) by (simp add: fresh_def)
  moreover have "level c'"
    using assms base by (simp add: level_def first_frame_full_def)
  ultimately show ?thesis by simp
qed

lemma level_freeze:
  assumes "level c" and "freeze_presented c = (t, c')"
  shows "level c' \<and> fresh c' \<and> dc_presented c' = dc_presented c \<and>
    dc_presented_frame_id c' = dc_presented_frame_id c \<and> same_geometry (dc_base c') (dc_base c)"
proof -
  have c': "dc_base c' = dc_presented_base c" "\<not> dc_base_valid c'" "dc_pending c' = None"
    "dc_presented c' = dc_presented c" "dc_presented_frame_id c' = dc_presented_frame_id c"
    "dc_working c' = dc_working c" "dc_presented_base c' = dc_presented_base c"
    "dc_overlay c' = dc_overlay c" "dc_peer_overlay c' = dc_peer_overlay c" "dc_ink c' = dc_ink c"
    "dc_settle_damage c' = dc_settle_damage c"
    using assms(2) by (auto simp: freeze_presented_def cancel_pending_def Let_def split: option.splits prod.splits)
  note ok = core_okD [OF level_core_ok [OF assms(1)]]
  note f = fitsD [OF ok(5)]
  have "core_ok c'"
    using assms(1) c' f ok(5)
    by (auto simp: level_def core_ok_def surfaces_ok_def planes_ok_def pending_ok_def rects_ok_def
        same_geometry_def)
  then show ?thesis
    using assms(1) c' f by (simp add: level_def first_frame_full_def fresh_def)
qed

text \<open>Without freshness, ticks and configuration changes still keep the buffers level.\<close>

lemma level_tick_only:
  assumes "level c" and "tick_outcome backend c p ts c' p'"
  shows "level c'"
proof -
  have "first_frame_full c'"
    using assms unfolding tick_outcome_def level_def
    by (auto simp: first_frame_full_def failed_as_def presented_as_def core_ok_def pending_ok_def)
  then show ?thesis using assms(2) by (simp add: level_def tick_outcome_def)
qed

lemma configure_inv:
  assumes "update_refresh_config config c = (r, c')" and "level c" and "fresh c"
  shows "level c' \<and> fresh c' \<and> dc_base c' = dc_base c \<and> dc_presented c' = dc_presented c \<and>
    dc_presented_frame_id c' = dc_presented_frame_id c"
proof -
  have "c' = c \<or> (\<exists>q t. c' = c\<lparr>dc_refresh_policy := q, dc_damage_tile := t\<rparr>)"
    using assms(1) by (auto simp: update_refresh_config_def Let_def split: sum.splits)
  then show ?thesis using assms(2,3) level_policy(2) [OF level_policy(1)] level_policy(7) [OF level_policy(6)]
    by auto
qed

context panel_contract
begin

lemma tick_panel:
  assumes "level c" and "panel_level screen c p" and "tick_outcome backend c p ts c' p'"
  shows "panel_level screen c' p'"
proof -
  have ok: "core_ok c" by (rule level_core_ok [OF assms(1)])
  have ps: "fits c (screen p)" "dc_presented_frame_id c \<noteq> 0 \<longrightarrow> screen p = dc_presented c"
    using assms(2) by (simp_all add: panel_level_def)
  consider "c' = c" "p' = p"
    | pending e where "failed_as c pending ts c'" "panel_pump backend p = (Inl e, p')"
    | pending q w damage decision where "dc_pending c = Some pending"
        "panel_pump backend p = (Inr (), q)" "composed_for c pending w damage"
        "presented_as c pending w ts c' \<and>
           (damage = [] \<and> p' = q \<or> (\<exists>pm. panel_submit backend q w damage decision = (Inr pm, p'))) \<or>
         failed_as c pending ts c' \<and> (\<exists>e. panel_submit backend q w damage decision = (Inl e, p'))"
    using assms(3) unfolding tick_outcome_def by blast
  then show ?thesis
  proof cases
    case 1
    then show ?thesis using assms(2) by simp
  next
    case 2
    then show ?thesis using ps pump_keeps [OF 2(2)] by (simp add: panel_level_def failed_as_def fits_def)
  next
    case (3 pending q w damage decision)
    have q: "screen q = screen p" by (rule pump_keeps [OF 3(2)])
    note comp = 3(3) [unfolded composed_for_def]
    have fw: "fits c w" using comp by blast
    have full: "in_rects (dc_base c) damage j" if "dc_presented_frame_id c = 0" "j < core_pixels c" for j
      using that comp assms(1) 3(1) by (simp add: level_def first_frame_full_def)
    have agree: "surface_pixel w j = surface_pixel (screen q) j"
      if "j < num_pixels w" "\<not> in_rects w damage j" for j
      using that full comp ps(2) q fitsD(3,7) [OF fw] by (cases "dc_presented_frame_id c = 0") simp_all
    from 3(4) show ?thesis
    proof (elim disjE conjE exE)
      assume pres: "presented_as c pending w ts c'" and "damage = []" "p' = q"
      then have "dc_presented_frame_id c \<noteq> 0" using full core_pixels_pos [OF ok] by (auto simp: in_rects_def)
      moreover have "w = dc_presented c"
        using comp \<open>damage = []\<close> by (intro fits_eqI [OF fw core_okD(3) [OF ok]]) (simp add: in_rects_def)
      ultimately show ?thesis
        using pres ps q \<open>p' = q\<close> by (simp add: panel_level_def presented_as_def fits_def)
    next
      fix pm assume pres: "presented_as c pending w ts c'"
        and sub: "panel_submit backend q w damage decision = (Inr pm, p')"
      have "list_all (rect_ok (ps_width w) (ps_height w)) damage"
        using comp fitsD(5,6) [OF fw] by (simp add: rects_ok_def)
      moreover have "fits c (screen q)" using ps q by simp
      ultimately have "screen p' = w"
        using submit_frame [OF fitsD(1) [OF fw] _ _ _ agree sub] fitsD(1) fits_same [OF _ fw] by blast
      then show ?thesis using pres fw by (simp add: panel_level_def presented_as_def fits_def)
    next
      fix e assume "failed_as c pending ts c'" "panel_submit backend q w damage decision = (Inl e, p')"
      then show ?thesis using ps q submit_fails by (simp add: panel_level_def failed_as_def fits_def)
    qed
  qed
qed

lemma plane_panel:
  assumes "level c" and "panel_level screen c p" and "plane_image c d w damage"
    and "damage = [] \<and> p' = p \<or> (\<exists>pm. panel_submit backend p w damage decision = (Inr pm, p'))"
    and "dc_presented c' = w" and "dc_base c' = dc_base c"
    and "dc_presented_frame_id c' = dc_presented_frame_id c"
  shows "panel_level screen c' p'"
proof -
  have ok: "core_ok c" by (rule level_core_ok [OF assms(1)])
  have ps: "fits c (screen p)" "dc_presented_frame_id c \<noteq> 0 \<longrightarrow> screen p = dc_presented c"
    using assms(2) by (simp_all add: panel_level_def)
  note img = assms(3) [unfolded plane_image_def]
  have fw: "fits c w" using img by blast
  from assms(4) show ?thesis
  proof (elim disjE conjE exE)
    assume "damage = []" "p' = p"
    moreover have "\<forall>j<core_pixels c. surface_pixel w j = surface_pixel (dc_presented c) j"
      using img \<open>damage = []\<close> by (metis in_rects_nil)
    then have "w = dc_presented c"
      by (intro fits_eqI [OF fw core_okD(3) [OF ok]]) blast
    ultimately show ?thesis using ps assms by (simp add: panel_level_def fits_def)
  next
    fix pm assume sub: "panel_submit backend p w damage decision = (Inr pm, p')"
    have rs: "list_all (rect_ok (ps_width w) (ps_height w)) damage"
      using img fitsD(5,6) [OF fw] by (simp add: rects_ok_def)
    have fs: "fits c (screen p')"
      using submit_shows [OF fitsD(1) [OF fw] fitsD(1) [OF ps(1)] fits_same [OF ps(1) fw] rs sub] fw
      by (auto simp: shows_damage_def fits_def same_geometry_def)
    have "screen p' = w" if "dc_presented_frame_id c \<noteq> 0"
    proof (rule submit_frame [OF fitsD(1) [OF fw] fitsD(1) [OF ps(1)] fits_same [OF ps(1) fw] rs _ sub])
      fix j assume "j < num_pixels w" "\<not> in_rects w damage j"
      then show "surface_pixel w j = surface_pixel (screen p) j"
        using that ps(2) img fitsD(3,7) [OF fw] by metis
    qed
    then show ?thesis using fs assms by (simp add: panel_level_def fits_def)
  qed
qed

lemma cleanup_panel:
  assumes "level c" and "panel_level screen c p" and "cleanup_outcome backend c p c' p'"
  shows "panel_level screen c' p'"
proof -
  have ok: "core_ok c" by (rule level_core_ok [OF assms(1)])
  have ps: "fits c (screen p)" "dc_presented_frame_id c \<noteq> 0 \<longrightarrow> screen p = dc_presented c"
    using assms(2) by (simp_all add: panel_level_def)
  note o' = assms(3) [unfolded cleanup_outcome_def same_images_def]
  have same: "dc_presented c' = dc_presented c" "fits c' s = fits c s"
    "dc_presented_frame_id c' = dc_presented_frame_id c" for s
    using o' by (simp_all add: fits_def)
  have "screen p' = screen p \<or> screen p' = dc_presented c"
  proof -
    let ?full = "full_damage (core_width c) (core_height c)" and ?s = "dc_presented c"
    have fp: "fits c ?s" by (rule core_okD(3) [OF ok])
    have rs: "list_all (rect_ok (ps_width ?s) (ps_height ?s)) ?full"
      using full_rects_ok [OF core_okD(1) [OF ok]] fitsD(5,6) [OF fp] by (simp add: rects_ok_def)
    have shown: "screen r = ?s" if "screen q = screen p"
      "panel_submit backend q ?s ?full decision = (Inr pm, r)" for q decision pm r
      using submit_frame [OF fitsD(1) [OF fp] _ _ rs _ that(2)] that(1) fitsD(1) [OF ps(1)]
        fits_same [OF ps(1) fp] fitsD(3,7) [OF fp] in_full by auto
    consider "p' = p" | e where "panel_pump backend p = (Inl e, p')"
      | q decision e where "panel_pump backend p = (Inr (), q)" "panel_submit backend q ?s ?full decision = (Inl e, p')"
      | q decision pm where "panel_pump backend p = (Inr (), q)" "panel_submit backend q ?s ?full decision = (Inr pm, p')"
      using o' by blast
    then show ?thesis
    proof cases
      case 1
      then show ?thesis by simp
    next
      case 2
      then show ?thesis using pump_keeps by simp
    next
      case 3
      then show ?thesis using pump_keeps [OF 3(1)] submit_fails [OF 3(2)] by simp
    next
      case 4
      then show ?thesis using shown [OF pump_keeps [OF 4(1)] 4(2)] by simp
    qed
  qed
  then show ?thesis unfolding panel_level_def same using ps core_okD(3) [OF ok] by metis
qed

lemma cleanup_inv:
  assumes "level c" and "fresh c" and "panel_level screen c p"
    and "request_cleanup backend now obs c p = (r, c', p')"
  shows "(\<exists>rep. r = Inr rep) \<and> level c' \<and> fresh c' \<and> panel_level screen c' p'"
proof -
  have ok: "core_ok c" "dc_working c = dc_presented c" using assms(1) by (simp_all add: level_def)
  obtain rep where r: "r = Inr rep" and out: "if dc_pending c = None then
      report_terminals rep = [] \<and> cleanup_outcome backend c p c' p'
    else \<exists>d. d = c\<lparr>dc_force_cleanup_next := True\<rparr> \<and> tick_outcome backend d p (report_terminals rep) c' p'"
    using request_cleanup_spec [OF ok assms(4)] by blast
  show ?thesis
  proof (cases "dc_pending c = None")
    case True
    then have o': "cleanup_outcome backend c p c' p'" using out by simp
    note u = o' [unfolded cleanup_outcome_def same_images_def]
    have valid: "dc_base_valid c' \<Longrightarrow> dc_base_valid c" using u by blast
    have "level c'" using u assms(1) True valid by (auto simp: level_def first_frame_full_def)
    moreover have "composite_pixel c' j = composite_pixel c j" "stale c' j = stale c j" for j
      using u True by (auto simp: composite_pixel_def stale_def ink_stale_def split: option.splits)
    then have "fresh c'" using u assms(2) valid by (simp add: fresh_def)
    ultimately show ?thesis using r cleanup_panel [OF assms(1,3) o'] by blast
  next
    case False
    let ?d = "c\<lparr>dc_force_cleanup_next := True\<rparr>"
    have t: "tick_outcome backend ?d p (report_terminals rep) c' p'" using out False by simp
    have "panel_level screen ?d p" using assms(3) by (simp add: panel_level_def fits_def)
    then show ?thesis
      using r level_tick [OF level_policy(3) level_policy(8) t] assms(1,2)
        tick_panel [OF level_policy(3) _ t] by blast
  qed
qed

lemma tick_inner_inv:
  assumes "level c" and "fresh c" and "panel_level screen c p"
    and "tick_inner backend now ig obs c p = (r, c', p')"
  shows "(\<exists>ts. r = Inr ts) \<and> level c' \<and> fresh c' \<and> panel_level screen c' p'"
proof -
  have ok: "core_ok c" "dc_working c = dc_presented c" using assms(1) by (simp_all add: level_def)
  obtain ts where t: "r = Inr ts" "tick_outcome backend c p ts c' p'"
    using tick_inner_spec [OF ok assms(4)] by blast
  show ?thesis
    using t(1) level_tick [OF assms(1,2) t(2)] tick_panel [OF assms(1,3) t(2)] by simp
qed

lemma tick_interactive_inv:
  assumes "level c" and "fresh c" and "panel_level screen c p"
    and "tick_interactive backend now idle obs c p = (r, c', p')"
  shows "(\<exists>ts. r = Inr ts) \<and> level c' \<and> fresh c' \<and> panel_level screen c' p'"
proof -
  consider "tick_inner backend now False obs c p = (r, c', p')"
    | rr d q where "request_cleanup backend now obs c p = (rr, d, q)"
        "(case rr of Inl e \<Rightarrow> r = Inl e \<and> c' = d \<and> p' = q
          | Inr rep \<Rightarrow> r = Inr (report_terminals rep) \<and> p' = q \<and>
              (\<exists>f. c' = d\<lparr>dc_last_idle_cleanup_failure := f\<rparr>))"
    using assms(4) unfolding tick_interactive_def
    by (cases "request_cleanup backend now obs c p") (auto split: if_splits sum.splits)
  then show ?thesis
  proof cases
    case 1
    then show ?thesis using tick_inner_inv [OF assms(1-3)] by blast
  next
    case 2
    from cleanup_inv [OF assms(1-3) 2(1)] obtain rep where rep: "rr = Inr rep" "level d" "fresh d"
      "panel_level screen d q" by blast
    then obtain f where "c' = d\<lparr>dc_last_idle_cleanup_failure := f\<rparr>" "p' = q" "r = Inr (report_terminals rep)"
      using 2(2) by auto
    then show ?thesis using rep level_policy(5,10) by (simp add: panel_level_def fits_def)
  qed
qed

lemma profile_inv:
  assumes "level c" and "fresh c" and "panel_level screen c p"
    and "change_refresh_profile backend config now obs c p = (r, c', p')"
  shows "level c' \<and> fresh c' \<and> panel_level screen c' p'"
proof -
  obtain ur d where u: "update_refresh_config config c = (ur, d)" by (rule prod.exhaust)
  note d = configure_inv [OF u assms(1,2)]
  then have pl: "panel_level screen d p" using assms(3) by (simp add: panel_level_def fits_def)
  obtain cr e q where rc: "request_cleanup backend now obs d p = (cr, e, q)" by (metis prod_cases3)
  have "c' = d \<and> p' = p \<or> c' = e \<and> p' = q"
    using assms(4) u rc by (auto simp: change_refresh_profile_def Let_def split: sum.splits if_splits)
  then show ?thesis using d pl cleanup_inv [OF _ _ pl rc] by blast
qed

lemma plane_inv:
  assumes "level c" and "intent = Latest \<longrightarrow> fresh c" and "panel_level screen c p"
    and "dc_pending c = None" and "plane_target intent c = Some d"
    and "plane_present backend now intent [d] (plane_taken intent c) p = (Inr u, c', p')"
  shows "level c' \<and> fresh c' \<and> panel_level screen c' p'"
proof -
  let ?c = "plane_taken intent c"
  have ok: "core_ok c" "dc_working c = dc_presented c" using assms(1) by (simp_all add: level_def)
  have base: "dc_base ?c = dc_base c" "dc_presented ?c = dc_presented c"
    "dc_presented_frame_id ?c = dc_presented_frame_id c" "dc_base_valid ?c = dc_base_valid c"
    by (simp_all add: plane_taken_def)
  note taken = plane_taken_ok [OF ok(1) assms(4) ok(2), of intent]
  have d: "rect_ok (core_width ?c) (core_height ?c) d"
    using plane_target_ok [OF ok(1) assms(5)] base by simp
  have taken': "core_ok ?c" "dc_pending ?c = None" "dc_working ?c = dc_presented ?c" using taken by simp_all
  obtain w damage decision where img: "plane_image ?c d w damage"
    and s: "core_ok c'" "dc_working c' = w" "dc_presented c' = w" "dc_base c' = dc_base ?c"
       "dc_overlay c' = dc_overlay ?c" "dc_peer_overlay c' = dc_peer_overlay ?c" "dc_ink c' = dc_ink ?c"
       "dc_pending c' = None" "dc_base_valid c' = dc_base_valid ?c"
       "dc_presented_frame_id c' = dc_presented_frame_id ?c"
    and sub: "damage = [] \<and> p' = p \<or> (\<exists>pm. panel_submit backend p w damage decision = (Inr pm, p'))"
    using plane_present_spec [OF taken' d assms(6)] by blast
  have lt: "level ?c"
    using taken assms(1,4) base by (simp add: level_def first_frame_full_def)
  have "panel_level screen ?c p" using assms(3) base by (simp add: panel_level_def fits_def)
  from plane_panel [OF lt this img sub s(3,4,10)]
  show ?thesis
    using plane_success_fresh [OF assms(1,4,5) img s] assms(2) by blast
qed

lemma present_plane_inv:
  assumes "level c" and "intent = Latest \<longrightarrow> fresh c" and "panel_level screen c p"
    and "fresh c \<or> intent = Settled"
    and "present_plane backend now intent obs c p = (Inr ts, c', p')"
  shows "level c' \<and> fresh c' \<and> panel_level screen c' p'"
proof -
  have ok: "core_ok c" "dc_working c = dc_presented c" using assms(1) by (simp_all add: level_def)
  obtain ts1 c1 p1 where t: "tick_outcome backend c p ts1 c1 p1" and none: "dc_pending c1 = None"
    and rest: "case plane_target intent c1 of
       None \<Rightarrow> (Inr ts :: (core_error, terminal_frame list) result) = Inr ts1 \<and>
         c' = plane_taken intent c1 \<and> p' = p1
     | Some d \<Rightarrow> \<exists>r2. plane_present backend now intent [d] (plane_taken intent c1) p1 = (r2, c', p') \<and>
         Inr ts = and_then r2 (\<lambda>_. Inr ts1)"
    using present_plane_split [OF ok assms(5)] by (elim exE conjE) (rule that)
  have l1: "level c1 \<and> panel_level screen c1 p1 \<and> (fresh c \<longrightarrow> fresh c1)"
    using tick_panel [OF assms(1,3) t] level_tick [OF assms(1) _ t] level_tick_only [OF assms(1) t] by blast
  show ?thesis
  proof (cases "plane_target intent c1")
    case None
    then have lat: "intent = Latest" by (simp add: plane_target_def split: if_splits)
    have c': "c' = plane_taken intent c1" "p' = p1" using rest None by simp_all
    have dirty: "ov_dirty (dc_ink c1) = None" using None lat by (simp add: plane_target_def)
    then have "c' = c1" using c' lat by (simp add: plane_taken_def)
    then show ?thesis using l1 assms(2) lat c' by simp
  next
    case (Some d)
    then obtain r2 where pp: "plane_present backend now intent [d] (plane_taken intent c1) p1 = (r2, c', p')"
      "Inr ts = and_then r2 (\<lambda>_. Inr ts1)" using rest by auto
    then obtain u where "r2 = Inr u" by (cases r2) auto
    then show ?thesis using plane_inv [OF _ _ _ none Some] l1 pp(1) assms(2) by blast
  qed
qed

lemma step_inv:
  assumes "display_step backend s s'" and "level (fst s)" and "fresh (fst s)"
    and "panel_level screen (fst s) (snd s)"
  shows "level (fst s') \<and> fresh (fst s') \<and> panel_level screen (fst s') (snd s')"
  using assms
proof (induction rule: display_step.induct)
  case (commit_step frame cls now us obs c res c' p)
  then show ?case
  proof (cases res)
    case (Inl e)
    then show ?thesis using commit_step commit_Inl [of frame cls now us obs c e c'] by simp
  next
    case (Inr rep)
    then have cm: "committed frame now c c'" using commit_step(1) commit_Inr by blast
    have ok: "core_ok c" using commit_step(2) by (simp add: level_def)
    note u = committed_ok [OF ok cm]
    have "level c'"
      using commit_step(2) u first_frame_full_committed [OF _ cm] by (simp add: level_def)
    moreover have "fresh c'" using fresh_committed [OF ok _ cm] commit_step(3) by simp
    moreover have "panel_level screen c' p"
      using commit_step(4) u fits_base [of c' c] fitsD(2) by (simp add: panel_level_def)
    ultimately show ?thesis by simp
  qed
next
  case (tick_step now idle obs c p res c' p')
  then show ?case using tick_interactive_inv [of c p] by simp
next
  case (tick_quiet_step now obs c p res c' p')
  then show ?case using tick_inner_inv [of c p] by (simp add: tick_without_idle_cleanup_def)
next
  case (cleanup_step now obs c p res c' p')
  then show ?case using cleanup_inv [of c p] by simp
next
  case (profile_step config now obs c p res c' p')
  then show ?case using profile_inv [of c p] by simp
next
  case (configure_step config c res c' p)
  then show ?case using configure_inv [OF configure_step(1)] by (simp add: panel_level_def fits_def)
next
  case (debt_step debt c res c' p)
  then have "c' = c \<or> (\<exists>q. c' = c\<lparr>dc_refresh_policy := q\<rparr>)"
    by (auto simp: restore_refresh_debt_def split: sum.splits)
  then show ?case using debt_step level_policy(1,6) by (auto simp: panel_level_def fits_def)
next
  case (require_step c p)
  then show ?case using level_policy(3,8) by (simp add: require_cleanup_def panel_level_def fits_def)
next
  case (waveform_step c p w)
  then show ?case using level_policy(4,9) by (simp add: set_ink_waveform_def panel_level_def fits_def)
next
  case (freeze_step c t c' p)
  then show ?case using level_freeze [of c t c'] fits_base [of c' c] by (simp add: panel_level_def)
next
  case (draw_step a c b p radius erase)
  have ok: "core_ok c" using draw_step(5) by (simp add: level_def)
  note e = draw_ink_edit [OF ok draw_step(1-4)]
  have l: "level c" and f: "fresh c" and pl: "panel_level screen c p"
    using draw_step(5-7) by simp_all
  note e' = level_planes_edit [OF l e, of radius erase]
  have "panel_level screen (draw_ink a b radius erase c) p"
    using pl e' unfolding panel_level_def fits_def by metis
  then show ?case
    using e' fresh_draw_ink [OF ok f draw_step(1-4), of radius erase] unfolding fst_conv snd_conv by blast
next
  case (ink_step now obs c p ts c' p')
  show ?case
    using present_plane_inv [OF _ _ _ _ ink_step(1) [unfolded present_ink_def]] ink_step(2-4)
    unfolding fst_conv snd_conv by blast
next
  case (overlay_step f c now obs p ts c' p')
  have e: "level (f c)" "dc_presented (f c) = dc_presented c" "dc_base (f c) = dc_base c"
    "dc_presented_frame_id (f c) = dc_presented_frame_id c"
    using level_planes_edit [OF _ overlay_step(1)] overlay_step(3) by simp_all
  have pl: "panel_level screen c p" using overlay_step(5) by simp
  have "panel_level screen (f c) p" using pl e unfolding panel_level_def fits_def by metis
  from present_plane_inv [OF e(1) _ this] overlay_step(2)
  show ?case unfolding present_overlay_def fst_conv snd_conv by blast
qed

lemma run_inv:
  assumes "(display_step backend)\<^sup>*\<^sup>* s s'" and "level (fst s)" and "fresh (fst s)"
    and "panel_level screen (fst s) (snd s)"
  shows "level (fst s') \<and> fresh (fst s') \<and> panel_level screen (fst s') (snd s')"
  using assms by (induction rule: rtranclp_induct) (use step_inv in blast)+

end

section \<open>Results\<close>

lemma core_new_level:
  assumes "core_new_with_format w h fmt fps deadline cfg = Inr c" and "w \<le> u32_max" "h \<le> u32_max"
  shows "level c \<and> fresh c \<and> dc_presented_frame_id c = 0 \<and> dc_pending c = None \<and>
    ps_width (dc_base c) = w \<and> ps_height (dc_base c) = h \<and> ps_format (dc_base c) = fmt"
proof -
  from assms(1) obtain s plane policy where
    s: "surface_new_with_format w h fmt = Inr s" and plane: "overlay_transparent w h = Inr plane" and
    c: "dc_base c = s" "dc_overlay c = plane" "dc_peer_overlay c = plane" "dc_ink c = plane"
      "dc_presented_base c = s" "dc_presented c = s" "dc_working c = s" "dc_base_valid c = False"
      "dc_pending c = None" "dc_settle_damage c = []" "dc_presented_frame_id c = 0"
    by (auto simp: core_new_with_format_def Let_def and_then_Inr_iff map_err_def split: sum.splits)
  note ok = surface_new_with_format_ok [OF assms(2,3) s]
  have "overlay_ok (w * h) plane" by (rule overlay_transparent_ok [OF plane])
  moreover have "ov_dirty plane = None" using plane by (auto simp: overlay_transparent_def and_then_Inr_iff)
  ultimately have "core_ok c"
    using ok by (simp add: core_ok_def surfaces_ok_def planes_ok_def pending_ok_def rects_ok_def c
        num_pixels_def dirty_ok_def)
  then show ?thesis using ok by (simp add: level_def first_frame_full_def fresh_def c)
qed



text \<open>
  Claim C3. Every pending frame is finished exactly once. A tick never returns an error; while the
  deadline has not passed it changes nothing and reports nothing; once it has passed (or is
  ignored), the tick reports exactly one terminal result, for the pending frame, as presented or as a
  backend failure, and no frame is pending any more.
\<close>

theorem tick_terminal_correct:
  assumes "core_ok c" and "dc_working c = dc_presented c"
    and "tick_inner backend now ignore_deadline obs c p = (r, c', p')"
  shows "core_ok c' \<and> dc_working c' = dc_presented c' \<and>
    (case next_deadline c of
       None \<Rightarrow> r = Inr [] \<and> c' = c \<and> p' = p
     | Some deadline \<Rightarrow>
         (if \<not> ignore_deadline \<and> now < deadline then r = Inr [] \<and> c' = c \<and> p' = p
          else \<exists>pending t. dc_pending c = Some pending \<and> r = Inr [t] \<and>
            tf_frame_id t = pd_frame_id pending \<and> tf_outcome t \<in> {Presented, BackendFailure} \<and>
            dc_pending c' = None))"
proof -
  have inv: "core_ok c' \<and> dc_working c' = dc_presented c'"
    using tick_inner_spec [OF assms] by (auto simp: tick_outcome_def)
  show ?thesis
  proof (cases "next_deadline c")
    case None
    then show ?thesis using inv assms(3) by (simp add: tick_inner_def)
  next
    case (Some deadline)
    then obtain pending where pend: "dc_pending c = Some pending"
      by (auto simp: next_deadline_def split: option.splits)
    show ?thesis
    proof (cases "\<not> ignore_deadline \<and> now < deadline")
      case True
      then show ?thesis using inv Some assms(3) by (simp add: tick_inner_def)
    next
      case False
      then have "ignore_deadline \<or> (\<exists>deadline. next_deadline c = Some deadline \<and> deadline \<le> now)"
        using Some by auto
      from tick_inner_due [OF assms(1,2) pend this assms(3)] show ?thesis
        using inv Some False pend by auto
    qed
  qed
qed

lemma commit_accepts:
  assumes "\<not> pending_is_settled c" and "vf_frame_id frame \<noteq> 0" and "dc_logical_frame_id c < vf_frame_id frame"
    and "vf_pixel_format frame = ps_format (dc_base c)"
    and "vf_base_frame_id frame = 0 \<or> dc_base_valid c \<and> vf_base_frame_id frame = dc_logical_frame_id c"
    and "apply_regions_atomic (dc_base c) (vf_regions frame) = (Inr u, b)"
  shows "\<exists>rep c'. commit_timed frame cls now us obs c = (Inr rep, c')"
  using assms by (auto simp: commit_timed_def Let_def)


section \<open>A concrete run\<close>

text \<open>
  The witnesses: a 2 by 2 core with the default configuration and a mock panel; a keyframe is
  committed and presented.
\<close>

definition demo_core :: display_core where
  "demo_core = (case core_new 2 2 1000 0 default_config of Inr c \<Rightarrow> c)"

definition demo_frame :: validated_frame where
  "demo_frame = \<lparr>vf_frame_id = 1, vf_base_frame_id = 0, vf_intent = Latest, vf_pixel_format = Gray8,
     vf_decoded_bytes = 4,
     vf_regions = [\<lparr>dr_rect = mk_rect 0 0 2 2, dr_pixels = [10, 20, 30, 40]\<rparr>]\<rparr>"

definition demo_obs :: clock_obs where
  "demo_obs = \<lparr>obs_apply = 0, obs_compose = 0, obs_present = 0\<rparr>"

definition demo_committed :: display_core where
  "demo_committed = snd (commit demo_frame TextUi 0 demo_obs demo_core)"

lemma demo_core_new: "core_new_with_format 2 2 Gray8 1000 0 default_config = Inr demo_core"
  by (simp add: demo_core_def core_new_def core_new_with_format_def policy_new_def map_err_def
      surface_new_with_format_def overlay_transparent_def pixel_len_def checked_mul_usize_def
      default_config_def max_defs Let_def config_validate_def)

lemma core_new_fields:
  assumes "core_new_with_format w h fmt fps deadline cfg = Inr c"
  shows "surface_new_with_format w h fmt = Inr (dc_base c) \<and> dc_logical_frame_id c = 0 \<and>
    dc_last_present_at c = None \<and> ov_dirty (dc_ink c) = None \<and> dc_pending c = None \<and>
    dc_refresh_policy c = \<lparr>pol_config = cfg, presented_since_cleanup = 0, has_presented = False\<rparr> \<and>
    \<not> dc_force_cleanup_next c \<and> dc_settle_damage c = []"
  using assms
  by (auto simp: core_new_with_format_def Let_def and_then_Inr_iff map_err_def overlay_transparent_def
      policy_new_def split: sum.splits)

lemma demo_base: "dc_base demo_core = \<lparr>ps_width = 2, ps_height = 2, ps_format = Gray8,
    ps_pixels = replicate 4 0xff\<rparr>"
  using core_new_fields [OF demo_core_new]
  by (auto simp: surface_new_with_format_def and_then_Inr_iff pixel_len_Inr range_simps)

lemma demo_level:
  "level demo_core" "fresh demo_core" "dc_presented_frame_id demo_core = 0" "dc_pending demo_core = None"
  using core_new_level [OF demo_core_new] by (simp_all add: max_defs)

lemma demo_logical: "dc_logical_frame_id demo_core = 0"
  using core_new_fields [OF demo_core_new] by blast

lemma demo_apply: "\<exists>b. apply_regions_atomic (dc_base demo_core) (vf_regions demo_frame) = (Inr (), b)"
proof -
  have "validate_regions 2 2 1 (vf_regions demo_frame) = Inr ()"
    by (simp add: validate_regions_def validate_region_geometry_def validate_rect_def demo_frame_def
        checked_add_u32_def checked_mul_usize_def max_defs)
  then show ?thesis by (simp add: apply_regions_atomic_def demo_base bytes_per_pixel_def Let_def)
qed

lemma demo_commit: "\<exists>rep. commit_timed demo_frame TextUi 0 0 demo_obs demo_core = (Inr rep, demo_committed)"
proof -
  obtain b where b: "apply_regions_atomic (dc_base demo_core) (vf_regions demo_frame) = (Inr (), b)"
    using demo_apply by blast
  have "\<not> pending_is_settled demo_core" by (simp add: pending_is_settled_def demo_level)
  moreover have "vf_frame_id demo_frame \<noteq> 0" "dc_logical_frame_id demo_core < vf_frame_id demo_frame"
    "vf_pixel_format demo_frame = ps_format (dc_base demo_core)" "vf_base_frame_id demo_frame = 0"
    by (simp_all add: demo_logical demo_base demo_frame_def)
  ultimately obtain rep c' where "commit_timed demo_frame TextUi 0 0 demo_obs demo_core = (Inr rep, c')"
    using commit_accepts b by blast
  then show ?thesis by (simp add: demo_committed_def commit_def)
qed

lemma demo_committed_facts:
  "core_ok demo_committed" "dc_working demo_committed = dc_presented demo_committed"
  "\<exists>q. dc_pending demo_committed = Some q \<and> pd_frame_id q = 1 \<and> pd_intent q = Latest \<and> pd_accepted_at q = 0"
  "next_deadline demo_committed = Some 0"
proof -
  have cm: "committed demo_frame 0 demo_core demo_committed"
    using demo_commit commit_Inr by blast
  note u = committed_ok [OF level_core_ok [OF demo_level(1)] cm]
  show "core_ok demo_committed" using u by blast
  show "dc_working demo_committed = dc_presented demo_committed" using u demo_level(1) by (simp add: level_def)
  show q: "\<exists>q. dc_pending demo_committed = Some q \<and> pd_frame_id q = 1 \<and> pd_intent q = Latest \<and>
      pd_accepted_at q = 0"
    using committed_fields [OF cm] by (simp add: demo_frame_def)
  have "dc_last_present_at demo_core = None"
    using core_new_fields [OF demo_core_new] by blast
  then have "dc_last_present_at demo_committed = None" using committed_fields [OF cm] by simp
  then show "next_deadline demo_committed = Some 0" using q by (auto simp: next_deadline_def)
qed


theorem tick_terminal_correct_witness:
  "\<exists>t c' p'. tick_inner mock_backend 0 False demo_obs demo_committed (mock_new 2 2) = (Inr [t], c', p') \<and>
     tf_frame_id t = 1"
proof -
  obtain r c' p' where t: "tick_inner mock_backend 0 False demo_obs demo_committed (mock_new 2 2) = (r, c', p')"
    by (metis prod_cases3)
  from tick_terminal_correct [OF demo_committed_facts(1,2) t] demo_committed_facts(3,4) t
  show ?thesis by auto
qed

text \<open>The tick presents the frame, because the mock accepts every submission of its size.\<close>

definition demo_screen :: "mock_panel \<Rightarrow> pixel_surface" where
  "demo_screen = mock_screen (dc_base demo_core)"

lemma demo_tick:
  "\<exists>r c' p'. tick_inner mock_backend 0 False demo_obs demo_committed (mock_new 2 2) = (r, c', p') \<and>
     dc_presented_frame_id c' = 1 \<and> dc_base_valid c' \<and> dc_pending c' = None \<and>
     core_pixels c' = 4 \<and> \<not> ink_stale c' 0"
proof -
  obtain r c' p' where t: "tick_inner mock_backend 0 False demo_obs demo_committed (mock_new 2 2) = (r, c', p')"
    by (metis prod_cases3)
  obtain ts where ts: "r = Inr ts" "tick_outcome mock_backend demo_committed (mock_new 2 2) ts c' p'"
    using tick_inner_spec [OF demo_committed_facts(1,2) t] by blast
  obtain q where q: "dc_pending demo_committed = Some q" "pd_frame_id q = 1"
    using demo_committed_facts(3) by blast
  have due: "\<exists>deadline. next_deadline demo_committed = Some deadline \<and> deadline \<le> 0"
    using demo_committed_facts(4) by simp
  have some: "\<exists>t. r = Inr [t]"
    using tick_inner_due [OF demo_committed_facts(1,2) q(1) disjI2 [OF due] t] by blast
  have cm: "committed demo_frame 0 demo_core demo_committed" using demo_commit commit_Inr by blast
  note u = committed_ok [OF level_core_ok [OF demo_level(1)] cm]
  have size: "core_width demo_committed = 2" "core_height demo_committed = 2"
    using u demo_base by (auto simp: fits_def same_geometry_def)
  have accepts: "panel_submit mock_backend (snd (mock_pump (mock_new 2 2))) w damage decision \<noteq> (Inl e, p2)"
    if "fits demo_committed w" for w damage decision e p2
    using fitsD(5,6) [OF that] size
    by (auto simp: mock_backend_def mock_submit_def mock_pump_def mock_new_def)
  have "\<exists>w. presented_as demo_committed q w ts c'"
    using ts some q accepts unfolding tick_outcome_def
    by (auto simp: mock_backend_def mock_pump_def composed_for_def)
  moreover have "dc_base_valid demo_committed" using committed_fields [OF cm] by blast
  moreover have "\<not> ink_stale demo_committed 0"
    using committed_fields [OF cm] core_new_fields [OF demo_core_new] by (simp add: ink_stale_def)
  ultimately show ?thesis
    using t q size by (auto simp: presented_as_def num_pixels_def ink_stale_def split: option.splits)
qed

lemma demo_run:
  "\<exists>c p. (display_step mock_backend)\<^sup>*\<^sup>* (demo_core, mock_new 2 2) (c, p) \<and>
     dc_presented_frame_id c = 1 \<and> dc_base_valid c \<and> dc_pending c = None \<and> core_pixels c = 4 \<and>
     \<not> ink_stale c 0"
proof -
  obtain r c p where t: "tick_inner mock_backend 0 False demo_obs demo_committed (mock_new 2 2) = (r, c, p)"
    "dc_presented_frame_id c = 1" "dc_base_valid c" "dc_pending c = None" "core_pixels c = 4" "\<not> ink_stale c 0"
    using demo_tick by blast
  obtain rep where "commit_timed demo_frame TextUi 0 0 demo_obs demo_core = (Inr rep, demo_committed)"
    using demo_commit by blast
  then have "display_step mock_backend (demo_core, mock_new 2 2) (demo_committed, mock_new 2 2)"
    by (rule commit_step)
  moreover have "display_step mock_backend (demo_committed, mock_new 2 2) (c, p)"
    using t(1) by (intro tick_quiet_step) (simp add: tick_without_idle_cleanup_def)
  ultimately show ?thesis using t(2-) by (meson converse_rtranclp_into_rtranclp r_into_rtranclp)
qed

lemma demo_screen_start: "demo_screen (mock_new 2 2) = dc_base demo_core"
  by (simp add: demo_screen_def mock_screen_def mock_replay_def mock_new_def)

lemma demo_contract: "panel_contract mock_backend demo_screen"
  unfolding demo_screen_def by (rule mock.panel_contract_axioms)

lemma demo_base_ok: "surface_ok (dc_base demo_core)"
  using demo_level(1) by (simp add: level_def core_okD)



end
