(* ===== verification/Display_Faults.thy ===== *)
theory Display_Faults
  imports Display
begin

text \<open>
  What the plane presentations of \<open>DisplayCore\<close> do on their edges: a rejected submission, a
  flush of the pending frame that fails, and a cleared ink plane. The steps of \<open>Display\<close> leave
  these out because each of them departs from the invariants proved there.
\<close>

section \<open>Presenting the overlay\<close>

text \<open>
  A successful \<open>present_overlay\<close> shows the full composition over the core's current
  base, on every pixel. The base it shows is the logical one even when the flush of the pending
  frame that precedes it failed: then the frame was reported as a backend failure, the base is no
  longer valid, and the image of that very frame is nevertheless presented below the overlay.
\<close>

theorem present_overlay_shows_base:
  assumes "core_ok c" and "dc_working c = dc_presented c" and "first_frame_full c"
    and "present_overlay backend now obs c p = (Inr ts, c', p')"
  shows "dc_base c' = dc_base c \<and>
    (\<forall>j<core_pixels c. surface_pixel (dc_presented c') j = composite_pixel c' j) \<and>
    (list_ex (\<lambda>t. tf_outcome t = BackendFailure) ts \<longrightarrow>
      \<not> dc_base_valid c' \<and> dc_logical_frame_id c' = 0)"
proof -
  note pl = assms(4) [unfolded present_overlay_def]
  obtain ts1 c1 p1 where t: "tick_outcome backend c p ts1 c1 p1" and none: "dc_pending c1 = None"
    and rest: "case plane_target Settled c1 of
       None \<Rightarrow> (Inr ts :: (core_error, terminal_frame list) result) = Inr ts1 \<and>
         c' = plane_taken Settled c1 \<and> p' = p1
     | Some d \<Rightarrow> \<exists>r2. plane_present backend now Settled [d] (plane_taken Settled c1) p1 = (r2, c', p') \<and>
         Inr ts = and_then r2 (\<lambda>_. Inr ts1)"
    using present_plane_split [OF assms(1,2) pl] by (elim exE conjE) (rule that)
  let ?d = "mk_rect 0 0 (core_width c1) (core_height c1)"
  have tgt: "plane_target Settled c1 = Some ?d" and taken: "plane_taken Settled c1 = c1"
    by (simp_all add: plane_target_def plane_taken_def)
  obtain r2 where pp: "plane_present backend now Settled [?d] c1 p1 = (r2, c', p')"
    "Inr ts = and_then r2 (\<lambda>_. Inr ts1)" using rest tgt taken by auto
  then obtain u where u: "r2 = Inr u" "ts = ts1" by (cases r2) auto
  have c1: "core_ok c1" "dc_working c1 = dc_presented c1" "dc_base c1 = dc_base c"
    using t by (auto simp: tick_outcome_def presented_as_def failed_as_def)
  have d: "rect_ok (core_width c1) (core_height c1) ?d"
    using surface_okD(1,2) [OF core_okD(1) [OF c1(1)]] by simp
  obtain w damage where img: "plane_image c1 ?d w damage"
    and s: "dc_presented c' = w" "dc_base c' = dc_base c1" "dc_overlay c' = dc_overlay c1"
      "dc_peer_overlay c' = dc_peer_overlay c1" "dc_ink c' = dc_ink c1"
      "dc_base_valid c' = dc_base_valid c1" "dc_logical_frame_id c' = dc_logical_frame_id c1"
    using plane_present_spec [OF c1(1) none c1(2) d pp(1) [unfolded u(1)]] by blast
  have "surface_pixel w j = composite_pixel c' j" if "j < core_pixels c1" for j
    using img in_full [OF that] that s by (simp add: plane_image_def full_damage_def composite_pixel_def)
  moreover have "\<not> dc_base_valid c1 \<and> dc_logical_frame_id c1 = 0"
    if "list_ex (\<lambda>t. tf_outcome t = BackendFailure) ts"
    using t that u(2) by (auto simp: tick_outcome_def presented_as_def failed_as_def list_ex_iff)
  ultimately show ?thesis using s c1(3) by auto
qed

section \<open>A rejected pen submission\<close>

lemma composite_taken [simp]: "composite_pixel (plane_taken intent c) j = composite_pixel c j"
proof -
  have "mix_pixel fmt (ov\<lparr>ov_dirty := r\<rparr>) j v = mix_pixel fmt ov j v" for fmt ov r v
    by (rule mix_pixel_cong) simp_all
  then show ?thesis by (simp add: plane_taken_def composite_pixel_def)
qed

lemma taken_fields [simp]: "dc_base (plane_taken intent c) = dc_base c"
  "dc_presented (plane_taken intent c) = dc_presented c"
  by (simp_all add: plane_taken_def)

lemma rejected_core:
  assumes "core_ok c" and "dc_working c = dc_presented c" and "dc_pending c = None"
    and "ov_dirty (dc_ink c) = Some d"
    and "present_ink backend now obs c p = (Inl e, c', p')"
  shows "\<exists>w damage. plane_image (plane_taken Latest c) d w damage \<and> (\<exists>pe. e = CorePanel pe) \<and>
    c' = (plane_taken Latest c)\<lparr>dc_working := w\<rparr>"
proof -
  let ?t = "plane_taken Latest c"
  have tgt: "plane_target Latest c = Some d" using assms(4) by (simp add: plane_target_def)
  obtain r2 where pp: "plane_present backend now Latest [d] ?t p = (r2, c', p')"
    "Inl e = and_then r2 (\<lambda>_. Inr [] :: (core_error, terminal_frame list) result)"
    using assms(3-5) by (auto simp: present_ink_def present_plane_def take_dirty_def plane_taken_def Let_def
        split: prod.splits)
  have r2: "r2 = Inl e" using pp(2) by (cases r2) auto
  have ok: "core_ok ?t" "dc_pending ?t = None" "dc_working ?t = dc_presented ?t"
    using plane_taken_ok [OF assms(1,3,2)] by blast+
  have d: "rect_ok (core_width ?t) (core_height ?t) d"
    using plane_target_ok [OF assms(1) tgt] by simp
  show ?thesis using plane_present_spec [OF ok d pp(1)] r2 by auto
qed

text \<open>
  Claim C29. A pen presentation the panel rejects is lost: the error is returned, the presented
  buffer and the logical frame stay, but the dirty rectangle has already been taken while the
  working buffer keeps the composed ink, and the core does not mark the panel state uncertain.
  So presenting the ink again submits nothing.
\<close>

theorem rejected_ink_is_lost:
  assumes "core_ok c" and "dc_working c = dc_presented c" and "dc_pending c = None"
    and "ov_dirty (dc_ink c) = Some d"
    and "present_ink backend now obs c p = (Inl e, c', p')"
  shows "(\<exists>pe. e = CorePanel pe) \<and> dc_presented c' = dc_presented c \<and>
    dc_base_valid c' = dc_base_valid c \<and>
    dc_panel_state_uncertain c' = dc_panel_state_uncertain c \<and> ov_dirty (dc_ink c') = None \<and>
    (\<forall>j<core_pixels c. surface_pixel (dc_working c') j =
      (if in_rects (dc_base c) [d] j then composite_pixel c' j else surface_pixel (dc_presented c') j)) \<and>
    present_ink backend now obs c' p' = (Inr [], c', p')"
proof -
  obtain w damage where img: "plane_image (plane_taken Latest c) d w damage"
    and e: "\<exists>pe. e = CorePanel pe" and c': "c' = (plane_taken Latest c)\<lparr>dc_working := w\<rparr>"
    using rejected_core [OF assms] by blast
  have "dc_pending c' = None" "ov_dirty (dc_ink c') = None"
    by (simp_all add: c' plane_taken_def assms(3))
  then have "present_ink backend now obs c' p' = (Inr [], c', p')"
    by (cases c') (auto simp: present_ink_def present_plane_def take_dirty_def Let_def)
  moreover have "\<forall>j<core_pixels c. surface_pixel (dc_working c') j =
      (if in_rects (dc_base c) [d] j then composite_pixel c' j else surface_pixel (dc_presented c') j)"
    using img by (simp add: plane_image_def c')
  ultimately show ?thesis using e by (simp add: c' plane_taken_def)
qed

section \<open>Clearing the ink\<close>

text \<open>
  Clearing the ink plane and presenting it, the order \<open>Session::clear_ink\<close> uses, does
  nothing on the panel: clearing forgets the dirty rectangle, so the presentation that follows
  has no region to compose. Every inked pixel keeps what the panel showed before.
\<close>

theorem clear_ink_not_presented:
  assumes "dc_pending c = None"
  shows "present_ink backend now obs (edit_ink overlay_clear c) p =
    (Inr [], edit_ink overlay_clear c, p)"
  using assms
  by (simp add: present_ink_def present_plane_def take_dirty_def edit_ink_def overlay_clear_def)

section \<open>Concrete runs\<close>

lemma demo_planes:
  "dc_overlay demo_core = blank_plane" "dc_peer_overlay demo_core = blank_plane" "dc_ink demo_core = blank_plane"
  "dc_presented demo_core = dc_base demo_core" 
  by (simp_all add: demo_core_def core_new_def core_new_with_format_def policy_new_def map_err_def
      surface_new_with_format_def overlay_transparent_def pixel_len_def checked_mul_usize_def
      default_config_def max_defs Let_def config_validate_def blank_plane_def)

lemma replicate_four: "replicate 4 x = [x, x, x, x]"
  by (simp add: numeral_eq_Suc)

lemma dot_plane: "ink_line 2 (0, 0) (0, 0) 0 False blank_plane =
  blank_plane\<lparr>ov_alpha := [255, 0, 0, 0], ov_transparent := False, ov_dirty := Some (mk_rect 0 0 1 1)\<rparr>"
  by (simp add: ink_line_def ink_steps_def ink_point_def ink_dot_def ink_pixel_def ink_dirty_def Let_def
     blank_plane_def overlay_len_def upto.simps replicate_four)

text \<open>The demo core with one pen dot that has not been presented.\<close>

definition dotted_core :: display_core where
  "dotted_core = draw_ink (0, 0) (0, 0) 0 False demo_core"

lemma dotted_facts:
  "core_ok dotted_core" "dc_working dotted_core = dc_presented dotted_core"
  "dc_pending dotted_core = None" "ov_dirty (dc_ink dotted_core) = Some (mk_rect 0 0 1 1)"
  "dc_base dotted_core = dc_base demo_core" "dc_presented dotted_core = dc_base demo_core"
  "core_pixels dotted_core = 4"
proof -
  have e: "planes_edit (draw_ink (0, 0) (0, 0) 0 False) demo_core"
    by (rule draw_ink_edit [OF level_core_ok [OF demo_level(1)]]) (simp_all add: demo_base)
  have "level dotted_core" using level_planes_edit [OF demo_level(1) e] by (simp add: dotted_core_def)
  then show "core_ok dotted_core" "dc_working dotted_core = dc_presented dotted_core"
    by (simp_all add: level_def)
  show "dc_pending dotted_core = None" "ov_dirty (dc_ink dotted_core) = Some (mk_rect 0 0 1 1)"
    "dc_base dotted_core = dc_base demo_core" "dc_presented dotted_core = dc_base demo_core"
    "core_pixels dotted_core = 4"
    by (simp_all add: dotted_core_def draw_ink_def edit_ink_def demo_level demo_base demo_planes dot_plane
       num_pixels_def)
qed

lemma dotted_pixel:
  "composite_pixel dotted_core 0 = [0]" "surface_pixel (dc_presented dotted_core) 0 = [255]"
proof -
  show "composite_pixel dotted_core 0 = [0]"
  proof -
    have "ov_alpha blank_plane ! 0 = 0" "ov_luma blank_plane ! 0 = 0" by (simp_all add: blank_plane_def replicate_four)
    then show ?thesis
      by (simp add: composite_pixel_def dotted_core_def draw_ink_def edit_ink_def demo_base demo_planes
          dot_plane mix_pixel_def)
  qed
  show "surface_pixel (dc_presented dotted_core) 0 = [255]"
    by (simp add: dotted_facts demo_base surface_pixel_def bytes_per_pixel_def pixel_at_def replicate_four slice_def)
qed
lemma dotted_rejected:
  "\<exists>e c' p'. present_ink mock_backend 0 demo_obs dotted_core (mock_fail_next_submit ''gone'' (mock_new 2 2)) = (Inl e, c', p')"
proof -
  let ?p = "mock_fail_next_submit ''gone'' (mock_new 2 2)" and ?d = "mk_rect 0 0 1 1"
  note f = dotted_facts
  obtain r c' p' where run: "present_ink mock_backend 0 demo_obs dotted_core ?p = (r, c', p')"
    by (metis prod_cases3)
  let ?t = "plane_taken Latest dotted_core"
  obtain r2 where pp: "plane_present mock_backend 0 Latest [?d] ?t ?p = (r2, c', p')"
    "r = and_then r2 (\<lambda>_. Inr [])"
    using run f(3,4) by (auto simp: present_ink_def present_plane_def take_dirty_def plane_taken_def Let_def
        split: prod.splits)
  have t: "core_ok ?t" "dc_pending ?t = None" "dc_working ?t = dc_presented ?t"
    using plane_taken_ok [OF f(1,3,2)] by blast+
  have d: "rect_ok (core_width ?t) (core_height ?t) ?d"
    by (simp add: plane_taken_def f demo_base rect_ok_def)
  obtain w damage decision where img: "plane_image ?t ?d w damage"
    and cases: "(damage = [] \<or> (\<exists>pm. panel_submit mock_backend ?p w damage decision = (Inr pm, p'))) \<or>
      (\<exists>e. r2 = Inl (CorePanel e))"
    using plane_present_spec [OF t d pp(1)] by blast
  have "in_rects (dc_base ?t) [?d] 0"
    by (simp add: in_rects_def covers_def inside_def)
  then have shown: "surface_pixel w 0 = [0]" "surface_pixel (dc_presented ?t) 0 = [255]"
    using img dotted_pixel f(7) by (simp_all add: plane_image_def)
  then have "damage \<noteq> []"
    using img f(7) by (auto simp: plane_image_def plane_taken_def in_rects_def covers_def)
  moreover have "\<nexists>pm. panel_submit mock_backend ?p w damage decision = (Inr pm, p')"
    by (simp add: mock_backend_def mock_submit_def mock_fail_next_submit_def)
  ultimately show ?thesis using cases run pp(2) by auto
qed

lemma mock_plane_accepted:
  assumes "core_ok c" and "dc_pending c = None" and "dc_working c = dc_presented c"
    and "rect_ok (core_width c) (core_height c) d"
    and "plane_present mock_backend now intent [d] c p = (r, c', p')"
    and "info_width (mock_info p) = core_width c" and "info_height (mock_info p) = core_height c"
    and "mock_fail_next p = None"
  shows "r = Inr () \<and> (\<exists>damage. plane_image c d (dc_presented c') damage) \<and> dc_pending c' = None \<and>
    dc_ink c' = dc_ink c \<and> dc_base c' = dc_base c \<and> dc_overlay c' = dc_overlay c \<and>
    dc_peer_overlay c' = dc_peer_overlay c"
proof -
  obtain w damage decision where img: "plane_image c d w damage"
    and cases: "(r = Inr () \<and> dc_presented c' = w \<and> dc_pending c' = None \<and> dc_ink c' = dc_ink c \<and>
        dc_base c' = dc_base c \<and> dc_overlay c' = dc_overlay c \<and> dc_peer_overlay c' = dc_peer_overlay c) \<or>
      (\<exists>e. panel_submit mock_backend p w damage decision = (Inl e, p'))"
    using plane_present_spec [OF assms(1-5)] by blast
  have "fits c w" using img by (simp add: plane_image_def)
  then have "panel_submit mock_backend p w damage decision \<noteq> (Inl e, p')" for e
    using fitsD(5,6) [of c w] assms(6-8) by (auto simp: mock_backend_def mock_submit_def)
  then show ?thesis using cases img by blast
qed

lemma dotted_accepted:
  "\<exists>c' p'. present_ink mock_backend 0 demo_obs dotted_core (mock_new 2 2) = (Inr [], c', p') \<and>
    dc_pending c' = None \<and> surface_pixel (dc_presented c') 0 = [0] \<and>
    composite_pixel (edit_ink overlay_clear c') 0 = [255]"
proof -
  let ?p = "mock_new 2 2" and ?d = "mk_rect 0 0 1 1"
  note f = dotted_facts
  obtain r c' p' where run: "present_ink mock_backend 0 demo_obs dotted_core ?p = (r, c', p')"
    by (metis prod_cases3)
  let ?t = "plane_taken Latest dotted_core"
  obtain r2 where pp: "plane_present mock_backend 0 Latest [?d] ?t ?p = (r2, c', p')"
    "r = and_then r2 (\<lambda>_. Inr [])"
    using run f(3,4) by (auto simp: present_ink_def present_plane_def take_dirty_def plane_taken_def Let_def
        split: prod.splits)
  have t: "core_ok ?t" "dc_pending ?t = None" "dc_working ?t = dc_presented ?t"
    using plane_taken_ok [OF f(1,3,2)] by blast+
  have d: "rect_ok (core_width ?t) (core_height ?t) ?d"
    by (simp add: plane_taken_def f demo_base rect_ok_def)
  have size: "info_width (mock_info ?p) = core_width ?t" "info_height (mock_info ?p) = core_height ?t"
    "mock_fail_next ?p = None" by (simp_all add: mock_new_def plane_taken_def f demo_base)
  obtain damage where a: "r2 = Inr ()" "plane_image ?t ?d (dc_presented c') damage" "dc_pending c' = None"
    "dc_ink c' = dc_ink ?t" "dc_base c' = dc_base ?t" "dc_overlay c' = dc_overlay ?t"
    "dc_peer_overlay c' = dc_peer_overlay ?t"
    using mock_plane_accepted [OF t d pp(1) size] by blast
  have "in_rects (dc_base ?t) [?d] 0"
    by (simp add: in_rects_def covers_def inside_def)
  then have "surface_pixel (dc_presented c') 0 = [0]"
    using a(2) dotted_pixel f(7) by (simp add: plane_image_def)
  moreover have "composite_pixel (edit_ink overlay_clear c') 0 = [255]"
  proof -
    have "ov_alpha blank_plane ! 0 = 0" "ov_luma blank_plane ! 0 = 0" 
      by (simp_all add: blank_plane_def replicate_four)
    moreover have "surface_pixel (dc_base demo_core) 0 = [255]" using dotted_pixel(2) f(6) by simp
    moreover have "ov_alpha (overlay_clear (dc_ink ?t)) ! 0 = 0"
      by (simp add: overlay_clear_def plane_taken_def dotted_core_def draw_ink_def edit_ink_def demo_planes
          dot_plane demo_base)
    ultimately show ?thesis
      by (simp add: composite_pixel_def a plane_taken_def dotted_core_def draw_ink_def edit_ink_def demo_base
          demo_planes mix_pixel_def)
  qed
  ultimately show ?thesis using run pp(2) a(1,3) by auto
qed

lemma demo_overlay_presented:
  "\<exists>c' p'. present_overlay mock_backend 0 demo_obs demo_core (mock_new 2 2) = (Inr [], c', p')"
proof -
  let ?p = "mock_new 2 2" and ?d = "mk_rect 0 0 2 2"
  have l: "core_ok demo_core" "dc_working demo_core = dc_presented demo_core"
    using demo_level(1) by (simp_all add: level_def)
  obtain r c' p' where run: "present_overlay mock_backend 0 demo_obs demo_core ?p = (r, c', p')"
    by (metis prod_cases3)
  obtain r2 where pp: "plane_present mock_backend 0 Settled [?d] demo_core ?p = (r2, c', p')"
    "r = and_then r2 (\<lambda>_. Inr [])"
    using run by (auto simp: present_overlay_def present_plane_def full_damage_def demo_level demo_base Let_def
        split: prod.splits)
  have "r2 = Inr ()"
    using mock_plane_accepted [OF l(1) demo_level(4) l(2) _ pp(1)]
    by (simp add: demo_base mock_new_def rect_ok_def)
  then show ?thesis using run pp(2) by simp
qed

theorem present_overlay_shows_base_witness:
  "\<exists>(c :: display_core) p. present_overlay mock_backend 0 demo_obs demo_core (mock_new 2 2) = (Inr [], c, p) \<and>
     surface_pixel (dc_presented c) 0 = composite_pixel c 0"
proof -
  obtain c p where r: "present_overlay mock_backend 0 demo_obs demo_core (mock_new 2 2) = (Inr [], c, p)"
    using demo_overlay_presented by blast
  have l: "core_ok demo_core" "dc_working demo_core = dc_presented demo_core" "first_frame_full demo_core"
    using demo_level(1) by (simp_all add: level_def)
  have "core_pixels demo_core = 4" by (simp add: demo_base num_pixels_def)
  then show ?thesis using present_overlay_shows_base [OF l r] r by auto
qed

theorem rejected_ink_is_lost_witness:
  "\<exists>(c :: display_core) p. surface_pixel (dc_working c) 0 = [0] \<and> surface_pixel (dc_presented c) 0 = [255] \<and>
     present_ink mock_backend 0 demo_obs c p = (Inr [], c, p)"
proof -
  obtain e c' p' where r: "present_ink mock_backend 0 demo_obs dotted_core
      (mock_fail_next_submit ''gone'' (mock_new 2 2)) = (Inl e, c', p')"
    using dotted_rejected by blast
  note l = rejected_ink_is_lost [OF dotted_facts(1-4) r]
  have "in_rects (dc_base dotted_core) [mk_rect 0 0 1 1] 0"
    by (simp add: in_rects_def covers_def inside_def)
  moreover have "composite_pixel c' 0 = [0]"
  proof -
    obtain w where "c' = (plane_taken Latest dotted_core)\<lparr>dc_working := w\<rparr>"
      using rejected_core [OF dotted_facts(1-4) r] by blast
    then show ?thesis by (simp add: dotted_pixel)
  qed
  ultimately have "surface_pixel (dc_working c') 0 = [0]" using l dotted_facts(7) by simp
  moreover have "surface_pixel (dc_presented c') 0 = [255]" using l dotted_pixel(2) by simp
  ultimately show ?thesis using l by blast
qed

theorem clear_ink_not_presented_witness:
  "\<exists>(c :: display_core) p. present_ink mock_backend 0 demo_obs (edit_ink overlay_clear c) p =
       (Inr [], edit_ink overlay_clear c, p) \<and>
     surface_pixel (dc_presented (edit_ink overlay_clear c)) 0 = [0] \<and>
     composite_pixel (edit_ink overlay_clear c) 0 = [255]"
proof -
  obtain c p where c: "dc_pending c = None" "surface_pixel (dc_presented c) 0 = [0]"
    "composite_pixel (edit_ink overlay_clear c) 0 = [255]"
    using dotted_accepted by blast
  from clear_ink_not_presented [OF c(1)] c(2,3)
  show ?thesis by (intro exI [of _ c] exI [of _ "mock_new 2 2"]) (auto simp: edit_ink_def)
qed

end
