(* ===== verification/Wire.thy ===== *)
theory Wire
  imports Prelude "HOL-Library.Sublist"
begin

text \<open>
  The wire format of \<open>rm-display-protocol/src/wire.rs\<close>: an 8-byte header (magic, big-endian
  payload length) in front of every protobuf envelope, and the receiver's input loop
  (\<open>server.rs\<close>) that takes complete frames off a growing buffer. The protobuf library is a
  parameter: \<open>'m prost\<close> holds its \<open>encoded_len\<close>, \<open>encode\<close> and \<open>decode\<close> for envelopes.
\<close>

section \<open>Data\<close>

record 'm prost =
  prost_len :: "'m \<Rightarrow> nat"
  prost_encode :: "'m \<Rightarrow> bytes"
  prost_decode :: "bytes \<Rightarrow> 'm option"

text \<open>What the documentation of the library promises for the envelopes of this program.\<close>

definition coded :: "'m prost \<Rightarrow> 'm \<Rightarrow> bool" where
  "coded P m \<longleftrightarrow> length (prost_encode P m) = prost_len P m \<and> prost_decode P (prost_encode P m) = Some m"

definition prost_ok :: "'m prost \<Rightarrow> bool" where
  "prost_ok P \<longleftrightarrow> (\<forall>m. coded P m)"

datatype wire_error = InvalidMagic | PayloadTooLarge nat nat | WireDecode | EncodeTooLarge

definition wire_magic :: bytes where "wire_magic = [0x52, 0x4D, 0x44, 0x32]"
definition header_len :: nat where "header_len = 8"
definition pre_handshake_max_payload :: nat where "pre_handshake_max_payload = 64 * 1024"
definition hard_max_payload :: nat where "hard_max_payload = 32 * 1024 * 1024"

text \<open>The codec is its limit; \<open>new\<close> and \<open>set_max_payload\<close> both clamp it.\<close>

definition codec_limit :: "nat \<Rightarrow> nat" where
  "codec_limit max_payload = min max_payload hard_max_payload"

definition u32_be_bytes :: "u32 \<Rightarrow> bytes" where
  "u32_be_bytes v = [ucast (drop_bit 24 v), ucast (drop_bit 16 v), ucast (drop_bit 8 v), ucast v]"

unbundle bit_operations_syntax

definition u32_from_be :: "u8 \<Rightarrow> u8 \<Rightarrow> u8 \<Rightarrow> u8 \<Rightarrow> u32" where
  "u32_from_be a b c d = push_bit 24 (ucast a) OR push_bit 16 (ucast b) OR push_bit 8 (ucast c) OR ucast d"

section \<open>Operations\<close>

definition wire_encode ::
  "'m prost \<Rightarrow> nat \<Rightarrow> 'm \<Rightarrow> bytes \<Rightarrow> (wire_error, unit) result \<times> bytes" where
  "wire_encode P limit m dst =
     (let n = prost_len P m in
      if n > limit then (Inl (PayloadTooLarge n limit), dst)
      else if n > u32_max then (Inl EncodeTooLarge, dst)
      else (Inr (), dst @ wire_magic @ u32_be_bytes (word_of_nat n) @ prost_encode P m))"

definition wire_decode ::
  "'m prost \<Rightarrow> nat \<Rightarrow> bytes \<Rightarrow> (wire_error, 'm option) result \<times> bytes" where
  "wire_decode P limit src =
     (if length src < header_len then (Inr None, src)
      else if take 4 src \<noteq> wire_magic then (Inl InvalidMagic, src)
      else
        let n = unat (u32_from_be (src ! 4) (src ! 5) (src ! 6) (src ! 7)) in
        if n > limit then (Inl (PayloadTooLarge n limit), src)
        else if length src < header_len + n then (Inr None, src)
        else
          let rest = drop header_len src; payload = take n rest
          in (case prost_decode P payload of
                None \<Rightarrow> (Inl WireDecode, drop n rest)
              | Some m \<Rightarrow> (Inr (Some m), drop n rest)))"

text \<open>\<open>write_envelopes\<close> encodes a batch into one buffer and writes it only if all fit.\<close>

fun encode_all :: "'m prost \<Rightarrow> nat \<Rightarrow> 'm list \<Rightarrow> bytes \<Rightarrow> (wire_error, unit) result \<times> bytes" where
  "encode_all P limit [] out = (Inr (), out)"
| "encode_all P limit (m # ms) out =
     (case wire_encode P limit m out of
        (Inl e, out') \<Rightarrow> (Inl e, out')
      | (Inr _, out') \<Rightarrow> encode_all P limit ms out')"

definition write_envelopes :: "'m prost \<Rightarrow> nat \<Rightarrow> 'm list \<Rightarrow> (wire_error, bytes) result" where
  "write_envelopes P limit ms =
     (case encode_all P limit ms [] of (Inl e, _) \<Rightarrow> Inl e | (Inr _, out) \<Rightarrow> Inr out)"

lemma wire_decode_consumes:
  "wire_decode P limit src = (Inr (Some m), src') \<Longrightarrow> length src' < length src"
  by (auto simp: wire_decode_def header_len_def Let_def split: if_splits option.splits)

text \<open>
  The input loop: envelopes are taken off the buffer until it holds no complete one. The
  result is the envelopes that were handled, the error that ended the connection, if any, and
  the bytes left in the buffer.
\<close>

function decode_all :: "'m prost \<Rightarrow> nat \<Rightarrow> bytes \<Rightarrow> 'm list \<times> wire_error option \<times> bytes" where
  "decode_all P limit src =
     (case wire_decode P limit src of
        (Inl e, src') \<Rightarrow> ([], Some e, src')
      | (Inr None, src') \<Rightarrow> ([], None, src')
      | (Inr (Some m), src') \<Rightarrow>
          (case decode_all P limit src' of (ms, err, rest) \<Rightarrow> (m # ms, err, rest)))"
  by pat_completeness auto

termination
  by (relation "measure (\<lambda>(P, limit, src). length src)") (auto intro: wire_decode_consumes [OF sym])

declare decode_all.simps [simp del]

text \<open>One network read: the chunk is appended to the buffer, which is then drained.\<close>

definition read_chunk ::
  "'m prost \<Rightarrow> nat \<Rightarrow> bytes \<Rightarrow> 'm list \<times> wire_error option \<times> bytes \<Rightarrow> 'm list \<times> wire_error option \<times> bytes" where
  "read_chunk P limit chunk s =
     (case s of
        (handled, Some e, input) \<Rightarrow> s
      | (handled, None, input) \<Rightarrow>
          (case decode_all P limit (input @ chunk) of (ms, err, rest) \<Rightarrow> (handled @ ms, err, rest)))"

section \<open>The header\<close>

lemma length_u32_be_bytes [simp]: "length (u32_be_bytes v) = 4"
  by (simp add: u32_be_bytes_def)

lemma u32_be_roundtrip:
  "u32_from_be (ucast (drop_bit 24 v)) (ucast (drop_bit 16 v)) (ucast (drop_bit 8 v)) (ucast v) = v"
  by (rule bit_word_eqI)
    (auto simp: u32_from_be_def bit_or_iff bit_push_bit_iff bit_ucast_iff bit_drop_bit_eq
      split: nat_diff_split)

lemma u32_be_length: "n \<le> u32_max \<Longrightarrow> unat (word_of_nat n :: u32) = n"
  by (simp add: u32_max_def unat_of_nat)

definition frame_bytes :: "'m prost \<Rightarrow> 'm \<Rightarrow> bytes" where
  "frame_bytes P m = wire_magic @ u32_be_bytes (word_of_nat (prost_len P m)) @ prost_encode P m"

text \<open>An envelope the codec can send.\<close>

definition sendable :: "'m prost \<Rightarrow> nat \<Rightarrow> 'm \<Rightarrow> bool" where
  "sendable P limit m \<longleftrightarrow> prost_len P m \<le> limit \<and> prost_len P m \<le> u32_max"

lemma length_frame_bytes:
  "prost_ok P \<Longrightarrow> length (frame_bytes P m) = header_len + prost_len P m"
  by (simp add: frame_bytes_def prost_ok_def coded_def header_len_def wire_magic_def)

lemma frame_bytes_nonempty: "frame_bytes P m \<noteq> []"
  by (simp add: frame_bytes_def wire_magic_def)

lemma encode_sendable:
  "sendable P limit m \<Longrightarrow> wire_encode P limit m dst = (Inr (), dst @ frame_bytes P m)"
  by (simp add: sendable_def wire_encode_def frame_bytes_def)

lemma encode_all_sendable:
  "\<forall>m\<in>set ms. sendable P limit m \<Longrightarrow> encode_all P limit ms dst = (Inr (), dst @ concat (map (frame_bytes P) ms))"
  by (induction ms arbitrary: dst) (simp_all add: encode_sendable)

lemma frame_header:
  assumes "prefix (take header_len (frame_bytes P m)) src" and "prost_len P m \<le> u32_max"
  shows "take 4 src = wire_magic"
    and "unat (u32_from_be (src ! 4) (src ! 5) (src ! 6) (src ! 7)) = prost_len P m"
proof -
  have h: "take header_len (frame_bytes P m) = wire_magic @ u32_be_bytes (word_of_nat (prost_len P m))"
    by (simp add: frame_bytes_def header_len_def wire_magic_def)
  then obtain tl where src: "src = wire_magic @ u32_be_bytes (word_of_nat (prost_len P m)) @ tl"
    using assms(1) by (auto simp: prefix_def)
  show "take 4 src = wire_magic" by (simp add: src wire_magic_def)
  show "unat (u32_from_be (src ! 4) (src ! 5) (src ! 6) (src ! 7)) = prost_len P m"
    using u32_be_roundtrip [of "word_of_nat (prost_len P m)"] u32_be_length [OF assms(2)]
    by (simp add: src wire_magic_def u32_be_bytes_def)
qed

text \<open>A complete frame is decoded and removed; an incomplete one waits.\<close>

lemma decode_coded:
  assumes "coded P m" and "sendable P limit m"
  shows "wire_decode P limit (frame_bytes P m @ rest) = (Inr (Some m), rest)"
proof -
  let ?src = "frame_bytes P m @ rest"
  have "prefix (take header_len (frame_bytes P m)) ?src" by (simp add: take_is_prefix prefix_prefix)
  note h = frame_header [OF this] 
  have n: "prost_len P m \<le> u32_max" "prost_len P m \<le> limit" using assms(2) by (auto simp: sendable_def)
  have len: "length (frame_bytes P m) = header_len + prost_len P m"
    using assms(1) by (simp add: frame_bytes_def coded_def header_len_def wire_magic_def)
  have "drop header_len ?src = prost_encode P m @ rest"
    by (simp add: frame_bytes_def header_len_def wire_magic_def)
  moreover have "length (prost_encode P m) = prost_len P m" "prost_decode P (prost_encode P m) = Some m"
    using assms(1) by (simp_all add: coded_def)
  ultimately show ?thesis
    using h [OF n(1)] n(2) len
    unfolding wire_decode_def Let_def by simp
qed

lemma decode_frame:
  "prost_ok P \<Longrightarrow> sendable P limit m \<Longrightarrow> wire_decode P limit (frame_bytes P m @ rest) = (Inr (Some m), rest)"
  by (simp add: decode_coded prost_ok_def)

lemma decode_partial:
  assumes "prost_ok P" and "sendable P limit m" and "strict_prefix src (frame_bytes P m)"
  shows "wire_decode P limit src = (Inr None, src)"
proof (cases "length src < header_len")
  case True
  then show ?thesis by (simp add: wire_decode_def)
next
  case False
  have "take header_len (frame_bytes P m) = take header_len src"
    using assms(3) False by (auto simp: strict_prefix_def prefix_def)
  then have "prefix (take header_len (frame_bytes P m)) src" by (simp add: take_is_prefix)
  note h = frame_header [OF this]
  have "length src < header_len + prost_len P m"
    using prefix_length_less [OF assms(3)] length_frame_bytes [OF assms(1)] by simp
  then show ?thesis using h assms(2) False by (simp add: wire_decode_def sendable_def Let_def)
qed

section \<open>Streams of frames\<close>

lemma decode_all_nil [simp]: "decode_all P limit [] = ([], None, [])"
  by (subst decode_all.simps) (simp add: wire_decode_def header_len_def)

lemma decode_all_frame:
  assumes "prost_ok P" and "sendable P limit m" and "decode_all P limit rest = (ms, err, left)"
  shows "decode_all P limit (frame_bytes P m @ rest) = (m # ms, err, left)"
  using assms by (subst decode_all.simps) (simp add: decode_frame)

lemma prefix_of_append:
  "prefix xs (ys @ zs) \<Longrightarrow> strict_prefix xs ys \<or> (\<exists>us. xs = ys @ us \<and> prefix us zs)"
  by (auto simp: prefix_append strict_prefix_def)

text \<open>
  Draining any beginning of a stream of frames yields the frames that are complete and leaves
  the rest of the beginning in the buffer.
\<close>

lemma decode_all_prefix:
  assumes "prost_ok P" and "\<forall>m\<in>set ms. sendable P limit m"
    and "prefix src (concat (map (frame_bytes P) ms))"
  shows "\<exists>got todo left. ms = got @ todo \<and> decode_all P limit src = (got, None, left) \<and>
    src = concat (map (frame_bytes P) got) @ left"
  using assms(2,3)
proof (induction ms arbitrary: src)
  case Nil
  then show ?case by simp
next
  case (Cons m ms)
  from prefix_of_append [of src "frame_bytes P m" "concat (map (frame_bytes P) ms)"] Cons.prems(2)
  consider "strict_prefix src (frame_bytes P m)" | us where "src = frame_bytes P m @ us"
    "prefix us (concat (map (frame_bytes P) ms))" by auto
  then show ?case
  proof cases
    case 1
    then have "decode_all P limit src = ([], None, src)"
      using decode_partial [OF assms(1), of limit m src] Cons.prems(1)
      by (subst decode_all.simps) simp
    then show ?thesis by (intro exI [of _ "[]"] exI [of _ "m # ms"] exI [of _ src]) simp
  next
    case 2
    from Cons.IH [OF _ 2(2)] Cons.prems(1) obtain got todo left where
      "ms = got @ todo" "decode_all P limit us = (got, None, left)"
      "us = concat (map (frame_bytes P) got) @ left" by auto
    then have "decode_all P limit src = (m # got, None, left)"
      "src = concat (map (frame_bytes P) (m # got)) @ left" "m # ms = (m # got) @ todo"
      using decode_all_frame [OF assms(1)] Cons.prems(1) 2(1) by simp_all
    then show ?thesis by blast
  qed
qed

lemma decode_all_drained:
  "decode_all P limit src = (got, None, left) \<Longrightarrow> decode_all P limit left = ([], None, left)"
proof (induction P limit src arbitrary: got rule: decode_all.induct)
  case (1 P limit src)
  obtain r src' where w: "wire_decode P limit src = (r, src')" by (rule prod.exhaust)
  note d = "1.prems" [unfolded decode_all.simps [of P limit src] w]
  show ?case
  proof (cases r)
    case (Inl e)
    then show ?thesis using d by simp
  next
    case (Inr o')
    show ?thesis
    proof (cases o')
      case None
      then have "src' = src" "left = src" "got = []"
        using d w Inr by (auto simp: wire_decode_def Let_def split: if_splits option.splits)
      then show ?thesis using "1.prems" by simp
    next
      case (Some m)
      then obtain got' where "decode_all P limit src' = (got', None, left)"
        using d Inr by (auto split: prod.splits)
      then show ?thesis using "1.IH" [OF w [symmetric] Inr Some] by blast
    qed
  qed
qed

lemma read_chunks_prefix:
  assumes "prost_ok P" and "\<forall>m\<in>set ms. sendable P limit m"
    and "prefix (input @ concat chunks) (concat (map (frame_bytes P) ms))"
    and "decode_all P limit input = ([], None, input)"
  shows "\<exists>got todo left. ms = got @ todo \<and>
    fold (read_chunk P limit) chunks (handled, None, input) = (handled @ got, None, left) \<and>
    input @ concat chunks = concat (map (frame_bytes P) got) @ left \<and>
    decode_all P limit left = ([], None, left)"
  using assms(2-4)
proof (induction chunks arbitrary: handled input ms)
  case Nil
  then show ?case by (intro exI [of _ "[]"] exI [of _ ms] exI [of _ input]) simp
next
  case (Cons chunk chunks)
  have "prefix (input @ chunk) (concat (map (frame_bytes P) ms))"
    using Cons.prems(2) by (auto simp: prefix_def)
  from decode_all_prefix [OF assms(1) Cons.prems(1) this] obtain got todo left where
    d: "ms = got @ todo" "decode_all P limit (input @ chunk) = (got, None, left)"
    "input @ chunk = concat (map (frame_bytes P) got) @ left" by auto
  have all: "input @ concat (chunk # chunks) = concat (map (frame_bytes P) got) @ left @ concat chunks"
    using d(3) by (simp flip: append_assoc)
  then have "prefix (left @ concat chunks) (concat (map (frame_bytes P) todo))"
    using Cons.prems(2) unfolding all d(1) by simp
  from Cons.IH [OF _ this decode_all_drained [OF d(2)], of "handled @ got"] Cons.prems(1) d(1)
  obtain got' todo' left' where
    r: "todo = got' @ todo'"
    "fold (read_chunk P limit) chunks (handled @ got, None, left) = (handled @ got @ got', None, left')"
    "left @ concat chunks = concat (map (frame_bytes P) got') @ left'"
    "decode_all P limit left' = ([], None, left')" by auto
  have "ms = (got @ got') @ todo'" using d(1) r(1) by simp
  moreover have "fold (read_chunk P limit) (chunk # chunks) (handled, None, input) =
      (handled @ got @ got', None, left')"
    using r(2) d(2) by (simp add: read_chunk_def)
  moreover have "input @ concat (chunk # chunks) = concat (map (frame_bytes P) (got @ got')) @ left'"
    using all r(3) by simp
  ultimately show ?case using r(4) by blast
qed

text \<open>
  Claim C33. The transport may split the stream anywhere: when a batch of envelopes within the
  limit is written and the receiver reads the bytes in arbitrary chunks, its input loop hands
  out exactly those envelopes, in order, with no error and an empty buffer.
\<close>

theorem stream_roundtrip:
  assumes "prost_ok P" and "\<forall>m\<in>set ms. prost_len P m \<le> limit \<and> prost_len P m \<le> u32_max"
  shows "\<exists>out. write_envelopes P limit ms = Inr out \<and>
    (\<forall>chunks. concat chunks = out \<longrightarrow>
      fold (read_chunk P limit) chunks ([], None, []) = (ms, None, []))"
proof -
  let ?out = "concat (map (frame_bytes P) ms)"
  have ok: "\<forall>m\<in>set ms. sendable P limit m" using assms(2) by (simp add: sendable_def)
  have "write_envelopes P limit ms = Inr ?out"
    by (simp add: write_envelopes_def encode_all_sendable [OF ok])
  moreover have "fold (read_chunk P limit) chunks ([], None, []) = (ms, None, [])"
    if out: "concat chunks = ?out" for chunks
  proof -
    have p: "prefix ([] @ concat chunks) ?out" by (simp add: out)
    obtain got todo left where r: "ms = got @ todo"
      "fold (read_chunk P limit) chunks ([], None, []) = (got, None, left)"
      "concat chunks = concat (map (frame_bytes P) got) @ left"
      "decode_all P limit left = ([], None, left)"
      using read_chunks_prefix [OF assms(1) ok p decode_all_nil, of "[]"] by auto
    have left: "left = concat (map (frame_bytes P) todo)" using out r(1,3) by simp
    have "todo = []"
    proof (cases todo)
      case (Cons m todo')
      obtain ms' err left' where "decode_all P limit (concat (map (frame_bytes P) todo')) = (ms', err, left')"
        by (rule prod_cases3)
      from decode_all_frame [OF assms(1) _ this, of m] ok r(1,4)
      show ?thesis by (simp add: left Cons)
    qed simp
    then show ?thesis using r(1,2) left by simp
  qed
  ultimately show ?thesis by blast
qed

text \<open>
  The decoder needs no more than one frame of buffer and never buffers an oversized
  frame: it asks for more bytes only while the buffer is shorter than a header plus the limit,
  and then takes nothing away; a wrong magic or a length above the limit is reported as soon as
  the header is complete; and an envelope is handed out only with at least a header consumed.
\<close>

theorem wire_decode_bounded:
  assumes "wire_decode P limit src = (res, src')"
  shows "(res = Inr None \<longrightarrow> src' = src \<and> length src < header_len + limit \<or> length src < header_len) \<and>
    (header_len \<le> length src \<and> take 4 src \<noteq> wire_magic \<longrightarrow> res = Inl InvalidMagic) \<and>
    (header_len \<le> length src \<and> take 4 src = wire_magic \<and>
       limit < unat (u32_from_be (src ! 4) (src ! 5) (src ! 6) (src ! 7)) \<longrightarrow>
       res = Inl (PayloadTooLarge (unat (u32_from_be (src ! 4) (src ! 5) (src ! 6) (src ! 7))) limit)) \<and>
    (\<forall>m. res = Inr (Some m) \<longrightarrow> length src' + header_len \<le> length src \<and>
       length src - length src' \<le> header_len + limit)"
  using assms by (auto simp: wire_decode_def header_len_def Let_def split: if_splits option.splits)

section \<open>Concrete streams\<close>

definition byte_prost :: "bytes prost" where
  "byte_prost = \<lparr>prost_len = length, prost_encode = (\<lambda>m. m), prost_decode = Some\<rparr>"

theorem stream_roundtrip_witness:
  "\<exists>out. write_envelopes byte_prost 64 [[1, 2], [], [3]] = Inr out \<and>
     fold (read_chunk byte_prost 64) (map (\<lambda>b. [b]) out) ([], None, []) = ([[1, 2], [], [3]], None, [])"
proof -
  have ok: "prost_ok byte_prost" by (simp add: prost_ok_def coded_def byte_prost_def)
  have small: "\<forall>m\<in>set [[1, 2], [], [3]]. prost_len byte_prost m \<le> 64 \<and> prost_len byte_prost m \<le> u32_max"
    by (simp add: byte_prost_def u32_max_def)
  obtain out where w: "write_envelopes byte_prost 64 [[1, 2], [], [3]] = Inr out"
    "\<And>chunks. concat chunks = out \<Longrightarrow>
      fold (read_chunk byte_prost 64) chunks ([], None, []) = ([[1, 2], [], [3]], None, [])"
    using stream_roundtrip [OF ok small] by blast
  have "concat (map (\<lambda>b. [b]) out) = out" by (induction out) simp_all
  then show ?thesis using w by blast
qed

theorem wire_decode_bounded_witness:
  "fst (wire_decode byte_prost 4 [0x52, 0x4D, 0x44, 0x32, 0, 0, 0, 5]) = Inl (PayloadTooLarge 5 4)"
proof -
  have "unat (u32_from_be 0 0 0 5) = 5" by (simp add: u32_from_be_def)
  then show ?thesis
    using wire_decode_bounded [OF surjective_pairing,
        of byte_prost 4 "[0x52, 0x4D, 0x44, 0x32, 0, 0, 0, 5]"]
    by (simp add: header_len_def wire_magic_def)
qed

end
