(* ===== verification/Native.thy ===== *)
theory Native
  imports Pixels Grid Panel
begin

text \<open>
  Writing damage into the native framebuffer (\<open>native_pixels.rs\<close>): the framebuffer has its
  own pixel format and a stride in bytes that may exceed the row. The buffer is a byte list,
  \<open>&mut buffer\<close> is returned with the result.
\<close>

section \<open>Formats\<close>

datatype native_format = NativeGray8 | NativeRgb565 | NativeBgra32 | NativeRgba32

text \<open>The decimal rendering of \<open>format!("{other}")\<close>.\<close>

definition decimal :: "int \<Rightarrow> string" where
  "decimal i = (if i < 0 then CHR ''-'' # decimal_nat (nat (- i)) else decimal_nat (nat i))"

definition from_qt :: "int \<Rightarrow> (panel_error, native_format) result" where
  "from_qt format =
     (if format = 24 then Inr NativeGray8
      else if format = 7 then Inr NativeRgb565
      else if 4 \<le> format \<and> format \<le> 6 then Inr NativeBgra32
      else if 16 \<le> format \<and> format \<le> 18 then Inr NativeRgba32
      else Inl (PanelUnsupported (''Qt framebuffer format '' @ decimal format)))"

fun native_bytes :: "native_format \<Rightarrow> nat" where
  "native_bytes NativeGray8 = 1"
| "native_bytes NativeRgb565 = 2"
| "native_bytes NativeBgra32 = 4"
| "native_bytes NativeRgba32 = 4"

fun source_bytes :: "pixel_format \<Rightarrow> nat option" where
  "source_bytes Gray8 = Some 1"
| "source_bytes Rgb565Le = Some 2"
| "source_bytes _ = None"

section \<open>Pixels\<close>

definition unpack_rgb565 :: "bytes \<Rightarrow> u8 \<times> u8 \<times> u8" where
  "unpack_rgb565 input =
     (let packed = u16_from_le (input ! 0) (input ! 1)
      in (expand5 (ucast (drop_bit 11 packed)), expand6 (ucast (drop_bit 5 packed)),
          expand5 (ucast packed)))"

definition rgb_luma :: "u8 \<Rightarrow> u8 \<Rightarrow> u8 \<Rightarrow> u8" where
  "rgb_luma red green blue =
     ucast (drop_bit 8 (ucast red * 77 + ucast green * 150 + ucast blue * 29 + 128 :: u32))"

text \<open>One pixel through the arms of the \<open>match\<close>.\<close>

fun native_pixel :: "pixel_format \<Rightarrow> native_format \<Rightarrow> bytes \<Rightarrow> bytes" where
  "native_pixel Gray8 NativeGray8 px = px"
| "native_pixel Rgb565Le NativeRgb565 px = px"
| "native_pixel Gray8 NativeRgb565 px = u16_le_bytes (pack_rgb565 (px ! 0) (px ! 0) (px ! 0))"
| "native_pixel Rgb565Le NativeGray8 px =
     (case unpack_rgb565 px of (red, green, blue) \<Rightarrow> [rgb_luma red green blue])"
| "native_pixel Rgb565Le NativeBgra32 px =
     (case unpack_rgb565 px of (red, green, blue) \<Rightarrow> [blue, green, red, 0xff])"
| "native_pixel Rgb565Le NativeRgba32 px =
     (case unpack_rgb565 px of (red, green, blue) \<Rightarrow> [red, green, blue, 0xff])"
| "native_pixel Gray8 _ px = [px ! 0, px ! 0, px ! 0, 0xff]"
| "native_pixel _ _ px = px"

section \<open>Writing damage\<close>

definition validate_native_rect :: "rect \<Rightarrow> nat \<Rightarrow> nat \<Rightarrow> (panel_error, unit) result" where
  "validate_native_rect r width height =
     (if rect_w r = 0 \<or> rect_h r = 0 \<or>
         (case checked_add_u32 (rect_x r) (rect_w r) of None \<Rightarrow> True | Some right \<Rightarrow> right > width) \<or>
         (case checked_add_u32 (rect_y r) (rect_h r) of None \<Rightarrow> True | Some bottom \<Rightarrow> bottom > height)
      then Inl (PanelUnsupported ''damage rectangle is outside panel'') else Inr ())"

definition native_row ::
  "nat \<Rightarrow> nat \<Rightarrow> native_format \<Rightarrow> pixel_format \<Rightarrow> nat \<Rightarrow> bytes \<Rightarrow> rect \<Rightarrow> nat \<Rightarrow> bytes \<Rightarrow> bytes" where
  "native_row stride width format source_format source_bpp source r y buffer =
     copy_into buffer (y * stride + rect_x r * native_bytes format)
       (concat (map (\<lambda>x. native_pixel source_format format
            (slice source ((y * width + x) * source_bpp) source_bpp))
          [rect_x r..<rect_x r + rect_w r]))"

fun write_rects ::
  "nat \<Rightarrow> nat \<Rightarrow> (rect \<Rightarrow> nat \<Rightarrow> bytes \<Rightarrow> bytes) \<Rightarrow> rect list \<Rightarrow> bytes \<Rightarrow> (panel_error, unit) result \<times> bytes" where
  "write_rects width height row [] buffer = (Inr (), buffer)"
| "write_rects width height row (r # rs) buffer =
     (case validate_native_rect r width height of
        Inl e \<Rightarrow> (Inl e, buffer)
      | Inr _ \<Rightarrow> write_rects width height row rs
          (fold (row r) [rect_y r..<rect_y r + rect_h r] buffer))"

definition write_damage ::
  "bytes \<Rightarrow> nat \<Rightarrow> nat \<Rightarrow> nat \<Rightarrow> native_format \<Rightarrow> pixel_format \<Rightarrow> bytes \<Rightarrow> rect list \<Rightarrow>
   (panel_error, unit) result \<times> bytes" where
  "write_damage buffer stride width height format source_format source damage =
     (case checked_mul_usize width height of
        None \<Rightarrow> (Inl (PanelUnsupported ''panel geometry overflow''), buffer)
      | Some pixel_count \<Rightarrow>
        (case source_bytes source_format of
           None \<Rightarrow> (Inl (PanelUnsupported ''source pixel format''), buffer)
         | Some source_bpp \<Rightarrow>
           if length source \<noteq> min (pixel_count * source_bpp) u64_max
           then (Inl (PanelUnsupported ''source frame length mismatch''), buffer)
           else (case checked_mul_usize width (native_bytes format) of
               None \<Rightarrow> (Inl (PanelUnsupported ''native stride overflow''), buffer)
             | Some minimum_stride \<Rightarrow>
               if stride < minimum_stride
               then (Inl (PanelUnsupported ''native framebuffer stride is too small''), buffer)
               else (case checked_mul_usize stride height of
                   None \<Rightarrow> (Inl (PanelUnsupported ''native buffer length overflow''), buffer)
                 | Some needed \<Rightarrow>
                   if length buffer < needed
                   then (Inl (PanelUnsupported ''native framebuffer stride is too small''), buffer)
                   else write_rects width height
                     (native_row stride width format source_format source_bpp source) damage buffer))))"

section \<open>What a write leaves in the framebuffer\<close>

text \<open>
  Byte \<open>i\<close> of the framebuffer lies in row \<open>i div stride\<close>, in pixel column
  \<open>i mod stride div native_bytes\<close>; the padding of a row has columns from \<open>width\<close> on.
\<close>

definition native_byte ::
  "nat \<Rightarrow> nat \<Rightarrow> native_format \<Rightarrow> pixel_format \<Rightarrow> nat \<Rightarrow> bytes \<Rightarrow> nat \<Rightarrow> u8" where
  "native_byte stride width format source_format source_bpp source i =
     (let y = i div stride; c = i mod stride; x = c div native_bytes format
      in native_pixel source_format format (slice source ((y * width + x) * source_bpp) source_bpp)
           ! (c mod native_bytes format))"

definition native_covered :: "nat \<Rightarrow> native_format \<Rightarrow> rect list \<Rightarrow> nat \<Rightarrow> bool" where
  "native_covered stride format rs i = covers rs (i mod stride div native_bytes format) (i div stride)"

lemma native_bytes_pos [simp]: "0 < native_bytes format"
  by (cases format) simp_all

lemma length_native_pixel:
  "source_bytes sf = Some b \<Longrightarrow> length px = b \<Longrightarrow> length (native_pixel sf nf px) = native_bytes nf"
  by (cases sf; cases nf) (auto split: prod.splits)

lemma nth_concat_uniform:
  assumes "\<forall>x\<in>set xs. length (f x) = b" and "i < length xs * b"
  shows "concat (map f xs) ! i = f (xs ! (i div b)) ! (i mod b)"
  using assms
proof (induction xs arbitrary: i)
  case Nil
  then show ?case by simp
next
  case (Cons x xs)
  have b: "0 < b" using Cons.prems(2) by (cases b) simp_all
  show ?case
  proof (cases "i < b")
    case True
    then show ?thesis using Cons.prems(1) by (simp add: nth_append)
  next
    case False
    then have "i - b < length xs * b" using Cons.prems(2) by simp
    from Cons.IH [OF _ this] show ?thesis
      using Cons.prems(1) False b by (simp add: nth_append le_div_geq le_mod_geq)
  qed
qed

lemma length_concat_uniform:
  "\<forall>x\<in>set xs. length (f x) = b \<Longrightarrow> length (concat (map f xs)) = length xs * b"
  by (induction xs) simp_all

lemma validate_native_rect_Inr [range_simps]:
  assumes "W \<le> u32_max" and "H \<le> u32_max"
  shows "validate_native_rect r W H = Inr u \<longleftrightarrow> rect_ok W H r"
  using assms by (auto simp: validate_native_rect_def rect_ok_def checked_add_u32_def split: if_splits)

lemma div_minus_cells: "0 < b \<Longrightarrow> l * b \<le> c \<Longrightarrow> (c - l * b) div b = c div b - (l :: nat)"
  by (metis add_diff_inverse_nat diff_add_inverse div_mult_self3 less_not_refl linorder_not_less mult.commute)

lemma mod_minus_cells: "l * b \<le> c \<Longrightarrow> (c - l * b) mod b = c mod (b :: nat)"
  by (metis add.commute le_add_diff_inverse mod_mult_self1)

lemma native_row_range:
  fixes y stride l w nb i :: nat
  assumes "l * nb + w * nb \<le> stride" and "0 < nb"
  shows "y * stride + l * nb \<le> i \<and> i < y * stride + l * nb + w * nb \<longleftrightarrow>
    i div stride = y \<and> l \<le> i mod stride div nb \<and> i mod stride div nb < l + w"
proof (cases "i div stride = y")
  case True
  then have i: "i = y * stride + i mod stride" using div_mult_mod_eq [of i stride] by simp
  have "l \<le> i mod stride div nb \<longleftrightarrow> l * nb \<le> i mod stride"
    using assms(2) by (simp add: less_eq_div_iff_mult_less_eq)
  moreover have "i mod stride div nb < l + w \<longleftrightarrow> i mod stride < (l + w) * nb"
    using assms(2) by (simp add: div_less_iff_less_mult)
  ultimately show ?thesis using True i by (simp add: add_mult_distrib) linarith
next
  case False
  have "\<not> (y * stride \<le> i \<and> i < Suc y * stride)"
    using False div_nat_eqI [of stride y i] by (auto simp: mult.commute)
  then show ?thesis using False assms(1) by auto
qed

text \<open>One row of one rectangle, byte by byte.\<close>

lemma writes_native_row:
  assumes "source_bytes sf = Some b" and "length source = W * H * b"
    and "W * native_bytes nf \<le> stride" and "stride * H \<le> n"
    and "rect_ok W H r" and "rect_y r \<le> y" and "y < rect_y r + rect_h r"
  shows "writes n 1 (native_row stride W nf sf b source r y)
    (\<lambda>i. i div stride = y \<and> rect_x r \<le> i mod stride div native_bytes nf \<and>
       i mod stride div native_bytes nf < rect_x r + rect_w r)
    (\<lambda>i v. [native_byte stride W nf sf b source i])"
proof (rule writesI)
  let ?nb = "native_bytes nf" and ?l = "rect_x r" and ?w = "rect_w r"
  let ?px = "\<lambda>x. native_pixel sf nf (slice source ((y * W + x) * b) b)"
  let ?data = "concat (map ?px [?l..<?l + ?w])"
  fix xs :: bytes assume xs: "length xs = n * 1"
  have lr: "?l + ?w \<le> W" and y: "y < H" using assms(5-7) by (auto simp: rect_ok_def)
  have px: "\<forall>x\<in>set [?l..<?l + ?w]. length (?px x) = ?nb"
  proof
    fix x assume "x \<in> set [?l..<?l + ?w]"
    then have "y * W + x < W * H" using cell_bound [of x W y H] lr y by (simp add: mult.commute)
    from pixel_in_bounds [OF assms(2) this] show "length (?px x) = ?nb"
      by (intro length_native_pixel [OF assms(1)] length_slice)
  qed
  have data: "length ?data = ?w * ?nb" using length_concat_uniform [OF px] by simp
  have "(?l + ?w) * ?nb \<le> W * ?nb" using lr by (rule mult_le_mono1)
  then have right: "?l * ?nb + ?w * ?nb \<le> stride" using assms(3) by (simp add: add_mult_distrib)
  have "Suc y * stride \<le> H * stride" using y by (intro mult_le_mono1) simp
  then have bounds: "in_bounds xs (y * stride + ?l * ?nb) (length ?data)"
    using right assms(4) xs data by (simp add: in_bounds_def mult.commute)
  let ?f = "native_row stride W nf sf b source r y xs"
  have f: "?f = copy_into xs (y * stride + ?l * ?nb) ?data" by (simp add: native_row_def)
  show len: "length ?f = n * 1" using bounds xs by (simp add: f length_copy_into)
  fix i assume i: "i < n"
  let ?c = "i mod stride"
  have range: "y * stride + ?l * ?nb \<le> i \<and> i < y * stride + ?l * ?nb + ?w * ?nb \<longleftrightarrow>
      i div stride = y \<and> ?l \<le> ?c div ?nb \<and> ?c div ?nb < ?l + ?w"
    by (rule native_row_range [OF right]) simp
  have at: "?f ! i = (if i div stride = y \<and> ?l \<le> ?c div ?nb \<and> ?c div ?nb < ?l + ?w
      then ?data ! (i - (y * stride + ?l * ?nb)) else xs ! i)"
    using nth_copy_into [OF bounds] i xs range data unfolding f by simp
  have "?data ! (i - (y * stride + ?l * ?nb)) = native_byte stride W nf sf b source i"
    if in_row: "i div stride = y \<and> ?l \<le> ?c div ?nb \<and> ?c div ?nb < ?l + ?w"
  proof -
    let ?d = "i - (y * stride + ?l * ?nb)"
    have "i = y * stride + ?c" using in_row div_mult_mod_eq [of i stride] by simp
    then have d: "?d = ?c - ?l * ?nb" by (metis diff_diff_left diff_add_inverse)
    have lc: "?l * ?nb \<le> ?c" using in_row by (simp add: less_eq_div_iff_mult_less_eq)
    then have dd: "?d div ?nb = ?c div ?nb - ?l" "?d mod ?nb = ?c mod ?nb"
      unfolding d by (simp_all add: div_minus_cells mod_minus_cells)
    have "?d < ?w * ?nb" using range in_row by linarith
    then have "?d < length [?l..<?l + ?w] * ?nb" by simp
    from nth_concat_uniform [OF px this] have "?data ! ?d = ?px ([?l..<?l + ?w] ! (?d div ?nb)) ! (?d mod ?nb)" .
    also have "[?l..<?l + ?w] ! (?d div ?nb) = ?c div ?nb"
      using in_row by (simp add: dd)
    finally show ?thesis using in_row by (simp add: native_byte_def dd Let_def)
  qed
  then show "pixel_at 1 ?f i = (if i div stride = y \<and> ?l \<le> ?c div ?nb \<and> ?c div ?nb < ?l + ?w
      then [native_byte stride W nf sf b source i] else pixel_at 1 xs i)"
    using at i xs len by (simp add: pixel_at_one)
qed

lemma writes_native_rects:
  assumes "source_bytes sf = Some b" and "length source = W * H * b"
    and "W * native_bytes nf \<le> stride" and "stride * H \<le> n" and "\<forall>r\<in>set rs. rect_ok W H r"
  shows "writes n 1 (fold (\<lambda>r. fold (native_row stride W nf sf b source r) [rect_y r..<rect_y r + rect_h r]) rs)
    (native_covered stride nf rs) (\<lambda>i v. [native_byte stride W nf sf b source i])"
proof -
  let ?g = "\<lambda>i v. [native_byte stride W nf sf b source i]"
  have "writes n 1 (fold (native_row stride W nf sf b source r) [rect_y r..<rect_y r + rect_h r])
      (native_covered stride nf [r]) ?g" if "r \<in> set rs" for r
  proof -
    have ok: "rect_ok W H r" using assms(5) that by blast
    have "writes n 1 (fold (native_row stride W nf sf b source r) [rect_y r..<rect_y r + rect_h r])
        (\<lambda>i. \<exists>y\<in>set [rect_y r..<rect_y r + rect_h r]. i div stride = y \<and>
          rect_x r \<le> i mod stride div native_bytes nf \<and>
          i mod stride div native_bytes nf < rect_x r + rect_w r) ?g"
      by (intro writes_fold writes_native_row [OF assms(1-4) ok]) auto
    then show ?thesis
      by (rule writes_cong) (auto simp: native_covered_def covers_def inside_def)
  qed
  then have "writes n 1 (fold (\<lambda>r. fold (native_row stride W nf sf b source r)
      [rect_y r..<rect_y r + rect_h r]) rs) (\<lambda>i. \<exists>r\<in>set rs. native_covered stride nf [r] i) ?g"
    by (intro writes_fold) auto
  then show ?thesis by (rule writes_cong) (auto simp: native_covered_def covers_def)
qed

lemma write_rects_ok:
  assumes "W \<le> u32_max" and "H \<le> u32_max" and "\<forall>r\<in>set rs. rect_ok W H r"
  shows "write_rects W H row rs buffer =
    (Inr (), fold (\<lambda>r. fold (row r) [rect_y r..<rect_y r + rect_h r]) rs buffer)"
  using assms(3)
proof (induction rs arbitrary: buffer)
  case (Cons r rs)
  then have "validate_native_rect r W H = Inr ()" by (simp add: validate_native_rect_Inr [OF assms(1,2)])
  then show ?case using Cons by simp
qed simp

lemma write_rects_Inr:
  assumes "W \<le> u32_max" and "H \<le> u32_max" and "write_rects W H row rs buffer = (Inr u, buffer')"
  shows "\<forall>r\<in>set rs. rect_ok W H r"
  using assms(3)
  by (induction rs arbitrary: buffer)
    (auto simp: validate_native_rect_Inr [OF assms(1,2)] split: sum.splits)

text \<open>The buffers a write accepts.\<close>

definition native_fits ::
  "bytes \<Rightarrow> nat \<Rightarrow> nat \<Rightarrow> nat \<Rightarrow> native_format \<Rightarrow> pixel_format \<Rightarrow> bytes \<Rightarrow> bool" where
  "native_fits buffer stride width height format sf source \<longleftrightarrow>
     (\<exists>b. source_bytes sf = Some b \<and> length source = width * height * b) \<and>
     width * native_bytes format \<le> stride \<and> stride * height \<le> length buffer"

text \<open>
  Claim C38. Writing damage converts exactly the damaged pixels: when source and framebuffer have
  the size of the panel, the write succeeds precisely when every rectangle is nonempty and
  inside the panel; then every byte of a damaged pixel is the byte of the source pixel in the
  native format, and all other bytes, the padding of the rows included, are unchanged.
\<close>

theorem write_damage_correct:
  assumes "native_fits buffer stride width height format sf source"
    and "width \<le> u32_max" and "height \<le> u32_max" and "length buffer \<le> u64_max"
    and "length source \<le> u64_max"
    and "write_damage buffer stride width height format sf source damage = (res, buffer')"
  shows "(is_ok res \<longleftrightarrow> (\<forall>r\<in>set damage. rect_ok width height r)) \<and>
    (is_ok res \<longrightarrow> length buffer' = length buffer \<and>
      (\<forall>i<length buffer. buffer' ! i =
        (if native_covered stride format damage i
         then native_byte stride width format sf (the (source_bytes sf)) source i else buffer ! i)))"
proof -
  obtain b where b: "source_bytes sf = Some b" "length source = width * height * b"
    using assms(1) by (auto simp: native_fits_def)
  have fits: "width * native_bytes format \<le> stride" "stride * height \<le> length buffer"
    using assms(1) by (auto simp: native_fits_def)
  have b1: "1 \<le> b" using b(1) by (cases sf) auto
  let ?row = "native_row stride width format sf b source"
  have w: "(res, buffer') = write_rects width height ?row damage buffer"
  proof -
    have "width * height * 1 \<le> length source" unfolding b(2) using b1 by (rule mult_le_mono2)
    then have area: "width * height \<le> u64_max" using assms(5) by simp
    have "width * native_bytes format \<le> u32_max * 4"
      using assms(2) by (intro mult_le_mono) (cases format; simp)+
    then have "width * native_bytes format \<le> u64_max" by (simp add: max_defs)
    moreover have "stride * height \<le> u64_max" using fits(2) assms(4) by simp
    ultimately show ?thesis
      using assms(6) b area fits assms(5) unfolding write_damage_def
      by (simp add: checked_mul_usize_def)
  qed
  show ?thesis
  proof (cases "\<forall>r\<in>set damage. rect_ok width height r")
    case True
    have r: "res = Inr ()" "buffer' = fold (\<lambda>r. fold (?row r) [rect_y r..<rect_y r + rect_h r]) damage buffer"
      using w write_rects_ok [OF assms(2,3) True, of ?row buffer] by simp_all
    note wr = writes_native_rects [OF b fits True]
    have len: "length buffer' = length buffer"
      using writes_length [OF wr, of buffer] r(2) by simp
    have "buffer' ! i = (if native_covered stride format damage i
         then native_byte stride width format sf b source i else buffer ! i)" if "i < length buffer" for i
      using writes_pixel [OF wr, of buffer i] that r(2) len by (simp add: pixel_at_one split: if_splits)
    then show ?thesis using True r(1) len b(1) by (simp add: is_ok_def)
  next
    case False
    then have "\<not> is_ok res"
      using write_rects_Inr [OF assms(2,3) w [symmetric, THEN trans]] w
      by (cases res) (auto simp: is_ok_def dest: write_rects_Inr [OF assms(2,3) sym])
    then show ?thesis using False by blast
  qed
qed

lemma rgb_luma_unat:
  "unat (rgb_luma r g b) = (77 * unat r + 150 * unat g + 29 * unat b + 128) div 256"
proof -
  have le: "unat r \<le> 255" "unat g \<le> 255" "unat b \<le> 255" by (rule u8_le)+
  have u: "unat (ucast w :: u32) = unat w" for w :: u8
    using u8_le [of w] by (simp add: unsigned_ucast_eq take_bit_eq_mod)
  let ?x = "ucast r * 77 + ucast g * 150 + ucast b * 29 + 128 :: u32"
  have x: "unat ?x = 77 * unat r + 150 * unat g + 29 * unat b + 128"
    using le by (simp add: unat_word_ariths u)
  have "unat ?x div 256 < 256" unfolding x using le by (simp add: div_less_iff_less_mult)
  then have "unat (rgb_luma r g b) = unat ?x div 256"
    by (simp add: rgb_luma_def unsigned_ucast_eq take_bit_eq_mod unsigned_drop_bit_eq drop_bit_eq_div unat_div)
  then show ?thesis by (simp only: x)
qed

lemma unat_min_max:
  "unat (min r s) \<le> unat r" "unat (min r s) \<le> unat s" "unat r \<le> unat (max r s)" "unat s \<le> unat (max r s)"
  for r s :: u8
  by (auto simp: min_def max_def word_le_nat_alt)

lemma weights_between:
  fixes r g b m :: nat
  shows "m \<le> r \<Longrightarrow> m \<le> g \<Longrightarrow> m \<le> b \<Longrightarrow> m \<le> (77 * r + 150 * g + 29 * b + 128) div 256"
    and "r \<le> m \<Longrightarrow> g \<le> m \<Longrightarrow> b \<le> m \<Longrightarrow> (77 * r + 150 * g + 29 * b + 128) div 256 \<le> m"
proof -
  assume "m \<le> r" "m \<le> g" "m \<le> b"
  then have "m * 256 \<le> 77 * r + 150 * g + 29 * b + 128" by linarith
  then show "m \<le> (77 * r + 150 * g + 29 * b + 128) div 256" by (simp add: less_eq_div_iff_mult_less_eq)
next
  assume "r \<le> m" "g \<le> m" "b \<le> m"
  then have "77 * r + 150 * g + 29 * b + 128 < m * 256 + 256" by linarith
  then have "(77 * r + 150 * g + 29 * b + 128) div 256 < m + 1"
    by (subst div_less_iff_less_mult) simp_all
  then show "(77 * r + 150 * g + 29 * b + 128) div 256 \<le> m" by simp
qed

text \<open>
  The luma of a colour never leaves the range of its channels, so the 32-bit sum never
  wraps and grey keeps its value; black and white survive the way from Gray8 through RGB565 back
  to Gray8.
\<close>

theorem rgb_luma_between:
  "min r (min g b) \<le> rgb_luma r g b \<and> rgb_luma r g b \<le> max r (max g b) \<and> rgb_luma v v v = v \<and>
   native_pixel Rgb565Le NativeGray8 (native_pixel Gray8 NativeRgb565 [0xff]) = [0xff] \<and>
   native_pixel Rgb565Le NativeGray8 (native_pixel Gray8 NativeRgb565 [0]) = [0]"
proof -
  have between: "min r (min g b) \<le> rgb_luma r g b \<and> rgb_luma r g b \<le> max r (max g b)" for r g b
  proof -
    have "unat (min r (min g b)) \<le> unat g" "unat (min r (min g b)) \<le> unat b"
      "unat g \<le> unat (max r (max g b))" "unat b \<le> unat (max r (max g b))"
      by (meson unat_min_max order_trans)+
    then show ?thesis
      unfolding word_le_nat_alt [of _ "rgb_luma r g b"] word_le_nat_alt [of "rgb_luma r g b"] rgb_luma_unat
      by (intro conjI weights_between unat_min_max)
  qed
  moreover have "rgb_luma v v v = v" using between [of v v v] by (simp add: order_antisym)
  moreover have "native_pixel Rgb565Le NativeGray8 (native_pixel Gray8 NativeRgb565 [0xff]) = [0xff]"
    "native_pixel Rgb565Le NativeGray8 (native_pixel Gray8 NativeRgb565 [0]) = [0]"
    by (simp_all add: pack_rgb565_def u16_le_bytes_def unpack_rgb565_def u16_from_le_def expand5_def
        expand6_def rgb_luma_def Let_def)
  ultimately show ?thesis by blast
qed

text \<open>A framebuffer of two rows of two BGRA pixels with two bytes of padding per row.\<close>

theorem write_damage_correct_witness:
  "\<exists>res buffer'. write_damage (replicate 20 0) 10 2 2 NativeBgra32 Gray8 [1, 2, 3, 4] [mk_rect 1 0 1 2] =
     (res, buffer') \<and> is_ok res \<and> buffer' ! 4 = 2 \<and> buffer' ! 8 = 0"
proof -
  obtain res buffer' where w:
    "write_damage (replicate 20 0) 10 2 2 NativeBgra32 Gray8 [1, 2, 3, 4] [mk_rect 1 0 1 2] = (res, buffer')"
    by (rule prod.exhaust)
  have f: "native_fits (replicate 20 0) 10 2 2 NativeBgra32 Gray8 [1, 2, 3, 4]"
    by (simp add: native_fits_def)
  have c: "native_covered 10 NativeBgra32 [mk_rect 1 0 1 2] 4"
    "\<not> native_covered 10 NativeBgra32 [mk_rect 1 0 1 2] 8"
    "native_byte 10 2 NativeBgra32 Gray8 1 [1, 2, 3, 4] 4 = 2"
    by (simp_all add: native_covered_def covers_def inside_def native_byte_def slice_def)
  have ok: "is_ok res \<and> (is_ok res \<longrightarrow> (\<forall>i<20. buffer' ! i =
      (if native_covered 10 NativeBgra32 [mk_rect 1 0 1 2] i
       then native_byte 10 2 NativeBgra32 Gray8 1 [1, 2, 3, 4] i else replicate 20 0 ! i)))"
    using write_damage_correct [OF f _ _ _ _ w] by (simp add: rect_ok_def max_defs)
  then have "buffer' ! 4 = 2" "buffer' ! 8 = 0" using c by auto
  then show ?thesis using w ok by blast
qed

end
