(* ===== verification/Touch_Select.thy ===== *)
theory Touch_Select
  imports Prelude
begin

text \<open>
  Choosing the input devices (\<open>evdev.rs\<close>): among the devices the kernel offers, exactly one
  touchscreen and exactly one power key must be best by capability and name. Names are ASCII
  strings; a failed choice is a value of \<open>selection_error\<close> in place of the message text.
\<close>

section \<open>Strings\<close>

definition ascii_lower_char :: "char \<Rightarrow> char" where
  "ascii_lower_char c = (let n = of_char c :: nat in if 65 \<le> n \<and> n \<le> 90 then char_of (n + 32) else c)"

definition ascii_lower :: "string \<Rightarrow> string" where
  "ascii_lower s = map ascii_lower_char s"

definition str_contains :: "string \<Rightarrow> string \<Rightarrow> bool" where
  "str_contains s marker = list_ex (\<lambda>k. take (length marker) (drop k s) = marker) [0..<Suc (length s)]"

definition str_ends_with :: "string \<Rightarrow> string \<Rightarrow> bool" where
  "str_ends_with s suffix \<longleftrightarrow> length suffix \<le> length s \<and> drop (length s - length suffix) s = suffix"

definition is_space :: "char \<Rightarrow> bool" where
  "is_space c = (of_char c \<in> {9, 10, 11, 12, 13, 32 :: nat})"

definition trim :: "string \<Rightarrow> string" where
  "trim s = rev (dropWhile is_space (rev (dropWhile is_space s)))"

section \<open>Candidates\<close>

record touch_candidate =
  tc_path :: string
  tc_name :: string
  tc_type_b :: bool
  tc_valid_axes :: bool

record power_candidate =
  pk_path :: string
  pk_name :: string
  pk_power :: bool

datatype selection_error = NoCandidate | AmbiguousCandidates "nat list"

definition touch_name_score :: "string \<Rightarrow> nat option" where
  "touch_name_score raw =
     (let name = ascii_lower (trim raw) in
      if list_ex (str_contains name)
           [''pen'', ''stylus'', ''digitizer'', ''wacom'', ''eraser'', ''keyboard''] then None
      else if name = ''ti-tsc'' \<or> str_contains name ''remarkable'' then Some 100
      else if str_contains name ''touchscreen'' \<or> str_contains name ''touch screen'' \<or>
        str_contains name ''touch'' then Some 80
      else if list_ex (str_contains name)
           [''cyttsp'', ''goodix'', ''elan'', ''raydium'', ''ilitek'', ''atmel'', ''focaltech''] then Some 60
      else if str_ends_with name ''_mt'' \<or> str_contains name ''-mt'' \<or> str_contains name '' mt'' then Some 40
      else Some 0)"

definition is_remarkable_machine :: "string \<Rightarrow> bool" where
  "is_remarkable_machine machine =
     (let m = ascii_lower machine
      in str_contains m ''remarkable'' \<or> str_contains m ''ferrari'' \<or> str_contains m ''chiappa'')"

definition touch_supported :: "touch_candidate \<Rightarrow> bool" where
  "touch_supported c \<longleftrightarrow> tc_type_b c \<and> tc_valid_axes c \<and> touch_name_score (tc_name c) \<noteq> None"

definition select_touch_candidate :: "touch_candidate list \<Rightarrow> (selection_error, nat) result" where
  "select_touch_candidate candidates =
     (let supported = map (\<lambda>(i, c). (i, case touch_name_score (tc_name c) of None \<Rightarrow> 0 | Some n \<Rightarrow> n))
            (filter (\<lambda>(i, c). touch_supported c) (enumerate 0 candidates))
      in if supported = [] then Inl NoCandidate
         else
           let best_score = Max (snd ` set supported);
               best = map fst (filter (\<lambda>(i, score). score = best_score) supported)
           in if length best \<noteq> 1 then Inl (AmbiguousCandidates best) else Inr (best ! 0))"

definition power_name_score :: "string \<Rightarrow> nat" where
  "power_name_score raw =
     (let name = ascii_lower raw in
      if str_contains name ''gpio'' \<or> str_contains name ''power'' then 100
      else if str_contains name ''key'' \<or> str_contains name ''button'' then 80 else 0)"

definition select_power_key_candidate :: "power_candidate list \<Rightarrow> (selection_error, nat) result" where
  "select_power_key_candidate candidates =
     (let supported = sort_key (\<lambda>(i, score). - int score)
            (map (\<lambda>(i, c). (i, power_name_score (pk_name c)))
              (filter (\<lambda>(i, c). pk_power c) (enumerate 0 candidates)))
      in case supported of
           [] \<Rightarrow> Inl NoCandidate
         | (i, best) # rest \<Rightarrow>
             (case rest of
                (j, score) # _ \<Rightarrow> if score = best then Inl (AmbiguousCandidates [i, j]) else Inr i
              | [] \<Rightarrow> Inr i))"

text \<open>\<open>has_required_abs_bits\<close>: the four Type-B axes in the kernel's capability bitmap.\<close>

definition has_required_abs_bits :: "bytes \<Rightarrow> bool" where
  "has_required_abs_bits bits =
     list_all (\<lambda>code. code div 8 < length bits \<and> bit (bits ! (code div 8)) (code mod 8)) [47, 53, 54, 57]"

text \<open>The transform of \<open>TouchTransform::for_device_name\<close> is \<open>(invert_x, invert_y)\<close>.\<close>

definition transform_for_device :: "string \<Rightarrow> bool \<times> bool" where
  "transform_for_device name = (if ascii_lower (trim name) = ''pt_mt'' then (False, True) else (False, False))"

section \<open>A choice is the unique best\<close>

definition unique_best :: "('a \<Rightarrow> bool) \<Rightarrow> ('a \<Rightarrow> nat) \<Rightarrow> 'a list \<Rightarrow> nat \<Rightarrow> bool" where
  "unique_best ok score xs i \<longleftrightarrow> i < length xs \<and> ok (xs ! i) \<and>
     (\<forall>j<length xs. ok (xs ! j) \<and> j \<noteq> i \<longrightarrow> score (xs ! j) < score (xs ! i))"

text \<open>The scored list both choices start from.\<close>

definition scored :: "('a \<Rightarrow> bool) \<Rightarrow> ('a \<Rightarrow> nat) \<Rightarrow> 'a list \<Rightarrow> (nat \<times> nat) list" where
  "scored ok score xs = map (\<lambda>(i, x). (i, score x)) (filter (\<lambda>(i, x). ok x) (enumerate 0 xs))"

lemma scored_mem: "(i, n) \<in> set (scored ok score xs) \<longleftrightarrow> i < length xs \<and> ok (xs ! i) \<and> n = score (xs ! i)"
  by (auto simp: scored_def in_set_enumerate_eq image_iff)

lemma scored_distinct: "distinct (map fst (scored ok score xs))"
proof -
  have "map fst (scored ok score xs) = map fst (filter (\<lambda>(i, x). ok x) (enumerate 0 xs))"
    by (simp add: scored_def case_prod_beta)
  then show ?thesis by (simp add: distinct_map_filter)
qed

lemma scored_Nil: "scored ok score xs = [] \<longleftrightarrow> (\<forall>i<length xs. \<not> ok (xs ! i))"
  by (auto simp: scored_def filter_empty_conv in_set_enumerate_eq)

lemma distinct_set_singleton: "distinct xs \<Longrightarrow> set xs = {a} \<Longrightarrow> xs = [a]"
  by (cases xs; cases "tl xs") auto

lemma unique_best_scored:
  "unique_best ok score xs i \<longleftrightarrow> (\<exists>n. (i, n) \<in> set (scored ok score xs) \<and>
     (\<forall>(j, m) \<in> set (scored ok score xs). j \<noteq> i \<longrightarrow> m < n))"
  by (auto simp: unique_best_def scored_mem)

lemma single_best:
  assumes "distinct (map fst ps)"
  shows "map fst (filter (\<lambda>(i, n). n = Max (snd ` set ps)) ps) = [i] \<longleftrightarrow>
    (\<exists>n. (i, n) \<in> set ps \<and> (\<forall>(j, m) \<in> set ps. j \<noteq> i \<longrightarrow> m < (n :: nat)))"
  (is "map fst ?best = _ \<longleftrightarrow> _")
proof
  assume best: "map fst ?best = [i]"
  then obtain n where b: "?best = [(i, n)]" by (cases ?best) auto
  then have "(i, n) \<in> set ?best" by simp
  then have i: "(i, n) \<in> set ps" "n = Max (snd ` set ps)" by auto
  have "m < n" if "(j, m) \<in> set ps" "j \<noteq> i" for j m
  proof -
    have "m \<in> snd ` set ps" using that(1) by (auto intro: rev_image_eqI)
    then have "m \<le> n" using i(2) by simp
    moreover have "m \<noteq> n"
    proof
      assume "m = n"
      then have "(j, m) \<in> set ?best" using that(1) i(2) by simp
      then show False using b that(2) by simp
    qed
    ultimately show ?thesis by simp
  qed
  then show "\<exists>n. (i, n) \<in> set ps \<and> (\<forall>(j, m) \<in> set ps. j \<noteq> i \<longrightarrow> m < n)" using i(1) by blast
next
  assume "\<exists>n. (i, n) \<in> set ps \<and> (\<forall>(j, m) \<in> set ps. j \<noteq> i \<longrightarrow> m < n)"
  then obtain n where n: "(i, n) \<in> set ps" "\<And>j m. (j, m) \<in> set ps \<Longrightarrow> j \<noteq> i \<Longrightarrow> m < n" by blast
  have same: "m = n" if "(i, m) \<in> set ps" for m
    using assms n(1) that by (simp add: distinct_map inj_on_def) fastforce
  have M: "Max (snd ` set ps) = n"
  proof (rule Max_eqI)
    show "n \<in> snd ` set ps" using n(1) by (auto intro: rev_image_eqI)
    fix m assume "m \<in> snd ` set ps"
    then obtain j where "(j, m) \<in> set ps" by auto
    then show "m \<le> n" using n(2) [of j m] same [of m] by (cases "j = i") auto
  qed simp
  have "(j, m) \<in> set ?best \<longleftrightarrow> j = i \<and> m = n" for j m
    using n(1) n(2) [of j m] same [of m] by (cases "j = i") (simp_all add: M, blast+)
  then have "set ?best = {(i, n)}" by auto
  moreover have "distinct ?best" using assms by (simp add: distinct_map)
  ultimately have "?best = [(i, n)]" by (intro distinct_set_singleton)
  then show "map fst ?best = [i]" by simp
qed

lemma sorted_best:
  assumes "distinct (map fst ps)" and "sorted (map (\<lambda>(i, n). - int n) ps)"
  shows "(\<exists>n rest. ps = (i, n) # rest \<and> (case rest of [] \<Rightarrow> True | (j, m) # _ \<Rightarrow> m \<noteq> n)) \<longleftrightarrow>
    (\<exists>n. (i, n) \<in> set ps \<and> (\<forall>(j, m) \<in> set ps. j \<noteq> i \<longrightarrow> m < n))"
proof (cases ps)
  case (Cons p rest)
  obtain k b where p: "p = (k, b)" by (rule prod.exhaust)
  have le: "m \<le> b" if "(j, m) \<in> set rest" for j m
    using assms(2) that by (auto simp: Cons p)
  have k: "k \<notin> fst ` set rest" using assms(1) by (simp add: Cons p)
  show ?thesis
  proof (cases rest)
    case Nil
    then show ?thesis by (auto simp: Cons p)
  next
    case (Cons q rest')
    obtain l c where q: "q = (l, c)" by (rule prod.exhaust)
    have "m \<le> c" if "(j, m) \<in> set rest" for j m
      using assms(2) that by (auto simp: \<open>ps = p # rest\<close> p Cons q)
    moreover have "c \<le> b" "l \<noteq> k" using le k by (auto simp: Cons q)
    ultimately have bounds: "\<And>j m. (j, m) \<in> set rest \<Longrightarrow> m \<le> c \<and> j \<noteq> k" "c \<le> b" "(l, c) \<in> set rest" "l \<noteq> k"
      using k by (force simp: Cons q)+
    have ps: "set ps = insert (k, b) (set rest)" by (simp add: \<open>ps = p # rest\<close> p)
    have head: "(\<exists>n rest. ps = (i, n) # rest \<and> (case rest of [] \<Rightarrow> True | (j, m) # _ \<Rightarrow> m \<noteq> n)) \<longleftrightarrow>
        i = k \<and> c \<noteq> b"
      by (auto simp: \<open>ps = p # rest\<close> p Cons q)
    show ?thesis
    proof
      assume "\<exists>n rest. ps = (i, n) # rest \<and> (case rest of [] \<Rightarrow> True | (j, m) # _ \<Rightarrow> m \<noteq> n)"
      then have "i = k" "c < b" using head bounds(2) by auto
      then have "\<forall>(j, m) \<in> set ps. j \<noteq> i \<longrightarrow> m < b" using bounds(1) by (auto simp: ps) fastforce
      then show "\<exists>n. (i, n) \<in> set ps \<and> (\<forall>(j, m) \<in> set ps. j \<noteq> i \<longrightarrow> m < n)"
        using \<open>i = k\<close> by (auto simp: ps)
    next
      assume "\<exists>n. (i, n) \<in> set ps \<and> (\<forall>(j, m) \<in> set ps. j \<noteq> i \<longrightarrow> m < n)"
      then obtain n where n: "(i, n) \<in> set ps" "\<And>j m. (j, m) \<in> set ps \<Longrightarrow> j \<noteq> i \<Longrightarrow> m < n" by blast
      have "i = k"
      proof (rule ccontr)
        assume "i \<noteq> k"
        then have "b < n" "n \<le> c" using n bounds(1) by (auto simp: ps)
        then show False using bounds(2) by simp
      qed
      then have "n = b" using n(1) bounds(1) by (auto simp: ps)
      then have "c < b" using n(2) [of l c] bounds(3,4) \<open>i = k\<close> by (simp add: ps)
      then show "\<exists>n rest. ps = (i, n) # rest \<and> (case rest of [] \<Rightarrow> True | (j, m) # _ \<Rightarrow> m \<noteq> n)"
        using head \<open>i = k\<close> by simp
    qed
  qed
qed simp

text \<open>
  Device choice never guesses: a touchscreen is chosen exactly when it is supported
  and every other supported device has a strictly lower name score, and likewise for the power
  key; in particular two equally good candidates are refused, and "no candidate" is reported
  exactly when none is supported.
\<close>

theorem device_choice_unique_best:
  "(select_touch_candidate cs = Inr i \<longleftrightarrow>
      unique_best touch_supported (\<lambda>c. case touch_name_score (tc_name c) of None \<Rightarrow> 0 | Some n \<Rightarrow> n) cs i) \<and>
   (select_touch_candidate cs = Inl NoCandidate \<longleftrightarrow> (\<forall>c\<in>set cs. \<not> touch_supported c)) \<and>
   (select_power_key_candidate ps = Inr k \<longleftrightarrow>
      unique_best pk_power (\<lambda>c. power_name_score (pk_name c)) ps k) \<and>
   (select_power_key_candidate ps = Inl NoCandidate \<longleftrightarrow> (\<forall>c\<in>set ps. \<not> pk_power c))"
proof (intro conjI)
  let ?sc = "\<lambda>c. case touch_name_score (tc_name c) of None \<Rightarrow> 0 | Some n \<Rightarrow> n"
  let ?sup = "scored touch_supported ?sc cs"
  have t: "select_touch_candidate cs = (if ?sup = [] then Inl NoCandidate
      else let best = map fst (filter (\<lambda>(i, n). n = Max (snd ` set ?sup)) ?sup)
        in if length best \<noteq> 1 then Inl (AmbiguousCandidates best) else Inr (best ! 0))"
    by (simp add: select_touch_candidate_def scored_def Let_def)
  have single: "length xs = 1 \<and> xs ! 0 = i \<longleftrightarrow> xs = [i]" for xs :: "nat list"
    by (cases xs) auto
  show "select_touch_candidate cs = Inr i \<longleftrightarrow> unique_best touch_supported ?sc cs i"
    unfolding unique_best_scored single_best [OF scored_distinct, symmetric]
    using single [of "map fst (filter (\<lambda>(i, n). n = Max (snd ` set ?sup)) ?sup)"]
    unfolding t Let_def by auto
  show "select_touch_candidate cs = Inl NoCandidate \<longleftrightarrow> (\<forall>c\<in>set cs. \<not> touch_supported c)"
    unfolding t Let_def by (auto simp: scored_Nil all_set_conv_all_nth)
next
  let ?sc = "\<lambda>c. power_name_score (pk_name c)"
  let ?key = "\<lambda>(i :: nat, n). - int n"
  let ?sup = "sort_key ?key (scored pk_power ?sc ps)"
  have p: "select_power_key_candidate ps = (case ?sup of [] \<Rightarrow> Inl NoCandidate
      | (i, best) # rest \<Rightarrow> (case rest of
          (j, score) # _ \<Rightarrow> if score = best then Inl (AmbiguousCandidates [i, j]) else Inr i
        | [] \<Rightarrow> Inr i))"
    by (simp add: select_power_key_candidate_def scored_def Let_def)
  have d: "distinct (map fst ?sup)"
    using scored_distinct [of pk_power ?sc ps] by (simp add: distinct_map)
  have "select_power_key_candidate ps = Inr k \<longleftrightarrow>
      (\<exists>n rest. ?sup = (k, n) # rest \<and> (case rest of [] \<Rightarrow> True | (j, m) # _ \<Rightarrow> m \<noteq> n))"
    unfolding p by (auto split: list.splits)
  also have "\<dots> \<longleftrightarrow> unique_best pk_power ?sc ps k"
    unfolding sorted_best [OF d sorted_sort_key] unique_best_scored by simp
  finally show "select_power_key_candidate ps = Inr k \<longleftrightarrow> unique_best pk_power ?sc ps k" .
  have "?sup = [] \<longleftrightarrow> scored pk_power ?sc ps = []" by (metis length_0_conv length_sort)
  then show "select_power_key_candidate ps = Inl NoCandidate \<longleftrightarrow> (\<forall>c\<in>set ps. \<not> pk_power c)"
    unfolding p by (auto simp: scored_Nil all_set_conv_all_nth split: list.splits)
qed

theorem device_choice_unique_best_witness:
  "select_touch_candidate [\<lparr>tc_path = ''event0'', tc_name = ''pt_mt'', tc_type_b = True, tc_valid_axes = True\<rparr>] = Inr 0"
proof -
  have "touch_name_score ''pt_mt'' = Some 40"
    by code_simp
  then show ?thesis
    using device_choice_unique_best [of "[\<lparr>tc_path = ''event0'', tc_name = ''pt_mt'', tc_type_b = True,
      tc_valid_axes = True\<rparr>]" 0 "[]" 0]
    by (simp add: unique_best_def touch_supported_def)
qed

end
