(* ===== verification/Ordered_Map.thy ===== *)
theory Ordered_Map
  imports Prelude
begin

text \<open>
  \<open>BTreeMap\<close>: a finite map whose iteration is in ascending key order, as an association list
  sorted by key. The locale \<open>finite_map\<close> is what the clients rely on, the \<open>om_\<close> functions
  provide it.
\<close>

section \<open>The interface\<close>

locale finite_map =
  fixes empty :: "'m"
    and insert :: "'k \<Rightarrow> 'v \<Rightarrow> 'm \<Rightarrow> 'm"
    and remove :: "'k \<Rightarrow> 'm \<Rightarrow> 'm"
    and lookup :: "'m \<Rightarrow> 'k \<Rightarrow> 'v option"
    and entries :: "'m \<Rightarrow> ('k \<times> 'v) list"
    and inv :: "'m \<Rightarrow> bool"
  assumes inv_empty: "inv empty"
    and inv_insert: "inv m \<Longrightarrow> inv (insert k v m)"
    and inv_remove: "inv m \<Longrightarrow> inv (remove k m)"
    and lookup_empty: "lookup empty k = None"
    and lookup_insert: "inv m \<Longrightarrow> lookup (insert k v m) j = (if j = k then Some v else lookup m j)"
    and lookup_remove: "inv m \<Longrightarrow> lookup (remove k m) j = (if j = k then None else lookup m j)"
    and distinct_entries: "inv m \<Longrightarrow> distinct (map fst (entries m))"
    and in_entries: "inv m \<Longrightarrow> (k, v) \<in> set (entries m) \<longleftrightarrow> lookup m k = Some v"
begin

text \<open>An update: \<open>Some v\<close> inserts, \<open>None\<close> removes.\<close>

definition update :: "'k \<times> 'v option \<Rightarrow> 'm \<Rightarrow> 'm" where
  "update u m = (case snd u of Some v \<Rightarrow> insert (fst u) v m | None \<Rightarrow> remove (fst u) m)"

lemma inv_update: "inv m \<Longrightarrow> inv (update u m)"
  by (simp add: update_def inv_insert inv_remove split: option.splits)

lemma lookup_update: "inv m \<Longrightarrow> lookup (update u m) j = (if j = fst u then snd u else lookup m j)"
  by (simp add: update_def lookup_insert lookup_remove split: option.splits)

lemma inv_updates: "inv m \<Longrightarrow> inv (fold update us m)"
  by (induction us arbitrary: m) (simp_all add: inv_update)

text \<open>After a sequence of updates the last one of each key counts.\<close>

lemma lookup_updates:
  "inv m \<Longrightarrow> lookup (fold update us m) j =
    (case map_of (rev us) j of Some u \<Rightarrow> u | None \<Rightarrow> lookup m j)"
proof (induction us rule: rev_induct)
  case Nil
  then show ?case by simp
next
  case (snoc u us)
  then show ?case
    by (cases u) (auto simp: lookup_update inv_updates split: option.splits)
qed

text \<open>Two maps that agree with the same view keep agreeing.\<close>

lemma lookup_updates_cong:
  "inv m \<Longrightarrow> inv m' \<Longrightarrow> (\<And>j. lookup m j = lookup m' j) \<Longrightarrow>
    lookup (fold update us m) j = lookup (fold update us m') j"
  by (auto simp: lookup_updates split: option.splits)

lemma keys_entries: "inv m \<Longrightarrow> fst ` set (entries m) = {k. lookup m k \<noteq> None}"
  using in_entries by force

lemma entries_Nil_iff: "inv m \<Longrightarrow> entries m = [] \<longleftrightarrow> (\<forall>k. lookup m k = None)"
proof
  assume m: "inv m" and none: "\<forall>k. lookup m k = None"
  show "entries m = []"
  proof (cases "entries m")
    case (Cons p ps)
    then have "(fst p, snd p) \<in> set (entries m)" by simp
    then show ?thesis using in_entries [OF m, of "fst p" "snd p"] none by (simp del: prod.collapse)
  qed
qed (use in_entries in fastforce)

lemma length_entries: "inv m \<Longrightarrow> length (entries m) = card {k. lookup m k \<noteq> None}"
  using distinct_card [OF distinct_entries, of m] by (simp add: keys_entries)

end

section \<open>Sorted association lists\<close>

fun om_insert :: "'k::linorder \<Rightarrow> 'v \<Rightarrow> ('k \<times> 'v) list \<Rightarrow> ('k \<times> 'v) list" where
  "om_insert k v [] = [(k, v)]"
| "om_insert k v ((k', v') # m) =
     (if k < k' then (k, v) # (k', v') # m
      else if k = k' then (k, v) # m else (k', v') # om_insert k v m)"

definition om_remove :: "'k \<Rightarrow> ('k \<times> 'v) list \<Rightarrow> ('k \<times> 'v) list" where
  "om_remove k m = filter (\<lambda>p. fst p \<noteq> k) m"

definition om_get :: "('k \<times> 'v) list \<Rightarrow> 'k \<Rightarrow> 'v option" where
  "om_get m k = map_of m k"

definition om_ok :: "('k::linorder \<times> 'v) list \<Rightarrow> bool" where
  "om_ok m \<longleftrightarrow> sorted_wrt (<) (map fst m)"

lemma om_insert_keys: "fst ` set (om_insert k v m) = Set.insert k (fst ` set m)"
  by (induction k v m rule: om_insert.induct) auto

lemma om_insert_ok: "om_ok m \<Longrightarrow> om_ok (om_insert k v m)"
  by (induction k v m rule: om_insert.induct)
    (auto simp: om_ok_def om_insert_keys)

lemma om_remove_ok: "om_ok m \<Longrightarrow> om_ok (om_remove k m)"
  unfolding om_ok_def om_remove_def sorted_wrt_map by (rule sorted_wrt_filter)

lemma om_get_insert: "om_ok m \<Longrightarrow> om_get (om_insert k v m) j = (if j = k then Some v else om_get m j)"
  by (induction k v m rule: om_insert.induct) (auto simp: om_ok_def om_get_def)

lemma om_get_remove: "om_get (om_remove k m) j = (if j = k then None else om_get m j)"
  by (induction m) (auto simp: om_remove_def om_get_def)

lemma om_distinct: "om_ok m \<Longrightarrow> distinct (map fst m)"
  by (simp add: om_ok_def strict_sorted_iff)

interpretation om: finite_map "[]" om_insert om_remove om_get "\<lambda>m. m" om_ok
proof
  show "om_ok []" by (simp add: om_ok_def)
  show "om_get [] k = None" for k by (simp add: om_get_def)
  show "(k, v) \<in> set m \<longleftrightarrow> om_get m k = Some v" if "om_ok m" for m k v
    using map_of_eq_Some_iff [OF om_distinct [OF that]] by (simp add: om_get_def)
qed (simp_all add: om_insert_ok om_remove_ok om_get_insert om_get_remove om_distinct)

end
