(* ===== verification/Touch_Gesture.thy ===== *)
theory Touch_Gesture
  imports Ordered_Map
begin

text \<open>
  The receiver-local five-finger chord of \<open>evdev.rs\<close>: \<open>FiveFingerCleanupGesture\<close> sits between
  the touch parser and the producer. It tracks the contacts on the panel (\<open>active\<close>) and the
  contacts the producer has been told about (\<open>forwarded\<close>); both are \<open>BTreeMap\<close>s.
\<close>

section \<open>Data\<close>

datatype pointer_phase = Down | Move | Up | Cancel

record pointer_event =
  pe_phase :: pointer_phase
  pe_contact :: u32
  pe_x :: nat
  pe_y :: nat

type_synonym contact_map = "(u32 \<times> nat \<times> nat) list"

record gesture =
  ge_active :: contact_map
  ge_forwarded :: contact_map
  ge_suppress :: bool

record gesture_result =
  gr_forward :: "pointer_event list"
  gr_cancel :: "pointer_event list"
  gr_cleanup :: bool

definition gesture_new :: gesture where
  "gesture_new = \<lparr>ge_active = [], ge_forwarded = [], ge_suppress = False\<rparr>"

definition no_gesture_result :: gesture_result where
  "no_gesture_result = \<lparr>gr_forward = [], gr_cancel = [], gr_cleanup = False\<rparr>"

section \<open>Operations\<close>

definition has_active_contacts :: "gesture \<Rightarrow> bool" where
  "has_active_contacts g \<longleftrightarrow> ge_active g \<noteq> []"

definition cancel_event :: "u32 \<Rightarrow> nat \<times> nat \<Rightarrow> pointer_event" where
  "cancel_event contact at = \<lparr>pe_phase = Cancel, pe_contact = contact, pe_x = fst at, pe_y = snd at\<rparr>"

definition surface_transition :: "gesture \<Rightarrow> pointer_event list \<times> gesture" where
  "surface_transition g =
     (map (\<lambda>(contact, at). cancel_event contact at) (ge_forwarded g),
      g\<lparr>ge_forwarded := [], ge_suppress := (if ge_active g \<noteq> [] then True else ge_suppress g)\<rparr>)"

text \<open>The loop body that follows a contact map through a report.\<close>

definition track_event :: "pointer_event \<Rightarrow> contact_map \<Rightarrow> contact_map" where
  "track_event e m =
     (case pe_phase e of
        Down \<Rightarrow> om_insert (pe_contact e) (pe_x e, pe_y e) m
      | Move \<Rightarrow> om_insert (pe_contact e) (pe_x e, pe_y e) m
      | Up \<Rightarrow> om_remove (pe_contact e) m
      | Cancel \<Rightarrow> om_remove (pe_contact e) m)"

definition gesture_process ::
  "pointer_event list \<Rightarrow> bool \<Rightarrow> bool \<Rightarrow> gesture \<Rightarrow> gesture_result \<times> gesture" where
  "gesture_process report forward_enabled cleanup_enabled g0 =
     (let g = g0\<lparr>ge_active := fold track_event report (ge_active g0)\<rparr> in
      if ge_suppress g then
        (no_gesture_result,
         if ge_active g = [] then g\<lparr>ge_suppress := False, ge_forwarded := []\<rparr> else g)
      else if length (ge_active g) \<ge> 5 then
        (\<lparr>gr_forward = [],
          gr_cancel = map (\<lambda>(contact, old). cancel_event contact
             (case om_get (ge_active g) contact of None \<Rightarrow> old | Some at \<Rightarrow> at)) (ge_forwarded g),
          gr_cleanup = cleanup_enabled\<rparr>,
         g\<lparr>ge_suppress := True, ge_forwarded := []\<rparr>)
      else if \<not> forward_enabled then (no_gesture_result, g)
      else (\<lparr>gr_forward = report, gr_cancel = [], gr_cleanup = False\<rparr>,
            g\<lparr>ge_forwarded := fold track_event report (ge_forwarded g)\<rparr>))"

section \<open>Contacts\<close>

lemma track_update:
  "track_event e = om.update (pe_contact e,
     if pe_phase e \<in> {Down, Move} then Some (pe_x e, pe_y e) else None)"
  by (cases "pe_phase e") (simp_all add: track_event_def om.update_def fun_eq_iff)

lemma track_ok: "om_ok m \<Longrightarrow> om_ok (fold track_event es m)"
  by (induction es arbitrary: m) (simp_all add: track_update om.inv_update)

text \<open>The ids of a contact map.\<close>

definition contacts :: "contact_map \<Rightarrow> u32 set" where
  "contacts m = fst ` set m"

lemma contacts_get: "om_ok m \<Longrightarrow> contacts m = {k. om_get m k \<noteq> None}"
  by (simp add: contacts_def om.keys_entries)

lemma contacts_Nil [simp]: "contacts [] = {}" "contacts m = {} \<longleftrightarrow> m = []"
  by (simp_all add: contacts_def)

lemma length_contacts: "om_ok m \<Longrightarrow> length m = card (contacts m)"
  by (simp add: om.length_entries contacts_get)

text \<open>Who follows a stream of events keeps this set of contacts.\<close>

definition view_event :: "pointer_event \<Rightarrow> u32 set \<Rightarrow> u32 set" where
  "view_event e V = (if pe_phase e \<in> {Down, Move} then Set.insert (pe_contact e) V else V - {pe_contact e})"

lemma contacts_track: "om_ok m \<Longrightarrow> contacts (track_event e m) = view_event e (contacts m)"
  using track_ok [of m "[e]"]
  by (auto simp: contacts_get view_event_def track_update om.lookup_update)

lemma contacts_fold: "om_ok m \<Longrightarrow> contacts (fold track_event es m) = fold view_event es (contacts m)"
  using track_ok [of _ "[e]" for e]
  by (induction es arbitrary: m) (simp_all add: contacts_track)

lemma view_cancel_events:
  "fold view_event (map (\<lambda>(k, v). cancel_event k (at k v)) m) V = V - contacts m"
  by (induction m arbitrary: V) (auto simp: view_event_def cancel_event_def contacts_def)

section \<open>Runs\<close>

text \<open>
  One step of the receiver: a report goes through the gesture, or the surface changes. The
  producer sees the forwarded events or the cancels.
\<close>

datatype touch_input = Report "pointer_event list" bool bool | Transition

fun touch_step :: "touch_input \<Rightarrow> gesture \<Rightarrow> pointer_event list \<times> gesture" where
  "touch_step (Report es fwd cleanup) g =
     (case gesture_process es fwd cleanup g of (r, g') \<Rightarrow> (gr_cancel r @ gr_forward r, g'))"
| "touch_step Transition g = surface_transition g"

fun touch_run :: "touch_input list \<Rightarrow> gesture \<Rightarrow> pointer_event list \<times> gesture" where
  "touch_run [] g = ([], g)"
| "touch_run (s # ss) g =
     (let (out, g') = touch_step s g; (out', g'') = touch_run ss g' in (out @ out', g''))"

definition gesture_ok :: "gesture \<Rightarrow> bool" where
  "gesture_ok g \<longleftrightarrow> om_ok (ge_active g) \<and> om_ok (ge_forwarded g) \<and>
     (ge_suppress g \<longrightarrow> ge_forwarded g = []) \<and> (\<not> ge_suppress g \<longrightarrow> length (ge_active g) < 5)"

lemma gesture_new_ok: "gesture_ok gesture_new"
  by (simp add: gesture_ok_def gesture_new_def om.inv_empty)

lemma gesture_process_view:
  assumes "gesture_ok g" and "gesture_process es fwd cleanup g = (r, g')"
  shows "gesture_ok g' \<and>
    contacts (ge_forwarded g') = fold view_event (gr_cancel r @ gr_forward r) (contacts (ge_forwarded g)) \<and>
    contacts (ge_active g') = fold view_event es (contacts (ge_active g))"
  using assms track_ok [of "ge_active g" es] track_ok [of "ge_forwarded g" es]
    contacts_fold [of "ge_active g" es] contacts_fold [of "ge_forwarded g" es]
  by (auto simp: gesture_process_def gesture_ok_def no_gesture_result_def Let_def om.inv_empty
      view_cancel_events split: if_splits)

lemma touch_step_ok:
  assumes "gesture_ok g" and "touch_step s g = (out, g')"
  shows "gesture_ok g' \<and> contacts (ge_forwarded g') = fold view_event out (contacts (ge_forwarded g))"
proof (cases s)
  case (Report es fwd cleanup)
  with assms(2) obtain r where "gesture_process es fwd cleanup g = (r, g')" "out = gr_cancel r @ gr_forward r"
    by (auto split: prod.splits)
  with gesture_process_view [OF assms(1)] show ?thesis by blast
next
  case Transition
  then show ?thesis
    using assms view_cancel_events [of "\<lambda>k v. v" "ge_forwarded g" "contacts (ge_forwarded g)"]
    by (auto simp: surface_transition_def gesture_ok_def om.inv_empty split: if_splits)
qed

lemma touch_run_ok:
  assumes "gesture_ok g" and "touch_run ss g = (out, g')"
  shows "gesture_ok g' \<and> contacts (ge_forwarded g') = fold view_event out (contacts (ge_forwarded g))"
  using assms
proof (induction ss arbitrary: g out)
  case Nil
  then show ?case by simp
next
  case (Cons s ss)
  obtain o1 g1 where s: "touch_step s g = (o1, g1)" by (rule prod.exhaust)
  obtain o2 where r: "touch_run ss g1 = (o2, g')" "out = o1 @ o2"
    using Cons.prems(2) s by (auto split: prod.splits)
  note s' = touch_step_ok [OF Cons.prems(1) s]
  then show ?case using Cons.IH [OF _ r(1)] r(2) by simp
qed

section \<open>What the producer sees\<close>

lemma view_mono: "V \<subseteq> W \<Longrightarrow> fold view_event es V \<subseteq> fold view_event es W"
proof (induction es arbitrary: V W)
  case (Cons e es)
  then have "view_event e V \<subseteq> view_event e W" by (auto simp: view_event_def)
  then show ?case using Cons.IH by simp
qed simp

fun forwards :: "touch_input \<Rightarrow> bool" where
  "forwards (Report es fwd cleanup) = fwd"
| "forwards Transition = True"

lemma forwarded_on_panel:
  assumes "gesture_ok g" and "contacts (ge_forwarded g) \<subseteq> contacts (ge_active g)"
    and "list_all forwards ss" and "touch_run ss g = (out, g')"
  shows "contacts (ge_forwarded g') \<subseteq> contacts (ge_active g')"
  using assms
proof (induction ss arbitrary: g out)
  case (Cons s ss)
  obtain o1 g1 where s: "touch_step s g = (o1, g1)" by (rule prod.exhaust)
  obtain o2 where r: "touch_run ss g1 = (o2, g')"
    using Cons.prems(4) s by (auto split: prod.splits)
  have "contacts (ge_forwarded g1) \<subseteq> contacts (ge_active g1)"
  proof (cases s)
    case (Report es fwd cleanup)
    obtain r' where p: "gesture_process es fwd cleanup g = (r', g1)"
      using s Report by (auto split: prod.splits)
    have "ge_forwarded g1 = [] \<or> ge_forwarded g1 = fold track_event es (ge_forwarded g)"
      using p Report Cons.prems(1,3)
      by (auto simp: gesture_process_def gesture_ok_def Let_def split: if_splits)
    then have "contacts (ge_forwarded g1) = {} \<or>
        contacts (ge_forwarded g1) = fold view_event es (contacts (ge_forwarded g))"
      using contacts_fold [of "ge_forwarded g" es] Cons.prems(1) unfolding gesture_ok_def
      by (metis contacts_Nil(1))
    moreover have "contacts (ge_active g1) = fold view_event es (contacts (ge_active g))"
      using gesture_process_view [OF Cons.prems(1) p] by blast
    ultimately show ?thesis using view_mono [OF Cons.prems(2), of es] by (metis empty_subsetI)
  next
    case Transition
    then show ?thesis using s by (auto simp: surface_transition_def)
  qed
  then show ?case using Cons.IH [OF _ _ _ r] touch_step_ok [OF Cons.prems(1) s] Cons.prems(3) by simp
qed simp

text \<open>
  Claim C34. The producer's view never drifts: after any sequence of reports and surface
  transitions, with forwarding and cleanup switched at will, the contacts the producer was told
  about and not told the end of are exactly the forwarded ones; none is left while a gesture is
  suppressed or after a surface transition; and while forwarding stays enabled each of them is
  really on the panel, so lifting all fingers ends all of them.
\<close>

theorem gesture_producer_view:
  assumes "touch_run ss gesture_new = (out, g)"
  shows "fold view_event out {} = contacts (ge_forwarded g) \<and>
    (ge_suppress g \<longrightarrow> fold view_event out {} = {}) \<and>
    fold view_event (out @ fst (surface_transition g)) {} = {} \<and>
    (list_all forwards ss \<longrightarrow> fold view_event out {} \<subseteq> contacts (ge_active g))"
proof -
  have "contacts (ge_forwarded gesture_new) = {}" by (simp add: gesture_new_def)
  then have view: "gesture_ok g" "contacts (ge_forwarded g) = fold view_event out {}"
    using touch_run_ok [OF gesture_new_ok assms] by simp_all
  have "touch_step Transition g = (fst (surface_transition g), snd (surface_transition g))" by simp
  from touch_step_ok [OF view(1) this]
  have "fold view_event (fst (surface_transition g)) (contacts (ge_forwarded g)) = {}"
    by (simp add: surface_transition_def)
  moreover have "ge_suppress g \<longrightarrow> contacts (ge_forwarded g) = {}"
    using view(1) by (simp add: gesture_ok_def)
  moreover have "list_all forwards ss \<longrightarrow> contacts (ge_forwarded g) \<subseteq> contacts (ge_active g)"
    using forwarded_on_panel [OF gesture_new_ok _ _ assms] by (simp add: gesture_new_def)
  ultimately show ?thesis using view(2) by simp
qed

text \<open>
  Claim C35. The chord triggers once: cleanup is requested exactly when cleanup is enabled, no
  gesture is being consumed and the report brings at least five contacts onto the panel. That
  report is not forwarded and cancels precisely the forwarded contacts in ascending order of id;
  from then on no report yields anything until one leaves the panel empty, which ends the
  gesture.
\<close>

theorem gesture_chord_once:
  assumes "gesture_ok g" and "gesture_process es fwd cleanup g = (r, g')"
  shows "(gr_cleanup r \<longleftrightarrow> cleanup \<and> \<not> ge_suppress g \<and>
      5 \<le> card (fold view_event es (contacts (ge_active g)))) \<and>
    (\<not> ge_suppress g \<and> 5 \<le> card (fold view_event es (contacts (ge_active g))) \<longrightarrow>
      gr_forward r = [] \<and> map pe_contact (gr_cancel r) = map fst (ge_forwarded g) \<and>
      sorted_wrt (<) (map pe_contact (gr_cancel r)) \<and> ge_suppress g') \<and>
    (ge_suppress g \<longrightarrow> r = no_gesture_result \<and>
      (ge_suppress g' \<longleftrightarrow> fold view_event es (contacts (ge_active g)) \<noteq> {}))"
proof -
  have ok: "om_ok (fold track_event es (ge_active g))"
    using track_ok assms(1) by (simp add: gesture_ok_def)
  have card: "length (fold track_event es (ge_active g)) = card (fold view_event es (contacts (ge_active g)))"
    "fold track_event es (ge_active g) = [] \<longleftrightarrow> fold view_event es (contacts (ge_active g)) = {}"
    using length_contacts [OF ok] contacts_fold [of "ge_active g" es] assms(1)
      contacts_Nil(2) [of "fold track_event es (ge_active g)"] by (simp_all add: gesture_ok_def)
  have fw: "om_ok (ge_forwarded g)" using assms(1) by (simp add: gesture_ok_def)
  have ids: "map pe_contact (map (\<lambda>(k, v). cancel_event k (at k v)) m) = map fst m" for at m
    by (induction m) (auto simp: cancel_event_def)
  show ?thesis
    using assms(2) card fw
    by (auto simp: gesture_process_def no_gesture_result_def Let_def om_ok_def ids simp del: map_map
        split: if_splits)
qed

definition touch_down :: "u32 \<Rightarrow> pointer_event" where
  "touch_down k = \<lparr>pe_phase = Down, pe_contact = k, pe_x = 0, pe_y = 0\<rparr>"

theorem gesture_producer_view_witness:
  "fold view_event (fst (touch_run [Report [touch_down 1] True True,
     Report (map touch_down [2, 3, 4, 5]) True True] gesture_new)) {} = {}"
proof -
  let ?ss = "[Report [touch_down 1] True True, Report (map touch_down [2, 3, 4, 5]) True True]"
  obtain out g where r: "touch_run ?ss gesture_new = (out, g)" by (rule prod.exhaust)
  have "ge_suppress (snd (touch_run ?ss gesture_new))"
    by (simp add: gesture_process_def gesture_new_def touch_down_def track_event_def Let_def)
  then have "ge_suppress g" by (simp only: r snd_conv)
  then have "fold view_event out {} = {}" using gesture_producer_view [OF r] by blast
  then show ?thesis by (simp only: r fst_conv)
qed

theorem gesture_chord_once_witness:
  "gr_cleanup (fst (gesture_process (map touch_down [1, 2, 3, 4, 5]) True True gesture_new))"
proof -
  have "fold view_event (map touch_down [1, 2, 3, 4, 5]) (contacts (ge_active gesture_new)) = {1, 2, 3, 4, 5}"
    by (auto simp: view_event_def touch_down_def gesture_new_def)
  then show ?thesis
    using gesture_chord_once [OF gesture_new_ok surjective_pairing,
        of "map touch_down [1, 2, 3, 4, 5]" True True]
    by (simp add: gesture_new_def)
qed

end
