(* ===== verification/Touch_Parser.thy ===== *)
theory Touch_Parser
  imports Touch_Gesture "HOL-Library.Signed_Division"
begin

text \<open>
  The Type-B multitouch parser of \<open>evdev.rs\<close>: kernel events update sixteen slots, a
  synchronisation report turns them into pointer events in panel coordinates. \<open>i32\<close> values are
  integers, their arithmetic wraps (\<open>i32_wrap\<close>) or saturates as in the source; \<open>contact\<close> ids
  are 32-bit words.
\<close>

section \<open>Machine integers\<close>

definition i32_min :: int where "i32_min = - (2 ^ 31)"
definition i32_max :: int where "i32_max = 2 ^ 31 - 1"

definition i32_wrap :: "int \<Rightarrow> int" where
  "i32_wrap i = signed_take_bit 31 i"

definition i32_sat_add :: "int \<Rightarrow> int \<Rightarrow> int" where
  "i32_sat_add a b = max i32_min (min (a + b) i32_max)"

definition clamp_int :: "int \<Rightarrow> int \<Rightarrow> int \<Rightarrow> int" where
  "clamp_int v lo hi = max lo (min v hi)"

section \<open>Data\<close>

record input_event =
  ev_type :: nat
  ev_code :: nat
  ev_value :: int

definition EV_SYN :: nat where "EV_SYN = 0"
definition EV_KEY :: nat where "EV_KEY = 1"
definition EV_ABS :: nat where "EV_ABS = 3"
definition SYN_REPORT :: nat where "SYN_REPORT = 0"
definition SYN_DROPPED :: nat where "SYN_DROPPED = 3"
definition ABS_MT_SLOT :: nat where "ABS_MT_SLOT = 47"
definition ABS_MT_POSITION_X :: nat where "ABS_MT_POSITION_X = 53"
definition ABS_MT_POSITION_Y :: nat where "ABS_MT_POSITION_Y = 54"
definition ABS_MT_TRACKING_ID :: nat where "ABS_MT_TRACKING_ID = 57"
definition max_slots :: nat where "max_slots = 16"

lemmas event_codes = EV_SYN_def EV_KEY_def EV_ABS_def SYN_REPORT_def SYN_DROPPED_def
  ABS_MT_SLOT_def ABS_MT_POSITION_X_def ABS_MT_POSITION_Y_def ABS_MT_TRACKING_ID_def

record touch_transform =
  invert_x :: bool
  invert_y :: bool

record slot =
  sl_contact :: "u32 option"
  sl_x :: "int option"
  sl_y :: "int option"
  sl_down :: bool
  sl_up :: bool
  sl_changed :: bool

definition slot_default :: slot where
  "slot_default = \<lparr>sl_contact = None, sl_x = None, sl_y = None, sl_down = False, sl_up = False,
     sl_changed = False\<rparr>"

record type_b_parser =
  tp_slots :: "slot list"
  tp_current :: nat
  tp_next :: u32
  tp_min_x :: int
  tp_max_x :: int
  tp_min_y :: int
  tp_max_y :: int
  tp_width :: nat
  tp_height :: nat
  tp_transform :: touch_transform
  tp_dropped :: bool

definition identity_transform :: touch_transform where
  "identity_transform = \<lparr>invert_x = False, invert_y = False\<rparr>"

section \<open>Operations\<close>

definition with_ranges_and_transform ::
  "int \<Rightarrow> int \<Rightarrow> int \<Rightarrow> int \<Rightarrow> nat \<Rightarrow> nat \<Rightarrow> touch_transform \<Rightarrow> type_b_parser" where
  "with_ranges_and_transform min_x max_x min_y max_y width height transform =
     \<lparr>tp_slots = replicate max_slots slot_default, tp_current = 0, tp_next = 1,
      tp_min_x = min_x, tp_max_x = max max_x (i32_sat_add min_x 1),
      tp_min_y = min_y, tp_max_y = max max_y (i32_sat_add min_y 1),
      tp_width = max width 1, tp_height = max height 1, tp_transform = transform,
      tp_dropped = False\<rparr>"

definition with_ranges :: "int \<Rightarrow> int \<Rightarrow> int \<Rightarrow> int \<Rightarrow> nat \<Rightarrow> nat \<Rightarrow> type_b_parser" where
  "with_ranges min_x max_x min_y max_y width height =
     with_ranges_and_transform min_x max_x min_y max_y width height identity_transform"

definition parser_new :: "int \<Rightarrow> int \<Rightarrow> nat \<Rightarrow> nat \<Rightarrow> type_b_parser" where
  "parser_new max_x max_y width height = with_ranges 0 max_x 0 max_y width height"

definition map_axis :: "int \<Rightarrow> int \<Rightarrow> int \<Rightarrow> nat \<Rightarrow> int" where
  "map_axis raw lo hi extent = (i32_wrap (clamp_int raw lo hi - lo) * int (extent - 1)) sdiv i32_wrap (hi - lo)"

definition map_event ::
  "pointer_phase \<Rightarrow> u32 \<Rightarrow> int \<Rightarrow> int \<Rightarrow> type_b_parser \<Rightarrow> pointer_event" where
  "map_event phase contact raw_x raw_y p =
     (let x = map_axis raw_x (tp_min_x p) (tp_max_x p) (tp_width p);
          y = map_axis raw_y (tp_min_y p) (tp_max_y p) (tp_height p);
          x' = (if invert_x (tp_transform p) then int (tp_width p - 1) - x else x);
          y' = (if invert_y (tp_transform p) then int (tp_height p - 1) - y else y)
      in \<lparr>pe_phase = phase, pe_contact = contact, pe_x = nat (x' mod 2 ^ 32), pe_y = nat (y' mod 2 ^ 32)\<rparr>)"

definition allocate_contact_id :: "type_b_parser \<Rightarrow> u32 \<times> type_b_parser" where
  "allocate_contact_id p =
     (let contact = max (tp_next p) 1 in (contact, p\<lparr>tp_next := max (contact + 1) 1\<rparr>))"

text \<open>The two loop bodies of \<open>finish_report\<close>: what a slot reports and what it becomes.\<close>

definition cancel_slot :: "type_b_parser \<Rightarrow> slot \<Rightarrow> pointer_event list" where
  "cancel_slot p s =
     (case (sl_contact s, sl_x s, sl_y s) of
        (Some contact, Some x, Some y) \<Rightarrow> [map_event Cancel contact x y p]
      | _ \<Rightarrow> [])"

definition report_slot :: "type_b_parser \<Rightarrow> slot \<Rightarrow> pointer_event list \<times> slot" where
  "report_slot p s =
     (case (sl_contact s, sl_x s, sl_y s) of
        (Some contact, Some x, Some y) \<Rightarrow>
          (let done = (if sl_up s then slot_default else s\<lparr>sl_down := False, sl_changed := False\<rparr>) in
           if sl_down s then ([map_event Down contact x y p], done)
           else if sl_up s then ([map_event Up contact x y p], done)
           else if sl_changed s then ([map_event Move contact x y p], done)
           else ([], s))
      | _ \<Rightarrow> ([], if sl_up s then slot_default else s))"

definition finish_report :: "type_b_parser \<Rightarrow> pointer_event list \<times> type_b_parser" where
  "finish_report p =
     (if tp_dropped p
      then (concat (map (cancel_slot p) (tp_slots p)),
            p\<lparr>tp_dropped := False, tp_slots := map (\<lambda>_. slot_default) (tp_slots p)\<rparr>)
      else (concat (map (\<lambda>s. fst (report_slot p s)) (tp_slots p)),
            p\<lparr>tp_slots := map (\<lambda>s. snd (report_slot p s)) (tp_slots p)\<rparr>))"

abbreviation current_slot :: "type_b_parser \<Rightarrow> slot" where
  "current_slot p \<equiv> tp_slots p ! tp_current p"

definition set_slot :: "slot \<Rightarrow> type_b_parser \<Rightarrow> type_b_parser" where
  "set_slot s p = p\<lparr>tp_slots := (tp_slots p)[tp_current p := s]\<rparr>"

definition parser_push :: "input_event \<Rightarrow> type_b_parser \<Rightarrow> pointer_event list \<times> type_b_parser" where
  "parser_push e p =
     (let t = ev_type e; c = ev_code e; v = ev_value e in
      if t = EV_SYN \<and> c = SYN_DROPPED then ([], p\<lparr>tp_dropped := True\<rparr>)
      else if t = EV_ABS \<and> c = ABS_MT_SLOT then ([], p\<lparr>tp_current := min (nat (max v 0)) (max_slots - 1)\<rparr>)
      else if t = EV_ABS \<and> c = ABS_MT_TRACKING_ID then
        (if v \<ge> 0 then
           let (contact, p') = allocate_contact_id p
           in ([], set_slot (slot_default\<lparr>sl_contact := Some contact, sl_down := True\<rparr>) p')
         else if sl_contact (current_slot p) \<noteq> None
         then ([], set_slot ((current_slot p)\<lparr>sl_up := True\<rparr>) p)
         else ([], p))
      else if t = EV_ABS \<and> c = ABS_MT_POSITION_X then
        ([], set_slot ((current_slot p)\<lparr>sl_x := Some v, sl_changed := True\<rparr>) p)
      else if t = EV_ABS \<and> c = ABS_MT_POSITION_Y then
        ([], set_slot ((current_slot p)\<lparr>sl_y := Some v, sl_changed := True\<rparr>) p)
      else if t = EV_SYN \<and> c = SYN_REPORT then finish_report p
      else ([], p))"

fun parser_run :: "input_event list \<Rightarrow> type_b_parser \<Rightarrow> pointer_event list \<times> type_b_parser" where
  "parser_run [] p = ([], p)"
| "parser_run (e # es) p =
     (let (out, p') = parser_push e p; (out', p'') = parser_run es p' in (out @ out', p''))"

section \<open>Coordinates\<close>

definition axis_ok :: "int \<Rightarrow> int \<Rightarrow> nat \<Rightarrow> bool" where
  "axis_ok lo hi extent \<longleftrightarrow> lo < hi \<and> hi - lo \<le> i32_max \<and> 1 \<le> extent \<and> extent \<le> u32_max"

lemma i32_wrap_id: "0 \<le> i \<Longrightarrow> i \<le> i32_max \<Longrightarrow> i32_wrap i = i"
  by (simp add: i32_wrap_def i32_max_def signed_take_bit_int_eq_self)

lemma clamp_bounds: "lo < hi \<Longrightarrow> 0 \<le> clamp_int raw lo hi - lo \<and> clamp_int raw lo hi - lo \<le> hi - lo"
  by (simp add: clamp_int_def)

lemma map_axis_div:
  assumes "axis_ok lo hi extent"
  shows "map_axis raw lo hi extent = ((clamp_int raw lo hi - lo) * int (extent - 1)) div (hi - lo)"
proof -
  have "0 \<le> clamp_int raw lo hi - lo" "clamp_int raw lo hi - lo \<le> i32_max" "0 \<le> hi - lo"
    using clamp_bounds [of lo hi raw] assms by (auto simp: axis_ok_def)
  moreover have "0 \<le> (clamp_int raw lo hi - lo) * int (extent - 1)" using calculation by simp
  ultimately show ?thesis
    using assms by (simp add: map_axis_def i32_wrap_id axis_ok_def signed_divide_int_def sgn_if)
qed

lemma map_axis_bounds:
  assumes "axis_ok lo hi extent"
  shows "0 \<le> map_axis raw lo hi extent" and "map_axis raw lo hi extent \<le> int (extent - 1)"
proof -
  note b = clamp_bounds [of lo hi raw]
  have pos: "0 < hi - lo" using assms by (simp add: axis_ok_def)
  show "0 \<le> map_axis raw lo hi extent"
    unfolding map_axis_div [OF assms] using b pos by (intro div_int_pos_iff [THEN iffD2]) auto
  have "(clamp_int raw lo hi - lo) * int (extent - 1) \<le> (hi - lo) * int (extent - 1)"
    using b pos by (intro mult_right_mono) auto
  then have "(clamp_int raw lo hi - lo) * int (extent - 1) div (hi - lo) \<le> (hi - lo) * int (extent - 1) div (hi - lo)"
    by (intro zdiv_mono1 [OF _ pos])
  then show "map_axis raw lo hi extent \<le> int (extent - 1)" unfolding map_axis_div [OF assms] using pos by simp
qed

lemma map_axis_mono:
  assumes "axis_ok lo hi extent" and "raw \<le> raw'"
  shows "map_axis raw lo hi extent \<le> map_axis raw' lo hi extent"
proof -
  have "clamp_int raw lo hi - lo \<le> clamp_int raw' lo hi - lo" using assms(2) by (simp add: clamp_int_def)
  then have "(clamp_int raw lo hi - lo) * int (extent - 1) \<le> (clamp_int raw' lo hi - lo) * int (extent - 1)"
    by (rule mult_right_mono) simp
  then show ?thesis unfolding map_axis_div [OF assms(1)]
    using assms(1) by (intro zdiv_mono1) (auto simp: axis_ok_def)
qed

lemma map_axis_ends:
  assumes "axis_ok lo hi extent"
  shows "map_axis lo lo hi extent = 0" and "map_axis hi lo hi extent = int (extent - 1)"
  using assms by (simp_all add: map_axis_div clamp_int_def axis_ok_def)

definition parser_axes_ok :: "type_b_parser \<Rightarrow> bool" where
  "parser_axes_ok p \<longleftrightarrow> axis_ok (tp_min_x p) (tp_max_x p) (tp_width p) \<and>
     axis_ok (tp_min_y p) (tp_max_y p) (tp_height p)"

lemma oriented_mod:
  assumes "0 \<le> v" and "v \<le> int (extent - 1)" and "1 \<le> extent" and "extent \<le> u32_max"
  shows "nat ((if b then int (extent - 1) - v else v) mod 2 ^ 32) =
    nat (if b then int (extent - 1) - v else v)"
  using assms by (auto simp: u32_max_def)

lemma map_event_coordinates:
  assumes "parser_axes_ok p"
  shows "pe_x (map_event phase contact raw_x raw_y p) =
      nat (if invert_x (tp_transform p) then int (tp_width p - 1) - map_axis raw_x (tp_min_x p) (tp_max_x p) (tp_width p)
           else map_axis raw_x (tp_min_x p) (tp_max_x p) (tp_width p))"
    and "pe_y (map_event phase contact raw_x raw_y p) =
      nat (if invert_y (tp_transform p) then int (tp_height p - 1) - map_axis raw_y (tp_min_y p) (tp_max_y p) (tp_height p)
           else map_axis raw_y (tp_min_y p) (tp_max_y p) (tp_height p))"
  using assms map_axis_bounds oriented_mod
  by (simp_all add: map_event_def parser_axes_ok_def axis_ok_def Let_def)

lemma map_event_fields [simp]:
  "pe_phase (map_event phase contact raw_x raw_y p) = phase"
  "pe_contact (map_event phase contact raw_x raw_y p) = contact"
  by (simp_all add: map_event_def Let_def)

lemma oriented_axis:
  assumes "axis_ok lo hi extent" and "raw \<le> raw'"
    and "f = (\<lambda>r. nat (if b then int (extent - 1) - map_axis r lo hi extent else map_axis r lo hi extent))"
  shows "f raw < extent" and "f lo = (if b then extent - 1 else 0)" and "f hi = (if b then 0 else extent - 1)"
    and "if b then f raw' \<le> f raw else f raw \<le> f raw'"
  using map_axis_bounds [OF assms(1), of raw] map_axis_bounds [OF assms(1), of raw']
    map_axis_mono [OF assms(1,2)] map_axis_ends [OF assms(1)] assms(1)
  by (auto simp: assms(3) axis_ok_def)

text \<open>
  Touch coordinates are sound: when the axis ranges are nonempty and fit 32 bits,
  every event lies on the panel whatever the kernel reports, both ends of an axis reach both
  edges of the panel (swapped by the transform when the axis is inverted), and moving along an
  axis never moves the event backwards.
\<close>

theorem map_event_in_panel:
  assumes "parser_axes_ok p" and "raw \<le> raw'"
  shows "pe_x (map_event phase contact raw y p) < tp_width p \<and>
    pe_y (map_event phase contact x raw p) < tp_height p \<and>
    pe_x (map_event phase contact (tp_min_x p) y p) = (if invert_x (tp_transform p) then tp_width p - 1 else 0) \<and>
    pe_x (map_event phase contact (tp_max_x p) y p) = (if invert_x (tp_transform p) then 0 else tp_width p - 1) \<and>
    pe_y (map_event phase contact x (tp_min_y p) p) = (if invert_y (tp_transform p) then tp_height p - 1 else 0) \<and>
    pe_y (map_event phase contact x (tp_max_y p) p) = (if invert_y (tp_transform p) then 0 else tp_height p - 1) \<and>
    (if invert_x (tp_transform p)
     then pe_x (map_event phase contact raw' y p) \<le> pe_x (map_event phase contact raw y p)
     else pe_x (map_event phase contact raw y p) \<le> pe_x (map_event phase contact raw' y p)) \<and>
    (if invert_y (tp_transform p)
     then pe_y (map_event phase contact x raw' p) \<le> pe_y (map_event phase contact x raw p)
     else pe_y (map_event phase contact x raw p) \<le> pe_y (map_event phase contact x raw' p))"
proof -
  have ax: "axis_ok (tp_min_x p) (tp_max_x p) (tp_width p)" "axis_ok (tp_min_y p) (tp_max_y p) (tp_height p)"
    using assms(1) by (simp_all add: parser_axes_ok_def)
  note c = map_event_coordinates [OF assms(1)]
  note x = oriented_axis [OF ax(1) assms(2), where b = "invert_x (tp_transform p)"]
  note y = oriented_axis [OF ax(2) assms(2), where b = "invert_y (tp_transform p)"]
  show ?thesis
    unfolding c by (intro conjI x [OF refl] y [OF refl])
qed

section \<open>The life of a contact\<close>

text \<open>The phases a consumer may see, given the contacts it knows to be down.\<close>

fun phases_ok :: "u32 set \<Rightarrow> pointer_event list \<Rightarrow> bool" where
  "phases_ok V [] = True"
| "phases_ok V (e # es) =
     ((case pe_phase e of Down \<Rightarrow> pe_contact e \<notin> V | Move \<Rightarrow> pe_contact e \<in> V
         | Up \<Rightarrow> pe_contact e \<in> V | Cancel \<Rightarrow> True) \<and> phases_ok (view_event e V) es)"

lemma phases_ok_append:
  "phases_ok V (es @ es') \<longleftrightarrow> phases_ok V es \<and> phases_ok (fold view_event es V) es'"
  by (induction es arbitrary: V) auto

definition slot_ids :: "slot list \<Rightarrow> u32 set" where
  "slot_ids ss = {c. \<exists>s\<in>set ss. sl_contact s = Some c}"

definition slot_live :: "slot list \<Rightarrow> u32 set" where
  "slot_live ss = {c. \<exists>s\<in>set ss. sl_contact s = Some c \<and> \<not> sl_down s}"

lemma slot_sets_simps [simp]:
  "slot_ids [] = {}" "slot_live [] = {}"
  "slot_ids (s # ss) = set_option (sl_contact s) \<union> slot_ids ss"
  "slot_live (s # ss) = (if sl_down s then {} else set_option (sl_contact s)) \<union> slot_live ss"
  by (auto simp: slot_ids_def slot_live_def)

text \<open>A slot between two kernel events: an announced contact has coordinates.\<close>

definition slot_ok :: "slot \<Rightarrow> bool" where
  "slot_ok s \<longleftrightarrow> (sl_contact s = None \<longrightarrow> \<not> sl_down s \<and> \<not> sl_up s) \<and>
     (sl_contact s \<noteq> None \<and> \<not> sl_down s \<longrightarrow> sl_x s \<noteq> None \<and> sl_y s \<noteq> None) \<and>
     \<not> (sl_down s \<and> sl_up s)"

definition slots_distinct :: "slot list \<Rightarrow> bool" where
  "slots_distinct ss \<longleftrightarrow> sorted_wrt (\<lambda>s t. sl_contact s = None \<or> sl_contact s \<noteq> sl_contact t) ss"

lemma slots_distinct_Cons:
  "slots_distinct (s # ss) \<longleftrightarrow> set_option (sl_contact s) \<inter> slot_ids ss = {} \<and> slots_distinct ss"
  by (cases "sl_contact s") (auto simp: slots_distinct_def slot_ids_def)

lemma slot_default_ok [simp]: "slot_ok slot_default" "sl_contact slot_default = None"
  "sl_down slot_default = False" "sl_up slot_default = False"
  by (simp_all add: slot_ok_def slot_default_def)

lemma report_slot_cases:
  assumes "slot_ok s" and "report_slot p s = (out, s')"
  shows "slot_ok s' \<and> set_option (sl_contact s') \<subseteq> set_option (sl_contact s) \<and>
    (out = [] \<and> (if sl_down s then {} else set_option (sl_contact s)) =
         (if sl_down s' then {} else set_option (sl_contact s')) \<or>
     (\<exists>c e. sl_contact s = Some c \<and> out = [e] \<and> pe_contact e = c \<and>
        (pe_phase e = Down \<and> sl_down s \<and> sl_contact s' = Some c \<and> \<not> sl_down s' \<or>
         pe_phase e = Up \<and> \<not> sl_down s \<and> sl_contact s' = None \<or>
         pe_phase e = Move \<and> \<not> sl_down s \<and> sl_contact s' = Some c \<and> \<not> sl_down s')))"
  using assms
  by (auto simp: report_slot_def slot_ok_def slot_default_def Let_def split: if_splits option.splits)

lemma report_slots_phases:
  assumes "\<forall>s\<in>set ss. slot_ok s" and "slots_distinct ss" and "V \<inter> slot_ids ss = slot_live ss"
  shows "phases_ok V (concat (map (\<lambda>s. fst (report_slot p s)) ss)) \<and>
    fold view_event (concat (map (\<lambda>s. fst (report_slot p s)) ss)) V =
      (V - slot_ids ss) \<union> slot_live (map (\<lambda>s. snd (report_slot p s)) ss) \<and>
    (\<forall>s\<in>set (map (\<lambda>s. snd (report_slot p s)) ss). slot_ok s) \<and>
    slots_distinct (map (\<lambda>s. snd (report_slot p s)) ss) \<and>
    slot_ids (map (\<lambda>s. snd (report_slot p s)) ss) \<subseteq> slot_ids ss"
  using assms
proof (induction ss arbitrary: V)
  case Nil
  then show ?case by (auto simp: slots_distinct_def)
next
  case (Cons s ss)
  obtain out s' where r: "report_slot p s = (out, s')" by (rule prod.exhaust)
  have ok: "slot_ok s" using Cons.prems(1) by simp
  note c = report_slot_cases [OF ok r]
  have d: "set_option (sl_contact s) \<inter> slot_ids ss = {}" "slots_distinct ss"
    using Cons.prems(2) by (simp_all add: slots_distinct_Cons)
  have live: "slot_live ss \<subseteq> slot_ids ss" by (auto simp: slot_live_def slot_ids_def)
  have here: "V \<inter> set_option (sl_contact s) = (if sl_down s then {} else set_option (sl_contact s))"
  proof -
    have "V \<inter> set_option (sl_contact s) = (V \<inter> slot_ids (s # ss)) \<inter> set_option (sl_contact s)" by auto
    also have "\<dots> = slot_live (s # ss) \<inter> set_option (sl_contact s)" by (simp only: Cons.prems(3))
    also have "\<dots> = (if sl_down s then {} else set_option (sl_contact s))" using d(1) live by auto
    finally show ?thesis .
  qed
  have rest: "V \<inter> slot_ids ss = slot_live ss"
  proof -
    have "V \<inter> slot_ids ss = (V \<inter> slot_ids (s # ss)) \<inter> slot_ids ss" by auto
    also have "\<dots> = slot_live (s # ss) \<inter> slot_ids ss" by (simp only: Cons.prems(3))
    also have "\<dots> = slot_live ss" using d(1) live by auto
    finally show ?thesis .
  qed
  let ?V = "fold view_event out V"
  have V': "?V = (V - set_option (sl_contact s)) \<union> (if sl_down s' then {} else set_option (sl_contact s'))"
    using c here by (auto simp: view_event_def)
  have sub: "set_option (sl_contact s') \<subseteq> set_option (sl_contact s)" using c by blast
  have "?V \<inter> slot_ids ss = slot_live ss" unfolding V' using d(1) sub rest by auto
  from Cons.IH [OF _ d(2) this] Cons.prems(1)
  have IH: "phases_ok ?V (concat (map (\<lambda>s. fst (report_slot p s)) ss))"
    "fold view_event (concat (map (\<lambda>s. fst (report_slot p s)) ss)) ?V =
      (?V - slot_ids ss) \<union> slot_live (map (\<lambda>s. snd (report_slot p s)) ss)"
    "\<forall>s\<in>set (map (\<lambda>s. snd (report_slot p s)) ss). slot_ok s"
    "slots_distinct (map (\<lambda>s. snd (report_slot p s)) ss)"
    "slot_ids (map (\<lambda>s. snd (report_slot p s)) ss) \<subseteq> slot_ids ss" by auto
  have "phases_ok V out" using c here by (auto split: pointer_phase.splits)
  moreover have "(?V - slot_ids ss) \<union> slot_live (map (\<lambda>s. snd (report_slot p s)) ss) =
      (V - slot_ids (s # ss)) \<union> slot_live (s' # map (\<lambda>s. snd (report_slot p s)) ss)"
    unfolding V' using d(1) sub by auto
  moreover have "slots_distinct (s' # map (\<lambda>s. snd (report_slot p s)) ss)"
    using d(1) sub IH(4,5) by (auto simp: slots_distinct_Cons)
  moreover have "slot_ok s'" using c by blast
  ultimately show ?case using IH sub r by (auto simp: phases_ok_append)
qed

text \<open>
  A kernel event is orderly when a contact starts in an empty slot and ends after a report has
  announced it; \<open>parser_inv n p\<close> holds after orderly events, with at most \<open>n\<close> starts.
\<close>

definition orderly :: "input_event \<Rightarrow> type_b_parser \<Rightarrow> bool" where
  "orderly e p \<longleftrightarrow> (ev_type e = EV_ABS \<and> ev_code e = ABS_MT_TRACKING_ID \<longrightarrow>
     (if ev_value e \<ge> 0 then sl_contact (current_slot p) = None else \<not> sl_down (current_slot p)))"

fun orderly_run :: "input_event list \<Rightarrow> type_b_parser \<Rightarrow> bool" where
  "orderly_run [] p = True"
| "orderly_run (e # es) p = (orderly e p \<and> orderly_run es (snd (parser_push e p)))"

definition parser_inv :: "nat \<Rightarrow> type_b_parser \<Rightarrow> bool" where
  "parser_inv n p \<longleftrightarrow> length (tp_slots p) = max_slots \<and> tp_current p < max_slots \<and>
     (\<forall>s\<in>set (tp_slots p). slot_ok s) \<and> slots_distinct (tp_slots p) \<and>
     unat (tp_next p) = n + 1 \<and> (\<forall>c\<in>slot_ids (tp_slots p). unat c \<le> n)"

lemma slot_ids_update:
  "i < length ss \<Longrightarrow> slot_ids (ss[i := s]) \<subseteq> set_option (sl_contact s) \<union> slot_ids ss"
  by (auto simp: slot_ids_def dest: set_update_subset_insert [THEN subsetD])

lemma slots_distinct_nth:
  "slots_distinct ss \<longleftrightarrow> (\<forall>i j. i < j \<longrightarrow> j < length ss \<longrightarrow>
     sl_contact (ss ! i) = None \<or> sl_contact (ss ! i) \<noteq> sl_contact (ss ! j))"
  by (auto simp: slots_distinct_def sorted_wrt_iff_nth_less)

lemma slots_distinct_update:
  assumes "slots_distinct ss" and "i < length ss"
    and "sl_contact s = None \<or> sl_contact s = sl_contact (ss ! i) \<or> set_option (sl_contact s) \<inter> slot_ids ss = {}"
  shows "slots_distinct (ss[i := s])"
proof -
  have other: "sl_contact s = None \<or> sl_contact s \<noteq> sl_contact (ss ! j)"
    if j: "j < length ss" "j \<noteq> i" for j
  proof -
    have "sl_contact (ss ! i) = None \<or> sl_contact (ss ! i) \<noteq> sl_contact (ss ! j)"
      using assms(1) [unfolded slots_distinct_nth] assms(2) j by (metis linorder_neqE_nat)
    moreover have "sl_contact (ss ! j) = Some c \<Longrightarrow> c \<in> slot_ids ss" for c
      using j(1) nth_mem by (fastforce simp: slot_ids_def)
    ultimately show ?thesis using assms(3) by (cases "sl_contact s") auto
  qed
  show ?thesis
    unfolding slots_distinct_nth length_list_update
  proof (intro allI impI)
    fix a b assume ab: "a < b" "b < length ss"
    then have "sl_contact (ss ! a) = None \<or> sl_contact (ss ! a) \<noteq> sl_contact (ss ! b)"
      using assms(1) by (simp add: slots_distinct_nth)
    then show "sl_contact (ss[i := s] ! a) = None \<or> sl_contact (ss[i := s] ! a) \<noteq> sl_contact (ss[i := s] ! b)"
      using other [of a] other [of b] ab assms(2) by (cases "a = i"; cases "b = i") auto
  qed
qed

lemma set_slot_inv:
  assumes "parser_inv n p" and "slot_ok s"
    and "sl_contact s = None \<or> sl_contact s = sl_contact (current_slot p)"
  shows "parser_inv n (set_slot s p)"
proof -
  have i: "tp_current p < length (tp_slots p)" using assms(1) by (simp add: parser_inv_def)
  have "set_option (sl_contact s) \<subseteq> slot_ids (tp_slots p)"
    using assms(3) nth_mem [OF i] by (auto simp: slot_ids_def)
  then have "slot_ids ((tp_slots p)[tp_current p := s]) \<subseteq> slot_ids (tp_slots p)"
    using slot_ids_update [OF i, of s] by blast
  then show ?thesis
    using assms i slots_distinct_update [OF _ i, of s] set_update_subset_insert [of "tp_slots p" "tp_current p" s]
    unfolding parser_inv_def set_slot_def by auto
qed

lemma slot_live_update:
  assumes "i < length ss"
    and "(if sl_down s then {} else set_option (sl_contact s)) =
      (if sl_down (ss ! i) then {} else set_option (sl_contact (ss ! i)))"
  shows "slot_live (ss[i := s]) = slot_live ss"
  using assms
proof (induction ss arbitrary: i)
  case (Cons t ss)
  then show ?case by (cases i) auto
qed simp

text \<open>Starting a contact takes a fresh id as long as the counter has not wrapped.\<close>

lemma start_inv:
  assumes "parser_inv n p" and "n < 2 ^ 32 - 2" and "sl_contact (current_slot p) = None"
    and "allocate_contact_id p = (c, q)"
  shows "parser_inv (Suc n) (set_slot (slot_default\<lparr>sl_contact := Some c, sl_down := True\<rparr>) q) \<and>
    slot_live (tp_slots (set_slot (slot_default\<lparr>sl_contact := Some c, sl_down := True\<rparr>) q)) =
      slot_live (tp_slots p)"
proof -
  let ?s = "slot_default\<lparr>sl_contact := Some c, sl_down := True\<rparr>" and ?ss = "tp_slots p"
  have i: "tp_current p < length ?ss" using assms(1) by (simp add: parser_inv_def)
  have nx: "unat (tp_next p) = n + 1" using assms(1) by (simp add: parser_inv_def)
  then have "1 \<le> tp_next p" by (simp add: word_le_nat_alt)
  then have c: "c = tp_next p" using assms(4) by (auto simp: allocate_contact_id_def Let_def max_def)
  have up: "unat (tp_next p + 1) = n + 2"
    using nx assms(2) by (simp add: unat_word_ariths)
  then have "1 \<le> tp_next p + 1" by (simp add: word_le_nat_alt)
  then have q: "tp_slots q = ?ss" "tp_current q = tp_current p" "unat (tp_next q) = n + 2"
    using assms(4) c up by (auto simp: allocate_contact_id_def Let_def max_def)
  have fresh: "c \<notin> slot_ids ?ss" using assms(1) c nx by (auto simp: parser_inv_def)
  have "slots_distinct (?ss[tp_current p := ?s])"
    using assms(1) fresh by (intro slots_distinct_update i) (simp_all add: parser_inv_def)
  moreover have "slot_ids (?ss[tp_current p := ?s]) \<subseteq> {c} \<union> slot_ids ?ss"
    using slot_ids_update [OF i, of ?s] by simp
  moreover have "slot_ok ?s" by (simp add: slot_ok_def slot_default_def)
  ultimately have "parser_inv (Suc n) (set_slot ?s q)"
    using assms(1) q nx c set_update_subset_insert [of ?ss "tp_current p" ?s]
    unfolding parser_inv_def set_slot_def by auto (fastforce dest: subsetD)+
  moreover have "slot_live (?ss[tp_current p := ?s]) = slot_live ?ss"
    using assms(3) by (intro slot_live_update [OF i]) simp
  ultimately show ?thesis by (simp add: set_slot_def q)
qed

lemma cancel_slots_view:
  assumes "\<forall>s\<in>set ss. slot_ok s"
  shows "phases_ok V (concat (map (cancel_slot p) ss)) \<and>
    fold view_event (concat (map (cancel_slot p) ss)) V \<subseteq> V - slot_live ss"
  using assms
proof (induction ss arbitrary: V)
  case (Cons s ss)
  have "phases_ok V (cancel_slot p s) \<and> fold view_event (cancel_slot p s) V \<subseteq>
      V - (if sl_down s then {} else set_option (sl_contact s))"
    using Cons.prems by (auto simp: cancel_slot_def slot_ok_def view_event_def split: option.splits)
  moreover note Cons.IH [of "fold view_event (cancel_slot p s) V"]
  ultimately show ?case using Cons.prems by (auto simp: phases_ok_append)
qed simp

lemma default_slots: "slots_distinct (map (\<lambda>_. slot_default) ss)" "slot_live (map (\<lambda>_. slot_default) ss) = {}"
  "slot_ids (map (\<lambda>_. slot_default) ss) = {}"
  by (auto simp: slots_distinct_nth slot_live_def slot_ids_def)

lemma finish_report_view:
  assumes "parser_inv n p" and "finish_report p = (out, p')" and "V = slot_live (tp_slots p)"
  shows "phases_ok V out \<and> fold view_event out V = slot_live (tp_slots p') \<and> parser_inv n p'"
proof (cases "tp_dropped p")
  case True
  have "fold view_event (concat (map (cancel_slot p) (tp_slots p))) V \<subseteq> {}"
    "phases_ok V (concat (map (cancel_slot p) (tp_slots p)))"
    using cancel_slots_view [of "tp_slots p" V p] assms(1,3) by (auto simp: parser_inv_def)
  then show ?thesis
    using True assms by (auto simp: finish_report_def parser_inv_def default_slots)
next
  case False
  have live: "slot_live (tp_slots p) \<subseteq> slot_ids (tp_slots p)" by (auto simp: slot_live_def slot_ids_def)
  then have "V \<inter> slot_ids (tp_slots p) = slot_live (tp_slots p)" using assms(3) by auto
  from report_slots_phases [OF _ _ this, of p] assms(1)
  have r: "phases_ok V (concat (map (\<lambda>s. fst (report_slot p s)) (tp_slots p)))"
    "fold view_event (concat (map (\<lambda>s. fst (report_slot p s)) (tp_slots p))) V =
      V - slot_ids (tp_slots p) \<union> slot_live (map (\<lambda>s. snd (report_slot p s)) (tp_slots p))"
    "\<forall>s\<in>set (map (\<lambda>s. snd (report_slot p s)) (tp_slots p)). slot_ok s"
    "slots_distinct (map (\<lambda>s. snd (report_slot p s)) (tp_slots p))"
    "slot_ids (map (\<lambda>s. snd (report_slot p s)) (tp_slots p)) \<subseteq> slot_ids (tp_slots p)"
    by (auto simp: parser_inv_def)
  have "V - slot_ids (tp_slots p) = {}" using live assms(3) by auto
  then show ?thesis
    using r False assms by (auto simp: finish_report_def parser_inv_def)
qed

lemma push_orderly:
  assumes "parser_inv n p" and "orderly e p" and "n < 2 ^ 32 - 2"
    and "parser_push e p = (out, p')" and "V = slot_live (tp_slots p)"
  shows "phases_ok V out \<and> fold view_event out V = slot_live (tp_slots p') \<and>
    (parser_inv n p' \<or> parser_inv (Suc n) p')"
proof -
  have i: "tp_current p < length (tp_slots p)" using assms(1) by (simp add: parser_inv_def)
  have ok: "slot_ok (current_slot p)" using assms(1) nth_mem [OF i] by (simp add: parser_inv_def)
  have quiet: ?thesis if "out = []" "slot_live (tp_slots p') = slot_live (tp_slots p)" "parser_inv n p'"
    using that assms(5) by simp
  have edit: ?thesis if "out = []" "p' = set_slot s p" "slot_ok s" "sl_contact s = sl_contact (current_slot p)"
    "sl_down s = sl_down (current_slot p)" for s
    using that set_slot_inv [OF assms(1), of s] slot_live_update [OF i, of s]
    by (intro quiet) (simp_all add: set_slot_def)
  let ?t = "ev_type e" and ?c = "ev_code e" and ?v = "ev_value e"
  note push = assms(4) [unfolded parser_push_def Let_def]
  consider (drop) "?t = EV_SYN" "?c = SYN_DROPPED"
    | (slot) "?t = EV_ABS" "?c = ABS_MT_SLOT"
    | (start) "?t = EV_ABS" "?c = ABS_MT_TRACKING_ID" "0 \<le> ?v"
    | (stop) "?t = EV_ABS" "?c = ABS_MT_TRACKING_ID" "\<not> 0 \<le> ?v"
    | (x) "?t = EV_ABS" "?c = ABS_MT_POSITION_X"
    | (y) "?t = EV_ABS" "?c = ABS_MT_POSITION_Y"
    | (sync) "?t = EV_SYN" "?c = SYN_REPORT"
    | (other) "\<not> (?t = EV_SYN \<and> ?c = SYN_DROPPED)" "\<not> (?t = EV_ABS \<and> ?c = ABS_MT_SLOT)"
      "\<not> (?t = EV_ABS \<and> ?c = ABS_MT_TRACKING_ID)" "\<not> (?t = EV_ABS \<and> ?c = ABS_MT_POSITION_X)"
      "\<not> (?t = EV_ABS \<and> ?c = ABS_MT_POSITION_Y)" "\<not> (?t = EV_SYN \<and> ?c = SYN_REPORT)"
    by blast
  then show ?thesis
  proof cases
    case drop
    then show ?thesis using push assms(1) by (intro quiet) (auto simp: event_codes parser_inv_def)
  next
    case slot
    then show ?thesis
      using push assms(1) by (intro quiet) (auto simp: event_codes parser_inv_def max_slots_def)
  next
    case start
    obtain c q where a: "allocate_contact_id p = (c, q)" by (rule prod.exhaust)
    have "sl_contact (current_slot p) = None" using assms(2) start by (simp add: orderly_def)
    note s = start_inv [OF assms(1,3) this a]
    have "out = []" "p' = set_slot (slot_default\<lparr>sl_contact := Some c, sl_down := True\<rparr>) q"
      using push start a by (simp_all add: event_codes)
    then show ?thesis using s assms(5) by simp
  next
    case stop
    have down: "\<not> sl_down (current_slot p)" using assms(2) stop by (simp add: orderly_def)
    show ?thesis
    proof (cases "sl_contact (current_slot p)")
      case None
      then show ?thesis using push stop assms(1) by (intro quiet) (simp_all add: event_codes)
    next
      case (Some c)
      then have "out = []" "p' = set_slot ((current_slot p)\<lparr>sl_up := True\<rparr>) p"
        using push stop by (simp_all add: event_codes)
      then show ?thesis by (rule edit) (use ok down Some in \<open>simp_all add: slot_ok_def\<close>)
    qed
  next
    case x
    then have "out = []" "p' = set_slot ((current_slot p)\<lparr>sl_x := Some ?v, sl_changed := True\<rparr>) p"
      using push by (simp_all add: event_codes)
    then show ?thesis by (rule edit) (use ok in \<open>auto simp: slot_ok_def\<close>)
  next
    case y
    then have "out = []" "p' = set_slot ((current_slot p)\<lparr>sl_y := Some ?v, sl_changed := True\<rparr>) p"
      using push by (simp_all add: event_codes)
    then show ?thesis by (rule edit) (use ok in \<open>auto simp: slot_ok_def\<close>)
  next
    case sync
    then have "finish_report p = (out, p')" using push by (simp add: event_codes)
    then show ?thesis using finish_report_view [OF assms(1) _ assms(5)] by blast
  next
    case other
    then have "out = [] \<and> p' = p" using push by (simp only: if_False simp_thms prod.inject)
    then show ?thesis using assms(1) by (intro quiet) simp_all
  qed
qed

lemma parser_start_inv: "parser_inv 0 (with_ranges_and_transform a b c d w h t)"
  by (simp add: parser_inv_def with_ranges_and_transform_def max_slots_def slots_distinct_nth slot_ids_def)

lemma parser_run_orderly:
  assumes "parser_inv n p" and "orderly_run es p" and "n + length es < 2 ^ 32 - 2"
    and "parser_run es p = (out, p')" and "V = slot_live (tp_slots p)"
  shows "phases_ok V out \<and> fold view_event out V = slot_live (tp_slots p')"
  using assms
proof (induction es arbitrary: n p out V)
  case (Cons e es)
  obtain o1 q where pu: "parser_push e p = (o1, q)" by (rule prod.exhaust)
  obtain o2 where r: "parser_run es q = (o2, p')" "out = o1 @ o2"
    using Cons.prems(4) pu by (auto split: prod.splits)
  have e: "orderly e p" "orderly_run es q" "n < 2 ^ 32 - 2" using Cons.prems(2,3) pu by auto
  note s = push_orderly [OF Cons.prems(1) e(1,3) pu Cons.prems(5)]
  obtain m where m: "parser_inv m q" "m + length es < 2 ^ 32 - 2"
    using s Cons.prems(3) by (cases "parser_inv n q") force+
  from Cons.IH [OF m(1) e(2) m(2) r(1) refl] s r(2) show ?case by (simp add: phases_ok_append)
qed simp

section \<open>Every contact is announced once and ended\<close>

text \<open>
  Claim C36. From a new parser, over any orderly sequence of fewer than \<open>2\<^sup>3\<^sup>2 - 2\<close> kernel
  events, overflows of the kernel buffer included, the pointer events form a proper protocol:
  DOWN only for a contact that is not down, MOVE and UP only for one that is; and the contacts a
  consumer knows to be down afterwards are exactly the announced contacts still in the slots.
\<close>

theorem parser_protocol:
  assumes "orderly_run es (with_ranges_and_transform a b c d w h t)" and "length es < 2 ^ 32 - 2"
    and "parser_run es (with_ranges_and_transform a b c d w h t) = (out, p')"
  shows "phases_ok {} out \<and> fold view_event out {} = slot_live (tp_slots p')"
proof -
  have "slot_live (tp_slots (with_ranges_and_transform a b c d w h t)) = {}"
    by (simp add: slot_live_def with_ranges_and_transform_def)
  from parser_run_orderly [OF parser_start_inv assms(1) _ assms(3) this [symmetric]] assms(2)
  show ?thesis by simp
qed

text \<open>Kernel events as the driver sends them.\<close>

definition tracking :: "int \<Rightarrow> input_event" where
  "tracking v = \<lparr>ev_type = EV_ABS, ev_code = ABS_MT_TRACKING_ID, ev_value = v\<rparr>"

definition at_position :: "int \<Rightarrow> int \<Rightarrow> input_event list" where
  "at_position x y = [\<lparr>ev_type = EV_ABS, ev_code = ABS_MT_POSITION_X, ev_value = x\<rparr>,
     \<lparr>ev_type = EV_ABS, ev_code = ABS_MT_POSITION_Y, ev_value = y\<rparr>]"

definition sync :: input_event where
  "sync = \<lparr>ev_type = EV_SYN, ev_code = SYN_REPORT, ev_value = 0\<rparr>"

lemmas kernel_events = tracking_def at_position_def sync_def event_codes

lemma report_slot_default [simp]: "report_slot p slot_default = ([], slot_default)"
  by (simp add: report_slot_def slot_default_def)

lemma slot_ids_replicate: "slot_ids (replicate n slot_default) = {}"
  by (induction n) auto

lemma sixteen_slots: "replicate max_slots x = x # replicate 15 x"
  by (simp add: max_slots_def flip: replicate_Suc)

text \<open>
  Two sequences the Type-B protocol allows lose the end of a contact: a tap whose start
  and end fall into one report yields its DOWN only, and a tracking id that replaces another one
  in its slot ends the old contact without an UP or CANCEL. In both cases the parser has
  forgotten the contact while the consumer still believes it to be down.
\<close>

theorem parser_loses_up:
  "let p = with_ranges_and_transform a b c d w h t;
       (tap, p1) = parser_run ([tracking 0] @ at_position x y @ [tracking (-1), sync]) p;
       (swap, p2) = parser_run ([tracking 0] @ at_position x y @ [sync, tracking 1] @
         at_position x y @ [sync, tracking (-1), sync]) p
   in map (\<lambda>e. (pe_phase e, pe_contact e)) tap = [(Down, 1)] \<and> slot_ids (tp_slots p1) = {} \<and>
      fold view_event tap {} = {1} \<and>
      map (\<lambda>e. (pe_phase e, pe_contact e)) swap = [(Down, 1), (Down, 2), (Up, 2)] \<and>
      slot_ids (tp_slots p2) = {} \<and> fold view_event swap {} = {1}"
  by (simp add: with_ranges_and_transform_def sixteen_slots parser_push_def kernel_events
      allocate_contact_id_def set_slot_def finish_report_def map_replicate_const
      report_slot_def view_event_def slot_ids_replicate Let_def)

text \<open>One finger touches the middle of a 10 by 10 panel, moves to the edge and is lifted.\<close>

definition demo_parser :: type_b_parser where
  "demo_parser = with_ranges_and_transform 0 100 0 100 10 10 identity_transform"

definition swipe :: "input_event list" where
  "swipe = [tracking 0] @ at_position 50 50 @ [sync] @ at_position 100 50 @ [sync, tracking (-1), sync]"

theorem parser_protocol_witness:
  "phases_ok {} (fst (parser_run swipe demo_parser)) \<and> fold view_event (fst (parser_run swipe demo_parser)) {} = {}"
proof -
  obtain out p' where r: "parser_run swipe demo_parser = (out, p')" by (rule prod.exhaust)
  have o: "orderly_run swipe demo_parser" "slot_ids (tp_slots (snd (parser_run swipe demo_parser))) = {}"
    by (simp_all add: swipe_def demo_parser_def with_ranges_and_transform_def sixteen_slots parser_push_def
        kernel_events orderly_def allocate_contact_id_def set_slot_def finish_report_def map_replicate_const
        report_slot_def slot_ids_replicate Let_def)
  have "slot_live (tp_slots p') = {}"
    using o(2) r by (auto simp: slot_live_def slot_ids_def)
  then show ?thesis
    using parser_protocol [OF o(1) [unfolded demo_parser_def] _ r [unfolded demo_parser_def]] r
    by (simp add: swipe_def at_position_def)
qed

theorem map_event_in_panel_witness:
  "pe_x (map_event Down 1 250 (-3) demo_parser) < 10 \<and> pe_x (map_event Down 1 100 0 demo_parser) = 9"
proof -
  have ok: "parser_axes_ok demo_parser"
    by (simp add: parser_axes_ok_def axis_ok_def demo_parser_def with_ranges_and_transform_def
        i32_sat_add_def i32_min_def i32_max_def u32_max_def)
  have f: "tp_width demo_parser = 10" "tp_max_x demo_parser = 100" "\<not> invert_x (tp_transform demo_parser)"
    by (simp_all add: demo_parser_def with_ranges_and_transform_def identity_transform_def i32_sat_add_def
        i32_min_def i32_max_def)
  from map_event_in_panel [OF ok order_refl, of Down 1 250 "-3" 0]
    map_event_in_panel [OF ok order_refl, of Down 1 250 0 0] show ?thesis by (simp add: f)
qed

end
