(* ===== verification/Pen.thy ===== *)
theory Pen
  imports Touch_Parser
begin

text \<open>
  The pen digitizer of \<open>evdev.rs\<close>: kernel events update the raw axes, the tools and the
  buttons; a synchronisation report becomes at most two pointer records in 16.16 panel
  coordinates. After an overflow of the kernel buffer the state is read back from the kernel,
  which is the argument \<open>pen_kernel\<close>.
\<close>

section \<open>Data\<close>

datatype pointer_device = DeviceTouch | DevicePen | DeviceMouse

datatype record_phase = PhaseDown | PhaseMove | PhaseUp | PhaseCancel | PhaseHover

record pointer_record =
  pr_device :: pointer_device
  pr_phase :: record_phase
  pr_flags :: nat
  pr_contact :: u32
  pr_x :: nat
  pr_y :: nat
  pr_pressure :: nat
  pr_buttons :: u32
  pr_tilt_x :: int
  pr_tilt_y :: int

record axis_range =
  ax_min :: int
  ax_max :: int

record pen =
  pn_axes :: "axis_range list"
  pn_tilt :: "axis_range option list"
  pn_width :: nat
  pn_height :: nat
  pn_rm2 :: bool
  pn_raw :: "int list"
  pn_pen :: bool
  pn_eraser :: bool
  pn_buttons :: u32
  pn_dirty :: bool
  pn_dropped :: bool
  pn_last :: "pointer_record option"

text \<open>What the kernel answers when it is asked for its state: pressed keys and axis values.\<close>

record pen_kernel =
  pk_key :: "nat \<Rightarrow> bool"
  pk_axis :: "nat \<Rightarrow> int option"

section \<open>Operations\<close>

unbundle bit_operations_syntax

definition pen_cancel :: "pen \<Rightarrow> pointer_record list \<times> pen" where
  "pen_cancel p =
     (case pn_last p of
        None \<Rightarrow> ([], p)
      | Some r \<Rightarrow> ([r\<lparr>pr_phase := PhaseCancel, pr_pressure := 0, pr_buttons := 0\<rparr>], p\<lparr>pn_last := None\<rparr>))"

definition scaled :: "int \<Rightarrow> axis_range \<Rightarrow> nat \<Rightarrow> nat" where
  "scaled raw axis maximum =
     (nat (clamp_int raw (ax_min axis) (ax_max axis) - ax_min axis) * maximum
       div nat (ax_max axis - ax_min axis)) mod 2 ^ 32"

definition tilt_value :: "int \<Rightarrow> axis_range option \<Rightarrow> int" where
  "tilt_value raw axis =
     (case axis of
        None \<Rightarrow> 0
      | Some r \<Rightarrow>
          let value = clamp_int raw (ax_min r) (ax_max r);
              extent = (if value < 0 then - ax_min r else ax_max r)
          in if extent > 0 then clamp_int ((value * 90) sdiv extent) (-90) 90 else 0)"

definition pen_touching :: "pen \<Rightarrow> bool" where
  "pen_touching p \<longleftrightarrow> pn_buttons p AND 1 \<noteq> 0"

definition was_touching :: "pen \<Rightarrow> bool" where
  "was_touching p = (case pn_last p of None \<Rightarrow> False | Some r \<Rightarrow> pr_buttons r AND 1 \<noteq> 0)"

definition pen_phase :: "bool \<Rightarrow> bool \<Rightarrow> record_phase" where
  "pen_phase touching was =
     (if touching then if was then PhaseMove else PhaseDown
      else if was then PhaseUp else PhaseHover)"

definition pen_record :: "pen \<Rightarrow> pointer_record" where
  "pen_record p =
     (let xi = (if pn_rm2 p then 1 else 0); yi = (if pn_rm2 p then 0 else 1);
          full_x = (pn_width p - 1) * 2 ^ 16; full_y = (pn_height p - 1) * 2 ^ 16;
          x = scaled (pn_raw p ! xi) (pn_axes p ! xi) full_x;
          y0 = scaled (pn_raw p ! yi) (pn_axes p ! yi) full_y;
          y = (if pn_rm2 p then full_y - y0 else y0);
          t0 = tilt_value (pn_raw p ! 3) (pn_tilt p ! 0);
          t1 = tilt_value (pn_raw p ! 4) (pn_tilt p ! 1)
      in \<lparr>pr_device = DevicePen, pr_phase = pen_phase (pen_touching p) (was_touching p),
          pr_flags = (if pn_eraser p then 1 else 0), pr_contact = 1, pr_x = x, pr_y = y,
          pr_pressure = (if pen_touching p then scaled (pn_raw p ! 2) (pn_axes p ! 2) 65535 else 0),
          pr_buttons = pn_buttons p,
          pr_tilt_x = (if pn_rm2 p then t1 else t0), pr_tilt_y = (if pn_rm2 p then - t0 else t1)\<rparr>)"

definition pen_report :: "pen \<Rightarrow> pointer_record list \<times> pen" where
  "pen_report p0 =
     (let p = p0\<lparr>pn_dirty := False\<rparr> in
      if \<not> pn_pen p \<and> \<not> pn_eraser p then pen_cancel p
      else
        let record = pen_record p;
            (output, p1) =
              (case pn_last p of
                 None \<Rightarrow> ([], p)
               | Some old \<Rightarrow> if pr_flags old \<noteq> pr_flags record then pen_cancel p else ([], p));
            record' = (if pen_touching p \<and> pn_last p1 = None then record\<lparr>pr_phase := PhaseDown\<rparr> else record)
        in (output @ [record'], p1\<lparr>pn_last := Some record'\<rparr>))"

definition pen_resync :: "pen_kernel \<Rightarrow> pen \<Rightarrow> pen" where
  "pen_resync k p =
     p\<lparr>pn_pen := pk_key k 320, pn_eraser := pk_key k 321,
       pn_buttons := (if pk_key k 330 then 1 else 0) OR push_bit 1 (if pk_key k 331 then 1 else 0) OR
         push_bit 2 (if pk_key k 332 then 1 else 0),
       pn_raw := map (\<lambda>(raw, code). case pk_axis k code of None \<Rightarrow> raw | Some v \<Rightarrow> v)
         (zip (pn_raw p) [0, 1, 24, 26, 27]),
       pn_dropped := False, pn_dirty := True\<rparr>"

definition axis_index :: "nat \<Rightarrow> nat option" where
  "axis_index code = (if code = 0 then Some 0 else if code = 1 then Some 1 else if code = 24 then Some 2
     else if code = 26 then Some 3 else if code = 27 then Some 4 else None)"

definition set_button :: "nat \<Rightarrow> bool \<Rightarrow> u32 \<Rightarrow> u32" where
  "set_button n pressed buttons =
     (if pressed then buttons OR push_bit n 1 else buttons AND NOT (push_bit n 1))"

text \<open>
  One event of the drain loop. \<open>None\<close> for the kernel is a failed query of the keys, which ends
  the drain with the system error.
\<close>

definition pen_push ::
  "pen_kernel option \<Rightarrow> input_event \<Rightarrow> pen \<Rightarrow> (string, pointer_record list) result \<times> pen" where
  "pen_push answer e p =
     (if ev_type e = EV_SYN \<and> ev_code e = SYN_DROPPED then
        (let (cancelled, p') = pen_cancel p in (Inr cancelled, p'\<lparr>pn_dropped := True\<rparr>))
      else if pn_dropped p then
        (if ev_type e = EV_SYN \<and> ev_code e = SYN_REPORT then
           (case answer of
              None \<Rightarrow> (Inl ''last_os_error'', p)
            | Some k \<Rightarrow> (Inr [], pen_resync k p))
         else (Inr [], p))
      else if ev_type e = EV_ABS then
        (case axis_index (ev_code e) of
           None \<Rightarrow> (Inr [], p)
         | Some i \<Rightarrow> (Inr [], p\<lparr>pn_raw := (pn_raw p)[i := ev_value e], pn_dirty := True\<rparr>))
      else if ev_type e = EV_KEY \<and> ev_code e = 320 then
        (Inr [], p\<lparr>pn_pen := (ev_value e \<noteq> 0), pn_dirty := True\<rparr>)
      else if ev_type e = EV_KEY \<and> ev_code e = 321 then
        (Inr [], p\<lparr>pn_eraser := (ev_value e \<noteq> 0), pn_dirty := True\<rparr>)
      else if ev_type e = EV_KEY \<and> 330 \<le> ev_code e \<and> ev_code e \<le> 332 then
        (Inr [], p\<lparr>pn_buttons := set_button (ev_code e - 330) (ev_value e \<noteq> 0) (pn_buttons p), pn_dirty := True\<rparr>)
      else if ev_type e = EV_SYN \<and> ev_code e = SYN_REPORT \<and> pn_dirty p then
        (let (report, p') = pen_report p in (Inr report, p'))
      else (Inr [], p))"

text \<open>The drain loop over the events of a read, with the reports kept apart.\<close>

fun pen_run :: "(pen_kernel option \<times> input_event) list \<Rightarrow> pen \<Rightarrow> (string, pointer_record list list) result \<times> pen" where
  "pen_run [] p = (Inr [], p)"
| "pen_run ((k, e) # es) p =
     (case pen_push k e p of
        (Inl err, p') \<Rightarrow> (Inl err, p')
      | (Inr report, p') \<Rightarrow>
          (case pen_run es p' of
             (Inl err, p'') \<Rightarrow> (Inl err, p'')
           | (Inr reports, p'') \<Rightarrow> (Inr (if report = [] then reports else report # reports), p'')))"

section \<open>Coordinates\<close>

definition range_ok :: "axis_range \<Rightarrow> bool" where
  "range_ok r \<longleftrightarrow> ax_min r < ax_max r"

definition pen_ok :: "pen \<Rightarrow> bool" where
  "pen_ok p \<longleftrightarrow> length (pn_axes p) = 3 \<and> list_all range_ok (pn_axes p) \<and> length (pn_tilt p) = 2 \<and>
     length (pn_raw p) = 5 \<and> 1 \<le> pn_width p \<and> pn_width p \<le> 65536 \<and> 1 \<le> pn_height p \<and> pn_height p \<le> 65536"

lemma scaled_le:
  assumes "range_ok r" and "maximum < 2 ^ 32"
  shows "scaled raw r maximum \<le> maximum"
proof -
  let ?v = "nat (clamp_int raw (ax_min r) (ax_max r) - ax_min r)" and ?e = "nat (ax_max r - ax_min r)"
  have "?v \<le> ?e" "0 < ?e" using assms(1) clamp_bounds [of "ax_min r" "ax_max r" raw] by (auto simp: range_ok_def)
  then have "?v * maximum div ?e \<le> ?e * maximum div ?e" by (intro div_le_mono mult_le_mono1)
  then have "?v * maximum div ?e \<le> maximum" using \<open>0 < ?e\<close> by simp
  then show ?thesis using mod_less_eq_dividend order_trans unfolding scaled_def by blast
qed

lemma tilt_bounds: "- 90 \<le> tilt_value raw r \<and> tilt_value raw r \<le> 90"
  by (simp add: tilt_value_def clamp_int_def Let_def split: option.splits)

definition record_in_panel :: "pen \<Rightarrow> pointer_record \<Rightarrow> bool" where
  "record_in_panel p r \<longleftrightarrow> pr_x r \<le> (pn_width p - 1) * 2 ^ 16 \<and> pr_y r \<le> (pn_height p - 1) * 2 ^ 16 \<and>
     pr_pressure r \<le> 65535 \<and> \<bar>pr_tilt_x r\<bar> \<le> 90 \<and> \<bar>pr_tilt_y r\<bar> \<le> 90 \<and>
     (pr_buttons r AND 1 = 0 \<longrightarrow> pr_pressure r = 0)"

lemma pen_record_in_panel:
  assumes "pen_ok p"
  shows "record_in_panel p (pen_record p)"
proof -
  have ax: "range_ok (pn_axes p ! i)" if "i < 3" for i
    using assms that by (simp add: pen_ok_def list_all_length)
  have full: "(pn_width p - 1) * 2 ^ 16 < 2 ^ 32" "(pn_height p - 1) * 2 ^ 16 < 2 ^ 32"
    using assms by (auto simp: pen_ok_def)
  note b = tilt_bounds [of "pn_raw p ! 3" "pn_tilt p ! 0"] tilt_bounds [of "pn_raw p ! 4" "pn_tilt p ! 1"]
  note sx = scaled_le [OF ax full(1)] and sy = scaled_le [OF ax full(2)]
  have "scaled (pn_raw p ! 2) (pn_axes p ! 2) 65535 \<le> 65535"
    using scaled_le [OF ax [of 2], of 65535] by simp
  then show ?thesis
    using sx [of 0] sx [of 1] sy [of 0] sy [of 1] b
    by (auto simp: record_in_panel_def pen_record_def pen_touching_def Let_def)
qed

section \<open>The protocol of the pen\<close>

text \<open>
  What a consumer knows: whether the pen is down, and whether the record before this one was a
  cancel.
\<close>

definition pen_next :: "pointer_record \<Rightarrow> bool \<times> bool \<Rightarrow> bool \<times> bool" where
  "pen_next r s = (pr_phase r \<in> {PhaseDown, PhaseMove}, pr_phase r = PhaseCancel)"

fun pen_protocol :: "bool \<times> bool \<Rightarrow> pointer_record list \<Rightarrow> bool" where
  "pen_protocol s [] = True"
| "pen_protocol s (r # rs) =
     ((case pr_phase r of
         PhaseDown \<Rightarrow> \<not> fst s
       | PhaseMove \<Rightarrow> fst s
       | PhaseUp \<Rightarrow> fst s \<or> snd s
       | PhaseCancel \<Rightarrow> True
       | PhaseHover \<Rightarrow> \<not> fst s) \<and> pen_protocol (pen_next r s) rs)"

lemma pen_protocol_append:
  "pen_protocol s (rs @ rs') \<longleftrightarrow> pen_protocol s rs \<and> pen_protocol (fold pen_next rs s) rs'"
  by (induction rs arbitrary: s) auto

definition pen_inv :: "pen \<Rightarrow> bool" where
  "pen_inv p \<longleftrightarrow> pen_ok p \<and> (case pn_last p of None \<Rightarrow> True | Some r \<Rightarrow> record_in_panel p r)"

text \<open>A step that keeps the geometry and answers with well-behaved records.\<close>

definition pen_step_ok :: "pen \<Rightarrow> pointer_record list \<Rightarrow> pen \<Rightarrow> bool" where
  "pen_step_ok p rs p' \<longleftrightarrow> pen_inv p' \<and> pn_width p' = pn_width p \<and> pn_height p' = pn_height p \<and>
     list_all (record_in_panel p) rs \<and>
     (\<forall>c. pen_protocol (was_touching p, c) rs \<and> fst (fold pen_next rs (was_touching p, c)) = was_touching p')"

lemma pen_cancel_ok:
  assumes "pen_inv p" and "pen_cancel p = (rs, p')"
  shows "pen_step_ok p rs p'"
  using assms
  by (auto simp: pen_cancel_def pen_step_ok_def pen_inv_def pen_ok_def record_in_panel_def was_touching_def
      pen_next_def split: option.splits)

lemma pen_quiet_ok:
  assumes "pen_inv p" and "pn_last p' = pn_last p" and "pn_width p' = pn_width p" and "pn_height p' = pn_height p"
    and "pen_ok p'"
  shows "pen_step_ok p [] p'"
  using assms by (auto simp: pen_step_ok_def pen_inv_def record_in_panel_def was_touching_def split: option.splits)

lemma pen_dirty [simp]:
  "record_in_panel (p\<lparr>pn_dirty := b\<rparr>) = record_in_panel p" "pen_ok (p\<lparr>pn_dirty := b\<rparr>) = pen_ok p"
  "was_touching (p\<lparr>pn_dirty := b\<rparr>) = was_touching p" "pen_touching (p\<lparr>pn_dirty := b\<rparr>) = pen_touching p"
  "pen_inv (p\<lparr>pn_dirty := b\<rparr>) = pen_inv p"
  by (simp_all add: record_in_panel_def fun_eq_iff pen_ok_def was_touching_def pen_touching_def pen_inv_def
      split: option.splits)

lemma pen_report_ok:
  assumes "pen_inv p" and "pen_report p = (rs, p')"
  shows "pen_step_ok p rs p'"
proof (cases "\<not> pn_pen p \<and> \<not> pn_eraser p")
  case True
  then have "pen_cancel (p\<lparr>pn_dirty := False\<rparr>) = (rs, p')" using assms(2) by (simp add: pen_report_def)
  then have "pen_step_ok (p\<lparr>pn_dirty := False\<rparr>) rs p'"
    using assms(1) by (intro pen_cancel_ok) simp_all
  then show ?thesis by (simp add: pen_step_ok_def)
next
  case False
  let ?p = "p\<lparr>pn_dirty := False\<rparr>"
  let ?r = "pen_record ?p"
  have ok: "pen_ok ?p" using assms(1) by (simp add: pen_inv_def)
  have r: "record_in_panel p ?r" "pr_buttons ?r = pn_buttons p"
      "pr_phase ?r = pen_phase (pen_touching p) (was_touching p)"
    using pen_record_in_panel [OF ok] by (simp_all add: pen_record_def Let_def)
  let ?flip = "case pn_last p of None \<Rightarrow> False | Some old \<Rightarrow> pr_flags old \<noteq> pr_flags ?r"
  let ?r' = "if pen_touching p \<and> (pn_last p = None \<or> ?flip) then ?r\<lparr>pr_phase := PhaseDown\<rparr> else ?r"
  let ?cancel = "case pn_last p of None \<Rightarrow> [] | Some old \<Rightarrow>
      if ?flip then [old\<lparr>pr_phase := PhaseCancel, pr_pressure := 0, pr_buttons := 0\<rparr>] else []"
  have rs: "rs = ?cancel @ [?r']" and p': "p' = ?p\<lparr>pn_last := Some ?r'\<rparr>"
    using assms(2) False
    by (auto simp: pen_report_def pen_cancel_def Let_def split: option.splits if_splits)
  have r': "record_in_panel p ?r'" "pr_buttons ?r' = pn_buttons p"
    using r by (auto simp: record_in_panel_def)
  have cancel: "list_all (record_in_panel p) ?cancel"
    using assms(1) by (auto simp: pen_inv_def record_in_panel_def split: option.splits)
  have w: "was_touching p' = pen_touching p"
    using r'(2) unfolding p' was_touching_def pen_touching_def by simp
  have "pen_inv p'"
    using ok r'(1) unfolding p' pen_inv_def by (simp add: pen_ok_def record_in_panel_def)
  moreover have "pen_protocol (was_touching p, c) rs" for c
    unfolding rs using r(3)
    by (auto simp: pen_protocol_append pen_next_def pen_phase_def was_touching_def split: option.splits)
  moreover have "fst (fold pen_next rs (was_touching p, c)) = pen_touching p" for c
    unfolding rs using r(3) by (auto simp: pen_next_def pen_phase_def)
  ultimately show ?thesis
    using rs r'(1) cancel w by (simp add: pen_step_ok_def p')
qed

lemma pen_push_ok:
  assumes "pen_inv p" and "pen_push answer e p = (Inr rs, p')"
  shows "pen_step_ok p rs p'"
proof -
  have ok: "pen_ok p" using assms(1) by (simp add: pen_inv_def)
  consider (drop) q where "pen_cancel p = (rs, q)" "p' = q\<lparr>pn_dropped := True\<rparr>"
    | (report) "pen_report p = (rs, p')"
    | (quiet) "rs = []" "pn_last p' = pn_last p" "pn_width p' = pn_width p" "pn_height p' = pn_height p" "pen_ok p'"
    using assms(2) ok
    by (auto simp: pen_push_def pen_resync_def pen_ok_def Let_def split: if_splits option.splits prod.splits)
  then show ?thesis
  proof cases
    case drop
    then show ?thesis using pen_cancel_ok [OF assms(1) drop(1)]
      by (auto simp: pen_step_ok_def pen_inv_def pen_ok_def record_in_panel_def was_touching_def split: option.splits)
  next
    case report
    then show ?thesis by (rule pen_report_ok [OF assms(1)])
  next
    case quiet
    then show ?thesis using pen_quiet_ok [OF assms(1)] by simp
  qed
qed


text \<open>A pen comes near, touches, is lifted while the tool changes to the eraser.\<close>

definition demo_pen :: pen where
  "demo_pen = \<lparr>pn_axes = [\<lparr>ax_min = 0, ax_max = 100\<rparr>, \<lparr>ax_min = 0, ax_max = 100\<rparr>, \<lparr>ax_min = 0, ax_max = 9\<rparr>], pn_tilt = [None, None], pn_width = 11,
     pn_height = 11, pn_rm2 = False, pn_raw = [50, 20, 0, 0, 0], pn_pen = False, pn_eraser = False,
     pn_buttons = 0, pn_dirty = False, pn_dropped = False, pn_last = None\<rparr>"

definition key_event :: "nat \<Rightarrow> int \<Rightarrow> input_event" where
  "key_event code v = \<lparr>ev_type = EV_KEY, ev_code = code, ev_value = v\<rparr>"

definition demo_strokes :: "(pen_kernel option \<times> input_event) list" where
  "demo_strokes = map (Pair None) [key_event 320 1, sync, key_event 330 1, sync, key_event 321 1,
     key_event 330 0, sync]"

lemma demo_strokes_run:
  "map (map pr_phase) (case fst (pen_run demo_strokes demo_pen) of Inl e \<Rightarrow> [] | Inr reports \<Rightarrow> reports) =
     [[PhaseHover], [PhaseDown], [PhaseCancel, PhaseUp]] \<and> is_ok (fst (pen_run demo_strokes demo_pen))"
  by (simp add: demo_strokes_def demo_pen_def key_event_def sync_def event_codes pen_push_def pen_report_def
      pen_record_def pen_cancel_def set_button_def pen_phase_def pen_touching_def was_touching_def is_ok_def
      axis_index_def tilt_value_def Let_def)


end
