(* ===== verification/Messages.thy ===== *)
theory Messages
  imports Scheduler Pen
begin

text \<open>
  The messages of a session: the enumerations and records of \<open>rm_display.proto\<close> that
  \<open>session.rs\<close> reads or writes, the envelope, and the errors of the receiver's session with
  their texts and codes. An enumeration field of a message is an \<open>i32\<close>, here an \<open>int\<close>; the
  \<open>*_of_i32\<close> functions are \<open>try_from\<close>. The bodies that the receiver only refuses carry no
  payload here.
\<close>

section \<open>Enumerations\<close>

datatype protocol_feature =
  AtomicMultiRegion | ExactBaseDelta | LatestSupersede | SettledBarrierFeature | PointerInput
  | KeyInputFeature | TextInputFeature | Actions | EpaperProfileControl | EpaperRefreshControl | ColorRgb565 | ByteCredits | EpaperCustomProfile
  | RemoteOverlay | LocalInk

fun feature_i32 :: "protocol_feature \<Rightarrow> int" where
  "feature_i32 AtomicMultiRegion = 1"
| "feature_i32 ExactBaseDelta = 2"
| "feature_i32 LatestSupersede = 3"
| "feature_i32 SettledBarrierFeature = 4"
| "feature_i32 PointerInput = 5"
| "feature_i32 KeyInputFeature = 6"
| "feature_i32 TextInputFeature = 7"
| "feature_i32 Actions = 8"
| "feature_i32 EpaperProfileControl = 9"
| "feature_i32 EpaperRefreshControl = 10"
| "feature_i32 ColorRgb565 = 11"
| "feature_i32 ByteCredits = 12"
| "feature_i32 EpaperCustomProfile = 13"
| "feature_i32 RemoteOverlay = 14"
| "feature_i32 LocalInk = 15"

datatype input_capability = CapTouch | CapPen | CapMouse | CapKey | CapText

fun capability_i32 :: "input_capability \<Rightarrow> int" where
  "capability_i32 CapTouch = 1"
| "capability_i32 CapPen = 2"
| "capability_i32 CapMouse = 3"
| "capability_i32 CapKey = 4"
| "capability_i32 CapText = 5"

text \<open>\<open>ProducerKind\<close> and \<open>SourceKind\<close> are only checked and passed on: 0 is unspecified.\<close>

definition producer_kind_known :: "int \<Rightarrow> bool" where
  "producer_kind_known v \<longleftrightarrow> 0 \<le> v \<and> v \<le> 5"

definition source_kind_known :: "int \<Rightarrow> bool" where
  "source_kind_known v \<longleftrightarrow> 0 \<le> v \<and> v \<le> 5"

definition orientation_current :: int where "orientation_current = 1"

datatype frame_result_code = CodePresented | CodeSuperseded | CodeNeedKeyframe | CodeRejected

fun frame_result_code_i32 :: "frame_result_code \<Rightarrow> int" where
  "frame_result_code_i32 CodePresented = 1"
| "frame_result_code_i32 CodeSuperseded = 2"
| "frame_result_code_i32 CodeNeedKeyframe = 3"
| "frame_result_code_i32 CodeRejected = 4"

datatype frame_result_reason =
  WhyNone | WhyWrongSurface | WhyBadBase | WhyBadRegion | WhyBadLength | WhyBadCrc | WhyUnsupported
  | WhyNoCredit | WhyBackendFailure | WhyProtocolState | WhyInkFrozen

fun frame_result_reason_i32 :: "frame_result_reason \<Rightarrow> int" where
  "frame_result_reason_i32 WhyNone = 0"
| "frame_result_reason_i32 WhyWrongSurface = 1"
| "frame_result_reason_i32 WhyBadBase = 2"
| "frame_result_reason_i32 WhyBadRegion = 3"
| "frame_result_reason_i32 WhyBadLength = 4"
| "frame_result_reason_i32 WhyBadCrc = 5"
| "frame_result_reason_i32 WhyUnsupported = 6"
| "frame_result_reason_i32 WhyNoCredit = 7"
| "frame_result_reason_i32 WhyBackendFailure = 8"
| "frame_result_reason_i32 WhyProtocolState = 9"
| "frame_result_reason_i32 WhyInkFrozen = 10"

fun full_refresh_reason_i32 :: "full_refresh_reason \<Rightarrow> int" where
  "full_refresh_reason_i32 ReasonNone = 0"
| "full_refresh_reason_i32 PartialDisabled = 1"
| "full_refresh_reason_i32 Forced = 2"
| "full_refresh_reason_i32 FirstFrame = 3"
| "full_refresh_reason_i32 Periodic = 4"
| "full_refresh_reason_i32 LargeDamage = 5"
| "full_refresh_reason_i32 StaticFastDebt = 6"

datatype epaper_profile =
  EpUnspecified | EpAnimate | EpBalanced | EpQuality | EpRealtime | EpReading | EpCustom

fun epaper_profile_i32 :: "epaper_profile \<Rightarrow> int" where
  "epaper_profile_i32 EpUnspecified = 0"
| "epaper_profile_i32 EpAnimate = 1"
| "epaper_profile_i32 EpBalanced = 2"
| "epaper_profile_i32 EpQuality = 3"
| "epaper_profile_i32 EpRealtime = 4"
| "epaper_profile_i32 EpReading = 5"
| "epaper_profile_i32 EpCustom = 6"

definition epaper_profile_of_i32 :: "int \<Rightarrow> epaper_profile option" where
  "epaper_profile_of_i32 v =
     (if v = 0 then Some EpUnspecified else if v = 1 then Some EpAnimate
      else if v = 2 then Some EpBalanced else if v = 3 then Some EpQuality
      else if v = 4 then Some EpRealtime else if v = 5 then Some EpReading
      else if v = 6 then Some EpCustom else None)"

datatype epaper_waveform = EwUnspecified | EwFastest | EwFast | EwQuality

fun epaper_waveform_i32 :: "epaper_waveform \<Rightarrow> int" where
  "epaper_waveform_i32 EwUnspecified = 0"
| "epaper_waveform_i32 EwFastest = 1"
| "epaper_waveform_i32 EwFast = 2"
| "epaper_waveform_i32 EwQuality = 3"

definition epaper_waveform_of_i32 :: "int \<Rightarrow> epaper_waveform option" where
  "epaper_waveform_of_i32 v =
     (if v = 0 then Some EwUnspecified else if v = 1 then Some EwFastest
      else if v = 2 then Some EwFast else if v = 3 then Some EwQuality else None)"

datatype profile_operation = ProfileUnspecified | ProfileQuery | ProfileSet

definition profile_operation_of_i32 :: "int \<Rightarrow> profile_operation option" where
  "profile_operation_of_i32 v =
     (if v = 0 then Some ProfileUnspecified else if v = 1 then Some ProfileQuery
      else if v = 2 then Some ProfileSet else None)"

fun profile_operation_i32 :: "profile_operation \<Rightarrow> int" where
  "profile_operation_i32 ProfileUnspecified = 0"
| "profile_operation_i32 ProfileQuery = 1"
| "profile_operation_i32 ProfileSet = 2"

datatype profile_result_code = ProfileApplied | ProfileUnchanged | ProfileRejected | ProfileUnsupported

fun profile_result_code_i32 :: "profile_result_code \<Rightarrow> int" where
  "profile_result_code_i32 ProfileApplied = 1"
| "profile_result_code_i32 ProfileUnchanged = 2"
| "profile_result_code_i32 ProfileRejected = 3"
| "profile_result_code_i32 ProfileUnsupported = 4"

datatype refresh_operation = RefreshUnspecified | RefreshQuery | RefreshUpdate | RefreshCleanup

definition refresh_operation_of_i32 :: "int \<Rightarrow> refresh_operation option" where
  "refresh_operation_of_i32 v =
     (if v = 0 then Some RefreshUnspecified else if v = 1 then Some RefreshQuery
      else if v = 2 then Some RefreshUpdate else if v = 3 then Some RefreshCleanup else None)"

fun refresh_operation_i32 :: "refresh_operation \<Rightarrow> int" where
  "refresh_operation_i32 RefreshUnspecified = 0"
| "refresh_operation_i32 RefreshQuery = 1"
| "refresh_operation_i32 RefreshUpdate = 2"
| "refresh_operation_i32 RefreshCleanup = 3"

datatype refresh_result_code =
  RefreshApplied | RefreshUnchanged | RefreshRejected | RefreshUnsupported | RefreshFailed

fun refresh_result_code_i32 :: "refresh_result_code \<Rightarrow> int" where
  "refresh_result_code_i32 RefreshApplied = 1"
| "refresh_result_code_i32 RefreshUnchanged = 2"
| "refresh_result_code_i32 RefreshRejected = 3"
| "refresh_result_code_i32 RefreshUnsupported = 4"
| "refresh_result_code_i32 RefreshFailed = 5"

lemma epaper_profile_roundtrip [simp]: "epaper_profile_of_i32 (epaper_profile_i32 p) = Some p"
  by (cases p) (simp_all add: epaper_profile_of_i32_def)

lemma epaper_waveform_roundtrip [simp]: "epaper_waveform_of_i32 (epaper_waveform_i32 w) = Some w"
  by (cases w) (simp_all add: epaper_waveform_of_i32_def)

section \<open>Messages\<close>

record client_hello =
  ch_min_minor :: nat
  ch_max_minor :: nat
  ch_producer_kind :: int
  ch_features :: "int list"
  ch_pixel_formats :: "int list"
  ch_encodings :: "int list"
  ch_client_id :: bytes
  ch_token :: bytes
  ch_client_nonce :: bytes
  ch_name :: string

record display_info =
  di_width :: nat
  di_height :: nat
  di_orientation :: int
  di_pixel_formats :: "int list"
  di_encodings :: "int list"
  di_input_capabilities :: "int list"

record limits =
  li_max_payload :: nat
  li_max_frame_bytes :: nat
  li_max_regions :: nat
  li_max_inflight :: nat
  li_max_fps_x100 :: nat
  li_settled_deadline_ms :: nat
  li_max_inflight_bytes :: nat

record server_hello =
  sh_selected_minor :: nat
  sh_features :: "int list"
  sh_server_id :: bytes
  sh_display :: "display_info option"
  sh_limits :: "limits option"
  sh_name :: string

record surface_open =
  so_surface_id :: nat
  so_desired_width :: nat
  so_desired_height :: nat
  so_pixel_format :: int
  so_orientation :: int
  so_source_kind :: int
  so_input_capabilities :: "int list"
  so_action_capabilities :: "int list"
  so_label :: string

record surface_ready =
  sr_surface_id :: nat
  sr_generation :: u32
  sr_width :: nat
  sr_height :: nat
  sr_pixel_format :: int
  sr_orientation :: int
  sr_source_kind :: int
  sr_input_capabilities :: "int list"
  sr_action_capabilities :: "int list"
  sr_limits :: "limits option"

record frame_metrics =
  fm_decode_us :: nat
  fm_queue_us :: nat
  fm_present_us :: nat
  fm_compose_us :: nat
  fm_convert_us :: nat
  fm_submit_us :: nat
  fm_damage_pixels :: nat
  fm_damage_regions :: nat
  fm_waveform :: nat
  fm_complete_refresh :: bool
  fm_full_refresh_reason :: int

record frame_result =
  fr_surface_id :: nat
  fr_generation :: u32
  fr_frame_id :: nat
  fr_result :: int
  fr_reason :: int
  fr_credits :: nat
  fr_logical_frame_id :: nat
  fr_presented_frame_id :: nat
  fr_metrics :: "frame_metrics option"
  fr_byte_credits :: nat

record input_batch =
  ib_surface_id :: nat
  ib_generation :: u32
  ib_sequence :: u64
  ib_monotonic_us :: nat
  ib_records :: "pointer_record list"
  ib_presented_frame_id :: nat
  ib_ink_frozen :: bool

record overlay_update =
  ou_surface_id :: nat
  ou_generation :: u32
  ou_sequence :: nat
  ou_clear :: bool
  ou_rect :: "rect option"
  ou_luma :: bytes
  ou_alpha :: bytes
  ou_local_ink :: "bool option"

record overlay_result =
  or_surface_id :: nat
  or_generation :: u32
  or_sequence :: nat
  or_applied :: bool
  or_message :: string
  or_presented_frame_id :: nat
  or_ink_frozen :: bool

record profile_configuration =
  pc_latest_text_waveform :: int
  pc_latest_photo_waveform :: int
  pc_latest_video_waveform :: int
  pc_settled_waveform :: int
  pc_partial_refresh_enabled :: bool
  pc_cleanup_after_updates :: nat
  pc_clean_first_frame :: bool
  pc_large_update_threshold_percent :: nat
  pc_static_cleanup_after_fast_updates :: nat
  pc_damage_tile :: nat

record profile_request =
  pq_request_id :: nat
  pq_operation :: int
  pq_requested_profile :: int
  pq_custom :: "profile_configuration option"

record profile_state =
  ps_profile :: int
  ps_cleanup_after_updates :: nat
  ps_large_update_threshold_percent :: nat
  ps_damage_tile :: nat
  ps_clean_first_frame :: bool
  ps_static_cleanup_after_fast_updates :: nat
  ps_effective :: "profile_configuration option"

record profile_result =
  pt_request_id :: nat
  pt_operation :: int
  pt_requested_profile :: int
  pt_result :: int
  pt_active :: "profile_state option"
  pt_cleanup_performed :: bool
  pt_cleanup_pending :: bool
  pt_message :: string

record refresh_request_msg =
  rq_request_id :: nat
  rq_operation :: int
  rq_partial_refresh_enabled :: "bool option"
  rq_cleanup_after_updates :: "nat option"
  rq_large_update_threshold_percent :: "nat option"
  rq_static_cleanup_after_fast_updates :: "nat option"

record refresh_state =
  rs_partial_refresh_enabled :: bool
  rs_cleanup_after_updates :: nat
  rs_large_update_threshold_percent :: nat
  rs_presented_since_full_refresh :: nat
  rs_cleanup_pending :: bool
  rs_static_cleanup_after_fast_updates :: nat
  rs_fast_updates_since_settled :: nat

record refresh_result =
  rt_request_id :: nat
  rt_operation :: int
  rt_result :: int
  rt_active :: "refresh_state option"
  rt_cleanup_performed :: bool
  rt_message :: string

record protocol_error =
  er_code :: nat
  er_fatal :: bool
  er_related_message_id :: u32
  er_message :: string

record goodbye =
  gb_reason :: nat
  gb_message :: string

record key_input =
  ki_surface_id :: nat
  ki_generation :: u32
  ki_sequence :: nat
  ki_monotonic_us :: nat
  ki_phase :: int
  ki_modifiers :: nat
  ki_usage_page :: nat
  ki_usage :: nat

record text_input =
  ti_surface_id :: nat
  ti_generation :: u32
  ti_sequence :: nat
  ti_monotonic_us :: nat
  ti_operation :: int
  ti_text :: string

record action_invoke =
  ai_surface_id :: nat
  ai_generation :: u32
  ai_invocation_id :: nat
  ai_action :: int
  ai_argument :: bytes

datatype action_id = Back | Forward | Reload | Home | Menu | PreviousPage | NextPage

fun action_id_i32 :: "action_id \<Rightarrow> int" where
  "action_id_i32 Back = 1"
| "action_id_i32 Forward = 2"
| "action_id_i32 Reload = 3"
| "action_id_i32 Home = 4"
| "action_id_i32 Menu = 5"
| "action_id_i32 PreviousPage = 6"
| "action_id_i32 NextPage = 7"

datatype action_status = StatusUnspecified | StatusOk | StatusUnsupported | StatusFailed

fun action_status_i32 :: "action_status \<Rightarrow> int" where
  "action_status_i32 StatusUnspecified = 0"
| "action_status_i32 StatusOk = 1"
| "action_status_i32 StatusUnsupported = 2"
| "action_status_i32 StatusFailed = 3"

record action_result =
  ar_surface_id :: nat
  ar_generation :: u32
  ar_invocation_id :: nat
  ar_status :: int
  ar_message :: string

text \<open>\<open>SurfaceClose\<close> carries the surface, its generation and a reason.\<close>

datatype body =
  ClientHello client_hello | ServerHello server_hello | Ping nat | Pong nat | ErrorBody protocol_error
  | Goodbye goodbye | SurfaceOpen surface_open | SurfaceReady surface_ready | SurfaceClose nat u32 nat
  | FrameBody frame | FrameResult frame_result | InputBatch input_batch | KeyInput key_input
  | TextInput text_input | ActionInvoke action_invoke | ActionResult action_result
  | EpaperProfileRequest profile_request | EpaperProfileResult profile_result
  | EpaperRefreshRequest refresh_request_msg | EpaperRefreshResult refresh_result
  | OverlayUpdate overlay_update | OverlayResult overlay_result

record envelope =
  env_session_id :: u64
  env_message_id :: u32
  env_body :: "body option"

section \<open>Errors\<close>

text \<open>\<open>Panicked\<close> is not an error of the source: it stands for a failed \<open>expect\<close>.\<close>

datatype session_error =
  ExpectedClientHello | MissingBody | BadMessageOrder | BadSession | IllegalDirection
  | NoCommonVersion | BadHello string | MissingCapability | Authentication | BadSurface string
  | SessionCore core_error | SessionPanel panel_error | SessionSurface surface_error | Panicked string

fun session_error_code :: "session_error \<Rightarrow> nat" where
  "session_error_code Authentication = 2"
| "session_error_code NoCommonVersion = 3"
| "session_error_code MissingCapability = 3"
| "session_error_code (BadSurface _) = 4"
| "session_error_code _ = 1"

fun surface_error_text :: "surface_error \<Rightarrow> string" where
  "surface_error_text InvalidGeometry = ''surface dimensions are zero or overflow addressable memory''"
| "surface_error_text BadRegion = ''region is empty or outside the surface''"
| "surface_error_text BadLength = ''region pixel length does not match its geometry''"
| "surface_error_text Overlap = ''regions overlap''"
| "surface_error_text BadOverlay = ''overlay plane length does not match the surface''"

fun panel_error_text :: "panel_error \<Rightarrow> string" where
  "panel_error_text (PanelUnsupported m) = ''panel geometry or pixel format is unsupported: '' @ m"
| "panel_error_text (PanelSubmit m) = ''panel submission failed: '' @ m"
| "panel_error_text (PanelPump m) = ''panel event pump failed: '' @ m"

fun refresh_config_error_text :: "refresh_config_error \<Rightarrow> string" where
  "refresh_config_error_text ZeroDamageTile = ''damage tile must be nonzero''"
| "refresh_config_error_text InvalidAreaThreshold =
     ''large-update threshold must be between 0 and 100 percent''"
| "refresh_config_error_text ConfiguredFullQuality =
     ''FULL_QUALITY is reserved for receiver-selected complete refreshes''"
| "refresh_config_error_text DebtWithoutPresentation =
     ''partial-update debt requires a previously presented panel state''"

fun core_error_text :: "core_error \<Rightarrow> string" where
  "core_error_text (CoreSurface e) = surface_error_text e"
| "core_error_text (CoreRefreshConfig e) = refresh_config_error_text e"
| "core_error_text SettledBarrier = ''a SETTLED presentation barrier is active''"
| "core_error_text CoreBadFrameId = ''frame id must be nonzero and newer than the logical frame''"
| "core_error_text NeedKeyframe = ''delta base is invalid; a keyframe is required''"
| "core_error_text CorePixelFormat = ''frame pixel format does not match the surface''"
| "core_error_text (CorePanel e) = panel_error_text e"

fun session_error_text :: "session_error \<Rightarrow> string" where
  "session_error_text ExpectedClientHello = ''ClientHello must be the first message''"
| "session_error_text MissingBody = ''envelope body is missing''"
| "session_error_text BadMessageOrder = ''message_id is not strictly increasing from one''"
| "session_error_text BadSession = ''session_id is invalid''"
| "session_error_text IllegalDirection = ''message direction is illegal''"
| "session_error_text NoCommonVersion = ''no common protocol minor version''"
| "session_error_text (BadHello m) = ''ClientHello is invalid: '' @ m"
| "session_error_text MissingCapability = ''mandatory protocol capability is absent''"
| "session_error_text Authentication = ''client authentication failed''"
| "session_error_text (BadSurface m) = ''SurfaceOpen is invalid: '' @ m"
| "session_error_text (SessionCore e) = core_error_text e"
| "session_error_text (SessionPanel e) = panel_error_text e"
| "session_error_text (SessionSurface e) = surface_error_text e"
| "session_error_text (Panicked m) = m"

section \<open>Small conversions\<close>

fun semantic_result :: "semantic_error \<Rightarrow> frame_result_code \<times> frame_result_reason" where
  "semantic_result (BadBase _ _) = (CodeNeedKeyframe, WhyBadBase)"
| "semantic_result WrongSurface = (CodeRejected, WhyWrongSurface)"
| "semantic_result BadDecodedLength = (CodeRejected, WhyBadLength)"
| "semantic_result BadCrc = (CodeRejected, WhyBadCrc)"
| "semantic_result Unsupported = (CodeRejected, WhyUnsupported)"
| "semantic_result FrameTooLarge = (CodeRejected, WhyBadLength)"
| "semantic_result BadFrameId = (CodeRejected, WhyProtocolState)"
| "semantic_result BadIntent = (CodeRejected, WhyProtocolState)"
| "semantic_result BadRegionCount = (CodeRejected, WhyBadRegion)"
| "semantic_result SemBadRegion = (CodeRejected, WhyBadRegion)"
| "semantic_result RegionOverlap = (CodeRejected, WhyBadRegion)"
| "semantic_result BadKeyframe = (CodeRejected, WhyBadRegion)"
| "semantic_result Decompression = (CodeRejected, WhyBadRegion)"

definition fixed_16_16 :: "nat \<Rightarrow> nat" where
  "fixed_16_16 value = sat_mul_u32 value (2 ^ 16)"

fun record_phase_of :: "pointer_phase \<Rightarrow> record_phase" where
  "record_phase_of Down = PhaseDown"
| "record_phase_of Move = PhaseMove"
| "record_phase_of Up = PhaseUp"
| "record_phase_of Cancel = PhaseCancel"

definition pointer_record_of :: "pointer_event \<Rightarrow> pointer_record" where
  "pointer_record_of e =
     \<lparr>pr_device = DeviceTouch, pr_phase = record_phase_of (pe_phase e), pr_flags = 0,
      pr_contact = pe_contact e, pr_x = fixed_16_16 (pe_x e), pr_y = fixed_16_16 (pe_y e),
      pr_pressure = 0, pr_buttons = 0, pr_tilt_x = 0, pr_tilt_y = 0\<rparr>"

fun pointer_device_i32 :: "pointer_device \<Rightarrow> int" where
  "pointer_device_i32 DeviceTouch = 1"
| "pointer_device_i32 DevicePen = 2"
| "pointer_device_i32 DeviceMouse = 3"

fun record_phase_i32 :: "record_phase \<Rightarrow> int" where
  "record_phase_i32 PhaseDown = 1"
| "record_phase_i32 PhaseMove = 2"
| "record_phase_i32 PhaseUp = 3"
| "record_phase_i32 PhaseCancel = 4"
| "record_phase_i32 PhaseHover = 5"

text \<open>\<open>FrameMetrics::default()\<close> is all zero, the unspecified reason included.\<close>

definition frame_metrics_of :: "presentation_metrics option \<Rightarrow> frame_metrics" where
  "frame_metrics_of metrics =
     (case metrics of
        None \<Rightarrow>
          \<lparr>fm_decode_us = 0, fm_queue_us = 0, fm_present_us = 0, fm_compose_us = 0, fm_convert_us = 0,
           fm_submit_us = 0, fm_damage_pixels = 0, fm_damage_regions = 0, fm_waveform = 0,
           fm_complete_refresh = False, fm_full_refresh_reason = 0\<rparr>
      | Some m \<Rightarrow>
          \<lparr>fm_decode_us = met_decode_us m, fm_queue_us = met_queue_us m, fm_present_us = met_present_us m,
           fm_compose_us = met_compose_us m, fm_convert_us = met_convert_us m,
           fm_submit_us = met_submit_us m, fm_damage_pixels = met_damage_pixels m,
           fm_damage_regions = met_damage_regions m, fm_waveform = met_waveform m,
           fm_complete_refresh = met_complete_refresh m,
           fm_full_refresh_reason = full_refresh_reason_i32 (met_full_refresh_reason m)\<rparr>)"

end
