(* ===== verification/Receiver_Config.thy ===== *)
theory Receiver_Config
  imports Messages
begin

text \<open>
  The configuration of the receiver, \<open>crates/rm-display-receiver/src/config.rs\<close>, and the
  conversions between the refresh policy and the profile messages at the end of \<open>session.rs\<close>:
  profiles, waveforms, the state reported to the producer, and \<open>custom_profile_config\<close>, which
  checks the policy that a producer asks for. The network address and the transport security are
  not part of the record: the session does not read them.
\<close>

unbundle bit_operations_syntax

section \<open>Configuration\<close>

record receiver_limits =
  rl_max_payload :: nat
  rl_max_frame_bytes :: nat
  rl_max_regions :: nat
  rl_max_inflight :: nat
  rl_max_inflight_bytes :: nat
  rl_max_fps_x100 :: nat
  rl_settled_deadline_ms :: nat

definition default_limits :: receiver_limits where
  "default_limits = \<lparr>rl_max_payload = 8 * 1024 * 1024, rl_max_frame_bytes = 8 * 1024 * 1024,
     rl_max_regions = 512, rl_max_inflight = 2, rl_max_inflight_bytes = 16 * 1024 * 1024,
     rl_max_fps_x100 = 400, rl_settled_deadline_ms = 300\<rparr>"

record receiver_config =
  rc_verify_token :: "bytes \<Rightarrow> bytes \<Rightarrow> bool"
  rc_server_id :: bytes
  rc_name :: string
  rc_limits :: receiver_limits
  rc_refresh_policy :: refresh_config
  rc_ink_waveform :: waveform
  rc_input_device :: "string option"

text \<open>The verifier \<open>ReservedZeroToken\<close>: the fold is the bitwise or of all bytes.\<close>

definition reserved_zero_token :: "bytes \<Rightarrow> bytes \<Rightarrow> bool" where
  "reserved_zero_token client_id token \<longleftrightarrow>
     length token = 32 \<and> fold (\<lambda>byte value. or value byte) token 0 = 0"

datatype config_error =
  ZeroServerId | InvalidLimits | InvalidRefreshPolicy refresh_config_error | InvalidInkWaveform

definition receiver_config_validate :: "receiver_config \<Rightarrow> (config_error, unit) result" where
  "receiver_config_validate c =
     (if rc_server_id c = replicate 16 0 then Inl ZeroServerId
      else if rl_max_inflight (rc_limits c) = 0 \<or> rl_max_inflight_bytes (rc_limits c) = 0 \<or>
        rl_max_payload (rc_limits c) = 0 \<or> rl_max_frame_bytes (rc_limits c) = 0 \<or>
        rl_max_regions (rc_limits c) = 0
      then Inl InvalidLimits
      else and_then (map_err InvalidRefreshPolicy (config_validate (rc_refresh_policy c))) (\<lambda>_.
        if rc_ink_waveform c = FullQuality then Inl InvalidInkWaveform else Inr ()))"

lemma or_fold_zero: "fold (\<lambda>byte value. or value byte) token acc = 0 \<longleftrightarrow>
    acc = 0 \<and> (\<forall>b\<in>set token. b = (0 :: u8))"
  by (induction token arbitrary: acc) (auto simp: or_eq_0_iff)

lemma reserved_zero_token_iff: "reserved_zero_token client_id token \<longleftrightarrow> token = replicate 32 0"
  by (auto simp: reserved_zero_token_def or_fold_zero replicate_eqI intro!: replicate_eqI)

section \<open>Profiles and waveforms\<close>

definition protocol_profile :: "int \<Rightarrow> refresh_profile option" where
  "protocol_profile value =
     (case epaper_profile_of_i32 value of
        None \<Rightarrow> None
      | Some EpRealtime \<Rightarrow> Some Realtime
      | Some EpAnimate \<Rightarrow> Some Animate
      | Some EpBalanced \<Rightarrow> Some Balanced
      | Some EpReading \<Rightarrow> Some Reading
      | Some EpQuality \<Rightarrow> Some QualityProfile
      | Some EpUnspecified \<Rightarrow> None
      | Some EpCustom \<Rightarrow> None)"

fun epaper_profile_of :: "refresh_profile \<Rightarrow> epaper_profile" where
  "epaper_profile_of Realtime = EpRealtime"
| "epaper_profile_of Animate = EpAnimate"
| "epaper_profile_of Balanced = EpBalanced"
| "epaper_profile_of Reading = EpReading"
| "epaper_profile_of QualityProfile = EpQuality"
| "epaper_profile_of Custom = EpCustom"

fun protocol_waveform :: "waveform \<Rightarrow> epaper_waveform" where
  "protocol_waveform Fastest = EwFastest"
| "protocol_waveform Fast = EwFast"
| "protocol_waveform QualityWf = EwQuality"
| "protocol_waveform FullQuality = EwQuality"

definition profile_configuration_of :: "refresh_config \<Rightarrow> profile_configuration" where
  "profile_configuration_of c =
     \<lparr>pc_latest_text_waveform = epaper_waveform_i32 (protocol_waveform (latest_text_waveform c)),
      pc_latest_photo_waveform = epaper_waveform_i32 (protocol_waveform (latest_photo_waveform c)),
      pc_latest_video_waveform = epaper_waveform_i32 (protocol_waveform (latest_video_waveform c)),
      pc_settled_waveform = epaper_waveform_i32 (protocol_waveform (settled_waveform c)),
      pc_partial_refresh_enabled = partial_refresh_enabled c,
      pc_cleanup_after_updates = cleanup_after_updates c,
      pc_clean_first_frame = clean_first_frame c,
      pc_large_update_threshold_percent = large_update_threshold_percent c,
      pc_static_cleanup_after_fast_updates = static_cleanup_after_fast_updates c,
      pc_damage_tile = cfg_damage_tile c\<rparr>"

definition profile_state_of :: "refresh_config \<Rightarrow> profile_state" where
  "profile_state_of c =
     \<lparr>ps_profile = epaper_profile_i32 (epaper_profile_of (cfg_profile c)),
      ps_cleanup_after_updates = cleanup_after_updates c,
      ps_large_update_threshold_percent = large_update_threshold_percent c,
      ps_damage_tile = cfg_damage_tile c, ps_clean_first_frame = clean_first_frame c,
      ps_static_cleanup_after_fast_updates = static_cleanup_after_fast_updates c,
      ps_effective = Some (profile_configuration_of c)\<rparr>"

definition custom_waveform :: "int \<Rightarrow> (string, waveform) result" where
  "custom_waveform value =
     (case epaper_waveform_of_i32 value of
        Some EwFastest \<Rightarrow> Inr Fastest
      | Some EwFast \<Rightarrow> Inr Fast
      | Some EwQuality \<Rightarrow> Inr QualityWf
      | _ \<Rightarrow> Inl ''all CUSTOM waveforms must be FASTEST, FAST, or QUALITY'')"

text \<open>\<open>u32::is_power_of_two\<close>: exactly one bit is set.\<close>

definition is_power_of_two :: "nat \<Rightarrow> bool" where
  "is_power_of_two n \<longleftrightarrow> n \<noteq> 0 \<and> n AND (n - 1) = 0"

definition custom_profile_config :: "profile_configuration \<Rightarrow> (string, refresh_config) result" where
  "custom_profile_config custom =
     (if pc_damage_tile custom < 8 \<or> pc_damage_tile custom > 512 \<or>
         \<not> is_power_of_two (pc_damage_tile custom)
      then Inl ''CUSTOM damage_tile must be a power of two between 8 and 512''
      else if pc_large_update_threshold_percent custom > u8_max \<or>
        pc_large_update_threshold_percent custom > 100
      then Inl ''CUSTOM large_update_threshold_percent must be between 0 and 100''
      else
        and_then (custom_waveform (pc_latest_text_waveform custom)) (\<lambda>text_wf.
        and_then (custom_waveform (pc_latest_photo_waveform custom)) (\<lambda>photo_wf.
        and_then (custom_waveform (pc_latest_video_waveform custom)) (\<lambda>video_wf.
        and_then (custom_waveform (pc_settled_waveform custom)) (\<lambda>settled_wf.
          let config = \<lparr>cfg_profile = Custom, latest_text_waveform = text_wf,
                latest_photo_waveform = photo_wf, latest_video_waveform = video_wf,
                settled_waveform = settled_wf,
                partial_refresh_enabled = pc_partial_refresh_enabled custom,
                cleanup_after_updates = pc_cleanup_after_updates custom,
                clean_first_frame = pc_clean_first_frame custom,
                large_update_threshold_percent = pc_large_update_threshold_percent custom,
                static_cleanup_after_fast_updates = pc_static_cleanup_after_fast_updates custom,
                cfg_damage_tile = pc_damage_tile custom\<rparr>
          in and_then (map_err (\<lambda>_. ''CUSTOM refresh configuration is invalid'') (config_validate config))
               (\<lambda>_. Inr config))))))"

section \<open>Accepted custom profiles\<close>

lemma map_err_Inr_iff [simp]: "map_err f r = Inr a \<longleftrightarrow> r = Inr a"
  by (cases r) (simp_all add: map_err_def)

lemma power_of_two_iff: "is_power_of_two n \<longleftrightarrow> (\<exists>k. n = 2 ^ k)"
proof (induction n rule: less_induct)
  case (less n)
  show ?case
  proof (cases "even n")
    case False
    then obtain m where n: "n = Suc (2 * m)" by (auto elim: oddE)
    have "n AND (n - 1) = 2 * m" using and_rec [of n "n - 1"] by (simp add: n)
    then have "is_power_of_two n \<longleftrightarrow> n = 1" by (simp add: is_power_of_two_def n)
    also have "\<dots> \<longleftrightarrow> (\<exists>k. n = 2 ^ k)"
    proof
      assume "\<exists>k. n = 2 ^ k"
      then obtain k where "n = 2 ^ k" ..
      with False show "n = 1" by (cases k) simp_all
    qed (metis power_0)
    finally show ?thesis .
  next
    case True
    then obtain m where n: "n = 2 * m" by (auto elim: evenE)
    show ?thesis
    proof (cases "m = 0")
      case True
      then show ?thesis by (simp add: n is_power_of_two_def)
    next
      case False
      have "(n - 1) div 2 = m - 1" using False by (simp add: n)
      then have "n AND (n - 1) = 2 * (m AND (m - 1))" using and_rec [of n "n - 1"] by (simp add: n)
      then have "is_power_of_two n \<longleftrightarrow> is_power_of_two m" using False by (simp add: is_power_of_two_def n)
      also have "\<dots> \<longleftrightarrow> (\<exists>k. m = 2 ^ k)" using less.IH [of m] False by (simp add: n)
      also have "\<dots> \<longleftrightarrow> (\<exists>k. n = 2 ^ k)"
      proof
        assume "\<exists>k. n = 2 ^ k"
        then obtain k where "n = 2 ^ k" ..
        moreover have "k \<noteq> 0" using \<open>n = 2 ^ k\<close> \<open>even n\<close> by (cases k) auto
        ultimately show "\<exists>k. m = 2 ^ k" by (cases k) (auto simp: n)
      qed (metis n power_Suc)
      finally show ?thesis .
    qed
  qed
qed

lemma custom_waveform_Inr:
  "custom_waveform v = Inr w \<longleftrightarrow> w \<noteq> FullQuality \<and> v = epaper_waveform_i32 (protocol_waveform w)"
  by (cases w) (auto simp: custom_waveform_def epaper_waveform_of_i32_def)

text \<open>
  A producer's custom profile is accepted exactly when it is the report of a valid
  receiver policy of profile CUSTOM whose damage tile is a power of two from 8 to 512, and then
  that policy is what becomes active. So no accepted profile asks for a waveform reserved to the
  receiver, and reading the reported policy back loses nothing.
\<close>

theorem custom_profile_exact:
  "custom_profile_config custom = Inr c \<longleftrightarrow>
     cfg_profile c = Custom \<and> config_ok c \<and> custom = profile_configuration_of c \<and>
     8 \<le> cfg_damage_tile c \<and> cfg_damage_tile c \<le> 512 \<and> (\<exists>k. cfg_damage_tile c = 2 ^ k)"
proof
  assume "custom_profile_config custom = Inr c"
  then show "cfg_profile c = Custom \<and> config_ok c \<and> custom = profile_configuration_of c \<and>
     8 \<le> cfg_damage_tile c \<and> cfg_damage_tile c \<le> 512 \<and> (\<exists>k. cfg_damage_tile c = 2 ^ k)"
    by (auto simp: custom_profile_config_def and_then_Inr_iff custom_waveform_Inr Let_def
        profile_configuration_of_def power_of_two_iff [symmetric] split: if_splits sum.splits)
next
  assume "cfg_profile c = Custom \<and> config_ok c \<and> custom = profile_configuration_of c \<and>
     8 \<le> cfg_damage_tile c \<and> cfg_damage_tile c \<le> 512 \<and> (\<exists>k. cfg_damage_tile c = 2 ^ k)"
  then have c: "cfg_profile c = Custom" "config_ok c" "custom = profile_configuration_of c"
    "8 \<le> cfg_damage_tile c" "cfg_damage_tile c \<le> 512" "is_power_of_two (cfg_damage_tile c)"
    by (auto simp: power_of_two_iff)
  have w: "custom_waveform (epaper_waveform_i32 (protocol_waveform w)) = Inr w" if "w \<noteq> FullQuality" for w
    using that by (simp add: custom_waveform_Inr)
  have v: "map_err f (config_validate c) = Inr ()" for f using c(2) by simp
  have self: "\<lparr>cfg_profile = Custom, latest_text_waveform = latest_text_waveform c,
     latest_photo_waveform = latest_photo_waveform c, latest_video_waveform = latest_video_waveform c,
     settled_waveform = settled_waveform c, partial_refresh_enabled = partial_refresh_enabled c,
     cleanup_after_updates = cleanup_after_updates c, clean_first_frame = clean_first_frame c,
     large_update_threshold_percent = large_update_threshold_percent c,
     static_cleanup_after_fast_updates = static_cleanup_after_fast_updates c,
     cfg_damage_tile = cfg_damage_tile c\<rparr> = c"
    using c(1) by simp
  show "custom_profile_config custom = Inr c"
    using c(2,4-6) [unfolded config_ok_iff] w
    by (simp add: custom_profile_config_def c(3) profile_configuration_of_def u8_max_def self v)
qed

text \<open>
  The profile of a preset survives the trip to the producer and back: the producer can
  always set the preset it was told is active, and only CUSTOM cannot be set without its
  configuration.
\<close>

lemma profile_report_roundtrip:
  "protocol_profile (ps_profile (profile_state_of c)) =
     (if cfg_profile c = Custom then None else Some (cfg_profile c))"
  by (cases "cfg_profile c") (simp_all add: profile_state_of_def protocol_profile_def epaper_profile_of_i32_def)

end
