(* ===== verification/Local_Menu.thy ===== *)
theory Local_Menu
  imports Overlay Refresh Touch_Gesture
begin

text \<open>
  The receiver's own menu, \<open>crates/rm-display-receiver/src/local_menu.rs\<close>: which touch
  hits which action, and how the menu is drawn into the overlay plane of the display core or of
  the fallback image. The lemmas show that the touch targets are the drawn buttons and rows, and
  that the drawn menu is opaque exactly on its band at the top of the panel. A \<open>render\<close> whose
  \<open>expect\<close> would panic returns \<open>None\<close>.
\<close>

unbundle bit_operations_syntax

section \<open>Data\<close>

datatype menu_action =
  SetProfile refresh_profile | TogglePartialRefresh | FullRefresh | NewPair | CloseApp | CloseMenu

record local_menu =
  menu_visible :: bool
  menu_custom_available :: bool

definition menu_default :: local_menu where
  "menu_default = \<lparr>menu_visible = False, menu_custom_available = False\<rparr>"

definition menu_toggle :: "local_menu \<Rightarrow> local_menu" where
  "menu_toggle m = m\<lparr>menu_visible := \<not> menu_visible m\<rparr>"

definition menu_close :: "local_menu \<Rightarrow> local_menu" where
  "menu_close m = m\<lparr>menu_visible := False\<rparr>"

section \<open>Layout\<close>

definition menu_height :: "nat \<Rightarrow> nat" where
  "menu_height height = (if height < 240 then 240 else if height > 560 then 560 else height)"

definition damage_height :: "nat \<Rightarrow> nat" where
  "damage_height panel_height = menu_height panel_height"

definition menu_profiles :: "refresh_profile list" where
  "menu_profiles = [Realtime, Animate, Balanced, Reading, QualityProfile, Custom]"

definition profile_buttons_bottom :: "nat \<Rightarrow> nat" where
  "profile_buttons_bottom height = min 154 (height div 2)"

text \<open>
  In the horizontal layout only the product can leave 32 bits: the quotient by the number of
  buttons, the margin and the gaps add up to less than \<open>2 ^ 32\<close>.
\<close>

definition profile_button_bounds ::
  "nat \<Rightarrow> nat \<Rightarrow> bool \<Rightarrow> ((nat \<times> nat \<times> nat \<times> nat) \<times> refresh_profile) list" where
  "profile_button_bounds width height custom_available =
     (let profiles = (if custom_available then menu_profiles else take 5 menu_profiles);
          count = length profiles;
          left = min 16 (width div 8);
          gap = min 8 (width div 20);
          available = (width - sat_mul_u32 left 2) - sat_mul_u32 gap (count - 1);
          top = min 68 (height div 4);
          bottom = profile_buttons_bottom height
      in map (\<lambda>(index, profile).
           let x = left + wrap_u32 (available * index) div count + gap * index;
               next_x = left + wrap_u32 (available * (index + 1)) div count + gap * index
           in ((x, top, next_x - x, bottom - top), profile)) (enumerate 0 profiles))"

definition control_row_bounds :: "nat \<Rightarrow> (nat \<times> nat) list" where
  "control_row_bounds height =
     (let top = min (sat_add_u32 (profile_buttons_bottom height) 8) height;
          available = height - top
      in map (\<lambda>index. (top + wrap_u32 (available * index) div 5,
                        top + wrap_u32 (available * (index + 1)) div 5)) [0..<5])"

section \<open>Touch\<close>

definition menu_actions :: "menu_action list" where
  "menu_actions = [TogglePartialRefresh, FullRefresh, NewPair, CloseApp, CloseMenu]"

definition hit_test :: "nat \<Rightarrow> nat \<Rightarrow> nat \<Rightarrow> nat \<Rightarrow> bool \<Rightarrow> menu_action" where
  "hit_test x y width height custom_available =
     (if x \<ge> width \<or> y \<ge> menu_height height then CloseMenu
      else case find (\<lambda>((left, top, button_width, button_height), profile).
            x \<ge> left \<and> x < sat_add_u32 left button_width \<and>
            y \<ge> top \<and> y < sat_add_u32 top button_height)
          (profile_button_bounds width (menu_height height) custom_available) of
        Some (_, profile) \<Rightarrow> SetProfile profile
      | None \<Rightarrow>
          (case find (\<lambda>((top, bottom), action). y \<ge> top \<and> y < bottom)
              (zip (control_row_bounds (menu_height height)) menu_actions) of
             None \<Rightarrow> CloseMenu
           | Some (_, action) \<Rightarrow> action))"

definition action_for_report ::
  "local_menu \<Rightarrow> pointer_event list \<Rightarrow> nat \<Rightarrow> nat \<Rightarrow> menu_action option" where
  "action_for_report m report width height =
     (if \<not> menu_visible m then None
      else map_option (\<lambda>e. hit_test (pe_x e) (pe_y e) width height (menu_custom_available m))
        (find (\<lambda>e. pe_phase e = Up) (rev report)))"

section \<open>Drawing\<close>

record canvas =
  cv_luma :: bytes
  cv_alpha :: bytes
  cv_stride :: nat

text \<open>The loop over the rows stops at the last row of the canvas.\<close>

definition fill_row :: "nat \<Rightarrow> nat \<Rightarrow> nat \<Rightarrow> u8 \<Rightarrow> nat \<Rightarrow> bytes \<Rightarrow> bytes" where
  "fill_row stride x width value row buffer =
     copy_into buffer (row * stride + x) (replicate width value)"

definition fill_rect :: "nat \<Rightarrow> nat \<Rightarrow> nat \<Rightarrow> nat \<Rightarrow> u8 \<Rightarrow> canvas \<Rightarrow> canvas" where
  "fill_rect x y width height value c =
     (if x \<ge> cv_stride c \<or> cv_stride c = 0 then c
      else
        let width' = min width (cv_stride c - x);
            rows = length (cv_luma c) div cv_stride c;
            touched = [y..<min (sat_add_u32 y height) rows]
        in c\<lparr>cv_luma := fold (fill_row (cv_stride c) x width' value) touched (cv_luma c),
             cv_alpha := fold (fill_row (cv_stride c) x width' 255) touched (cv_alpha c)\<rparr>)"

definition glyph :: "char \<Rightarrow> u8 list" where
  "glyph ch =
     (if ch = CHR ''A'' then [14, 17, 17, 31, 17, 17, 17]
      else if ch = CHR ''B'' then [30, 17, 17, 30, 17, 17, 30]
      else if ch = CHR ''C'' then [14, 17, 16, 16, 16, 17, 14]
      else if ch = CHR ''D'' then [30, 17, 17, 17, 17, 17, 30]
      else if ch = CHR ''E'' then [31, 16, 16, 30, 16, 16, 31]
      else if ch = CHR ''F'' then [31, 16, 16, 30, 16, 16, 16]
      else if ch = CHR ''G'' then [14, 17, 16, 23, 17, 17, 14]
      else if ch = CHR ''H'' then [17, 17, 17, 31, 17, 17, 17]
      else if ch = CHR ''I'' then [31, 4, 4, 4, 4, 4, 31]
      else if ch = CHR ''L'' then [16, 16, 16, 16, 16, 16, 31]
      else if ch = CHR ''M'' then [17, 27, 21, 21, 17, 17, 17]
      else if ch = CHR ''N'' then [17, 25, 21, 19, 17, 17, 17]
      else if ch = CHR ''O'' then [14, 17, 17, 17, 17, 17, 14]
      else if ch = CHR ''P'' then [30, 17, 17, 30, 16, 16, 16]
      else if ch = CHR ''Q'' then [14, 17, 17, 17, 21, 18, 13]
      else if ch = CHR ''R'' then [30, 17, 17, 30, 20, 18, 17]
      else if ch = CHR ''S'' then [15, 16, 16, 14, 1, 1, 30]
      else if ch = CHR ''T'' then [31, 4, 4, 4, 4, 4, 4]
      else if ch = CHR ''U'' then [17, 17, 17, 17, 17, 17, 14]
      else if ch = CHR ''V'' then [17, 17, 17, 17, 17, 10, 4]
      else if ch = CHR ''W'' then [17, 17, 17, 21, 21, 21, 10]
      else if ch = CHR ''X'' then [17, 17, 10, 4, 10, 17, 17]
      else if ch = CHR ''Y'' then [17, 17, 10, 4, 4, 4, 4]
      else if ch = CHR '' '' then replicate 7 0
      else [31, 1, 2, 4, 4, 0, 4])"

definition draw_glyph :: "nat \<Rightarrow> nat \<Rightarrow> nat \<Rightarrow> u8 \<Rightarrow> char \<Rightarrow> canvas \<Rightarrow> canvas" where
  "draw_glyph cursor y scale value ch =
     fold (\<lambda>(row, bits). fold (\<lambda>column c.
         if bit bits (4 - column)
         then fill_rect (wrap_u32 (cursor + column * scale)) (wrap_u32 (y + row * scale)) scale scale value c
         else c) [0..<5]) (enumerate 0 (glyph ch))"

fun draw_text :: "nat \<Rightarrow> nat \<Rightarrow> string \<Rightarrow> nat \<Rightarrow> u8 \<Rightarrow> canvas \<Rightarrow> canvas" where
  "draw_text cursor y [] scale value c = c"
| "draw_text cursor y (ch # chs) scale value c =
     draw_text (sat_add_u32 cursor (6 * scale)) y chs scale value (draw_glyph cursor y scale value ch c)"

definition draw_text_centered ::
  "nat \<Rightarrow> nat \<Rightarrow> nat \<Rightarrow> nat \<Rightarrow> string \<Rightarrow> nat \<Rightarrow> u8 \<Rightarrow> canvas \<Rightarrow> canvas" where
  "draw_text_centered x y width height txt scale value =
     (let text_width = length txt * 6 * scale; text_height = 7 * scale
      in draw_text (sat_add_u32 x ((width - text_width) div 2))
           (sat_add_u32 y ((height - text_height) div 2)) txt scale value)"

fun profile_name :: "refresh_profile \<Rightarrow> string" where
  "profile_name Realtime = ''REALTIME''"
| "profile_name Animate = ''ANIMATE''"
| "profile_name Balanced = ''BALANCED''"
| "profile_name Reading = ''READING''"
| "profile_name QualityProfile = ''QUALITY''"
| "profile_name Custom = ''CUSTOM''"

definition draw_profile_button ::
  "refresh_profile \<Rightarrow> nat \<Rightarrow> (nat \<times> nat \<times> nat \<times> nat) \<times> refresh_profile \<Rightarrow> canvas \<Rightarrow> canvas" where
  "draw_profile_button profile scale = (\<lambda>((x, y, button_width, button_height), candidate) c.
     let active = (profile = candidate);
         background = (if active then 0 else 235);
         foreground = (if active then 255 else 0)
     in draw_text_centered x y button_width button_height (profile_name candidate) scale foreground
          (fill_rect x y button_width button_height background c))"

definition draw_control_row :: "nat \<Rightarrow> (nat \<times> nat) \<times> string \<Rightarrow> canvas \<Rightarrow> canvas" where
  "draw_control_row width = (\<lambda>((top, bottom), label) c.
     draw_text 32 (top + ((bottom - top) - 14) div 2) label 2 0
       (fill_rect 16 (top + 5) (width - 32) (bottom - (top + 10)) 235 c))"

definition menu_profile_scale :: "((nat \<times> nat \<times> nat \<times> nat) \<times> refresh_profile) list \<Rightarrow> nat" where
  "menu_profile_scale profile_buttons =
     (case profile_buttons of
        ((x, y, button_width, button_height), p) # _ \<Rightarrow> if button_width \<ge> 100 then 2 else 1
      | [] \<Rightarrow> 1)"

definition draw_titles :: "nat \<Rightarrow> refresh_profile \<Rightarrow> canvas \<Rightarrow> canvas" where
  "draw_titles width profile c =
     draw_text (width - 310) 18 (''ACTIVE '' @ profile_name profile) 2 0
       (draw_text 24 18 ''RM DISPLAY'' 3 0 c)"

definition menu_labels :: "bool \<Rightarrow> string list" where
  "menu_labels partial_refresh =
     [if partial_refresh then ''PARTIAL ON'' else ''PARTIAL OFF'', ''FULL REFRESH'', ''NEW PAIR'',
      ''CLOSE APP'', ''CLOSE MENU'']"

definition menu_canvas :: "nat \<Rightarrow> nat \<Rightarrow> refresh_profile \<Rightarrow> bool \<Rightarrow> bool \<Rightarrow> canvas" where
  "menu_canvas width height profile partial_refresh custom_available =
     (let band = menu_height height;
          len = width * height;
          c1 = fill_rect 0 0 width band 255
            \<lparr>cv_luma = replicate len 0, cv_alpha = replicate len 0, cv_stride = width\<rparr>;
          c2 = fill_rect 0 0 width 5 0 c1;
          profile_buttons = profile_button_bounds width band custom_available;
          c3 = fold (draw_profile_button profile (menu_profile_scale profile_buttons)) profile_buttons c2;
          c4 = draw_titles width profile c3
      in fold (draw_control_row width)
           (zip (control_row_bounds band) (menu_labels partial_refresh)) c4)"

definition menu_render ::
  "nat \<Rightarrow> nat \<Rightarrow> refresh_profile \<Rightarrow> bool \<Rightarrow> bool \<Rightarrow> local_overlay \<Rightarrow> local_menu \<Rightarrow>
   (local_overlay \<times> local_menu) option" where
  "menu_render width height profile partial_refresh custom_available overlay m =
     (let m' = m\<lparr>menu_custom_available := custom_available\<rparr> in
      if \<not> menu_visible m then Some (overlay_clear overlay, m')
      else
        let c = menu_canvas width height profile partial_refresh custom_available
        in case replace_planes overlay (cv_luma c) (cv_alpha c) of
             (Inl _, _) \<Rightarrow> None
           | (Inr _, overlay') \<Rightarrow> Some (overlay', m'))"

section \<open>Targets\<close>

definition menu_targets :: "nat \<Rightarrow> nat \<Rightarrow> bool \<Rightarrow> (rect \<times> menu_action) list" where
  "menu_targets width height custom_available =
     map (\<lambda>((x, y, w, h), p). (mk_rect x y w h, SetProfile p))
       (profile_button_bounds width (menu_height height) custom_available) @
     map (\<lambda>((top, bottom), a). (mk_rect 0 top width (bottom - top), a))
       (zip (control_row_bounds (menu_height height)) menu_actions)"

lemma menu_height_bounds: "240 \<le> menu_height h" "menu_height h \<le> 560"
  by (simp_all add: menu_height_def)

lemma profiles_simps: "length menu_profiles = 6"
  "take 5 menu_profiles = [Realtime, Animate, Balanced, Reading, QualityProfile]"
  by (simp_all add: menu_profiles_def)

text \<open>The horizontal layout of \<open>n\<close> buttons in \<open>a\<close> pixels with margin \<open>l\<close> and gap \<open>g\<close>.\<close>

definition slot_left :: "nat \<Rightarrow> nat \<Rightarrow> nat \<Rightarrow> nat \<Rightarrow> nat \<Rightarrow> nat" where
  "slot_left l g a n i = l + a * i div n + g * i"

definition slot_right :: "nat \<Rightarrow> nat \<Rightarrow> nat \<Rightarrow> nat \<Rightarrow> nat \<Rightarrow> nat" where
  "slot_right l g a n i = l + a * (i + 1) div n + g * i"

lemma slot_width: "slot_left l g a n i \<le> slot_right l g a n i"
  unfolding slot_left_def slot_right_def by (intro add_mono div_le_mono mult_le_mono2) simp_all

lemma slot_order: "i < j \<Longrightarrow> slot_right l g a n i \<le> slot_left l g a n j"
  unfolding slot_left_def slot_right_def by (intro add_mono div_le_mono mult_le_mono2) simp_all

lemma slot_end:
  assumes "i < n"
  shows "slot_right l g a n i \<le> l + a + g * (n - 1)"
proof -
  have "a * (i + 1) div n \<le> a * n div n" using assms by (intro div_le_mono mult_le_mono2) simp
  then have 1: "a * (i + 1) div n \<le> a" using assms by simp
  have 2: "g * i \<le> g * (n - 1)" using assms by (intro mult_le_mono2) simp
  show ?thesis unfolding slot_right_def using 1 2 by linarith
qed

definition button_profiles :: "bool \<Rightarrow> refresh_profile list" where
  "button_profiles custom_available = (if custom_available then menu_profiles else take 5 menu_profiles)"

definition button_margin :: "nat \<Rightarrow> nat" where "button_margin width = min 16 (width div 8)"
definition button_gap :: "nat \<Rightarrow> nat" where "button_gap width = min 8 (width div 20)"
definition button_space :: "nat \<Rightarrow> bool \<Rightarrow> nat" where
  "button_space width b =
     (width - 2 * button_margin width) - button_gap width * (length (button_profiles b) - 1)"

abbreviation button_left :: "nat \<Rightarrow> bool \<Rightarrow> nat \<Rightarrow> nat" where
  "button_left width b \<equiv>
     slot_left (button_margin width) (button_gap width) (button_space width b) (length (button_profiles b))"

abbreviation button_right :: "nat \<Rightarrow> bool \<Rightarrow> nat \<Rightarrow> nat" where
  "button_right width b \<equiv>
     slot_right (button_margin width) (button_gap width) (button_space width b) (length (button_profiles b))"

lemma button_count: "length (button_profiles b) = (if b then 6 else 5)"
  by (simp add: button_profiles_def menu_profiles_def)

lemma margins: "2 * button_margin width \<le> 2 * (width div 8)" "button_gap width \<le> width div 20"
    "button_margin width \<le> 16" "button_gap width \<le> 8"
  by (simp_all add: button_margin_def button_gap_def)

lemma button_end:
  assumes "i < length (button_profiles b)"
  shows "button_right width b i \<le> width"
proof -
  have "button_gap width * (length (button_profiles b) - 1) \<le> (width div 20) * 5"
    by (intro mult_le_mono margins(2)) (simp add: button_count)
  then have "2 * button_margin width + button_gap width * (length (button_profiles b) - 1) \<le> width"
    using margins(1) [of width] by linarith
  then show ?thesis using slot_end [OF assms, of "button_margin width" "button_gap width" "button_space width b"]
    by (simp add: button_space_def)
qed

lemma profile_button_bounds_eq:
  assumes "width * 6 \<le> u32_max"
  shows "profile_button_bounds width height b =
    map (\<lambda>(i, p). ((button_left width b i, min 68 (height div 4),
        button_right width b i - button_left width b i,
        profile_buttons_bottom height - min 68 (height div 4)), p))
      (enumerate 0 (button_profiles b))"
proof -
  let ?n = "length (button_profiles b)"
  have sat: "sat_mul_u32 (button_margin width) 2 = 2 * button_margin width"
    "sat_mul_u32 (button_gap width) (?n - 1) = button_gap width * (?n - 1)"
    using margins [of width] mult_le_mono [OF margins(4) [of width], of "?n - 1" 5]
    by (auto simp: sat_mul_u32_def u32_max_def button_count)
  have fit: "wrap_u32 (button_space width b * i) = button_space width b * i" if "i \<le> ?n" for i
  proof (rule wrap_u32_id)
    have "button_space width b * i \<le> width * 6"
      using that by (intro mult_le_mono) (auto simp: button_count button_space_def split: if_splits)
    then show "button_space width b * i \<le> u32_max" using assms by linarith
  qed
  have idx: "i < ?n" if "(i, p) \<in> set (enumerate 0 (button_profiles b))" for i p
    using that by (auto simp: in_set_enumerate_eq)
  show ?thesis
    unfolding profile_button_bounds_def Let_def button_profiles_def [symmetric]
      button_margin_def [symmetric] button_gap_def [symmetric] sat
  proof (rule map_cong [OF refl], clarify, goal_cases)
    case (1 i p)
    then have "Suc i \<le> ?n" "i \<le> ?n" using idx [OF 1] by simp_all
    then show ?case
      using fit [of i] fit [of "Suc i"]
      by (simp add: slot_left_def slot_right_def button_space_def)
  qed
qed

text \<open>The control rows share the space below the buttons without a gap.\<close>

definition rows_top :: "nat \<Rightarrow> nat" where
  "rows_top height = min (profile_buttons_bottom height + 8) height"

definition row_edge :: "nat \<Rightarrow> nat \<Rightarrow> nat" where
  "row_edge height i = rows_top height + (height - rows_top height) * i div 5"

lemma control_row_bounds_eq:
  assumes "height \<le> 560"
  shows "control_row_bounds height = map (\<lambda>i. (row_edge height i, row_edge height (i + 1))) [0..<5]"
proof -
  have sat: "min (sat_add_u32 (profile_buttons_bottom height) 8) height = rows_top height"
    by (simp add: sat_add_u32_def rows_top_def u32_max_def profile_buttons_bottom_def)
  have "wrap_u32 ((height - rows_top height) * i) = (height - rows_top height) * i" if "i \<le> 5" for i
  proof (rule wrap_u32_id)
    have "(height - rows_top height) * i \<le> 560 * 5" using assms that by (intro mult_le_mono) auto
    then show "(height - rows_top height) * i \<le> u32_max" by (simp add: u32_max_def)
  qed
  note fit = this
  show ?thesis
    unfolding control_row_bounds_def Let_def sat row_edge_def
  proof (rule map_cong [OF refl], goal_cases)
    case (1 i)
    then show ?case using fit [of i] fit [of "Suc i"] by simp
  qed
qed

lemma row_edge_mono: "i \<le> j \<Longrightarrow> row_edge height i \<le> row_edge height j"
  unfolding row_edge_def by (intro add_mono div_le_mono mult_le_mono2) simp_all

lemma row_edge_ends: "row_edge height 0 = rows_top height" "row_edge height 5 = height"
  by (simp_all add: row_edge_def rows_top_def)

lemma map_enumerate: "map f (enumerate 0 xs) = map (\<lambda>i. f (i, xs ! i)) [0..<length xs]"
  by (rule nth_equalityI) (simp_all add: nth_enumerate_eq)

lemma sorted_wrt_upt: "(\<And>i j. i < j \<Longrightarrow> j < n \<Longrightarrow> P (f i) (f j)) \<Longrightarrow> sorted_wrt P (map f [0..<n])"
  by (simp add: sorted_wrt_iff_nth_less)

definition button_rect :: "nat \<Rightarrow> nat \<Rightarrow> bool \<Rightarrow> nat \<Rightarrow> rect" where
  "button_rect width band b i =
     mk_rect (button_left width b i) (min 68 (band div 4))
       (button_right width b i - button_left width b i)
       (profile_buttons_bottom band - min 68 (band div 4))"

definition row_rect :: "nat \<Rightarrow> nat \<Rightarrow> nat \<Rightarrow> rect" where
  "row_rect width band i =
     mk_rect 0 (row_edge band i) width (row_edge band (i + 1) - row_edge band i)"

lemma menu_targets_eq:
  assumes "width * 6 \<le> u32_max" and band: "band = menu_height height"
  shows "menu_targets width height b =
    map (\<lambda>i. (button_rect width band b i, SetProfile (button_profiles b ! i)))
      [0..<length (button_profiles b)] @
    map (\<lambda>i. (row_rect width band i, menu_actions ! i)) [0..<5]"
proof -
  have "zip (control_row_bounds band) menu_actions =
      map (\<lambda>i. ((row_edge band i, row_edge band (i + 1)), menu_actions ! i)) [0..<5]"
    using menu_height_bounds [of height]
    by (simp add: band control_row_bounds_eq menu_actions_def upt_conv_Cons)
  then show ?thesis
    by (simp add: menu_targets_def profile_button_bounds_eq [OF assms(1)] band map_enumerate
        button_rect_def row_rect_def)
qed

lemma band_layout:
  assumes "240 \<le> band"
  shows "profile_buttons_bottom band + 8 = rows_top band" "rows_top band \<le> band"
    "60 \<le> min 68 (band div 4)" "min 68 (band div 4) + 60 \<le> profile_buttons_bottom band"
    "rows_top band + 110 \<le> band"
  using assms by (auto simp: profile_buttons_bottom_def rows_top_def min_def)

lemma button_rect_bottom: "240 \<le> band \<Longrightarrow> rect_y (button_rect width band b i) + rect_h (button_rect width band b i)
    = profile_buttons_bottom band"
  using band_layout [of band] by (simp add: button_rect_def)

lemma row_rect_top: "rows_top band \<le> rect_y (row_rect width band i)"
  using row_edge_mono [of 0 i band] by (simp add: row_rect_def row_edge_ends)

lemma disjoint_left: "rect_x r + rect_w r \<le> rect_x s \<Longrightarrow> disjoint_rects r s"
  by (simp add: disjoint_rects_def inside_def)

lemma disjoint_above: "rect_y r + rect_h r \<le> rect_y s \<Longrightarrow> disjoint_rects r s"
  by (simp add: disjoint_rects_def inside_def)

lemma buttons_disjoint:
  assumes "i < j"
  shows "disjoint_rects (button_rect width band b i) (button_rect width band b j)"
  by (rule disjoint_left) (simp add: button_rect_def slot_width slot_order [OF assms])

lemma rows_disjoint:
  assumes "i < j"
  shows "disjoint_rects (row_rect width band i) (row_rect width band j)"
  using row_edge_mono [of i "i + 1" band] row_edge_mono [of "i + 1" j band] assms
  by (intro disjoint_above) (simp add: row_rect_def)

lemma button_row_disjoint:
  assumes "240 \<le> band"
  shows "disjoint_rects (button_rect width band b i) (row_rect width band j)"
  using row_rect_top [of band width j] band_layout(1) [OF assms]
  by (intro disjoint_above) (simp add: button_rect_bottom [OF assms])

lemma targets_disjoint:
  assumes "width * 6 \<le> u32_max"
  shows "sorted_wrt disjoint_rects (map fst (menu_targets width height b))"
  by (auto simp: menu_targets_eq [OF assms refl] sorted_wrt_append comp_def
      intro!: sorted_wrt_upt buttons_disjoint rows_disjoint button_row_disjoint menu_height_bounds)

lemma targets_inside:
  assumes "width * 6 \<le> u32_max" and "(r, a) \<in> set (menu_targets width height b)"
  shows "rect_x r + rect_w r \<le> width" and "rect_y r + rect_h r \<le> menu_height height"
proof -
  obtain band where band_def: "band = menu_height height" by simp
  have band: "240 \<le> band" by (simp add: band_def menu_height_bounds)
  have end5: "row_edge band (i + 1) \<le> band" if "i < 5" for i
    using row_edge_mono [of "i + 1" 5 band] that by (simp add: row_edge_ends)
  from assms(2) [unfolded menu_targets_eq [OF assms(1) band_def]]
  consider i where "i < length (button_profiles b)" "r = button_rect width band b i"
    | i where "i < 5" "r = row_rect width band i" by auto
  then have "rect_x r + rect_w r \<le> width \<and> rect_y r + rect_h r \<le> band"
  proof cases
    case (1 i)
    then show ?thesis
      using button_end [OF 1(1), of width] slot_width band_layout [OF band] button_rect_bottom [OF band, of width b i]
      by (simp add: button_rect_def)
  next
    case (2 i)
    then show ?thesis using end5 [OF 2(1)] row_edge_mono [of i "i + 1" band] by (simp add: row_rect_def)
  qed
  then show "rect_x r + rect_w r \<le> width" "rect_y r + rect_h r \<le> menu_height height"
    by (simp_all add: band_def)
qed

text \<open>The touch test looks up the first target that contains the point.\<close>

lemma find_append: "find P (xs @ ys) = (case find P xs of None \<Rightarrow> find P ys | Some x \<Rightarrow> Some x)"
  by (induction xs) simp_all

lemma find_map: "find P (map f xs) = map_option f (find (P \<circ> f) xs)"
  by (induction xs) simp_all

lemma find_cong': "(\<And>x. x \<in> set xs \<Longrightarrow> P x = Q x) \<Longrightarrow> find P xs = find Q xs"
  by (induction xs) simp_all

lemma hit_test_targets:
  assumes "width * 6 \<le> u32_max"
  shows "hit_test x y width height b =
    (case find (\<lambda>(r, a). inside r x y) (menu_targets width height b) of
       None \<Rightarrow> CloseMenu | Some (r, a) \<Rightarrow> a)"
proof (cases "x \<ge> width \<or> y \<ge> menu_height height")
  case True
  have "find (\<lambda>(r, a). inside r x y) (menu_targets width height b) = None"
    using targets_inside [OF assms] True by (fastforce simp: find_None_iff inside_def)
  then show ?thesis using True by (simp add: hit_test_def)
next
  case False
  obtain band where band_def: "band = menu_height height" by simp
  let ?b = "profile_button_bounds width band b" and ?r = "zip (control_row_bounds band) menu_actions"
  have fits: "left + w \<le> width" "top + h \<le> band" if "((left, top, w, h), p) \<in> set ?b" for left top w h p
    using targets_inside [OF assms, of "mk_rect left top w h" "SetProfile p" height b] that
    by (force simp: menu_targets_def band_def)+
  have small: "width \<le> u32_max" "band \<le> u32_max"
    using assms menu_height_bounds(2) [of height] by (simp_all add: band_def u32_max_def)
  have buttons: "find (\<lambda>((left, top, w, h), p). left \<le> x \<and> x < sat_add_u32 left w \<and> top \<le> y \<and>
        y < sat_add_u32 top h) ?b =
      find ((\<lambda>(r, a). inside r x y) \<circ> (\<lambda>((x, y, w, h), p). (mk_rect x y w h, SetProfile p))) ?b"
  proof (rule find_cong', clarify, goal_cases)
    case (1 left top w h p)
    then show ?case using fits [OF 1] small
      by (simp add: inside_def sat_add_u32_def)
  qed
  have rows: "find (\<lambda>((top, bottom), a). top \<le> y \<and> y < bottom) ?r =
      find ((\<lambda>(r, a). inside r x y) \<circ> (\<lambda>((top, bottom), a). (mk_rect 0 top width (bottom - top), a))) ?r"
    using False by (intro find_cong') (auto simp: inside_def)
  show ?thesis
    using False
    by (auto simp: hit_test_def band_def [symmetric] buttons rows menu_targets_def find_append find_map
        split: option.splits)
qed

lemma find_disjoint:
  assumes "sorted_wrt disjoint_rects (map fst ts)" and "(r, a) \<in> set ts" and "inside r x y"
  shows "find (\<lambda>(r, a). inside r x y) ts = Some (r, a)"
  using assms by (induction ts) (auto simp: disjoint_rects_def)

lemma pick_target:
  assumes "width * 6 \<le> u32_max" and "(r, a) \<in> set (menu_targets width height b)" and "inside r x y"
  shows "hit_test x y width height b = a"
  using find_disjoint [OF targets_disjoint [OF assms(1)] assms(2,3)]
  by (simp add: hit_test_targets [OF assms(1)])

text \<open>
  Claim C39. The touch targets of the menu, the profile buttons and the five control rows, lie in
  the menu's band of the panel and do not overlap; a touch in a target performs exactly its
  action, and a touch in none of them closes the menu.
\<close>

theorem menu_targets_exact:
  assumes "width * 6 \<le> u32_max"
  shows "sorted_wrt disjoint_rects (map fst (menu_targets width height b)) \<and>
    list_all (\<lambda>(r, a). rect_x r + rect_w r \<le> width \<and> rect_y r + rect_h r \<le> menu_height height \<and>
        (inside r x y \<longrightarrow> hit_test x y width height b = a)) (menu_targets width height b) \<and>
    (covers (map fst (menu_targets width height b)) x y \<or> hit_test x y width height b = CloseMenu)"
proof (intro conjI)
  show "sorted_wrt disjoint_rects (map fst (menu_targets width height b))"
    by (rule targets_disjoint [OF assms])
  show "list_all (\<lambda>(r, a). rect_x r + rect_w r \<le> width \<and> rect_y r + rect_h r \<le> menu_height height \<and>
      (inside r x y \<longrightarrow> hit_test x y width height b = a)) (menu_targets width height b)"
    using targets_inside [OF assms] pick_target [OF assms] by (auto simp: list_all_iff)
  show "covers (map fst (menu_targets width height b)) x y \<or> hit_test x y width height b = CloseMenu"
  proof (cases "find (\<lambda>(r, a). inside r x y) (menu_targets width height b)")
    case None
    then show ?thesis by (simp add: hit_test_targets [OF assms])
  next
    case (Some t)
    then have "t \<in> set (menu_targets width height b)" "inside (fst t) x y"
      by (auto simp: find_Some_iff simp del: mem_simps) (metis nth_mem)+
    then show ?thesis by (auto simp: covers_def)
  qed
qed

theorem menu_targets_exact_witness:
  "sorted_wrt disjoint_rects (map fst (menu_targets 960 1696 True)) \<and>
   (covers (map fst (menu_targets 960 1696 True)) 100 300 \<or> hit_test 100 300 960 1696 True = CloseMenu)"
  using menu_targets_exact [of 960 1696 True 100 300] by (simp add: u32_max_def)

section \<open>The drawn menu\<close>

definition canvas_ok :: "nat \<Rightarrow> nat \<Rightarrow> canvas \<Rightarrow> bool" where
  "canvas_ok s n c \<longleftrightarrow> cv_stride c = s \<and> length (cv_luma c) = n * s \<and> length (cv_alpha c) = n * s"

lemma fill_row_nth:
  assumes "length buf = n * s" and "x + w \<le> s" and "row < n" and "j < n * s"
  shows "length (fill_row s x w v row buf) = n * s"
    and "fill_row s x w v row buf ! j =
      (if j div s = row \<and> x \<le> j mod s \<and> j mod s < x + w then v else buf ! j)"
proof -
  have s: "0 < s" using assms(4) by (cases s) auto
  have "row * s + (x + w) \<le> row * s + s" using assms(2) by simp
  also have "\<dots> \<le> n * s" using assms(3) mult_le_mono1 [of "Suc row" n s] by simp
  finally have b: "in_bounds buf (row * s + x) (length (replicate w v))"
    using assms(1) by (simp add: in_bounds_def)
  show "length (fill_row s x w v row buf) = n * s"
    using length_copy_into [OF b] assms(1) by (simp add: fill_row_def)
  have "row * s + x \<le> j \<and> j < row * s + x + w \<longleftrightarrow> j div s = row \<and> x \<le> j mod s \<and> j mod s < x + w"
    using row_major_inside [of "j mod s" s x w row "j div s"] s assms(2) by simp
  then show "fill_row s x w v row buf ! j =
      (if j div s = row \<and> x \<le> j mod s \<and> j mod s < x + w then v else buf ! j)"
    using nth_copy_into [OF b, of j] assms(1,4) by (auto simp: fill_row_def)
qed

lemma fill_rows_nth:
  assumes "length buf = n * s" and "x + w \<le> s" and "set rows \<subseteq> {..<n}" and "j < n * s"
  shows "length (fold (fill_row s x w v) rows buf) = n * s"
    and "fold (fill_row s x w v) rows buf ! j =
      (if j div s \<in> set rows \<and> x \<le> j mod s \<and> j mod s < x + w then v else buf ! j)"
proof -
  have "length (fold (fill_row s x w v) rows buf) = n * s \<and> fold (fill_row s x w v) rows buf ! j =
      (if j div s \<in> set rows \<and> x \<le> j mod s \<and> j mod s < x + w then v else buf ! j)"
    using assms(1,3)
  proof (induction rows arbitrary: buf)
    case Nil
    then show ?case by simp
  next
    case (Cons row rows)
    note f = fill_row_nth [OF Cons.prems(1) assms(2) _ assms(4), of row v]
    have r: "row < n" using Cons.prems(2) by simp
    show ?case using Cons.IH [of "fill_row s x w v row buf"] f [OF r] Cons.prems(2) by auto
  qed
  then show "length (fold (fill_row s x w v) rows buf) = n * s" "fold (fill_row s x w v) rows buf ! j =
      (if j div s \<in> set rows \<and> x \<le> j mod s \<and> j mod s < x + w then v else buf ! j)" by simp_all
qed

text \<open>Whether position \<open>j\<close> lies in the filled rectangle, however it is clipped.\<close>

definition in_fill :: "nat \<Rightarrow> nat \<Rightarrow> nat \<Rightarrow> nat \<Rightarrow> nat \<Rightarrow> nat \<Rightarrow> bool" where
  "in_fill s x y w h j \<longleftrightarrow> x \<le> j mod s \<and> j mod s < x + w \<and> y \<le> j div s \<and> j div s < sat_add_u32 y h"

lemma fill_rect_nth:
  assumes c: "canvas_ok s n c" and j: "j < n * s"
  shows "canvas_ok s n (fill_rect x y w h v c)"
    and "cv_luma (fill_rect x y w h v c) ! j = (if in_fill s x y w h j then v else cv_luma c ! j)"
    and "cv_alpha (fill_rect x y w h v c) ! j = (if in_fill s x y w h j then 255 else cv_alpha c ! j)"
proof -
  have s: "0 < s" using j by (cases s) auto
  have row: "j div s < n" using j s by (simp add: div_less_iff_less_mult)
  have m: "j mod s < s" using s by simp
  have "canvas_ok s n (fill_rect x y w h v c) \<and>
    cv_luma (fill_rect x y w h v c) ! j = (if in_fill s x y w h j then v else cv_luma c ! j) \<and>
    cv_alpha (fill_rect x y w h v c) ! j = (if in_fill s x y w h j then 255 else cv_alpha c ! j)"
  proof (cases "x \<ge> s")
    case True
    then show ?thesis using c m by (auto simp: fill_rect_def canvas_ok_def in_fill_def)
  next
    case False
    let ?rows = "[y..<min (sat_add_u32 y h) n]"
    have n: "n * s div s = n" using s by simp
    have w: "x + min w (s - x) \<le> s" using False by simp
    have rows: "set ?rows \<subseteq> {..<n}" by auto
    have l: "length (cv_luma c) = n * s" "length (cv_alpha c) = n * s" "cv_stride c = s"
      using c by (simp_all add: canvas_ok_def)
    have hit: "(j div s \<in> set ?rows \<and> x \<le> j mod s \<and> j mod s < x + min w (s - x)) = in_fill s x y w h j"
      using row m False by (auto simp: in_fill_def min_def simp del: mod_less_divisor)
    have f: "fill_rect x y w h v c =
        c\<lparr>cv_luma := fold (fill_row s x (min w (s - x)) v) ?rows (cv_luma c),
          cv_alpha := fold (fill_row s x (min w (s - x)) 255) ?rows (cv_alpha c)\<rparr>"
      using False s l n by (simp add: fill_rect_def Let_def)
    show ?thesis
      unfolding f using fill_rows_nth [OF l(1) w rows j, of v] fill_rows_nth [OF l(2) w rows j, of 255]
      by (simp only: hit canvas_ok_def) (simp add: l)
  qed
  then show "canvas_ok s n (fill_rect x y w h v c)"
    "cv_luma (fill_rect x y w h v c) ! j = (if in_fill s x y w h j then v else cv_luma c ! j)"
    "cv_alpha (fill_rect x y w h v c) ! j = (if in_fill s x y w h j then 255 else cv_alpha c ! j)" by simp_all
qed

text \<open>
  \<open>draws s n lo hi f\<close>: the step \<open>f\<close> changes only rows from \<open>lo\<close> to \<open>hi\<close> of a canvas,
  and what it changes it makes opaque.
\<close>

definition draws :: "nat \<Rightarrow> nat \<Rightarrow> nat \<Rightarrow> nat \<Rightarrow> (canvas \<Rightarrow> canvas) \<Rightarrow> bool" where
  "draws s n lo hi f \<longleftrightarrow> (\<forall>c. canvas_ok s n c \<longrightarrow> canvas_ok s n (f c) \<and>
     (\<forall>j<n * s. (j div s < lo \<or> hi \<le> j div s \<longrightarrow>
          cv_luma (f c) ! j = cv_luma c ! j \<and> cv_alpha (f c) ! j = cv_alpha c ! j) \<and>
        cv_alpha (f c) ! j \<in> {cv_alpha c ! j, 255}))"

lemma draws_ok: "draws s n lo hi f \<Longrightarrow> canvas_ok s n c \<Longrightarrow> canvas_ok s n (f c)"
  by (simp add: draws_def)

lemma draws_luma: "draws s n lo hi f \<Longrightarrow> canvas_ok s n c \<Longrightarrow> j < n * s \<Longrightarrow> j div s < lo \<or> hi \<le> j div s \<Longrightarrow>
    cv_luma (f c) ! j = cv_luma c ! j \<and> cv_alpha (f c) ! j = cv_alpha c ! j"
  unfolding draws_def by blast

lemma draws_opaque: "draws s n lo hi f \<Longrightarrow> canvas_ok s n c \<Longrightarrow> j < n * s \<Longrightarrow>
    cv_alpha (f c) ! j = cv_alpha c ! j \<or> cv_alpha (f c) ! j = 255"
  unfolding draws_def by blast

lemma draws_alpha:
  assumes "draws s n lo hi f" and "hi \<le> band" and "canvas_ok s n c" and "j < n * s"
    and "cv_alpha c ! j = (if j div s < band then 255 else 0)"
  shows "cv_alpha (f c) ! j = (if j div s < band then 255 else 0)"
proof (cases "j div s < band")
  case True
  then show ?thesis using draws_opaque [OF assms(1,3,4)] assms(5) by presburger
next
  case False
  then have "hi \<le> j div s" using assms(2) by simp
  then show ?thesis using draws_luma [OF assms(1,3,4)] assms(5) by presburger
qed

lemma drawsI:
  assumes "\<And>c. canvas_ok s n c \<Longrightarrow> canvas_ok s n (f c)"
    and "\<And>c j. canvas_ok s n c \<Longrightarrow> j < n * s \<Longrightarrow> j div s < lo \<or> hi \<le> j div s \<Longrightarrow>
      cv_luma (f c) ! j = cv_luma c ! j \<and> cv_alpha (f c) ! j = cv_alpha c ! j"
    and "\<And>c j. canvas_ok s n c \<Longrightarrow> j < n * s \<Longrightarrow>
      cv_alpha (f c) ! j = cv_alpha c ! j \<or> cv_alpha (f c) ! j = 255"
  shows "draws s n lo hi f"
  unfolding draws_def using assms by blast

lemma draws_id: "draws s n lo hi (\<lambda>c. c)"
  by (rule drawsI) simp_all

lemma draws_comp:
  assumes "draws s n lo hi f" and "draws s n lo hi g"
  shows "draws s n lo hi (\<lambda>c. g (f c))"
proof (rule drawsI)
  fix c j assume c: "canvas_ok s n c"
  note f = draws_ok [OF assms(1) c]
  show "canvas_ok s n (g (f c))" by (rule draws_ok [OF assms(2) f])
  assume j: "j < n * s"
  show "cv_alpha (g (f c)) ! j = cv_alpha c ! j \<or> cv_alpha (g (f c)) ! j = 255"
    using draws_opaque [OF assms(1) c j] draws_opaque [OF assms(2) f j] by presburger
  assume "j div s < lo \<or> hi \<le> j div s"
  then show "cv_luma (g (f c)) ! j = cv_luma c ! j \<and> cv_alpha (g (f c)) ! j = cv_alpha c ! j"
    using draws_luma [OF assms(1) c j] draws_luma [OF assms(2) f j] by presburger
qed

lemma draws_weaken:
  assumes "draws s n lo hi f" and "lo' \<le> lo" and "hi \<le> hi'"
  shows "draws s n lo' hi' f"
  by (rule drawsI) (use assms in \<open>auto intro: draws_ok dest: draws_luma draws_opaque\<close>)

lemma draws_fold: "(\<And>x. x \<in> set xs \<Longrightarrow> draws s n lo hi (f x)) \<Longrightarrow> draws s n lo hi (fold f xs)"
  by (induction xs) (simp_all add: draws_id id_def comp_def draws_comp)

lemma draws_if: "draws s n lo hi f \<Longrightarrow> draws s n lo hi (\<lambda>c. if b then f c else c)"
  by (cases b) (simp_all add: draws_id)

lemma draws_fill:
  assumes "0 < n * s"
  shows "draws s n y (sat_add_u32 y h) (fill_rect x y w h v)"
proof (rule drawsI)
  fix c j assume c: "canvas_ok s n c"
  show "canvas_ok s n (fill_rect x y w h v c)" by (rule fill_rect_nth(1) [OF c assms])
  assume j: "j < n * s"
  show "cv_alpha (fill_rect x y w h v c) ! j = cv_alpha c ! j \<or> cv_alpha (fill_rect x y w h v c) ! j = 255"
    by (simp add: fill_rect_nth(3) [OF c j])
  assume "j div s < y \<or> sat_add_u32 y h \<le> j div s"
  then show "cv_luma (fill_rect x y w h v c) ! j = cv_luma c ! j \<and>
      cv_alpha (fill_rect x y w h v c) ! j = cv_alpha c ! j"
    using fill_rect_nth(2,3) [OF c j, of x y w h v] by (auto simp: in_fill_def)
qed

lemma length_glyph: "length (glyph ch) = 7"
  by (simp add: glyph_def)

lemma draws_glyph:
  assumes "0 < n * s" and "y + 7 * scale \<le> u32_max"
  shows "draws s n y (y + 7 * scale) (draw_glyph cursor y scale v ch)"
  unfolding draw_glyph_def
proof (rule draws_fold, clarify)
  fix row bits assume "(row, bits) \<in> set (enumerate 0 (glyph ch))"
  then have row: "row < 7" by (auto simp: in_set_enumerate_eq length_glyph)
  have "row * scale + scale \<le> 7 * scale" using row mult_le_mono1 [of "Suc row" 7 scale] by simp
  then have le: "y + row * scale + scale \<le> y + 7 * scale" "y + row * scale + scale \<le> u32_max"
      "y + row * scale \<le> u32_max"
    using assms(2) by linarith+
  then have y: "wrap_u32 (y + row * scale) = y + row * scale"
    "sat_add_u32 (y + row * scale) scale = y + row * scale + scale"
    "y + row * scale + scale \<le> y + 7 * scale"
    by (simp_all only: wrap_u32_id sat_add_u32_def min_def if_True)
  show "draws s n y (y + 7 * scale) (fold (\<lambda>column c. if bit bits (4 - column)
      then fill_rect (wrap_u32 (cursor + column * scale)) (wrap_u32 (y + row * scale)) scale scale v c
      else c) [0..<5])"
    unfolding y(1)
    by (intro draws_fold draws_if draws_weaken [OF draws_fill [OF assms(1)]])
      (use le(1) in \<open>simp_all only: y(2) le_add1\<close>)
qed

lemma draws_text:
  assumes "0 < n * s" and "y + 7 * scale \<le> u32_max"
  shows "draws s n y (y + 7 * scale) (draw_text cursor y label scale v)"
proof (induction label arbitrary: cursor)
  case Nil
  then show ?case by (simp add: draws_id)
next
  case (Cons ch chs)
  show ?case
    using draws_comp [OF draws_glyph [OF assms, of cursor v ch] Cons.IH [of "sat_add_u32 cursor (6 * scale)"]]
    by simp
qed

text \<open>The menu stays in its band.\<close>

lemma draws_button:
  assumes "0 < n * s" and "y + h \<le> u32_max" and "14 \<le> h" and "scale = 1 \<or> scale = 2"
  shows "draws s n y (y + h) (draw_profile_button profile scale ((x, y, w, h), p))"
proof -
  let ?t = "y + (h - 7 * scale) div 2"
  have t: "?t + 7 * scale \<le> y + h" "sat_add_u32 y ((h - 7 * scale) div 2) = ?t" "sat_add_u32 y h = y + h"
    using assms(2-4) by (auto simp: sat_add_u32_def)
  have "draws s n ?t (?t + 7 * scale) (draw_text cursor ?t label scale v)" for cursor label v
    using t(1) assms(2) by (intro draws_text assms(1)) linarith
  then have "draws s n y (y + h) (draw_text cursor ?t label scale v)" for cursor label v
    by (rule draws_weaken) (use t(1) in simp_all)
  moreover have "draws s n y (y + h) (fill_rect x y w h v)" for v
    using draws_fill [OF assms(1), of y h x w v] by (simp add: t(3))
  ultimately show ?thesis
    unfolding draw_profile_button_def draw_text_centered_def Let_def t(2) prod.case
    by (rule draws_comp [rotated])
qed

lemma draws_control_row:
  assumes "0 < n * s" and "y0 + 14 \<le> y1" and "y1 \<le> u32_max"
  shows "draws s n y0 y1 (draw_control_row width ((y0, y1), label))"
proof -
  let ?t = "y0 + ((y1 - y0) - 14) div 2"
  have t: "?t + 7 * 2 \<le> y1" using assms(2) by simp
  have "draws s n ?t (?t + 7 * 2) (draw_text 32 ?t label 2 0)"
    using t assms(3) by (intro draws_text assms(1)) linarith
  then have "draws s n y0 y1 (draw_text 32 ?t label 2 0)"
    by (rule draws_weaken) (use t in simp_all)
  moreover have "draws s n y0 y1 (fill_rect 16 (y0 + 5) (width - 32) (y1 - (y0 + 10)) 235)"
    by (rule draws_weaken [OF draws_fill [OF assms(1)]]) (use assms(2,3) in \<open>simp_all add: sat_add_u32_def\<close>)
  ultimately show ?thesis
    unfolding draw_control_row_def prod.case by (rule draws_comp [rotated])
qed

lemma button_strip:
  assumes "0 < n * s" and "y + h \<le> u32_max" and "60 \<le> h" and "scale = 1 \<or> scale = 2"
    and c: "canvas_ok s n c" and j: "j < n * s" "j div s < y + 23"
  shows "cv_luma (draw_profile_button profile scale ((x, y, w, h), p) c) ! j =
    (if in_rect s (mk_rect x y w h) j then if profile = p then 0 else 235 else cv_luma c ! j)"
proof -
  let ?t = "y + (h - 7 * scale) div 2" and ?v = "if profile = p then 0 else 235 :: u8"
  have t: "?t + 7 * scale \<le> u32_max" "sat_add_u32 y ((h - 7 * scale) div 2) = ?t" "sat_add_u32 y h = y + h"
      "y + 23 \<le> ?t"
    using assms(2-4) by (auto simp: sat_add_u32_def)
  have c': "canvas_ok s n (fill_rect x y w h ?v c)" by (rule fill_rect_nth(1) [OF c j(1)])
  have "cv_luma (draw_text cursor ?t label scale v (fill_rect x y w h ?v c)) ! j =
      cv_luma (fill_rect x y w h ?v c) ! j" for cursor label v
    using draws_luma [OF draws_text [OF assms(1) t(1)] c' j(1)] j(2) t(4) by simp
  then show ?thesis
    by (simp add: draw_profile_button_def draw_text_centered_def Let_def t(2) fill_rect_nth(2) [OF c j(1)]
        in_fill_def in_rect_def inside_def t(3))
qed

lemma button_strips:
  assumes "0 < n * s" and "y + h \<le> u32_max" and "60 \<le> h" and "scale = 1 \<or> scale = 2"
    and c: "canvas_ok s n c" and j: "j < n * s" "j div s < y + 23"
    and bs: "\<forall>b\<in>set bs. \<exists>x w p. b = ((x, y, w, h), p)"
    and d: "sorted_wrt (\<lambda>((x, y, w, h), p) ((x', y', w', h'), p').
       disjoint_rects (mk_rect x y w h) (mk_rect x' y' w' h')) bs"
    and b: "((x, y, w, h), p) \<in> set bs" "in_rect s (mk_rect x y w h) j"
  shows "cv_luma (fold (draw_profile_button profile scale) bs c) ! j = (if profile = p then 0 else 235)"
proof -
  note strip = button_strip [OF assms(1-4) _ j, of _ profile]
  have keep: "cv_luma (fold (draw_profile_button profile scale) bs c) ! j = cv_luma c ! j"
    if "\<forall>b\<in>set bs. \<exists>x w p. b = ((x, y, w, h), p) \<and> \<not> in_rect s (mk_rect x y w h) j" "canvas_ok s n c" for bs c
    using that
  proof (induction bs arbitrary: c)
    case Nil
    then show ?case by simp
  next
    case (Cons b bs)
    then obtain x w p where b: "b = ((x, y, w, h), p)" "\<not> in_rect s (mk_rect x y w h) j" by auto
    have "canvas_ok s n (draw_profile_button profile scale b c)"
      unfolding b by (rule draws_ok [OF draws_button]) (use assms(1-4) Cons.prems(2) in simp_all)
    then show ?case using Cons strip [OF Cons.prems(2), of x w p] b by simp
  qed
  show ?thesis using bs d b c
  proof (induction bs arbitrary: c)
    case Nil
    then show ?case by simp
  next
    case (Cons e bs)
    then obtain x' w' p' where e: "e = ((x', y, w', h), p')" by auto
    have c': "canvas_ok s n (draw_profile_button profile scale e c)"
      unfolding e by (rule draws_ok [OF draws_button]) (use assms(1-4) Cons.prems(5) in simp_all)
    show ?case
    proof (cases "e = ((x, y, w, h), p)")
      case True
      have "\<forall>b\<in>set bs. \<exists>x w p. b = ((x, y, w, h), p) \<and> \<not> in_rect s (mk_rect x y w h) j"
        using Cons.prems(1,2,4) by (fastforce simp: True disjoint_rects_def in_rect_def)
      then show ?thesis
        using keep [OF _ c'] strip [OF Cons.prems(5), of x w p] Cons.prems(4) by (simp add: True)
    next
      case False
      then show ?thesis using Cons.IH [OF _ _ _ Cons.prems(4) c'] Cons.prems(1-3) by simp
    qed
  qed
qed

lemma buttons_of_band:
  assumes "width * 6 \<le> u32_max" and "240 \<le> band"
  defines "y \<equiv> min 68 (band div 4)" and "h \<equiv> profile_buttons_bottom band - min 68 (band div 4)"
  shows "\<forall>e\<in>set (profile_button_bounds width band b). \<exists>x w p. e = ((x, y, w, h), p)"
    and "sorted_wrt (\<lambda>((x, y, w, h), p) ((x', y', w', h'), p').
       disjoint_rects (mk_rect x y w h) (mk_rect x' y' w' h')) (profile_button_bounds width band b)"
proof -
  show "\<forall>e\<in>set (profile_button_bounds width band b). \<exists>x w p. e = ((x, y, w, h), p)"
    by (auto simp: profile_button_bounds_eq [OF assms(1)] map_enumerate y_def h_def)
  show "sorted_wrt (\<lambda>((x, y, w, h), p) ((x', y', w', h'), p').
       disjoint_rects (mk_rect x y w h) (mk_rect x' y' w' h')) (profile_button_bounds width band b)"
    using buttons_disjoint [of _ _ width band b]
    by (auto simp: profile_button_bounds_eq [OF assms(1)] map_enumerate button_rect_def
        intro!: sorted_wrt_upt)
qed

text \<open>The steps of \<open>menu_canvas\<close> after the band is filled.\<close>

lemma draws_buttons:
  assumes "0 < n * s" and "width * 6 \<le> u32_max" and "240 \<le> band" "band \<le> 560" and "scale = 1 \<or> scale = 2"
  shows "draws s n 0 band (fold (draw_profile_button profile scale) (profile_button_bounds width band b))"
proof (rule draws_fold)
  let ?y = "min 68 (band div 4)" and ?h = "profile_buttons_bottom band - min 68 (band div 4)"
  note lay = band_layout [OF assms(3)]
  have y: "?y + ?h \<le> u32_max" "14 \<le> ?h" "?y + ?h \<le> band"
    using lay assms(4) by (auto simp: u32_max_def)
  fix e assume "e \<in> set (profile_button_bounds width band b)"
  then obtain x w p where e: "e = ((x, ?y, w, ?h), p)" using buttons_of_band(1) [OF assms(2,3)] by blast
  show "draws s n 0 band (draw_profile_button profile scale e)"
    unfolding e by (rule draws_weaken [OF draws_button [OF assms(1) y(1,2) assms(5)] le0 y(3)])
qed

lemma draws_titles: "0 < n * s \<Longrightarrow> draws s n 18 39 (draw_titles width profile)"
  unfolding draw_titles_def
  by (rule draws_comp; rule draws_weaken [OF draws_text]) (simp_all add: u32_max_def)

lemma row_height:
  assumes "240 \<le> band"
  shows "row_edge band i + 14 \<le> row_edge band (i + 1)"
proof -
  let ?a = "band - rows_top band"
  have "110 \<le> ?a" using band_layout [OF assms] by simp
  moreover have "a * i + 110 \<le> a * (i + 1)" if "110 \<le> a" for a using that by simp
  ultimately have "?a * i + 110 \<le> ?a * (i + 1)" by blast
  then have "(?a * i + 110) div 5 \<le> ?a * (i + 1) div 5" by (rule div_le_mono)
  moreover have "(?a * i + 110) div 5 = ?a * i div 5 + 22" by simp
  ultimately show ?thesis unfolding row_edge_def by linarith
qed

lemma draws_control_rows:
  assumes "0 < n * s" and "240 \<le> band" "band \<le> 560"
  shows "draws s n (rows_top band) band (fold (draw_control_row width) (zip (control_row_bounds band) labels))"
proof (rule draws_fold, clarify)
  fix lo hi label assume "((lo, hi), label) \<in> set (zip (control_row_bounds band) labels)"
  then obtain i where i: "i < 5" "lo = row_edge band i" "hi = row_edge band (i + 1)"
    by (auto simp: control_row_bounds_eq [OF assms(3)] dest!: set_zip_leftD)
  have "rows_top band \<le> lo" "hi \<le> band"
    using row_edge_mono [of 0 i band] row_edge_mono [of "i + 1" 5 band] i by (simp_all add: row_edge_ends)
  moreover have "lo + 14 \<le> hi" unfolding i by (rule row_height [OF assms(2)])
  ultimately show "draws s n (rows_top band) band (draw_control_row width ((lo, hi), label))"
    using assms(3) by (intro draws_weaken [OF draws_control_row [OF assms(1)]]) (auto simp: u32_max_def)
qed

lemma menu_canvas_pixel:
  assumes "0 < width" and "0 < height" and w: "width * 6 \<le> u32_max" and j: "j < height * width"
    and c: "c = menu_canvas width height profile part b" and band_def: "band = menu_height height"
  shows "canvas_ok width height c"
    and "cv_alpha c ! j = (if j div width < band then 255 else 0)"
    and "((x, y, bw, bh), p) \<in> set (profile_button_bounds width band b) \<Longrightarrow>
      in_rect width (mk_rect x y bw 23) j \<Longrightarrow> cv_luma c ! j = (if profile = p then 0 else 235)"
proof -
  have band: "240 \<le> band" "band \<le> 560" by (simp_all add: band_def menu_height_bounds)
  note lay = band_layout [OF band(1)]
  have pos: "0 < height * width" using assms(1,2) by simp
  obtain buttons scale where buttons: "buttons = profile_button_bounds width band b"
    and scale_def: "scale = menu_profile_scale buttons" by simp
  have scale: "scale = 1 \<or> scale = 2"
    by (auto simp: scale_def menu_profile_scale_def split: list.splits)
  obtain c0 c1 c2 c3 c4 where steps: "c1 = fill_rect 0 0 width band 255 c0" "c2 = fill_rect 0 0 width 5 0 c1"
      "c3 = fold (draw_profile_button profile scale) buttons c2" "c4 = draw_titles width profile c3"
      "c = fold (draw_control_row width) (zip (control_row_bounds band) (menu_labels part)) c4"
      and c0: "c0 = \<lparr>cv_luma = replicate (width * height) 0, cv_alpha = replicate (width * height) 0,
        cv_stride = width\<rparr>"
    by (simp add: c menu_canvas_def band_def buttons scale_def Let_def)
  note dr = draws_control_rows [OF pos band, of width "menu_labels part"]
    and dt = draws_titles [OF pos, of width profile]
    and db = draws_buttons [OF pos w band scale, of profile b, folded buttons]
    and df = draws_fill [OF pos, of 0 5 0 width 0]
  have dl: "draws width height 0 band (fill_rect 0 0 width 5 0)"
    by (rule draws_weaken [OF df]) (use band in \<open>simp_all add: sat_add_u32_def\<close>)
  have ok0: "canvas_ok width height c0" by (simp add: canvas_ok_def c0 mult.commute)
  have ok1: "canvas_ok width height c1" unfolding steps(1) by (rule fill_rect_nth(1) [OF ok0 pos])
  have ok2: "canvas_ok width height c2" unfolding steps(2) by (rule draws_ok [OF dl ok1])
  have ok3: "canvas_ok width height c3" unfolding steps(3) by (rule draws_ok [OF db ok2])
  have ok4: "canvas_ok width height c4" unfolding steps(4) by (rule draws_ok [OF dt ok3])
  show "canvas_ok width height c" unfolding steps(5) by (rule draws_ok [OF dr ok4])
  have "cv_alpha c1 ! j = (if j div width < band then 255 else 0)"
    using fill_rect_nth(3) [OF ok0 j, of 0 0 width band 255] j assms(1) band(2)
    by (simp add: steps(1) in_fill_def c0 u32_max_def sat_add_u32_def mult.commute)
  note a2 = draws_alpha [OF dl order_refl ok1 j this, folded steps(2)]
  note a3 = draws_alpha [OF db order_refl ok2 j a2, folded steps(3)]
  have "39 \<le> band" using band by simp
  note a4 = draws_alpha [OF dt this ok3 j a3, folded steps(4)]
  show "cv_alpha c ! j = (if j div width < band then 255 else 0)"
    using draws_alpha [OF dr order_refl ok4 j a4] by (simp only: steps(5))
  assume "((x, y, bw, bh), p) \<in> set (profile_button_bounds width band b)"
    and inj: "in_rect width (mk_rect x y bw 23) j"
  then have e: "((x, y, bw, bh), p) \<in> set buttons" by (simp add: buttons)
  note bs = buttons_of_band [OF w band(1), of b, folded buttons]
  have yh: "y = min 68 (band div 4)" "bh = profile_buttons_bottom band - min 68 (band div 4)"
    using bs(1) e by auto
  have bounds: "y + bh \<le> u32_max" "60 \<le> bh" using lay band by (auto simp: yh u32_max_def)
  have row: "y \<le> j div width" "j div width < y + 23" and in_b: "in_rect width (mk_rect x y bw bh) j"
    using inj bounds(2) by (auto simp: in_rect_def inside_def)
  have "cv_luma c3 ! j = (if profile = p then 0 else 235)"
    unfolding steps(3) by (rule button_strips [OF pos bounds scale ok2 j row(2) bs [folded yh] e in_b])
  moreover have "cv_luma c4 ! j = cv_luma c3 ! j"
  proof -
    have "39 \<le> j div width" using row(1) lay(3) unfolding yh by linarith
    then show ?thesis unfolding steps(4) using draws_luma [OF dt ok3 j] by blast
  qed
  moreover have "cv_luma c ! j = cv_luma c4 ! j"
  proof -
    have "j div width < rows_top band" using row(2) lay(1,4) unfolding yh by linarith
    then show ?thesis unfolding steps(5) using draws_luma [OF dr ok4 j] by blast
  qed
  ultimately show "cv_luma c ! j = (if profile = p then 0 else 235)" by simp
qed

text \<open>
  Drawing the visible menu never fails and makes the overlay opaque on exactly the
  menu's band at the top of the panel and transparent below; in the profile buttons the active
  profile, and it alone, is drawn on black (shown on the part of a button above its label). A
  hidden menu makes the whole overlay transparent.
\<close>

theorem menu_render_correct:
  assumes "0 < width" and "0 < height" and "width * 6 \<le> u32_max" and "overlay_ok (width * height) ov"
  shows "\<exists>ov'. menu_render width height profile part b ov m = Some (ov', m\<lparr>menu_custom_available := b\<rparr>) \<and>
    overlay_ok (width * height) ov' \<and>
    (\<forall>j < width * height. ov_alpha ov' ! j =
       (if menu_visible m \<and> j div width < menu_height height then 255 else 0) \<and>
       (\<forall>((x, y, bw, bh), p) \<in> set (profile_button_bounds width (menu_height height) b).
          menu_visible m \<and> in_rect width (mk_rect x y bw 23) j \<longrightarrow>
          ov_luma ov' ! j = (if p = profile then 0 else 235)))"
proof (cases "menu_visible m")
  case False
  then show ?thesis
    using overlay_clear_ok [OF assms(4)] assms(4)
    by (auto simp: menu_render_def overlay_clear_def overlay_ok_def)
next
  case True
  let ?c = "menu_canvas width height profile part b"
  note px = menu_canvas_pixel [OF assms(1-3) _ refl refl, where profile = profile and part = part and b = b]
  have ok: "canvas_ok width height ?c" using px(1) [of 0] assms(1,2) by simp
  have len: "length (cv_luma ?c) = overlay_len ov" "length (cv_alpha ?c) = overlay_len ov"
    using ok assms(4) by (simp_all add: canvas_ok_def overlay_ok_def overlay_len_def mult.commute)
  obtain r ov' where r: "replace_planes ov (cv_luma ?c) (cv_alpha ?c) = (r, ov')" by fastforce
  have planes: "r = Inr ()" "ov_luma ov' = cv_luma ?c" "ov_alpha ov' = cv_alpha ?c"
    using r len by (auto simp: replace_planes_def)
  have "overlay_ok (width * height) ov'"
    using replace_planes_ok [OF assms(4), of "cv_luma ?c" "cv_alpha ?c"] r by simp
  moreover have "menu_render width height profile part b ov m = Some (ov', m\<lparr>menu_custom_available := b\<rparr>)"
    using True r planes(1) by (simp add: menu_render_def)
  ultimately show ?thesis
    using True px(2,3) by (auto simp: planes(2,3) mult.commute)
qed

theorem menu_render_correct_witness:
  "\<exists>ov'. menu_render 40 600 Balanced True False
     \<lparr>ov_luma = replicate 24000 0, ov_alpha = replicate 24000 0, ov_transparent = True, ov_dirty = None\<rparr>
     \<lparr>menu_visible = True, menu_custom_available = True\<rparr> =
       Some (ov', \<lparr>menu_visible = True, menu_custom_available = False\<rparr>) \<and>
     ov_alpha ov' ! 0 = 255 \<and> ov_alpha ov' ! 23999 = 0"
proof -
  let ?ov = "\<lparr>ov_luma = replicate 24000 0, ov_alpha = replicate 24000 (0 :: u8), ov_transparent = True,
     ov_dirty = None\<rparr>"
  have "overlay_ok (40 * 600) ?ov" by (simp add: overlay_ok_def list_all_iff)
  from menu_render_correct [OF _ _ _ this, of Balanced True False
      "\<lparr>menu_visible = True, menu_custom_available = True\<rparr>"]
  obtain ov' where r: "menu_render 40 600 Balanced True False ?ov
      \<lparr>menu_visible = True, menu_custom_available = True\<rparr> =
        Some (ov', \<lparr>menu_visible = True, menu_custom_available = False\<rparr>)"
    and a: "\<forall>j<24000. ov_alpha ov' ! j = (if j div 40 < menu_height 600 then 255 else 0)"
    by (auto simp: u32_max_def)
  have "ov_alpha ov' ! 0 = 255 \<and> ov_alpha ov' ! 23999 = 0"
    using a [rule_format, of 0] a [rule_format, of 23999] by (simp add: menu_height_def)
  then show ?thesis using r by blast
qed

end
