(* ===== verification/Session_State.thy ===== *)
theory Session_State
  imports Receiver_Config Local_Menu
begin

text \<open>
  The state of a receiver session, \<open>crates/rm-display-receiver/src/session.rs\<close>, its
  constructor and the methods every handler uses: numbering and wrapping of outgoing messages,
  credits, frame results, and the settings the embedding application changes. A method that can
  fail returns its result with the new state. The outside world is the argument
  \<open>receiver_env\<close>: the panel, the decoders, and what the clock shows between two readings. The
  verifier of the client token is part of the configuration, as in the source.
\<close>

section \<open>State\<close>

record active_surface =
  as_surface_id :: nat
  as_generation :: u32
  as_touch_forwarding :: bool
  as_pen_forwarding :: bool
  as_local_ink :: bool
  as_ink_frozen :: bool
  as_pen_point :: "(nat \<times> nat) option"
  as_last_pen :: "pointer_record option"
  as_pen_needs_down :: bool
  as_ink_paused :: bool
  as_ink_needs_down :: bool
  as_ink_not_before :: nat
  as_core :: display_core

record local_fallback =
  fb_base :: pixel_surface
  fb_overlay :: local_overlay

record ink_snapshot =
  sn_surface_id :: nat
  sn_generation :: u32
  sn_presented_frame_id :: nat
  sn_width :: nat
  sn_height :: nat
  sn_frozen :: bool
  sn_bitmap :: bytes

record interaction_state =
  in_last_input_at :: nat
  in_touch_active :: bool
  in_pen_in_proximity :: bool

record 'p session =
  se_config :: receiver_config
  se_panel :: 'p
  se_session_id :: u64
  se_established :: bool
  se_closed :: bool
  se_receiver_exit_requested :: bool
  se_pairing_reset_requested :: bool
  se_last_incoming :: u32
  se_next_outgoing :: u32
  se_next_generation :: u32
  se_next_input_sequence :: u64
  se_input_not_before :: nat
  se_last_profile_request :: nat
  se_last_refresh_request :: nat
  se_profile_control :: bool
  se_custom_profile_control :: bool
  se_refresh_control :: bool
  se_selected_minor :: nat
  se_pen_available :: bool
  se_pointer_input :: bool
  se_remote_overlay :: bool
  se_local_ink_control :: bool
  se_overlay_sequence :: nat
  se_encodings :: "int list"
  se_color_rgb565 :: bool
  se_byte_credits :: bool
  se_cleanup_pending :: bool
  se_refresh_debt :: refresh_debt
  se_gesture :: gesture
  se_last_interaction :: nat
  se_pen_proximity :: bool
  se_freeze_on_pen_down :: bool
  se_automatic_idle_cleanup :: bool
  se_menu :: local_menu
  se_last_custom :: "refresh_config option"
  se_surface :: "active_surface option"
  se_fallback :: "local_fallback option"

record 'p receiver_env =
  re_backend :: "'p panel_backend"
  re_decoders :: decoders
  re_clock :: "'p \<Rightarrow> clock_obs"
  re_validation_time :: "'p \<Rightarrow> nat"

type_synonym ('p, 'a) session_step = "(session_error, 'a) result \<times> 'p session"

section \<open>Running and sequencing\<close>

fun map_state :: "('a \<Rightarrow> 's \<Rightarrow> 'b \<times> 's) \<Rightarrow> 'a list \<Rightarrow> 's \<Rightarrow> 'b list \<times> 's" where
  "map_state f [] s = ([], s)"
| "map_state f (x # xs) s =
     (let (y, s') = f x s; (ys, s'') = map_state f xs s' in (y # ys, s''))"

text \<open>A fallible method of the display core, called on the active surface.\<close>

definition run_core ::
  "(display_core \<Rightarrow> 'p \<Rightarrow> ('p, 'a) core_step) \<Rightarrow> active_surface \<Rightarrow> 'p session \<Rightarrow> ('p, 'a) session_step" where
  "run_core f surface s =
     (case f (as_core surface) (se_panel s) of
        (r, core, panel) \<Rightarrow>
          (map_err SessionCore r,
           s\<lparr>se_surface := Some (surface\<lparr>as_core := core\<rparr>), se_panel := panel\<rparr>))"

abbreviation clock_of :: "'p receiver_env \<Rightarrow> 'p session \<Rightarrow> clock_obs" where
  "clock_of env s \<equiv> re_clock env (se_panel s)"

definition core_refresh_debt :: "display_core \<Rightarrow> refresh_debt" where
  "core_refresh_debt c = policy_debt (dc_refresh_policy c)"

definition default_debt :: refresh_debt where
  "default_debt = \<lparr>debt_has_presented = False, debt_partial_updates = 0\<rparr>"

definition rearm_ink :: "nat \<Rightarrow> active_surface \<Rightarrow> active_surface" where
  "rearm_ink now a = a\<lparr>as_pen_point := None, as_ink_needs_down := True,
     as_ink_not_before := max (as_ink_not_before a) now\<rparr>"

section \<open>Construction\<close>

text \<open>The loop of \<open>random_nonzero_u64\<close> over the values the random generator yields.\<close>

fun random_nonzero_u64 :: "u64 list \<Rightarrow> u64 option" where
  "random_nonzero_u64 [] = None"
| "random_nonzero_u64 (value # values) = (if value \<noteq> 0 then Some value else random_nonzero_u64 values)"

definition session_new_with_fallback ::
  "receiver_config \<Rightarrow> 'p \<Rightarrow> pixel_surface option \<Rightarrow> u64 \<Rightarrow> (surface_error, 'p session) result" where
  "session_new_with_fallback config panel fallback session_id =
     and_then (case fallback of
         None \<Rightarrow> Inr None
       | Some base \<Rightarrow> and_then (overlay_transparent (ps_width base) (ps_height base))
           (\<lambda>overlay. Inr (Some \<lparr>fb_base = base, fb_overlay = overlay\<rparr>)))
     (\<lambda>fallback. Inr
       \<lparr>se_config = config, se_panel = panel, se_session_id = session_id, se_established = False,
        se_closed = False, se_receiver_exit_requested = False, se_pairing_reset_requested = False,
        se_last_incoming = 0, se_next_outgoing = 1, se_next_generation = 1,
        se_next_input_sequence = 1, se_input_not_before = 0, se_last_profile_request = 0,
        se_last_refresh_request = 0, se_profile_control = False,
        se_custom_profile_control = False, se_refresh_control = False, se_selected_minor = 0,
        se_pen_available = False, se_pointer_input = False, se_remote_overlay = False,
        se_local_ink_control = False, se_overlay_sequence = 0, se_encodings = [],
        se_color_rgb565 = False, se_byte_credits = False, se_cleanup_pending = False,
        se_refresh_debt = default_debt, se_gesture = gesture_new, se_last_interaction = 0,
        se_pen_proximity = False, se_freeze_on_pen_down = True, se_automatic_idle_cleanup = True,
        se_menu = menu_default, se_last_custom = None, se_surface = None, se_fallback = fallback\<rparr>)"

definition session_new :: "receiver_config \<Rightarrow> 'p \<Rightarrow> u64 \<Rightarrow> (surface_error, 'p session) result" where
  "session_new config panel session_id = session_new_with_fallback config panel None session_id"

section \<open>Outgoing messages\<close>

text \<open>The counters of the session skip zero: a value is read as at least one and advanced.\<close>

definition take_counter :: "'a::len word \<Rightarrow> 'a word \<times> 'a word" where
  "take_counter counter = (let value = max counter 1 in (value, max (value + 1) 1))"

definition wrap_body :: "body \<Rightarrow> 'p session \<Rightarrow> envelope \<times> 'p session" where
  "wrap_body body s =
     (case take_counter (se_next_outgoing s) of (message_id, next_id) \<Rightarrow>
        (\<lparr>env_session_id = se_session_id s, env_message_id = message_id, env_body = Some body\<rparr>,
         s\<lparr>se_next_outgoing := next_id\<rparr>))"

definition credits :: "'p session \<Rightarrow> nat" where
  "credits s =
     (let pending = (case se_surface s of None \<Rightarrow> 0
        | Some a \<Rightarrow> if dc_pending (as_core a) \<noteq> None then 1 else 0)
      in rl_max_inflight (rc_limits (se_config s)) - pending)"

definition byte_credits :: "'p session \<Rightarrow> nat" where
  "byte_credits s =
     (if \<not> se_byte_credits s then 0
      else
        let pending = (case se_surface s of None \<Rightarrow> 0 | Some a \<Rightarrow> pending_bytes (as_core a))
        in rl_max_inflight_bytes (rc_limits (se_config s)) - pending)"

definition protocol_limits :: "'p session \<Rightarrow> limits" where
  "protocol_limits s =
     (let l = rc_limits (se_config s) in
      \<lparr>li_max_payload = rl_max_payload l, li_max_frame_bytes = rl_max_frame_bytes l,
       li_max_regions = rl_max_regions l, li_max_inflight = rl_max_inflight l,
       li_max_fps_x100 = rl_max_fps_x100 l, li_settled_deadline_ms = rl_settled_deadline_ms l,
       li_max_inflight_bytes = (if se_byte_credits s then rl_max_inflight_bytes l else 0)\<rparr>)"

definition frame_result_env ::
  "nat \<Rightarrow> u32 \<Rightarrow> nat \<Rightarrow> frame_result_code \<Rightarrow> frame_result_reason \<Rightarrow> nat \<Rightarrow> nat \<Rightarrow>
   presentation_metrics option \<Rightarrow> 'p session \<Rightarrow> envelope \<times> 'p session" where
  "frame_result_env surface_id generation frame_id code reason logical presented metrics s =
     wrap_body (FrameResult
       \<lparr>fr_surface_id = surface_id, fr_generation = generation, fr_frame_id = frame_id,
        fr_result = frame_result_code_i32 code, fr_reason = frame_result_reason_i32 reason,
        fr_credits = credits s, fr_logical_frame_id = logical, fr_presented_frame_id = presented,
        fr_metrics = Some (frame_metrics_of metrics), fr_byte_credits = byte_credits s\<rparr>) s"

definition terminal_code :: "presentation_outcome \<Rightarrow> bool \<Rightarrow> frame_result_code \<times> frame_result_reason" where
  "terminal_code outcome frozen =
     (case outcome of
        Presented \<Rightarrow> (CodePresented, WhyNone)
      | Superseded \<Rightarrow> (CodeSuperseded, WhyNone)
      | Cancelled \<Rightarrow> (CodeRejected, if frozen then WhyInkFrozen else WhyProtocolState)
      | BackendFailure \<Rightarrow> (CodeRejected, WhyBackendFailure))"

definition terminal_result :: "terminal_frame \<Rightarrow> 'p session \<Rightarrow> envelope \<times> 'p session" where
  "terminal_result t s =
     (case terminal_code (tf_outcome t)
         (case se_surface s of None \<Rightarrow> False | Some a \<Rightarrow> as_ink_frozen a) of
        (code, reason) \<Rightarrow>
          (case (case se_surface s of
               None \<Rightarrow> (0, 0, 0, 0)
             | Some a \<Rightarrow> (as_surface_id a, as_generation a, dc_logical_frame_id (as_core a),
                         dc_presented_frame_id (as_core a))) of
             (surface_id, generation, logical, presented) \<Rightarrow>
               frame_result_env surface_id generation (tf_frame_id t) code reason logical presented
                 (Some (tf_metrics t)) s))"

definition terminal_results :: "terminal_frame list \<Rightarrow> 'p session \<Rightarrow> envelope list \<times> 'p session" where
  "terminal_results = map_state terminal_result"

definition immediate_frame_result ::
  "frame \<Rightarrow> frame_result_code \<Rightarrow> frame_result_reason \<Rightarrow> 'p session \<Rightarrow> envelope \<times> 'p session" where
  "immediate_frame_result fr code reason s =
     (case (case se_surface s of None \<Rightarrow> (0, 0)
         | Some a \<Rightarrow> (dc_logical_frame_id (as_core a), dc_presented_frame_id (as_core a))) of
        (logical, presented) \<Rightarrow>
          frame_result_env (frame_surface_id fr) (of_nat (frame_generation fr)) (frame_frame_id fr)
            code reason logical presented None s)"

text \<open>The common tail \<open>Ok(terminals.into_iter().map(terminal_result).collect())\<close>.\<close>

definition ok_terminals :: "terminal_frame list \<Rightarrow> 'p session \<Rightarrow> ('p, envelope list) session_step" where
  "ok_terminals ts s = (case terminal_results ts s of (es, s') \<Rightarrow> (Inr es, s'))"

section \<open>Pointer batches\<close>

definition monotonic_us :: "nat \<Rightarrow> nat" where
  "monotonic_us t = min (t div 1000) u64_max"

definition pointer_batch ::
  "nat \<Rightarrow> u32 \<Rightarrow> pointer_event list \<Rightarrow> nat \<Rightarrow> 'p session \<Rightarrow> envelope \<times> 'p session" where
  "pointer_batch surface_id generation report monotonic s =
     (case take_counter (se_next_input_sequence s) of (sequence, next_sequence) \<Rightarrow>
        wrap_body (InputBatch
          \<lparr>ib_surface_id = surface_id, ib_generation = generation, ib_sequence = sequence,
           ib_monotonic_us = monotonic_us monotonic, ib_records = map pointer_record_of report,
           ib_presented_frame_id =
             (case se_surface s of None \<Rightarrow> 0 | Some a \<Rightarrow> dc_presented_frame_id (as_core a)),
           ib_ink_frozen = (case se_surface s of None \<Rightarrow> False | Some a \<Rightarrow> as_ink_frozen a)\<rparr>)
          (s\<lparr>se_next_input_sequence := next_sequence\<rparr>))"

section \<open>Settings and observers\<close>

definition set_freeze_on_pen_down :: "bool \<Rightarrow> 'p session \<Rightarrow> 'p session" where
  "set_freeze_on_pen_down enabled s = s\<lparr>se_freeze_on_pen_down := enabled\<rparr>"

definition set_automatic_idle_cleanup :: "bool \<Rightarrow> 'p session \<Rightarrow> 'p session" where
  "set_automatic_idle_cleanup enabled s = s\<lparr>se_automatic_idle_cleanup := enabled\<rparr>"

definition interaction_state_of :: "'p session \<Rightarrow> interaction_state" where
  "interaction_state_of s =
     \<lparr>in_last_input_at = se_last_interaction s, in_touch_active = has_active_contacts (se_gesture s),
      in_pen_in_proximity = se_pen_proximity s\<rparr>"

definition session_last_partial_at :: "'p session \<Rightarrow> nat option" where
  "session_last_partial_at s =
     (case se_surface s of None \<Rightarrow> None | Some a \<Rightarrow> dc_last_partial_at (as_core a))"

definition no_surface :: session_error where
  "no_surface = BadSurface ''no active surface''"

definition ink_snapshot_of :: "'p session \<Rightarrow> (session_error, ink_snapshot) result" where
  "ink_snapshot_of s =
     and_then (ok_or no_surface (se_surface s)) (\<lambda>a. Inr
       \<lparr>sn_surface_id = as_surface_id a, sn_generation = as_generation a,
        sn_presented_frame_id = dc_presented_frame_id (as_core a), sn_width = core_width (as_core a),
        sn_height = core_height (as_core a), sn_frozen = as_ink_frozen a,
        sn_bitmap = coverage_bitmap (dc_ink (as_core a))\<rparr>)"

definition set_local_ink :: "bool \<Rightarrow> nat \<Rightarrow> 'p session \<Rightarrow> ('p, unit) session_step" where
  "set_local_ink enabled now s =
     (if enabled \<and> \<not> se_pen_available s
      then (Inl (BadSurface ''local ink requires an available pen''), s)
      else case se_surface s of
        None \<Rightarrow> (Inl no_surface, s)
      | Some a \<Rightarrow>
          (Inr (), if as_local_ink a \<noteq> enabled
             then s\<lparr>se_surface := Some (rearm_ink now (a\<lparr>as_local_ink := enabled\<rparr>))\<rparr> else s))"

definition set_ink_paused :: "bool \<Rightarrow> nat \<Rightarrow> 'p session \<Rightarrow> ('p, unit) session_step" where
  "set_ink_paused paused now s =
     (case se_surface s of
        None \<Rightarrow> (Inl no_surface, s)
      | Some a \<Rightarrow>
          (Inr (), if as_ink_paused a \<noteq> paused
             then s\<lparr>se_surface := Some (rearm_ink now (a\<lparr>as_ink_paused := paused\<rparr>))\<rparr> else s))"

definition clear_ink :: "'p receiver_env \<Rightarrow> nat \<Rightarrow> 'p session \<Rightarrow> ('p, envelope list) session_step" where
  "clear_ink env now s =
     (case se_surface s of
        None \<Rightarrow> (Inl no_surface, s)
      | Some a \<Rightarrow>
          try_then (run_core (present_ink (re_backend env) now (clock_of env s))
              (rearm_ink now (a\<lparr>as_core := edit_ink overlay_clear (as_core a)\<rparr>)) s)
            ok_terminals)"

definition set_frame_frozen :: "bool \<Rightarrow> nat \<Rightarrow> 'p session \<Rightarrow> ('p, envelope list) session_step" where
  "set_frame_frozen frozen now s =
     (case se_surface s of
        None \<Rightarrow> (Inl no_surface, s)
      | Some a \<Rightarrow>
          if as_ink_frozen a = frozen then (Inr [], s)
          else if frozen \<and> dc_presented_frame_id (as_core a) = 0
          then (Inl (BadSurface ''no presented frame to freeze''), s)
          else
            let a1 = rearm_ink now (a\<lparr>as_ink_frozen := frozen\<rparr>);
                (terminal, core) = (if frozen then freeze_presented (as_core a1) else (None, as_core a1));
                s1 = s\<lparr>se_surface := Some (a1\<lparr>as_core := core\<rparr>)\<rparr>;
                (results, s2) = terminal_results (case terminal of None \<Rightarrow> [] | Some t \<Rightarrow> [t]) s1
            in if as_pen_forwarding a1
               then let (batch, s3) = pointer_batch (as_surface_id a1) (as_generation a1) [] now s2
                 in (Inr (results @ [batch]), s3)
               else (Inr results, s2))"

definition session_request_cleanup ::
  "'p receiver_env \<Rightarrow> nat \<Rightarrow> 'p session \<Rightarrow> ('p, cleanup_report \<times> envelope list) session_step" where
  "session_request_cleanup env now s =
     try_then
       (case se_surface s of
          Some a \<Rightarrow>
            try_then (run_core (request_cleanup (re_backend env) now (clock_of env s)) a s)
              (\<lambda>report s'. (Inr report, s'\<lparr>se_refresh_debt :=
                 (case se_surface s' of None \<Rightarrow> se_refresh_debt s' | Some a' \<Rightarrow> core_refresh_debt (as_core a'))\<rparr>))
        | None \<Rightarrow> (Inr idle_report, s))
       (\<lambda>report s'.
          (case terminal_results (report_terminals report)
              (s'\<lparr>se_cleanup_pending := report_cleanup_pending report\<rparr>) of
             (responses, s'') \<Rightarrow> (Inr (report, responses), s'')))"

definition set_pen_available :: "bool \<Rightarrow> 'p session \<Rightarrow> 'p session" where
  "set_pen_available available s =
     (if available then s\<lparr>se_pen_available := True\<rparr>
      else s\<lparr>se_pen_available := False, se_pen_proximity := False,
             se_surface := map_option (\<lambda>a. a\<lparr>as_pen_forwarding := False, as_pen_point := None\<rparr>)
               (se_surface s)\<rparr>)"

definition input_capabilities :: "bool \<Rightarrow> bool \<Rightarrow> int list" where
  "input_capabilities touch pen =
     (if touch then [capability_i32 CapTouch] else []) @ (if pen then [capability_i32 CapPen] else [])"

definition session_protocol_error ::
  "session_error \<Rightarrow> u32 \<Rightarrow> 'p session \<Rightarrow> envelope \<times> 'p session" where
  "session_protocol_error error related s =
     wrap_body (ErrorBody \<lparr>er_code = session_error_code error, er_fatal = True,
       er_related_message_id = related, er_message = session_error_text error\<rparr>) s"

definition current_cleanup_pending :: "'p session \<Rightarrow> bool" where
  "current_cleanup_pending s =
     (case se_surface s of None \<Rightarrow> se_cleanup_pending s | Some a \<Rightarrow> dc_force_cleanup_next (as_core a))"

definition current_refresh_state :: "'p session \<Rightarrow> refresh_state" where
  "current_refresh_state s =
     (case (case se_surface s of
          None \<Rightarrow> (rc_refresh_policy (se_config s), debt_partial_updates (se_refresh_debt s),
                   se_cleanup_pending s, 0)
        | Some a \<Rightarrow> (pol_config (dc_refresh_policy (as_core a)),
                   presented_since_cleanup (dc_refresh_policy (as_core a)),
                   dc_force_cleanup_next (as_core a), dc_fast_updates_since_settled (as_core a))) of
        (config, presented, cleanup, fast) \<Rightarrow>
          \<lparr>rs_partial_refresh_enabled = partial_refresh_enabled config,
           rs_cleanup_after_updates = cleanup_after_updates config,
           rs_large_update_threshold_percent = large_update_threshold_percent config,
           rs_presented_since_full_refresh = presented, rs_cleanup_pending = cleanup,
           rs_static_cleanup_after_fast_updates = static_cleanup_after_fast_updates config,
           rs_fast_updates_since_settled = fast\<rparr>)"

end
