(* ===== verification/Session_Display.thy ===== *)
theory Session_Display
  imports Session_State
begin

text \<open>
  The handlers of \<open>session.rs\<close> for the messages of the producer: the handshake, opening and
  closing a surface, frames, overlay updates, and the refresh controls; and the menu's rendering,
  which presents the overlay of the display core or of the fallback image.
\<close>

section \<open>Handshake\<close>

definition max_minor :: nat where "max_minor = 3"

definition mandatory_features :: "int list" where
  "mandatory_features =
     map feature_i32 [AtomicMultiRegion, ExactBaseDelta, LatestSupersede, SettledBarrierFeature]"

definition has_feature :: "client_hello \<Rightarrow> protocol_feature \<Rightarrow> bool" where
  "has_feature hello f \<longleftrightarrow> feature_i32 f \<in> set (ch_features hello)"

definition validate_hello :: "client_hello \<Rightarrow> receiver_config \<Rightarrow> (session_error, unit) result" where
  "validate_hello hello config =
     (if ch_min_minor hello > ch_max_minor hello \<or> ch_min_minor hello > max_minor then Inl NoCommonVersion
      else if length (ch_client_id hello) \<noteq> 16 \<or> length (ch_token hello) \<noteq> 32 \<or>
        length (ch_client_nonce hello) \<noteq> 16
      then Inl (BadHello ''invalid client id, token, or nonce length'')
      else if ch_producer_kind hello = 0 \<or> \<not> producer_kind_known (ch_producer_kind hello)
      then Inl (BadHello ''producer kind is unspecified'')
      else if \<not> list_all (\<lambda>f. f \<in> set (ch_features hello)) mandatory_features \<or>
        pixel_format_i32 Gray8 \<notin> set (ch_pixel_formats hello) \<or>
        encoding_i32 Raw \<notin> set (ch_encodings hello)
      then Inl MissingCapability
      else if \<not> rc_verify_token config (ch_client_id hello) (ch_token hello) then Inl Authentication
      else Inr ())"

definition select_minor :: "client_hello \<Rightarrow> (session_error, nat) result" where
  "select_minor hello =
     (if ch_max_minor hello \<ge> 3 \<and> ch_min_minor hello \<le> 3 \<and>
        list_all (has_feature hello) [ByteCredits, EpaperCustomProfile, RemoteOverlay]
      then Inr 3
      else if ch_max_minor hello \<ge> 2 \<and> ch_min_minor hello \<le> 2 \<and> has_feature hello ByteCredits \<and>
        has_feature hello EpaperCustomProfile
      then Inr 2
      else if ch_max_minor hello \<ge> 1 \<and> ch_min_minor hello \<le> 1 \<and> has_feature hello ByteCredits
      then Inr 1
      else if ch_min_minor hello = 0 then Inr 0
      else Inl MissingCapability)"

text \<open>The assignments of \<open>accept_hello\<close>, in order.\<close>

definition negotiate :: "panel_info \<Rightarrow> client_hello \<Rightarrow> nat \<Rightarrow> 'p session \<Rightarrow> 'p session" where
  "negotiate info hello minor s =
     (let remote = (minor \<ge> 3 \<and> has_feature hello RemoteOverlay);
          profile = has_feature hello EpaperProfileControl
      in s\<lparr>se_selected_minor := minor,
           se_remote_overlay := remote,
           se_local_ink_control := (remote \<and> se_pen_available s \<and> has_feature hello LocalInk),
           se_pointer_input := ((rc_input_device (se_config s) \<noteq> None \<or> se_pen_available s) \<and>
             has_feature hello PointerInput),
           se_byte_credits := (minor \<ge> 1),
           se_profile_control := profile,
           se_custom_profile_control := (minor \<ge> 2 \<and> profile \<and> has_feature hello EpaperCustomProfile),
           se_refresh_control := has_feature hello EpaperRefreshControl,
           se_color_rgb565 := (minor \<ge> 1 \<and> color_rgb565 info \<and> has_feature hello ColorRgb565 \<and>
             pixel_format_i32 Rgb565Le \<in> set (ch_pixel_formats hello)),
           se_encodings := filter (\<lambda>e. e \<in> set (ch_encodings hello)) (map encoding_i32 [Raw, Zstd, Zlib]),
           se_established := True\<rparr>)"

definition server_features :: "'p session \<Rightarrow> int list" where
  "server_features s = mandatory_features @ map feature_i32
     ((if se_remote_overlay s then [RemoteOverlay] else []) @
      (if se_local_ink_control s then [LocalInk] else []) @
      (if se_pointer_input s then [PointerInput] else []) @
      (if se_profile_control s then [EpaperProfileControl] else []) @
      (if se_custom_profile_control s then [EpaperCustomProfile] else []) @
      (if se_refresh_control s then [EpaperRefreshControl] else []) @
      (if se_byte_credits s then [ByteCredits] else []) @
      (if se_color_rgb565 s then [ColorRgb565] else []))"

definition accept_hello ::
  "'p receiver_env \<Rightarrow> client_hello \<Rightarrow> 'p session \<Rightarrow> ('p, envelope) session_step" where
  "accept_hello env hello s =
     (case validate_hello hello (se_config s) of
        Inl e \<Rightarrow> (Inl e, s)
      | Inr _ \<Rightarrow>
          (case select_minor hello of
             Inl e \<Rightarrow> (Inl e, s)
           | Inr minor \<Rightarrow>
               let info = panel_info_of (re_backend env) (se_panel s);
                   s1 = negotiate info hello minor s;
                   formats = [pixel_format_i32 Gray8] @
                     (if se_color_rgb565 s1 then [pixel_format_i32 Rgb565Le] else []);
                   reply = \<lparr>sh_selected_minor = se_selected_minor s1, sh_features = server_features s1,
                     sh_server_id = rc_server_id (se_config s1),
                     sh_display = Some \<lparr>di_width = info_width info, di_height = info_height info,
                       di_orientation = orientation_current, di_pixel_formats = formats,
                       di_encodings = se_encodings s1,
                       di_input_capabilities = input_capabilities
                         (rc_input_device (se_config s1) \<noteq> None) (se_pen_available s1)\<rparr>,
                     sh_limits = Some (protocol_limits s1), sh_name = rc_name (se_config s1)\<rparr>;
                   (reply_env, s2) = wrap_body (ServerHello reply) s1
               in (Inr reply_env, s2)))"

section \<open>Surfaces\<close>

definition touch_accepted :: "surface_open \<Rightarrow> 'p session \<Rightarrow> bool" where
  "touch_accepted open s \<longleftrightarrow> se_pointer_input s \<and> rc_input_device (se_config s) \<noteq> None \<and>
     capability_i32 CapTouch \<in> set (so_input_capabilities open)"

definition pen_accepted :: "surface_open \<Rightarrow> 'p session \<Rightarrow> bool" where
  "pen_accepted open s \<longleftrightarrow> se_pointer_input s \<and> se_pen_available s \<and>
     capability_i32 CapPen \<in> set (so_input_capabilities open)"

definition check_open :: "surface_open \<Rightarrow> 'p session \<Rightarrow> (session_error, pixel_format) result" where
  "check_open open s =
     (if so_surface_id open = 0 then Inl (BadSurface ''surface_id must be nonzero'')
      else case pixel_format_of_i32 (so_pixel_format open) of
        None \<Rightarrow> Inl (BadSurface ''unknown pixel format'')
      | Some format \<Rightarrow>
          if format \<noteq> Gray8 \<and> \<not> (format = Rgb565Le \<and> se_color_rgb565 s)
          then Inl (BadSurface ''pixel format was not negotiated'')
          else if \<not> source_kind_known (so_source_kind open)
          then Inl (BadSurface ''unknown source kind'')
          else Inr format)"

definition carried_cleanup :: "'p session \<Rightarrow> bool" where
  "carried_cleanup s = (se_cleanup_pending s \<or>
     (case se_surface s of None \<Rightarrow> False | Some a \<Rightarrow> dc_force_cleanup_next (as_core a)))"

definition carried_debt :: "'p session \<Rightarrow> refresh_debt" where
  "carried_debt s = (case se_surface s of None \<Rightarrow> se_refresh_debt s | Some a \<Rightarrow> core_refresh_debt (as_core a))"

text \<open>The new display core, with the cleanup and the refresh debt of the session carried over.\<close>

definition new_core ::
  "panel_info \<Rightarrow> pixel_format \<Rightarrow> 'p session \<Rightarrow> (core_error, display_core) result" where
  "new_core info format s =
     and_then (core_new_with_format (info_width info) (info_height info) format
        (rl_max_fps_x100 (rc_limits (se_config s)))
        (rl_settled_deadline_ms (rc_limits (se_config s)) * 1000000)
        (rc_refresh_policy (se_config s)))
     (\<lambda>core0.
        let core1 = set_ink_waveform (rc_ink_waveform (se_config s)) core0;
            core2 = (if carried_cleanup s then require_cleanup core1 else core1)
        in case restore_refresh_debt (carried_debt s) core2 of
             (Inl e, _) \<Rightarrow> Inl e
           | (Inr _, core) \<Rightarrow> Inr core)"

text \<open>Cancelling what the old surface still owes.\<close>

definition cancel_surface :: "'p session \<Rightarrow> terminal_frame list \<times> 'p session" where
  "cancel_surface s =
     (case se_surface s of
        None \<Rightarrow> ([], s)
      | Some a \<Rightarrow> (case cancel_pending (as_core a) of (t, c) \<Rightarrow>
          (case t of None \<Rightarrow> [] | Some t \<Rightarrow> [t], s\<lparr>se_surface := Some (a\<lparr>as_core := c\<rparr>)\<rparr>)))"

definition leave_surface :: "'p session \<Rightarrow> 'p session" where
  "leave_surface s = s\<lparr>se_gesture := snd (surface_transition (se_gesture s)), se_menu := menu_close (se_menu s)\<rparr>"

definition new_surface :: "surface_open \<Rightarrow> u32 \<Rightarrow> display_core \<Rightarrow> 'p session \<Rightarrow> active_surface" where
  "new_surface open generation core s =
     \<lparr>as_surface_id = so_surface_id open, as_generation = generation,
      as_touch_forwarding = touch_accepted open s, as_pen_forwarding = pen_accepted open s,
      as_local_ink = False, as_ink_frozen = False, as_pen_point = None,
      as_last_pen = None, as_pen_needs_down = True, as_ink_paused = False,
      as_ink_needs_down = True, as_ink_not_before = se_input_not_before s, as_core = core\<rparr>"

definition open_surface ::
  "'p receiver_env \<Rightarrow> surface_open \<Rightarrow> 'p session \<Rightarrow> ('p, envelope list) session_step" where
  "open_surface env open s0 =
     (case check_open open s0 of
        Inl e \<Rightarrow> (Inl e, s0)
      | Inr format \<Rightarrow>
          let info = panel_info_of (re_backend env) (se_panel s0);
              (generation, next_generation) = take_counter (se_next_generation s0);
              s = s0\<lparr>se_next_generation := next_generation\<rparr>
          in case new_core info format s of
               Inl e \<Rightarrow> (Inl (SessionCore e), s)
             | Inr core \<Rightarrow>
                 let (cancelled, s2) = cancel_surface
                       (s\<lparr>se_cleanup_pending := carried_cleanup s, se_refresh_debt := carried_debt s\<rparr>);
                     (results, s3) = terminal_results cancelled s2;
                     s4 = leave_surface s3;
                     surface = new_surface open generation core s4;
                     s5 = s4\<lparr>se_surface := Some surface\<rparr>;
                     (ready, s6) = wrap_body (SurfaceReady
                       \<lparr>sr_surface_id = so_surface_id open, sr_generation = generation,
                        sr_width = info_width info, sr_height = info_height info,
                        sr_pixel_format = pixel_format_i32 format,
                        sr_orientation = orientation_current, sr_source_kind = so_source_kind open,
                        sr_input_capabilities =
                          input_capabilities (as_touch_forwarding surface) (as_pen_forwarding surface),
                        sr_action_capabilities = [], sr_limits = Some (protocol_limits s5)\<rparr>) s5
                 in (Inr (results @ [ready]), s6))"

definition is_surface :: "nat \<Rightarrow> u32 \<Rightarrow> 'p session \<Rightarrow> bool" where
  "is_surface surface_id generation s =
     (case se_surface s of None \<Rightarrow> False
      | Some a \<Rightarrow> as_surface_id a = surface_id \<and> as_generation a = generation)"

definition close_surface :: "nat \<Rightarrow> u32 \<Rightarrow> 'p session \<Rightarrow> envelope list \<times> 'p session" where
  "close_surface surface_id generation s =
     (if \<not> is_surface surface_id generation s then ([], s)
      else
        let (cancelled, s1) = cancel_surface s;
            s2 = s1\<lparr>se_cleanup_pending :=
                  (case se_surface s1 of None \<Rightarrow> False | Some a \<Rightarrow> dc_force_cleanup_next (as_core a)),
                se_refresh_debt :=
                  (case se_surface s1 of None \<Rightarrow> se_refresh_debt s1 | Some a \<Rightarrow> core_refresh_debt (as_core a))\<rparr>;
            (results, s3) = terminal_results cancelled s2
        in (results, (leave_surface s3)\<lparr>se_surface := None\<rparr>))"

section \<open>Frames\<close>

fun decoded_cost :: "frame_region list \<Rightarrow> nat \<Rightarrow> nat option" where
  "decoded_cost [] cost = Some cost"
| "decoded_cost (r # rs) cost =
     (case checked_add_u64 cost (decoded_len r) of None \<Rightarrow> None | Some c \<Rightarrow> decoded_cost rs c)"

definition reject_frame ::
  "frame \<Rightarrow> frame_result_code \<Rightarrow> frame_result_reason \<Rightarrow> 'p session \<Rightarrow> envelope list \<times> 'p session" where
  "reject_frame fr code reason s =
     (case immediate_frame_result fr code reason s of (e, s') \<Rightarrow> ([e], s'))"

definition semantic_surface :: "receiver_config \<Rightarrow> active_surface \<Rightarrow> surface_state" where
  "semantic_surface config a =
     \<lparr>st_surface_id = as_surface_id a, st_generation = unat (as_generation a),
      st_width = core_width (as_core a), st_height = core_height (as_core a),
      st_pixel_format = ps_format (dc_base (as_core a)),
      st_logical_frame_id = dc_logical_frame_id (as_core a),
      st_max_regions = rl_max_regions (rc_limits config),
      st_max_frame_bytes = rl_max_frame_bytes (rc_limits config)\<rparr>"

definition content_class_for :: "int \<Rightarrow> content_class" where
  "content_class_for value =
     (case content_class_of_i32 value of
        None \<Rightarrow> Mixed
      | Some c \<Rightarrow> if c = ClassUnspecified then Mixed else c)"

definition commit_frame ::
  "'p receiver_env \<Rightarrow> frame \<Rightarrow> nat \<Rightarrow> active_surface \<Rightarrow> 'p session \<Rightarrow> envelope list \<times> 'p session" where
  "commit_frame env fr now a s =
     (case validate_and_decode_frame (re_decoders env) fr (semantic_surface (se_config s) a) of
        Inl error \<Rightarrow> (case semantic_result error of (code, reason) \<Rightarrow> reject_frame fr code reason s)
      | Inr validated \<Rightarrow>
          (case commit_timed validated (content_class_for (frame_content_class fr)) now
              (duration_us (re_validation_time env (se_panel s))) (clock_of env s) (as_core a) of
             (r, core) \<Rightarrow>
               let s1 = s\<lparr>se_surface := Some (a\<lparr>as_core := core\<rparr>)\<rparr> in
               case r of
                 Inl NeedKeyframe \<Rightarrow> reject_frame fr CodeNeedKeyframe WhyBadBase s1
               | Inl SettledBarrier \<Rightarrow> reject_frame fr CodeRejected WhyProtocolState s1
               | Inl _ \<Rightarrow> reject_frame fr CodeRejected WhyBadRegion s1
               | Inr report \<Rightarrow>
                   terminal_results (case report_superseded report of None \<Rightarrow> [] | Some t \<Rightarrow> [t]) s1))"

definition accept_frame ::
  "'p receiver_env \<Rightarrow> frame \<Rightarrow> nat \<Rightarrow> 'p session \<Rightarrow> envelope list \<times> 'p session" where
  "accept_frame env fr now s =
     (if (case se_surface s of None \<Rightarrow> False | Some a \<Rightarrow> as_ink_frozen a)
      then reject_frame fr CodeRejected WhyInkFrozen s
      else if list_ex (\<lambda>region. region_encoding region \<notin> set (se_encodings s)) (frame_regions fr)
      then reject_frame fr CodeRejected WhyUnsupported s
      else if credits s = 0 then reject_frame fr CodeRejected WhyNoCredit s
      else case decoded_cost (frame_regions fr) 0 of
        None \<Rightarrow> reject_frame fr CodeRejected WhyBadLength s
      | Some cost \<Rightarrow>
          if se_byte_credits s \<and> cost > byte_credits s then reject_frame fr CodeRejected WhyNoCredit s
          else case se_surface s of
            None \<Rightarrow> reject_frame fr CodeRejected WhyProtocolState s
          | Some a \<Rightarrow> commit_frame env fr now a s)"

section \<open>Overlay updates\<close>

definition overlay_rect_valid :: "overlay_update \<Rightarrow> nat \<Rightarrow> nat \<Rightarrow> bool" where
  "overlay_rect_valid update width height =
     (case ou_rect update of
        None \<Rightarrow> False
      | Some r \<Rightarrow> rect_w r > 0 \<and> rect_h r > 0 \<and>
          (case checked_add_u32 (rect_x r) (rect_w r) of None \<Rightarrow> False | Some x \<Rightarrow> x \<le> width) \<and>
          (case checked_add_u32 (rect_y r) (rect_h r) of None \<Rightarrow> False | Some y \<Rightarrow> y \<le> height) \<and>
          rect_w r * rect_h r = length (ou_luma update) \<and>
          length (ou_luma update) = length (ou_alpha update))"

text \<open>The changes of an accepted update before it is presented; a failed patch returns early.\<close>

definition overlay_edit ::
  "overlay_update \<Rightarrow> nat \<Rightarrow> active_surface \<Rightarrow> (surface_error, unit) result \<times> active_surface" where
  "overlay_edit update now a0 =
     (let a1 = (if ou_clear update \<or> ou_local_ink update \<noteq> None then rearm_ink now a0 else a0);
          a2 = (if ou_clear update
                then a1\<lparr>as_core := edit_ink overlay_clear (edit_peer_overlay overlay_clear (as_core a1)),
                        as_pen_point := None\<rparr>
                else a1);
          (patched, a3) = (case ou_rect update of
              None \<Rightarrow> (Inr (), a2)
            | Some r \<Rightarrow>
                (case overlay_patch (dc_peer_overlay (as_core a2)) (core_width (as_core a2)) r
                    (ou_luma update) (ou_alpha update) of
                   (res, ov) \<Rightarrow> (res, a2\<lparr>as_core := edit_peer_overlay (\<lambda>_. ov) (as_core a2)\<rparr>)))
      in case patched of
           Inl e \<Rightarrow> (Inl e, a3)
         | Inr _ \<Rightarrow>
             (Inr (),
              case ou_local_ink update of
                None \<Rightarrow> a3
              | Some True \<Rightarrow> a3\<lparr>as_local_ink := True\<rparr>
              | Some False \<Rightarrow> a3\<lparr>as_local_ink := False, as_ink_frozen := False, as_pen_point := None,
                  as_core := edit_ink overlay_clear (as_core a3)\<rparr>))"

definition overlay_problem :: "overlay_update \<Rightarrow> bool \<Rightarrow> 'p session \<Rightarrow> string option" where
  "overlay_problem update valid_sequence s =
     (if \<not> se_remote_overlay s then Some ''remote overlay was not negotiated''
      else if \<not> valid_sequence then Some ''overlay sequence must increase''
      else if ou_local_ink update \<noteq> None \<and> \<not> se_local_ink_control s
      then Some ''local ink was not negotiated''
      else case se_surface s of
        None \<Rightarrow> Some ''no active surface''
      | Some a \<Rightarrow>
          if as_surface_id a \<noteq> ou_surface_id update \<or> as_generation a \<noteq> ou_generation update
          then Some ''wrong surface or generation''
          else if min (length (ou_luma update) + length (ou_alpha update)) u64_max >
            rl_max_frame_bytes (rc_limits (se_config s))
          then Some ''overlay exceeds decoded byte limit''
          else if \<not> (overlay_rect_valid update (core_width (as_core a)) (core_height (as_core a)) \<or>
            ou_rect update = None \<and> ou_luma update = [] \<and> ou_alpha update = [] \<and>
            (ou_clear update \<or> ou_local_ink update \<noteq> None))
          then Some ''invalid overlay rectangle or payload''
          else None)"

text \<open>Whether the checks got as far as reading the surface, whose state is then in the result.\<close>

definition overlay_saw_surface :: "overlay_update \<Rightarrow> bool \<Rightarrow> 'p session \<Rightarrow> bool" where
  "overlay_saw_surface update valid_sequence s \<longleftrightarrow>
     se_remote_overlay s \<and> valid_sequence \<and>
     \<not> (ou_local_ink update \<noteq> None \<and> \<not> se_local_ink_control s) \<and> se_surface s \<noteq> None"

definition overlay_result_body ::
  "overlay_update \<Rightarrow> bool \<Rightarrow> bool \<Rightarrow> string \<Rightarrow> 'p session \<Rightarrow> body" where
  "overlay_result_body update saw_surface applied message s =
     OverlayResult \<lparr>or_surface_id = ou_surface_id update, or_generation = ou_generation update,
       or_sequence = ou_sequence update, or_applied = applied, or_message = message,
       or_presented_frame_id = (if saw_surface
         then (case se_surface s of None \<Rightarrow> 0 | Some a \<Rightarrow> dc_presented_frame_id (as_core a)) else 0),
       or_ink_frozen = (if saw_surface
         then (case se_surface s of None \<Rightarrow> False | Some a \<Rightarrow> as_ink_frozen a) else False)\<rparr>"

definition answer_overlay ::
  "'p receiver_env \<Rightarrow> overlay_update \<Rightarrow> bool \<Rightarrow> nat \<Rightarrow> 'p session \<Rightarrow> ('p, envelope list) session_step" where
  "answer_overlay env update valid_sequence now s =
     (let saw = overlay_saw_surface update valid_sequence s in
      case overlay_problem update valid_sequence s of
        Some problem \<Rightarrow>
          (case wrap_body (overlay_result_body update saw False problem s) s of (e, s') \<Rightarrow> (Inr [e], s'))
      | None \<Rightarrow>
          (case se_surface s of
             None \<Rightarrow> (Inr [], s)
           | Some a \<Rightarrow>
               (case overlay_edit update now a of
                  (Inl e, a') \<Rightarrow> (Inl (SessionSurface e), s\<lparr>se_surface := Some a'\<rparr>)
                | (Inr _, a') \<Rightarrow>
                    try_then (run_core (present_overlay (re_backend env) now (clock_of env s)) a' s)
                      (\<lambda>terminals s1.
                         (case terminal_results terminals s1 of (results, s2) \<Rightarrow>
                            (case wrap_body (overlay_result_body update saw True [] s1) s2 of (e, s3) \<Rightarrow>
                               (Inr (results @ [e]), s3)))))))"

definition handle_overlay_update ::
  "'p receiver_env \<Rightarrow> overlay_update \<Rightarrow> nat \<Rightarrow> 'p session \<Rightarrow> ('p, envelope list) session_step" where
  "handle_overlay_update env update now s =
     (let valid_sequence = (ou_sequence update \<noteq> 0 \<and> ou_sequence update > se_overlay_sequence s)
      in answer_overlay env update valid_sequence now
           (if valid_sequence then s\<lparr>se_overlay_sequence := ou_sequence update\<rparr> else s))"

section \<open>The menu on the panel\<close>

definition fallback_decision :: "bool \<Rightarrow> refresh_decision" where
  "fallback_decision complete =
     \<lparr>dec_waveform = (if complete then FullQuality else QualityWf), complete_refresh = complete,
      dec_reason = (if complete then Forced else ReasonNone)\<rparr>"

definition menu_panic :: session_error where
  "menu_panic = Panicked ''local menu planes match overlay geometry''"

definition present_fallback ::
  "'p receiver_env \<Rightarrow> bool \<Rightarrow> 'p session \<Rightarrow> ('p, unit) session_step" where
  "present_fallback env complete s =
     (case se_fallback s of
        None \<Rightarrow> (Inr (), s)
      | Some fb \<Rightarrow>
          let width = ps_width (fb_base fb); height = ps_height (fb_base fb);
              policy = rc_refresh_policy (se_config s)
          in case menu_render width height (cfg_profile policy) (partial_refresh_enabled policy)
                (se_last_custom s \<noteq> None) (fb_overlay fb) (se_menu s) of
               None \<Rightarrow> (Inl menu_panic, s)
             | Some (overlay, menu) \<Rightarrow>
                 let s1 = s\<lparr>se_menu := menu, se_fallback := Some (fb\<lparr>fb_overlay := overlay\<rparr>)\<rparr>
                 in case compose (fb_base fb) overlay of
                      Inl e \<Rightarrow> (Inl (SessionSurface e), s1)
                    | Inr composed \<Rightarrow>
                        let damage = mk_rect 0 0 width
                              (if complete then height else damage_height height)
                        in case panel_submit (re_backend env) (se_panel s1) composed [damage]
                              (fallback_decision complete) of
                             (Inl e, p) \<Rightarrow> (Inl (SessionPanel e), s1\<lparr>se_panel := p\<rparr>)
                           | (Inr _, p) \<Rightarrow> (Inr (), s1\<lparr>se_panel := p\<rparr>))"

definition sync_refresh :: "'p session \<Rightarrow> 'p session" where
  "sync_refresh s =
     (case se_surface s of
        None \<Rightarrow> s
      | Some a \<Rightarrow> s\<lparr>se_cleanup_pending := dc_force_cleanup_next (as_core a),
                    se_refresh_debt := core_refresh_debt (as_core a)\<rparr>)"

definition render_local_menu ::
  "'p receiver_env \<Rightarrow> nat \<Rightarrow> 'p session \<Rightarrow> ('p, envelope list) session_step" where
  "render_local_menu env now s =
     (case se_surface s of
        Some a \<Rightarrow>
          let policy = rc_refresh_policy (se_config s) in
          (case menu_render (core_width (as_core a)) (core_height (as_core a)) (cfg_profile policy)
              (partial_refresh_enabled policy) (se_last_custom s \<noteq> None) (dc_overlay (as_core a)) (se_menu s) of
             None \<Rightarrow> (Inl menu_panic, s)
           | Some (overlay, menu) \<Rightarrow>
               try_then (run_core (present_overlay (re_backend env) now (clock_of env s))
                   (a\<lparr>as_core := edit_overlay (\<lambda>_. overlay) (as_core a)\<rparr>) (s\<lparr>se_menu := menu\<rparr>))
                 (\<lambda>terminals s1. ok_terminals terminals (sync_refresh s1)))
      | None \<Rightarrow> try_then (present_fallback env False s) (\<lambda>_ s1. (Inr [], s1)))"

definition local_cleanup ::
  "'p receiver_env \<Rightarrow> nat \<Rightarrow> 'p session \<Rightarrow> ('p, envelope list) session_step" where
  "local_cleanup env now s =
     (if se_surface s = None then try_then (present_fallback env True s) (\<lambda>_ s1. (Inr [], s1))
      else try_then (session_request_cleanup env now s) (\<lambda>(_, responses) s1. (Inr responses, s1)))"

definition close_local_menu ::
  "'p receiver_env \<Rightarrow> nat \<Rightarrow> 'p session \<Rightarrow> ('p, envelope list) session_step" where
  "close_local_menu env now s =
     (if \<not> menu_visible (se_menu s) then (Inr [], s)
      else render_local_menu env now (s\<lparr>se_menu := menu_close (se_menu s)\<rparr>))"

end
