(* ===== verification/Session_Control.thy ===== *)
theory Session_Control
  imports Session_Display
begin

text \<open>
  Refresh control of a session in \<open>session.rs\<close>: the profile and refresh requests of the
  producer and the actions of the receiver's own menu.
\<close>

section \<open>Profile requests\<close>

definition profile_result_env ::
  "profile_request \<Rightarrow> profile_result_code \<Rightarrow> refresh_config \<Rightarrow> bool \<Rightarrow> bool \<Rightarrow> string \<Rightarrow>
   'p session \<Rightarrow> envelope \<times> 'p session" where
  "profile_result_env request code active performed pending message s =
     wrap_body (EpaperProfileResult
       \<lparr>pt_request_id = pq_request_id request, pt_operation = pq_operation request,
        pt_requested_profile = pq_requested_profile request, pt_result = profile_result_code_i32 code,
        pt_active = Some (profile_state_of active), pt_cleanup_performed = performed,
        pt_cleanup_pending = pending, pt_message = message\<rparr>) s"

text \<open>Every early return of the handler answers with the policy that stays active.\<close>

definition profile_reply ::
  "profile_request \<Rightarrow> profile_result_code \<Rightarrow> string \<Rightarrow> 'p session \<Rightarrow> ('p, envelope list) session_step" where
  "profile_reply request code message s =
     (case profile_result_env request code (rc_refresh_policy (se_config s)) False
         (current_cleanup_pending s) message s of
        (e, s') \<Rightarrow> (Inr [e], s'))"

definition requested_policy ::
  "profile_request \<Rightarrow> 'p session \<Rightarrow> (profile_result_code \<times> string, refresh_config) result" where
  "requested_policy request s =
     (case epaper_profile_of_i32 (pq_requested_profile request) of
        None \<Rightarrow> Inl (ProfileRejected, ''requested profile is invalid'')
      | Some EpCustom \<Rightarrow>
          (if \<not> se_custom_profile_control s
           then Inl (ProfileUnsupported, ''CUSTOM requires protocol v2.2 and EPAPER_CUSTOM_PROFILE'')
           else case pq_custom request of
             None \<Rightarrow> Inl (ProfileRejected, ''CUSTOM requires a complete custom configuration'')
           | Some custom \<Rightarrow>
               (case custom_profile_config custom of
                  Inl message \<Rightarrow> Inl (ProfileRejected, message)
                | Inr config \<Rightarrow> Inr config))
      | Some _ \<Rightarrow>
          (if pq_custom request \<noteq> None
           then Inl (ProfileRejected, ''custom configuration is valid only with CUSTOM'')
           else case protocol_profile (pq_requested_profile request) of
             None \<Rightarrow> Inl (ProfileRejected, ''requested profile is invalid'')
           | Some profile \<Rightarrow> Inr (switched_to (rc_refresh_policy (se_config s)) profile)))"

definition set_policy :: "refresh_config \<Rightarrow> 'p session \<Rightarrow> 'p session" where
  "set_policy config s = s\<lparr>se_config := (se_config s)\<lparr>rc_refresh_policy := config\<rparr>\<rparr>"

definition profile_message :: "bool \<Rightarrow> bool \<Rightarrow> bool \<Rightarrow> bool \<Rightarrow> string" where
  "profile_message backend_failed performed pending changed =
     (if backend_failed then ''policy applied; cleanup failed and remains pending''
      else if performed then ''policy applied and full-panel cleanup completed''
      else if pending then ''policy applied; cleanup is armed for the next presentation''
      else if changed then ''policy applied''
      else ''requested policy is already active'')"

text \<open>The application of an accepted policy and the reply to the request.\<close>

definition apply_profile ::
  "'p receiver_env \<Rightarrow> profile_request \<Rightarrow> refresh_config \<Rightarrow> nat \<Rightarrow> 'p session \<Rightarrow>
   ('p, envelope list) session_step" where
  "apply_profile env request next_policy now s0 =
     (let current = rc_refresh_policy (se_config s0);
          s1 = (if cfg_profile next_policy = Custom then s0\<lparr>se_last_custom := Some next_policy\<rparr> else s0);
          s = set_policy next_policy s1
      in try_then
        (case se_surface s of
           Some a \<Rightarrow> run_core (change_refresh_profile (re_backend env) next_policy now (clock_of env s)) a s
         | None \<Rightarrow>
             let changed = (next_policy \<noteq> current);
                 s2 = s\<lparr>se_cleanup_pending := (se_cleanup_pending s \<or> changed)\<rparr>
             in (Inr \<lparr>change_config = next_policy, change_changed = changed,
                   change_cleanup_performed = False, change_cleanup_pending = se_cleanup_pending s2,
                   change_backend_failed = False, change_terminals = []\<rparr>, s2))
        (\<lambda>report s3.
           (case terminal_results (change_terminals report)
               (s3\<lparr>se_cleanup_pending := change_cleanup_pending report\<rparr>) of
              (results, s4) \<Rightarrow>
                (case profile_result_env request
                    (if change_changed report then ProfileApplied else ProfileUnchanged) next_policy
                    (change_cleanup_performed report) (change_cleanup_pending report)
                    (profile_message (change_backend_failed report) (change_cleanup_performed report)
                      (change_cleanup_pending report) (change_changed report)) s4 of
                   (e, s5) \<Rightarrow> (Inr (results @ [e]), s5)))))"

definition handle_epaper_profile ::
  "'p receiver_env \<Rightarrow> profile_request \<Rightarrow> nat \<Rightarrow> 'p session \<Rightarrow> ('p, envelope list) session_step" where
  "handle_epaper_profile env request now s0 =
     (if \<not> se_profile_control s0
      then profile_reply request ProfileUnsupported ''EPAPER_PROFILE_CONTROL was not negotiated'' s0
      else if pq_request_id request = 0 \<or> pq_request_id request \<le> se_last_profile_request s0
      then profile_reply request ProfileRejected ''request_id must be nonzero and strictly increasing'' s0
      else
        let s = s0\<lparr>se_last_profile_request := pq_request_id request\<rparr>;
            operation = profile_operation_of_i32 (pq_operation request)
        in if operation = Some ProfileQuery \<and>
              pq_requested_profile request = epaper_profile_i32 EpUnspecified \<and> pq_custom request = None
           then profile_reply request ProfileUnchanged ''active receiver refresh policy'' s
           else if operation \<noteq> Some ProfileSet
           then profile_reply request ProfileRejected ''operation/profile combination is invalid'' s
           else case requested_policy request s of
             Inl (code, message) \<Rightarrow> profile_reply request code message s
           | Inr next_policy \<Rightarrow> apply_profile env request next_policy now s)"

section \<open>Refresh requests\<close>

definition refresh_reply ::
  "refresh_request_msg \<Rightarrow> refresh_result_code \<Rightarrow> bool \<Rightarrow> string \<Rightarrow> 'p session \<Rightarrow> envelope \<times> 'p session" where
  "refresh_reply request code performed message s =
     wrap_body (EpaperRefreshResult
       \<lparr>rt_request_id = rq_request_id request, rt_operation = rq_operation request,
        rt_result = refresh_result_code_i32 code, rt_active = Some (current_refresh_state s),
        rt_cleanup_performed = performed, rt_message = message\<rparr>) s"

definition refresh_reply_ok ::
  "refresh_request_msg \<Rightarrow> refresh_result_code \<Rightarrow> string \<Rightarrow> 'p session \<Rightarrow> ('p, envelope list) session_step" where
  "refresh_reply_ok request code message s =
     (case refresh_reply request code False message s of (e, s') \<Rightarrow> (Inr [e], s'))"

definition has_parameters :: "refresh_request_msg \<Rightarrow> bool" where
  "has_parameters request \<longleftrightarrow>
     rq_partial_refresh_enabled request \<noteq> None \<or> rq_cleanup_after_updates request \<noteq> None \<or>
     rq_large_update_threshold_percent request \<noteq> None \<or>
     rq_static_cleanup_after_fast_updates request \<noteq> None"

text \<open>\<open>percent as u8\<close> follows the check that it is at most 100.\<close>

definition updated_policy :: "refresh_request_msg \<Rightarrow> refresh_config \<Rightarrow> refresh_config" where
  "updated_policy request c =
     (let c1 = (case rq_partial_refresh_enabled request of None \<Rightarrow> c
          | Some enabled \<Rightarrow> c\<lparr>partial_refresh_enabled := enabled\<rparr>);
          c2 = (case rq_cleanup_after_updates request of None \<Rightarrow> c1
          | Some interval \<Rightarrow> c1\<lparr>cleanup_after_updates := interval\<rparr>);
          c3 = (case rq_large_update_threshold_percent request of None \<Rightarrow> c2
          | Some percent \<Rightarrow> c2\<lparr>large_update_threshold_percent := percent mod 2 ^ 8\<rparr>)
      in case rq_static_cleanup_after_fast_updates request of None \<Rightarrow> c3
         | Some count \<Rightarrow> c3\<lparr>static_cleanup_after_fast_updates := count\<rparr>)"

definition update_refresh ::
  "refresh_request_msg \<Rightarrow> 'p session \<Rightarrow> ('p, envelope list) session_step" where
  "update_refresh request s =
     (if (case rq_large_update_threshold_percent request of None \<Rightarrow> False | Some percent \<Rightarrow> percent > 100)
      then refresh_reply_ok request RefreshRejected
        ''large_update_threshold_percent must be between 0 and 100'' s
      else
        let next_policy = updated_policy request (rc_refresh_policy (se_config s))
        in try_then
          (case se_surface s of
             Some a \<Rightarrow> run_core (\<lambda>c p. case update_refresh_config next_policy c of (r, c') \<Rightarrow> (r, c', p)) a s
           | None \<Rightarrow> (Inr (next_policy \<noteq> rc_refresh_policy (se_config s)), s))
          (\<lambda>changed s1.
             refresh_reply_ok request (if changed then RefreshApplied else RefreshUnchanged)
               (if changed then ''receiver refresh parameters applied''
                else ''requested refresh parameters are already active'') (set_policy next_policy s1)))"

definition cleanup_on_request ::
  "'p receiver_env \<Rightarrow> refresh_request_msg \<Rightarrow> nat \<Rightarrow> 'p session \<Rightarrow> ('p, envelope list) session_step" where
  "cleanup_on_request env request now s =
     try_then (session_request_cleanup env now s)
       (\<lambda>(report, responses) s1.
          (case refresh_reply request (if report_backend_failed report then RefreshFailed else RefreshApplied)
              (cleanup_performed report)
              (if report_backend_failed report then ''full cleanup failed and remains armed''
               else if cleanup_performed report then ''full cleanup completed''
               else ''full cleanup is armed for the next presentation'') s1 of
             (e, s2) \<Rightarrow> (Inr (responses @ [e]), s2)))"

definition handle_epaper_refresh ::
  "'p receiver_env \<Rightarrow> refresh_request_msg \<Rightarrow> nat \<Rightarrow> 'p session \<Rightarrow> ('p, envelope list) session_step" where
  "handle_epaper_refresh env request now s0 =
     (if \<not> se_refresh_control s0
      then refresh_reply_ok request RefreshUnsupported ''EPAPER_REFRESH_CONTROL was not negotiated'' s0
      else if rq_request_id request = 0 \<or> rq_request_id request \<le> se_last_refresh_request s0
      then refresh_reply_ok request RefreshRejected ''request_id must be nonzero and strictly increasing'' s0
      else
        let s = s0\<lparr>se_last_refresh_request := rq_request_id request\<rparr>;
            operation = refresh_operation_of_i32 (rq_operation request)
        in if operation = Some RefreshQuery \<and> \<not> has_parameters request
           then refresh_reply_ok request RefreshUnchanged ''active receiver refresh parameters'' s
           else if operation = Some RefreshUpdate \<and> has_parameters request then update_refresh request s
           else if operation = Some RefreshCleanup \<and> \<not> has_parameters request
           then cleanup_on_request env request now s
           else refresh_reply_ok request RefreshRejected
             ''operation and optional parameter combination is invalid'' s)"

section \<open>Menu actions\<close>

text \<open>
  Closing the application or asking for a new pair closes the menu and ignores the result of
  drawing the panel without it.
\<close>

definition leave_through_menu ::
  "'p receiver_env \<Rightarrow> nat \<Rightarrow> ('p session \<Rightarrow> 'p session) \<Rightarrow> 'p session \<Rightarrow> ('p, envelope list) session_step" where
  "leave_through_menu env now request s =
     (case render_local_menu env now (s\<lparr>se_menu := menu_close (se_menu s)\<rparr>) of
        (_, s1) \<Rightarrow> (Inr [], request (s1\<lparr>se_closed := True\<rparr>)))"

definition handle_menu_action ::
  "'p receiver_env \<Rightarrow> menu_action \<Rightarrow> nat \<Rightarrow> 'p session \<Rightarrow> ('p, envelope list) session_step" where
  "handle_menu_action env action now s =
     (case action of
        SetProfile profile \<Rightarrow>
          (case (if profile = Custom then se_last_custom s
                 else Some (switched_to (rc_refresh_policy (se_config s)) profile)) of
             None \<Rightarrow> render_local_menu env now s
           | Some next_policy \<Rightarrow>
               let s1 = set_policy next_policy s in
               try_then
                 (case se_surface s1 of
                    Some a \<Rightarrow>
                      try_then (run_core (change_refresh_profile (re_backend env) next_policy now (clock_of env s1)) a s1)
                        (\<lambda>report. ok_terminals (change_terminals report))
                  | None \<Rightarrow> (Inr [], s1))
                 (\<lambda>responses s2. try_then (render_local_menu env now s2)
                   (\<lambda>es2 s3. (Inr (responses @ es2), s3))))
      | TogglePartialRefresh \<Rightarrow>
          let policy = rc_refresh_policy (se_config s);
              next_policy = policy\<lparr>partial_refresh_enabled := \<not> partial_refresh_enabled policy\<rparr>
          in try_then
            (case se_surface s of
               Some a \<Rightarrow> run_core (\<lambda>c p. case update_refresh_config next_policy c of (r, c') \<Rightarrow> (r, c', p)) a s
             | None \<Rightarrow> (Inr True, s))
            (\<lambda>_ s1. render_local_menu env now (set_policy next_policy s1))
      | FullRefresh \<Rightarrow> local_cleanup env now s
      | NewPair \<Rightarrow> leave_through_menu env now (\<lambda>s1. s1\<lparr>se_pairing_reset_requested := True\<rparr>) s
      | CloseApp \<Rightarrow> leave_through_menu env now (\<lambda>s1. s1\<lparr>se_receiver_exit_requested := True\<rparr>) s
      | CloseMenu \<Rightarrow> render_local_menu env now (s\<lparr>se_menu := menu_close (se_menu s)\<rparr>))"

end
