(* ===== verification/Session_Input.thy ===== *)
theory Session_Input
  imports Session_Control
begin

text \<open>
  Physical input of a session in \<open>session.rs\<close>: pen records, which draw local ink, freeze the
  frame and are forwarded; touch reports, which go to the menu or through the five-finger
  gesture to the producer; the power key; and the failure of the input capture.
\<close>

section \<open>Pen\<close>

text \<open>The filter of a report: records of a stroke whose start was not seen are dropped.\<close>

definition pen_filter :: "pointer_record \<Rightarrow> active_surface \<Rightarrow> bool \<times> active_surface" where
  "pen_filter record a =
     (let phase = pr_phase record in
      if as_pen_needs_down a \<and> (phase = PhaseMove \<or> phase = PhaseUp) then (False, a)
      else
        let a1 = (case phase of
              PhaseDown \<Rightarrow> a\<lparr>as_pen_needs_down := False\<rparr>
            | PhaseUp \<Rightarrow> a\<lparr>as_pen_needs_down := True\<rparr>
            | PhaseCancel \<Rightarrow> a\<lparr>as_pen_needs_down := True\<rparr>
            | _ \<Rightarrow> a)
        in (True, a1\<lparr>as_last_pen := (if phase = PhaseCancel then None else Some record)\<rparr>))"

fun pen_filter_all :: "pointer_record list \<Rightarrow> active_surface \<Rightarrow> pointer_record list \<times> active_surface" where
  "pen_filter_all [] a = ([], a)"
| "pen_filter_all (r # rs) a =
     (case pen_filter r a of (keep, a') \<Rightarrow>
        (case pen_filter_all rs a' of (kept, a'') \<Rightarrow> (if keep then r # kept else kept, a'')))"

definition pen_point_of :: "pointer_record \<Rightarrow> display_core \<Rightarrow> nat \<times> nat" where
  "pen_point_of record c =
     (min (pr_x record div 2 ^ 16) (core_width c - 1), min (pr_y record div 2 ^ 16) (core_height c - 1))"

definition erases :: "pointer_record \<Rightarrow> bool" where
  "erases record \<longleftrightarrow> odd (pr_flags record)"

definition draw_pen :: "pointer_record \<Rightarrow> active_surface \<Rightarrow> active_surface" where
  "draw_pen record a =
     (let point = pen_point_of record (as_core a);
          previous = (case as_pen_point a of None \<Rightarrow> point | Some p \<Rightarrow> p);
          erase = erases record
      in a\<lparr>as_core := edit_ink (ink_line (core_width (as_core a)) previous point
             (if erase then 12 else 2) erase) (as_core a),
           as_pen_point := Some point\<rparr>)"

definition pen_ink ::
  "bool \<Rightarrow> bool \<Rightarrow> nat \<Rightarrow> pointer_record \<Rightarrow> active_surface \<Rightarrow> terminal_frame list \<times> active_surface" where
  "pen_ink freeze_on_down physical now record a =
     (let phase = pr_phase record in
      if as_ink_paused a \<or> physical \<and> now < as_ink_not_before a then ([], a)
      else if as_ink_needs_down a \<and> (phase = PhaseMove \<or> phase = PhaseUp) then ([], a)
      else
        let a1 = (case phase of
              PhaseDown \<Rightarrow> a\<lparr>as_ink_needs_down := False\<rparr>
            | PhaseUp \<Rightarrow> a\<lparr>as_ink_needs_down := True\<rparr>
            | PhaseCancel \<Rightarrow> a\<lparr>as_ink_needs_down := True\<rparr>
            | _ \<Rightarrow> a);
            (terminals, a2) =
              (if as_local_ink a1 \<and> freeze_on_down \<and> phase = PhaseDown \<and> \<not> as_ink_frozen a1 \<and>
                  dc_presented_frame_id (as_core a1) \<noteq> 0
               then (case freeze_presented (as_core a1) of (t, c) \<Rightarrow>
                  (case t of None \<Rightarrow> [] | Some t \<Rightarrow> [t], a1\<lparr>as_ink_frozen := True, as_core := c\<rparr>))
               else ([], a1))
        in (terminals,
            if as_local_ink a2 \<and> dc_presented_frame_id (as_core a2) \<noteq> 0 \<and>
               (phase = PhaseDown \<or> phase = PhaseMove)
            then draw_pen record a2 else a2\<lparr>as_pen_point := None\<rparr>))"

fun pen_ink_all ::
  "bool \<Rightarrow> bool \<Rightarrow> nat \<Rightarrow> pointer_record list \<Rightarrow> active_surface \<Rightarrow> terminal_frame list \<times> active_surface" where
  "pen_ink_all freeze_on_down physical now [] a = ([], a)"
| "pen_ink_all freeze_on_down physical now (r # rs) a =
     (case pen_ink freeze_on_down physical now r a of (ts, a') \<Rightarrow>
        (case pen_ink_all freeze_on_down physical now rs a' of (ts', a'') \<Rightarrow> (ts @ ts', a'')))"

definition note_pen :: "pointer_record list \<Rightarrow> nat \<Rightarrow> 'p session \<Rightarrow> 'p session" where
  "note_pen records now s =
     (if records = [] then s
      else s\<lparr>se_last_interaction := max (se_last_interaction s) now,
             se_pen_proximity := fold (\<lambda>r _. pr_phase r \<noteq> PhaseCancel) records (se_pen_proximity s)\<rparr>)"

text \<open>The body of the loop over the reports.\<close>

definition pen_report_step ::
  "bool \<Rightarrow> nat \<Rightarrow> pointer_record list \<Rightarrow> 'p session \<Rightarrow> envelope list \<times> 'p session" where
  "pen_report_step physical now records0 s0 =
     (let s = (if physical then note_pen records0 now s0 else s0) in
      if physical \<and> now < se_input_not_before s then ([], s)
      else case se_surface s of
        None \<Rightarrow> ([], s)
      | Some a \<Rightarrow>
          if \<not> se_pen_available s \<or> \<not> (as_pen_forwarding a \<or> as_local_ink a) \<or> menu_visible (se_menu s)
          then ([], s\<lparr>se_surface := Some (rearm_ink now (a\<lparr>as_pen_needs_down := True\<rparr>))\<rparr>)
          else
            let (records, a1) = pen_filter_all records0 a in
            if records = [] then ([], s\<lparr>se_surface := Some a1\<rparr>)
            else
              let (terminals, a2) = pen_ink_all (se_freeze_on_pen_down s) physical now records a1;
                  s1 = s\<lparr>se_surface := Some a2\<rparr>;
                  (batch, s2) =
                    (if as_pen_forwarding a2
                     then case wrap_body (InputBatch
                         \<lparr>ib_surface_id = as_surface_id a2, ib_generation = as_generation a2,
                          ib_sequence = se_next_input_sequence s1, ib_monotonic_us = monotonic_us now,
                          ib_records = records,
                          ib_presented_frame_id = dc_presented_frame_id (as_core a2),
                          ib_ink_frozen = as_ink_frozen a2\<rparr>)
                         (s1\<lparr>se_next_input_sequence := max (se_next_input_sequence s1 + 1) 1\<rparr>) of
                       (e, s') \<Rightarrow> ([e], s')
                     else ([], s1));
                  (results, s3) = terminal_results terminals s2
              in (batch @ results, s3))"

definition pen_reports_inner ::
  "'p receiver_env \<Rightarrow> pointer_record list list \<Rightarrow> nat \<Rightarrow> bool \<Rightarrow> 'p session \<Rightarrow>
   ('p, envelope list) session_step" where
  "pen_reports_inner env reports now physical s0 =
     (case map_state (pen_report_step physical now) reports s0 of
        (responses, s) \<Rightarrow>
          (case se_surface s of
             None \<Rightarrow> (Inr (concat responses), s)
           | Some a \<Rightarrow>
               if as_local_ink a
               then try_then (run_core (present_ink (re_backend env) now (clock_of env s)) a s)
                 (\<lambda>terminals s1. case terminal_results terminals s1 of
                    (results, s2) \<Rightarrow> (Inr (concat responses @ results), s2))
               else (Inr (concat responses), s)))"

definition pen_reports ::
  "'p receiver_env \<Rightarrow> pointer_record list list \<Rightarrow> nat \<Rightarrow> 'p session \<Rightarrow> ('p, envelope list) session_step" where
  "pen_reports env reports now s = pen_reports_inner env reports now True s"

section \<open>Touch\<close>

definition menu_geometry :: "'p session \<Rightarrow> (nat \<times> nat) option" where
  "menu_geometry s =
     (case se_surface s of
        Some a \<Rightarrow> Some (core_width (as_core a), core_height (as_core a))
      | None \<Rightarrow> map_option (\<lambda>fb. (ps_width (fb_base fb), ps_height (fb_base fb))) (se_fallback s))"

text \<open>
  One report of the loop. \<open>target\<close> is the surface's id, generation and touch flag, read before
  the loop.
\<close>

definition input_report_step ::
  "'p receiver_env \<Rightarrow> (nat \<times> u32 \<times> bool) option \<Rightarrow> nat \<Rightarrow> pointer_event list \<Rightarrow> 'p session \<Rightarrow>
   ('p, envelope list) session_step" where
  "input_report_step env target monotonic report s0 =
     (let s = s0\<lparr>se_last_interaction := max (se_last_interaction s0) monotonic\<rparr> in
      if monotonic < se_input_not_before s then
        (case gesture_process report False False (se_gesture s) of (r, g1) \<Rightarrow>
           (case surface_transition g1 of (es2, g2) \<Rightarrow>
              let cancelled = gr_cancel r @ es2; s1 = s\<lparr>se_gesture := g2\<rparr>
              in case target of
                   None \<Rightarrow> (Inr [], s1)
                 | Some (surface_id, generation, _) \<Rightarrow>
                     if cancelled = [] then (Inr [], s1)
                     else (case pointer_batch surface_id generation cancelled (se_input_not_before s1) s1 of
                         (e, s2) \<Rightarrow> (Inr [e], s2))))
      else if menu_visible (se_menu s) then
        (let s1 = s\<lparr>se_gesture := snd (gesture_process report False False (se_gesture s))\<rparr>
         in case Option.bind (menu_geometry s1)
             (\<lambda>(width, height). action_for_report (se_menu s1) report width height) of
              None \<Rightarrow> (Inr [], s1)
            | Some action \<Rightarrow>
                try_then (handle_menu_action env action monotonic s1)
                  (\<lambda>es s2. (Inr es, s2\<lparr>se_gesture := snd (surface_transition (se_gesture s2))\<rparr>)))
      else
        (case gesture_process report (case target of None \<Rightarrow> False | Some (_, _, enabled) \<Rightarrow> enabled)
            (target \<noteq> None) (se_gesture s) of
           (r, g) \<Rightarrow>
             let s1 = s\<lparr>se_gesture := g\<rparr> in
             case target of
               None \<Rightarrow> (Inr [], s1)
             | Some (surface_id, generation, _) \<Rightarrow>
                 let (cancel, s2) = (if gr_cancel r = [] then ([], s1)
                       else (case pointer_batch surface_id generation (gr_cancel r) monotonic s1 of
                         (e, s') \<Rightarrow> ([e], s')));
                     (forward, s3) = (if gr_forward r = [] then ([], s2)
                       else (case pointer_batch surface_id generation (gr_forward r) monotonic s2 of
                         (e, s') \<Rightarrow> ([e], s')))
                 in if gr_cleanup r
                    then try_then (local_cleanup env monotonic s3)
                      (\<lambda>es s4. (Inr (cancel @ forward @ es), s4))
                    else (Inr (cancel @ forward), s3)))"

fun input_reports_loop ::
  "'p receiver_env \<Rightarrow> (nat \<times> u32 \<times> bool) option \<Rightarrow> nat \<Rightarrow> pointer_event list list \<Rightarrow> 'p session \<Rightarrow>
   ('p, envelope list) session_step" where
  "input_reports_loop env target monotonic [] s = (Inr [], s)"
| "input_reports_loop env target monotonic (report # reports) s =
     (if report = [] then input_reports_loop env target monotonic reports s
      else try_then (input_report_step env target monotonic report s)
        (\<lambda>es s1. try_then (input_reports_loop env target monotonic reports s1)
           (\<lambda>es2 s2. (Inr (es @ es2), s2))))"

definition input_reports ::
  "'p receiver_env \<Rightarrow> pointer_event list list \<Rightarrow> nat \<Rightarrow> 'p session \<Rightarrow> ('p, envelope list) session_step" where
  "input_reports env reports monotonic s =
     input_reports_loop env
       (map_option (\<lambda>a. (as_surface_id a, as_generation a, as_touch_forwarding a)) (se_surface s))
       monotonic reports s"

section \<open>Power key and capture failure\<close>

definition cancelled_pen :: "pointer_record \<Rightarrow> pointer_record" where
  "cancelled_pen r = r\<lparr>pr_phase := PhaseCancel, pr_pressure := 0, pr_buttons := 0\<rparr>"

definition input_capture_failed ::
  "'p receiver_env \<Rightarrow> nat \<Rightarrow> 'p session \<Rightarrow> ('p, envelope list) session_step" where
  "input_capture_failed env now s0 =
     (let cancelled = fst (surface_transition (se_gesture s0));
          s = s0\<lparr>se_gesture := gesture_new, se_pen_proximity := False\<rparr>
      in try_then
        (case se_surface s of
           None \<Rightarrow> (Inr [], s)
         | Some a \<Rightarrow>
             let (batch, s1) = (if cancelled = [] then ([], s)
                   else case pointer_batch (as_surface_id a) (as_generation a) cancelled now s of
                     (e, s') \<Rightarrow> ([e], s'))
             in case as_last_pen a of
                  None \<Rightarrow> (Inr batch, s1)
                | Some r \<Rightarrow> try_then (pen_reports_inner env [[cancelled_pen r]] now True s1)
                    (\<lambda>es s2. (Inr (batch @ es), s2)))
        (\<lambda>es s1. (Inr es, set_pen_available False s1)))"

definition power_key_pressed ::
  "'p receiver_env \<Rightarrow> nat \<Rightarrow> 'p session \<Rightarrow> ('p, envelope list) session_step" where
  "power_key_pressed env now s0 =
     (let s = s0\<lparr>se_last_interaction := now\<rparr> in
      if se_surface s = None \<and> se_fallback s = None then (Inr [], s)
      else case surface_transition (se_gesture s) of
        (cancelled, g) \<Rightarrow>
          let s1 = s\<lparr>se_gesture := g\<rparr> in
          try_then
            (case se_surface s1 of
               None \<Rightarrow> (Inr [], s1)
             | Some a \<Rightarrow>
                 let s2 = s1\<lparr>se_surface := Some (a\<lparr>as_pen_point := None, as_pen_needs_down := True,
                           as_last_pen := None\<rparr>)\<rparr>;
                     (batch, s3) = (if cancelled = [] then ([], s2)
                       else case pointer_batch (as_surface_id a) (as_generation a) cancelled now s2 of
                         (e, s') \<Rightarrow> ([e], s'))
                 in case as_last_pen a of
                      None \<Rightarrow> (Inr batch, s3)
                    | Some r \<Rightarrow> try_then (pen_reports_inner env [[cancelled_pen r]] now False s3)
                        (\<lambda>es s4. (Inr (batch @ es), s4)))
            (\<lambda>responses s5.
               try_then (render_local_menu env now (s5\<lparr>se_menu := menu_toggle (se_menu s5)\<rparr>))
                 (\<lambda>es2 s6. (Inr (responses @ es2), s6))))"

end
