(* ===== verification/Session.thy ===== *)
theory Session
  imports Session_Input
begin

text \<open>
  The entry points of a session in \<open>session.rs\<close>: the checks of an envelope's header, the
  dispatch of its body, and the poll that advances the display.
\<close>

section \<open>Dispatch\<close>

definition validate_envelope_header :: "envelope \<Rightarrow> 'p session \<Rightarrow> ('p, unit) session_step" where
  "validate_envelope_header e s =
     (if se_last_incoming s = 0 \<and> env_message_id e \<noteq> 1 then (Inl BadMessageOrder, s)
      else if se_last_incoming s \<noteq> 0 \<and> env_message_id e \<le> se_last_incoming s then (Inl BadMessageOrder, s)
      else if \<not> se_established s \<and> env_session_id e \<noteq> 0 \<or>
        se_established s \<and> env_session_id e \<noteq> se_session_id s
      then (Inl BadSession, s)
      else (Inr (), s\<lparr>se_last_incoming := env_message_id e\<rparr>))"

definition interaction_idle :: "nat \<Rightarrow> 'p session \<Rightarrow> bool" where
  "interaction_idle now s \<longleftrightarrow> \<not> se_pen_proximity s \<and> \<not> has_active_contacts (se_gesture s) \<and>
     now - se_last_interaction s \<ge> secs 5"

definition session_poll ::
  "'p receiver_env \<Rightarrow> nat \<Rightarrow> 'p session \<Rightarrow> ('p, envelope list) session_step" where
  "session_poll env now s =
     (case se_surface s of
        None \<Rightarrow> (Inr [], s)
      | Some a \<Rightarrow>
          try_then
            (run_core (if se_automatic_idle_cleanup s
               then tick_interactive (re_backend env) now (interaction_idle now s) (clock_of env s)
               else tick_without_idle_cleanup (re_backend env) now (clock_of env s)) a s)
            (\<lambda>terminals s1. ok_terminals terminals (sync_refresh s1)))"

definition infallible :: "'a \<times> 'p session \<Rightarrow> ('p, 'a) session_step" where
  "infallible r = (Inr (fst r), snd r)"

definition handle_body ::
  "'p receiver_env \<Rightarrow> body \<Rightarrow> nat \<Rightarrow> 'p session \<Rightarrow> ('p, envelope list) session_step" where
  "handle_body env body now s =
     (if \<not> se_established s then
        (case body of
           ClientHello hello \<Rightarrow> try_then (accept_hello env hello s) (\<lambda>e s1. (Inr [e], s1))
         | _ \<Rightarrow> (Inl ExpectedClientHello, s))
      else
        (case body of
           Ping cookie \<Rightarrow> (case wrap_body (Pong cookie) s of (e, s1) \<Rightarrow> (Inr [e], s1))
         | Goodbye _ \<Rightarrow> (Inr [], s\<lparr>se_closed := True\<rparr>)
         | SurfaceOpen open \<Rightarrow>
             try_then (open_surface env open s) (\<lambda>es s1. (Inr es, s1\<lparr>se_input_not_before := now\<rparr>))
         | SurfaceClose surface_id generation _ \<Rightarrow> infallible (close_surface surface_id generation s)
         | OverlayUpdate update \<Rightarrow> handle_overlay_update env update now s
         | FrameBody fr \<Rightarrow> infallible (accept_frame env fr now s)
         | EpaperProfileRequest request \<Rightarrow> handle_epaper_profile env request now s
         | EpaperRefreshRequest request \<Rightarrow> handle_epaper_refresh env request now s
         | ActionResult _ \<Rightarrow> (Inr [], s)
         | _ \<Rightarrow> (Inl IllegalDirection, s)))"

definition handle_inner ::
  "'p receiver_env \<Rightarrow> envelope \<Rightarrow> nat \<Rightarrow> bool \<Rightarrow> 'p session \<Rightarrow> ('p, envelope list) session_step" where
  "handle_inner env e now poll_after s =
     try_then (validate_envelope_header e s) (\<lambda>_ s1.
       case env_body e of
         None \<Rightarrow> (Inl MissingBody, s1)
       | Some body \<Rightarrow>
           try_then (handle_body env body now s1) (\<lambda>responses s2.
             if poll_after
             then try_then (session_poll env now s2) (\<lambda>es2 s3. (Inr (responses @ es2), s3))
             else (Inr responses, s2)))"

definition session_handle ::
  "'p receiver_env \<Rightarrow> envelope \<Rightarrow> nat \<Rightarrow> 'p session \<Rightarrow> ('p, envelope list) session_step" where
  "session_handle env e now s = handle_inner env e now True s"

definition session_handle_deferred ::
  "'p receiver_env \<Rightarrow> envelope \<Rightarrow> nat \<Rightarrow> 'p session \<Rightarrow> ('p, envelope list) session_step" where
  "session_handle_deferred env e now s = handle_inner env e now False s"

end
