(* ===== verification/Emission.thy ===== *)
theory Emission
  imports Session "HOL-Library.Multiset"
begin

text \<open>
  What a session says. The locale \<open>emission\<close> is the interface between the handlers of the
  session and a property of the messages they emit: a relation between a state, the envelopes
  emitted since, the terminal frames taken from the display core but not yet reported, and the
  state reached. Its assumptions cover the four ways a handler can go on: changing fields that no
  message depends on or running the core, answering, forwarding input, and reporting a terminal
  frame. The lemmas about every handler are proved once, in the locale; its interpretations are
  the numbering of the messages, the accounting of frames, and the kinds of messages.
\<close>

section \<open>Frames the core still owes\<close>

definition owed_by :: "display_core \<Rightarrow> nat multiset" where
  "owed_by c = (case dc_pending c of None \<Rightarrow> {#} | Some p \<Rightarrow> {#pd_frame_id p#})"

definition outstanding :: "'p session \<Rightarrow> nat multiset" where
  "outstanding s = (case se_surface s of None \<Rightarrow> {#} | Some a \<Rightarrow> owed_by (as_core a))"

definition core_settles :: "display_core \<Rightarrow> terminal_frame list \<Rightarrow> display_core \<Rightarrow> bool" where
  "core_settles c ts c' \<longleftrightarrow> mset (map tf_frame_id ts) + owed_by c' = owed_by c"

lemma core_settles_same: "dc_pending c' = dc_pending c \<Longrightarrow> core_settles c [] c'"
  by (simp add: core_settles_def owed_by_def)

lemma core_settles_trans: "core_settles c ts c' \<Longrightarrow> core_settles c' ts' c'' \<Longrightarrow> core_settles c (ts @ ts') c''"
  by (auto simp: core_settles_def add.assoc)

lemma same_pending [simp]:
  "dc_pending (edit_ink f c) = dc_pending c" "dc_pending (edit_overlay f c) = dc_pending c"
  "dc_pending (edit_peer_overlay f c) = dc_pending c" "dc_pending (mark_panel_failure c) = dc_pending c"
  "dc_pending (record_panel_damage d ds now c) = dc_pending c"
  "dc_pending (require_cleanup c) = dc_pending c" "dc_pending (set_ink_waveform w c) = dc_pending c"
  by (simp_all add: edit_ink_def edit_overlay_def edit_peer_overlay_def mark_panel_failure_def
      record_panel_damage_def require_cleanup_def set_ink_waveform_def)

lemma cancel_settles: "cancel_pending c = (t, c') \<Longrightarrow> core_settles c (case t of None \<Rightarrow> [] | Some t \<Rightarrow> [t]) c'"
  by (auto simp: cancel_pending_def core_settles_def owed_by_def split: option.splits)

lemma freeze_settles: "freeze_presented c = (t, c') \<Longrightarrow> core_settles c (case t of None \<Rightarrow> [] | Some t \<Rightarrow> [t]) c'"
  using cancel_settles [of c] by (auto simp: freeze_presented_def core_settles_def owed_by_def split: prod.splits)

lemma compose_working_pending [simp]: "compose_working regions c = (r, c') \<Longrightarrow> dc_pending c' = dc_pending c"
  by (auto simp: compose_working_def split: if_splits sum.splits prod.splits)

lemma compose_everything_pending: "compose_everything c = (r, c') \<Longrightarrow> dc_pending c' = dc_pending c"
  by (auto simp: compose_everything_def split: sum.splits prod.splits)

lemma tick_success_pending:
  "tick_success pending now damage decision pm metrics c = (Inr ts, c') \<Longrightarrow>
   dc_pending c' = dc_pending c \<and> map tf_frame_id ts = [pd_frame_id pending]"
  by (auto simp: tick_success_def Let_def split: sum.splits prod.splits)

lemma tick_submit_pending:
  "tick_submit backend pending now damage decision obs c p = (Inr ts, c', p') \<Longrightarrow>
   dc_pending c' = dc_pending c \<and> map tf_frame_id ts = [pd_frame_id pending]"
  by (auto simp: tick_submit_def Let_def dest: tick_success_pending split: if_splits sum.splits prod.splits)

lemma tick_present_pending:
  "tick_present backend pending now obs c p = (Inr ts, c', p') \<Longrightarrow>
   dc_pending c' = dc_pending c \<and> map tf_frame_id ts = [pd_frame_id pending]"
  by (auto simp: tick_present_def Let_def dest!: tick_submit_pending compose_everything_pending
      compose_working_pending split: if_splits sum.splits prod.splits)

lemma tick_settles: "tick_inner backend now ignore obs c p = (Inr ts, c', p') \<Longrightarrow> core_settles c ts c'"
  by (auto simp: tick_inner_def core_settles_def owed_by_def dest!: tick_present_pending
      split: option.splits if_splits sum.splits prod.splits)

lemma request_cleanup_settles:
  assumes "request_cleanup backend now obs c p = (Inr report, c', p')"
  shows "core_settles c (report_terminals report) c'"
proof -
  have armed: "core_settles c ts c'" if "core_settles (c\<lparr>dc_force_cleanup_next := True\<rparr>) ts c'" for ts c'
    using that by (simp add: core_settles_def owed_by_def)
  show ?thesis
    using assms
    by (auto simp: request_cleanup_def Let_def idle_report_def armed
        intro!: armed core_settles_same dest!: tick_settles split: if_splits sum.splits prod.splits)
qed

lemma update_config_settles: "update_refresh_config config c = (r, c') \<Longrightarrow> dc_pending c' = dc_pending c"
  by (auto simp: update_refresh_config_def Let_def split: sum.splits)

lemma change_profile_settles:
  assumes "change_refresh_profile backend config now obs c p = (Inr report, c', p')"
  shows "core_settles c (change_terminals report) c'"
proof -
  have update: "core_settles c ts c''" if "update_refresh_config config c = (r, c')" "core_settles c' ts c''"
    for r c' ts c''
    using that update_config_settles [OF that(1)] by (simp add: core_settles_def owed_by_def)
  show ?thesis
    using assms
    by (auto simp: change_refresh_profile_def Let_def intro!: core_settles_same
        dest!: request_cleanup_settles dest: update update_config_settles
        split: sum.splits prod.splits if_splits)
qed

lemma tick_interactive_settles:
  "tick_interactive backend now idle obs c p = (Inr ts, c', p') \<Longrightarrow> core_settles c ts c'"
  by (auto simp: tick_interactive_def core_settles_def owed_by_def
      dest!: request_cleanup_settles [unfolded core_settles_def owed_by_def]
        tick_settles [unfolded core_settles_def owed_by_def]
      split: if_splits sum.splits prod.splits)

lemma blend_planes_pending: "blend_planes regions c = (r, c') \<Longrightarrow> dc_pending c' = dc_pending c"
  by (auto simp: blend_planes_def split: sum.splits prod.splits)

lemma plane_success_pending: "plane_success now damage decision pm c = (r, c') \<Longrightarrow> dc_pending c' = dc_pending c"
  by (auto simp: plane_success_def Let_def split: sum.splits prod.splits if_splits)

lemma plane_present_pending:
  "plane_present backend now intent regions c p = (r, c', p') \<Longrightarrow> dc_pending c' = dc_pending c"
  by (auto simp: plane_present_def Let_def dest!: blend_planes_pending plane_success_pending
      split: if_splits sum.splits prod.splits)

lemma present_plane_settles:
  assumes "present_plane backend now intent obs c p = (Inr ts, c', p')"
  shows "core_settles c ts c'"
proof -
  obtain ts1 c1 p1 where t: "(if dc_pending c \<noteq> None then tick_inner backend now True obs c p
      else (Inr [], c, p)) = (Inr ts1, c1, p1)"
    using assms by (auto simp: present_plane_def split: sum.splits prod.splits)
  have "core_settles c ts1 c1"
    using t by (auto intro: tick_settles core_settles_same split: if_splits)
  moreover have "ts = ts1 \<and> dc_pending c' = dc_pending c1"
    using assms t
    by (auto simp: present_plane_def Let_def and_then_Inr_iff dest!: plane_present_pending
        split: sum.splits prod.splits if_splits)
  ultimately show ?thesis by (simp add: core_settles_def owed_by_def)
qed

lemma present_ink_settles: "present_ink backend now obs c p = (Inr ts, c', p') \<Longrightarrow> core_settles c ts c'"
  unfolding present_ink_def by (rule present_plane_settles)

lemma present_overlay_settles: "present_overlay backend now obs c p = (Inr ts, c', p') \<Longrightarrow> core_settles c ts c'"
  unfolding present_overlay_def by (rule present_plane_settles)

section \<open>Changes without a message\<close>

definition same_voice :: "'p session \<Rightarrow> 'p session \<Rightarrow> bool" where
  "same_voice s s' \<longleftrightarrow> se_session_id s' = se_session_id s \<and> se_next_outgoing s' = se_next_outgoing s"

definition moves :: "'p session \<Rightarrow> terminal_frame list \<Rightarrow> 'p session \<Rightarrow> bool" where
  "moves s ts s' \<longleftrightarrow> same_voice s s' \<and> mset (map tf_frame_id ts) + outstanding s' = outstanding s"

lemma moves_silent: "same_voice s s' \<Longrightarrow> outstanding s' = outstanding s \<Longrightarrow> moves s [] s'"
  by (simp add: moves_def)

lemma moves_trans: "moves s ts s' \<Longrightarrow> moves s' ts' s'' \<Longrightarrow> moves s (ts @ ts') s''"
  by (auto simp: moves_def same_voice_def add.assoc)

lemma moves_core:
  assumes "run_core f a s = (Inr x, s')" and "outstanding s = owed_by (as_core a)"
    and "\<And>r c p. f (as_core a) (se_panel s) = (Inr r, c, p) \<Longrightarrow> core_settles (as_core a) (terms r) c"
  shows "moves s (terms x) s'"
proof -
  obtain r c p where f: "f (as_core a) (se_panel s) = (r, c, p)" by (metis prod.exhaust)
  have r: "r = Inr x" and s': "s' = s\<lparr>se_surface := Some (a\<lparr>as_core := c\<rparr>), se_panel := p\<rparr>"
    using assms(1) f by (auto simp: run_core_def map_err_def split: sum.splits)
  show ?thesis
    using assms(3) [OF f [unfolded r]] assms(2)
    by (simp add: moves_def same_voice_def s' outstanding_def core_settles_def)
qed

lemma run_core_voice: "run_core f a s = (r, s') \<Longrightarrow> same_voice s s'"
  by (auto simp: run_core_def same_voice_def split: prod.splits)

section \<open>The interface\<close>

fun is_frame_result :: "body \<Rightarrow> bool" where
  "is_frame_result (FrameResult f) = True"
| "is_frame_result _ = False"

fun is_batch :: "body \<Rightarrow> bool" where
  "is_batch (InputBatch b) = True"
| "is_batch _ = False"

text \<open>The outcome of a step: an error satisfies \<open>E\<close>, emitted envelopes satisfy \<open>R\<close>.\<close>

definition says ::
  "('p session \<Rightarrow> envelope list \<Rightarrow> 'p session \<Rightarrow> terminal_frame list \<Rightarrow> bool) \<Rightarrow>
   ('p session \<Rightarrow> 'p session \<Rightarrow> bool) \<Rightarrow> 'p session \<Rightarrow> ('p, envelope list) session_step \<Rightarrow> bool" where
  "says R E s m = (case m of (Inl _, s') \<Rightarrow> E s s' | (Inr es, s') \<Rightarrow> R s es s' [])"

lemma says_simps [simp]: "says R E s (Inl e, s') = E s s'" "says R E s (Inr es, s') = R s es s' []"
  by (simp_all add: says_def)

lemma ok_terminals_eq: "ok_terminals ts s = (Inr (fst (terminal_results ts s)), snd (terminal_results ts s))"
  by (simp add: ok_terminals_def split: prod.splits)

locale emission =
  fixes R :: "'p session \<Rightarrow> envelope list \<Rightarrow> 'p session \<Rightarrow> terminal_frame list \<Rightarrow> bool"
    and E :: "'p session \<Rightarrow> 'p session \<Rightarrow> bool"
  assumes R_trans: "R s es s1 ts \<Longrightarrow> R s1 es' s2 ts' \<Longrightarrow> R s (es @ es') s2 (ts @ ts')"
    and R_moves: "moves s ts s' \<Longrightarrow> R s [] s' ts"
    and R_answer: "wrap_body b s = (e, s') \<Longrightarrow> \<not> is_frame_result b \<Longrightarrow> \<not> is_batch b \<Longrightarrow> R s [e] s' []"
    and R_report: "R s es s1 (t # ts) \<Longrightarrow> terminal_result t s1 = (e, s2) \<Longrightarrow> R s (es @ [e]) s2 ts"
    and E_voice: "same_voice s s' \<Longrightarrow> E s s'"
    and E_after: "R s es s1 ts \<Longrightarrow> E s1 s2 \<Longrightarrow> E s s2"
begin

lemma R_silent: "same_voice s s' \<Longrightarrow> outstanding s' = outstanding s \<Longrightarrow> R s [] s' []"
  by (rule R_moves, rule moves_silent)

lemma R_refl: "R s [] s []"
  by (rule R_silent) (simp_all add: same_voice_def)

lemma E_refl: "E s s"
  by (rule E_voice) (simp add: same_voice_def)

lemma R_error: "R s es s1 ts \<Longrightarrow> same_voice s1 s2 \<Longrightarrow> E s s2"
  using E_after [OF _ E_voice] by blast

lemma R_then: "R s es s1 [] \<Longrightarrow> R s1 es' s2 ts \<Longrightarrow> R s (es @ es') s2 ts"
  using R_trans [of s es s1 "[]" es' s2 ts] by simp

lemma R_results: "R s es s1 ts \<Longrightarrow> terminal_results ts s1 = (es', s2) \<Longrightarrow> R s (es @ es') s2 []"
proof (induction ts arbitrary: es es' s1)
  case Nil
  then show ?case by (simp add: terminal_results_def)
next
  case (Cons t ts)
  obtain e s' where e: "terminal_result t s1 = (e, s')" by fastforce
  obtain es'' where r: "terminal_results ts s' = (es'', s2)" "es' = e # es''"
    using Cons.prems(2) e by (auto simp: terminal_results_def split: prod.splits)
  show ?case using Cons.IH [OF R_report [OF Cons.prems(1) e] r(1)] r(2) by simp
qed

lemma ok_terminals_says: "R s [] s1 ts \<Longrightarrow> says R E s (ok_terminals ts s1)"
  using R_results [of s "[]" s1 ts] by (simp add: ok_terminals_eq)

lemma says_then:
  assumes "says R E s m"
    and "\<And>es s1. m = (Inr es, s1) \<Longrightarrow> R s es s1 [] \<Longrightarrow> says R E s (f es s1)"
  shows "says R E s (try_then m f)"
  using assms by (cases m) (auto simp: says_def try_then_def split: sum.splits)

text \<open>A step that continues another one, prefixing its envelopes.\<close>

lemma says_prefix:
  assumes "R s es s1 []" and "says R E s1 m"
  shows "says R E s (try_then m (\<lambda>es' s2. (Inr (es @ es'), s2)))"
  using assms by (cases m) (auto simp: says_def try_then_def intro: R_then E_after split: sum.splits)

lemma says_from:
  assumes "R s [] s1 []" and "says R E s1 m"
  shows "says R E s m"
  using assms R_then [OF assms(1)] by (cases m) (auto simp: says_def intro: E_after split: sum.splits)

lemma says_core:
  assumes "outstanding s = owed_by (as_core a)"
    and "\<And>r c p. f (as_core a) (se_panel s) = (Inr r, c, p) \<Longrightarrow> core_settles (as_core a) (terms r) c"
    and "\<And>x s1. R s [] s1 (terms x) \<Longrightarrow> says R E s (g x s1)"
  shows "says R E s (try_then (run_core f a s) g)"
proof (cases "run_core f a s")
  case (Pair r s1)
  show ?thesis
  proof (cases r)
    case (Inl e)
    then show ?thesis using Pair E_voice [OF run_core_voice [OF Pair]] by simp
  next
    case (Inr x)
    note run = Pair [unfolded Inr]
    have "R s [] s1 (terms x)" by (rule R_moves, rule moves_core [OF run assms(1,2)])
    then show ?thesis using run assms(3) by simp
  qed
qed

end

section \<open>Facts about single steps\<close>

lemma outstanding_Some [simp]: "se_surface s = Some a \<Longrightarrow> outstanding s = owed_by (as_core a)"
  by (simp add: outstanding_def)

lemma wrap_body_keeps:
  assumes "wrap_body b s = (e, s')"
  shows "se_surface s' = se_surface s" "se_established s' = se_established s" "se_config s' = se_config s"
    "se_byte_credits s' = se_byte_credits s" "se_menu s' = se_menu s"
  using assms by (auto simp: wrap_body_def split: prod.splits)

lemma terminal_result_keeps:
  assumes "terminal_result t s = (e, s')"
  shows "se_surface s' = se_surface s" "se_config s' = se_config s" "se_byte_credits s' = se_byte_credits s"
  using assms by (auto simp: terminal_result_def frame_result_env_def dest: wrap_body_keeps split: prod.splits)

lemma terminal_results_keeps:
  assumes "terminal_results ts s = (es, s')"
  shows "se_surface s' = se_surface s \<and> se_config s' = se_config s \<and> se_byte_credits s' = se_byte_credits s"
  using assms
proof (induction ts arbitrary: s es)
  case Nil
  then show ?case by (simp add: terminal_results_def)
next
  case (Cons t ts)
  obtain e s1 where e: "terminal_result t s = (e, s1)" by fastforce
  obtain es' where "terminal_results ts s1 = (es', s')"
    using Cons.prems e by (auto simp: terminal_results_def split: prod.splits)
  from Cons.IH [OF this] terminal_result_keeps [OF e] show ?case by simp
qed

lemma present_fallback_quiet:
  "present_fallback env complete s = (r, s') \<Longrightarrow> same_voice s s' \<and> se_surface s' = se_surface s"
  by (auto simp: present_fallback_def same_voice_def Let_def split: option.splits sum.splits prod.splits)

lemma sync_refresh_quiet: "same_voice s (sync_refresh s)" "se_surface (sync_refresh s) = se_surface s"
  by (simp_all add: sync_refresh_def same_voice_def split: option.splits)

lemma set_policy_quiet: "same_voice s (set_policy c s)" "se_surface (set_policy c s) = se_surface s"
  by (simp_all add: set_policy_def same_voice_def)

section \<open>The handlers\<close>

context emission
begin

lemma R_quiet:
  assumes "R s es s1 ts" and "same_voice s1 s2" and "outstanding s2 = outstanding s1"
  shows "R s es s2 ts"
  using R_trans [OF assms(1) R_silent [OF assms(2,3)]] by simp

lemma R_sync: "R s es s1 ts \<Longrightarrow> R s es (sync_refresh s1) ts"
  by (erule R_quiet) (simp_all add: sync_refresh_quiet outstanding_def)

lemma answer_says: "wrap_body b s = (e, s') \<Longrightarrow> \<not> is_frame_result b \<Longrightarrow> \<not> is_batch b \<Longrightarrow> says R E s (Inr [e], s')"
  using R_answer by simp

lemma poll_says: "says R E s (session_poll env now s)"
proof (cases "se_surface s")
  case None
  then show ?thesis by (simp add: session_poll_def R_refl)
next
  case (Some a)
  show ?thesis
    unfolding session_poll_def Some option.case
  proof (rule says_core [where terms = "\<lambda>ts. ts"])
    show "outstanding s = owed_by (as_core a)" using Some by simp
    fix r c p
    assume "(if se_automatic_idle_cleanup s
        then tick_interactive (re_backend env) now (interaction_idle now s) (clock_of env s)
        else tick_without_idle_cleanup (re_backend env) now (clock_of env s)) (as_core a) (se_panel s) = (Inr r, c, p)"
    then show "core_settles (as_core a) r c"
      by (auto simp: tick_without_idle_cleanup_def intro: tick_interactive_settles tick_settles split: if_splits)
  next
    fix ts s1 assume "R s [] s1 ts"
    then show "says R E s (ok_terminals ts (sync_refresh s1))" by (rule ok_terminals_says [OF R_sync])
  qed
qed

lemma render_says: "says R E s (render_local_menu env now s)"
proof (cases "se_surface s")
  case None
  then show ?thesis
    using present_fallback_quiet [of env False s]
    by (auto simp: render_local_menu_def try_then_def says_def outstanding_def
        intro!: R_silent E_voice split: prod.splits sum.splits)
next
  case (Some a)
  show ?thesis
  proof (cases "menu_render (core_width (as_core a)) (core_height (as_core a))
      (cfg_profile (rc_refresh_policy (se_config s))) (partial_refresh_enabled (rc_refresh_policy (se_config s)))
      (se_last_custom s \<noteq> None) (dc_overlay (as_core a)) (se_menu s)")
    case None
    then show ?thesis using Some by (simp add: render_local_menu_def Let_def E_refl)
  next
    case r: (Some r)
    obtain overlay menu where om: "r = (overlay, menu)" by fastforce
    let ?s = "s\<lparr>se_menu := menu\<rparr>" and ?a = "a\<lparr>as_core := edit_overlay (\<lambda>_. overlay) (as_core a)\<rparr>"
    have "says R E ?s (try_then (run_core (present_overlay (re_backend env) now (clock_of env s)) ?a ?s)
        (\<lambda>terminals s1. ok_terminals terminals (sync_refresh s1)))"
    proof (rule says_core [where terms = "\<lambda>ts. ts"])
      show "outstanding ?s = owed_by (as_core ?a)" using Some by (simp add: outstanding_def owed_by_def)
      show "core_settles (as_core ?a) r c"
        if "present_overlay (re_backend env) now (clock_of env s) (as_core ?a) (se_panel ?s) = (Inr r, c, p)" for r c p
        using that by (rule present_overlay_settles)
      fix ts s1 assume "R ?s [] s1 ts"
      then show "says R E ?s (ok_terminals ts (sync_refresh s1))" by (rule ok_terminals_says [OF R_sync])
    qed
    moreover have "R s [] ?s []" by (rule R_silent) (simp_all add: same_voice_def outstanding_def)
    ultimately have "says R E s (try_then (run_core (present_overlay (re_backend env) now (clock_of env s)) ?a ?s)
        (\<lambda>terminals s1. ok_terminals terminals (sync_refresh s1)))" by (rule says_from [rotated])
    then show ?thesis using Some r by (simp add: render_local_menu_def Let_def om)
  qed
qed

end

definition says_pair ::
  "('p session \<Rightarrow> envelope list \<Rightarrow> 'p session \<Rightarrow> terminal_frame list \<Rightarrow> bool) \<Rightarrow>
   ('p session \<Rightarrow> 'p session \<Rightarrow> bool) \<Rightarrow> 'p session \<Rightarrow> ('p, 'a \<times> envelope list) session_step \<Rightarrow> bool" where
  "says_pair R E s m = (case m of (Inl _, s') \<Rightarrow> E s s' | (Inr (_, es), s') \<Rightarrow> R s es s' [])"

lemma says_pair_simps [simp]: "says_pair R E s (Inl e, s') = E s s'" "says_pair R E s (Inr (a, es), s') = R s es s' []"
  by (simp_all add: says_pair_def)

lemma rearm_ink_core [simp]: "as_core (rearm_ink now a) = as_core a"
  by (simp add: rearm_ink_def)

lemma owed_by_edits [simp]: "owed_by (edit_ink f c) = owed_by c" "owed_by (edit_overlay f c) = owed_by c"
    "owed_by (edit_peer_overlay f c) = owed_by c"
  by (simp_all add: owed_by_def)

lemma core_new_pending: "core_new_with_format w h f fps dl config = Inr c \<Longrightarrow> dc_pending c = None"
  by (auto simp: core_new_with_format_def Let_def and_then_Inr_iff)

lemma restore_debt_pending: "restore_refresh_debt d c = (r, c') \<Longrightarrow> dc_pending c' = dc_pending c"
  by (auto simp: restore_refresh_debt_def split: sum.splits)

context emission
begin

lemma says_core_at:
  assumes "same_voice s s0" and "outstanding s0 = outstanding s" and "outstanding s0 = owed_by (as_core a)"
    and "\<And>r c p. f (as_core a) (se_panel s0) = (Inr r, c, p) \<Longrightarrow> core_settles (as_core a) (terms r) c"
    and "\<And>x s1. R s [] s1 (terms x) \<Longrightarrow> says R E s (g x s1)"
  shows "says R E s (try_then (run_core f a s0) g)"
proof (cases "run_core f a s0")
  case (Pair r s1)
  have start: "R s [] s0 []" by (rule R_silent [OF assms(1,2)])
  show ?thesis
  proof (cases r)
    case (Inl e)
    then show ?thesis using Pair R_error [OF start run_core_voice [OF Pair]] by simp
  next
    case (Inr x)
    note run = Pair [unfolded Inr]
    have "R s0 [] s1 (terms x)" by (rule R_moves, rule moves_core [OF run assms(3,4)])
    then have "R s [] s1 (terms x)" using R_then [OF start] by simp
    then show ?thesis using run assms(5) by simp
  qed
qed

lemma R_then_answer:
  assumes "R s es s1 []" and "wrap_body b s1 = (e, s2)" and "\<not> is_frame_result b" and "\<not> is_batch b"
  shows "R s (es @ [e]) s2 []"
  by (rule R_then [OF assms(1) R_answer [OF assms(2-4)]])

lemma clear_ink_says: "says R E s (clear_ink env now s)"
proof (cases "se_surface s")
  case None
  then show ?thesis by (simp add: clear_ink_def E_refl)
next
  case (Some a)
  show ?thesis
    unfolding clear_ink_def Some option.case
    by (rule says_core_at [where terms = "\<lambda>ts. ts"])
      (auto simp: Some same_voice_def intro: present_ink_settles ok_terminals_says
        dest!: present_ink_settles [where c = "edit_ink overlay_clear (as_core a)"])
qed

lemma cleanup_says_pair: "says_pair R E s (session_request_cleanup env now s)"
proof (cases "se_surface s")
  case None
  have "R s [] (s\<lparr>se_cleanup_pending := True\<rparr>) []"
    by (rule R_silent) (simp_all add: same_voice_def outstanding_def)
  then show ?thesis
    by (simp add: session_request_cleanup_def None idle_report_def terminal_results_def)
next
  case (Some a)
  show ?thesis
  proof (cases "run_core (request_cleanup (re_backend env) now (clock_of env s)) a s")
    case (Pair r s1)
    show ?thesis
    proof (cases r)
      case (Inl e)
      then show ?thesis using Pair E_voice [OF run_core_voice [OF Pair]]
        by (simp add: session_request_cleanup_def Some)
    next
      case (Inr report)
      note run = Pair [unfolded Inr]
      have "moves s (report_terminals report) s1"
        by (rule moves_core [OF run]) (use Some in \<open>auto intro: request_cleanup_settles\<close>)
      then have "R s [] s1 (report_terminals report)" by (rule R_moves)
      moreover obtain s2 where s2: "s2 = s1\<lparr>se_refresh_debt :=
           (case se_surface s1 of None \<Rightarrow> se_refresh_debt s1 | Some a' \<Rightarrow> core_refresh_debt (as_core a')),
         se_cleanup_pending := report_cleanup_pending report\<rparr>" by simp
      ultimately have "R s [] s2 (report_terminals report)"
        by (elim R_quiet) (simp_all add: same_voice_def outstanding_def)
      then have "R s (fst (terminal_results (report_terminals report) s2))
          (snd (terminal_results (report_terminals report) s2)) []"
        using R_results [of s "[]" s2] by fastforce
      then show ?thesis
        using run by (auto simp: session_request_cleanup_def Some s2 split: prod.split)
    qed
  qed
qed

lemma local_cleanup_says: "says R E s (local_cleanup env now s)"
proof (cases "se_surface s = None")
  case True
  then show ?thesis
    using present_fallback_quiet [of env True s]
    by (auto simp: local_cleanup_def try_then_def says_def outstanding_def
        intro!: R_silent E_voice split: prod.splits sum.splits)
next
  case False
  then show ?thesis
    using cleanup_says_pair [of s env now]
    by (auto simp: local_cleanup_def try_then_def says_def says_pair_def split: prod.splits sum.splits)
qed

lemma close_menu_says: "says R E s (close_local_menu env now s)"
proof -
  have "R s [] (s\<lparr>se_menu := menu_close (se_menu s)\<rparr>) []"
    by (rule R_silent) (simp_all add: same_voice_def outstanding_def)
  from says_from [OF this render_says] show ?thesis
    by (simp add: close_local_menu_def R_refl)
qed

lemma set_frozen_settles:
  assumes "(if frozen then freeze_presented c else (None, c)) = (t, c')"
  shows "core_settles c (case t of None \<Rightarrow> [] | Some t \<Rightarrow> [t]) c'"
  using assms by (auto intro: freeze_settles core_settles_same split: if_splits)


lemma profile_reply_says: "says R E s (profile_reply request code message s)"
  by (auto simp: profile_reply_def profile_result_env_def intro: R_answer split: prod.splits)

lemma apply_profile_says: "says R E s (apply_profile env request next_policy now s)"
proof -
  let ?s1 = "if cfg_profile next_policy = Custom then s\<lparr>se_last_custom := Some next_policy\<rparr> else s"
  let ?s = "set_policy next_policy ?s1"
  have quiet: "same_voice s ?s" "se_surface ?s = se_surface s" by (simp_all add: set_policy_def same_voice_def)
  have finish: "says R E s
      (case terminal_results (change_terminals report)
               (s3\<lparr>se_cleanup_pending := change_cleanup_pending report\<rparr>) of
              (results, s4) \<Rightarrow>
                (case profile_result_env request
                    (if change_changed report then ProfileApplied else ProfileUnchanged) next_policy
                    (change_cleanup_performed report) (change_cleanup_pending report)
                    (profile_message (change_backend_failed report) (change_cleanup_performed report)
                      (change_cleanup_pending report) (change_changed report)) s4 of
                   (e, s5) \<Rightarrow> (Inr (results @ [e]), s5)))"
    if r: "R s [] s3 (change_terminals report)" for s3 report
  proof -
    have r3: "R s [] (s3\<lparr>se_cleanup_pending := change_cleanup_pending report\<rparr>) (change_terminals report)"
      using r by (rule R_quiet) (simp_all add: same_voice_def outstanding_def)
    show ?thesis
      using R_results [OF r3]
      by (auto simp: profile_result_env_def says_def intro!: R_then_answer split: prod.split)
  qed
  show ?thesis
  proof (cases "se_surface s")
    case (Some a)
    then have sa: "se_surface ?s = Some a" by (simp only: quiet(2))
    show ?thesis
      unfolding apply_profile_def Let_def sa option.case
    proof (rule says_core_at [where terms = change_terminals, OF quiet(1)])
      show "outstanding ?s = outstanding s" by (simp only: outstanding_def quiet(2))
      show "outstanding ?s = owed_by (as_core a)" by (simp only: outstanding_def sa option.case)
    qed (rule change_profile_settles finish; assumption)+
  next
    case None
    have n: "se_surface ?s = None" using None by (simp only: quiet(2))
    let ?c = "next_policy \<noteq> rc_refresh_policy (se_config s)"
    have "R s [] (?s\<lparr>se_cleanup_pending := (se_cleanup_pending ?s \<or> ?c)\<rparr>) []"
      by (rule R_silent) (use None in \<open>simp_all add: set_policy_def same_voice_def outstanding_def\<close>)
    then show ?thesis
      unfolding apply_profile_def Let_def n option.case try_then_simps
      by (intro finish) simp
  qed
qed

lemma profile_says: "says R E s (handle_epaper_profile env request now s)"
proof -
  let ?s = "s\<lparr>se_last_profile_request := pq_request_id request\<rparr>"
  have start: "R s [] ?s []" by (rule R_silent) (simp_all add: same_voice_def outstanding_def)
  have reply: "says R E s (profile_reply request code message ?s)" for code message
    by (rule says_from [OF start profile_reply_says])
  show ?thesis
    using says_from [OF start apply_profile_says] reply profile_reply_says
    by (simp add: handle_epaper_profile_def Let_def split: sum.split)
qed

lemma refresh_reply_says: "says R E s (refresh_reply_ok request code message s)"
  by (auto simp: refresh_reply_ok_def refresh_reply_def intro: R_answer split: prod.splits)

lemma update_refresh_says: "says R E s (update_refresh request s)"
proof -
  let ?next = "updated_policy request (rc_refresh_policy (se_config s))"
  have finish: "says R E s (refresh_reply_ok request code message (set_policy ?next s1))"
    if "R s [] s1 []" for s1 code message
    by (rule says_from [OF R_quiet [OF that] refresh_reply_says])
      (simp_all add: set_policy_quiet outstanding_def)
  show ?thesis
  proof (cases "se_surface s")
    case None
    then show ?thesis using refresh_reply_says finish [OF R_refl]
      by (simp add: update_refresh_def Let_def)
  next
    case (Some a)
    have "says R E s (try_then (run_core (\<lambda>c p. case update_refresh_config ?next c of (r, c') \<Rightarrow> (r, c', p)) a s)
        (\<lambda>changed s1. refresh_reply_ok request (if changed then RefreshApplied else RefreshUnchanged)
           (if changed then ''receiver refresh parameters applied''
            else ''requested refresh parameters are already active'') (set_policy ?next s1)))"
      by (rule says_core_at [where terms = "\<lambda>_. []"])
        (use Some finish in \<open>auto simp: same_voice_def intro!: core_settles_same
          dest: update_config_settles split: prod.splits\<close>)
    then show ?thesis using refresh_reply_says Some by (simp add: update_refresh_def Let_def)
  qed
qed

lemma cleanup_request_says: "says R E s (cleanup_on_request env request now s)"
  using cleanup_says_pair [of s env now]
  by (auto simp: cleanup_on_request_def try_then_def says_def says_pair_def refresh_reply_def
      intro!: R_then_answer split: prod.split sum.split)

lemma refresh_says: "says R E s (handle_epaper_refresh env request now s)"
proof -
  let ?s = "s\<lparr>se_last_refresh_request := rq_request_id request\<rparr>"
  have start: "R s [] ?s []" by (rule R_silent) (simp_all add: same_voice_def outstanding_def)
  show ?thesis
    using says_from [OF start update_refresh_says] says_from [OF start cleanup_request_says]
      says_from [OF start refresh_reply_says] refresh_reply_says
    by (simp add: handle_epaper_refresh_def Let_def)
qed


lemma accept_hello_says:
  "says R E s (try_then (accept_hello env hello s) (\<lambda>e s1. (Inr [e], s1)))"
proof -
  have "R s [] (negotiate info hello minor s) []" for info minor
    by (rule R_silent) (simp_all add: negotiate_def Let_def same_voice_def outstanding_def)
  from R_then_answer [OF this] show ?thesis
    by (auto simp: accept_hello_def Let_def E_refl split: sum.split prod.split)
qed

lemma answer_overlay_says: "says R E s (answer_overlay env update valid now s)"
proof (cases "overlay_problem update valid s")
  case (Some problem)
  then show ?thesis
    by (auto simp: answer_overlay_def overlay_result_body_def Let_def intro: R_answer split: prod.split)
next
  case None
  then obtain a where a: "se_surface s = Some a"
    by (auto simp: overlay_problem_def split: if_splits option.splits)
  obtain r a' where edit: "overlay_edit update now a = (r, a')" by fastforce
  have owed: "owed_by (as_core a') = owed_by (as_core a)"
    using edit by (auto simp: overlay_edit_def Let_def split: if_splits option.splits prod.splits sum.splits bool.splits)
  show ?thesis
  proof (cases r)
    case (Inl e)
    then show ?thesis
      using None a edit by (auto simp: answer_overlay_def Let_def same_voice_def intro!: E_voice)
  next
    case (Inr u)
    have "says R E s (try_then (run_core (present_overlay (re_backend env) now (clock_of env s)) a' s)
        (\<lambda>terminals s2. case terminal_results terminals s2 of (results, s3) \<Rightarrow>
           (case wrap_body (overlay_result_body update saw True [] s2) s3 of
              (e, s4) \<Rightarrow> (Inr (results @ [e]), s4))))" for saw
    proof (rule says_core [where terms = "\<lambda>ts. ts"])
      show "outstanding s = owed_by (as_core a')" by (simp add: outstanding_def a owed)
    next
      fix ts s2 assume "R s [] s2 ts"
      from R_results [OF this]
      show "says R E s (case terminal_results ts s2 of (results, s3) \<Rightarrow>
           (case wrap_body (overlay_result_body update saw True [] s2) s3 of
              (e, s4) \<Rightarrow> (Inr (results @ [e]), s4)))"
        by (auto simp: overlay_result_body_def intro!: R_then_answer split: prod.split)
    qed (rule present_overlay_settles)
    then show ?thesis using None a edit Inr by (simp add: answer_overlay_def Let_def)
  qed
qed

lemma overlay_says: "says R E s (handle_overlay_update env update now s)"
proof -
  have start: "R s [] (if v then s\<lparr>se_overlay_sequence := ou_sequence update\<rparr> else s) []" for v
    by (rule R_silent) (simp_all add: same_voice_def outstanding_def)
  show ?thesis
    unfolding handle_overlay_update_def Let_def by (rule says_from [OF start answer_overlay_says])
qed

lemma R_cancel:
  assumes "R s [] s1 []" and "cancel_surface s1 = (ts, s2)"
  shows "R s [] s2 ts" and "outstanding s2 = {#}"
proof -
  have "moves s1 ts s2 \<and> outstanding s2 = {#}"
    using assms(2) cancel_settles
    by (auto simp: cancel_surface_def moves_def same_voice_def outstanding_def core_settles_def
        cancel_pending_def owed_by_def split: option.splits prod.splits)
  then show "R s [] s2 ts" "outstanding s2 = {#}"
    using R_trans [OF assms(1) R_moves] by auto
qed

lemma R_leave:
  assumes "R s es s3 []" and "outstanding s3 = {#}"
    and "case surface of None \<Rightarrow> True | Some a \<Rightarrow> dc_pending (as_core a) = None"
  shows "R s es ((leave_surface s3)\<lparr>se_surface := surface\<rparr>) []"
  using assms(2,3)
  by (intro R_quiet [OF assms(1)]) (auto simp: leave_surface_def same_voice_def outstanding_def owed_by_def
      split: option.splits)

lemma close_says: "R s (fst (close_surface surface_id generation s)) (snd (close_surface surface_id generation s)) []"
proof (cases "is_surface surface_id generation s")
  case False
  then show ?thesis by (simp add: close_surface_def R_refl)
next
  case True
  obtain ts s1 where c: "cancel_surface s = (ts, s1)" by fastforce
  obtain s2 where s2: "s2 = s1\<lparr>se_cleanup_pending :=
                  (case se_surface s1 of None \<Rightarrow> False | Some a \<Rightarrow> dc_force_cleanup_next (as_core a)),
                se_refresh_debt :=
                  (case se_surface s1 of None \<Rightarrow> se_refresh_debt s1 | Some a \<Rightarrow> core_refresh_debt (as_core a))\<rparr>" by simp
  obtain es s3 where r: "terminal_results ts s2 = (es, s3)" by fastforce
  have "R s [] s2 ts"
    by (rule R_quiet [OF R_cancel(1) [OF R_refl c]]) (simp_all add: s2 same_voice_def outstanding_def)
  from R_results [OF this r] have "R s es s3 []" by simp
  moreover have "outstanding s3 = {#}"
    using R_cancel(2) [OF R_refl c] terminal_results_keeps [OF r] by (simp add: outstanding_def s2)
  ultimately have "R s es ((leave_surface s3)\<lparr>se_surface := None\<rparr>) []" by (rule R_leave) simp
  then show ?thesis
    using True c r by (simp add: close_surface_def Let_def s2)
qed

lemma new_core_pending: "new_core info format s = Inr core \<Longrightarrow> dc_pending core = None"
  by (auto simp: new_core_def and_then_Inr_iff Let_def dest!: core_new_pending restore_debt_pending
      split: if_splits sum.splits prod.splits)

lemma open_says: "says R E s (open_surface env open s)"
proof (cases "check_open open s")
  case (Inl e)
  then show ?thesis by (simp add: open_surface_def E_refl)
next
  case (Inr format)
  obtain gen next_gen where g: "take_counter (se_next_generation s) = (gen, next_gen)" by fastforce
  obtain s1 info where s1: "s1 = s\<lparr>se_next_generation := next_gen\<rparr>"
    and info: "info = panel_info_of (re_backend env) (se_panel s)" by simp
  show ?thesis
  proof (cases "new_core info format s1")
    case (Inl e)
    then show ?thesis using Inr g s1 info
      by (auto simp: open_surface_def Let_def same_voice_def intro!: E_voice)
  next
    case core: (Inr core)
    obtain ts s2 where c: "cancel_surface (s1\<lparr>se_cleanup_pending := carried_cleanup s1,
        se_refresh_debt := carried_debt s1\<rparr>) = (ts, s2)" by fastforce
    obtain es s3 where r: "terminal_results ts s2 = (es, s3)" by fastforce
    have start: "R s [] (s1\<lparr>se_cleanup_pending := carried_cleanup s1, se_refresh_debt := carried_debt s1\<rparr>) []"
      by (rule R_silent) (simp_all add: s1 same_voice_def outstanding_def)
    have "R s es s3 []" using R_results [OF R_cancel(1) [OF start c] r] by simp
    moreover have "outstanding s3 = {#}"
      using R_cancel(2) [OF start c] terminal_results_keeps [OF r] by (simp add: outstanding_def)
    ultimately have "R s es ((leave_surface s3)\<lparr>se_surface := Some (new_surface open gen core (leave_surface s3))\<rparr>) []"
      by (rule R_leave) (simp add: new_surface_def new_core_pending [OF core])
    from R_then_answer [OF this] show ?thesis
      using Inr g core c r by (auto simp: open_surface_def Let_def s1 info split: prod.split)
  qed
qed

lemma body_says:
  assumes "\<not> (\<exists>fr. body = FrameBody fr)"
  shows "says R E s (handle_body env body now s)"
proof (cases "se_established s")
  case False
  then show ?thesis by (cases body) (simp_all add: handle_body_def accept_hello_says E_refl)
next
  case True
  have opened: "says R E s (try_then (open_surface env open s) (\<lambda>es s1. (Inr es, s1\<lparr>se_input_not_before := now\<rparr>)))"
    for "open"
    by (rule says_then [OF open_says], unfold says_simps, erule R_quiet)
      (simp_all add: same_voice_def outstanding_def)
  have closed: "R s [] (s\<lparr>se_closed := True\<rparr>) []" by (rule R_silent) (simp_all add: same_voice_def outstanding_def)
  show ?thesis
    using True assms opened closed close_says overlay_says profile_says refresh_says
    by (cases body) (auto simp: handle_body_def infallible_def E_refl R_refl intro!: R_answer split: prod.split)
qed

lemma header_says: "validate_envelope_header e s = (Inr (), s') \<Longrightarrow> R s [] s' []"
  "validate_envelope_header e s = (Inl err, s') \<Longrightarrow> E s s'"
  by (auto simp: validate_envelope_header_def same_voice_def outstanding_def intro!: R_silent E_voice split: if_splits)

text \<open>What follows the body of a message, once the body has been handled.\<close>

lemma handle_after:
  assumes "says R E s m"
  shows "says R E s (try_then m (\<lambda>responses s2. if poll_after
      then try_then (session_poll env now s2) (\<lambda>es2 s3. (Inr (responses @ es2), s3))
      else (Inr responses, s2)))"
  by (rule says_then [OF assms]) (use says_prefix [OF _ poll_says] in auto)

lemma handle_says:
  assumes "\<And>body s1. env_body e = Some body \<Longrightarrow> says R E s1 (handle_body env body now s1)"
  shows "says R E s (handle_inner env e now poll_after s)"
proof (cases "validate_envelope_header e s")
  case (Pair r s1)
  show ?thesis
  proof (cases r)
    case (Inl err)
    then show ?thesis using Pair header_says(2) by (simp add: handle_inner_def)
  next
    case (Inr u)
    have start: "R s [] s1 []" using Pair Inr header_says(1) by simp
    show ?thesis
    proof (cases "env_body e")
      case None
      then show ?thesis using Pair Inr R_error [OF start, of s1]
        by (simp add: handle_inner_def same_voice_def)
    next
      case (Some body)
      from says_from [OF start handle_after [OF assms [OF Some]]]
      show ?thesis using Pair Inr Some by (simp add: handle_inner_def)
    qed
  qed
qed

end

end
