(* ===== verification/Emission_Input.thy ===== *)
theory Emission_Input
  imports Emission
begin

text \<open>
  The handlers of physical input, for two extensions of the interface: \<open>emission_batch\<close>, where
  a property also covers forwarded input, and \<open>emission_lossy\<close>, where it does not depend on what
  was emitted and lost, as when the menu closes the application. The menu can do both.
\<close>

locale emission_batch = emission R E
  for R :: "'p session \<Rightarrow> envelope list \<Rightarrow> 'p session \<Rightarrow> terminal_frame list \<Rightarrow> bool"
    and E :: "'p session \<Rightarrow> 'p session \<Rightarrow> bool" +
  assumes R_batch: "wrap_body (InputBatch b) s = (e, s') \<Longrightarrow> R s [e] s' []"

locale emission_lossy = emission R E
  for R :: "'p session \<Rightarrow> envelope list \<Rightarrow> 'p session \<Rightarrow> terminal_frame list \<Rightarrow> bool"
    and E :: "'p session \<Rightarrow> 'p session \<Rightarrow> bool" +
  assumes R_lossy: "E s s' \<Longrightarrow> R s [] s' []"

locale emission_input = emission_batch R E + emission_lossy R E
  for R :: "'p session \<Rightarrow> envelope list \<Rightarrow> 'p session \<Rightarrow> terminal_frame list \<Rightarrow> bool"
    and E :: "'p session \<Rightarrow> 'p session \<Rightarrow> bool"

section \<open>Pen\<close>

lemma pen_filter_core: "pen_filter r a = (keep, a') \<Longrightarrow> as_core a' = as_core a"
  by (cases "pr_phase r") (auto simp: pen_filter_def Let_def split: if_splits)

lemma pen_filter_all_core: "pen_filter_all rs a = (kept, a') \<Longrightarrow> as_core a' = as_core a"
  by (induction rs arbitrary: a kept) (auto dest: pen_filter_core split: prod.splits)

lemma draw_pen_owed [simp]: "owed_by (as_core (draw_pen r a)) = owed_by (as_core a)"
  by (simp add: draw_pen_def Let_def)

lemma pen_ink_settles:
  assumes "pen_ink freeze physical now r a = (ts, a')"
  shows "core_settles (as_core a) ts (as_core a')"
proof -
  have same: "core_settles c [] c" for c by (rule core_settles_same) simp
  have drawn: "core_settles c ts (as_core (draw_pen r b)) = core_settles c ts (as_core b)" for c ts b
    by (simp add: core_settles_def)
  have phase: "as_core (case pr_phase r of PhaseDown \<Rightarrow> a\<lparr>as_ink_needs_down := False\<rparr>
      | PhaseUp \<Rightarrow> a\<lparr>as_ink_needs_down := True\<rparr> | PhaseCancel \<Rightarrow> a\<lparr>as_ink_needs_down := True\<rparr> | _ \<Rightarrow> a) = as_core a"
    by (cases "pr_phase r") simp_all
  obtain a1 where a1: "a1 = (case pr_phase r of PhaseDown \<Rightarrow> a\<lparr>as_ink_needs_down := False\<rparr>
      | PhaseUp \<Rightarrow> a\<lparr>as_ink_needs_down := True\<rparr> | PhaseCancel \<Rightarrow> a\<lparr>as_ink_needs_down := True\<rparr> | _ \<Rightarrow> a)" by simp
  show ?thesis
    using assms freeze_settles [of "as_core a1"] phase
    unfolding pen_ink_def Let_def a1 [symmetric]
    by (auto simp: same drawn split: if_splits prod.splits option.splits)
qed

lemma pen_ink_all_settles:
  "pen_ink_all freeze physical now rs a = (ts, a') \<Longrightarrow> core_settles (as_core a) ts (as_core a')"
proof (induction rs arbitrary: a ts)
  case Nil
  then show ?case by (simp add: core_settles_same)
next
  case (Cons r rs)
  then show ?case by (auto intro: core_settles_trans dest: pen_ink_settles split: prod.splits)
qed

context emission_batch
begin

lemma R_then_batch: "R s es s1 ts \<Longrightarrow> wrap_body (InputBatch b) s1 = (e, s2) \<Longrightarrow> R s (es @ [e]) s2 ts"
  using R_trans [of s es s1 ts "[e]" s2 "[]"] R_batch by simp

lemma pointer_batch_says:
  assumes "R s es s1 ts" and "pointer_batch surface_id generation report now s1 = (e, s2)"
  shows "R s (es @ [e]) s2 ts"
proof -
  have "R s es (s1\<lparr>se_next_input_sequence := q\<rparr>) ts" for q
    by (rule R_quiet [OF assms(1)]) (simp_all add: same_voice_def outstanding_def)
  then show ?thesis
    using assms(2) by (auto simp: pointer_batch_def intro: R_then_batch split: prod.splits)
qed

lemma maybe_batch:
  assumes "R s es s1 []"
    and "(if events = [] then ([], s1)
      else (case pointer_batch surface_id generation events now s1 of (e, s') \<Rightarrow> ([e], s'))) = (out, s2)"
  shows "R s (es @ out) s2 []"
proof (cases "events = []")
  case True
  then show ?thesis using assms by simp
next
  case False
  then obtain e where "pointer_batch surface_id generation events now s1 = (e, s2)" "out = [e]"
    using assms(2) by (auto split: prod.splits)
  then show ?thesis using pointer_batch_says [OF assms(1)] by simp
qed

lemma frozen_says: "says R E s (set_frame_frozen frozen now s)"
proof (cases "se_surface s")
  case None
  then show ?thesis by (simp add: set_frame_frozen_def E_refl)
next
  case (Some a)
  let ?a = "rearm_ink now (a\<lparr>as_ink_frozen := frozen\<rparr>)"
  obtain t c where f: "(if frozen then freeze_presented (as_core ?a) else (None, as_core ?a)) = (t, c)" by fastforce
  obtain ts where ts: "ts = (case t of None \<Rightarrow> [] | Some t \<Rightarrow> [t])" by simp
  let ?s = "s\<lparr>se_surface := Some (?a\<lparr>as_core := c\<rparr>)\<rparr>"
  obtain es s2 where r: "terminal_results ts ?s = (es, s2)" by fastforce
  have "moves s ts ?s"
    using set_frozen_settles [OF f] Some
    by (simp add: moves_def same_voice_def outstanding_def core_settles_def ts)
  from R_results [OF R_moves [OF this] r] have "R s es s2 []" by simp
  then show ?thesis
    using Some f r pointer_batch_says
    by (auto simp: set_frame_frozen_def Let_def R_refl E_refl ts split: if_splits prod.split)
qed

lemma pen_step_says: "R s (fst (pen_report_step physical now records s)) (snd (pen_report_step physical now records s)) []"
proof -
  obtain s1 where s1: "s1 = (if physical then note_pen records now s else s)" by simp
  have quiet: "same_voice s s1" "se_surface s1 = se_surface s"
    by (simp_all add: s1 note_pen_def same_voice_def)
  have start: "R s [] s1 []" by (rule R_silent [OF quiet(1)]) (simp only: outstanding_def quiet(2))
  show ?thesis
  proof (cases "se_surface s1")
    case None
    then show ?thesis using start by (simp add: pen_report_step_def Let_def s1 [symmetric])
  next
    case (Some a)
    have keep: "R s [] (s1\<lparr>se_surface := Some a'\<rparr>) []" if "owed_by (as_core a') = owed_by (as_core a)" for a'
      by (rule R_quiet [OF start]) (simp_all add: same_voice_def outstanding_def Some that)
    obtain kept a1 where k: "pen_filter_all records a = (kept, a1)" by fastforce
    obtain ts a2 where i: "pen_ink_all (se_freeze_on_pen_down s1) physical now kept a1 = (ts, a2)" by fastforce
    let ?s2 = "s1\<lparr>se_surface := Some a2\<rparr>"
    have "moves s1 ts ?s2"
      using pen_ink_all_settles [OF i] pen_filter_all_core [OF k] Some
      by (simp add: moves_def same_voice_def outstanding_def core_settles_def)
    then have owed: "R s [] ?s2 ts" using R_trans [OF start R_moves] by simp
    then have "R s [] (?s2\<lparr>se_next_input_sequence := q\<rparr>) ts" for q
      by (rule R_quiet) (simp_all add: same_voice_def outstanding_def)
    note batch = R_then_batch [OF this, simplified]
    show ?thesis
      using start keep [of a1] keep [of "rearm_ink now (a\<lparr>as_pen_needs_down := True\<rparr>)"]
        pen_filter_all_core [OF k] Some k i R_results [OF owed] R_results [OF batch]
      by (auto simp: pen_report_step_def Let_def s1 [symmetric] split: prod.split)
  qed
qed

lemma pen_steps_says: "map_state (pen_report_step physical now) reports s = (ess, s') \<Longrightarrow> R s (concat ess) s' []"
proof (induction reports arbitrary: s ess)
  case Nil
  then show ?case by (simp add: R_refl)
next
  case (Cons r rs)
  then show ?case
    using R_then pen_step_says [of s physical now r] by (fastforce simp: Let_def split: prod.splits)
qed

lemma pen_says: "says R E s (pen_reports_inner env reports now physical s)"
proof -
  obtain ess s1 where m: "map_state (pen_report_step physical now) reports s = (ess, s1)" by fastforce
  note start = pen_steps_says [OF m]
  show ?thesis
  proof (cases "se_surface s1")
    case None
    then show ?thesis using m start by (simp add: pen_reports_inner_def)
  next
    case (Some a)
    have "says R E s1 (try_then (run_core (present_ink (re_backend env) now (clock_of env s1)) a s1) ok_terminals)"
      by (rule says_core [where terms = "\<lambda>ts. ts"])
        (use Some in \<open>auto intro: present_ink_settles ok_terminals_says\<close>)
    from says_prefix [OF start this] show ?thesis
      using m Some start
      by (auto simp: pen_reports_inner_def ok_terminals_eq try_then_def split: prod.splits sum.splits)
  qed
qed

text \<open>Cancelling the contacts and the pen of a surface.\<close>

lemma cancel_says:
  assumes "R s [] s1 []"
  shows "says R E s (case (if cancelled = [] then ([], s1)
       else (case pointer_batch surface_id generation cancelled now s1 of (e, s') \<Rightarrow> ([e], s'))) of
     (batch, s2) \<Rightarrow>
       (case last_pen of
          None \<Rightarrow> (Inr batch, s2)
        | Some r \<Rightarrow> try_then (pen_reports_inner env [[cancelled_pen r]] now physical s2)
            (\<lambda>es s3. (Inr (batch @ es), s3))))"
proof -
  obtain batch s2 where b: "(if cancelled = [] then ([], s1)
      else (case pointer_batch surface_id generation cancelled now s1 of (e, s') \<Rightarrow> ([e], s'))) = (batch, s2)"
    by fastforce
  have r: "R s batch s2 []" using maybe_batch [OF assms b] by simp
  show ?thesis
    unfolding b prod.case using r says_prefix [OF r pen_says] by (cases last_pen) simp_all
qed

lemma capture_failed_says: "says R E s (input_capture_failed env now s)"
proof -
  let ?s = "s\<lparr>se_gesture := gesture_new, se_pen_proximity := False\<rparr>"
  have start: "R s [] ?s []" by (rule R_silent) (simp_all add: same_voice_def outstanding_def)
  have unplug: "R s es (set_pen_available False s1) []" if "R s es s1 []" for es s1
    by (rule R_quiet [OF that]) (auto simp: set_pen_available_def same_voice_def outstanding_def split: option.splits)
  have finish: "says R E s (try_then m (\<lambda>es s1. (Inr es, set_pen_available False s1)))" if "says R E s m" for m
    by (rule says_then [OF that]) (simp add: unplug)
  show ?thesis
    unfolding input_capture_failed_def Let_def
  proof (rule finish, cases "se_surface ?s")
    case None
    then show "says R E s (case se_surface ?s of None \<Rightarrow> (Inr [], ?s) | Some a \<Rightarrow> f a)" for f
      using start by simp
  next
    case (Some a)
    show "says R E s (case se_surface ?s of None \<Rightarrow> (Inr [], ?s)
      | Some a \<Rightarrow> (case (if fst (surface_transition (se_gesture s)) = [] then ([], ?s)
          else (case pointer_batch (as_surface_id a) (as_generation a) (fst (surface_transition (se_gesture s))) now ?s of
            (e, s') \<Rightarrow> ([e], s'))) of
          (batch, s1) \<Rightarrow> (case as_last_pen a of None \<Rightarrow> (Inr batch, s1)
            | Some r \<Rightarrow> try_then (pen_reports_inner env [[cancelled_pen r]] now True s1)
                (\<lambda>es s2. (Inr (batch @ es), s2)))))"
      unfolding Some option.case by (rule cancel_says [OF start])
  qed
qed

lemma power_key_says: "says R E s (power_key_pressed env now s)"
proof -
  let ?s = "s\<lparr>se_last_interaction := now\<rparr>"
  have start: "R s [] ?s []" by (rule R_silent) (simp_all add: same_voice_def outstanding_def)
  obtain cancelled g where g: "surface_transition (se_gesture ?s) = (cancelled, g)" by fastforce
  have s1: "R s [] (?s\<lparr>se_gesture := g\<rparr>) []" by (rule R_silent) (simp_all add: same_voice_def outstanding_def)
  have menu: "says R E s (try_then m (\<lambda>responses s5.
       try_then (render_local_menu env now (s5\<lparr>se_menu := menu_toggle (se_menu s5)\<rparr>))
         (\<lambda>es2 s6. (Inr (responses @ es2), s6))))" if "says R E s m" for m
  proof (rule says_then [OF that])
    fix es s5 assume "R s es s5 []"
    then have "R s es (s5\<lparr>se_menu := menu_toggle (se_menu s5)\<rparr>) []"
      by (rule R_quiet) (simp_all add: same_voice_def outstanding_def)
    then show "says R E s (try_then (render_local_menu env now (s5\<lparr>se_menu := menu_toggle (se_menu s5)\<rparr>))
         (\<lambda>es2 s6. (Inr (es @ es2), s6)))"
      by (rule says_prefix [OF _ render_says])
  qed
  have surface: "says R E s (case se_surface (?s\<lparr>se_gesture := g\<rparr>) of
       None \<Rightarrow> (Inr [], ?s\<lparr>se_gesture := g\<rparr>)
     | Some a \<Rightarrow>
         let s2 = ?s\<lparr>se_gesture := g, se_surface := Some (a\<lparr>as_pen_point := None, as_pen_needs_down := True,
                   as_last_pen := None\<rparr>)\<rparr>;
             (batch, s3) = (if cancelled = [] then ([], s2)
               else case pointer_batch (as_surface_id a) (as_generation a) cancelled now s2 of
                 (e, s') \<Rightarrow> ([e], s'))
         in case as_last_pen a of
              None \<Rightarrow> (Inr batch, s3)
            | Some r \<Rightarrow> try_then (pen_reports_inner env [[cancelled_pen r]] now False s3)
                (\<lambda>es s4. (Inr (batch @ es), s4)))"
  proof (cases "se_surface s")
    case None
    then show ?thesis using s1 by simp
  next
    case (Some a)
    have s2: "R s [] (?s\<lparr>se_gesture := g, se_surface := Some (a\<lparr>as_pen_point := None, as_pen_needs_down := True,
                   as_last_pen := None\<rparr>)\<rparr>) []"
      by (rule R_quiet [OF s1]) (simp_all add: same_voice_def outstanding_def Some)
    have sa: "se_surface (?s\<lparr>se_gesture := g\<rparr>) = Some a" using Some by simp
    show ?thesis unfolding sa option.case Let_def by (rule cancel_says [OF s2])
  qed
  show ?thesis
    using menu [OF surface] start g by (simp add: power_key_pressed_def Let_def)
qed

end

section \<open>Menu actions\<close>

context emission_lossy
begin

lemma says_lossy: "says R E s (r, s') \<Longrightarrow> R s [] s' []"
  using R_lossy E_after [OF _ E_refl] by (cases r) (auto simp: says_def)

lemma leave_says:
  assumes "\<And>s1. same_voice s1 (request s1)" and "\<And>s1. se_surface (request s1) = se_surface s1"
  shows "says R E s (leave_through_menu env now request s)"
proof -
  let ?s = "s\<lparr>se_menu := menu_close (se_menu s)\<rparr>"
  obtain r s1 where r: "render_local_menu env now ?s = (r, s1)" by fastforce
  have start: "R s [] ?s []" by (rule R_silent) (simp_all add: same_voice_def outstanding_def)
  have "says R E s (r, s1)" using says_from [OF start render_says] r by metis
  then have "R s [] s1 []" by (rule says_lossy)
  then have "R s [] (request (s1\<lparr>se_closed := True\<rparr>)) []"
    by (rule R_quiet) (use assms [of "s1\<lparr>se_closed := True\<rparr>"] in \<open>simp_all add: same_voice_def outstanding_def\<close>)
  then show ?thesis by (simp add: leave_through_menu_def r)
qed

lemma menu_profile_says:
  "says R E s (handle_menu_action env (SetProfile profile) now s)"
proof (cases "if profile = Custom then se_last_custom s
    else Some (switched_to (rc_refresh_policy (se_config s)) profile)")
  case None
  then show ?thesis using render_says by (simp add: handle_menu_action_def)
next
  case (Some config)
  let ?s = "set_policy config s"
  have start: "R s [] ?s []" by (rule R_silent) (simp_all add: set_policy_quiet outstanding_def)
  have "says R E s (case se_surface ?s of
      Some a \<Rightarrow> try_then (run_core (change_refresh_profile (re_backend env) config now (clock_of env ?s)) a ?s)
        (\<lambda>report. ok_terminals (change_terminals report))
    | None \<Rightarrow> (Inr [], ?s))"
  proof (cases "se_surface ?s")
    case None
    then show ?thesis using start by simp
  next
    case (Some a)
    show ?thesis
      unfolding Some option.case
      by (rule says_core_at [where terms = change_terminals])
        (use Some in \<open>auto simp: set_policy_quiet outstanding_def intro: change_profile_settles ok_terminals_says\<close>)
  qed
  then have "says R E s (try_then (case se_surface ?s of
      Some a \<Rightarrow> try_then (run_core (change_refresh_profile (re_backend env) config now (clock_of env ?s)) a ?s)
        (\<lambda>report. ok_terminals (change_terminals report))
    | None \<Rightarrow> (Inr [], ?s))
    (\<lambda>responses s2. try_then (render_local_menu env now s2) (\<lambda>es2 s3. (Inr (responses @ es2), s3))))"
    by (rule says_then) (rule says_prefix [OF _ render_says])
  then show ?thesis using Some by (simp add: handle_menu_action_def Let_def)
qed

lemma menu_toggle_says: "says R E s (handle_menu_action env TogglePartialRefresh now s)"
proof -
  obtain config where config: "config = (rc_refresh_policy (se_config s))\<lparr>partial_refresh_enabled :=
      \<not> partial_refresh_enabled (rc_refresh_policy (se_config s))\<rparr>" by simp
  have finish: "says R E s (render_local_menu env now (set_policy config s1))" if "R s [] s1 []" for s1
    by (rule says_from [OF R_quiet [OF that] render_says]) (simp_all add: set_policy_quiet outstanding_def)
  show ?thesis
  proof (cases "se_surface s")
    case None
    then show ?thesis using finish [OF R_refl] by (simp add: handle_menu_action_def Let_def config)
  next
    case (Some a)
    have "says R E s (try_then (run_core (\<lambda>c p. case update_refresh_config config c of (r, c') \<Rightarrow> (r, c', p)) a s)
        (\<lambda>_ s1. render_local_menu env now (set_policy config s1)))"
      by (rule says_core [where terms = "\<lambda>_. []"])
        (use Some finish in \<open>auto intro!: core_settles_same dest: update_config_settles split: prod.splits\<close>)
    then show ?thesis using Some by (simp add: handle_menu_action_def Let_def config)
  qed
qed

lemma menu_action_says: "says R E s (handle_menu_action env action now s)"
proof (cases action)
  case CloseMenu
  have "R s [] (s\<lparr>se_menu := menu_close (se_menu s)\<rparr>) []"
    by (rule R_silent) (simp_all add: same_voice_def outstanding_def)
  from says_from [OF this render_says] show ?thesis by (simp add: handle_menu_action_def CloseMenu)
next
  case NewPair
  then show ?thesis by (simp add: handle_menu_action_def leave_says same_voice_def)
next
  case CloseApp
  then show ?thesis by (simp add: handle_menu_action_def leave_says same_voice_def)
next
  case FullRefresh
  then show ?thesis by (simp add: handle_menu_action_def local_cleanup_says)
qed (simp_all add: menu_profile_says menu_toggle_says)

end

section \<open>Touch\<close>

context emission_input
begin

lemma touch_step_says: "says R E s (input_report_step env target monotonic report s)"
proof -
  let ?s = "s\<lparr>se_last_interaction := max (se_last_interaction s) monotonic\<rparr>"
  have quiet: "R s [] (?s\<lparr>se_gesture := g\<rparr>) []" for g
    by (rule R_silent) (simp_all add: same_voice_def outstanding_def)
  note batch = pointer_batch_says [OF quiet, simplified]
  consider "monotonic < se_input_not_before s" | "\<not> monotonic < se_input_not_before s" "menu_visible (se_menu s)"
    | "\<not> monotonic < se_input_not_before s" "\<not> menu_visible (se_menu s)" by blast
  then show ?thesis
  proof cases
    case 1
    then show ?thesis
      by (auto simp: input_report_step_def Let_def quiet dest!: batch split: option.split prod.split)
  next
    case 2
    let ?s1 = "?s\<lparr>se_gesture := snd (gesture_process report False False (se_gesture s))\<rparr>"
    have "says R E s (try_then (handle_menu_action env action monotonic ?s1)
        (\<lambda>es s2. (Inr es, s2\<lparr>se_gesture := snd (surface_transition (se_gesture s2))\<rparr>)))" for action
      by (rule says_then [OF says_from [OF quiet menu_action_says]], unfold says_simps, erule R_quiet)
        (simp_all add: same_voice_def outstanding_def)
    then show ?thesis
      using 2 quiet by (simp add: input_report_step_def Let_def split: option.split)
  next
    case 3
    obtain r g where g: "gesture_process report (case target of None \<Rightarrow> False | Some (_, _, enabled) \<Rightarrow> enabled)
        (target \<noteq> None) (se_gesture s) = (r, g)" by fastforce
    let ?s1 = "?s\<lparr>se_gesture := g\<rparr>"
    show ?thesis
    proof (cases target)
      case None
      then show ?thesis using 3 g quiet by (simp add: input_report_step_def Let_def)
    next
      case (Some t)
      obtain sid gen enabled where t: "t = (sid, gen, enabled)" by (metis prod.exhaust)
      obtain cancel s2 where c: "(if gr_cancel r = [] then ([], ?s1)
          else (case pointer_batch sid gen (gr_cancel r) monotonic ?s1 of (e, s') \<Rightarrow> ([e], s'))) = (cancel, s2)" by fastforce
      obtain forward s3 where f: "(if gr_forward r = [] then ([], s2)
          else (case pointer_batch sid gen (gr_forward r) monotonic s2 of (e, s') \<Rightarrow> ([e], s'))) = (forward, s3)" by fastforce
      have r3: "R s (cancel @ forward) s3 []"
        using maybe_batch [OF maybe_batch [OF quiet c] f] by simp
      have "says R E s (try_then (local_cleanup env monotonic s3) (\<lambda>es s4. (Inr ((cancel @ forward) @ es), s4)))"
        by (rule says_prefix [OF r3 local_cleanup_says])
      then show ?thesis
        using 3 g c f r3 by (simp add: input_report_step_def Let_def Some t)
    qed
  qed
qed

lemma touch_says: "says R E s (input_reports_loop env target monotonic reports s)"
proof (induction reports arbitrary: s)
  case Nil
  then show ?case by (simp add: R_refl)
next
  case (Cons r rs)
  have "says R E s (try_then (input_report_step env target monotonic r s)
      (\<lambda>es s1. try_then (input_reports_loop env target monotonic rs s1) (\<lambda>es2 s2. (Inr (es @ es2), s2))))"
    by (rule says_then [OF touch_step_says]) (rule says_prefix [OF _ Cons.IH])
  then show ?case using Cons.IH by simp
qed

lemma input_reports_says: "says R E s (input_reports env reports monotonic s)"
  unfolding input_reports_def by (rule touch_says)

end

end
