(* ===== verification/Session_Example.thy ===== *)
theory Session_Example
  imports Session "HOL-Library.Code_Target_Numeral"
begin

text \<open>
  A concrete receiver for the evaluation of the session on examples: the mock panel of
  \<open>panel.rs\<close>, uncompressed regions, a clock that stands still between two readings, and the
  reserved zero token. The producer shakes hands, opens a surface and sends two frames.
\<close>

definition example_env :: "mock_panel receiver_env" where
  "example_env =
     \<lparr>re_backend = mock_backend,
      re_decoders = \<lparr>zlib_read = \<lambda>_ _. None, zstd_new = \<lambda>_. False, zstd_read = \<lambda>_ _. None,
        crc32_hash = \<lambda>_. 0\<rparr>,
      re_clock = \<lambda>_. \<lparr>obs_apply = 0, obs_compose = 0, obs_present = 0\<rparr>,
      re_validation_time = \<lambda>_. 0\<rparr>"

definition example_config :: receiver_config where
  "example_config =
     \<lparr>rc_verify_token = reserved_zero_token, rc_server_id = replicate 16 1, rc_name = ''display'',
      rc_limits = default_limits, rc_refresh_policy = for_profile Balanced,
      rc_ink_waveform = Fastest, rc_input_device = Some ''touch''\<rparr>"

definition example_session :: "mock_panel session" where
  "example_session = projr (session_new example_config (mock_new 1 1) 7)"

lemma example_session_new: "session_new example_config (mock_new 1 1) 7 = Inr example_session"
proof -
  have "\<not> isl (session_new example_config (mock_new 1 1) 7)" by code_simp
  then show ?thesis by (simp add: example_session_def)
qed

definition example_hello :: client_hello where
  "example_hello =
     \<lparr>ch_min_minor = 0, ch_max_minor = 1, ch_producer_kind = 1,
      ch_features = mandatory_features @ [feature_i32 ByteCredits, feature_i32 PointerInput],
      ch_pixel_formats = [pixel_format_i32 Gray8], ch_encodings = [encoding_i32 Raw],
      ch_client_id = replicate 16 2, ch_token = replicate 32 0, ch_client_nonce = replicate 16 3,
      ch_name = ''producer''\<rparr>"

definition example_open :: surface_open where
  "example_open =
     \<lparr>so_surface_id = 5, so_desired_width = 1, so_desired_height = 1,
      so_pixel_format = pixel_format_i32 Gray8, so_orientation = orientation_current,
      so_source_kind = 1, so_input_capabilities = [capability_i32 CapTouch],
      so_action_capabilities = [], so_label = ''example''\<rparr>"

definition example_frame :: "nat \<Rightarrow> u8 \<Rightarrow> frame" where
  "example_frame frame_id colour =
     \<lparr>frame_surface_id = 5, frame_generation = 1, frame_frame_id = frame_id, frame_base_id = 0,
      frame_intent_field = 1, frame_content_class = 1,
      frame_regions = [\<lparr>region_rect = Some (mk_rect 0 0 1 1), region_encoding = encoding_i32 Raw,
        decoded_len = 1, decoded_crc32 = 0, region_data = [colour]\<rparr>],
      source_timestamp_us = 0\<rparr>"

definition example_message :: "u64 \<Rightarrow> u32 \<Rightarrow> body \<Rightarrow> envelope" where
  "example_message session_id message_id body =
     \<lparr>env_session_id = session_id, env_message_id = message_id, env_body = Some body\<rparr>"

definition example_messages :: "envelope list" where
  "example_messages =
     [example_message 0 1 (ClientHello example_hello), example_message 7 2 (SurfaceOpen example_open),
      example_message 7 3 (FrameBody (example_frame 1 9)),
      example_message 7 4 (FrameBody (example_frame 2 8))]"

end
