(* ===== verification/Session_Order.thy ===== *)
theory Session_Order
  imports Emission_Input Session_Example
begin

text \<open>
  The numbering of the messages of a session, over every call its owner can make: the runs of
  \<open>server.rs\<close> and of an application's hook are lists of such calls. The counters of the session
  count the numbers they have given out; the number of the \<open>k\<close>-th one is \<open>k mod (2 ^ w - 1) + 1\<close>.
\<close>

section \<open>Calls\<close>

datatype session_call =
  Handle envelope | HandleDeferred envelope | Poll | TouchReports "pointer_event list list"
  | PenReports "pointer_record list list" | PowerKey | CaptureFailed | CloseLocalMenu | ClearInk
  | SetFrameFrozen bool | RequestCleanup | SetLocalInk bool | SetInkPaused bool | SetPenAvailable bool
  | SetFreezeOnPenDown bool | SetAutomaticIdleCleanup bool | ReportError session_error u32

definition no_envelopes :: "('p, unit) session_step \<Rightarrow> ('p, envelope list) session_step" where
  "no_envelopes m = try_then m (\<lambda>_ s. (Inr [], s))"

fun make_call :: "'p receiver_env \<Rightarrow> session_call \<Rightarrow> nat \<Rightarrow> 'p session \<Rightarrow> ('p, envelope list) session_step" where
  "make_call env (Handle e) now s = session_handle env e now s"
| "make_call env (HandleDeferred e) now s = session_handle_deferred env e now s"
| "make_call env Poll now s = session_poll env now s"
| "make_call env (TouchReports reports) now s = input_reports env reports now s"
| "make_call env (PenReports reports) now s = pen_reports env reports now s"
| "make_call env PowerKey now s = power_key_pressed env now s"
| "make_call env CaptureFailed now s = input_capture_failed env now s"
| "make_call env CloseLocalMenu now s = close_local_menu env now s"
| "make_call env ClearInk now s = clear_ink env now s"
| "make_call env (SetFrameFrozen frozen) now s = set_frame_frozen frozen now s"
| "make_call env RequestCleanup now s =
     try_then (session_request_cleanup env now s) (\<lambda>(_, es) s1. (Inr es, s1))"
| "make_call env (SetLocalInk enabled) now s = no_envelopes (set_local_ink enabled now s)"
| "make_call env (SetInkPaused paused) now s = no_envelopes (set_ink_paused paused now s)"
| "make_call env (SetPenAvailable available) now s = (Inr [], set_pen_available available s)"
| "make_call env (SetFreezeOnPenDown enabled) now s = (Inr [], set_freeze_on_pen_down enabled s)"
| "make_call env (SetAutomaticIdleCleanup enabled) now s = (Inr [], set_automatic_idle_cleanup enabled s)"
| "make_call env (ReportError error related) now s =
     (case session_protocol_error error related s of (e, s1) \<Rightarrow> (Inr [e], s1))"

text \<open>A run keeps going after an error, as the caller may; the error itself emits nothing.\<close>

fun session_run :: "'p receiver_env \<Rightarrow> (session_call \<times> nat) list \<Rightarrow> 'p session \<Rightarrow> envelope list \<times> 'p session" where
  "session_run env [] s = ([], s)"
| "session_run env ((call, now) # calls) s =
     (case make_call env call now s of
        (Inl _, s1) \<Rightarrow> session_run env calls s1
      | (Inr es, s1) \<Rightarrow> (case session_run env calls s1 of (es', s2) \<Rightarrow> (es @ es', s2)))"

section \<open>Every call speaks\<close>

context emission
begin

lemma no_envelopes_says:
  assumes "snd m = s' \<and> same_voice s s' \<and> outstanding s' = outstanding s"
  shows "says R E s (no_envelopes m)"
proof -
  obtain r where "m = (r, s')" using assms by (cases m) auto
  then show ?thesis using assms R_silent [of s s'] E_voice [of s s']
    by (cases r) (auto simp: no_envelopes_def)
qed

end

lemma set_local_ink_quiet: "same_voice s (snd (set_local_ink enabled now s)) \<and>
    outstanding (snd (set_local_ink enabled now s)) = outstanding s"
  by (auto simp: set_local_ink_def same_voice_def outstanding_def split: option.split)

lemma set_ink_paused_quiet: "same_voice s (snd (set_ink_paused paused now s)) \<and>
    outstanding (snd (set_ink_paused paused now s)) = outstanding s"
  by (auto simp: set_ink_paused_def same_voice_def outstanding_def split: option.split)

lemma settings_quiet:
  "same_voice s (set_pen_available b s) \<and> outstanding (set_pen_available b s) = outstanding s"
  "same_voice s (set_freeze_on_pen_down b s) \<and> outstanding (set_freeze_on_pen_down b s) = outstanding s"
  "same_voice s (set_automatic_idle_cleanup b s) \<and> outstanding (set_automatic_idle_cleanup b s) = outstanding s"
  by (auto simp: set_pen_available_def set_freeze_on_pen_down_def set_automatic_idle_cleanup_def
      same_voice_def outstanding_def split: option.splits)

text \<open>The calls of the batch interface: everything but frames, touch and the menu's exits.\<close>

fun plain_call :: "session_call \<Rightarrow> bool" where
  "plain_call (Handle e) = (\<not> (\<exists>fr. env_body e = Some (FrameBody fr)))"
| "plain_call (HandleDeferred e) = (\<not> (\<exists>fr. env_body e = Some (FrameBody fr)))"
| "plain_call (TouchReports reports) = False"
| "plain_call _ = True"

context emission_batch
begin

lemma plain_handle_says:
  assumes "\<not> (\<exists>fr. env_body e = Some (FrameBody fr))"
  shows "says R E s (handle_inner env e now poll_after s)"
  using assms by (intro handle_says body_says) auto

lemma plain_call_says: "plain_call call \<Longrightarrow> says R E s (make_call env call now s)"
proof (cases call)
  case RequestCleanup
  then show ?thesis
    using cleanup_says_pair [of s env now]
    by (auto simp: try_then_def says_def says_pair_def split: prod.splits sum.splits)
next
  case (ReportError error related)
  then show ?thesis
    by (auto simp: session_protocol_error_def intro: R_answer split: prod.split)
next
  case (SetLocalInk b)
  then show ?thesis
    using no_envelopes_says [of "set_local_ink b now s" "snd (set_local_ink b now s)" s] set_local_ink_quiet by auto
next
  case (SetInkPaused b)
  then show ?thesis
    using no_envelopes_says [of "set_ink_paused b now s" "snd (set_ink_paused b now s)" s] set_ink_paused_quiet by auto
qed (auto simp: session_handle_def session_handle_deferred_def pen_reports_def settings_quiet
    intro!: plain_handle_says poll_says pen_says power_key_says capture_failed_says close_menu_says
      clear_ink_says frozen_says R_silent)

end

section \<open>Counters\<close>

definition next_counter :: "'a::len word \<Rightarrow> 'a word" where
  "next_counter c = snd (take_counter c)"

lemma take_counter_nonzero: "c \<noteq> 0 \<Longrightarrow> take_counter c = (c, if c + 1 = 0 then 1 else c + 1)"
proof -
  have m: "max d 1 = d" if "d \<noteq> 0" for d :: "'a word"
  proof -
    have "unat d \<noteq> 0" using that by (simp add: unat_eq_0)
    then have "(1 :: 'a word) \<le> d" by (simp add: word_le_nat_alt)
    then show ?thesis by (simp add: max_absorb1)
  qed
  assume "c \<noteq> 0"
  then show ?thesis using m [of "c + 1"] m [of c] by (auto simp: take_counter_def Let_def max_def)
qed

lemma next_counter_nonzero: "c \<noteq> 0 \<Longrightarrow> next_counter c = (if c + 1 = 0 then 1 else c + 1)"
  by (simp add: next_counter_def take_counter_nonzero)

text \<open>The \<open>k\<close>-th number a counter that starts at one gives out.\<close>

lemma counter_at:
  assumes "1 < LENGTH('a::len)"
  shows "unat ((next_counter ^^ k) (1 :: 'a word)) = k mod (2 ^ LENGTH('a) - 1) + 1"
proof (induction k)
  case 0
  then show ?case by simp
next
  case (Suc k)
  let ?n = "2 ^ LENGTH('a) - 1 :: nat" and ?c = "(next_counter ^^ k) (1 :: 'a word)"
  have n: "1 < ?n"
  proof -
    have "(2 :: nat) ^ 2 \<le> 2 ^ LENGTH('a)" using assms by (intro power_increasing) simp_all
    then show ?thesis by simp
  qed
  have c: "?c \<noteq> 0" using Suc by (metis add_is_0 unat_0 zero_neq_one)
  have u: "unat (?c + 1) = (unat ?c + 1) mod 2 ^ LENGTH('a)"
    by (simp add: unat_word_ariths)
  have lt: "k mod ?n < ?n" using n by simp
  show ?case
  proof (cases "k mod ?n + 1 = ?n")
    case True
    then have "?c + 1 = 0" using u Suc n by (simp add: unat_eq_0 [symmetric])
    moreover have "Suc k mod ?n = 0" using True by (simp add: mod_Suc)
    ultimately show ?thesis
      using next_counter_nonzero [OF c] by simp
  next
    case False
    then have s: "k mod ?n + 1 < ?n" using lt by simp
    then have "unat (?c + 1) = k mod ?n + 2" using u Suc by simp
    moreover from this have "?c + 1 \<noteq> 0" by (metis add_is_0 unat_0 zero_neq_numeral)
    moreover have "Suc k mod ?n = k mod ?n + 1" using False by (simp add: mod_Suc)
    ultimately show ?thesis
      using next_counter_nonzero [OF c] by simp
  qed
qed

section \<open>Numbering\<close>

text \<open>The envelopes carry, in order, numbers from the next \<open>n\<close> the counter gives out.\<close>

definition numbered ::
  "'p session \<Rightarrow> envelope list \<Rightarrow> 'p session \<Rightarrow> terminal_frame list \<Rightarrow> bool" where
  "numbered s es s' ts \<longleftrightarrow> se_session_id s' = se_session_id s \<and>
     (\<forall>e\<in>set es. env_session_id e = se_session_id s \<and> env_body e \<noteq> None) \<and>
     (\<exists>ks n. sorted_wrt (<) ks \<and> (\<forall>k\<in>set ks. k < n) \<and>
        map env_message_id es = map (\<lambda>k. fst (take_counter ((next_counter ^^ k) (se_next_outgoing s)))) ks \<and>
        se_next_outgoing s' = (next_counter ^^ n) (se_next_outgoing s))"

lemma numbered_trans:
  assumes "numbered s es s1 ts" and "numbered s1 es' s2 ts'"
  shows "numbered s (es @ es') s2 ts''"
proof -
  obtain ks n where ks: "sorted_wrt (<) ks" "\<forall>k\<in>set ks. k < n"
    "map env_message_id es = map (\<lambda>k. fst (take_counter ((next_counter ^^ k) (se_next_outgoing s)))) ks"
    "se_next_outgoing s1 = (next_counter ^^ n) (se_next_outgoing s)"
    using assms(1) by (auto simp: numbered_def)
  obtain ks' n' where ks': "sorted_wrt (<) ks'" "\<forall>k\<in>set ks'. k < n'"
    "map env_message_id es' = map (\<lambda>k. fst (take_counter ((next_counter ^^ k) (se_next_outgoing s1)))) ks'"
    "se_next_outgoing s2 = (next_counter ^^ n') (se_next_outgoing s1)"
    using assms(2) by (auto simp: numbered_def)
  have "sorted_wrt (<) (ks @ map (\<lambda>k. k + n) ks')"
    using ks(1,2) ks'(1) by (auto simp: sorted_wrt_append sorted_wrt_map intro: trans_less_add2)
  moreover have "\<forall>k\<in>set (ks @ map (\<lambda>k. k + n) ks'). k < n' + n" using ks(2) ks'(2) by fastforce
  moreover have "map env_message_id (es @ es') =
      map (\<lambda>k. fst (take_counter ((next_counter ^^ k) (se_next_outgoing s)))) (ks @ map (\<lambda>k. k + n) ks')"
    using ks(3,4) ks'(3) by (simp add: funpow_add)
  moreover have "se_next_outgoing s2 = (next_counter ^^ (n' + n)) (se_next_outgoing s)"
    using ks(4) ks'(4) by (simp add: funpow_add)
  ultimately have "\<exists>ks n. sorted_wrt (<) ks \<and> (\<forall>k\<in>set ks. k < n) \<and>
        map env_message_id (es @ es') = map (\<lambda>k. fst (take_counter ((next_counter ^^ k) (se_next_outgoing s)))) ks \<and>
        se_next_outgoing s2 = (next_counter ^^ n) (se_next_outgoing s)" by blast
  then show ?thesis using assms by (auto simp: numbered_def)
qed

lemma numbered_owed: "numbered s es s' ts \<Longrightarrow> numbered s es s' ts'"
  by (simp add: numbered_def)

lemma numbered_quiet: "same_voice s s' \<Longrightarrow> numbered s [] s' ts"
  unfolding numbered_def same_voice_def by (simp, rule exI [of _ "[]"], simp, rule exI [of _ 0], simp)

lemma numbered_lossy: "numbered s es s' ts \<Longrightarrow> numbered s [] s' ts"
  unfolding numbered_def by (simp, elim conjE exE, rule exI [of _ "[]"], auto)

lemma numbered_wrap:
  assumes "wrap_body b s = (e, s')"
  shows "numbered s [e] s' ts"
proof -
  have "env_message_id e = fst (take_counter ((next_counter ^^ 0) (se_next_outgoing s)))"
    "se_next_outgoing s' = (next_counter ^^ 1) (se_next_outgoing s)"
    "se_session_id s' = se_session_id s" "env_session_id e = se_session_id s" "env_body e \<noteq> None"
    using assms by (auto simp: wrap_body_def next_counter_def split: prod.splits)
  then show ?thesis
    unfolding numbered_def by (intro conjI exI [of _ "[0]"] exI [of _ 1]) simp_all
qed

lemma numbered_result: "terminal_result t s = (e, s') \<Longrightarrow> numbered s [e] s' ts"
  by (auto simp: terminal_result_def frame_result_env_def intro: numbered_wrap split: prod.splits)

interpretation numbering: emission_input numbered "\<lambda>s s'. numbered s [] s' []"
proof
  fix s s1 s2 :: "'p session" and es es' ts ts'
  show "numbered s es s1 ts \<Longrightarrow> numbered s1 es' s2 ts' \<Longrightarrow> numbered s (es @ es') s2 (ts @ ts')"
    by (rule numbered_trans)
  show "numbered s es s1 ts \<Longrightarrow> numbered s1 [] s2 [] \<Longrightarrow> numbered s [] s2 []"
    using numbered_trans [OF numbered_lossy] by fastforce
qed (auto simp: moves_def intro: numbered_quiet numbered_wrap numbered_owed numbered_trans [OF _ numbered_result])

lemma reject_numbered: "numbered s (fst (reject_frame fr code reason s)) (snd (reject_frame fr code reason s)) []"
  by (auto simp: reject_frame_def immediate_frame_result_def frame_result_env_def intro: numbered_wrap
      split: prod.split)

lemma accept_frame_numbered: "numbered s (fst (accept_frame env fr now s)) (snd (accept_frame env fr now s)) []"
proof -
  have commit: "numbered s (fst (commit_frame env fr now a s)) (snd (commit_frame env fr now a s)) []" for a
  proof (cases "validate_and_decode_frame (re_decoders env) fr (semantic_surface (se_config s) a)")
    case (Inl error)
    then show ?thesis by (simp add: commit_frame_def reject_numbered split: prod.split)
  next
    case (Inr validated)
    obtain r core where c: "commit_timed validated (content_class_for (frame_content_class fr)) now
        (duration_us (re_validation_time env (se_panel s))) (clock_of env s) (as_core a) = (r, core)" by fastforce
    let ?s = "s\<lparr>se_surface := Some (a\<lparr>as_core := core\<rparr>)\<rparr>"
    have start: "numbered s [] ?s ts" for ts by (rule numbered_quiet) (simp add: same_voice_def)
    have rejected: "numbered s (fst (reject_frame fr code reason ?s)) (snd (reject_frame fr code reason ?s)) []"
      for code reason
      using numbered_trans [OF start reject_numbered] by simp
    have told: "numbered s (fst (terminal_results ts ?s)) (snd (terminal_results ts ?s)) []" for ts
      using numbering.R_results [OF start [of ts] prod.collapse [symmetric]] by simp
    show ?thesis
      using Inr c rejected told
      by (auto simp: commit_frame_def Let_def split: sum.split core_error.split)
  qed
  show ?thesis by (simp add: accept_frame_def commit reject_numbered split: option.split)
qed

lemma body_numbered: "says numbered (\<lambda>s s'. numbered s [] s' []) s (handle_body env body now s)"
proof (cases "\<exists>fr. body = FrameBody fr")
  case True
  then show ?thesis
    using accept_frame_numbered by (auto simp: handle_body_def infallible_def numbering.E_refl)
qed (rule numbering.body_says)

lemma call_numbered: "says numbered (\<lambda>s s'. numbered s [] s' []) s (make_call env call now s)"
proof (cases "plain_call call")
  case True
  then show ?thesis by (rule numbering.plain_call_says)
next
  case False
  then show ?thesis
    using numbering.handle_says [OF body_numbered] numbering.input_reports_says
    by (cases call) (simp_all add: session_handle_def session_handle_deferred_def)
qed

lemma run_numbered: "session_run env calls s = (es, s') \<Longrightarrow> numbered s es s' []"
proof (induction calls arbitrary: s es)
  case Nil
  then show ?case by (simp add: numbering.R_refl)
next
  case (Cons c calls)
  obtain call now where c: "c = (call, now)" by fastforce
  obtain r s1 where r: "make_call env call now s = (r, s1)" by fastforce
  have said: "says numbered (\<lambda>s s'. numbered s [] s' []) s (r, s1)" using call_numbered r by metis
  show ?case
  proof (cases r)
    case (Inl e)
    then have "numbered s ([] @ es) s' []"
      using Cons said r c by (intro numbered_trans) auto
    then show ?thesis by simp
  next
    case (Inr es1)
    then show ?thesis
      using Cons said r c by (auto intro: numbered_trans split: prod.splits)
  qed
qed


definition example_calls :: "(session_call \<times> nat) list" where
  "example_calls = map (\<lambda>e. (HandleDeferred e, 0)) example_messages"


end
