(* ===== verification/Session_Frames.thy ===== *)
theory Session_Frames
  imports Session_Order
begin

text \<open>
  The accounting of frames by a session: every frame that arrives is answered by exactly one
  \<open>FrameResult\<close>, at once or when it is presented, superseded, cancelled or fails; and a frame
  becomes pending only within the credits the session has granted.
\<close>

section \<open>Accounting\<close>

definition result_id :: "envelope \<Rightarrow> nat multiset" where
  "result_id e = (case env_body e of Some (FrameResult f) \<Rightarrow> {#fr_frame_id f#} | _ \<Rightarrow> {#})"

definition result_ids :: "envelope list \<Rightarrow> nat multiset" where
  "result_ids es = sum_list (map result_id es)"

lemma result_ids_simps [simp]: "result_ids [] = {#}" "result_ids (e # es) = result_id e + result_ids es"
  "result_ids (es @ es') = result_ids es + result_ids es'"
  by (simp_all add: result_ids_def)

definition settled ::
  "'p session \<Rightarrow> envelope list \<Rightarrow> 'p session \<Rightarrow> terminal_frame list \<Rightarrow> bool" where
  "settled s es s' ts \<longleftrightarrow> result_ids es + mset (map tf_frame_id ts) + outstanding s' = outstanding s"

lemma wrap_outstanding: "wrap_body b s = (e, s') \<Longrightarrow> outstanding s' = outstanding s"
  by (simp add: outstanding_def wrap_body_keeps)

lemma wrap_result_id: "wrap_body b s = (e, s') \<Longrightarrow>
    result_id e = (case b of FrameResult f \<Rightarrow> {#fr_frame_id f#} | _ \<Rightarrow> {#})"
  by (auto simp: wrap_body_def result_id_def split: prod.splits)

lemma terminal_result_id:
  assumes "terminal_result t s = (e, s')"
  shows "result_id e = {#tf_frame_id t#}" and "outstanding s' = outstanding s"
  using assms
  by (auto simp: terminal_result_def frame_result_env_def dest: wrap_result_id wrap_outstanding
      split: prod.splits)

interpretation accounting: emission_batch settled "\<lambda>_ _. True"
proof
  fix s s1 s2 :: "'p session" and es es' ts ts'
  assume "settled s es s1 ts" "settled s1 es' s2 ts'"
  then show "settled s (es @ es') s2 (ts @ ts')"
    by (simp add: settled_def) (metis (no_types, lifting) union_assoc union_commute)
next
  fix b and s :: "'p session" and e s'
  assume "wrap_body b s = (e, s')" "\<not> is_frame_result b"
  then show "settled s [e] s' []"
    by (cases b) (simp_all add: settled_def wrap_result_id wrap_outstanding)
next
  fix s s1 s2 :: "'p session" and es t ts e
  assume "settled s es s1 (t # ts)" "terminal_result t s1 = (e, s2)"
  then show "settled s (es @ [e]) s2 ts"
    by (simp add: settled_def terminal_result_id)
next
  fix b and s :: "'p session" and e s'
  assume "wrap_body (InputBatch b) s = (e, s')"
  then show "settled s [e] s' []" by (simp add: settled_def wrap_result_id wrap_outstanding)
qed (simp_all add: settled_def moves_def)

section \<open>One frame\<close>

definition frame_cost :: "frame \<Rightarrow> nat" where
  "frame_cost fr = sum_list (map decoded_len (frame_regions fr))"

lemma decoded_cost_sum: "decoded_cost rs cost = Some n \<Longrightarrow> n = cost + sum_list (map decoded_len rs)"
proof (induction rs arbitrary: cost)
  case Nil
  then show ?case by simp
next
  case (Cons r rs)
  then have "decoded_cost rs (cost + decoded_len r) = Some n"
    by (auto simp: checked_add_u64_def split: option.splits if_splits)
  from Cons.IH [OF this] show ?case by simp
qed

lemma decode_regions_cost:
  "decode_regions d surface bpp regions dt et = Inr (n, decoded) \<Longrightarrow>
   n = dt + sum_list (map decoded_len regions)"
proof (induction regions arbitrary: dt et n decoded)
  case Nil
  then show ?case by simp
next
  case (Cons r rs)
  from Cons.prems obtain dt' et' n' decoded' where
    "decode_regions d surface bpp rs dt' et' = Inr (n', decoded')" "n = n'" "dt' = dt + decoded_len r"
    by (auto simp: and_then_Inr_iff range_simps split: if_splits)
  then show ?case using Cons.IH by fastforce
qed

lemma validated_cost:
  "validate_and_decode_frame d fr surface = Inr v \<Longrightarrow>
   vf_frame_id v = frame_frame_id fr \<and> vf_decoded_bytes v = frame_cost fr"
  by (auto simp: validate_and_decode_frame_def and_then_Inr_iff frame_cost_def
      dest!: decode_regions_cost split: if_splits)

lemma commit_rejects: "commit_timed v cls now us obs c = (Inl e, c') \<Longrightarrow> dc_pending c' = dc_pending c"
  by (auto simp: commit_timed_def Let_def split: if_splits sum.splits prod.splits)

lemma commit_pends:
  assumes "commit_timed v cls now us obs c = (Inr report, c')"
  shows "\<exists>p. dc_pending c' = Some p \<and> pd_frame_id p = vf_frame_id v \<and> pd_decoded_bytes p = vf_decoded_bytes v"
    and "mset (map tf_frame_id (case report_superseded report of None \<Rightarrow> [] | Some t \<Rightarrow> [t])) = owed_by c"
  using assms by (auto simp: commit_timed_def Let_def owed_by_def split: if_splits sum.splits prod.splits option.splits)

lemma reject_settles:
  assumes "reject_frame fr code reason s = (es, s')"
  shows "result_ids es = {#frame_frame_id fr#}" "length es = 1" "se_surface s' = se_surface s"
  using assms
  by (auto simp: reject_frame_def immediate_frame_result_def frame_result_env_def
      dest: wrap_result_id wrap_body_keeps split: prod.splits)

text \<open>The two ways a frame can go.\<close>

definition frame_pends :: "frame \<Rightarrow> 'p session \<Rightarrow> envelope list \<Rightarrow> 'p session \<Rightarrow> bool" where
  "frame_pends fr s es s' \<longleftrightarrow>
     (\<exists>a a' p. se_surface s = Some a \<and> \<not> as_ink_frozen a \<and> se_surface s' = Some a' \<and>
        dc_pending (as_core a') = Some p \<and> pd_frame_id p = frame_frame_id fr \<and>
        pd_decoded_bytes p = frame_cost fr) \<and>
     list_all (\<lambda>r. region_encoding r \<in> set (se_encodings s)) (frame_regions fr) \<and>
     0 < credits s \<and> (\<not> se_byte_credits s \<or> frame_cost fr \<le> byte_credits s) \<and>
     result_ids es = outstanding s"

definition frame_refused :: "frame \<Rightarrow> 'p session \<Rightarrow> envelope list \<Rightarrow> 'p session \<Rightarrow> bool" where
  "frame_refused fr s es s' \<longleftrightarrow>
     length es = 1 \<and> result_ids es = {#frame_frame_id fr#} \<and> outstanding s' = outstanding s"

lemma reject_refuses: "frame_refused fr s (fst (reject_frame fr code reason s)) (snd (reject_frame fr code reason s))"
  using reject_settles [of fr code reason s, OF prod.collapse [symmetric]]
  by (simp add: frame_refused_def outstanding_def)

lemma commit_frame_outcome:
  assumes "commit_frame env fr now a s = (es, s')" and a: "se_surface s = Some a"
  shows "frame_refused fr s es s' \<or>
    result_ids es = outstanding s \<and> (\<exists>a' p. se_surface s' = Some a' \<and> dc_pending (as_core a') = Some p \<and>
      pd_frame_id p = frame_frame_id fr \<and> pd_decoded_bytes p = frame_cost fr)"
proof (cases "validate_and_decode_frame (re_decoders env) fr (semantic_surface (se_config s) a)")
  case (Inl error)
  then obtain code reason where "reject_frame fr code reason s = (es, s')"
    using assms(1) by (auto simp: commit_frame_def split: prod.splits)
  then show ?thesis using reject_refuses [of fr s code reason] by simp
next
  case (Inr v)
  obtain r core where c: "commit_timed v (content_class_for (frame_content_class fr)) now
      (duration_us (re_validation_time env (se_panel s))) (clock_of env s) (as_core a) = (r, core)" by fastforce
  let ?s = "s\<lparr>se_surface := Some (a\<lparr>as_core := core\<rparr>)\<rparr>"
  show ?thesis
  proof (cases r)
    case (Inl e)
    have out: "outstanding ?s = outstanding s"
      using commit_rejects [OF c [unfolded Inl]] a by (simp add: outstanding_def owed_by_def)
    obtain code reason where "reject_frame fr code reason ?s = (es, s')"
      using assms(1) Inr c Inl by (auto simp: commit_frame_def Let_def split: core_error.splits)
    then show ?thesis
      using reject_refuses [of fr ?s code reason] out by (simp add: frame_refused_def)
  next
    case ok: (Inr report)
    note pends = commit_pends [OF c [unfolded ok]]
    have es: "terminal_results (case report_superseded report of None \<Rightarrow> [] | Some t \<Rightarrow> [t]) ?s = (es, s')"
      using assms(1) Inr c ok by (simp add: commit_frame_def Let_def)
    have "settled ?s [] ?s []" by (simp add: settled_def)
    have "result_ids es = mset (map tf_frame_id (case report_superseded report of None \<Rightarrow> [] | Some t \<Rightarrow> [t]))"
      using es terminal_result_id(1)
      by (auto simp: terminal_results_def Let_def split: option.splits prod.splits)
    then have "result_ids es = outstanding s" using pends(2) a by (simp add: outstanding_def)
    moreover have "se_surface s' = Some (a\<lparr>as_core := core\<rparr>)" using terminal_results_keeps [OF es] by simp
    ultimately show ?thesis using pends(1) validated_cost [OF Inr] by auto
  qed
qed

lemma frame_outcome:
  assumes "accept_frame env fr now s = (es, s')"
  shows "frame_refused fr s es s' \<or> frame_pends fr s es s'"
proof -
  have refused: ?thesis if "reject_frame fr code reason s = (es, s')" for code reason
    using that reject_refuses [of fr s code reason] by simp
  show ?thesis
  proof (cases "\<exists>code reason. reject_frame fr code reason s = (es, s')")
    case True
    then show ?thesis using refused by blast
  next
    case False
    then obtain cost a where a: "se_surface s = Some a" "\<not> as_ink_frozen a"
      and enc: "\<not> list_ex (\<lambda>region. region_encoding region \<notin> set (se_encodings s)) (frame_regions fr)"
      and cr: "credits s \<noteq> 0" and cost: "decoded_cost (frame_regions fr) 0 = Some cost"
      and bytes: "\<not> (se_byte_credits s \<and> byte_credits s < cost)"
      and c: "commit_frame env fr now a s = (es, s')"
      using assms by (auto simp: accept_frame_def split: if_splits option.splits)
    have "cost = frame_cost fr" using decoded_cost_sum [OF cost] by (simp add: frame_cost_def)
    then show ?thesis
      using commit_frame_outcome [OF c a(1)] a enc cr bytes
      by (auto simp: frame_pends_def list_all_iff list_ex_iff)
  qed
qed

text \<open>
  Claim C6. A frame is either refused with exactly one result, leaving the pending frame as it
  was, or becomes the pending frame, superseding the previous one with a result. It becomes
  pending only on an open surface whose ink is not frozen, in negotiated encodings, and when both
  the frame credits and (from minor version 1) the byte credits the session has granted cover it.
\<close>

theorem frame_within_credits:
  assumes "accept_frame env fr now s = (es, s')"
  shows "frame_refused fr s es s' \<or> frame_pends fr s es s'"
  using assms by (rule frame_outcome)

theorem frame_within_credits_witness:
  "\<exists>s es s'. s = snd (session_run example_env (take 2 example_calls) example_session) \<and>
     accept_frame example_env (example_frame 1 9) 0 s = (es, s') \<and> frame_pends (example_frame 1 9) s es s'"
proof -
  let ?s = "snd (session_run example_env (take 2 example_calls) example_session)"
  obtain es s' where run: "accept_frame example_env (example_frame 1 9) 0 ?s = (es, s')" by fastforce
  have "fst (accept_frame example_env (example_frame 1 9) 0 ?s) = []" by code_simp
  then have "\<not> frame_refused (example_frame 1 9) ?s es s'" using run by (simp add: frame_refused_def)
  then show ?thesis using frame_within_credits [OF run] run by blast
qed

section \<open>All frames\<close>

definition arrivals :: "session_call \<Rightarrow> nat multiset" where
  "arrivals call =
     (case call of
        Handle e \<Rightarrow> (case env_body e of Some (FrameBody fr) \<Rightarrow> {#frame_frame_id fr#} | _ \<Rightarrow> {#})
      | HandleDeferred e \<Rightarrow> (case env_body e of Some (FrameBody fr) \<Rightarrow> {#frame_frame_id fr#} | _ \<Rightarrow> {#})
      | _ \<Rightarrow> {#})"

text \<open>A run in which every call succeeds.\<close>

fun session_ok_run ::
  "'p receiver_env \<Rightarrow> (session_call \<times> nat) list \<Rightarrow> 'p session \<Rightarrow> (envelope list \<times> 'p session) option" where
  "session_ok_run env [] s = Some ([], s)"
| "session_ok_run env ((call, now) # calls) s =
     (case make_call env call now s of
        (Inl _, _) \<Rightarrow> None
      | (Inr es, s1) \<Rightarrow> map_option (\<lambda>(es', s2). (es @ es', s2)) (session_ok_run env calls s1))"

fun is_touch_call :: "session_call \<Rightarrow> bool" where
  "is_touch_call (TouchReports reports) = True"
| "is_touch_call _ = False"

lemma frame_settles:
  "accept_frame env fr now s = (es, s') \<Longrightarrow>
   result_ids es + outstanding s' = outstanding s + {#frame_frame_id fr#}"
  using frame_outcome [of env fr now s es s']
  by (auto simp: frame_refused_def frame_pends_def outstanding_def owed_by_def add.commute)

text \<open>A call that carries a frame, against one that does not.\<close>

lemma handle_accounts:
  assumes "handle_inner env e now poll_after s = (Inr es, s')"
  shows "result_ids es + outstanding s' =
    outstanding s + (case env_body e of Some (FrameBody fr) \<Rightarrow> {#frame_frame_id fr#} | _ \<Rightarrow> {#})"
proof (cases "\<exists>fr. env_body e = Some (FrameBody fr)")
  case False
  have "says settled (\<lambda>_ _. True) s (handle_inner env e now poll_after s)"
    by (rule accounting.plain_handle_says [OF False])
  then show ?thesis using assms False by (auto simp: settled_def split: option.splits body.splits)
next
  case True
  then obtain fr where fr: "env_body e = Some (FrameBody fr)" by blast
  obtain r s1 where h: "validate_envelope_header e s = (r, s1)" by fastforce
  have r: "r = Inr ()" using assms h by (cases r) (auto simp: handle_inner_def)
  have start: "outstanding s1 = outstanding s"
    using accounting.header_says(1) [OF h [unfolded r]] by (simp add: settled_def)
  obtain es1 s2 where a: "accept_frame env fr now s1 = (es1, s2)" by fastforce
  note answered = frame_settles [OF a] start
  have established: "se_established s1"
    using assms h r fr by (auto simp: handle_inner_def handle_body_def split: if_splits)
  obtain p s3 where p: "session_poll env now s2 = (p, s3)" by fastforce
  have polled: "says settled (\<lambda>_ _. True) s2 (p, s3)"
    using accounting.poll_says [of s2 env now] p by simp
  show ?thesis
  proof (cases "poll_after")
    case False
    then have "es = es1" "s' = s2"
      using assms h r fr established a by (simp_all add: handle_inner_def handle_body_def infallible_def)
    then show ?thesis using answered fr by simp
  next
    case True
    then obtain es2 where "p = Inr es2" "es = es1 @ es2" "s' = s3"
      using assms h r fr established a p
      by (cases p) (auto simp: handle_inner_def handle_body_def infallible_def)
    then show ?thesis using answered polled fr by (simp add: settled_def ac_simps) (metis add.assoc add.commute)
  qed
qed

lemma call_accounts:
  assumes "make_call env call now s = (Inr es, s')" and "\<not> is_touch_call call"
  shows "result_ids es + outstanding s' = outstanding s + arrivals call"
proof (cases "plain_call call")
  case True
  then have "settled s es s' []" using accounting.plain_call_says [OF True, of s env now] assms(1) by simp
  moreover have "arrivals call = {#}"
    using True by (cases call) (auto simp: arrivals_def split: option.split body.split)
  ultimately show ?thesis by (simp add: settled_def)
next
  case False
  then show ?thesis
    using assms handle_accounts [of env _ now _ s es s']
    by (cases call) (auto simp: arrivals_def session_handle_def session_handle_deferred_def)
qed

text \<open>
  Claim C5. No frame is lost and none is answered twice: over any run of successful calls other
  than touch reports, the frame results emitted and the frame still pending are together exactly
  the frame that was pending at the start and the frames that arrived, with multiplicity.
\<close>

theorem frames_accounted:
  assumes "session_ok_run env calls s = Some (es, s')" and "list_all (\<lambda>(call, _). \<not> is_touch_call call) calls"
  shows "result_ids es + outstanding s' = outstanding s + sum_list (map (\<lambda>(call, _). arrivals call) calls)"
  using assms
proof (induction calls arbitrary: s es)
  case Nil
  then show ?case by simp
next
  case (Cons c calls)
  obtain call now where c: "c = (call, now)" by fastforce
  obtain es1 s1 es2 where step: "make_call env call now s = (Inr es1, s1)"
    and rest: "session_ok_run env calls s1 = Some (es2, s')" and es: "es = es1 @ es2"
    using Cons.prems(1) c by (auto split: prod.splits sum.splits)
  have "result_ids es1 + outstanding s1 = outstanding s + arrivals call"
    using call_accounts [OF step] Cons.prems(2) c by simp
  moreover have "result_ids es2 + outstanding s' = outstanding s1 + sum_list (map (\<lambda>(call, _). arrivals call) calls)"
    using Cons.IH [OF rest] Cons.prems(2) by simp
  ultimately show ?case using es c by (simp add: ac_simps) (metis add.assoc add.commute)
qed

theorem frames_accounted_witness:
  "\<exists>es s'. session_ok_run example_env example_calls example_session = Some (es, s') \<and>
     result_ids es + outstanding s' = {#1, 2#} \<and> outstanding s' = {#2#}"
proof -
  have "map_option (outstanding \<circ> snd) (session_ok_run example_env example_calls example_session) = Some {#2#}"
    by code_simp
  then obtain es s' where run: "session_ok_run example_env example_calls example_session = Some (es, s')"
    and pending: "outstanding s' = {#2#}" by auto
  have calls: "list_all (\<lambda>(call, _). \<not> is_touch_call call) example_calls"
    and start: "outstanding example_session = {#}"
    and arrived: "sum_list (map (\<lambda>(call, _). arrivals call) example_calls) = {#1, 2#}" by code_simp+
  from frames_accounted [OF run calls] have "result_ids es + outstanding s' = {#1, 2#}"
    by (simp only: start arrived) simp
  then show ?thesis using run pending by blast
qed

end
