(* ===== verification/Delta.thy ===== *)
theory Delta
  imports Damage
begin

text \<open>
  The delta encoder of the producer, \<open>encode_delta_regions\<close> in
  \<open>crates/rm-display-cli/src/client.rs\<close>: the rows of tiles are scanned for runs of changed
  tiles, a run that continues a rectangle of the row above extends it, too many rectangles become
  their bounding box, and none becomes a single pixel. The compressor is a parameter.
\<close>

section \<open>Definitions\<close>

text \<open>The closure \<open>changed\<close>: does any row of the tile differ?\<close>

definition run_changed :: "bytes \<Rightarrow> bytes \<Rightarrow> nat \<Rightarrow> nat \<Rightarrow> nat \<Rightarrow> nat \<Rightarrow> nat \<Rightarrow> bool" where
  "run_changed previous current width tile rect_height y tile_x =
     (let rect_width = min tile (width - tile_x) in
      list_ex (\<lambda>row. let start = (y + row) * width + tile_x
                     in slice previous start rect_width \<noteq> slice current start rect_width)
        [0..<rect_height])"

text \<open>
  The inner loop of a run; a tile has at least one column, which the condition states for the
  termination proof.
\<close>

function run_end :: "(nat \<Rightarrow> bool) \<Rightarrow> nat \<Rightarrow> nat \<Rightarrow> nat \<Rightarrow> nat" where
  "run_end changed width tile x =
     (if 0 < tile \<and> x < width \<and> changed x then run_end changed width tile (x + tile) else x)"
  by pat_completeness auto

termination by (relation "measure (\<lambda>(changed, width, tile, x). width - x)") auto

declare run_end.simps [simp del]

text \<open>The last rectangle that ends above the run and has its columns grows; \<open>rects\<close> is reversed.\<close>

fun grow_rect :: "nat \<Rightarrow> nat \<Rightarrow> nat \<Rightarrow> nat \<Rightarrow> rect list \<Rightarrow> rect list option" where
  "grow_rect start run_width y h [] = None"
| "grow_rect start run_width y h (r # rs) =
     (if rect_x r = start \<and> rect_w r = run_width \<and> rect_y r + rect_h r = y
      then Some (r\<lparr>rect_h := rect_h r + h\<rparr> # rs)
      else map_option ((#) r) (grow_rect start run_width y h rs))"

definition add_run :: "nat \<Rightarrow> nat \<Rightarrow> nat \<Rightarrow> nat \<Rightarrow> rect list \<Rightarrow> rect list" where
  "add_run start run_width y h rects =
     (case grow_rect start run_width y h (rev rects) of
        Some grown \<Rightarrow> rev grown
      | None \<Rightarrow> rects @ [mk_rect start y run_width h])"

lemma run_end_ge: "x \<le> run_end changed width tile x"
proof (induction changed width tile x rule: run_end.induct)
  case (1 changed width tile x)
  then show ?case by (subst run_end.simps) auto
qed

text \<open>One row of tiles.\<close>

function scan_row ::
  "(nat \<Rightarrow> bool) \<Rightarrow> nat \<Rightarrow> nat \<Rightarrow> nat \<Rightarrow> nat \<Rightarrow> nat \<Rightarrow> rect list \<Rightarrow> rect list" where
  "scan_row changed width tile y h x rects =
     (if 0 < tile \<and> x < width then
        if \<not> changed x then scan_row changed width tile y h (x + tile) rects
        else
          let stop = run_end changed width tile (x + tile)
          in scan_row changed width tile y h stop (add_run x (min stop width - x) y h rects)
      else rects)"
  by pat_completeness auto

termination
proof (relation "measure (\<lambda>(changed, width, tile, y, h, x, rects). width - x)", goal_cases)
  case (3 changed width tile y h x rects stop)
  then show ?case using run_end_ge [of "x + tile" changed width tile] by auto
qed auto

declare scan_row.simps [simp del]

definition delta_scan :: "bytes \<Rightarrow> bytes \<Rightarrow> nat \<Rightarrow> nat \<Rightarrow> nat \<Rightarrow> rect list" where
  "delta_scan previous current width height tile =
     fold (\<lambda>y. let h = min tile (height - y)
               in scan_row (run_changed previous current width tile h y) width tile y h 0)
       (step_by height tile) []"

definition bounding_rect :: "rect list \<Rightarrow> rect" where
  "bounding_rect rects =
     (let left = Min (set (map rect_x rects)); top = Min (set (map rect_y rects));
          right = Max (set (map (\<lambda>r. rect_x r + rect_w r) rects));
          bottom = Max (set (map (\<lambda>r. rect_y r + rect_h r) rects))
      in mk_rect left top (right - left) (bottom - top))"

definition delta_rects :: "bytes \<Rightarrow> bytes \<Rightarrow> nat \<Rightarrow> nat \<Rightarrow> nat \<Rightarrow> nat \<Rightarrow> rect list" where
  "delta_rects previous current width height tile0 max_regions =
     (let rects = delta_scan previous current width height (max tile0 1);
          bounded = (if length rects > max max_regions 1 then [bounding_rect rects] else rects)
      in if bounded = [] then [mk_rect 0 0 1 1] else bounded)"

definition extract_region :: "bytes \<Rightarrow> nat \<Rightarrow> rect \<Rightarrow> bytes" where
  "extract_region pixels surface_width r =
     concat (map (\<lambda>row. slice pixels (row * surface_width + rect_x r) (rect_w r))
       [rect_y r..<rect_y r + rect_h r])"

text \<open>\<open>zstd::stream::encode_all\<close> at level one is the parameter \<open>compress\<close>.\<close>

definition encode_region ::
  "decoders \<Rightarrow> (bytes \<Rightarrow> bytes option) \<Rightarrow> rect \<Rightarrow> bytes \<Rightarrow> bool \<Rightarrow> frame_region" where
  "encode_region d compress r pixels allow_zstd =
     (let region = raw_region d r pixels in
      if allow_zstd then
        (case compress pixels of
           None \<Rightarrow> region
         | Some compressed \<Rightarrow>
             if length compressed + 12 < length pixels
             then region\<lparr>region_encoding := encoding_i32 Zstd, region_data := compressed\<rparr>
             else region)
      else region)"

definition encode_delta_regions ::
  "decoders \<Rightarrow> (bytes \<Rightarrow> bytes option) \<Rightarrow> bytes \<Rightarrow> bytes \<Rightarrow> nat \<Rightarrow> nat \<Rightarrow> nat \<Rightarrow> nat \<Rightarrow> bool \<Rightarrow>
   frame_region list" where
  "encode_delta_regions d compress previous current width height tile max_regions allow_zstd =
     map (\<lambda>r. encode_region d compress r (extract_region current width r) allow_zstd)
       (delta_rects previous current width height tile max_regions)"

section \<open>The scan\<close>

text \<open>
  The rectangles of a scan that has reached column \<open>x\<close> of the band of rows from \<open>y\<close> to
  \<open>y + h\<close>: disjoint, and either above the band or ending with it, left of \<open>x\<close>.
\<close>

definition scanned_rect :: "nat \<Rightarrow> nat \<Rightarrow> nat \<Rightarrow> nat \<Rightarrow> rect \<Rightarrow> bool" where
  "scanned_rect W y h x r \<longleftrightarrow> rect_w r \<noteq> 0 \<and> rect_h r \<noteq> 0 \<and> rect_x r + rect_w r \<le> W \<and>
     (rect_y r + rect_h r \<le> y \<or> rect_y r + rect_h r = y + h \<and> rect_x r + rect_w r \<le> x)"

definition scan_ok :: "nat \<Rightarrow> nat \<Rightarrow> nat \<Rightarrow> nat \<Rightarrow> rect list \<Rightarrow> bool" where
  "scan_ok W y h x rs \<longleftrightarrow> sorted_wrt disjoint_rects rs \<and> list_all (scanned_rect W y h x) rs"

lemma disjoint_rects_sym: "disjoint_rects a b = disjoint_rects b a"
  by (auto simp: disjoint_rects_def)

lemma sorted_disjoint_rev [simp]: "sorted_wrt disjoint_rects (rev rs) = sorted_wrt disjoint_rects rs"
  by (simp add: sorted_wrt_rev disjoint_rects_sym)

lemma scanned_mono: "scanned_rect W y h x r \<Longrightarrow> x \<le> x' \<Longrightarrow> scanned_rect W y h x' r"
  by (auto simp: scanned_rect_def)

text \<open>A run starting at the reached column is disjoint from every other rectangle.\<close>

lemma run_disjoint:
  "scanned_rect W y h x r \<Longrightarrow> disjoint_rects (mk_rect x y w h) r"
  by (auto simp: scanned_rect_def disjoint_rects_def inside_def)

lemma grown_inside:
  assumes "rect_x r = x" "rect_w r = w" "rect_y r + rect_h r = y"
  shows "inside (r\<lparr>rect_h := rect_h r + h\<rparr>) px py \<longleftrightarrow> inside r px py \<or> inside (mk_rect x y w h) px py"
  using assms by (auto simp: inside_def)

lemma grow_rect_cases:
  assumes "grow_rect x w y h rs = res"
  shows "case res of None \<Rightarrow> True
    | Some gs \<Rightarrow> \<exists>as r bs. rs = as @ r # bs \<and> gs = as @ r\<lparr>rect_h := rect_h r + h\<rparr> # bs \<and>
        rect_x r = x \<and> rect_w r = w \<and> rect_y r + rect_h r = y"
  using assms
proof (induction rs arbitrary: res)
  case Nil
  then show ?case by auto
next
  case (Cons r rs)
  show ?case
  proof (cases "rect_x r = x \<and> rect_w r = w \<and> rect_y r + rect_h r = y")
    case True
    then show ?thesis using Cons.prems by (force intro: exI [of _ "[]"])
  next
    case False
    show ?thesis
    proof (cases "grow_rect x w y h rs")
      case None
      then show ?thesis using Cons.prems False by auto
    next
      case (Some gs)
      then obtain as q bs where q: "rs = as @ q # bs" "gs = as @ q\<lparr>rect_h := rect_h q + h\<rparr> # bs"
        "rect_x q = x" "rect_w q = w" "rect_y q + rect_h q = y"
        using Cons.IH [of "Some gs"] by auto
      have "\<exists>as q bs. r # rs = as @ q # bs \<and> r # gs = as @ q\<lparr>rect_h := rect_h q + h\<rparr> # bs \<and>
        rect_x q = x \<and> rect_w q = w \<and> rect_y q + rect_h q = y"
        by (intro exI [of _ "r # as"] exI [of _ q] exI [of _ bs]) (use q in simp)
      moreover have "res = Some (r # gs)" using Cons.prems False Some by auto
      ultimately show ?thesis by simp
    qed
  qed
qed

text \<open>Adding a run keeps the invariant and covers exactly the run in addition.\<close>

lemma add_run_split:
  "add_run x w y h rs = rs @ [mk_rect x y w h] \<or>
   (\<exists>as r bs. rs = as @ r # bs \<and> add_run x w y h rs = as @ r\<lparr>rect_h := rect_h r + h\<rparr> # bs \<and>
      rect_x r = x \<and> rect_w r = w \<and> rect_y r + rect_h r = y)"
proof (cases "grow_rect x w y h (rev rs)")
  case None
  then show ?thesis by (simp add: add_run_def)
next
  case (Some gs)
  then obtain as r bs where "rev rs = as @ r # bs" "gs = as @ r\<lparr>rect_h := rect_h r + h\<rparr> # bs"
    "rect_x r = x" "rect_w r = w" "rect_y r + rect_h r = y"
    using grow_rect_cases [of x w y h "rev rs"] by auto
  then have "rs = rev bs @ r # rev as \<and> add_run x w y h rs = rev bs @ r\<lparr>rect_h := rect_h r + h\<rparr> # rev as \<and>
      rect_x r = x \<and> rect_w r = w \<and> rect_y r + rect_h r = y"
    using Some by (auto simp: add_run_def rev_swap)
  then show ?thesis by blast
qed

lemma add_run_covers:
  "covers (add_run x w y h rs) px py \<longleftrightarrow> covers rs px py \<or> inside (mk_rect x y w h) px py"
  using add_run_split [of x w y h rs] by (auto simp: grown_inside)

lemma add_run_ok:
  assumes "scan_ok W y h x rs" and "0 < w" "0 < h" "x + w \<le> W" "x + w \<le> x'"
  shows "scan_ok W y h x' (add_run x w y h rs)"
proof -
  have all: "list_all (scanned_rect W y h x) rs" and sorted: "sorted_wrt disjoint_rects rs"
    using assms(1) by (auto simp: scan_ok_def)
  have all': "list_all (scanned_rect W y h x') rs"
    using all assms(5) by (auto simp: list_all_iff intro: scanned_mono)
  have new: "scanned_rect W y h x' (mk_rect x y w h)" using assms(2-5) by (simp add: scanned_rect_def)
  show ?thesis
    using add_run_split [of x w y h rs]
  proof (elim disjE exE conjE)
    assume "add_run x w y h rs = rs @ [mk_rect x y w h]"
    then show ?thesis
      using sorted all all' new run_disjoint
      by (auto simp: scan_ok_def sorted_wrt_append list_all_iff disjoint_rects_sym [of _ "mk_rect x y w h"])
  next
    fix as r bs
    assume rs: "rs = as @ r # bs" and add: "add_run x w y h rs = as @ r\<lparr>rect_h := rect_h r + h\<rparr> # bs"
      and r: "rect_x r = x" "rect_w r = w" "rect_y r + rect_h r = y"
    have dis: "disjoint_rects (r\<lparr>rect_h := rect_h r + h\<rparr>) q"
      if "disjoint_rects r q" "scanned_rect W y h x q" for q
      using that run_disjoint [OF that(2), of w] by (auto simp: disjoint_rects_def grown_inside [OF r])
    have "scanned_rect W y h x' (r\<lparr>rect_h := rect_h r + h\<rparr>)"
      using r assms(2-5) by (auto simp: scanned_rect_def)
    then show ?thesis
      using sorted [unfolded rs] all [unfolded rs] all' [unfolded rs] dis unfolding scan_ok_def add
      by (auto simp: sorted_wrt_append list_all_iff disjoint_rects_sym [of _ "r\<lparr>rect_h := rect_h r + h\<rparr>"]
          disjoint_rects_sym [of _ r])
  qed
qed

lemma scan_ok_end: "scan_ok W y h x rs \<Longrightarrow> scan_ok W y h W rs"
  by (auto simp: scan_ok_def scanned_rect_def list_all_iff)

lemma scan_ok_mono: "scan_ok W y h x rs \<Longrightarrow> x \<le> x' \<Longrightarrow> scan_ok W y h x' rs"
  by (auto simp: scan_ok_def list_all_iff intro: scanned_mono)

lemma scan_row_ok:
  "scan_ok W y h x rs \<Longrightarrow> 0 < h \<Longrightarrow> scan_ok W y h W (scan_row changed W t y h x rs)"
proof (induction changed W t y h x rs rule: scan_row.induct)
  case (1 changed W t y h x rs)
  note unfold = scan_row.simps [of changed W t y h x rs]
  consider "\<not> (0 < t \<and> x < W)" | "0 < t" "x < W" "\<not> changed x" | "0 < t" "x < W" "changed x" by blast
  then show ?case
  proof cases
    case 1
    then show ?thesis using "1.prems" scan_ok_end unfold by auto
  next
    case 2
    then have "scan_ok W y h (x + t) rs" using "1.prems"(1) scan_ok_mono by simp
    then show ?thesis using 2 "1.IH"(1) "1.prems"(2) unfold by auto
  next
    case 3
    let ?stop = "run_end changed W t (x + t)"
    have "x < ?stop" using run_end_ge [of "x + t" changed W t] 3(1) by simp
    then have "scan_ok W y h ?stop (add_run x (min ?stop W - x) y h rs)"
      using 3 "1.prems" by (intro add_run_ok) (auto simp: min_def)
    then show ?thesis using 3 "1.IH"(2) "1.prems"(2) unfold by (auto simp: Let_def)
  qed
qed

lemma scan_row_covers:
  assumes "\<And>x px py. x < W \<Longrightarrow> \<not> changed x \<Longrightarrow> x \<le> px \<Longrightarrow> px < x + t \<Longrightarrow> px < W \<Longrightarrow>
      y \<le> py \<Longrightarrow> py < y + h \<Longrightarrow> \<not> D px py"
    and "0 < t"
  shows "covers rs px py \<or> x \<le> px \<and> px < W \<and> y \<le> py \<and> py < y + h \<and> D px py \<Longrightarrow>
    covers (scan_row changed W t y h x rs) px py"
  using assms
proof (induction changed W t y h x rs rule: scan_row.induct)
  case (1 changed W t y h x rs)
  note unfold = scan_row.simps [of changed W t y h x rs]
  consider "\<not> x < W" | "x < W" "\<not> changed x" | "x < W" "changed x" by blast
  then show ?case
  proof cases
    case 1
    then show ?thesis using "1.prems" unfold by auto
  next
    case 2
    have "covers rs px py \<or> x + t \<le> px \<and> px < W \<and> y \<le> py \<and> py < y + h \<and> D px py"
      using "1.prems"(1) "1.prems"(2) [of x px py] 2 by auto
    then show ?thesis using 2 "1.IH"(1) "1.prems"(2,3) unfold by auto
  next
    case 3
    let ?stop = "run_end changed W t (x + t)"
    have "x < ?stop" using run_end_ge [of "x + t" changed W t] "1.prems"(3) by simp
    then have "covers (add_run x (min ?stop W - x) y h rs) px py \<or>
        ?stop \<le> px \<and> px < W \<and> y \<le> py \<and> py < y + h \<and> D px py"
      using "1.prems"(1) by (auto simp: add_run_covers inside_def)
    then show ?thesis using 3 "1.IH"(2) "1.prems"(2,3) unfold by (auto simp: Let_def)
  qed
qed

text \<open>An unchanged tile has no differing pixel.\<close>

lemma unchanged_tile:
  assumes "\<not> run_changed prev cur W t h y x" and "length prev = W * H" "length cur = W * H"
    and "y + h \<le> H" "x \<le> px" "px < x + t" "px < W" "y \<le> py" "py < y + h"
  shows "prev ! (py * W + px) = cur ! (py * W + px)"
proof -
  let ?w = "min t (W - x)" and ?row = "py - y"
  have w: "x + ?w \<le> W" "px - x < ?w" using assms by auto
  have b: "(py * W + x) + ?w \<le> W * H"
  proof -
    have "py * W + (x + ?w) \<le> py * W + W" using w(1) by (intro add_left_mono)
    also have "\<dots> = Suc py * W" by simp
    also have "\<dots> \<le> H * W" using assms(4,9) by (intro mult_le_mono1) simp
    finally show ?thesis by (simp add: mult.commute)
  qed
  have "?row < h" "y + ?row = py" using assms by auto
  moreover have "\<forall>row<h. slice prev ((y + row) * W + x) ?w = slice cur ((y + row) * W + x) ?w"
    using assms(1) by (auto simp: run_changed_def Let_def list_ex_iff)
  ultimately have "slice prev (py * W + x) ?w = slice cur (py * W + x) ?w" by metis
  then have "prev ! (py * W + x + (px - x)) = cur ! (py * W + x + (px - x))"
    using b w(2) assms(2,3) slice_eq_iff [of prev "py * W + x" ?w cur "py * W + x"]
    by (simp add: in_bounds_def)
  then show ?thesis using assms(5) by simp
qed

section \<open>All rows\<close>

lemma scan_ok_next:
  assumes "scan_ok W y h W rs"
  shows "scan_ok W (y + h) h' 0 rs"
  using assms by (auto simp: scan_ok_def scanned_rect_def list_all_iff)

lemma delta_scan_rows:
  assumes "length prev = W * H" "length cur = W * H" and "0 < t" and "k \<le> div_ceil H t"
  shows "let rs = fold (\<lambda>y. let h = min t (H - y) in scan_row (run_changed prev cur W t h y) W t y h 0)
        (map (\<lambda>k. k * t) [0..<k]) []
    in scan_ok W (min (k * t) H) h' 0 rs \<and>
      (\<forall>px py. px < W \<and> py < min (k * t) H \<and> prev ! (py * W + px) \<noteq> cur ! (py * W + px) \<longrightarrow> covers rs px py)"
  using assms(4)
proof (induction k arbitrary: h')
  case 0
  then show ?case by (simp add: scan_ok_def)
next
  case (Suc k)
  let ?h = "min t (H - k * t)"
  let ?rs = "fold (\<lambda>y. let h = min t (H - y) in scan_row (run_changed prev cur W t h y) W t y h 0)
        (map (\<lambda>k. k * t) [0..<k]) []"
  let ?rs' = "scan_row (run_changed prev cur W t ?h (k * t)) W t (k * t) ?h 0 ?rs"
  have below: "k * t < H"
    using Suc.prems div_ceil_le_iff [OF assms(3), of k H] by simp
  then have y: "min (k * t) H = k * t" "k * t + ?h = min (Suc k * t) H" "0 < ?h"
    using assms(3) by (auto simp: min_def)
  have IH: "scan_ok W (k * t) ?h 0 ?rs"
    "\<And>px py. px < W \<Longrightarrow> py < k * t \<Longrightarrow> prev ! (py * W + px) \<noteq> cur ! (py * W + px) \<Longrightarrow> covers ?rs px py"
    using Suc.IH [of ?h] Suc.prems y(1) by (auto simp: Let_def)
  have "scan_ok W (k * t + ?h) h' 0 ?rs'" by (rule scan_ok_next [OF scan_row_ok [OF IH(1) y(3)]])
  moreover have "covers ?rs' px py"
    if "px < W" "py < k * t + ?h" "prev ! (py * W + px) \<noteq> cur ! (py * W + px)" for px py
  proof (rule scan_row_covers [where D = "\<lambda>px py. prev ! (py * W + px) \<noteq> cur ! (py * W + px)"])
    show "covers ?rs px py \<or> 0 \<le> px \<and> px < W \<and> k * t \<le> py \<and> py < k * t + ?h \<and>
        prev ! (py * W + px) \<noteq> cur ! (py * W + px)"
      using that IH(2) [of px py] by (cases "py < k * t") auto
  next
    fix x px py
    assume "\<not> run_changed prev cur W t ?h (k * t) x" "x \<le> px" "px < x + t" "px < W"
      "k * t \<le> py" "py < k * t + ?h"
    then show "\<not> prev ! (py * W + px) \<noteq> cur ! (py * W + px)"
      using unchanged_tile [OF _ assms(1,2), of t ?h "k * t" x px py] below by simp
  qed (rule assms(3))
  ultimately show ?case using y(2) by (simp add: Let_def)
qed

lemma delta_scan_correct:
  assumes "length prev = W * H" "length cur = W * H" and "0 < t"
  shows "list_all (rect_ok W H) (delta_scan prev cur W H t)"
    and "sorted_wrt disjoint_rects (delta_scan prev cur W H t)"
    and "px < W \<Longrightarrow> py < H \<Longrightarrow> prev ! (py * W + px) \<noteq> cur ! (py * W + px) \<Longrightarrow>
      covers (delta_scan prev cur W H t) px py"
proof -
  have "\<not> div_ceil H t * t < H" using div_ceil_le_iff [OF assms(3), of "div_ceil H t" H] by simp
  then have "min (div_ceil H t * t) H = H" by simp
  then have all: "scan_ok W H 0 0 (delta_scan prev cur W H t)"
    "\<forall>px py. px < W \<and> py < H \<and> prev ! (py * W + px) \<noteq> cur ! (py * W + px) \<longrightarrow>
      covers (delta_scan prev cur W H t) px py"
    using delta_scan_rows [OF assms order_refl, of 0] unfolding delta_scan_def step_by_def Let_def by simp_all
  then show "list_all (rect_ok W H) (delta_scan prev cur W H t)"
    "sorted_wrt disjoint_rects (delta_scan prev cur W H t)"
    by (auto simp: scan_ok_def scanned_rect_def list_all_iff rect_ok_def)
  show "px < W \<Longrightarrow> py < H \<Longrightarrow> prev ! (py * W + px) \<noteq> cur ! (py * W + px) \<Longrightarrow>
      covers (delta_scan prev cur W H t) px py"
    using all(2) by blast
qed

lemma bounding_rect_correct:
  assumes "list_all (rect_ok W H) rs" and "rs \<noteq> []"
  shows "rect_ok W H (bounding_rect rs)" and "covers rs px py \<Longrightarrow> inside (bounding_rect rs) px py"
proof -
  let ?l = "Min (set (map rect_x rs))" and ?t = "Min (set (map rect_y rs))"
    and ?r = "Max (set (map (\<lambda>r. rect_x r + rect_w r) rs))"
    and ?b = "Max (set (map (\<lambda>r. rect_y r + rect_h r) rs))"
  have each: "?l \<le> rect_x r \<and> ?t \<le> rect_y r \<and> rect_x r + rect_w r \<le> ?r \<and> rect_y r + rect_h r \<le> ?b"
    if "r \<in> set rs" for r using that by (auto intro!: Min_le Max_ge)
  have max: "?r \<le> W" "?b \<le> H" using assms by (auto simp: list_all_iff rect_ok_def)
  have "hd rs \<in> set rs" "0 < rect_w (hd rs)" "0 < rect_h (hd rs)"
    using assms by (auto simp: list_all_iff rect_ok_def)
  with each [OF this(1)] have "?l < ?r" "?t < ?b" by linarith+
  then show "rect_ok W H (bounding_rect rs)" using max by (simp add: bounding_rect_def Let_def rect_ok_def)
  show "inside (bounding_rect rs) px py" if c: "covers rs px py"
  proof -
    obtain r where r: "r \<in> set rs" "inside r px py" using c by (auto simp: covers_def)
    show ?thesis
      using each [OF r(1)] r(2) unfolding bounding_rect_def Let_def inside_def mk_rect_simps by linarith
  qed
qed

lemma delta_rects_correct:
  assumes "length prev = W * H" "length cur = W * H" and "0 < W" "0 < H"
  shows "list_all (rect_ok W H) (delta_rects prev cur W H t n)"
    and "sorted_wrt disjoint_rects (delta_rects prev cur W H t n)"
    and "px < W \<Longrightarrow> py < H \<Longrightarrow> prev ! (py * W + px) \<noteq> cur ! (py * W + px) \<Longrightarrow>
      covers (delta_rects prev cur W H t n) px py"
    and "delta_rects prev cur W H t n \<noteq> []" and "length (delta_rects prev cur W H t n) \<le> max n 1"
proof -
  let ?s = "delta_scan prev cur W H (max t 1)"
  have "0 < max t 1" by simp
  note scan = delta_scan_correct [OF assms(1,2) this]
  consider "?s = []" | "?s \<noteq> []" "length ?s \<le> max n 1" "delta_rects prev cur W H t n = ?s"
    | "?s \<noteq> []" "delta_rects prev cur W H t n = [bounding_rect ?s]"
    by (cases "?s = []"; cases "length ?s > max n 1") (auto simp: delta_rects_def Let_def)
  note cases = this
  have one: "?s = [] \<Longrightarrow> delta_rects prev cur W H t n = [mk_rect 0 0 1 1]"
    by (simp add: delta_rects_def Let_def)
  show "list_all (rect_ok W H) (delta_rects prev cur W H t n)"
    using cases by cases (use scan(1) one assms(3,4) bounding_rect_correct(1) [of W H ?s] in \<open>auto simp: rect_ok_def\<close>)
  show "sorted_wrt disjoint_rects (delta_rects prev cur W H t n)"
    using cases by cases (use scan(2) one in auto)
  show "delta_rects prev cur W H t n \<noteq> []" "length (delta_rects prev cur W H t n) \<le> max n 1"
    using cases one by (cases; simp)+
  show "covers (delta_rects prev cur W H t n) px py"
    if "px < W" "py < H" "prev ! (py * W + px) \<noteq> cur ! (py * W + px)"
    using cases by cases (use scan(1) scan(3) [OF that] one bounding_rect_correct(2) [of W H ?s] in \<open>auto simp: covers_def\<close>)
qed

section \<open>Rebuilding the frame\<close>

definition delta_regions :: "bytes \<Rightarrow> bytes \<Rightarrow> nat \<Rightarrow> nat \<Rightarrow> nat \<Rightarrow> nat \<Rightarrow> decoded_region list" where
  "delta_regions prev cur W H t n =
     map (\<lambda>r. \<lparr>dr_rect = r, dr_pixels = extract_region cur W r\<rparr>) (delta_rects prev cur W H t n)"

lemma extract_row_bound: "rect_ok W H r \<Longrightarrow> y < rect_y r + rect_h r \<Longrightarrow> y * W + rect_x r + rect_w r \<le> W * H"
  by (rule row_end)

lemma extract_region_length:
  assumes "length cur = W * H" and "rect_ok W H r"
  shows "length (extract_region cur W r) = rect_w r * rect_h r"
proof -
  have "length (slice cur (y * W + rect_x r) (rect_w r)) = rect_w r" if "y < rect_y r + rect_h r" for y
    using extract_row_bound [OF assms(2) that] assms(1) by (intro length_slice) (simp add: in_bounds_def)
  then have "map length (map (\<lambda>row. slice cur (row * W + rect_x r) (rect_w r)) [rect_y r..<rect_y r + rect_h r]) =
      replicate (rect_h r) (rect_w r)" by (auto intro!: nth_equalityI)
  then show ?thesis by (simp add: extract_region_def length_concat sum_list_replicate del: map_map)
qed

lemma concat_rows_nth:
  assumes "\<And>i. i < n \<Longrightarrow> length (f i) = w" and "i < n" and "k < w"
  shows "concat (map f [0..<n]) ! (i * w + k) = f i ! k"
  using assms
proof (induction n)
  case 0
  then show ?case by simp
next
  case (Suc n)
  have len: "length (concat (map f [0..<n])) = n * w"
  proof -
    have "map length (map f [0..<n]) = replicate n w" using Suc.prems(1) by (auto intro!: nth_equalityI)
    then show ?thesis by (simp add: length_concat sum_list_replicate del: map_map)
  qed
  show ?case
  proof (cases "i < n")
    case True
    then have "i * w + k < n * w" using Suc.prems(3) mult_le_mono1 [of "Suc i" n w] by simp
    then show ?thesis using Suc True len by (simp add: nth_append)
  next
    case False
    then have "i = n" using Suc.prems(2) by simp
    then show ?thesis using len by (simp add: nth_append)
  qed
qed

lemma extract_region_nth:
  assumes "length cur = W * H" and "rect_ok W H r" and "inside r px py"
  shows "extract_region cur W r ! ((py - rect_y r) * rect_w r + (px - rect_x r)) = cur ! (py * W + px)"
proof -
  let ?f = "\<lambda>i. slice cur ((rect_y r + i) * W + rect_x r) (rect_w r)"
  have bound: "in_bounds cur ((rect_y r + i) * W + rect_x r) (rect_w r)" if "i < rect_h r" for i
    using extract_row_bound [OF assms(2), of "rect_y r + i"] that assms(1) by (simp add: in_bounds_def)
  have "extract_region cur W r = concat (map ?f [0..<rect_h r])"
  proof -
    have "[rect_y r..<rect_y r + rect_h r] = map (\<lambda>i. rect_y r + i) [0..<rect_h r]"
      by (auto intro!: nth_equalityI)
    then show ?thesis by (simp add: extract_region_def comp_def)
  qed
  moreover have i: "py - rect_y r < rect_h r" "px - rect_x r < rect_w r" "rect_y r + (py - rect_y r) = py"
    using assms(3) by (auto simp: inside_def)
  moreover have "?f (py - rect_y r) ! (px - rect_x r) = cur ! (py * W + px)"
    using nth_slice [OF bound [OF i(1)] i(2)] i(3) assms(3) by (simp add: inside_def)
  ultimately show ?thesis
    using concat_rows_nth [of "rect_h r" ?f "rect_w r"] length_slice [OF bound] by simp
qed

lemma disjoint_no_overlap:
  "list_all (rect_ok W H) rs \<Longrightarrow> sorted_wrt disjoint_rects rs \<Longrightarrow> \<not> any_overlap rs"
  by (induction rs) (auto simp: list_ex_iff list_all_iff overlaps_iff_common_pixel)

text \<open>What the compressor's documentation promises: decompression is its inverse.\<close>

definition compressor_ok :: "decoders \<Rightarrow> (bytes \<Rightarrow> bytes option) \<Rightarrow> bool" where
  "compressor_ok d compress \<longleftrightarrow> (\<forall>px c. compress px = Some c \<longrightarrow>
     zstd_new d c \<and> zstd_read d c (length px + 1) = Some px)"

lemma encode_region_fields:
  "region_rect (encode_region d compress r px z) = Some r"
  "decoded_len (encode_region d compress r px z) = length px mod 2 ^ 32"
  "decoded_crc32 (encode_region d compress r px z) = crc32_hash d px"
  "length (region_data (encode_region d compress r px z)) \<le> length px"
  by (auto simp: encode_region_def raw_region_def Let_def split: option.split)

lemma decode_encoded_region:
  assumes "compressor_ok d compress"
  shows "decode_region d (encode_region d compress r px z) (length px) = Inr px"
proof (cases "\<exists>c. z \<and> compress px = Some c \<and> length c + 12 < length px")
  case True
  then obtain c where c: "z" "compress px = Some c" "length c + 12 < length px" by blast
  then have "zstd_new d c" "zstd_read d c (length px + 1) = Some px"
    using assms by (auto simp: compressor_ok_def)
  then show ?thesis
    using c by (simp add: encode_region_def decode_region_def decode_exact_def encoding_of_i32_def Let_def)
next
  case False
  then have "encode_region d compress r px z = raw_region d r px"
    by (auto simp: encode_region_def Let_def split: option.split)
  then show ?thesis by (simp add: decode_region_def raw_region_def encoding_of_i32_def)
qed

lemma decode_encoded_regions:
  assumes "compressor_ok d compress"
    and "\<forall>r\<in>set rs. region_ok (st_width surface) (st_height surface) 1 r"
    and "dt + total_pixels rs \<le> st_max_frame_bytes surface" and "et \<le> dt"
    and "st_max_frame_bytes surface \<le> u32_max"
    and "st_width surface \<le> u32_max" and "st_height surface \<le> u32_max"
  shows "decode_regions d surface 1
      (map (\<lambda>r. encode_region d compress (dr_rect r) (dr_pixels r) z) rs) dt et = Inr (dt + total_pixels rs, rs)"
  using assms(2-)
proof (induction rs arbitrary: dt et)
  case Nil
  then show ?case by (simp add: total_pixels_def)
next
  case (Cons r rs)
  let ?n = "rect_w (dr_rect r) * rect_h (dr_rect r)"
    and ?r = "encode_region d compress (dr_rect r) (dr_pixels r) z"
  have ok: "rect_ok (st_width surface) (st_height surface) (dr_rect r)"
    and len: "length (dr_pixels r) = ?n"
    using Cons.prems(1) by (simp_all add: region_ok_def)
  have bound: "dt + ?n + total_pixels rs \<le> st_max_frame_bytes surface"
    using Cons.prems(2) by (simp add: total_pixels_def len)
  have n: "?n \<le> u32_max" "dt + ?n \<le> u32_max" using bound Cons.prems(4) by linarith+
  have small: "u32_max \<le> u64_max" by (simp add: max_defs)
  have modn: "?n mod 4294967296 = ?n" using n(1) by (intro mod_less) (simp add: max_defs)
  have rect: "validated_rect ?r surface = Inr (dr_rect r)"
    using ok Cons.prems(5,6) by (intro validated_rect_ok) (simp_all add: encode_region_fields)
  have data: "et + length (region_data ?r) \<le> dt + ?n"
    using encode_region_fields(4) [of d compress "dr_rect r" "dr_pixels r" z] Cons.prems(3) len by simp
  have checks: "checked_mul_usize (rect_w (dr_rect r)) (rect_h (dr_rect r)) = Some ?n"
    "checked_mul_usize ?n 1 = Some ?n" "checked_add_usize dt ?n = Some (dt + ?n)"
    "checked_add_usize et (length (region_data ?r)) = Some (et + length (region_data ?r))"
    using n small data by (auto simp: checked_mul_usize_def checked_add_usize_def)
  have lim: "\<not> (dt + ?n > st_max_frame_bytes surface \<or> et + length (region_data ?r) > st_max_frame_bytes surface)"
    using bound data by linarith
  have dec: "decode_region d ?r ?n = Inr (dr_pixels r)"
    using decode_encoded_region [OF assms(1), of "dr_rect r" "dr_pixels r" z] len by simp
  have IH: "decode_regions d surface 1
      (map (\<lambda>r. encode_region d compress (dr_rect r) (dr_pixels r) z) rs) (dt + ?n) (et + length (region_data ?r)) =
      Inr (dt + ?n + total_pixels rs, rs)"
    using Cons bound data by simp
  show ?case
    using lim len modn by (simp add: rect checks [unfolded One_nat_def] dec IH [unfolded One_nat_def] encode_region_fields total_pixels_def)
qed

text \<open>Disjoint rectangles inside a surface have at most its area.\<close>

lemma disjoint_area:
  assumes "list_all (rect_ok W H) rs" and "sorted_wrt disjoint_rects rs"
  shows "sum_list (map (\<lambda>r. rect_w r * rect_h r) rs) = card {(px, py). covers rs px py}"
    and "finite {(px, py). covers rs px py}"
  using assms
proof (induction rs)
  case Nil
  { case 1 show ?case by simp next case 2 show ?case by simp }
next
  case (Cons r rs)
  have r: "{(px, py). inside r px py} = {rect_x r..<rect_x r + rect_w r} \<times> {rect_y r..<rect_y r + rect_h r}"
    by (auto simp: inside_def)
  have split: "{(px, py). covers (r # rs) px py} = {(px, py). inside r px py} \<union> {(px, py). covers rs px py}"
    by auto
  { case 1
    have "{(px, py). inside r px py} \<inter> {(px, py). covers rs px py} = {}"
      using 1 by (auto simp: covers_def disjoint_rects_def)
    then show ?case
      using Cons.IH 1 unfolding split by (subst card_Un_disjoint) (simp_all add: r)
  next
    case 2
    then show ?case using Cons.IH(2) unfolding split by (simp add: r) }
qed

lemma disjoint_area_le:
  assumes "list_all (rect_ok W H) rs" and "sorted_wrt disjoint_rects rs"
  shows "sum_list (map (\<lambda>r. rect_w r * rect_h r) rs) \<le> W * H"
proof -
  have "{(px, py). covers rs px py} \<subseteq> {0..<W} \<times> {0..<H}"
    using assms(1) covers_bounds [of rs W H] by (auto simp: list_all_iff)
  then have "card {(px, py). covers rs px py} \<le> card ({0..<W} \<times> {0..<H})" by (intro card_mono) simp_all
  then show ?thesis using disjoint_area(1) [OF assms] by simp
qed

lemma delta_regions_wellformed:
  assumes "length prev = W * H" "length cur = W * H" and "0 < W" "0 < H"
  shows "\<forall>r\<in>set (delta_regions prev cur W H t n). region_ok W H 1 r"
    and "\<not> any_overlap (map dr_rect (delta_regions prev cur W H t n))"
    and "map dr_rect (delta_regions prev cur W H t n) = delta_rects prev cur W H t n"
    and "total_pixels (delta_regions prev cur W H t n) \<le> W * H"
proof -
  note rects = delta_rects_correct [OF assms]
  let ?rs = "delta_rects prev cur W H t n"
  show dr: "map dr_rect (delta_regions prev cur W H t n) = ?rs"
    by (simp add: delta_regions_def comp_def)
  show "\<forall>r\<in>set (delta_regions prev cur W H t n). region_ok W H 1 r"
    using rects(1) [of t n] extract_region_length [OF assms(2)]
    by (auto simp: delta_regions_def region_ok_def list_all_iff)
  show "\<not> any_overlap (map dr_rect (delta_regions prev cur W H t n))"
    unfolding dr by (rule disjoint_no_overlap [OF rects(1,2)])
  have "total_pixels (delta_regions prev cur W H t n) = sum_list (map (\<lambda>r. rect_w r * rect_h r) ?rs)"
    using rects(1) [of t n] extract_region_length [OF assms(2)]
    by (simp add: total_pixels_def delta_regions_def comp_def list_all_iff cong: map_cong)
  then show "total_pixels (delta_regions prev cur W H t n) \<le> W * H"
    using disjoint_area_le [OF rects(1,2), of t n] by simp
qed

lemma delta_regions_rebuild:
  assumes "length prev = W * H" "length cur = W * H" and "0 < W" "0 < H"
  shows "fold (blit_region W 1) (delta_regions prev cur W H t n) prev = cur"
proof (rule nth_equalityI)
  let ?rs = "delta_regions prev cur W H t n"
  note wf = delta_regions_wellformed [OF assms, of t n]
  have len: "length prev = W * H * 1" using assms(1) by simp
  show "length (fold (blit_region W 1) ?rs prev) = length cur"
    using fold_blit_length [OF wf(1) len] assms by simp
  fix i assume "i < length (fold (blit_region W 1) ?rs prev)"
  then have "i < W * H" using fold_blit_length [OF wf(1) len] assms(1) by simp
  then obtain px py where p: "px < W" "py < H" "i = py * W + px"
    using position_less [of i W H] by (metis div_mult_mod_eq mult.commute)
  have k: "(0 :: nat) < 1" by simp
  show "fold (blit_region W 1) ?rs prev ! i = cur ! i"
  proof (cases "covers (map dr_rect ?rs) px py")
    case False
    then show ?thesis
      using fold_blit_outside [OF wf(1) len p(1,2) k False]
        delta_rects_correct(3) [OF assms p(1,2), of t n] p(3) wf(3) by auto
  next
    case True
    then obtain r where r: "r \<in> set ?rs" "inside (dr_rect r) px py" by (auto simp: covers_def)
    then have px: "dr_pixels r = extract_region cur W (dr_rect r)" and ok: "rect_ok W H (dr_rect r)"
      using wf(1) by (auto simp: delta_regions_def region_ok_def)
    show ?thesis
      using fold_blit_inside [OF wf(1) len p(1,2) k wf(2) r] extract_region_nth [OF assms(2) ok r(2)] px p(3)
      by simp
  qed
qed

text \<open>
  Claim C8. A delta frame carries the change exactly: the regions the producer encodes for a new
  picture, sent on top of the frame the receiver holds, are accepted by the receiver whatever the
  tile size, within its limits on regions and bytes, and applying them to the old picture gives
  the new one, byte for byte. This includes the fallback to one bounding box, the dummy region of
  an unchanged picture and compressed regions.
\<close>

theorem delta_frame_rebuilds:
  assumes "compressor_ok d compress"
    and "frame_regions fr = encode_delta_regions d compress prev cur W H t n z"
    and "length prev = W * H" "length cur = W * H"
    and "0 < W" "0 < H" "W * H \<le> st_max_frame_bytes st" "st_max_frame_bytes st \<le> u32_max"
    and "st_width st = W" "st_height st = H" "st_pixel_format st = Gray8"
    and "max n 1 \<le> st_max_regions st" "n \<le> u16_max"
    and "frame_surface_id fr = st_surface_id st" "frame_generation fr = st_generation st"
    and "frame_base_id fr = st_logical_frame_id st" "0 < frame_base_id fr" "frame_base_id fr < frame_frame_id fr"
    and "frame_intent_field fr = frame_intent_i32 intent" "intent \<noteq> IntentUnspecified"
  shows "\<exists>v. validate_and_decode_frame d fr st = Inr v \<and> apply_validated_frame prev W v = cur"
proof -
  let ?rs = "delta_regions prev cur W H t n"
  note wf = delta_regions_wellformed [OF assms(3-6), of t n]
  have fields: "frame_regions fr = map (\<lambda>r. encode_region d compress (dr_rect r) (dr_pixels r) z) ?rs"
    unfolding assms(2) encode_delta_regions_def by (simp add: delta_regions_def comp_def)
  have area: "W \<le> W * H" "H \<le> W * H" using assms(5,6) by simp_all
  have small: "W \<le> u32_max" "H \<le> u32_max" using area assms(7,8) by linarith+
  have total: "total_pixels ?rs \<le> st_max_frame_bytes st" using wf(4) assms(7) by linarith
  have dec: "decode_regions d st 1 (frame_regions fr) 0 0 = Inr (total_pixels ?rs, ?rs)"
    using decode_encoded_regions [OF assms(1), of ?rs st 0 0 z] wf(1) small total assms(8-10)
    unfolding fields by simp
  have count: "frame_regions fr \<noteq> []" "length (frame_regions fr) \<le> max n 1"
    using delta_rects_correct(4,5) [OF assms(3-6), of t n] by (simp_all add: fields delta_regions_def)
  have "validate_and_decode_frame d fr st = Inr \<lparr>vf_frame_id = frame_frame_id fr,
      vf_base_frame_id = frame_base_id fr, vf_intent = intent, vf_pixel_format = st_pixel_format st,
      vf_decoded_bytes = total_pixels ?rs, vf_regions = ?rs\<rparr>"
    by (rule frame_accepted [OF _ _ _ _ _ _ _ _ _ dec wf(2)])
      (use assms count in \<open>auto simp: u16_max_def\<close>)
  moreover have "apply_validated_frame prev W v = cur"
    if "vf_pixel_format v = st_pixel_format st" "vf_regions v = ?rs" for v
    using that delta_regions_rebuild [OF assms(3-6), of t n] assms(11)
    by (subst apply_validated_frame_blit [where bpp = 1]) simp_all
  ultimately show ?thesis by auto
qed

definition sample_delta :: frame where
  "sample_delta =
     \<lparr>frame_surface_id = 1, frame_generation = 1, frame_frame_id = 4, frame_base_id = 3,
      frame_intent_field = frame_intent_i32 Latest, frame_content_class = 0,
      frame_regions = encode_delta_regions sample_decoders (\<lambda>_. None)
        [1, 2, 3, 4, 5, 6, 7, 8] [1, 2, 9, 4, 5, 6, 7, 9] 4 2 1 8 True,
      source_timestamp_us = 0\<rparr>"

theorem delta_frame_rebuilds_witness:
  "\<exists>v. validate_and_decode_frame sample_decoders sample_delta sample_state = Inr v \<and>
    apply_validated_frame [1, 2, 3, 4, 5, 6, 7, 8] 4 v = [1, 2, 9, 4, 5, 6, 7, 9]"
  by (rule delta_frame_rebuilds [where W = 4 and H = 2 and d = sample_decoders and compress = "\<lambda>_. None"
        and t = 1 and n = 8 and z = True and intent = Latest])
    (simp_all add: compressor_ok_def sample_delta_def sample_state_def max_defs)

end
