(* ===== verification/Client_State.thy ===== *)
theory Client_State
  imports Delta Wire Messages
begin

text \<open>
  The state of the producer, \<open>ProducerClient\<close> of \<open>crates/rm-display-cli/src/client.rs\<close>, its
  framing of messages (\<open>send_measured\<close>, \<open>receive\<close>), the events it writes
  (\<open>events.rs\<close>), and what it does with the messages it does not wait for. The connection is the
  bytes still to be read and the bytes written; the operations are total in the bytes, so a theorem
  over all inputs covers whatever a peer answers. Outside the program are the protobuf library, the
  checksum and the compressor, the clock (the value of each reading of \<open>Instant::now\<close>), and
  whether a write succeeds.
\<close>

section \<open>Data\<close>

record client_surface =
  cs_id :: nat
  cs_generation :: u32
  cs_width :: nat
  cs_height :: nat
  cs_max_frame_bytes :: nat
  cs_max_regions :: nat
  cs_max_inflight :: nat
  cs_max_inflight_bytes :: nat

record producer_metrics =
  pm_attempts :: nat
  pm_build_us :: nat
  pm_wire_encode_us :: nat
  pm_write_us :: nat
  pm_wait_us :: nat
  pm_total_us :: nat
  pm_wire_bytes :: nat

definition no_metrics :: producer_metrics where
  "no_metrics = \<lparr>pm_attempts = 0, pm_build_us = 0, pm_wire_encode_us = 0, pm_write_us = 0,
     pm_wait_us = 0, pm_total_us = 0, pm_wire_bytes = 0\<rparr>"

record frame_report =
  rep_result :: frame_result
  rep_producer :: producer_metrics

record send_measurement =
  sm_wire_encode_us :: nat
  sm_write_us :: nat
  sm_wire_bytes :: nat

record pending_frame =
  pf_frame_id :: nat
  pf_started :: nat
  pf_producer :: producer_metrics

datatype producer_error =
  ProducerIo | ProducerWire wire_error | ProducerClosed | UnexpectedMessage | MessageOrder
  | WrongSession | ProducerBadHello string | ProducerBadSurface string
  | ProducerFrameTooLarge nat nat | BadPixelLength nat nat | NoCredit
  | FrameRejected nat int int | Remote string | ProfileControlUnsupported
  | ProfileRequestRejected int string | RefreshControlUnsupported
  | RefreshRequestRejected int string | ProducerEvent

text \<open>The values of the event lines; \<open>JFixed n\<close> is the number \<open>n / 65536\<close>.\<close>

datatype json =
  JNat nat | JInt int | JBool bool | JString string | JFixed nat | JNull | JArray "json list"
  | JObject "(string \<times> json) list"

record producer_client =
  cl_input :: bytes
  cl_output :: bytes
  cl_reads :: nat
  cl_max_payload :: nat
  cl_session_id :: u64
  cl_next_message :: nat
  cl_last_received :: u32
  cl_next_frame :: nat
  cl_next_profile_request :: nat
  cl_next_refresh_request :: nat
  cl_receiver_logical :: nat
  cl_logical :: nat
  cl_needs_keyframe :: bool
  cl_credits :: nat
  cl_byte_credits :: nat
  cl_credit_limit :: nat
  cl_byte_credit_limit :: nat
  cl_pending :: "pending_frame list"
  cl_completed :: "frame_report list"
  cl_selected_minor :: nat
  cl_zstd :: bool
  cl_client_id :: bytes
  cl_server_hello :: "server_hello option"
  cl_event_output :: "json list option"
  cl_actions :: bool

record client_env =
  ce_prost :: "envelope prost"
  ce_decoders :: decoders
  ce_compress :: "bytes \<Rightarrow> bytes option"
  ce_clock :: "nat \<Rightarrow> nat"
  ce_write :: "bytes \<Rightarrow> bytes \<Rightarrow> bool"
  ce_event :: "json list \<Rightarrow> json \<Rightarrow> bool"

type_synonym 'a client_step = "(producer_error, 'a) result \<times> producer_client"

definition client_new :: "bytes \<Rightarrow> bytes \<Rightarrow> producer_client" where
  "client_new input client_id =
     \<lparr>cl_input = input, cl_output = [], cl_reads = 0,
      cl_max_payload = codec_limit pre_handshake_max_payload, cl_session_id = 0,
      cl_next_message = 1, cl_last_received = 0, cl_next_frame = 1, cl_next_profile_request = 1,
      cl_next_refresh_request = 1, cl_receiver_logical = 0, cl_logical = 0,
      cl_needs_keyframe = True, cl_credits = 0, cl_byte_credits = 0, cl_credit_limit = 0,
      cl_byte_credit_limit = 0, cl_pending = [], cl_completed = [], cl_selected_minor = 0,
      cl_zstd = False, cl_client_id = client_id, cl_server_hello = None, cl_event_output = None,
      cl_actions = False\<rparr>"

definition set_event_output :: "producer_client \<Rightarrow> producer_client" where
  "set_event_output c = c\<lparr>cl_event_output := Some []\<rparr>"

section \<open>Time\<close>

definition instant_now :: "client_env \<Rightarrow> producer_client \<Rightarrow> nat \<times> producer_client" where
  "instant_now env c = (ce_clock env (cl_reads c), c\<lparr>cl_reads := cl_reads c + 1\<rparr>)"

definition duration_us_u64 :: "nat \<Rightarrow> nat" where
  "duration_us_u64 duration = min (duration div 1000) u64_max"

definition elapsed_us :: "client_env \<Rightarrow> nat \<Rightarrow> producer_client \<Rightarrow> nat \<times> producer_client" where
  "elapsed_us env started c = (case instant_now env c of (now, c') \<Rightarrow> (duration_us_u64 (now - started), c'))"

section \<open>Sending and receiving\<close>

text \<open>A failed write may have written a part; the model leaves the output as it was.\<close>

definition send_measured :: "client_env \<Rightarrow> body \<Rightarrow> producer_client \<Rightarrow> send_measurement client_step" where
  "send_measured env b c =
     (let e = \<lparr>env_session_id = cl_session_id c, env_message_id = of_nat (cl_next_message c),
               env_body = Some b\<rparr> in
      case checked_add_u32 (cl_next_message c) 1 of
        None \<Rightarrow> (Inl MessageOrder, c)
      | Some next_message \<Rightarrow>
          let (encode_started, c2) = instant_now env (c\<lparr>cl_next_message := next_message\<rparr>) in
          (case wire_encode (ce_prost env) (cl_max_payload c2) e [] of
             (Inl error, _) \<Rightarrow> (Inl (ProducerWire error), c2)
           | (Inr _, out) \<Rightarrow>
               let (wire_encode_us, c3) = elapsed_us env encode_started c2;
                   (write_started, c4) = instant_now env c3
               in if \<not> ce_write env (cl_output c4) out then (Inl ProducerIo, c4)
                  else
                    let (write_us, c5) = elapsed_us env write_started (c4\<lparr>cl_output := cl_output c4 @ out\<rparr>)
                    in (Inr \<lparr>sm_wire_encode_us = wire_encode_us, sm_write_us = write_us,
                             sm_wire_bytes = length out\<rparr>, c5)))"

definition client_send :: "client_env \<Rightarrow> body \<Rightarrow> producer_client \<Rightarrow> unit client_step" where
  "client_send env b c = try_then (send_measured env b c) (\<lambda>_ c'. (Inr (), c'))"

text \<open>\<open>read_exact\<close> on a stream that ends early fails, and what it read is lost.\<close>

definition receive :: "client_env \<Rightarrow> producer_client \<Rightarrow> envelope client_step" where
  "receive env c =
     (if length (cl_input c) < header_len then (Inl ProducerIo, c\<lparr>cl_input := []\<rparr>)
      else
        let header = take header_len (cl_input c); c1 = c\<lparr>cl_input := drop header_len (cl_input c)\<rparr> in
        if take 4 header \<noteq> wire_magic then (Inl (ProducerWire InvalidMagic), c1)
        else
          let payload_len = unat (u32_from_be (header ! 4) (header ! 5) (header ! 6) (header ! 7)) in
          if payload_len > cl_max_payload c1
          then (Inl (ProducerWire (PayloadTooLarge payload_len (cl_max_payload c1))), c1)
          else if length (cl_input c1) < payload_len then (Inl ProducerIo, c1\<lparr>cl_input := []\<rparr>)
          else
            let framed = header @ take payload_len (cl_input c1);
                c2 = c1\<lparr>cl_input := drop payload_len (cl_input c1)\<rparr>
            in case wire_decode (ce_prost env) (cl_max_payload c2) framed of
                 (Inl error, _) \<Rightarrow> (Inl (ProducerWire error), c2)
               | (Inr None, _) \<Rightarrow> (Inl ProducerClosed, c2)
               | (Inr (Some e), _) \<Rightarrow>
                   if env_message_id e \<le> cl_last_received c2 then (Inl MessageOrder, c2)
                   else if cl_session_id c2 \<noteq> 0 \<and> env_session_id e \<noteq> cl_session_id c2
                   then (Inl WrongSession, c2)
                   else (Inr e, c2\<lparr>cl_last_received := env_message_id e\<rparr>))"

section \<open>Events\<close>

definition json_record :: "pointer_record \<Rightarrow> json" where
  "json_record r = JObject
     [(''device'', JInt (pointer_device_i32 (pr_device r))), (''phase'', JInt (record_phase_i32 (pr_phase r))),
      (''flags'', JNat (pr_flags r)), (''contact_id'', JNat (unat (pr_contact r))),
      (''x'', JFixed (pr_x r)), (''y'', JFixed (pr_y r)), (''pressure'', JNat (pr_pressure r)),
      (''buttons'', JNat (unat (pr_buttons r))), (''tilt_x'', JInt (pr_tilt_x r)),
      (''tilt_y'', JInt (pr_tilt_y r))]"

fun event_json :: "body option \<Rightarrow> json option" where
  "event_json (Some (InputBatch b)) = Some (JObject
     [(''type'', JString ''pointer_batch''), (''surface_id'', JNat (ib_surface_id b)),
      (''generation'', JNat (unat (ib_generation b))), (''sequence'', JNat (unat (ib_sequence b))),
      (''monotonic_us'', JNat (ib_monotonic_us b)),
      (''presented_frame_id'', JNat (ib_presented_frame_id b)), (''ink_frozen'', JBool (ib_ink_frozen b)),
      (''records'', JArray (map json_record (ib_records b)))])"
| "event_json (Some (KeyInput k)) = Some (JObject
     [(''type'', JString ''key''), (''surface_id'', JNat (ki_surface_id k)),
      (''generation'', JNat (unat (ki_generation k))), (''sequence'', JNat (ki_sequence k)),
      (''monotonic_us'', JNat (ki_monotonic_us k)), (''phase'', JInt (ki_phase k)),
      (''modifiers'', JNat (ki_modifiers k)), (''usage_page'', JNat (ki_usage_page k)),
      (''usage'', JNat (ki_usage k))])"
| "event_json (Some (TextInput t)) = Some (JObject
     [(''type'', JString ''text''), (''surface_id'', JNat (ti_surface_id t)),
      (''generation'', JNat (unat (ti_generation t))), (''sequence'', JNat (ti_sequence t)),
      (''monotonic_us'', JNat (ti_monotonic_us t)), (''operation'', JInt (ti_operation t)),
      (''text'', JString (ti_text t))])"
| "event_json (Some (ActionInvoke a)) = Some (JObject
     [(''type'', JString ''action''), (''surface_id'', JNat (ai_surface_id a)),
      (''generation'', JNat (unat (ai_generation a))), (''invocation_id'', JNat (ai_invocation_id a)),
      (''action'', JInt (ai_action a)), (''argument_hex'', JString (hex_encode (ai_argument a))),
      (''result'', JString ''ok_after_jsonl_flush'')])"
| "event_json _ = None"

text \<open>
  \<open>write_event_jsonl\<close>: one line per event, flushed; writing the serialised line can fail, in
  which case a part of it may have been written, which the model leaves out.
\<close>

definition write_event_jsonl ::
  "client_env \<Rightarrow> envelope \<Rightarrow> json list \<Rightarrow> (producer_error, bool) result \<times> json list" where
  "write_event_jsonl env e output =
     (case event_json (env_body e) of
        None \<Rightarrow> (Inr False, output)
      | Some value \<Rightarrow>
          if ce_event env output value then (Inr True, output @ [value]) else (Inl ProducerEvent, output))"

definition emit_event :: "client_env \<Rightarrow> body \<Rightarrow> producer_client \<Rightarrow> unit client_step" where
  "emit_event env b c =
     (case cl_event_output c of
        None \<Rightarrow> (Inr (), c)
      | Some output \<Rightarrow>
          (case write_event_jsonl env
              \<lparr>env_session_id = cl_session_id c, env_message_id = cl_last_received c, env_body = Some b\<rparr>
              output of
             (Inl error, output') \<Rightarrow> (Inl error, c\<lparr>cl_event_output := Some output'\<rparr>)
           | (Inr _, output') \<Rightarrow> (Inr (), c\<lparr>cl_event_output := Some output'\<rparr>)))"

end
