(* ===== verification/Client.thy ===== *)
theory Client
  imports Client_State
begin

text \<open>
  The operations of the producer, \<open>crates/rm-display-cli/src/client.rs\<close>. Every loop that waits
  for a reply is \<open>await_reply\<close>: the message is first offered to the arms of the loop, and
  anything else goes to \<open>handle_auxiliary\<close>. The loops terminate because every message consumes
  input; they fail when the input ends.
\<close>

section \<open>Frame results\<close>

text \<open>\<open>try_from(..).unwrap_or(Unspecified)\<close>; \<open>None\<close> stands for the unspecified code.\<close>

definition result_code :: "frame_result \<Rightarrow> frame_result_code option" where
  "result_code r = find (\<lambda>code. frame_result_code_i32 code = fr_result r)
     [CodePresented, CodeSuperseded, CodeNeedKeyframe, CodeRejected]"

text \<open>\<open>position\<close> and \<open>remove\<close> of the pending frame that a result names.\<close>

fun take_pending :: "nat \<Rightarrow> pending_frame list \<Rightarrow> (pending_frame \<times> pending_frame list) option" where
  "take_pending frame_id [] = None"
| "take_pending frame_id (p # ps) =
     (if pf_frame_id p = frame_id then Some (p, ps)
      else map_option (\<lambda>(q, qs). (q, p # qs)) (take_pending frame_id ps))"

definition waited :: "nat \<Rightarrow> producer_metrics \<Rightarrow> producer_metrics" where
  "waited us m =
     (let m1 = m\<lparr>pm_wait_us := sat_add_u64 (pm_wait_us m) us\<rparr>
      in m1\<lparr>pm_total_us := sat_add_u64 (sat_add_u64 (sat_add_u64 (pm_build_us m1) (pm_wire_encode_us m1))
           (pm_write_us m1)) (pm_wait_us m1)\<rparr>)"

definition apply_frame_result ::
  "client_env \<Rightarrow> frame_result \<Rightarrow> producer_client \<Rightarrow> frame_report client_step" where
  "apply_frame_result env r c =
     (if fr_credits r > cl_credit_limit c \<or>
         cl_selected_minor c \<ge> 1 \<and> fr_byte_credits r > cl_byte_credit_limit c
      then (Inl UnexpectedMessage, c)
      else case take_pending (fr_frame_id r) (cl_pending c) of
        None \<Rightarrow> (Inl UnexpectedMessage, c)
      | Some (pending, rest) \<Rightarrow>
          let needs_keyframe = (cl_needs_keyframe c \<or> result_code r \<notin> {Some CodePresented, Some CodeSuperseded});
              c1 = c\<lparr>cl_pending := rest, cl_credits := fr_credits r,
                cl_byte_credits := (if cl_selected_minor c \<ge> 1 then fr_byte_credits r else cl_byte_credits c),
                cl_receiver_logical := fr_logical_frame_id r,
                cl_needs_keyframe := needs_keyframe,
                cl_logical :=
                  (if needs_keyframe \<or> rest = [] then fr_logical_frame_id r else pf_frame_id (last rest))\<rparr>;
              (us, c2) = elapsed_us env (pf_started pending) c1
          in (Inr \<lparr>rep_result = r, rep_producer = waited us (pf_producer pending)\<rparr>, c2))"

definition handle_auxiliary :: "client_env \<Rightarrow> body \<Rightarrow> producer_client \<Rightarrow> unit client_step" where
  "handle_auxiliary env b c =
     (case b of
        FrameResult r \<Rightarrow>
          try_then (apply_frame_result env r c)
            (\<lambda>report c'. (Inr (), c'\<lparr>cl_completed := cl_completed c' @ [report]\<rparr>))
      | Ping cookie \<Rightarrow> client_send env (Pong cookie) c
      | InputBatch batch \<Rightarrow> emit_event env (InputBatch batch) c
      | KeyInput key \<Rightarrow> emit_event env (KeyInput key) c
      | TextInput txt \<Rightarrow> emit_event env (TextInput txt) c
      | ActionInvoke action \<Rightarrow>
          let handled = (cl_actions c \<and> cl_event_output c \<noteq> None) in
          try_then (emit_event env (ActionInvoke action) c) (\<lambda>_ c'.
            client_send env (ActionResult
              \<lparr>ar_surface_id = ai_surface_id action, ar_generation = ai_generation action,
               ar_invocation_id = ai_invocation_id action,
               ar_status = action_status_i32 (if handled then StatusOk else StatusUnsupported),
               ar_message = (if handled then ''action emitted to JSONL''
                 else ''Linux CLI has no action handler'')\<rparr>) c')
      | ErrorBody e \<Rightarrow> if er_fatal e then (Inl (Remote (er_message e)), c) else (Inr (), c)
      | Goodbye _ \<Rightarrow> (Inl ProducerClosed, c)
      | _ \<Rightarrow> (Inr (), c))"

section \<open>Reading consumes input\<close>

lemma receive_consumes: "receive env c = (Inr e, c') \<Longrightarrow> length (cl_input c') < length (cl_input c)"
  by (auto simp: receive_def Let_def header_len_def split: if_splits sum.splits option.splits prod.splits)

lemma instant_now_input [simp]: "cl_input (snd (instant_now env c)) = cl_input c"
  by (simp add: instant_now_def)

lemma elapsed_us_input [simp]: "cl_input (snd (elapsed_us env started c)) = cl_input c"
  by (simp add: elapsed_us_def instant_now_def)

lemma send_measured_input [simp]: "cl_input (snd (send_measured env b c)) = cl_input c"
  by (simp add: send_measured_def instant_now_def elapsed_us_def Let_def split: option.split sum.split prod.split)

lemma try_then_input:
  assumes "cl_input (snd m) = i"
    and "\<And>x c. m = (Inr x, c) \<Longrightarrow> cl_input c = i \<Longrightarrow> cl_input (snd (f x c)) = i"
  shows "cl_input (snd (try_then m f)) = i"
  using assms by (cases m) (auto simp: try_then_def split: sum.split)

lemma client_send_input [simp]: "cl_input (snd (client_send env b c)) = cl_input c"
  by (simp add: client_send_def try_then_input)

lemma apply_frame_result_input [simp]: "cl_input (snd (apply_frame_result env r c)) = cl_input c"
  by (simp add: apply_frame_result_def elapsed_us_def instant_now_def Let_def split: option.split)

lemma emit_event_input [simp]: "cl_input (snd (emit_event env b c)) = cl_input c"
  by (simp add: emit_event_def split: option.split sum.split prod.split)

lemma handle_auxiliary_input: "cl_input (snd (handle_auxiliary env b c)) = cl_input c"
  by (cases b) (simp_all add: handle_auxiliary_def Let_def try_then_input)

section \<open>Waiting\<close>

text \<open>
  An arm that matches returns the result of the loop; the arms are tried before
  \<open>Some(body) => self.handle_auxiliary(body)?\<close>.
\<close>

function await_reply ::
  "client_env \<Rightarrow> (body \<Rightarrow> producer_client \<Rightarrow> 'a client_step option) \<Rightarrow> producer_client \<Rightarrow> 'a client_step" where
  "await_reply env arms c =
     (case receive env c of
        (Inl error, c1) \<Rightarrow> (Inl error, c1)
      | (Inr e, c1) \<Rightarrow>
          (case env_body e of
             None \<Rightarrow> (Inl UnexpectedMessage, c1)
           | Some b \<Rightarrow>
               (case arms b c1 of
                  Some result \<Rightarrow> result
                | None \<Rightarrow>
                    (case handle_auxiliary env b c1 of
                       (Inl error, c2) \<Rightarrow> (Inl error, c2)
                     | (Inr _, c2) \<Rightarrow> await_reply env arms c2))))"
  by pat_completeness auto

termination
proof (relation "measure (\<lambda>(env, arms, c). length (cl_input c))", goal_cases)
  case (2 env arms c x c1 e b r c2)
  then show ?case
    using receive_consumes [of env c e c1] handle_auxiliary_input [of env _ c1]
    by (metis (no_types, lifting) case_prod_conv in_measure snd_conv)
qed auto

declare await_reply.simps [simp del]

text \<open>The arm every waiting loop but two has: a fatal error ends it.\<close>

definition fatal_error :: "body \<Rightarrow> string option" where
  "fatal_error b = (case b of ErrorBody e \<Rightarrow> if er_fatal e then Some (er_message e) else None | _ \<Rightarrow> None)"

definition receive_pending_frame_report :: "client_env \<Rightarrow> producer_client \<Rightarrow> frame_report client_step" where
  "receive_pending_frame_report env = await_reply env (\<lambda>b c.
     case b of
       FrameResult r \<Rightarrow> Some (apply_frame_result env r c)
     | _ \<Rightarrow> map_option (\<lambda>m. (Inl (Remote m), c)) (fatal_error b))"

text \<open>
  A completed report of the frame ends the wait at once. A result of another frame takes the path
  of \<open>handle_auxiliary\<close>, which also applies it and keeps its report.
\<close>

fun take_report :: "nat \<Rightarrow> frame_report list \<Rightarrow> (frame_report \<times> frame_report list) option" where
  "take_report frame_id [] = None"
| "take_report frame_id (r # rs) =
     (if fr_frame_id (rep_result r) = frame_id then Some (r, rs)
      else map_option (\<lambda>(q, qs). (q, r # qs)) (take_report frame_id rs))"

definition wait_for_frame_report :: "client_env \<Rightarrow> nat \<Rightarrow> producer_client \<Rightarrow> frame_report client_step" where
  "wait_for_frame_report env frame_id c =
     (case take_report frame_id (cl_completed c) of
        Some (report, rest) \<Rightarrow> (Inr report, c\<lparr>cl_completed := rest\<rparr>)
      | None \<Rightarrow> await_reply env (\<lambda>b c.
          case b of
            FrameResult r \<Rightarrow> if fr_frame_id r = frame_id then Some (apply_frame_result env r c) else None
          | _ \<Rightarrow> map_option (\<lambda>m. (Inl (Remote m), c)) (fatal_error b)) c)"

definition pump_once :: "client_env \<Rightarrow> producer_client \<Rightarrow> unit client_step" where
  "pump_once env c =
     try_then (receive env c) (\<lambda>e c1.
       case env_body e of None \<Rightarrow> (Inl UnexpectedMessage, c1) | Some b \<Rightarrow> handle_auxiliary env b c1)"

section \<open>Rules for the loops\<close>

text \<open>
  A successful wait, seen as a run: messages handled as auxiliary ones, then one that an arm
  answered. A property is shown for the two kinds of step and holds for the loop.
\<close>

lemma await_reply_rule:
  assumes "await_reply env arms c = (Inr x, c')" and "I c"
    and aux: "\<And>c e c1 b c2. I c \<Longrightarrow> receive env c = (Inr e, c1) \<Longrightarrow> env_body e = Some b \<Longrightarrow> arms b c1 = None \<Longrightarrow>
      handle_auxiliary env b c1 = (Inr (), c2) \<Longrightarrow> I c2"
    and arm: "\<And>c e c1 b. I c \<Longrightarrow> receive env c = (Inr e, c1) \<Longrightarrow> env_body e = Some b \<Longrightarrow>
      arms b c1 = Some (Inr x, c') \<Longrightarrow> Q"
  shows Q
  using assms(1,2)
proof (induction "length (cl_input c)" arbitrary: c rule: less_induct)
  case less
  obtain e c1 where r: "receive env c = (Inr e, c1)"
    using less.prems(1) by (subst (asm) await_reply.simps) (auto split: prod.splits sum.splits)
  obtain b where b: "env_body e = Some b"
    using less.prems(1) r by (subst (asm) await_reply.simps) (auto split: option.splits)
  show ?case
  proof (cases "arms b c1")
    case (Some res)
    then have "arms b c1 = Some (Inr x, c')"
      using less.prems(1) r b by (subst (asm) await_reply.simps) auto
    then show ?thesis by (rule arm [OF less.prems(2) r b])
  next
    case None
    obtain c2 where h: "handle_auxiliary env b c1 = (Inr (), c2)" and w: "await_reply env arms c2 = (Inr x, c')"
      using less.prems(1) r b None by (subst (asm) await_reply.simps) (auto split: prod.splits sum.splits)
    have "length (cl_input c2) < length (cl_input c)"
      using receive_consumes [OF r] handle_auxiliary_input [of env b c1] h by simp
    then show ?thesis using less.hyps w aux [OF less.prems(2) r b None h] by blast
  qed
qed

lemma await_consumes:
  assumes "await_reply env arms c = (Inr x, c')"
    and "\<And>b c r c'. arms b c = Some (Inr r, c') \<Longrightarrow> cl_input c' = cl_input c"
  shows "length (cl_input c') < length (cl_input c)"
proof (rule await_reply_rule [OF assms(1), where I = "\<lambda>d. length (cl_input d) \<le> length (cl_input c)"])
  fix d e c1 b c2
  assume d: "length (cl_input d) \<le> length (cl_input c)" "receive env d = (Inr e, c1)"
  show "length (cl_input c2) \<le> length (cl_input c)" if "handle_auxiliary env b c1 = (Inr (), c2)"
    using d receive_consumes [OF d(2)] handle_auxiliary_input [of env b c1] that by simp
  show "length (cl_input c') < length (cl_input c)" if "arms b c1 = Some (Inr x, c')"
    using d receive_consumes [OF d(2)] assms(2) [OF that] by simp
qed simp

lemma receive_pending_consumes:
  assumes "receive_pending_frame_report env c = (Inr report, c')"
  shows "length (cl_input c') < length (cl_input c)"
  using assms unfolding receive_pending_frame_report_def
  by (rule await_consumes) (auto split: body.splits dest: arg_cong [where f = "\<lambda>m. cl_input (snd m)"])

end
