(* ===== verification/Client_Requests.thy ===== *)
theory Client_Requests
  imports Client
begin

text \<open>
  The requests of the producer in \<open>client.rs\<close>: the handshake, profile and refresh control,
  opening a surface, overlay updates and leaving.
\<close>

section \<open>Handshake\<close>

definition client_max_minor :: nat where "client_max_minor = 3"
definition client_surface_id :: nat where "client_surface_id = 1"

definition producer_kind_linux_cli :: int where "producer_kind_linux_cli = 4"

definition client_hello_message :: "string \<Rightarrow> bytes \<Rightarrow> producer_client \<Rightarrow> client_hello" where
  "client_hello_message name nonce c =
     \<lparr>ch_min_minor = 0, ch_max_minor = client_max_minor, ch_producer_kind = producer_kind_linux_cli,
      ch_features = map feature_i32
        [AtomicMultiRegion, ExactBaseDelta, LatestSupersede, SettledBarrierFeature, PointerInput,
         RemoteOverlay, LocalInk, KeyInputFeature, TextInputFeature, Actions, EpaperProfileControl,
         EpaperRefreshControl, ByteCredits, EpaperCustomProfile],
      ch_pixel_formats = [pixel_format_i32 Gray8], ch_encodings = [encoding_i32 Raw, encoding_i32 Zstd],
      ch_client_id = cl_client_id c, ch_token = replicate 32 0, ch_client_nonce = nonce, ch_name = name\<rparr>"

definition offers :: "server_hello \<Rightarrow> protocol_feature \<Rightarrow> bool" where
  "offers server f \<longleftrightarrow> feature_i32 f \<in> set (sh_features server)"

definition validate_server_hello :: "server_hello \<Rightarrow> (producer_error, unit) result" where
  "validate_server_hello server =
     (if sh_selected_minor server > client_max_minor
      then Inl (ProducerBadHello ''unsupported minor version'')
      else if length (sh_server_id server) \<noteq> 16
      then Inl (ProducerBadHello ''server id must be 16 bytes'')
      else and_then (ok_or (ProducerBadHello ''display info missing'') (sh_display server)) (\<lambda>display.
        if di_width display = 0 \<or> di_height display = 0 \<or>
          pixel_format_i32 Gray8 \<notin> set (di_pixel_formats display) \<or>
          encoding_i32 Raw \<notin> set (di_encodings display)
        then Inl (ProducerBadHello ''mandatory Gray8/Raw or geometry missing'')
        else and_then (ok_or (ProducerBadHello ''limits missing'') (sh_limits server)) (\<lambda>limits.
          if li_max_payload limits = 0 \<or> li_max_frame_bytes limits = 0 \<or> li_max_regions limits = 0 \<or>
            li_max_inflight limits = 0 \<or>
            sh_selected_minor server \<ge> 1 \<and> li_max_inflight_bytes limits = 0
          then Inl (ProducerBadHello ''invalid zero limit'')
          else if sh_selected_minor server \<ge> 1 \<and> \<not> offers server ByteCredits
          then Inl (ProducerBadHello ''v2.1 byte credits missing'')
          else if sh_selected_minor server \<ge> 2 \<and> \<not> offers server EpaperCustomProfile
          then Inl (ProducerBadHello ''v2.2 custom profile capability missing'')
          else if sh_selected_minor server \<ge> 3 \<and> \<not> offers server RemoteOverlay
          then Inl (ProducerBadHello ''v2.3 remote overlay missing'')
          else if \<not> list_all (offers server)
            [AtomicMultiRegion, ExactBaseDelta, LatestSupersede, SettledBarrierFeature]
          then Inl (ProducerBadHello ''mandatory feature missing'')
          else Inr ())))"

text \<open>The nonce is random; a validated hello has limits, which the \<open>expect\<close> relies on.\<close>

definition client_hello_step ::
  "client_env \<Rightarrow> string \<Rightarrow> bytes \<Rightarrow> producer_client \<Rightarrow> server_hello client_step" where
  "client_hello_step env name nonce c0 =
     try_then (client_send env (ClientHello (client_hello_message name nonce c0)) c0) (\<lambda>_ c1.
     try_then (receive env c1) (\<lambda>e c.
       if env_session_id e = 0 then (Inl (ProducerBadHello ''session id is zero''), c)
       else case env_body e of
         Some (ServerHello server) \<Rightarrow>
           (case validate_server_hello server of
              Inl error \<Rightarrow> (Inl error, c)
            | Inr _ \<Rightarrow>
                (case (sh_display server, sh_limits server) of
                   (Some display, Some limits) \<Rightarrow>
                     (Inr server, c\<lparr>cl_zstd := (encoding_i32 Zstd \<in> set (di_encodings display)),
                       cl_selected_minor := sh_selected_minor server,
                       cl_session_id := env_session_id e,
                       cl_max_payload := codec_limit (li_max_payload limits),
                       cl_server_hello := Some server\<rparr>)
                 | _ \<Rightarrow> (Inl UnexpectedMessage, c)))
       | Some (ErrorBody error) \<Rightarrow> (Inl (Remote (er_message error)), c)
       | _ \<Rightarrow> (Inl UnexpectedMessage, c)))"

definition supports :: "protocol_feature \<Rightarrow> producer_client \<Rightarrow> bool" where
  "supports f c = (case cl_server_hello c of None \<Rightarrow> False | Some hello \<Rightarrow> offers hello f)"

section \<open>Profile control\<close>

definition profile_answer :: "nat \<Rightarrow> body \<Rightarrow> producer_client \<Rightarrow> profile_result client_step option" where
  "profile_answer request_id b c =
     (case b of
        EpaperProfileResult r \<Rightarrow>
          if pt_request_id r = request_id then
            Some (if pt_result r \<in> {profile_result_code_i32 ProfileApplied, profile_result_code_i32 ProfileUnchanged}
                \<and> pt_active r \<noteq> None
              then (Inr r, c)
              else (Inl (ProfileRequestRejected (pt_result r) (pt_message r)), c))
          else None
      | _ \<Rightarrow> map_option (\<lambda>m. (Inl (Remote m), c)) (fatal_error b))"

definition epaper_profile_request ::
  "client_env \<Rightarrow> profile_operation \<Rightarrow> epaper_profile \<Rightarrow> profile_configuration option \<Rightarrow>
   producer_client \<Rightarrow> profile_result client_step" where
  "epaper_profile_request env operation requested_profile custom c =
     (if \<not> supports EpaperProfileControl c then (Inl ProfileControlUnsupported, c)
      else
        let request_id = cl_next_profile_request c in
        case checked_add_u32 request_id 1 of
          None \<Rightarrow> (Inl MessageOrder, c)
        | Some next \<Rightarrow>
            try_then (client_send env (EpaperProfileRequest
                \<lparr>pq_request_id = request_id, pq_operation = profile_operation_i32 operation,
                 pq_requested_profile = epaper_profile_i32 requested_profile, pq_custom = custom\<rparr>)
                (c\<lparr>cl_next_profile_request := next\<rparr>))
              (\<lambda>_ c1. await_reply env (profile_answer request_id) c1))"

definition query_epaper_profile :: "client_env \<Rightarrow> producer_client \<Rightarrow> profile_result client_step" where
  "query_epaper_profile env = epaper_profile_request env ProfileQuery EpUnspecified None"

definition request_epaper_profile ::
  "client_env \<Rightarrow> epaper_profile \<Rightarrow> producer_client \<Rightarrow> profile_result client_step" where
  "request_epaper_profile env profile c =
     (if profile = EpUnspecified \<or> profile = EpCustom
      then (Inl (ProfileRequestRejected (profile_result_code_i32 ProfileRejected)
        ''preset SET requires realtime, animate, balanced, reading, or quality''), c)
      else epaper_profile_request env ProfileSet profile None c)"

definition request_custom_epaper_profile ::
  "client_env \<Rightarrow> profile_configuration \<Rightarrow> producer_client \<Rightarrow> profile_result client_step" where
  "request_custom_epaper_profile env custom c =
     (if \<not> (case cl_server_hello c of None \<Rightarrow> False
         | Some hello \<Rightarrow> sh_selected_minor hello \<ge> 2 \<and> offers hello EpaperCustomProfile)
      then (Inl ProfileControlUnsupported, c)
      else epaper_profile_request env ProfileSet EpCustom (Some custom) c)"

section \<open>Refresh control\<close>

definition refresh_answer :: "nat \<Rightarrow> body \<Rightarrow> producer_client \<Rightarrow> refresh_result client_step option" where
  "refresh_answer request_id b c =
     (case b of
        EpaperRefreshResult r \<Rightarrow>
          if rt_request_id r = request_id then
            Some (if rt_result r \<in> {refresh_result_code_i32 RefreshApplied, refresh_result_code_i32 RefreshUnchanged}
                \<and> rt_active r \<noteq> None
              then (Inr r, c)
              else (Inl (RefreshRequestRejected (rt_result r) (rt_message r)), c))
          else None
      | _ \<Rightarrow> map_option (\<lambda>m. (Inl (Remote m), c)) (fatal_error b))"

definition epaper_refresh_request ::
  "client_env \<Rightarrow> refresh_request_msg \<Rightarrow> producer_client \<Rightarrow> refresh_result client_step" where
  "epaper_refresh_request env request c =
     (if \<not> supports EpaperRefreshControl c then (Inl RefreshControlUnsupported, c)
      else if rq_operation request = refresh_operation_i32 RefreshUpdate \<and>
        rq_partial_refresh_enabled request = None \<and> rq_cleanup_after_updates request = None \<and>
        rq_large_update_threshold_percent request = None \<and>
        rq_static_cleanup_after_fast_updates request = None
      then (Inl (RefreshRequestRejected (refresh_result_code_i32 RefreshRejected)
        ''UPDATE requires at least one parameter''), c)
      else
        let request_id = cl_next_refresh_request c in
        case checked_add_u32 request_id 1 of
          None \<Rightarrow> (Inl MessageOrder, c)
        | Some next \<Rightarrow>
            try_then (client_send env (EpaperRefreshRequest (request\<lparr>rq_request_id := request_id\<rparr>))
                (c\<lparr>cl_next_refresh_request := next\<rparr>))
              (\<lambda>_ c1. await_reply env (refresh_answer request_id) c1))"

definition plain_refresh_request :: "refresh_operation \<Rightarrow> refresh_request_msg" where
  "plain_refresh_request operation =
     \<lparr>rq_request_id = 0, rq_operation = refresh_operation_i32 operation,
      rq_partial_refresh_enabled = None, rq_cleanup_after_updates = None,
      rq_large_update_threshold_percent = None, rq_static_cleanup_after_fast_updates = None\<rparr>"

definition query_epaper_refresh :: "client_env \<Rightarrow> producer_client \<Rightarrow> refresh_result client_step" where
  "query_epaper_refresh env = epaper_refresh_request env (plain_refresh_request RefreshQuery)"

definition update_epaper_refresh ::
  "client_env \<Rightarrow> bool option \<Rightarrow> nat option \<Rightarrow> nat option \<Rightarrow> nat option \<Rightarrow> producer_client \<Rightarrow>
   refresh_result client_step" where
  "update_epaper_refresh env enabled cleanup percent static =
     epaper_refresh_request env
       \<lparr>rq_request_id = 0, rq_operation = refresh_operation_i32 RefreshUpdate,
        rq_partial_refresh_enabled = enabled, rq_cleanup_after_updates = cleanup,
        rq_large_update_threshold_percent = percent,
        rq_static_cleanup_after_fast_updates = static\<rparr>"

definition request_epaper_cleanup :: "client_env \<Rightarrow> producer_client \<Rightarrow> refresh_result client_step" where
  "request_epaper_cleanup env = epaper_refresh_request env (plain_refresh_request RefreshCleanup)"

section \<open>Surfaces\<close>

definition action_ids :: "action_id list" where
  "action_ids = [Back, Forward, Reload, Home, Menu, PreviousPage, NextPage]"

definition accept_surface :: "surface_ready \<Rightarrow> producer_client \<Rightarrow> client_surface client_step" where
  "accept_surface ready c =
     (if sr_surface_id ready \<noteq> client_surface_id \<or> sr_generation ready = 0
      then (Inl (ProducerBadSurface ''wrong id or zero generation''), c)
      else if sr_width ready = 0 \<or> sr_height ready = 0 \<or> sr_pixel_format ready \<noteq> pixel_format_i32 Gray8
      then (Inl (ProducerBadSurface ''invalid geometry or pixel format''), c)
      else case sr_limits ready of
        None \<Rightarrow> (Inl (ProducerBadSurface ''limits missing''), c)
      | Some limits \<Rightarrow>
          if li_max_frame_bytes limits = 0 \<or> li_max_regions limits = 0 \<or> li_max_inflight limits = 0
          then (Inl (ProducerBadSurface ''zero frame limit''), c)
          else
            let byte_credits = (if cl_selected_minor c \<ge> 1 then li_max_inflight_bytes limits else u64_max)
            in (Inr \<lparr>cs_id = sr_surface_id ready, cs_generation = sr_generation ready,
                  cs_width = sr_width ready, cs_height = sr_height ready,
                  cs_max_frame_bytes = li_max_frame_bytes limits, cs_max_regions = li_max_regions limits,
                  cs_max_inflight = li_max_inflight limits, cs_max_inflight_bytes = byte_credits\<rparr>,
                c\<lparr>cl_actions := (cl_actions c \<and> sr_action_capabilities ready \<noteq> []),
                  cl_next_frame := 1, cl_receiver_logical := 0, cl_logical := 0, cl_needs_keyframe := True,
                  cl_credits := li_max_inflight limits, cl_credit_limit := li_max_inflight limits,
                  cl_byte_credits := byte_credits, cl_byte_credit_limit := byte_credits,
                  cl_pending := [], cl_completed := []\<rparr>))"

definition open_surface_with_input_capabilities ::
  "client_env \<Rightarrow> nat \<Rightarrow> nat \<Rightarrow> int \<Rightarrow> input_capability list \<Rightarrow> string \<Rightarrow> producer_client \<Rightarrow>
   client_surface client_step" where
  "open_surface_with_input_capabilities env desired_width desired_height source_kind capabilities label c0 =
     (let accept_input = (capabilities \<noteq> []);
          c = c0\<lparr>cl_actions := (accept_input \<and> cl_event_output c0 \<noteq> None)\<rparr>
      in try_then (client_send env (SurfaceOpen
           \<lparr>so_surface_id = client_surface_id, so_desired_width = desired_width,
            so_desired_height = desired_height, so_pixel_format = pixel_format_i32 Gray8,
            so_orientation = orientation_current, so_source_kind = source_kind,
            so_input_capabilities = map capability_i32 capabilities,
            so_action_capabilities = (if accept_input then map action_id_i32 action_ids else []),
            so_label = label\<rparr>) c)
         (\<lambda>_ c1. await_reply env (\<lambda>b c.
           case b of
             SurfaceReady ready \<Rightarrow> Some (accept_surface ready c)
           | ErrorBody e \<Rightarrow> Some (Inl (Remote (er_message e)), c)
           | _ \<Rightarrow> None) c1))"

definition client_open_surface ::
  "client_env \<Rightarrow> nat \<Rightarrow> nat \<Rightarrow> int \<Rightarrow> bool \<Rightarrow> string \<Rightarrow> producer_client \<Rightarrow> client_surface client_step" where
  "client_open_surface env desired_width desired_height source_kind accept_input label =
     open_surface_with_input_capabilities env desired_width desired_height source_kind
       (if accept_input then [CapTouch, CapPen, CapMouse, CapKey, CapText] else []) label"

section \<open>Overlays and leaving\<close>

definition update_overlay :: "client_env \<Rightarrow> overlay_update \<Rightarrow> producer_client \<Rightarrow> overlay_result client_step" where
  "update_overlay env update c =
     (if \<not> supports RemoteOverlay c then (Inl (ProducerBadHello ''remote overlay unavailable''), c)
      else try_then (client_send env (OverlayUpdate update) c) (\<lambda>_ c1. await_reply env (\<lambda>b c.
        case b of
          OverlayResult r \<Rightarrow>
            if or_sequence r = ou_sequence update
            then Some (Inr r, if or_applied r \<and> ou_local_ink update = Some False
                              then c\<lparr>cl_needs_keyframe := True\<rparr> else c)
            else None
        | _ \<Rightarrow> None) c1))"

definition client_goodbye :: "client_env \<Rightarrow> producer_client \<Rightarrow> unit client_step" where
  "client_goodbye env = client_send env (Goodbye \<lparr>gb_reason = 1, gb_message = ''producer completed''\<rparr>)"

end
