(* ===== verification/Client_Frames.thy ===== *)
theory Client_Frames
  imports Client_Requests
begin

text \<open>
  Frames of the producer in \<open>client.rs\<close>: \<open>send_frame_report_inner\<close> sends one frame and
  waits for its result, with one retry as a keyframe; \<open>queue_delta_frame_report\<close> keeps up to
  two deltas in flight and goes back to a keyframe after a rejection.
\<close>

section \<open>Building frames\<close>

definition max_delta_regions :: nat where "max_delta_regions = 64"

definition validate_frame_pixels ::
  "client_surface \<Rightarrow> bytes \<Rightarrow> bytes option \<Rightarrow> (producer_error, unit) result" where
  "validate_frame_pixels surface pixels previous =
     (case checked_mul_usize (cs_width surface) (cs_height surface) of
        None \<Rightarrow> Inl (ProducerFrameTooLarge u64_max (cs_max_frame_bytes surface))
      | Some expected \<Rightarrow>
          if length pixels \<noteq> expected then Inl (BadPixelLength (length pixels) expected)
          else if length pixels > cs_max_frame_bytes surface
          then Inl (ProducerFrameTooLarge (length pixels) (cs_max_frame_bytes surface))
          else case previous of
            None \<Rightarrow> Inr ()
          | Some previous \<Rightarrow>
              if length previous \<noteq> expected then Inl (BadPixelLength (length previous) expected)
              else Inr ())"

definition full_region :: "client_env \<Rightarrow> client_surface \<Rightarrow> bytes \<Rightarrow> producer_client \<Rightarrow> frame_region" where
  "full_region env surface pixels c =
     encode_region (ce_decoders env) (ce_compress env)
       (mk_rect 0 0 (cs_width surface) (cs_height surface)) pixels (cl_zstd c)"

definition delta_regions_of ::
  "client_env \<Rightarrow> client_surface \<Rightarrow> bytes \<Rightarrow> bytes \<Rightarrow> nat \<Rightarrow> producer_client \<Rightarrow> frame_region list" where
  "delta_regions_of env surface previous pixels tile c =
     encode_delta_regions (ce_decoders env) (ce_compress env) previous pixels (cs_width surface)
       (cs_height surface) tile (min (cs_max_regions surface) max_delta_regions) (cl_zstd c)"

definition regions_for ::
  "client_env \<Rightarrow> client_surface \<Rightarrow> bytes \<Rightarrow> (bytes \<times> nat) option \<Rightarrow> bool \<Rightarrow> producer_client \<Rightarrow>
   frame_region list" where
  "regions_for env surface pixels delta force_keyframe c =
     (if force_keyframe then [full_region env surface pixels c]
      else case delta of
        Some (previous, tile) \<Rightarrow> delta_regions_of env surface previous pixels tile c
      | None \<Rightarrow> [full_region env surface pixels c])"

definition decoded_bytes_of :: "frame_region list \<Rightarrow> nat" where
  "decoded_bytes_of regions = sum_list (map decoded_len regions)"

definition client_frame ::
  "client_surface \<Rightarrow> nat \<Rightarrow> nat \<Rightarrow> frame_intent \<Rightarrow> content_class \<Rightarrow> frame_region list \<Rightarrow> frame" where
  "client_frame surface frame_id base_frame_id intent content_class regions =
     \<lparr>frame_surface_id = cs_id surface, frame_generation = unat (cs_generation surface),
      frame_frame_id = frame_id, frame_base_id = base_frame_id,
      frame_intent_field = frame_intent_i32 intent, frame_content_class = content_class_i32 content_class,
      frame_regions = regions, source_timestamp_us = 0\<rparr>"

section \<open>Settling\<close>

function settle_pending_frames :: "client_env \<Rightarrow> producer_client \<Rightarrow> unit client_step" where
  "settle_pending_frames env c =
     (if cl_pending c = [] then (Inr (), c)
      else case receive_pending_frame_report env c of
        (Inl error, c1) \<Rightarrow> (Inl error, c1)
      | (Inr report, c1) \<Rightarrow>
          settle_pending_frames env (c1\<lparr>cl_completed := cl_completed c1 @ [report]\<rparr>))"
  by pat_completeness auto

termination
  by (relation "measure (\<lambda>(env, c). length (cl_input c))")
    (auto intro: receive_pending_consumes [OF sym])

declare settle_pending_frames.simps [simp del]

definition flush_frame_reports :: "client_env \<Rightarrow> producer_client \<Rightarrow> frame_report list client_step" where
  "flush_frame_reports env c =
     try_then (settle_pending_frames env c) (\<lambda>_ c1. (Inr (cl_completed c1), c1\<lparr>cl_completed := []\<rparr>))"

section \<open>Sending one frame\<close>

text \<open>
  \<open>transmit\<close>: the credits are taken before the frame is written, the frame is pending once it
  is. \<open>producer\<close> carries the metrics of earlier attempts.
\<close>

definition sent_metrics :: "send_measurement \<Rightarrow> producer_metrics \<Rightarrow> producer_metrics" where
  "sent_metrics sent m =
     m\<lparr>pm_wire_encode_us := sat_add_u64 (pm_wire_encode_us m) (sm_wire_encode_us sent),
       pm_write_us := sat_add_u64 (pm_write_us m) (sm_write_us sent),
       pm_wire_bytes := sat_add_u64 (pm_wire_bytes m) (sm_wire_bytes sent)\<rparr>"

definition claim_credits :: "nat \<Rightarrow> producer_client \<Rightarrow> producer_client" where
  "claim_credits decoded_bytes c =
     c\<lparr>cl_credits := cl_credits c - 1, cl_byte_credits := cl_byte_credits c - decoded_bytes\<rparr>"

definition note_sent :: "nat \<Rightarrow> nat \<Rightarrow> producer_metrics \<Rightarrow> producer_client \<Rightarrow> producer_client" where
  "note_sent frame_id started producer c =
     c\<lparr>cl_logical := frame_id,
       cl_pending := cl_pending c @ [\<lparr>pf_frame_id = frame_id, pf_started = started, pf_producer = producer\<rparr>]\<rparr>"

definition transmit_frame ::
  "client_env \<Rightarrow> client_surface \<Rightarrow> nat \<Rightarrow> frame_region list \<Rightarrow> frame_intent \<Rightarrow> content_class \<Rightarrow> bool \<Rightarrow>
   nat \<Rightarrow> producer_metrics \<Rightarrow> producer_client \<Rightarrow> (nat \<times> frame_report) client_step" where
  "transmit_frame env surface frame_id regions intent content_class force_keyframe build_started producer c =
     (let base_frame_id = (if force_keyframe then 0 else cl_logical c);
          (build_us, c1) = elapsed_us env build_started c;
          producer1 = producer\<lparr>pm_build_us := sat_add_u64 (pm_build_us producer) build_us,
            pm_attempts := sat_add_u32 (pm_attempts producer) 1\<rparr>
      in try_then
        (send_measured env (FrameBody (client_frame surface frame_id base_frame_id intent content_class regions))
          (claim_credits (decoded_bytes_of regions) c1))
        (\<lambda>sent c2.
          let producer2 = sent_metrics sent producer1;
              c3 = (if force_keyframe then c2\<lparr>cl_needs_keyframe := False\<rparr> else c2);
              (wait_started, c4) = instant_now env c3
          in try_then (wait_for_frame_report env frame_id (note_sent frame_id wait_started producer2 c4))
               (\<lambda>report c5. (Inr (frame_id, report), c5))))"

text \<open>
  The loop of \<open>send_frame_report_inner\<close>: a result NEED_KEYFRAME to a delta is retried once. The
  \<open>usize\<close> conversions and the sum of \<open>decoded_len\<close> stay within 64 bits.
\<close>

function send_attempts ::
  "client_env \<Rightarrow> client_surface \<Rightarrow> bytes \<Rightarrow> (bytes \<times> nat) option \<Rightarrow> frame_intent \<Rightarrow> content_class \<Rightarrow> nat \<Rightarrow>
   bool \<Rightarrow> producer_metrics \<Rightarrow> producer_client \<Rightarrow> frame_report client_step" where
  "send_attempts env surface pixels delta intent content_class total_started force_keyframe producer c0 =
     (let (build_started, c) = instant_now env c0;
          regions = regions_for env surface pixels delta force_keyframe c
      in if cl_credits c = 0 then (Inl NoCredit, c)
      else if decoded_bytes_of regions > cl_byte_credits c then (Inl NoCredit, c)
      else
        let frame_id = cl_next_frame c in
        case checked_add_u64 frame_id 1 of
          None \<Rightarrow> (Inl (FrameRejected frame_id (frame_result_code_i32 CodeRejected) 0), c)
        | Some next \<Rightarrow>
            (case transmit_frame env surface frame_id regions intent content_class force_keyframe build_started
                producer (c\<lparr>cl_next_frame := next\<rparr>) of
               (Inl error, c1) \<Rightarrow> (Inl error, c1)
             | (Inr (frame_id, report), c1) \<Rightarrow>
                 let result = rep_result report in
                 if fr_reason result = frame_result_reason_i32 WhyInkFrozen then (Inr report, c1)
                 else if result_code result \<in> {Some CodePresented, Some CodeSuperseded} then
                   let (total_us, c2) = elapsed_us env total_started c1
                   in (Inr (report\<lparr>rep_producer := (rep_producer report)\<lparr>pm_total_us := total_us\<rparr>\<rparr>), c2)
                 else if result_code result = Some CodeNeedKeyframe \<and> \<not> force_keyframe
                 then send_attempts env surface pixels delta intent content_class total_started True
                   (rep_producer report) c1
                 else (Inl (FrameRejected frame_id (fr_result result) (fr_reason result)), c1)))"
  by pat_completeness auto

termination
  by (relation "measure (\<lambda>(env, surface, pixels, delta, intent, class, started, force, producer, c).
      if force then 0 else 1)") auto

declare send_attempts.simps [simp del]

definition send_frame_report_inner ::
  "client_env \<Rightarrow> client_surface \<Rightarrow> bytes \<Rightarrow> (bytes \<times> nat) option \<Rightarrow> frame_intent \<Rightarrow> content_class \<Rightarrow>
   producer_client \<Rightarrow> frame_report client_step" where
  "send_frame_report_inner env surface pixels delta intent content_class c =
     try_then (settle_pending_frames env c) (\<lambda>_ c1.
       let (total_started, c2) = instant_now env c1 in
       case validate_frame_pixels surface pixels (map_option fst delta) of
         Inl error \<Rightarrow> (Inl error, c2)
       | Inr _ \<Rightarrow>
           send_attempts env surface pixels delta intent content_class total_started
             (cl_needs_keyframe c2 \<or> cl_receiver_logical c2 = 0) no_metrics c2)"

definition send_frame_report ::
  "client_env \<Rightarrow> client_surface \<Rightarrow> bytes \<Rightarrow> frame_intent \<Rightarrow> content_class \<Rightarrow> producer_client \<Rightarrow>
   frame_report client_step" where
  "send_frame_report env surface pixels = send_frame_report_inner env surface pixels None"

definition send_frame ::
  "client_env \<Rightarrow> client_surface \<Rightarrow> bytes \<Rightarrow> frame_intent \<Rightarrow> content_class \<Rightarrow> producer_client \<Rightarrow>
   frame_result client_step" where
  "send_frame env surface pixels intent content_class c =
     try_then (send_frame_report env surface pixels intent content_class c) (\<lambda>report c'. (Inr (rep_result report), c'))"

definition send_delta_frame_report ::
  "client_env \<Rightarrow> client_surface \<Rightarrow> bytes \<Rightarrow> bytes \<Rightarrow> nat \<Rightarrow> frame_intent \<Rightarrow> content_class \<Rightarrow>
   producer_client \<Rightarrow> frame_report client_step" where
  "send_delta_frame_report env surface previous pixels tile =
     send_frame_report_inner env surface pixels (Some (previous, tile))"

definition send_delta_frame ::
  "client_env \<Rightarrow> client_surface \<Rightarrow> bytes \<Rightarrow> bytes \<Rightarrow> nat \<Rightarrow> frame_intent \<Rightarrow> content_class \<Rightarrow>
   producer_client \<Rightarrow> frame_result client_step" where
  "send_delta_frame env surface previous pixels tile intent content_class c =
     try_then (send_delta_frame_report env surface previous pixels tile intent content_class c)
       (\<lambda>report c'. (Inr (rep_result report), c'))"

section \<open>Queueing deltas\<close>

text \<open>
  The loop that waits until a delta of \<open>decoded_bytes\<close> may be sent: \<open>True\<close> when it may,
  \<open>False\<close> when a rejection asks for a keyframe instead.
\<close>

function await_credit :: "client_env \<Rightarrow> nat \<Rightarrow> producer_client \<Rightarrow> bool client_step" where
  "await_credit env decoded_bytes c =
     (if length (cl_pending c) \<ge> 2 \<or> cl_credits c = 0 \<or> decoded_bytes > cl_byte_credits c then
        if cl_pending c = [] then (Inl NoCredit, c)
        else case receive_pending_frame_report env c of
          (Inl error, c1) \<Rightarrow> (Inl error, c1)
        | (Inr report, c1) \<Rightarrow>
            let c2 = c1\<lparr>cl_completed := cl_completed c1 @ [report]\<rparr> in
            if cl_needs_keyframe c1 then (Inr False, c2)
            else await_credit env decoded_bytes c2
      else (Inr True, c))"
  by pat_completeness auto

termination
  by (relation "measure (\<lambda>(env, n, c). length (cl_input c))")
    (auto intro: receive_pending_consumes [OF sym])

declare await_credit.simps [simp del]

definition pop_completed :: "producer_client \<Rightarrow> frame_report option \<times> producer_client" where
  "pop_completed c =
     (case cl_completed c of [] \<Rightarrow> (None, c) | report # rest \<Rightarrow> (Some report, c\<lparr>cl_completed := rest\<rparr>))"

definition queue_as_keyframe ::
  "client_env \<Rightarrow> client_surface \<Rightarrow> bytes \<Rightarrow> content_class \<Rightarrow> producer_client \<Rightarrow>
   frame_report option client_step" where
  "queue_as_keyframe env surface pixels content_class c =
     try_then (settle_pending_frames env c) (\<lambda>_ c1.
       try_then (send_frame_report env surface pixels Latest content_class c1) (\<lambda>report c2. (Inr (Some report), c2)))"

definition queue_frame ::
  "client_env \<Rightarrow> client_surface \<Rightarrow> content_class \<Rightarrow> frame_region list \<Rightarrow> nat \<Rightarrow> producer_client \<Rightarrow>
   frame_report option client_step" where
  "queue_frame env surface content_class regions build_started c =
     (let frame_id = cl_next_frame c in
      case checked_add_u64 frame_id 1 of
        None \<Rightarrow> (Inl MessageOrder, c)
      | Some next \<Rightarrow>
          let (build_us, c1) = elapsed_us env build_started (c\<lparr>cl_next_frame := next\<rparr>);
              producer = no_metrics\<lparr>pm_attempts := 1, pm_build_us := build_us\<rparr>
          in try_then
            (send_measured env (FrameBody (client_frame surface frame_id (cl_logical c) Latest content_class regions))
              (claim_credits (decoded_bytes_of regions) c1))
            (\<lambda>sent c2.
              let producer1 = producer\<lparr>pm_wire_encode_us := sm_wire_encode_us sent,
                    pm_write_us := sm_write_us sent, pm_wire_bytes := sm_wire_bytes sent\<rparr>;
                  (started, c3) = instant_now env c2;
                  (report, c4) = pop_completed (note_sent frame_id started producer1 c3)
              in (Inr report, c4)))"

definition queue_delta_frame_report ::
  "client_env \<Rightarrow> client_surface \<Rightarrow> bytes \<Rightarrow> bytes \<Rightarrow> nat \<Rightarrow> content_class \<Rightarrow> producer_client \<Rightarrow>
   frame_report option client_step" where
  "queue_delta_frame_report env surface previous pixels tile content_class c =
     (if cl_needs_keyframe c \<or> cl_logical c = 0 then queue_as_keyframe env surface pixels content_class c
      else case validate_frame_pixels surface pixels (Some previous) of
        Inl error \<Rightarrow> (Inl error, c)
      | Inr _ \<Rightarrow>
          let (build_started, c1) = instant_now env c;
              regions = delta_regions_of env surface previous pixels tile c1
          in try_then (await_credit env (decoded_bytes_of regions) c1) (\<lambda>may_send c2.
               if may_send then queue_frame env surface content_class regions build_started c2
               else queue_as_keyframe env surface pixels content_class c2))"

definition wait_for_frame_credit_report :: "client_env \<Rightarrow> producer_client \<Rightarrow> frame_report option client_step" where
  "wait_for_frame_credit_report env c =
     (case pop_completed c of
        (Some report, c1) \<Rightarrow> (Inr (Some report), c1)
      | (None, c1) \<Rightarrow>
          if cl_credits c1 > 0 \<and> cl_byte_credits c1 > 0 \<and> length (cl_pending c1) < 2 \<or> cl_pending c1 = []
          then (Inr None, c1)
          else try_then (receive_pending_frame_report env c1) (\<lambda>report c2. (Inr (Some report), c2)))"

end
