(* ===== verification/Client_Flow.thy ===== *)
theory Client_Flow
  imports Client_Frames "HOL-Library.Multiset"
begin

text \<open>
  Flow control of the producer. \<open>flow_of\<close> is what flow control consists of: the next frame
  number, the frames in flight, the reports not yet fetched and the credits. Most operations leave
  it alone; a frame result moves one frame from flight to report; sending claims credits.
\<close>

definition pending_ids :: "producer_client \<Rightarrow> nat list" where
  "pending_ids c = map pf_frame_id (cl_pending c)"

definition report_id :: "frame_report \<Rightarrow> nat" where
  "report_id r = fr_frame_id (rep_result r)"

definition completed_ids :: "producer_client \<Rightarrow> nat list" where
  "completed_ids c = map report_id (cl_completed c)"

definition flow_of ::
  "producer_client \<Rightarrow> nat \<times> nat list \<times> nat list \<times> nat \<times> nat \<times> nat \<times> nat" where
  "flow_of c = (cl_next_frame c, pending_ids c, completed_ids c, cl_credits c, cl_byte_credits c,
     cl_credit_limit c, cl_byte_credit_limit c)"

lemma flow_of_eq: "flow_of c' = flow_of c \<longleftrightarrow>
    cl_next_frame c' = cl_next_frame c \<and> pending_ids c' = pending_ids c \<and> completed_ids c' = completed_ids c \<and>
    cl_credits c' = cl_credits c \<and> cl_byte_credits c' = cl_byte_credits c \<and>
    cl_credit_limit c' = cl_credit_limit c \<and> cl_byte_credit_limit c' = cl_byte_credit_limit c"
  by (auto simp: flow_of_def)

text \<open>The frames the producer still has to account for: in flight or reported but not fetched.\<close>

definition owed :: "producer_client \<Rightarrow> nat multiset" where
  "owed c = mset (pending_ids c) + mset (completed_ids c)"

definition flow_ok :: "producer_client \<Rightarrow> bool" where
  "flow_ok c \<longleftrightarrow> sorted_wrt (<) (pending_ids c) \<and> list_all (\<lambda>i. 0 < i \<and> i < cl_next_frame c) (pending_ids c) \<and>
     list_all (\<lambda>i. i < cl_next_frame c) (completed_ids c) \<and> 0 < cl_next_frame c \<and> length (pending_ids c) \<le> 2 \<and>
     cl_credits c \<le> cl_credit_limit c \<and> cl_byte_credits c \<le> cl_byte_credit_limit c"

lemma flow_ok_cong: "flow_of c' = flow_of c \<Longrightarrow> flow_ok c' = flow_ok c"
  by (simp add: flow_of_eq flow_ok_def)

lemma owed_cong: "flow_of c' = flow_of c \<Longrightarrow> owed c' = owed c"
  by (simp add: flow_of_eq owed_def)

section \<open>Quiet operations\<close>

named_theorems quiet

lemma instant_now_flow [quiet]: "flow_of (snd (instant_now env c)) = flow_of c"
  by (simp add: instant_now_def flow_of_def pending_ids_def completed_ids_def)

lemma elapsed_us_flow [quiet]: "flow_of (snd (elapsed_us env t c)) = flow_of c"
  by (simp add: elapsed_us_def instant_now_def flow_of_def pending_ids_def completed_ids_def)

lemma send_measured_flow [quiet]: "flow_of (snd (send_measured env b c)) = flow_of c"
  by (simp add: send_measured_def instant_now_def elapsed_us_def Let_def flow_of_def pending_ids_def completed_ids_def
      split: option.split sum.split prod.split)

lemma try_then_flow:
  assumes "flow_of (snd m) = f" and "\<And>x c. m = (Inr x, c) \<Longrightarrow> flow_of c = f \<Longrightarrow> flow_of (snd (g x c)) = f"
  shows "flow_of (snd (try_then m g)) = f"
  using assms by (cases m) (auto simp: try_then_def split: sum.split)

lemma client_send_flow [quiet]: "flow_of (snd (client_send env b c)) = flow_of c"
  by (simp add: client_send_def try_then_flow quiet)

lemma emit_event_flow [quiet]: "flow_of (snd (emit_event env b c)) = flow_of c"
  by (simp add: emit_event_def flow_of_def pending_ids_def completed_ids_def split: option.split sum.split prod.split)

lemma receive_flow [quiet]: "flow_of (snd (receive env c)) = flow_of c"
  by (simp add: receive_def Let_def flow_of_def pending_ids_def completed_ids_def
      split: sum.split option.split prod.split)

lemma quiet_aux: "\<not> (\<exists>r. b = FrameResult r) \<Longrightarrow> flow_of (snd (handle_auxiliary env b c)) = flow_of c"
  by (cases b) (auto simp: handle_auxiliary_def Let_def quiet intro!: try_then_flow)

section \<open>Frame results\<close>

lemma take_pending_Some:
  "take_pending i ps = Some (p, qs) \<Longrightarrow> \<exists>as bs. ps = as @ p # bs \<and> qs = as @ bs \<and> pf_frame_id p = i"
proof (induction ps arbitrary: qs)
  case Nil
  then show ?case by simp
next
  case (Cons a ps)
  show ?case
  proof (cases "pf_frame_id a = i")
    case True
    then show ?thesis using Cons.prems by (auto intro: exI [of _ "[]"])
  next
    case False
    then obtain rs where rs: "take_pending i ps = Some (p, rs)" "qs = a # rs" using Cons.prems by auto
    then obtain as bs where "ps = as @ p # bs" "rs = as @ bs" "pf_frame_id p = i" using Cons.IH by blast
    then show ?thesis using rs(2) by (intro exI [of _ "a # as"] exI [of _ bs]) simp
  qed
qed

lemma take_pending_None: "take_pending i ps = None \<longleftrightarrow> i \<notin> pf_frame_id ` set ps"
  by (induction ps) auto

text \<open>What a successful result does: one frame leaves, the credits stay within their limits.\<close>

lemma apply_frame_result_Inr:
  assumes "apply_frame_result env r c = (Inr report, c')"
  shows "report_id report = fr_frame_id r" and "completed_ids c' = completed_ids c"
    and "cl_next_frame c' = cl_next_frame c"
    and "\<exists>as bs. pending_ids c = as @ fr_frame_id r # bs \<and> pending_ids c' = as @ bs"
    and "cl_credits c' = fr_credits r" "fr_credits r \<le> cl_credit_limit c"
    and "cl_credit_limit c' = cl_credit_limit c" "cl_byte_credit_limit c' = cl_byte_credit_limit c"
    and "cl_byte_credits c \<le> cl_byte_credit_limit c \<Longrightarrow> cl_byte_credits c' \<le> cl_byte_credit_limit c"
proof -
  obtain p rest where t: "take_pending (fr_frame_id r) (cl_pending c) = Some (p, rest)"
    and guard: "fr_credits r \<le> cl_credit_limit c"
      "cl_selected_minor c \<ge> 1 \<longrightarrow> fr_byte_credits r \<le> cl_byte_credit_limit c"
    using assms by (auto simp: apply_frame_result_def split: if_splits option.splits)
  then have r: "report_id report = fr_frame_id r"
    "c' = snd (apply_frame_result env r c)" "cl_pending c' = rest"
    using assms by (auto simp: apply_frame_result_def Let_def report_id_def elapsed_us_def instant_now_def)
  obtain as bs where "cl_pending c = as @ p # bs" "rest = as @ bs" "pf_frame_id p = fr_frame_id r"
    using take_pending_Some [OF t] by blast
  then show "\<exists>as bs. pending_ids c = as @ fr_frame_id r # bs \<and> pending_ids c' = as @ bs"
    using r(3) by (intro exI [of _ "map pf_frame_id as"] exI [of _ "map pf_frame_id bs"]) (simp add: pending_ids_def)
  show "report_id report = fr_frame_id r" by (rule r(1))
  show "fr_credits r \<le> cl_credit_limit c" by (rule guard(1))
  show "completed_ids c' = completed_ids c" "cl_next_frame c' = cl_next_frame c" "cl_credits c' = fr_credits r"
    "cl_credit_limit c' = cl_credit_limit c" "cl_byte_credit_limit c' = cl_byte_credit_limit c"
    "cl_byte_credits c \<le> cl_byte_credit_limit c \<Longrightarrow> cl_byte_credits c' \<le> cl_byte_credit_limit c"
    unfolding r(2) using t guard
    by (auto simp: apply_frame_result_def Let_def elapsed_us_def instant_now_def completed_ids_def)
qed

lemma apply_frame_result_Inl: "apply_frame_result env r c = (Inl e, c') \<Longrightarrow> c' = c"
  by (auto simp: apply_frame_result_def Let_def elapsed_us_def instant_now_def split: if_splits option.splits)

lemma apply_frame_result_ok:
  assumes "apply_frame_result env r c = (Inr report, c')" and "flow_ok c"
  shows "flow_ok c'" and "report_id report < cl_next_frame c'"
proof -
  note facts = apply_frame_result_Inr [OF assms(1)]
  obtain as bs where p: "pending_ids c = as @ fr_frame_id r # bs" "pending_ids c' = as @ bs"
    using facts(4) by blast
  show "flow_ok c'"
    using assms(2) facts p by (auto simp: flow_ok_def sorted_wrt_append)
  show "report_id report < cl_next_frame c'"
    using assms(2) facts p by (auto simp: flow_ok_def)
qed

lemma apply_frame_result_owed:
  assumes "apply_frame_result env r c = (Inr report, c')"
  shows "owed c = add_mset (report_id report) (owed c')"
  using apply_frame_result_Inr(1,2,4) [OF assms] by (auto simp: owed_def)

text \<open>Keeping a report.\<close>

lemma keep_report:
  "flow_ok c \<Longrightarrow> report_id r < cl_next_frame c \<Longrightarrow> flow_ok (c\<lparr>cl_completed := cl_completed c @ [r]\<rparr>)"
  "owed (c\<lparr>cl_completed := cl_completed c @ [r]\<rparr>) = add_mset (report_id r) (owed c)"
  by (simp_all add: flow_ok_def pending_ids_def completed_ids_def owed_def)

section \<open>Calls keep the flow\<close>

text \<open>What holds before a call and of each thing a loop does holds after it, also when it fails.\<close>

lemma await_reply_keeps:
  assumes "I c" and "\<And>c. I c \<Longrightarrow> I (snd (receive env c))" and "\<And>b c. I c \<Longrightarrow> I (snd (handle_auxiliary env b c))"
    and "\<And>b c m. I c \<Longrightarrow> arms b c = Some m \<Longrightarrow> I (snd m)"
  shows "I (snd (await_reply env arms c))"
  using assms(1)
proof (induction "length (cl_input c)" arbitrary: c rule: less_induct)
  case less
  obtain res c1 where r: "receive env c = (res, c1)" by (cases "receive env c")
  have c1: "I c1" using assms(2) [OF less.prems] r by simp
  show ?case
  proof (cases res)
    case Inl
    then show ?thesis using r c1 by (subst await_reply.simps) simp
  next
    case (Inr e)
    note r = r [unfolded Inr]
    show ?thesis
    proof (cases "env_body e")
      case None
      then show ?thesis using r c1 by (subst await_reply.simps) simp
    next
      case (Some b)
      obtain x c2 where h: "handle_auxiliary env b c1 = (x, c2)" by (cases "handle_auxiliary env b c1")
      have c2: "I c2" using assms(3) [OF c1, of b] h by simp
      have shorter: "length (cl_input c2) < length (cl_input c)"
        using receive_consumes [OF r] handle_auxiliary_input [of env b c1] h by simp
      have eq: "await_reply env arms c = (case arms b c1 of Some m \<Rightarrow> m
          | None \<Rightarrow> (case x of Inl error \<Rightarrow> (Inl error, c2) | Inr _ \<Rightarrow> await_reply env arms c2))"
        unfolding await_reply.simps [of env arms c] r by (simp add: h Some split: option.split)
      show ?thesis
      proof (cases "arms b c1")
        case None
        then show ?thesis using eq less.hyps [OF shorter c2] c2 by (cases x) simp_all
      next
        case (Some m)
        then show ?thesis using eq assms(4) [OF c1 Some] by simp
      qed
    qed
  qed
qed

lemma flow_ok_quiet: "flow_ok c \<Longrightarrow> flow_of (snd m) = flow_of c \<Longrightarrow> flow_ok (snd m)"
  using flow_ok_cong [of "snd m" c] by blast

lemma apply_frame_result_flow_ok: "flow_ok c \<Longrightarrow> flow_ok (snd (apply_frame_result env r c))"
  using apply_frame_result_Inl [of env r c] apply_frame_result_ok(1) [of env r c]
  by (cases "apply_frame_result env r c"; cases "fst (apply_frame_result env r c)") auto

lemma apply_frame_result_flow_ok': "apply_frame_result env r c = (res, c') \<Longrightarrow> flow_ok c \<Longrightarrow> flow_ok c'"
  using apply_frame_result_flow_ok [of c env r] by simp

lemma receive_flow_ok: "flow_ok c \<Longrightarrow> flow_ok (snd (receive env c))"
  by (rule flow_ok_quiet) (simp_all add: quiet)

lemma handle_auxiliary_flow_ok:
  assumes "flow_ok c"
  shows "flow_ok (snd (handle_auxiliary env b c))"
proof (cases "\<exists>r. b = FrameResult r")
  case True
  then obtain r where b: "b = FrameResult r" by blast
  show ?thesis
  proof (cases "apply_frame_result env r c")
    case (Pair res c1)
    then show ?thesis using assms apply_frame_result_Inl [of env r c _ c1] apply_frame_result_ok [of env r c _ c1]
      by (cases res) (auto simp: b handle_auxiliary_def try_then_def keep_report)
  qed
next
  case False
  then show ?thesis by (rule flow_ok_quiet [OF assms quiet_aux])
qed

lemma await_reply_flow_ok:
  assumes "flow_ok c" and "\<And>b c m. flow_ok c \<Longrightarrow> arms b c = Some m \<Longrightarrow> flow_ok (snd m)"
  shows "flow_ok (snd (await_reply env arms c))"
  by (rule await_reply_keeps [OF assms(1) receive_flow_ok handle_auxiliary_flow_ok assms(2)])

section \<open>Waiting for results\<close>

lemma receive_pending_report:
  assumes "receive_pending_frame_report env c = (Inr report, c')" and "flow_ok c"
  shows "flow_ok c'" and "report_id report < cl_next_frame c'" and "owed c = add_mset (report_id report) (owed c')"
    and "cl_next_frame c' = cl_next_frame c"
proof -
  have "flow_ok c' \<and> report_id report < cl_next_frame c' \<and> owed c = add_mset (report_id report) (owed c') \<and>
    cl_next_frame c' = cl_next_frame c"
  proof (rule await_reply_rule [OF assms(1) [unfolded receive_pending_frame_report_def],
      where I = "\<lambda>d. flow_ok d \<and> owed d = owed c \<and> cl_next_frame d = cl_next_frame c"])
    show "flow_ok c \<and> owed c = owed c \<and> cl_next_frame c = cl_next_frame c" using assms(2) by simp
  next
    fix d e c1 b c2
    assume d: "flow_ok d \<and> owed d = owed c \<and> cl_next_frame d = cl_next_frame c" and r: "receive env d = (Inr e, c1)"
    have flow: "flow_of c1 = flow_of d" using receive_flow [of env d] r by simp
    then have c1: "flow_ok c1" "owed c1 = owed c" "cl_next_frame c1 = cl_next_frame c"
      using d flow_ok_cong [OF flow] owed_cong [OF flow] by (simp_all add: flow_of_eq)
    show "flow_ok c2 \<and> owed c2 = owed c \<and> cl_next_frame c2 = cl_next_frame c"
      if arms: "(case b of FrameResult r \<Rightarrow> Some (apply_frame_result env r c1)
        | _ \<Rightarrow> map_option (\<lambda>m. (Inl (Remote m), c1)) (fatal_error b)) = None"
        and h: "handle_auxiliary env b c1 = (Inr (), c2)"
    proof -
      have "\<not> (\<exists>r. b = FrameResult r)" using arms by auto
      then have flow: "flow_of c2 = flow_of c1" using quiet_aux [of b env c1] h by simp
      then show ?thesis using c1 flow_ok_cong [OF flow] owed_cong [OF flow] by (simp add: flow_of_eq)
    qed
    show "flow_ok c' \<and> report_id report < cl_next_frame c' \<and> owed c = add_mset (report_id report) (owed c') \<and>
        cl_next_frame c' = cl_next_frame c"
      if arms: "(case b of FrameResult r \<Rightarrow> Some (apply_frame_result env r c1)
        | _ \<Rightarrow> map_option (\<lambda>m. (Inl (Remote m), c1)) (fatal_error b)) = Some (Inr report, c')"
    proof -
      obtain r where "apply_frame_result env r c1 = (Inr report, c')"
        using arms by (cases b) auto
      then show ?thesis using apply_frame_result_ok [of env r c1] apply_frame_result_owed [of env r c1]
        apply_frame_result_Inr(3) [of env r c1] c1 by simp
    qed
  qed
  then show "flow_ok c'" "report_id report < cl_next_frame c'" "owed c = add_mset (report_id report) (owed c')"
    "cl_next_frame c' = cl_next_frame c" by auto
qed

lemma receive_pending_flow_ok:
  assumes "flow_ok c"
  shows "flow_ok (snd (receive_pending_frame_report env c))"
  unfolding receive_pending_frame_report_def
  by (rule await_reply_flow_ok [OF assms])
    (auto split: body.splits dest: apply_frame_result_flow_ok')

text \<open>The three things a loop does with a report it has not been asked for: keep it.\<close>

lemma receive_and_keep:
  assumes "receive_pending_frame_report env c = (Inr report, c1)" and "flow_ok c"
  shows "flow_ok (c1\<lparr>cl_completed := cl_completed c1 @ [report]\<rparr>)"
    and "owed (c1\<lparr>cl_completed := cl_completed c1 @ [report]\<rparr>) = owed c"
    and "cl_next_frame (c1\<lparr>cl_completed := cl_completed c1 @ [report]\<rparr>) = cl_next_frame c"
  using receive_pending_report [OF assms] by (simp_all add: keep_report)

lemma settle_flow_ok: "flow_ok c \<Longrightarrow> flow_ok (snd (settle_pending_frames env c))"
proof (induction env c rule: settle_pending_frames.induct)
  case (1 env c)
  obtain res c1 where r: "receive_pending_frame_report env c = (res, c1)"
    by (cases "receive_pending_frame_report env c")
  have "flow_ok c1" using receive_pending_flow_ok [OF 1(2), of env] r by simp
  then show ?case using 1 r receive_and_keep(1) [of env c _ c1]
    by (subst settle_pending_frames.simps) (auto split: sum.split)
qed

lemma settle_owed:
  "settle_pending_frames env c = (Inr (), c') \<Longrightarrow> flow_ok c \<Longrightarrow>
   cl_pending c' = [] \<and> owed c' = owed c \<and> cl_next_frame c' = cl_next_frame c"
proof (induction env c rule: settle_pending_frames.induct)
  case (1 env c)
  show ?case
  proof (cases "cl_pending c = []")
    case True
    then show ?thesis using 1(2) by (subst (asm) settle_pending_frames.simps) simp
  next
    case False
    then obtain report c1 where r: "receive_pending_frame_report env c = (Inr report, c1)"
      and "settle_pending_frames env (c1\<lparr>cl_completed := cl_completed c1 @ [report]\<rparr>) = (Inr (), c')"
      using 1(2) by (subst (asm) settle_pending_frames.simps) (auto split: prod.splits sum.splits)
    then show ?thesis using 1(1) [OF False] receive_and_keep [OF r 1(3)] by simp
  qed
qed

end
