(* ===== verification/Client_Accounts.thy ===== *)
theory Client_Accounts
  imports Client_Flow
begin

text \<open>
  What the producer owes its caller. Every frame it sends is in flight until its result arrives and
  then a report until the caller fetches it; \<open>queue_delta_frame_report\<close>, \<open>send_frame_report\<close>
  and \<open>flush_frame_reports\<close> neither lose nor invent one, and the state stays well formed
  whatever the peer answers.
\<close>

section \<open>Waiting for the result of one frame\<close>

lemma flow_ok_of: "flow_of c' = flow_of c \<Longrightarrow> flow_ok c \<Longrightarrow> flow_ok c'"
  using flow_ok_cong [of c' c] by blast

lemma try_then_Inr: "(Inr y, c') = try_then m f \<Longrightarrow> \<exists>x c. m = (Inr x, c) \<and> f x c = (Inr y, c')"
  by (cases m) (auto simp: try_then_def split: sum.splits)

lemma take_report_None: "i \<notin> report_id ` set rs \<Longrightarrow> take_report i rs = None"
  by (induction rs) (auto simp: report_id_def)

definition in_flight :: "nat \<Rightarrow> producer_client \<Rightarrow> producer_client \<Rightarrow> bool" where
  "in_flight i c d \<longleftrightarrow> flow_ok d \<and> pending_ids d = [i] \<and> completed_ids d = completed_ids c \<and>
     cl_next_frame d = cl_next_frame c"

lemma in_flight_quiet: "in_flight i c d \<Longrightarrow> flow_of d' = flow_of d \<Longrightarrow> in_flight i c d'"
  using flow_ok_cong [of d' d] by (simp add: in_flight_def flow_of_eq)

lemma in_flight_other:
  assumes "in_flight i c d" and "apply_frame_result env r d = (Inr report, d')"
  shows "fr_frame_id r = i"
  using assms apply_frame_result_Inr(4) [OF assms(2)] by (auto simp: in_flight_def Cons_eq_append_conv)

lemma in_flight_landed:
  assumes "in_flight i c d" and "apply_frame_result env r d = (Inr report, d')"
  shows "flow_ok d'" "report_id report = i" "pending_ids d' = []" "completed_ids d' = completed_ids c"
    "cl_next_frame d' = cl_next_frame c"
  using assms apply_frame_result_Inr [OF assms(2)] apply_frame_result_ok(1) [OF assms(2)] in_flight_other [OF assms]
  by (auto simp: in_flight_def Cons_eq_append_conv)

lemma wait_for_frame_landed:
  assumes "wait_for_frame_report env i c = (Inr report, c')" and c: "flow_ok c" "pending_ids c = [i]"
    and new: "i \<notin> set (completed_ids c)"
  shows "flow_ok c' \<and> report_id report = i \<and> pending_ids c' = [] \<and> completed_ids c' = completed_ids c \<and>
    cl_next_frame c' = cl_next_frame c"
proof -
  let ?arms = "\<lambda>b c. case b of
      FrameResult r \<Rightarrow> if fr_frame_id r = i then Some (apply_frame_result env r c) else None
    | _ \<Rightarrow> map_option (\<lambda>m. (Inl (Remote m), c)) (fatal_error b)"
  have "await_reply env ?arms c = (Inr report, c')"
    using assms(1) new by (auto simp: wait_for_frame_report_def take_report_None completed_ids_def)
  then show ?thesis
  proof (rule await_reply_rule [where I = "in_flight i c"])
    show "in_flight i c c" using c by (simp add: in_flight_def)
  next
    fix d e c1 b c2
    assume d: "in_flight i c d" and r: "receive env d = (Inr e, c1)"
    have c1: "in_flight i c c1" using in_flight_quiet [OF d] receive_flow [of env d] r by simp
    show "in_flight i c c2" if arms: "?arms b c1 = None" and h: "handle_auxiliary env b c1 = (Inr (), c2)"
    proof (cases "\<exists>r. b = FrameResult r")
      case True
      then obtain r where b: "b = FrameResult r" "fr_frame_id r \<noteq> i" using arms by (auto split: if_splits)
      then obtain report' d' where "apply_frame_result env r c1 = (Inr report', d')"
        using h by (auto simp: handle_auxiliary_def try_then_def split: prod.splits sum.splits)
      then show ?thesis using in_flight_other [OF c1] b(2) by blast
    next
      case False
      then show ?thesis using in_flight_quiet [OF c1] quiet_aux [of b env c1] h by simp
    qed
    show "flow_ok c' \<and> report_id report = i \<and> pending_ids c' = [] \<and> completed_ids c' = completed_ids c \<and>
        cl_next_frame c' = cl_next_frame c" if arms: "?arms b c1 = Some (Inr report, c')"
    proof -
      obtain r where "apply_frame_result env r c1 = (Inr report, c')"
        using arms by (cases b) (auto split: if_splits)
      then show ?thesis using in_flight_landed [OF c1] by blast
    qed
  qed
qed

lemma wait_for_frame_flow_ok:
  assumes "flow_ok c"
  shows "flow_ok (snd (wait_for_frame_report env i c))"
proof (cases "take_report i (cl_completed c)")
  case None
  then show ?thesis unfolding wait_for_frame_report_def
    by (auto intro!: await_reply_flow_ok [OF assms] split: body.splits if_splits
        dest: apply_frame_result_flow_ok')
next
  case (Some p)
  obtain report rest where p: "p = (report, rest)" by (cases p)
  have "set rest \<subseteq> set rs" if "take_report i rs = Some (report, rest)" for rs
    using that by (induction rs arbitrary: rest) (auto split: if_splits)
  then have "set rest \<subseteq> set (cl_completed c)" using Some p by simp
  then show ?thesis using Some p assms
    by (auto simp: wait_for_frame_report_def flow_ok_def completed_ids_def pending_ids_def list_all_iff)
qed

section \<open>Sending\<close>

text \<open>The flow after a frame was numbered, its credits claimed and its bytes written.\<close>

lemma note_sent_cong: "flow_of c = flow_of d \<Longrightarrow> flow_of (note_sent i t p c) = flow_of (note_sent i u q d)"
  by (simp add: flow_of_eq note_sent_def pending_ids_def completed_ids_def)

lemma claim_credits_cong: "flow_of c = flow_of d \<Longrightarrow> flow_of (claim_credits n c) = flow_of (claim_credits n d)"
  by (simp add: flow_of_eq claim_credits_def pending_ids_def completed_ids_def)

definition sending :: "nat \<Rightarrow> producer_client \<Rightarrow> producer_client" where
  "sending n c = claim_credits n (c\<lparr>cl_next_frame := cl_next_frame c + 1\<rparr>)"

lemma sending_flow_ok: "flow_ok c \<Longrightarrow> flow_ok (sending n c)"
  by (auto simp: sending_def claim_credits_def flow_ok_def pending_ids_def completed_ids_def list_all_iff)

lemma sent_flow_ok:
  assumes "flow_ok c" and "length (cl_pending c) < 2"
  shows "flow_ok (note_sent (cl_next_frame c) t p (sending n c))"
  using assms by (auto simp: sending_def claim_credits_def note_sent_def flow_ok_def pending_ids_def
      completed_ids_def list_all_iff sorted_wrt_append)

lemma sent_owed: "owed (note_sent (cl_next_frame c) t p (sending n c)) = add_mset (cl_next_frame c) (owed c)"
  by (simp add: owed_def pending_ids_def completed_ids_def note_sent_def sending_def claim_credits_def)

lemma transmit_frame_flow:
  assumes "transmit_frame env surface i regions intent content force build_started producer c = (res, c')"
  shows "(\<exists>e. res = Inl e \<and> flow_of c' = flow_of (claim_credits (decoded_bytes_of regions) c)) \<or>
    (\<exists>d t p. flow_of d = flow_of (note_sent i t p (claim_credits (decoded_bytes_of regions) c)) \<and>
       (res, c') = try_then (wait_for_frame_report env i d) (\<lambda>report c5. (Inr (i, report), c5)))"
proof -
  let ?n = "decoded_bytes_of regions"
  obtain us c1 where c1: "elapsed_us env build_started c = (us, c1)" by (cases "elapsed_us env build_started c")
  let ?send = "send_measured env (FrameBody (client_frame surface i (if force then 0 else cl_logical c)
      intent content regions)) (claim_credits ?n c1)"
  obtain sent c2 where c2: "?send = (sent, c2)" by (cases ?send)
  have "flow_of c1 = flow_of c" using elapsed_us_flow [of env build_started c] c1 by simp
  then have flow: "flow_of c2 = flow_of (claim_credits ?n c)"
    using send_measured_flow [of env _ "claim_credits ?n c1"] c2 claim_credits_cong by (metis snd_conv)
  show ?thesis
  proof (cases sent)
    case (Inl e)
    then show ?thesis using assms c1 c2 flow by (auto simp: transmit_frame_def)
  next
    case (Inr m)
    let ?c3 = "if force then c2\<lparr>cl_needs_keyframe := False\<rparr> else c2"
    obtain started c4 where c4: "instant_now env ?c3 = (started, c4)" by (cases "instant_now env ?c3")
    have "flow_of ?c3 = flow_of c2" by (simp add: flow_of_eq pending_ids_def completed_ids_def)
    then have "flow_of c4 = flow_of (claim_credits ?n c)"
      using flow instant_now_flow [of env ?c3] c4 by simp
    then have same: "\<And>p. flow_of (note_sent i started p c4) = flow_of (note_sent i started p (claim_credits ?n c))"
      by (rule note_sent_cong)
    obtain p where "try_then (wait_for_frame_report env i (note_sent i started p c4))
        (\<lambda>report c5. (Inr (i, report), c5)) = (res, c')"
      using assms c1 c2 c4 Inr by (simp add: transmit_frame_def Let_def)
    then show ?thesis using same by (metis (no_types))
  qed
qed

text \<open>Sending one frame after the pipeline has been drained: it lands or the call fails.\<close>

lemma transmit_landed:
  assumes "transmit_frame env surface (cl_next_frame c) regions intent content force started producer
      (c\<lparr>cl_next_frame := cl_next_frame c + 1\<rparr>) = (Inr (i, report), c')"
    and "flow_ok c" "cl_pending c = []"
  shows "flow_ok c'" "i = cl_next_frame c" "report_id report = i" "cl_pending c' = []"
    "completed_ids c' = completed_ids c" "cl_next_frame c' = i + 1"
proof -
  let ?i = "cl_next_frame c" and ?s = "sending (decoded_bytes_of regions) c"
  obtain d t p where d: "flow_of d = flow_of (note_sent ?i t p ?s)"
    and w: "wait_for_frame_report env ?i d = (Inr report, c')" and i: "i = ?i"
    using transmit_frame_flow [OF assms(1)] by (auto simp: sending_def dest!: try_then_Inr)
  have "flow_ok d" by (rule flow_ok_of [OF d sent_flow_ok [OF assms(2)]]) (simp add: assms(3))
  moreover have ids: "pending_ids d = [?i]" "completed_ids d = completed_ids c" "cl_next_frame d = ?i + 1"
    using d assms(3) by (simp_all add: flow_of_eq note_sent_def sending_def claim_credits_def pending_ids_def
        completed_ids_def)
  moreover have "?i \<notin> set (completed_ids d)"
    using assms(2) ids(2) by (auto simp: flow_ok_def list_all_iff)
  ultimately show "flow_ok c'" "i = cl_next_frame c" "report_id report = i" "cl_pending c' = []"
    "completed_ids c' = completed_ids c" "cl_next_frame c' = i + 1"
    using wait_for_frame_landed [OF w] i by (auto simp: pending_ids_def)
qed

lemma transmit_flow_ok:
  assumes "flow_ok c" "cl_pending c = []"
  shows "flow_ok (snd (transmit_frame env surface (cl_next_frame c) regions intent content force started producer
      (c\<lparr>cl_next_frame := cl_next_frame c + 1\<rparr>)))"
proof (cases "transmit_frame env surface (cl_next_frame c) regions intent content force started producer
      (c\<lparr>cl_next_frame := cl_next_frame c + 1\<rparr>)")
  case (Pair res c')
  let ?s = "sending (decoded_bytes_of regions) c"
  show ?thesis
  proof (cases "flow_of c' = flow_of ?s")
    case True
    then show ?thesis using flow_ok_of [OF _ sending_flow_ok [OF assms(1)]] Pair by simp
  next
    case False
    then obtain d t p where d: "flow_of d = flow_of (note_sent (cl_next_frame c) t p ?s)"
      and w: "(res, c') = try_then (wait_for_frame_report env (cl_next_frame c) d)
        (\<lambda>report c5. (Inr (cl_next_frame c, report), c5))"
      using transmit_frame_flow [OF Pair] by (auto simp: sending_def)
    have "flow_ok d" by (rule flow_ok_of [OF d sent_flow_ok [OF assms(1)]]) (simp add: assms(2))
    from wait_for_frame_flow_ok [OF this, of env "cl_next_frame c"] show ?thesis
      using w Pair by (cases "wait_for_frame_report env (cl_next_frame c) d")
        (auto simp: try_then_def split: sum.splits)
  qed
qed

section \<open>One frame at a time\<close>

lemma drained_instant:
  assumes "flow_ok c" "cl_pending c = []" "instant_now env c = (t, d)"
  shows "flow_ok d" "cl_pending d = []" "owed d = owed c" "cl_next_frame d = cl_next_frame c"
    "completed_ids d = completed_ids c"
  using assms by (auto simp: instant_now_def flow_ok_def pending_ids_def completed_ids_def owed_def)

lemma drained_elapsed:
  assumes "flow_ok c" "cl_pending c = []"
  shows "flow_ok (snd (elapsed_us env t c))" "cl_pending (snd (elapsed_us env t c)) = []"
    "completed_ids (snd (elapsed_us env t c)) = completed_ids c"
    "cl_next_frame (snd (elapsed_us env t c)) = cl_next_frame c"
  using assms by (auto simp: elapsed_us_def instant_now_def flow_ok_def pending_ids_def completed_ids_def)

text \<open>The ways one attempt can end.\<close>

lemma send_attempts_cases:
  assumes "instant_now env c0 = (t, c)"
    and "send_attempts env surface pixels delta intent content started force producer c0 = (res, c')"
  obtains (early) e where "res = Inl e" "c' = c"
  | (failed) e where "transmit_frame env surface (cl_next_frame c) (regions_for env surface pixels delta force c)
        intent content force t producer (c\<lparr>cl_next_frame := cl_next_frame c + 1\<rparr>) = (Inl e, c')" "res = Inl e"
  | (answered) i report c1 where "transmit_frame env surface (cl_next_frame c)
        (regions_for env surface pixels delta force c)
        intent content force t producer (c\<lparr>cl_next_frame := cl_next_frame c + 1\<rparr>) = (Inr (i, report), c1)"
      "(\<exists>e. res = Inl e) \<and> c' = c1 \<or>
       (\<exists>report'. res = Inr report' \<and> rep_result report' = rep_result report) \<and>
         (c' = c1 \<or> c' = snd (elapsed_us env started c1)) \<or>
       \<not> force \<and> result_code (rep_result report) = Some CodeNeedKeyframe \<and>
         send_attempts env surface pixels delta intent content started True (rep_producer report) c1 = (res, c')"
proof -
  let ?regions = "regions_for env surface pixels delta force c"
  let ?transmit = "transmit_frame env surface (cl_next_frame c) ?regions
      intent content force t producer (c\<lparr>cl_next_frame := cl_next_frame c + 1\<rparr>)"
  note run = assms(2) [unfolded send_attempts.simps [of env surface pixels delta intent content started force producer c0]
      assms(1) prod.case Let_def]
  show ?thesis
  proof (cases "cl_credits c = 0 \<or> decoded_bytes_of ?regions > cl_byte_credits c \<or> \<not> cl_next_frame c + 1 \<le> u64_max")
    case True
    then show ?thesis using run early by (auto simp: checked_add_u64_def split: if_splits)
  next
    case False
    then have run: "(case ?transmit of
        (Inl error, c1) \<Rightarrow> (Inl error, c1)
      | (Inr (frame_id, report), c1) \<Rightarrow>
          if fr_reason (rep_result report) = frame_result_reason_i32 WhyInkFrozen then (Inr report, c1)
          else if result_code (rep_result report) \<in> {Some CodePresented, Some CodeSuperseded} then
            case elapsed_us env started c1 of (total_us, c2) \<Rightarrow>
              (Inr (report\<lparr>rep_producer := (rep_producer report)\<lparr>pm_total_us := total_us\<rparr>\<rparr>), c2)
          else if result_code (rep_result report) = Some CodeNeedKeyframe \<and> \<not> force
          then send_attempts env surface pixels delta intent content started True (rep_producer report) c1
          else (Inl (FrameRejected frame_id (fr_result (rep_result report)) (fr_reason (rep_result report))), c1))
        = (res, c')"
      using run by (simp add: checked_add_u64_def)
    obtain out c1 where t: "?transmit = (out, c1)" by (cases ?transmit)
    show ?thesis
    proof (cases out)
      case (Inl e)
      then show ?thesis using failed run t by auto
    next
      case (Inr x)
      obtain i report where x: "x = (i, report)" by (cases x)
      show ?thesis
        by (rule answered [of i report c1], use run t Inr x in simp,
            use run t Inr x in \<open>cases "elapsed_us env started c1"; auto split: if_splits\<close>)
    qed
  qed
qed

lemma send_attempts_flow_ok:
  "flow_ok c \<Longrightarrow> cl_pending c = [] \<Longrightarrow>
   flow_ok (snd (send_attempts env surface pixels delta intent content started force producer c))"
proof (induction force arbitrary: producer c rule: measure_induct_rule [of "\<lambda>f. if f then 0 else 1 :: nat"])
  case (less force)
  obtain t d where d: "instant_now env c = (t, d)" by (cases "instant_now env c")
  note drained = drained_instant [OF less(2,3) d]
  obtain res c' where run: "send_attempts env surface pixels delta intent content started force producer c = (res, c')"
    by (cases "send_attempts env surface pixels delta intent content started force producer c")
  from d run have "flow_ok c'"
  proof (cases rule: send_attempts_cases)
    case early
    then show ?thesis using drained(1) by simp
  next
    case failed
    then show ?thesis using transmit_flow_ok [OF drained(1,2)] by (metis snd_conv)
  next
    case (answered i report c1)
    note landed = transmit_landed [OF answered(1) drained(1,2)]
    then show ?thesis using answered(2) drained_elapsed [of c1 env started] less(1) [of True c1 "rep_producer report"]
      by (cases force) auto
  qed
  then show ?case by (simp add: run)
qed

definition landed :: "producer_client \<Rightarrow> frame_report \<Rightarrow> producer_client \<Rightarrow> bool" where
  "landed c report c' \<longleftrightarrow> cl_pending c' = [] \<and> completed_ids c' = completed_ids c \<and>
     cl_next_frame c \<le> report_id report \<and> report_id report < cl_next_frame c'"

lemma send_attempts_landed:
  "send_attempts env surface pixels delta intent content started force producer c = (Inr report, c') \<Longrightarrow>
   flow_ok c \<Longrightarrow> cl_pending c = [] \<Longrightarrow> landed c report c'"
proof (induction force arbitrary: producer c rule: measure_induct_rule [of "\<lambda>f. if f then 0 else 1 :: nat"])
  case (less force)
  obtain t d where d: "instant_now env c = (t, d)" by (cases "instant_now env c")
  note drained = drained_instant [OF less(3,4) d]
  from d less(2) show ?case
  proof (cases rule: send_attempts_cases)
    case (answered i report' c1)
    note arrived = transmit_landed [OF answered(1) drained(1,2)]
    consider "rep_result report = rep_result report'" "c' = c1 \<or> c' = snd (elapsed_us env started c1)"
      | "\<not> force" "send_attempts env surface pixels delta intent content started True (rep_producer report') c1 = (Inr report, c')"
      using answered(2) by auto
    then show ?thesis
    proof cases
      case 1
      have "report_id report = cl_next_frame c" using 1(1) arrived(2,3) drained(4) by (simp add: report_id_def)
      then show ?thesis using 1(2) arrived drained(4,5) drained_elapsed [of c1 env started] by (auto simp: landed_def)
    next
      case 2
      then have "landed c1 report c'" using less(1) [of True] arrived by simp
      then show ?thesis using arrived drained(4,5) by (auto simp: landed_def)
    qed
  qed auto
qed

lemma send_frame_report_inner_flow_ok:
  assumes "flow_ok c"
  shows "flow_ok (snd (send_frame_report_inner env surface pixels delta intent content c))"
proof -
  obtain res c1 where s: "settle_pending_frames env c = (res, c1)" by (cases "settle_pending_frames env c")
  have c1: "flow_ok c1" using settle_flow_ok [OF assms, of env] s by simp
  obtain t c2 where c2: "instant_now env c1 = (t, c2)" by (cases "instant_now env c1")
  show ?thesis
  proof (cases res)
    case Inl
    then show ?thesis using s c1 by (simp add: send_frame_report_inner_def)
  next
    case (Inr u)
    then have "cl_pending c1 = []" using settle_owed [OF _ assms] s by simp
    note drained = drained_instant [OF c1 this c2]
    then show ?thesis using s Inr c2 send_attempts_flow_ok [OF drained(1,2)]
      by (simp add: send_frame_report_inner_def Let_def split: sum.split)
  qed
qed

lemma send_frame_report_inner_accounts:
  assumes "send_frame_report_inner env surface pixels delta intent content c = (Inr report, c')" and "flow_ok c"
  shows "cl_pending c' = []" "owed c' = owed c" "report_id report < cl_next_frame c'"
    "cl_next_frame c \<le> report_id report"
proof -
  obtain c1 where s: "settle_pending_frames env c = (Inr (), c1)"
    using assms(1) by (auto simp: send_frame_report_inner_def dest!: try_then_Inr [OF sym])
  have c1: "flow_ok c1" "cl_pending c1 = []" "owed c1 = owed c" "cl_next_frame c1 = cl_next_frame c"
    using settle_flow_ok [OF assms(2), of env] settle_owed [OF s assms(2)] s by simp_all
  obtain t c2 where c2: "instant_now env c1 = (t, c2)" by (cases "instant_now env c1")
  note drained = drained_instant [OF c1(1,2) c2]
  have "landed c2 report c'"
    using assms(1) s c2 send_attempts_landed [OF _ drained(1,2)]
    by (auto simp: send_frame_report_inner_def Let_def split: sum.splits)
  then show "cl_pending c' = []" "owed c' = owed c" "report_id report < cl_next_frame c'"
    "cl_next_frame c \<le> report_id report"
    using drained c1 by (simp_all add: landed_def owed_def pending_ids_def)
qed

section \<open>Queued frames\<close>

lemma await_credit_flow_ok: "flow_ok c \<Longrightarrow> flow_ok (snd (await_credit env n c))"
proof (induction env n c rule: await_credit.induct)
  case (1 env n c)
  obtain res c1 where r: "receive_pending_frame_report env c = (res, c1)"
    by (cases "receive_pending_frame_report env c")
  have "flow_ok c1" using receive_pending_flow_ok [OF 1(2), of env] r by simp
  then show ?case using 1 r receive_and_keep(1) [of env c _ c1]
    by (subst await_credit.simps) (auto simp: Let_def split: sum.split)
qed

lemma await_credit_accounts:
  "await_credit env n c = (Inr may_send, c') \<Longrightarrow> flow_ok c \<Longrightarrow>
   owed c' = owed c \<and> cl_next_frame c' = cl_next_frame c \<and>
   (may_send \<longrightarrow> length (cl_pending c') < 2 \<and> 0 < cl_credits c' \<and> n \<le> cl_byte_credits c')"
proof (induction env n c rule: await_credit.induct)
  case (1 env n c)
  show ?case
  proof (cases "length (cl_pending c) \<ge> 2 \<or> cl_credits c = 0 \<or> n > cl_byte_credits c")
    case False
    then show ?thesis using 1(2) by (subst (asm) await_credit.simps) auto
  next
    case True
    then obtain report c1 where p: "cl_pending c \<noteq> []" and r: "receive_pending_frame_report env c = (Inr report, c1)"
      using 1(2) by (subst (asm) await_credit.simps) (auto split: prod.splits sum.splits if_splits)
    note keep = receive_and_keep [OF r 1(3)]
    show ?thesis
    proof (cases "cl_needs_keyframe c1")
      case True': True
      then show ?thesis using 1(2) True p r keep by (subst (asm) await_credit.simps) (auto simp: Let_def)
    next
      case False
      then have "await_credit env n (c1\<lparr>cl_completed := cl_completed c1 @ [report]\<rparr>) = (Inr may_send, c')"
        using 1(2) True p r by (subst (asm) await_credit.simps) (auto simp: Let_def)
      then show ?thesis using 1(1) [OF True p r [symmetric] refl refl False] keep by simp
    qed
  qed
qed

lemma queue_as_keyframe_flow_ok:
  assumes "flow_ok c"
  shows "flow_ok (snd (queue_as_keyframe env surface pixels content c))"
proof -
  obtain res c1 where s: "settle_pending_frames env c = (res, c1)" by (cases "settle_pending_frames env c")
  have "flow_ok c1" using settle_flow_ok [OF assms, of env] s by simp
  then have "flow_ok (snd (send_frame_report env surface pixels Latest content c1))"
    by (simp add: send_frame_report_def send_frame_report_inner_flow_ok)
  then show ?thesis using s \<open>flow_ok c1\<close>
    by (cases res; cases "send_frame_report env surface pixels Latest content c1")
      (auto simp: queue_as_keyframe_def try_then_def split: sum.split)
qed

lemma queue_as_keyframe_accounts:
  assumes "queue_as_keyframe env surface pixels content c = (Inr report, c')" and "flow_ok c"
  shows "owed c' = owed c"
    "\<exists>r. report = Some r \<and> cl_next_frame c \<le> report_id r \<and> report_id r < cl_next_frame c'"
proof -
  obtain c1 r where s: "settle_pending_frames env c = (Inr (), c1)"
    and f: "send_frame_report_inner env surface pixels None Latest content c1 = (Inr r, c')" "report = Some r"
    using assms(1) by (auto simp: queue_as_keyframe_def send_frame_report_def dest!: try_then_Inr [OF sym])
  have "flow_ok c1" "owed c1 = owed c" "cl_next_frame c1 = cl_next_frame c"
    using settle_flow_ok [OF assms(2), of env] settle_owed [OF s assms(2)] s by simp_all
  then show "owed c' = owed c"
    "\<exists>r. report = Some r \<and> cl_next_frame c \<le> report_id r \<and> report_id r < cl_next_frame c'"
    using send_frame_report_inner_accounts [OF f(1)] f(2) by auto
qed

end
