(* ===== verification/Client_Run.thy ===== *)
theory Client_Run
  imports Client_Accounts
begin

text \<open>
  All calls of the producer together: what each of them keeps, and what a caller that queues frames
  and flushes at the end has received.
\<close>

section \<open>Queueing, flushing\<close>

definition handed :: "frame_report option \<Rightarrow> nat multiset" where
  "handed report = (case report of None \<Rightarrow> {#} | Some r \<Rightarrow> {#report_id r#})"

lemma pop_completed_owed: "pop_completed c = (report, c') \<Longrightarrow> owed c = owed c' + handed report"
  by (auto simp: pop_completed_def handed_def owed_def pending_ids_def completed_ids_def split: list.splits)

lemma pop_completed_flow_ok: "pop_completed c = (report, c') \<Longrightarrow> flow_ok c \<Longrightarrow> flow_ok c'"
  by (auto simp: pop_completed_def flow_ok_def pending_ids_def completed_ids_def split: list.splits)

lemma owed_below: "flow_ok c \<Longrightarrow> i \<in># owed c \<Longrightarrow> i < cl_next_frame c"
  by (auto simp: flow_ok_def owed_def list_all_iff)

lemma queue_frame_cases:
  assumes "queue_frame env surface content regions started c = (res, c')"
  shows "(\<exists>e. res = Inl e) \<and> (c' = c \<or> flow_of c' = flow_of (sending (decoded_bytes_of regions) c)) \<or>
    (\<exists>report d t p. res = Inr report \<and> pop_completed d = (report, c') \<and>
       flow_of d = flow_of (note_sent (cl_next_frame c) t p (sending (decoded_bytes_of regions) c)))"
proof (cases "cl_next_frame c + 1 \<le> u64_max")
  case False
  then show ?thesis using assms by (auto simp: queue_frame_def checked_add_u64_def Let_def)
next
  case True
  let ?c0 = "c\<lparr>cl_next_frame := cl_next_frame c + 1\<rparr>" and ?n = "decoded_bytes_of regions"
  obtain us c1 where c1: "elapsed_us env started ?c0 = (us, c1)" by (cases "elapsed_us env started ?c0")
  let ?send = "send_measured env (FrameBody (client_frame surface (cl_next_frame c) (cl_logical c) Latest content regions))
      (claim_credits ?n c1)"
  obtain sent c2 where c2: "?send = (sent, c2)" by (cases ?send)
  have "flow_of c1 = flow_of ?c0" using elapsed_us_flow [of env started ?c0] c1 by simp
  then have flow: "flow_of c2 = flow_of (sending ?n c)"
    using send_measured_flow [of env _ "claim_credits ?n c1"] c2 claim_credits_cong unfolding sending_def
    by (metis snd_conv)
  show ?thesis
  proof (cases sent)
    case (Inl e)
    then show ?thesis using assms True c1 c2 flow by (auto simp: queue_frame_def checked_add_u64_def)
  next
    case (Inr m)
    obtain t c3 where c3: "instant_now env c2 = (t, c3)" by (cases "instant_now env c2")
    have "flow_of c3 = flow_of (sending ?n c)" using flow instant_now_flow [of env c2] c3 by simp
    then have same: "\<And>p. flow_of (note_sent (cl_next_frame c) t p c3) =
        flow_of (note_sent (cl_next_frame c) t p (sending ?n c))" by (rule note_sent_cong)
    obtain p report where "pop_completed (note_sent (cl_next_frame c) t p c3) = (report, c')" "res = Inr report"
      using assms True c1 c2 c3 Inr
      by (auto simp: queue_frame_def checked_add_u64_def Let_def split: prod.splits)
    then show ?thesis using same by (metis (no_types))
  qed
qed

lemma queue_frame_flow_ok:
  assumes "flow_ok c" and "length (cl_pending c) < 2"
  shows "flow_ok (snd (queue_frame env surface content regions started c))"
proof (cases "queue_frame env surface content regions started c")
  case (Pair res c')
  from queue_frame_cases [OF this] have "flow_ok c'"
    using flow_ok_of [OF _ sending_flow_ok [OF assms(1)]] flow_ok_of [OF _ sent_flow_ok [OF assms]]
      pop_completed_flow_ok assms(1) by metis
  then show ?thesis using Pair by simp
qed

lemma queue_frame_accounts:
  assumes "queue_frame env surface content regions started c = (Inr report, c')"
  shows "owed c' + handed report = add_mset (cl_next_frame c) (owed c)" "cl_next_frame c' = cl_next_frame c + 1"
proof -
  obtain d t p where pop: "pop_completed d = (report, c')"
    and d: "flow_of d = flow_of (note_sent (cl_next_frame c) t p (sending (decoded_bytes_of regions) c))"
    using queue_frame_cases [OF assms] by auto
  then show "owed c' + handed report = add_mset (cl_next_frame c) (owed c)"
    using pop_completed_owed [of d report c'] owed_cong [OF d] sent_owed [of c] by simp
  have "cl_next_frame d = cl_next_frame c + 1"
    using d by (simp add: flow_of_eq note_sent_def sending_def claim_credits_def)
  then show "cl_next_frame c' = cl_next_frame c + 1"
    using pop by (auto simp: pop_completed_def split: list.splits)
qed

lemma queue_delta_flow_ok:
  assumes "flow_ok c"
  shows "flow_ok (snd (queue_delta_frame_report env surface previous pixels tile content c))"
proof (cases "cl_needs_keyframe c \<or> cl_logical c = 0 \<or> (\<exists>e. validate_frame_pixels surface pixels (Some previous) = Inl e)")
  case True
  then show ?thesis using queue_as_keyframe_flow_ok [OF assms] assms
    by (auto simp: queue_delta_frame_report_def split: sum.split)
next
  case False
  obtain t c1 where c1: "instant_now env c = (t, c1)" by (cases "instant_now env c")
  let ?n = "decoded_bytes_of (delta_regions_of env surface previous pixels tile c1)"
  obtain res c2 where a: "await_credit env ?n c1 = (res, c2)" by (cases "await_credit env ?n c1")
  have ok: "flow_ok c1" using instant_now_flow [of env c] c1 by (intro flow_ok_of [OF _ assms]) simp
  have "flow_ok c2" using await_credit_flow_ok [OF ok, of env ?n] a by simp
  moreover have "length (cl_pending c2) < 2" if "res = Inr True" using await_credit_accounts [OF a [unfolded that] ok] by simp
  ultimately show ?thesis using False c1 a queue_frame_flow_ok queue_as_keyframe_flow_ok
    by (cases res) (auto simp: queue_delta_frame_report_def Let_def split: sum.split)
qed

lemma queue_delta_accounts:
  assumes "queue_delta_frame_report env surface previous pixels tile content c = (Inr report, c')" and "flow_ok c"
  shows "\<exists>i. cl_next_frame c \<le> i \<and> i < cl_next_frame c' \<and> owed c' + handed report = add_mset i (owed c)"
proof -
  have keyframe: ?thesis if "queue_as_keyframe env surface pixels content d = (Inr report, c')" "flow_ok d"
      "owed d = owed c" "cl_next_frame d = cl_next_frame c" for d
    using queue_as_keyframe_accounts [OF that(1,2)] that(3,4) by (auto simp: handed_def)
  show ?thesis
  proof (cases "cl_needs_keyframe c \<or> cl_logical c = 0")
    case True
    then show ?thesis using assms keyframe [of c] by (simp add: queue_delta_frame_report_def)
  next
    case False
    obtain t c1 where c1: "instant_now env c = (t, c1)" by (cases "instant_now env c")
    let ?regions = "delta_regions_of env surface previous pixels tile c1"
    have flow: "flow_of c1 = flow_of c" using instant_now_flow [of env c] c1 by simp
    then have ok: "flow_ok c1" "owed c1 = owed c" "cl_next_frame c1 = cl_next_frame c"
      using flow_ok_of [OF flow assms(2)] owed_cong [OF flow] by (simp_all add: flow_of_eq)
    obtain may_send c2 where a: "await_credit env (decoded_bytes_of ?regions) c1 = (Inr may_send, c2)"
      and q: "(if may_send then queue_frame env surface content ?regions t c2
        else queue_as_keyframe env surface pixels content c2) = (Inr report, c')"
      using assms(1) False c1
      by (auto simp: queue_delta_frame_report_def Let_def dest!: try_then_Inr [OF sym] split: sum.splits)
    have "flow_ok c2" using await_credit_flow_ok [OF ok(1), of env] a by (metis snd_conv)
    then have c2: "flow_ok c2" "owed c2 = owed c" "cl_next_frame c2 = cl_next_frame c"
      using await_credit_accounts [OF a ok(1)] ok(2,3) by simp_all
    show ?thesis
    proof (cases may_send)
      case True
      then show ?thesis using q queue_frame_accounts [of env surface content ?regions t c2] c2 by auto
    next
      case False
      then show ?thesis using q keyframe [OF _ c2] by simp
    qed
  qed
qed

lemma flush_flow_ok:
  assumes "flow_ok c"
  shows "flow_ok (snd (flush_frame_reports env c))"
  using settle_flow_ok [OF assms, of env]
  by (cases "settle_pending_frames env c"; cases "fst (settle_pending_frames env c)")
    (auto simp: flush_frame_reports_def flow_ok_def pending_ids_def completed_ids_def)

lemma flush_accounts:
  assumes "flush_frame_reports env c = (Inr reports, c')" and "flow_ok c"
  shows "mset (map report_id reports) = owed c" "owed c' = {#}"
proof -
  obtain c1 where s: "settle_pending_frames env c = (Inr (), c1)" and "reports = cl_completed c1"
    "c' = c1\<lparr>cl_completed := []\<rparr>"
    using assms(1) by (auto simp: flush_frame_reports_def dest!: try_then_Inr [OF sym])
  then show "mset (map report_id reports) = owed c" "owed c' = {#}"
    using settle_owed [OF s assms(2)] by (auto simp: owed_def pending_ids_def completed_ids_def)
qed

section \<open>A caller that queues frames\<close>

text \<open>A caller that queues frame after frame, each with its predecessor, and flushes at the end.\<close>

fun queue_all ::
  "client_env \<Rightarrow> client_surface \<Rightarrow> nat \<Rightarrow> content_class \<Rightarrow> (bytes \<times> bytes) list \<Rightarrow> producer_client \<Rightarrow>
   frame_report list client_step" where
  "queue_all env surface tile content [] c = flush_frame_reports env c"
| "queue_all env surface tile content ((previous, pixels) # frames) c =
     try_then (queue_delta_frame_report env surface previous pixels tile content c) (\<lambda>report c1.
       try_then (queue_all env surface tile content frames c1) (\<lambda>reports c2.
         (Inr (case report of None \<Rightarrow> reports | Some r \<Rightarrow> r # reports), c2)))"

lemma queue_all_accounts:
  "queue_all env surface tile content frames c = (Inr reports, c') \<Longrightarrow> flow_ok c \<Longrightarrow>
   \<exists>ids. mset (map report_id reports) = mset ids + owed c \<and> length ids = length frames \<and> distinct ids \<and>
     (\<forall>i \<in> set ids. cl_next_frame c \<le> i)"
proof (induction frames arbitrary: c reports)
  case Nil
  then show ?case using flush_accounts(1) [of env c reports c'] by simp
next
  case (Cons frame frames)
  obtain previous pixels where f: "frame = (previous, pixels)" by (cases frame)
  obtain report c1 rest where q: "queue_delta_frame_report env surface previous pixels tile content c = (Inr report, c1)"
    and all: "queue_all env surface tile content frames c1 = (Inr rest, c')"
    and reports: "reports = (case report of None \<Rightarrow> rest | Some r \<Rightarrow> r # rest)"
    using Cons.prems(1) f by (auto dest!: try_then_Inr [OF sym])
  have c1: "flow_ok c1" using queue_delta_flow_ok [OF Cons.prems(2)] q by (metis snd_conv)
  obtain ids where ids: "mset (map report_id rest) = mset ids + owed c1" "length ids = length frames" "distinct ids"
    "\<forall>i \<in> set ids. cl_next_frame c1 \<le> i" using Cons.IH [OF all c1] by blast
  obtain i where i: "cl_next_frame c \<le> i" "i < cl_next_frame c1" "owed c1 + handed report = add_mset i (owed c)"
    using queue_delta_accounts [OF q Cons.prems(2)] by blast
  have "mset (map report_id reports) = handed report + mset (map report_id rest)"
    by (simp add: reports handed_def split: option.split)
  then have "mset (map report_id reports) = mset (i # ids) + owed c"
    using ids(1) i(3) by (simp add: ac_simps)
  then show ?case using ids i by (intro exI [of _ "i # ids"]) force
qed

section \<open>Every call\<close>

text \<open>A step of a caller: any public operation, with any outcome.\<close>

inductive producer_step :: "client_env \<Rightarrow> producer_client \<Rightarrow> producer_client \<Rightarrow> bool" for env where
  step_events: "producer_step env c (set_event_output c)"
| step_hello: "producer_step env c (snd (client_hello_step env name nonce c))"
| step_profile: "producer_step env c (snd (epaper_profile_request env operation profile custom c))"
| step_refresh: "producer_step env c (snd (epaper_refresh_request env request c))"
| step_open: "producer_step env c
    (snd (open_surface_with_input_capabilities env width height kind capabilities label c))"
| step_overlay: "producer_step env c (snd (update_overlay env update c))"
| step_send: "producer_step env c (snd (send_frame_report_inner env surface pixels delta intent content c))"
| step_queue: "producer_step env c
    (snd (queue_delta_frame_report env surface previous pixels tile content c))"
| step_credit: "producer_step env c (snd (wait_for_frame_credit_report env c))"
| step_flush: "producer_step env c (snd (flush_frame_reports env c))"
| step_pump: "producer_step env c (snd (pump_once env c))"
| step_goodbye: "producer_step env c (snd (client_goodbye env c))"

lemma try_then_keeps:
  assumes "I (snd m)" and "\<And>x c. m = (Inr x, c) \<Longrightarrow> I c \<Longrightarrow> I (snd (f x c))"
  shows "I (snd (try_then m f))"
  using assms by (cases m) (auto simp: try_then_def split: sum.split)

lemma flow_ok_update [simp]:
  "flow_ok (c\<lparr>cl_next_profile_request := a\<rparr>) = flow_ok c" "flow_ok (c\<lparr>cl_next_refresh_request := a\<rparr>) = flow_ok c"
  "flow_ok (c\<lparr>cl_actions := b\<rparr>) = flow_ok c" "flow_ok (c\<lparr>cl_needs_keyframe := b\<rparr>) = flow_ok c"
  "flow_ok (c\<lparr>cl_event_output := out\<rparr>) = flow_ok c"
  by (simp_all add: flow_ok_def pending_ids_def completed_ids_def)

lemma client_send_flow_ok: "flow_ok c \<Longrightarrow> flow_ok (snd (client_send env b c))"
  by (rule flow_ok_quiet) (simp_all add: quiet)

lemma client_hello_flow_ok: "flow_ok c \<Longrightarrow> flow_ok (snd (client_hello_step env name nonce c))"
  unfolding client_hello_step_def
  by (intro try_then_keeps [where I = flow_ok] client_send_flow_ok receive_flow_ok)
    (auto simp: flow_ok_def pending_ids_def completed_ids_def split: option.split body.split sum.split)

lemma accept_surface_flow_ok: "flow_ok c \<Longrightarrow> flow_ok (snd (accept_surface ready c))"
  by (simp add: accept_surface_def Let_def flow_ok_def pending_ids_def completed_ids_def split: option.split)

lemma accept_surface_flow_ok': "accept_surface ready c = (res, c') \<Longrightarrow> flow_ok c \<Longrightarrow> flow_ok c'"
  using accept_surface_flow_ok [of c ready] by simp

lemma request_flow_ok:
  assumes "flow_ok c" and "\<And>b c m. flow_ok c \<Longrightarrow> arms b c = Some m \<Longrightarrow> flow_ok (snd m)"
  shows "flow_ok (snd (try_then (client_send env b c) (\<lambda>_ c1. await_reply env arms c1)))"
  by (intro try_then_keeps [where I = flow_ok] client_send_flow_ok await_reply_flow_ok assms)

lemma profile_request_flow_ok: "flow_ok c \<Longrightarrow> flow_ok (snd (epaper_profile_request env operation profile custom c))"
  by (auto simp: epaper_profile_request_def Let_def profile_answer_def intro!: request_flow_ok
      split: option.split body.splits if_splits)

lemma refresh_request_flow_ok: "flow_ok c \<Longrightarrow> flow_ok (snd (epaper_refresh_request env request c))"
  by (auto simp: epaper_refresh_request_def Let_def refresh_answer_def intro!: request_flow_ok
      split: option.split body.splits if_splits)

lemma open_surface_flow_ok:
  "flow_ok c \<Longrightarrow> flow_ok (snd (open_surface_with_input_capabilities env width height kind capabilities label c))"
  by (auto simp: open_surface_with_input_capabilities_def Let_def intro!: request_flow_ok
      split: body.splits dest: accept_surface_flow_ok')

lemma update_overlay_flow_ok: "flow_ok c \<Longrightarrow> flow_ok (snd (update_overlay env update c))"
  by (auto simp: update_overlay_def intro!: request_flow_ok split: body.splits if_splits)

lemma pump_once_flow_ok: "flow_ok c \<Longrightarrow> flow_ok (snd (pump_once env c))"
  unfolding pump_once_def
  by (intro try_then_keeps [where I = flow_ok] receive_flow_ok)
    (auto simp: handle_auxiliary_flow_ok split: option.split)

lemma wait_for_credit_flow_ok:
  assumes "flow_ok c"
  shows "flow_ok (snd (wait_for_frame_credit_report env c))"
proof (cases "pop_completed c")
  case (Pair report c1)
  have "flow_ok c1" using pop_completed_flow_ok [OF Pair assms] .
  then have "flow_ok (snd (try_then (receive_pending_frame_report env c1) (\<lambda>report c2. (Inr (Some report), c2))))"
    by (intro try_then_keeps [where I = flow_ok] receive_pending_flow_ok) simp_all
  then show ?thesis using Pair \<open>flow_ok c1\<close>
    by (auto simp: wait_for_frame_credit_report_def split: option.split)
qed

lemma producer_step_flow_ok: "producer_step env c c' \<Longrightarrow> flow_ok c \<Longrightarrow> flow_ok c'"
proof (induction rule: producer_step.induct)
  case (step_events c)
  then show ?case by (simp add: set_event_output_def)
next
  case (step_goodbye c)
  then show ?case by (simp add: client_goodbye_def client_send_flow_ok)
qed (simp_all add: client_hello_flow_ok profile_request_flow_ok refresh_request_flow_ok open_surface_flow_ok
    update_overlay_flow_ok send_frame_report_inner_flow_ok queue_delta_flow_ok wait_for_credit_flow_ok flush_flow_ok
    pump_once_flow_ok)

text \<open>
  Claim C10. Whatever calls are made on a new client, in whatever order, and whatever bytes the peer
  answers: the frames in flight are at most two, have distinct ascending numbers below the next one,
  and the credits are within the limits of the surface.
\<close>

theorem producer_flow_invariant:
  assumes "(producer_step env)\<^sup>*\<^sup>* (client_new input client_id) c"
  shows "length (cl_pending c) \<le> 2 \<and> sorted_wrt (<) (pending_ids c) \<and>
    list_all (\<lambda>i. i < cl_next_frame c) (pending_ids c @ completed_ids c) \<and>
    cl_credits c \<le> cl_credit_limit c \<and> cl_byte_credits c \<le> cl_byte_credit_limit c"
proof -
  have "flow_ok c" using assms
  proof (induction rule: rtranclp_induct)
    case base
    then show ?case by (simp add: client_new_def flow_ok_def pending_ids_def completed_ids_def)
  next
    case (step c c')
    then show ?case using producer_step_flow_ok by blast
  qed
  then show ?thesis by (auto simp: flow_ok_def pending_ids_def list_all_iff)
qed

text \<open>
  Claim C9. A caller that queues frames, each as a delta to its predecessor, and flushes at the end
  gets one report for every frame and no frame twice, whatever retries, rejections and waits the
  queue went through.
\<close>

theorem queued_frames_reported:
  assumes "queue_all env surface tile content frames c = (Inr reports, c')"
    and "flow_ok c" and "cl_pending c = []" and "cl_completed c = []"
  shows "length reports = length frames \<and> distinct (map report_id reports)"
proof -
  have "owed c = {#}" using assms(3,4) by (simp add: owed_def pending_ids_def completed_ids_def)
  then obtain ids where ids: "mset (map report_id reports) = mset ids" "length ids = length frames" "distinct ids"
    using queue_all_accounts [OF assms(1,2)] by auto
  then show ?thesis
    by (metis length_map mset_eq_imp_distinct_iff mset_eq_length)
qed

end
