(* ===== verification/Client_Live.thy ===== *)
theory Client_Live
  imports Client_Run
begin

text \<open>
  Progress of the producer: a flush whose results have all arrived, in any order, returns them. The
  messages are the bytes that the codec writes for them.
\<close>

section \<open>Receiving a framed message\<close>

lemma receive_framed:
  assumes "coded (ce_prost env) e" and "sendable (ce_prost env) (cl_max_payload c) e"
    and "cl_input c = frame_bytes (ce_prost env) e @ rest"
    and "cl_last_received c < env_message_id e" and "cl_session_id c = 0 \<or> env_session_id e = cl_session_id c"
  shows "receive env c = (Inr e, c\<lparr>cl_input := rest, cl_last_received := env_message_id e\<rparr>)"
proof -
  let ?P = "ce_prost env" and ?h = "wire_magic @ u32_be_bytes (word_of_nat (prost_len (ce_prost env) e))"
  have payload: "length (prost_encode ?P e) = prost_len ?P e" using assms(1) by (simp add: coded_def)
  have size: "unat (word_of_nat (prost_len ?P e) :: u32) = prost_len ?P e"
    using assms(2) by (intro u32_be_length) (simp add: sendable_def)
  obtain h where h: "h = ?h" by blast
  have len: "length h = header_len" by (simp add: h wire_magic_def header_len_def)
  have input: "cl_input c = h @ prost_encode ?P e @ rest" using assms(3) by (simp add: frame_bytes_def h)
  have head: "take header_len (cl_input c) = h" "drop header_len (cl_input c) = prost_encode ?P e @ rest"
    using input len by simp_all
  have magic: "take 4 h = wire_magic" by (simp add: h wire_magic_def)
  have field: "unat (u32_from_be (h ! 4) (h ! 5) (h ! 6) (h ! 7)) = prost_len ?P e"
    using size by (simp add: h wire_magic_def u32_be_bytes_def u32_be_roundtrip)
  have decoded: "wire_decode ?P (cl_max_payload c) (h @ prost_encode ?P e) = (Inr (Some e), [])"
    using decode_coded [OF assms(1,2), of "[]"] by (simp add: frame_bytes_def h)
  have enough: "header_len \<le> length (cl_input c)" using input len by simp
  show ?thesis
    using assms(2,4,5) enough payload
    by (simp add: receive_def Let_def head magic field decoded sendable_def not_less not_le)
qed

section \<open>Results that have arrived\<close>

text \<open>A message of the receiver that carries the result of a frame.\<close>

definition carries_result :: "client_env \<Rightarrow> producer_client \<Rightarrow> envelope \<Rightarrow> frame_result \<Rightarrow> bool" where
  "carries_result env c e r \<longleftrightarrow> env_body e = Some (FrameResult r) \<and> env_session_id e = cl_session_id c \<and>
     coded (ce_prost env) e \<and> sendable (ce_prost env) (cl_max_payload c) e \<and> fr_credits r \<le> cl_credit_limit c \<and>
     (cl_selected_minor c \<ge> 1 \<longrightarrow> fr_byte_credits r \<le> cl_byte_credit_limit c)"

lemma receive_result:
  assumes "carries_result env c e r" and "fr_frame_id r \<in> set (pending_ids c)"
    and "cl_input c = frame_bytes (ce_prost env) e @ rest" and "cl_last_received c < env_message_id e"
  shows "\<exists>report c'. receive_pending_frame_report env c = (Inr report, c') \<and> rep_result report = r \<and>
    cl_input c' = rest \<and> cl_last_received c' = env_message_id e \<and> cl_session_id c' = cl_session_id c \<and>
    cl_max_payload c' = cl_max_payload c \<and> cl_credit_limit c' = cl_credit_limit c \<and>
    cl_byte_credit_limit c' = cl_byte_credit_limit c \<and> cl_selected_minor c' = cl_selected_minor c \<and>
    cl_completed c' = cl_completed c \<and>
    mset (pending_ids c) = add_mset (fr_frame_id r) (mset (pending_ids c'))"
proof -
  let ?c1 = "c\<lparr>cl_input := rest, cl_last_received := env_message_id e\<rparr>"
  have r: "receive env c = (Inr e, ?c1)"
    using assms by (intro receive_framed) (auto simp: carries_result_def)
  obtain p qs where t: "take_pending (fr_frame_id r) (cl_pending c) = Some (p, qs)"
    using assms(2) take_pending_None [of "fr_frame_id r" "cl_pending c"]
    by (cases "take_pending (fr_frame_id r) (cl_pending c)") (auto simp: pending_ids_def)
  obtain report c' where a: "apply_frame_result env r ?c1 = (Inr report, c')"
    using t assms(1) by (cases "elapsed_us env (pf_started p) c")
      (auto simp: apply_frame_result_def Let_def carries_result_def elapsed_us_def instant_now_def)
  then have "receive_pending_frame_report env c = (Inr report, c')"
    using r assms(1) by (simp add: receive_pending_frame_report_def await_reply.simps [of env _ c] carries_result_def)
  moreover have "rep_result report = r" "cl_input c' = rest" "cl_last_received c' = env_message_id e"
    "cl_session_id c' = cl_session_id c" "cl_max_payload c' = cl_max_payload c"
    "cl_credit_limit c' = cl_credit_limit c" "cl_byte_credit_limit c' = cl_byte_credit_limit c"
    "cl_selected_minor c' = cl_selected_minor c" "cl_completed c' = cl_completed c" "cl_pending c' = qs"
    using a t by (auto simp: apply_frame_result_def Let_def elapsed_us_def instant_now_def split: if_splits)
  moreover have "mset (pending_ids c) = add_mset (fr_frame_id r) (mset (map pf_frame_id qs))"
    using take_pending_Some [OF t] by (auto simp: pending_ids_def)
  ultimately show ?thesis by (auto simp: pending_ids_def)
qed

lemma settle_results:
  "list_all2 (carries_result env c) es rs \<Longrightarrow> mset (map fr_frame_id rs) = mset (pending_ids c) \<Longrightarrow>
    sorted_wrt (<) (cl_last_received c # map env_message_id es) \<Longrightarrow>
    cl_input c = concat (map (frame_bytes (ce_prost env)) es) @ rest \<Longrightarrow>
    \<exists>c'. settle_pending_frames env c = (Inr (), c') \<and> map rep_result (cl_completed c') = map rep_result (cl_completed c) @ rs \<and>
      cl_pending c' = [] \<and> cl_input c' = rest"
proof (induction es arbitrary: c rs)
  case Nil
  then show ?case by (subst settle_pending_frames.simps) (auto simp: pending_ids_def)
next
  case (Cons e es)
  obtain r rs' where rs: "rs = r # rs'" and e: "carries_result env c e r" and es: "list_all2 (carries_result env c) es rs'"
    using Cons.prems(1) by (auto simp: list_all2_Cons1)
  have "fr_frame_id r \<in># mset (pending_ids c)" using Cons.prems(2) rs by (metis list.set_intros(1) list.simps(9) set_mset_mset)
  then have pending: "fr_frame_id r \<in> set (pending_ids c)" by simp
  obtain report c1 where w: "receive_pending_frame_report env c = (Inr report, c1)" and c1: "rep_result report = r"
    "cl_input c1 = concat (map (frame_bytes (ce_prost env)) es) @ rest" "cl_last_received c1 = env_message_id e"
    "cl_session_id c1 = cl_session_id c" "cl_max_payload c1 = cl_max_payload c" "cl_credit_limit c1 = cl_credit_limit c"
    "cl_byte_credit_limit c1 = cl_byte_credit_limit c" "cl_selected_minor c1 = cl_selected_minor c"
    "cl_completed c1 = cl_completed c"
    "mset (pending_ids c) = add_mset (fr_frame_id r) (mset (pending_ids c1))"
    using receive_result [OF e pending, of "concat (map (frame_bytes (ce_prost env)) es) @ rest"] Cons.prems(3,4) by auto
  let ?c2 = "c1\<lparr>cl_completed := cl_completed c1 @ [report]\<rparr>"
  have "carries_result env ?c2 = carries_result env c" using c1 by (intro ext) (simp add: carries_result_def)
  moreover have "mset (map fr_frame_id rs') = mset (pending_ids ?c2)"
    using Cons.prems(2) c1(10) rs by (simp add: pending_ids_def)
  ultimately obtain c' where "settle_pending_frames env ?c2 = (Inr (), c')"
    "map rep_result (cl_completed c') = map rep_result (cl_completed ?c2) @ rs'" "cl_pending c' = []" "cl_input c' = rest"
    using Cons.IH [of ?c2 rs'] es Cons.prems(3) c1 by auto
  moreover have "cl_pending c \<noteq> []" using pending by (auto simp: pending_ids_def)
  ultimately show ?case using w c1 rs by (subst settle_pending_frames.simps) simp
qed

text \<open>
  Claim C13. A flush whose results are in the input, in any order, returns all of them, and takes
  nothing else from the connection: when every frame in flight has a result message of the session,
  numbered upwards and with credits within the limits, the call succeeds.
\<close>

theorem flush_completes:
  assumes "list_all2 (carries_result env c) es rs" and "mset (map fr_frame_id rs) = mset (pending_ids c)"
    and "sorted_wrt (<) (cl_last_received c # map env_message_id es)"
    and "cl_input c = concat (map (frame_bytes (ce_prost env)) es) @ rest"
  shows "\<exists>reports c'. flush_frame_reports env c = (Inr reports, c') \<and>
    map rep_result reports = map rep_result (cl_completed c) @ rs \<and> cl_pending c' = [] \<and>
    cl_completed c' = [] \<and> cl_input c' = rest"
  using settle_results [OF assms] by (auto simp: flush_frame_reports_def)

end
