(* ===== verification/Handshake.thy ===== *)
theory Handshake
  imports Client_Live Session_Example
begin

text \<open>
  The two ends together: the hello of the producer (\<open>client.rs\<close>) against a fresh session of the
  receiver (\<open>session.rs\<close>), and the reply back at the producer.
\<close>

lemma client_hello_accepted:
  assumes "length (cl_client_id c) = 16" "length nonce = 16"
    and "rc_verify_token config (cl_client_id c) (replicate 32 0)"
  shows "validate_hello (client_hello_message name nonce c) config = Inr ()"
    and "select_minor (client_hello_message name nonce c) = Inr 3"
  using assms
  by (simp_all add: validate_hello_def select_minor_def client_hello_message_def client_max_minor_def max_minor_def
      producer_kind_linux_cli_def producer_kind_known_def mandatory_features_def has_feature_def)

definition agreed_hello :: "panel_info \<Rightarrow> client_hello \<Rightarrow> 'p session \<Rightarrow> server_hello" where
  "agreed_hello info hello s =
     (let s1 = negotiate info hello 3 s in
      \<lparr>sh_selected_minor = 3, sh_features = server_features s1, sh_server_id = rc_server_id (se_config s),
       sh_display = Some \<lparr>di_width = info_width info, di_height = info_height info,
         di_orientation = orientation_current,
         di_pixel_formats = [pixel_format_i32 Gray8] @ (if se_color_rgb565 s1 then [pixel_format_i32 Rgb565Le] else []),
         di_encodings = se_encodings s1,
         di_input_capabilities = input_capabilities (rc_input_device (se_config s) \<noteq> None) (se_pen_available s)\<rparr>,
       sh_limits = Some (protocol_limits s1), sh_name = rc_name (se_config s)\<rparr>)"

lemma agreed_hello_valid:
  assumes "receiver_config_validate (se_config s) = Inr ()" "length (rc_server_id (se_config s)) = 16"
    and "info_width info \<noteq> 0" "info_height info \<noteq> 0"
  shows "validate_server_hello (agreed_hello info (client_hello_message name nonce c) s) = Inr ()"
  using assms
  by (auto simp: validate_server_hello_def agreed_hello_def Let_def client_max_minor_def offers_def
      receiver_config_validate_def negotiate_def server_features_def protocol_limits_def
      mandatory_features_def client_hello_message_def has_feature_def split: if_splits)

definition hello_request :: "string \<Rightarrow> bytes \<Rightarrow> producer_client \<Rightarrow> envelope" where
  "hello_request name nonce c =
     \<lparr>env_session_id = 0, env_message_id = 1, env_body = Some (ClientHello (client_hello_message name nonce c))\<rparr>"

definition hello_reply :: "'p receiver_env \<Rightarrow> string \<Rightarrow> bytes \<Rightarrow> producer_client \<Rightarrow> 'p session \<Rightarrow> envelope" where
  "hello_reply renv name nonce c s =
     \<lparr>env_session_id = se_session_id s, env_message_id = 1,
      env_body = Some (ServerHello (agreed_hello (panel_info_of (re_backend renv) (se_panel s))
        (client_hello_message name nonce c) s))\<rparr>"

lemma session_accepts_hello:
  assumes new: "session_new config panel sid = Inr s"
    and client: "length (cl_client_id c) = 16" "length nonce = 16" "rc_verify_token config (cl_client_id c) (replicate 32 0)"
  shows "\<exists>s'. session_handle renv (hello_request name nonce c) now s = (Inr [hello_reply renv name nonce c s], s') \<and>
    se_established s' \<and> se_selected_minor s' = 3 \<and> se_byte_credits s' \<and> se_session_id s' = sid \<and> se_config s' = se_config s"
proof -
  have s: "se_config s = config" "se_established s = False" "se_last_incoming s = 0" "se_next_outgoing s = 1"
    "se_surface s = None" "se_session_id s = sid"
    using new by (auto simp: session_new_def session_new_with_fallback_def and_then_def)
  note hello = client_hello_accepted [OF client, of name]
  show ?thesis
    by (simp add: session_handle_def handle_inner_def hello_request_def validate_envelope_header_def s handle_body_def
        accept_hello_def hello Let_def wrap_body_def take_counter_def hello_reply_def agreed_hello_def session_poll_def
        negotiate_def protocol_limits_def server_features_def)
qed

lemma client_send_ok:
  assumes e: "e = \<lparr>env_session_id = cl_session_id c, env_message_id = of_nat (cl_next_message c), env_body = Some b\<rparr>"
    and "sendable (ce_prost env) (cl_max_payload c) e" "cl_next_message c + 1 \<le> u32_max"
    and "ce_write env (cl_output c) (frame_bytes (ce_prost env) e)"
  shows "client_send env b c = (Inr (), c\<lparr>cl_next_message := cl_next_message c + 1,
    cl_output := cl_output c @ frame_bytes (ce_prost env) e, cl_reads := cl_reads c + 4\<rparr>)"
  using assms(2-)
  by (simp add: client_send_def send_measured_def checked_add_u32_def Let_def instant_now_def elapsed_us_def
      encode_sendable flip: e)

lemma client_takes_hello:
  assumes "receive env c = (Inr e, c1)" "env_session_id e \<noteq> 0" "env_body e = Some (ServerHello server)"
    and "validate_server_hello server = Inr ()" "sh_display server = Some display" "sh_limits server = Some limits"
    and "client_send env (ClientHello (client_hello_message name nonce c0)) c0 = (Inr (), c)"
  shows "client_hello_step env name nonce c0 = (Inr server, c1\<lparr>cl_zstd := (encoding_i32 Zstd \<in> set (di_encodings display)),
    cl_selected_minor := sh_selected_minor server, cl_session_id := env_session_id e,
    cl_max_payload := codec_limit (li_max_payload limits), cl_server_hello := Some server\<rparr>)"
  using assms by (simp add: client_hello_step_def)

text \<open>
  Claim C7. Client and receiver agree. The hello of a new client is accepted by a fresh session of a
  valid configuration at protocol minor 3 with byte credits, and when the reply arrives the client
  accepts it: both ends then have the session number, the minor version and the payload limit of
  the receiver, and the connection is at the byte after the reply.
\<close>

theorem handshake_agrees:
  assumes config: "receiver_config_validate config = Inr ()" "length (rc_server_id config) = 16"
    and session: "session_new config panel sid = Inr s" "sid \<noteq> 0"
    and panel: "info_width (panel_info_of (re_backend renv) panel) \<noteq> 0" "info_height (panel_info_of (re_backend renv) panel) \<noteq> 0"
    and client: "c = client_new input client_id" "input = frame_bytes (ce_prost cenv) (hello_reply renv name nonce c s) @ rest"
    and ids: "length client_id = 16" "length nonce = 16" "rc_verify_token config client_id (replicate 32 0)"
    and request: "sendable (ce_prost cenv) pre_handshake_max_payload (hello_request name nonce c)"
      "ce_write cenv [] (frame_bytes (ce_prost cenv) (hello_request name nonce c))"
    and reply: "coded (ce_prost cenv) (hello_reply renv name nonce c s)"
      "sendable (ce_prost cenv) pre_handshake_max_payload (hello_reply renv name nonce c s)"
  shows "\<exists>s' server c'. session_handle renv (hello_request name nonce c) now s = (Inr [hello_reply renv name nonce c s], s') \<and>
    client_hello_step cenv name nonce c = (Inr server, c') \<and>
    cl_output c' = frame_bytes (ce_prost cenv) (hello_request name nonce c) \<and> cl_input c' = rest \<and>
    cl_session_id c' = se_session_id s' \<and> cl_session_id c' = sid \<and>
    cl_selected_minor c' = se_selected_minor s' \<and> cl_selected_minor c' = 3 \<and>
    cl_max_payload c' = codec_limit (rl_max_payload (rc_limits (se_config s')))"
proof -
  have new: "se_config s = config" "se_session_id s = sid" "se_panel s = panel"
    using session(1) by (auto simp: session_new_def session_new_with_fallback_def and_then_def)
  have c: "cl_client_id c = client_id" "cl_session_id c = 0" "cl_next_message c = 1" "cl_output c = []" "cl_last_received c = 0"
    "cl_max_payload c = pre_handshake_max_payload" "cl_input c = input"
    by (simp_all add: client(1) client_new_def codec_limit_def pre_handshake_max_payload_def hard_max_payload_def)
  let ?reply = "hello_reply renv name nonce c s" and ?request = "hello_request name nonce c"
  let ?info = "panel_info_of (re_backend renv) panel"
  obtain s' where s': "session_handle renv ?request now s = (Inr [?reply], s')" "se_selected_minor s' = 3" "se_session_id s' = sid"
    "se_config s' = config"
    using session_accepts_hello [OF session(1), of c nonce renv name now] ids new(1) by (auto simp: c)
  let ?c1 = "c\<lparr>cl_next_message := 1 + 1, cl_output := [] @ frame_bytes (ce_prost cenv) ?request, cl_reads := cl_reads c + 4\<rparr>"
  have "(1 :: nat) + 1 \<le> u32_max" by (simp add: u32_max_def)
  then have send: "client_send cenv (ClientHello (client_hello_message name nonce c)) c = (Inr (), ?c1)"
    using client_send_ok [of ?request c _ cenv] request unfolding c by (simp add: hello_request_def c)
  have receive: "receive cenv ?c1 = (Inr ?reply, ?c1\<lparr>cl_input := rest, cl_last_received := env_message_id ?reply\<rparr>)"
    using reply client(2) by (intro receive_framed) (simp_all add: c hello_reply_def)
  have valid: "validate_server_hello (agreed_hello ?info (client_hello_message name nonce c) s) = Inr ()"
    using config panel by (intro agreed_hello_valid) (simp_all add: new)
  show ?thesis
    using client_takes_hello [OF receive _ _ valid _ _ send] s' session(2)
    by (simp add: hello_reply_def new agreed_hello_def Let_def protocol_limits_def negotiate_def)
qed

text \<open>The example receiver, and a codec that knows its reply.\<close>

definition example_reply :: envelope where
  "example_reply = hello_reply example_env ''producer'' (replicate 16 3) (client_new [] (replicate 16 2)) example_session"

definition handshake_env :: client_env where
  "handshake_env =
     \<lparr>ce_prost = \<lparr>prost_len = \<lambda>_. 1, prost_encode = \<lambda>_. [1], prost_decode = \<lambda>_. Some example_reply\<rparr>,
      ce_decoders = re_decoders example_env, ce_compress = \<lambda>_. None, ce_clock = \<lambda>_. 0,
      ce_write = \<lambda>_ _. True, ce_event = \<lambda>_ _. True\<rparr>"

theorem handshake_agrees_witness:
  "\<exists>server c'. client_hello_step handshake_env ''producer'' (replicate 16 3)
      (client_new (frame_bytes (ce_prost handshake_env) example_reply) (replicate 16 2)) = (Inr server, c') \<and>
     cl_session_id c' = 7 \<and> cl_selected_minor c' = 3 \<and> cl_input c' = []"
proof -
  let ?P = "ce_prost handshake_env" and ?name = "''producer''" and ?nonce = "replicate 16 (3 :: u8)"
  let ?c = "client_new (frame_bytes ?P example_reply) (replicate 16 2)"
  have reply: "hello_reply example_env ?name ?nonce ?c example_session = example_reply"
    by (simp add: example_reply_def hello_reply_def agreed_hello_def client_hello_message_def client_new_def)
  have "receiver_config_validate example_config = Inr ()" by code_simp
  moreover have "length (rc_server_id example_config) = 16" "rc_verify_token example_config (replicate 16 2) (replicate 32 0)"
    by (simp_all add: example_config_def reserved_zero_token_iff)
  moreover have "info_width (panel_info_of (re_backend example_env) (mock_new 1 1)) \<noteq> 0"
    "info_height (panel_info_of (re_backend example_env) (mock_new 1 1)) \<noteq> 0" by code_simp+
  moreover have "sendable ?P pre_handshake_max_payload e" "ce_write handshake_env [] bs" for e bs
    by (simp_all add: sendable_def handshake_env_def pre_handshake_max_payload_def u32_max_def)
  moreover have "coded ?P example_reply" by (simp add: coded_def handshake_env_def)
  ultimately show ?thesis
    using handshake_agrees [of example_config "mock_new 1 1" 7 example_session example_env ?c
        "frame_bytes ?P example_reply" "replicate 16 2" handshake_env ?name ?nonce "[]" 0]
      example_session_new by (auto simp: reply simp del: One_nat_def)
qed

end
