(* ===== verification/Client_Attempts.thy ===== *)
theory Client_Attempts
  imports Client_Run
begin

text \<open>
  The retry loop of the producer ends: a call of \<open>send_frame_report_inner\<close> numbers at most two
  frames, whatever the receiver answers.
\<close>

lemma next_frame_apply [simp]: "cl_next_frame (snd (apply_frame_result env r c)) = cl_next_frame c"
  by (simp add: apply_frame_result_def elapsed_us_def instant_now_def Let_def split: option.split)

lemma next_frame_apply': "apply_frame_result env r c = (res, c') \<Longrightarrow> cl_next_frame c' = cl_next_frame c"
  using next_frame_apply [of env r c] by simp

lemma next_frame_quiet: "flow_of (snd m) = flow_of c \<Longrightarrow> cl_next_frame (snd m) = cl_next_frame c"
  by (simp add: flow_of_eq)

lemma next_frame_receive [simp]: "cl_next_frame (snd (receive env c)) = cl_next_frame c"
  by (rule next_frame_quiet) (rule receive_flow)

lemma next_frame_elapsed [simp]: "cl_next_frame (snd (elapsed_us env t c)) = cl_next_frame c"
  by (rule next_frame_quiet) (rule elapsed_us_flow)

lemma next_frame_try_then:
  assumes "cl_next_frame (snd m) = n" and "\<And>x c. m = (Inr x, c) \<Longrightarrow> cl_next_frame c = n \<Longrightarrow> cl_next_frame (snd (f x c)) = n"
  shows "cl_next_frame (snd (try_then m f)) = n"
  using assms by (intro try_then_keeps [where I = "\<lambda>c. cl_next_frame c = n"]) auto

lemma next_frame_auxiliary: "cl_next_frame (snd (handle_auxiliary env b c)) = cl_next_frame c"
proof (cases "\<exists>r. b = FrameResult r")
  case True
  then show ?thesis by (auto simp: handle_auxiliary_def intro!: next_frame_try_then)
next
  case False
  then show ?thesis by (intro next_frame_quiet quiet_aux)
qed

lemma next_frame_await:
  assumes "\<And>b c m. arms b c = Some m \<Longrightarrow> cl_next_frame (snd m) = cl_next_frame c"
  shows "cl_next_frame (snd (await_reply env arms c)) = cl_next_frame c"
  by (rule await_reply_keeps [where I = "\<lambda>d. cl_next_frame d = cl_next_frame c"])
    (simp_all add: next_frame_auxiliary assms)

lemma next_frame_receive_pending: "cl_next_frame (snd (receive_pending_frame_report env c)) = cl_next_frame c"
  unfolding receive_pending_frame_report_def
  by (rule next_frame_await) (auto split: body.splits dest: next_frame_apply')

lemma next_frame_wait: "cl_next_frame (snd (wait_for_frame_report env i c)) = cl_next_frame c"
  unfolding wait_for_frame_report_def
  by (auto split: option.split body.splits if_splits intro!: next_frame_await dest: next_frame_apply')

lemma next_frame_settle: "cl_next_frame (snd (settle_pending_frames env c)) = cl_next_frame c"
proof (induction env c rule: settle_pending_frames.induct)
  case (1 env c)
  obtain res c1 where r: "receive_pending_frame_report env c = (res, c1)"
    by (cases "receive_pending_frame_report env c")
  have "cl_next_frame c1 = cl_next_frame c" using next_frame_receive_pending [of env c] r by simp
  then show ?case using 1 r by (subst settle_pending_frames.simps) (auto split: sum.split)
qed

lemma next_frame_transmit:
  assumes "transmit_frame env surface i regions intent content force started producer c = (res, c')"
  shows "cl_next_frame c' = cl_next_frame c"
proof -
  have sent: "cl_next_frame (note_sent i t p (claim_credits n c)) = cl_next_frame c" for t p n
    by (simp add: note_sent_def claim_credits_def)
  show ?thesis
    using transmit_frame_flow [OF assms]
  proof
    assume "\<exists>e. res = Inl e \<and> flow_of c' = flow_of (claim_credits (decoded_bytes_of regions) c)"
    then show ?thesis by (auto simp: flow_of_eq claim_credits_def)
  next
    assume "\<exists>d t p. flow_of d = flow_of (note_sent i t p (claim_credits (decoded_bytes_of regions) c)) \<and>
       (res, c') = try_then (wait_for_frame_report env i d) (\<lambda>report c5. (Inr (i, report), c5))"
    then obtain d t p where d: "flow_of d = flow_of (note_sent i t p (claim_credits (decoded_bytes_of regions) c))"
      and w: "(res, c') = try_then (wait_for_frame_report env i d) (\<lambda>report c5. (Inr (i, report), c5))" by blast
    have "cl_next_frame (snd (res, c')) = cl_next_frame d"
      unfolding w by (intro next_frame_try_then next_frame_wait) simp
    then show ?thesis using d sent by (simp add: flow_of_eq)
  qed
qed

definition attempts_left :: "bool \<Rightarrow> nat" where
  "attempts_left force = (if force then 1 else 2)"

lemma send_attempts_bounded:
  "send_attempts env surface pixels delta intent content started force producer c = (res, c') \<Longrightarrow>
   cl_next_frame c \<le> cl_next_frame c' \<and> cl_next_frame c' \<le> cl_next_frame c + attempts_left force"
proof (induction force arbitrary: producer c rule: measure_induct_rule [of "\<lambda>f. if f then 0 else 1 :: nat"])
  case (less force)
  obtain t d where d: "instant_now env c = (t, d)" by (cases "instant_now env c")
  then have n: "cl_next_frame d = cl_next_frame c" by (auto simp: instant_now_def)
  from d less(2) show ?case
  proof (cases rule: send_attempts_cases)
    case early
    then show ?thesis using n by simp
  next
    case failed
    then show ?thesis using next_frame_transmit [OF failed(1)] n by (simp add: attempts_left_def)
  next
    case (answered i report c1)
    have c1: "cl_next_frame c1 = cl_next_frame c + 1" using next_frame_transmit [OF answered(1)] n by simp
    then show ?thesis
      using answered(2) less(1) [of True "rep_producer report" c1] by (auto simp: attempts_left_def)
  qed
qed

text \<open>
  Claim C40. Sending a frame ends after at most two attempts: a call numbers no more than two
  frames, also when the receiver keeps answering that it needs a keyframe or the call fails.
\<close>

theorem send_report_attempts:
  "cl_next_frame c \<le> cl_next_frame (snd (send_frame_report_inner env surface pixels delta intent content c)) \<and>
   cl_next_frame (snd (send_frame_report_inner env surface pixels delta intent content c)) \<le> cl_next_frame c + 2"
proof -
  obtain res c1 where s: "settle_pending_frames env c = (res, c1)" by (cases "settle_pending_frames env c")
  have c1: "cl_next_frame c1 = cl_next_frame c" using next_frame_settle [of env c] s by simp
  obtain t c2 where c2: "instant_now env c1 = (t, c2)" by (cases "instant_now env c1")
  then have n: "cl_next_frame c2 = cl_next_frame c" using c1 by (auto simp: instant_now_def)
  obtain res' c3 where a: "send_attempts env surface pixels delta intent content t
      (cl_needs_keyframe c2 \<or> cl_receiver_logical c2 = 0) no_metrics c2 = (res', c3)" by (rule prod.exhaust)
  show ?thesis
    using send_attempts_bounded [OF a] c1 n s c2 a
    by (cases res) (auto simp: send_frame_report_inner_def Let_def attempts_left_def split: sum.split if_splits)
qed

end
