(* ===== verification/Client_Example.thy ===== *)
theory Client_Example
  imports Client_Live Session_Example
begin

text \<open>
  A concrete producer for the evaluation of the client on examples: a connection whose answers are
  numbered bytes, a clock that stands still, a surface of two pixels and two credits. The producer
  shakes hands, opens the surface and queues three frames.
\<close>

section \<open>Evaluating the header\<close>

text \<open>Arithmetic forms of the big-endian length, which evaluate faster than the bit operations.\<close>

unbundle bit_operations_syntax
lemma byte_nat: "word_of_nat (unat w) = (ucast w :: 'b::len word)" for w :: "'a::len word"
  by simp
lemma u32_be_bytes_code [code]: "u32_be_bytes v = (let n = unat v in
    [word_of_nat (n div 16777216), word_of_nat (n div 65536), word_of_nat (n div 256), word_of_nat n])"
proof -
  have "word_of_nat (unat v div 2 ^ k) = (ucast (drop_bit k v) :: u8)" for k
    using unat_drop_bit_eq [of k v] by (simp add: byte_nat [symmetric] drop_bit_eq_div del: of_nat_unat)
  from this [of 24] this [of 16] this [of 8] show ?thesis by (simp add: u32_be_bytes_def Let_def)
qed
lemma shifted_byte: "word_of_nat (unat a * 2 ^ k) = (push_bit k (ucast a) :: u32)" for a :: u8
  by (simp add: push_bit_eq_mult)
lemma byte_disjoint: "k + 8 \<le> j \<Longrightarrow> push_bit j x AND (push_bit k (ucast a)) = 0" for a :: u8 and x :: u32
  by (rule bit_eqI) (auto simp: bit_simps dest!: bit_imp_le_length)
lemma u32_from_be_code [code]: "u32_from_be a b c d =
    word_of_nat (unat a * 16777216 + unat b * 65536 + unat c * 256 + unat d)"
proof -
  have "push_bit 24 (ucast a) AND (push_bit 16 (ucast b) OR push_bit 8 (ucast c) OR ucast d) = (0 :: u32)"
    "push_bit 16 (ucast b) AND (push_bit 8 (ucast c) OR ucast d) = (0 :: u32)"
    "push_bit 8 (ucast c) AND ucast d = (0 :: u32)"
    using byte_disjoint [of 0 24 _ d] byte_disjoint [of 0 16 _ d] byte_disjoint [of 0 8 _ d]
    by (simp_all add: bit.conj_disj_distrib byte_disjoint)
  then have "u32_from_be a b c d = push_bit 24 (ucast a) + (push_bit 16 (ucast b) + (push_bit 8 (ucast c) + ucast d))"
    by (simp add: u32_from_be_def disjunctive_add_eq_or or.assoc)
  then show ?thesis using shifted_byte [of a 24] shifted_byte [of b 16] shifted_byte [of c 8]
    by (simp add: ac_simps)
qed
section \<open>The producer\<close>

definition answer_hello :: server_hello where
  "answer_hello =
     \<lparr>sh_selected_minor = 1, sh_features = mandatory_features @ [feature_i32 ByteCredits],
      sh_server_id = replicate 16 1,
      sh_display = Some \<lparr>di_width = 2, di_height = 1, di_orientation = 0,
        di_pixel_formats = [pixel_format_i32 Gray8], di_encodings = [encoding_i32 Raw],
        di_input_capabilities = []\<rparr>,
      sh_limits = Some \<lparr>li_max_payload = 4096, li_max_frame_bytes = 2, li_max_regions = 4, li_max_inflight = 2,
        li_max_fps_x100 = 6000, li_settled_deadline_ms = 100, li_max_inflight_bytes = 2\<rparr>,
      sh_name = ''display''\<rparr>"

definition answer_ready :: surface_ready where
  "answer_ready =
     \<lparr>sr_surface_id = client_surface_id, sr_generation = 1, sr_width = 2, sr_height = 1,
      sr_pixel_format = pixel_format_i32 Gray8, sr_orientation = 0, sr_source_kind = 1,
      sr_input_capabilities = [], sr_action_capabilities = [], sr_limits = sh_limits answer_hello\<rparr>"

definition answer_result :: "nat \<Rightarrow> frame_result" where
  "answer_result frame_id =
     \<lparr>fr_surface_id = client_surface_id, fr_generation = 1, fr_frame_id = frame_id,
      fr_result = frame_result_code_i32 CodePresented, fr_reason = 0, fr_credits = 2,
      fr_logical_frame_id = frame_id, fr_presented_frame_id = frame_id, fr_metrics = None,
      fr_byte_credits = 2\<rparr>"

definition answers :: "body list" where
  "answers = [ServerHello answer_hello, SurfaceReady answer_ready] @ map (FrameResult \<circ> answer_result) [1, 2, 3, 4]"

definition answer :: "nat \<Rightarrow> envelope" where
  "answer n = example_message 9 (of_nat (n + 1)) (answers ! n)"

definition answer_prost :: "envelope prost" where
  "answer_prost =
     \<lparr>prost_len = \<lambda>_. 1, prost_encode = \<lambda>e. [ucast (env_message_id e)],
      prost_decode = \<lambda>bs. case bs of [b] \<Rightarrow> if 0 < b \<and> unat b \<le> length answers then Some (answer (unat b - 1)) else None
        | _ \<Rightarrow> None\<rparr>"

definition answer_env :: client_env where
  "answer_env =
     \<lparr>ce_prost = answer_prost, ce_decoders = re_decoders example_env, ce_compress = \<lambda>_. None,
      ce_clock = \<lambda>_. 0, ce_write = \<lambda>_ _. True, ce_event = \<lambda>_ _. True\<rparr>"

definition answer_bytes :: "nat list \<Rightarrow> bytes" where
  "answer_bytes ns = concat (map (\<lambda>n. frame_bytes answer_prost (answer n)) ns)"

definition connected :: producer_client where
  "connected = snd (client_hello_step answer_env ''producer'' (replicate 16 3)
     (client_new (answer_bytes [0..<6]) (replicate 16 2)))"

definition opened :: "(producer_error, client_surface) result \<times> producer_client" where
  "opened = client_open_surface answer_env 2 1 1 False ''example'' connected"

text \<open>The state after the two replies, written out.\<close>

definition example_surface :: client_surface where
  "example_surface = \<lparr>cs_id = 1, cs_generation = 1, cs_width = 2, cs_height = 1, cs_max_frame_bytes = 2,
     cs_max_regions = 4, cs_max_inflight = 2, cs_max_inflight_bytes = 2\<rparr>"

definition ready_client :: "nat list \<Rightarrow> producer_client" where
  "ready_client results = (client_new (answer_bytes results) (replicate 16 2))
     \<lparr>cl_max_payload := 4096, cl_session_id := 9, cl_next_message := 3, cl_last_received := 2,
      cl_selected_minor := 1, cl_credits := 2, cl_credit_limit := 2, cl_byte_credits := 2,
      cl_byte_credit_limit := 2\<rparr>"

definition queue_example :: "bytes \<Rightarrow> bytes \<Rightarrow> producer_client \<Rightarrow> frame_report option client_step" where
  "queue_example previous pixels = queue_delta_frame_report answer_env example_surface previous pixels 1 TextUi"

section \<open>The claims on the example\<close>

definition queued :: "producer_client list" where
  "queued =
     (let c1 = snd (queue_example [0, 0] [0, 0] (ready_client [2, 3]));
          c2 = snd (queue_example [0, 0] [1, 0] c1);
          c3 = snd (queue_example [1, 0] [1, 1] c2);
          c4 = snd (queue_example [1, 1] [2, 2] c3)
      in [c1, c2, c3, c4])"

theorem producer_flow_invariant_witness:
  "fst opened = Inr example_surface \<and> length (cl_pending (snd opened)) \<le> 2 \<and>
   cl_credits (snd opened) \<le> cl_credit_limit (snd opened)"
proof -
  have "producer_step answer_env (client_new (answer_bytes [0..<6]) (replicate 16 2)) connected"
    unfolding connected_def by (rule step_hello)
  moreover have "producer_step answer_env connected (snd opened)"
    unfolding opened_def client_open_surface_def by (rule step_open)
  ultimately have "(producer_step answer_env)\<^sup>*\<^sup>* (client_new (answer_bytes [0..<6]) (replicate 16 2)) (snd opened)"
    by (meson converse_rtranclp_into_rtranclp rtranclp.rtrancl_refl)
  moreover have "fst opened = Inr example_surface" by code_simp
  ultimately show ?thesis using producer_flow_invariant by blast
qed

theorem queued_frames_reported_witness:
  "\<exists>reports. fst (queue_all answer_env example_surface 1 TextUi
     [([0, 0], [0, 0]), ([0, 0], [1, 0]), ([1, 0], [1, 1])] (ready_client [2, 3, 4])) = Inr reports \<and>
     length reports = 3 \<and> distinct (map report_id reports)"
proof -
  let ?frames = "[([0, 0], [0, 0]), ([0, 0], [1, 0]), ([1, 0], [1, 1])] :: (bytes \<times> bytes) list"
  let ?run = "queue_all answer_env example_surface 1 TextUi ?frames (ready_client [2, 3, 4])"
  obtain res c' where res: "?run = (res, c')" by (rule prod.exhaust)
  have "\<not> isl (fst ?run)" by code_simp
  then obtain reports where "res = Inr reports" unfolding res by (cases res) simp_all
  note run = res [unfolded this]
  have "flow_ok (ready_client [2, 3, 4])" "cl_pending (ready_client [2, 3, 4]) = []"
    "cl_completed (ready_client [2, 3, 4]) = []"
    by (simp_all add: ready_client_def client_new_def flow_ok_def pending_ids_def completed_ids_def)
  from queued_frames_reported [OF run this] show ?thesis unfolding run by simp
qed

theorem flush_completes_witness:
  "\<exists>reports. fst (flush_frame_reports answer_env
       ((ready_client [3, 4])\<lparr>cl_pending := [\<lparr>pf_frame_id = 3, pf_started = 0, pf_producer = no_metrics\<rparr>,
          \<lparr>pf_frame_id = 2, pf_started = 0, pf_producer = no_metrics\<rparr>]\<rparr>)) = Inr reports \<and>
     map rep_result reports = [answer_result 2, answer_result 3]"
proof -
  let ?c = "(ready_client [3, 4])\<lparr>cl_pending := [\<lparr>pf_frame_id = 3, pf_started = 0, pf_producer = no_metrics\<rparr>,
      \<lparr>pf_frame_id = 2, pf_started = 0, pf_producer = no_metrics\<rparr>]\<rparr>"
  have "list_all2 (carries_result answer_env ?c) [answer 3, answer 4] [answer_result 2, answer_result 3]"
    by (simp add: carries_result_def answer_def answers_def example_message_def ready_client_def client_new_def
        coded_def sendable_def answer_env_def answer_prost_def answer_result_def u32_max_def)
  moreover have "mset (map fr_frame_id [answer_result 2, answer_result 3]) = mset (pending_ids ?c)"
    by (simp add: answer_result_def pending_ids_def)
  moreover have "sorted_wrt (<) (cl_last_received ?c # map env_message_id [answer 3, answer 4])"
    by (simp add: ready_client_def answer_def example_message_def)
  moreover have "cl_input ?c = concat (map (frame_bytes (ce_prost answer_env)) [answer 3, answer 4]) @ []"
    by (simp add: ready_client_def client_new_def answer_bytes_def answer_env_def)
  ultimately obtain reports c' where "flush_frame_reports answer_env ?c = (Inr reports, c')"
    "map rep_result reports = map rep_result (cl_completed ?c) @ [answer_result 2, answer_result 3]"
    using flush_completes by blast
  then show ?thesis by (simp add: ready_client_def client_new_def)
qed

text \<open>
  Absolute byte credits race with a second delta in flight. The result of frame 2 was sent before
  frame 3 arrived, so it grants the whole limit; the client takes it as its credit although frame 3
  is still unanswered, and sends frame 4: three bytes are claimed under a limit of two.
\<close>

lemma byte_credits_overcommitted:
  "map pending_ids queued = [[], [2], [2, 3], [3, 4]] \<and>
   decoded_bytes_of (delta_regions_of answer_env example_surface [1, 0] [1, 1] 1 (queued ! 1)) +
   decoded_bytes_of (delta_regions_of answer_env example_surface [1, 1] [2, 2] 1 (queued ! 2)) >
     cl_byte_credit_limit (queued ! 3)"
proof -
  have "map pending_ids queued = [[], [2], [2, 3], [3, 4]] \<and> cl_byte_credit_limit (queued ! 3) = 2 \<and>
      \<not> cl_zstd (queued ! 1) \<and> \<not> cl_zstd (queued ! 2)"
    by code_simp
  moreover have "decoded_bytes_of (delta_regions_of answer_env example_surface [1, 0] [1, 1] 1 c) = 1"
    "decoded_bytes_of (delta_regions_of answer_env example_surface [1, 1] [2, 2] 1 c) = 2" if "\<not> cl_zstd c" for c
  proof -
    have "delta_regions_of env s a b t c = delta_regions_of env s a b t (ready_client [])" for env s a b t
      using that by (simp add: delta_regions_of_def ready_client_def client_new_def)
    moreover have "decoded_bytes_of (delta_regions_of answer_env example_surface [1, 0] [1, 1] 1 (ready_client [])) = 1 \<and>
        decoded_bytes_of (delta_regions_of answer_env example_surface [1, 1] [2, 2] 1 (ready_client [])) = 2"
      by code_simp
    ultimately show "decoded_bytes_of (delta_regions_of answer_env example_surface [1, 0] [1, 1] 1 c) = 1"
      "decoded_bytes_of (delta_regions_of answer_env example_surface [1, 1] [2, 2] 1 c) = 2" by simp_all
  qed
  ultimately show ?thesis by simp
qed

end
