(* ===== verification/Capture.thy ===== *)
theory Capture
  imports Touch_Gesture Pen "HOL-Library.Multiset"
begin

text \<open>
  The input capture of the receiver, \<open>crates/rm-display-receiver/src/input_capture.rs\<close>: a reader
  thread merges the reports of the touchscreen and the pen by time into a bounded queue that the
  display thread drains. The queue is guarded by a lock, so the two threads interleave at its
  operations; the state below is advanced by the actions of both. What a device read yields, the
  clock, and whether a read or a poll fails are arguments of the actions.
\<close>

section \<open>The queue\<close>

datatype report = Touch "pointer_event list" | PenRecords "pointer_record list" | Fault string

record captured_report =
  cr_time :: nat
  cr_report :: report

text \<open>The counter of the event descriptor matters only as readable or not.\<close>

record input_capture =
  ic_wake :: bool
  ic_stop :: bool
  ic_failed :: bool
  ic_queue :: "captured_report list"

definition capture_capacity :: nat where "capture_capacity = 8192"

definition capture_new :: input_capture where
  "capture_new = \<lparr>ic_wake = False, ic_stop = False, ic_failed = False, ic_queue = []\<rparr>"

definition capture_stop :: "input_capture \<Rightarrow> input_capture" where
  "capture_stop c = c\<lparr>ic_stop := True\<rparr>"

definition queue_exhausted :: string where
  "queue_exhausted =
     ''input queue exhausted; input disabled, existing ink retained; submit via host then reconnect''"

definition capture_push :: "captured_report \<Rightarrow> input_capture \<Rightarrow> bool \<times> input_capture" where
  "capture_push r c =
     (if ic_stop c then (False, c)
      else if length (ic_queue c) = capture_capacity
      then (False, c\<lparr>ic_failed := True,
        ic_queue := ic_queue c @ [\<lparr>cr_time = cr_time r, cr_report = Fault queue_exhausted\<rparr>],
        ic_stop := True, ic_wake := True\<rparr>)
      else (True, c\<lparr>ic_queue := ic_queue c @ [r], ic_wake := True\<rparr>))"

definition capture_drain :: "input_capture \<Rightarrow> captured_report list \<times> input_capture" where
  "capture_drain c = (ic_queue c, c\<lparr>ic_wake := False, ic_queue := []\<rparr>)"

section \<open>The two threads\<close>

text \<open>
  The reader's local data, the reports it has still to push in this round, and as history what was
  drained and what the devices yielded.
\<close>

record capture_run =
  cp_capture :: input_capture
  cp_pending :: "captured_report list"
  cp_ready :: "captured_report list"
  cp_done :: bool
  cp_drained :: "captured_report list"
  cp_read :: "captured_report list"

definition capture_start :: capture_run where
  "capture_start = \<lparr>cp_capture = capture_new, cp_pending = [], cp_ready = [], cp_done = False,
     cp_drained = [], cp_read = []\<rparr>"

text \<open>The end of the reader on an error.\<close>

definition reader_fails :: "nat \<Rightarrow> nat \<Rightarrow> string \<Rightarrow> capture_run \<Rightarrow> capture_run" where
  "reader_fails origin now message st =
     (let c = (cp_capture st)\<lparr>ic_failed := True\<rparr>;
          c1 = snd (capture_push \<lparr>cr_time = now - origin, cr_report = Fault message\<rparr> c)
      in st\<lparr>cp_capture := capture_stop c1, cp_ready := [], cp_done := True\<rparr>)"

text \<open>What a device hands out: its reports with their times, nothing for a missing device, or an error.\<close>

type_synonym 'a device_read = "(string, (nat \<times> 'a list) list) result"

definition pen_captured :: "nat \<times> pointer_record list \<Rightarrow> captured_report" where
  "pen_captured r = \<lparr>cr_time = fst r, cr_report = PenRecords (snd r)\<rparr>"

definition touch_captured :: "nat \<times> pointer_event list \<Rightarrow> captured_report" where
  "touch_captured r = \<lparr>cr_time = fst r, cr_report = Touch (snd r)\<rparr>"

text \<open>The head of the reader's loop: both devices are read after the watermark was taken.\<close>

definition read_devices ::
  "nat \<Rightarrow> nat \<Rightarrow> nat \<Rightarrow> pointer_record device_read \<Rightarrow> pointer_event device_read \<Rightarrow> capture_run \<Rightarrow> capture_run" where
  "read_devices origin watermark now pen touch st =
     (if ic_stop (cp_capture st) then st\<lparr>cp_done := True\<rparr>
      else case pen of
        Inl e \<Rightarrow> reader_fails origin now e st
      | Inr pens \<Rightarrow>
          let st1 = st\<lparr>cp_pending := cp_pending st @ map pen_captured pens, cp_read := cp_read st @ map pen_captured pens\<rparr>
          in case touch of
            Inl e \<Rightarrow> reader_fails origin now e st1
          | Inr touches \<Rightarrow>
              let pending = cp_pending st1 @ map touch_captured touches;
                  st2 = st1\<lparr>cp_pending := pending, cp_read := cp_read st1 @ map touch_captured touches\<rparr>
              in if length pending > capture_capacity
                 then reader_fails origin now ''input capture ordering buffer exhausted'' st2
                 else let sorted = sort_key cr_time pending
                      in st2\<lparr>cp_ready := takeWhile (\<lambda>r. cr_time r \<le> watermark) sorted,
                             cp_pending := dropWhile (\<lambda>r. cr_time r \<le> watermark) sorted\<rparr>)"

definition push_next :: "nat \<Rightarrow> capture_run \<Rightarrow> capture_run" where
  "push_next origin st =
     (case cp_ready st of
        [] \<Rightarrow> st
      | r # rs \<Rightarrow>
          if cr_time r < origin then st\<lparr>cp_ready := rs\<rparr>
          else case capture_push (r\<lparr>cr_time := cr_time r - origin\<rparr>) (cp_capture st) of
              (True, c) \<Rightarrow> st\<lparr>cp_capture := c, cp_ready := rs\<rparr>
            | (False, c) \<Rightarrow> st\<lparr>cp_capture := c, cp_ready := [], cp_done := True\<rparr>)"

datatype capture_action =
  ReadDevices nat nat "pointer_record device_read" "pointer_event device_read"
  | PushNext | PollFailed nat string | DrainQueue | StopCapture

text \<open>An action of the reader that is not its next one changes nothing.\<close>

fun capture_act :: "nat \<Rightarrow> capture_action \<Rightarrow> capture_run \<Rightarrow> capture_run" where
  "capture_act origin (ReadDevices watermark now pen touch) st =
     (if cp_done st \<or> cp_ready st \<noteq> [] then st else read_devices origin watermark now pen touch st)"
| "capture_act origin PushNext st = (if cp_done st then st else push_next origin st)"
| "capture_act origin (PollFailed now message) st =
     (if cp_done st \<or> cp_ready st \<noteq> [] then st else reader_fails origin now message st)"
| "capture_act origin DrainQueue st =
     (case capture_drain (cp_capture st) of
        (reports, c) \<Rightarrow> st\<lparr>cp_capture := c, cp_drained := cp_drained st @ reports\<rparr>)"
| "capture_act origin StopCapture st = st\<lparr>cp_capture := capture_stop (cp_capture st)\<rparr>"

definition capture_acts :: "nat \<Rightarrow> capture_action list \<Rightarrow> capture_run \<Rightarrow> capture_run" where
  "capture_acts origin = fold (capture_act origin)"

section \<open>Order\<close>

text \<open>
  The clock is monotone, and what a device reports with a time before an earlier watermark was
  handed out by the read that followed that watermark.
\<close>

definition times_from :: "nat \<Rightarrow> (string, (nat \<times> 'a list) list) result \<Rightarrow> bool" where
  "times_from lower r \<longleftrightarrow> (case r of Inl _ \<Rightarrow> True | Inr rs \<Rightarrow> list_all (\<lambda>(t, _). lower \<le> t) rs)"

fun orderly_acts :: "nat \<Rightarrow> capture_action list \<Rightarrow> bool" where
  "orderly_acts lower [] \<longleftrightarrow> True"
| "orderly_acts lower (ReadDevices watermark now pen touch # acts) \<longleftrightarrow>
     lower \<le> watermark \<and> watermark \<le> now \<and> times_from lower pen \<and> times_from lower touch \<and> orderly_acts watermark acts"
| "orderly_acts lower (PollFailed now message # acts) \<longleftrightarrow> lower \<le> now \<and> orderly_acts lower acts"
| "orderly_acts lower (a # acts) \<longleftrightarrow> orderly_acts lower acts"

definition is_fault :: "captured_report \<Rightarrow> bool" where
  "is_fault r \<longleftrightarrow> (\<exists>message. cr_report r = Fault message)"

text \<open>What the display thread has been given and will be given.\<close>

definition delivered :: "capture_run \<Rightarrow> captured_report list" where
  "delivered st = cp_drained st @ ic_queue (cp_capture st)"

text \<open>A report as it is delivered: its time counts from the connection's origin.\<close>

definition since :: "nat \<Rightarrow> captured_report list \<Rightarrow> captured_report list" where
  "since origin rs = map (\<lambda>r. r\<lparr>cr_time := cr_time r - origin\<rparr>) (filter (\<lambda>r. origin \<le> cr_time r) rs)"

definition faults_last :: "captured_report list \<Rightarrow> bool" where
  "faults_last rs \<longleftrightarrow> list_all (\<lambda>r. \<not> is_fault r) (butlast rs)"

text \<open>
  The invariant of the two threads; \<open>mark\<close> is the last watermark. While the capture is running,
  everything read is delivered or still on its way.
\<close>

definition capture_inv :: "nat \<Rightarrow> nat \<Rightarrow> capture_run \<Rightarrow> bool" where
  "capture_inv origin mark st \<longleftrightarrow>
     (let c = cp_capture st; todo = cp_ready st @ cp_pending st in
      sorted (map cr_time (delivered st @ since origin (cp_ready st))) \<and>
      sorted (map cr_time (cp_ready st)) \<and>
      list_all (\<lambda>r. cr_time r \<le> mark) (cp_ready st) \<and> list_all (\<lambda>r. mark \<le> cr_time r) (cp_pending st) \<and>
      list_all (\<lambda>r. \<not> is_fault r) todo \<and> faults_last (delivered st) \<and>
      (\<not> ic_stop c \<longrightarrow> list_all (\<lambda>r. \<not> is_fault r \<and> cr_time r \<le> mark - origin) (delivered st) \<and> \<not> ic_failed c \<and>
         length (ic_queue c) \<le> capture_capacity) \<and>
      length (ic_queue c) \<le> capture_capacity + 1 \<and> (ic_queue c \<noteq> [] \<longrightarrow> ic_wake c) \<and>
      (\<not> ic_stop c \<longrightarrow> mset (delivered st) + mset (since origin todo) = mset (since origin (cp_read st))))"

lemma since_simps [simp]: "since origin [] = []" "since origin (rs @ rs') = since origin rs @ since origin rs'"
  "since origin (r # rs) = (if origin \<le> cr_time r then [r\<lparr>cr_time := cr_time r - origin\<rparr>] else []) @ since origin rs"
  by (simp_all add: since_def)

lemma mset_since: "mset (since origin rs) = image_mset (\<lambda>r. r\<lparr>cr_time := cr_time r - origin\<rparr>) (filter_mset (\<lambda>r. origin \<le> cr_time r) (mset rs))"
  by (simp add: since_def)

lemma is_fault_simps [simp]: "is_fault (r\<lparr>cr_time := t\<rparr>) = is_fault r" "is_fault \<lparr>cr_time = t, cr_report = Fault m\<rparr>"
  "\<not> is_fault (pen_captured p)" "\<not> is_fault (touch_captured q)"
  by (auto simp: is_fault_def pen_captured_def touch_captured_def)

lemma faults_last_snoc: "list_all (\<lambda>r. \<not> is_fault r) rs \<Longrightarrow> faults_last (rs @ [r])"
  by (simp add: faults_last_def)

lemma faults_last_none: "list_all (\<lambda>r. \<not> is_fault r) rs \<Longrightarrow> faults_last rs"
  by (auto simp: faults_last_def list_all_iff dest: in_set_butlastD)

lemma sorted_drop_above:
  assumes "sorted (map f xs)" "x \<in> set (dropWhile (\<lambda>r. f r \<le> (w :: nat)) xs)"
  shows "w \<le> f x"
  using assms by (induction xs) (fastforce split: if_splits)+

text \<open>The parts of the invariant.\<close>

lemma capture_invD:
  assumes "capture_inv origin mark st"
  shows "sorted (map cr_time (delivered st @ since origin (cp_ready st)))" "sorted (map cr_time (cp_ready st))"
    "\<And>r. r \<in> set (cp_ready st) \<Longrightarrow> cr_time r \<le> mark" "\<And>r. r \<in> set (cp_pending st) \<Longrightarrow> mark \<le> cr_time r"
    "\<And>r. r \<in> set (cp_ready st) \<union> set (cp_pending st) \<Longrightarrow> \<not> is_fault r" "faults_last (delivered st)"
    "\<And>r. \<not> ic_stop (cp_capture st) \<Longrightarrow> r \<in> set (delivered st) \<Longrightarrow> \<not> is_fault r \<and> cr_time r \<le> mark - origin"
    "\<not> ic_stop (cp_capture st) \<Longrightarrow> \<not> ic_failed (cp_capture st) \<and> length (ic_queue (cp_capture st)) \<le> capture_capacity"
    "length (ic_queue (cp_capture st)) \<le> capture_capacity + 1"
    "ic_queue (cp_capture st) \<noteq> [] \<Longrightarrow> ic_wake (cp_capture st)"
    "\<not> ic_stop (cp_capture st) \<Longrightarrow>
      mset (delivered st) + mset (since origin (cp_ready st @ cp_pending st)) = mset (since origin (cp_read st))"
  using assms unfolding capture_inv_def Let_def list_all_iff by auto

lemma capture_invI:
  assumes "sorted (map cr_time (delivered st @ since origin (cp_ready st)))" "sorted (map cr_time (cp_ready st))"
    "\<And>r. r \<in> set (cp_ready st) \<Longrightarrow> cr_time r \<le> mark" "\<And>r. r \<in> set (cp_pending st) \<Longrightarrow> mark \<le> cr_time r"
    "\<And>r. r \<in> set (cp_ready st) \<union> set (cp_pending st) \<Longrightarrow> \<not> is_fault r" "faults_last (delivered st)"
    "\<And>r. \<not> ic_stop (cp_capture st) \<Longrightarrow> r \<in> set (delivered st) \<Longrightarrow> \<not> is_fault r \<and> cr_time r \<le> mark - origin"
    "\<not> ic_stop (cp_capture st) \<Longrightarrow> \<not> ic_failed (cp_capture st) \<and> length (ic_queue (cp_capture st)) \<le> capture_capacity"
    "length (ic_queue (cp_capture st)) \<le> capture_capacity + 1"
    "ic_queue (cp_capture st) \<noteq> [] \<Longrightarrow> ic_wake (cp_capture st)"
    "\<not> ic_stop (cp_capture st) \<Longrightarrow>
      mset (delivered st) + mset (since origin (cp_ready st @ cp_pending st)) = mset (since origin (cp_read st))"
  shows "capture_inv origin mark st"
  using assms unfolding capture_inv_def Let_def list_all_iff by auto

lemma delivered_push:
  "delivered (st\<lparr>cp_capture := snd (capture_push r (cp_capture st))\<rparr>) =
     (if ic_stop (cp_capture st) then delivered st
      else if length (ic_queue (cp_capture st)) = capture_capacity
      then delivered st @ [\<lparr>cr_time = cr_time r, cr_report = Fault queue_exhausted\<rparr>] else delivered st @ [r])"
  by (simp add: delivered_def capture_push_def)

lemma push_outcome: "fst (capture_push r c) \<longleftrightarrow> \<not> ic_stop (snd (capture_push r c))"
  by (simp add: capture_push_def)

text \<open>Pushing an accepted report, and the fault that ends the capture.\<close>

lemma push_inv:
  assumes "capture_inv origin mark st" and ready: "cp_ready st = r # rs"
  shows "capture_inv origin mark (push_next origin st)"
proof (cases "cr_time r < origin")
  case True
  note inv = capture_invD [OF assms(1)]
  have [simp]: "delivered (st\<lparr>cp_ready := rs\<rparr>) = delivered st" by (simp add: delivered_def)
  show ?thesis
    using inv True by (intro capture_invI) (auto simp: push_next_def ready)
next
  case False
  note inv = capture_invD [OF assms(1)]
  let ?r = "r\<lparr>cr_time := cr_time r - origin\<rparr>" and ?c = "cp_capture st"
  let ?push = "capture_push ?r ?c"
  obtain st' where st': "st' = st\<lparr>cp_capture := snd ?push, cp_ready := if fst ?push then rs else [],
    cp_done := cp_done st \<or> \<not> fst ?push\<rparr>" by simp
  have step: "push_next origin st = st'"
    using False by (cases ?push) (auto simp: push_next_def ready st')
  have d: "delivered st' = (if ic_stop ?c then delivered st else if length (ic_queue ?c) = capture_capacity
      then delivered st @ [\<lparr>cr_time = cr_time r - origin, cr_report = Fault queue_exhausted\<rparr>] else delivered st @ [?r])"
    using delivered_push [where st = st and r = ?r] by (simp add: delivered_def st')
  have stop: "ic_stop (cp_capture st') \<longleftrightarrow> ic_stop ?c \<or> length (ic_queue ?c) = capture_capacity"
    and left: "cp_ready st' = (if ic_stop (cp_capture st') then [] else rs)" "cp_pending st' = cp_pending st" "cp_read st' = cp_read st"
    and queue: "length (ic_queue (cp_capture st')) \<le> capture_capacity + 1" "ic_queue (cp_capture st') \<noteq> [] \<Longrightarrow> ic_wake (cp_capture st')"
      "\<not> ic_stop (cp_capture st') \<Longrightarrow> \<not> ic_failed (cp_capture st') \<and> length (ic_queue (cp_capture st')) \<le> capture_capacity"
    using inv(8-10) by (auto simp: st' capture_push_def split: if_splits)
  have before: "sorted (map cr_time (delivered st))" "\<And>x. x \<in> set (delivered st) \<Longrightarrow> cr_time x \<le> cr_time r - origin"
    "sorted (map cr_time (delivered st @ ?r # since origin rs))"
    using inv(1) False by (auto simp: ready sorted_append)
  have r: "\<not> is_fault r" "cr_time r - origin \<le> mark - origin" using inv(3,5) ready by (auto intro: diff_le_mono)
  have clean: "list_all (\<lambda>r. \<not> is_fault r) (delivered st)" if "\<not> ic_stop ?c" using inv(7) [OF that] by (simp add: list_all_iff)
  show ?thesis unfolding step
  proof (rule capture_invI)
    show "sorted (map cr_time (delivered st' @ since origin (cp_ready st')))"
      using before by (auto simp: d stop left sorted_append)
    show "faults_last (delivered st')"
      using inv(6) clean faults_last_snoc by (simp add: d)
    show "mset (delivered st') + mset (since origin (cp_ready st' @ cp_pending st')) = mset (since origin (cp_read st'))"
      if "\<not> ic_stop (cp_capture st')"
      using that inv(11) False by (auto simp: d stop left ready)
    show "\<not> is_fault x \<and> cr_time x \<le> mark - origin" if "\<not> ic_stop (cp_capture st')" "x \<in> set (delivered st')" for x
      using that inv(7) r by (auto simp: d stop)
  qed (use inv(2-5) ready queue in \<open>auto simp: left split: if_splits\<close>)
qed

lemma fails_inv:
  assumes "capture_inv origin mark st" and "mark \<le> now" and "cp_ready st = []"
    and fresh: "\<And>r. r \<in> set fresh \<Longrightarrow> mark \<le> cr_time r \<and> \<not> is_fault r"
  shows "capture_inv origin mark (reader_fails origin now message
    (st\<lparr>cp_pending := cp_pending st @ fresh, cp_read := reads\<rparr>))"
proof -
  note inv = capture_invD [OF assms(1)]
  let ?c = "cp_capture st"
  obtain st' where st': "st' = reader_fails origin now message (st\<lparr>cp_pending := cp_pending st @ fresh, cp_read := reads\<rparr>)" by simp
  obtain why where d: "delivered st' = (if ic_stop ?c then delivered st
      else delivered st @ [\<lparr>cr_time = now - origin, cr_report = Fault why\<rparr>])"
    by (fastforce simp: st' delivered_def reader_fails_def capture_push_def capture_stop_def Let_def)
  have "sorted (map cr_time (delivered st))" using inv(1) by (simp add: sorted_append)
  moreover have "cr_time x \<le> now - origin" if "\<not> ic_stop ?c" "x \<in> set (delivered st)" for x
    using inv(7) [OF that] diff_le_mono [OF assms(2), of origin] by linarith
  ultimately have ordered: "sorted (map cr_time (delivered st'))" by (auto simp: d sorted_append)
  have "list_all (\<lambda>r. \<not> is_fault r) (delivered st)" if "\<not> ic_stop ?c" using inv(7) [OF that] by (simp add: list_all_iff)
  then have last: "faults_last (delivered st')" using inv(6) faults_last_snoc by (simp add: d)
  have fields: "cp_ready st' = []" "cp_pending st' = cp_pending st @ fresh" "ic_stop (cp_capture st')"
    "length (ic_queue (cp_capture st')) \<le> capture_capacity + 1" "ic_queue (cp_capture st') \<noteq> [] \<Longrightarrow> ic_wake (cp_capture st')"
    using inv(8-10) by (auto simp: st' reader_fails_def capture_push_def capture_stop_def Let_def split: if_splits)
  show ?thesis unfolding st' [symmetric]
    by (rule capture_invI) (use ordered last fields inv(4,5) fresh in auto)
qed

lemma sorted_since: "sorted (map cr_time rs) \<Longrightarrow> sorted (map cr_time (since origin rs))"
  by (induction rs) (auto simp: since_def intro: diff_le_mono)

lemma set_since: "x \<in> set (since origin rs) \<Longrightarrow> \<exists>r\<in>set rs. cr_time x = cr_time r - origin"
  by (auto simp: since_def)

text \<open>A round of reading: the reports up to the watermark become ready, in order.\<close>

lemma gather_inv:
  assumes "capture_inv origin mark st" and "cp_ready st = []" "mark \<le> watermark" "\<not> ic_stop (cp_capture st)"
    and fresh: "\<And>r. r \<in> set fresh \<Longrightarrow> mark \<le> cr_time r \<and> \<not> is_fault r"
    and merged: "merged = sort_key cr_time (cp_pending st @ fresh)"
  shows "capture_inv origin watermark (st\<lparr>cp_read := cp_read st @ fresh, cp_ready := takeWhile (\<lambda>r. cr_time r \<le> watermark) merged,
    cp_pending := dropWhile (\<lambda>r. cr_time r \<le> watermark) merged\<rparr>)"
proof -
  note inv = capture_invD [OF assms(1)]
  let ?early = "takeWhile (\<lambda>r. cr_time r \<le> watermark) merged" and ?late = "dropWhile (\<lambda>r. cr_time r \<le> watermark) merged"
  obtain st' where st': "st' = st\<lparr>cp_read := cp_read st @ fresh, cp_ready := ?early, cp_pending := ?late\<rparr>" by simp
  have same: "delivered st' = delivered st" "cp_capture st' = cp_capture st" "cp_ready st' = ?early" "cp_pending st' = ?late"
    "cp_read st' = cp_read st @ fresh" by (simp_all add: st' delivered_def)
  have parts: "?early @ ?late = merged" by simp
  have order: "sorted (map cr_time merged)" by (simp add: merged)
  then have early: "sorted (map cr_time ?early)"
    using parts by (metis map_append sorted_append)
  have all: "mark \<le> cr_time r \<and> \<not> is_fault r" if "r \<in> set ?early \<union> set ?late" for r
  proof -
    have "r \<in> set merged" using that parts by (metis set_append)
    then show ?thesis using inv(4,5) fresh by (auto simp: merged)
  qed
  have tail: "watermark \<le> cr_time r" if "r \<in> set ?late" for r
    using sorted_drop_above [OF order that] .
  have low: "mark - origin \<le> cr_time x" if "x \<in> set (since origin ?early)" for x
    using set_since [OF that] all by (metis UnI1 diff_le_mono)
  have bag: "mset (since origin (?early @ ?late)) = mset (since origin (cp_pending st)) + mset (since origin fresh)"
    unfolding parts mset_since merged by simp
  show ?thesis unfolding st' [symmetric]
  proof (rule capture_invI)
    show "sorted (map cr_time (delivered st' @ since origin (cp_ready st')))"
    proof -
      have "cr_time x \<le> cr_time y" if "x \<in> set (delivered st)" "y \<in> set (since origin ?early)" for x y
        using inv(7) [OF assms(4) that(1)] low [OF that(2)] by linarith
      then show ?thesis using inv(1) sorted_since [OF early] by (simp add: same sorted_append)
    qed
    show "cr_time r \<le> watermark" if "r \<in> set (cp_ready st')" for r
      using that by (auto simp: same dest: set_takeWhileD)
    show "\<not> is_fault r \<and> cr_time r \<le> watermark - origin"
      if "\<not> ic_stop (cp_capture st')" "r \<in> set (delivered st')" for r
      using inv(7) [of r] that diff_le_mono [OF assms(3), of origin] by (simp add: same)
    show "mset (delivered st') + mset (since origin (cp_ready st' @ cp_pending st')) = mset (since origin (cp_read st'))"
      if "\<not> ic_stop (cp_capture st')"
      using inv(11) that bag by (simp add: same assms(2) add_ac)
  qed (use inv(6,8-10) early all tail in \<open>auto simp: same\<close>)
qed

lemma read_inv:
  assumes "capture_inv origin mark st" and "cp_ready st = []" "mark \<le> watermark" "watermark \<le> now"
    and "times_from mark pen" "times_from mark touch"
  shows "capture_inv origin (if ic_stop (cp_capture (read_devices origin watermark now pen touch st)) then mark else watermark)
    (read_devices origin watermark now pen touch st)"
proof (cases "ic_stop (cp_capture st)")
  case True
  have "delivered (st\<lparr>cp_done := True\<rparr>) = delivered st" by (simp add: delivered_def)
  then show ?thesis using True assms(1) by (simp add: read_devices_def capture_inv_def Let_def)
next
  case False
  have fails: "capture_inv origin mark (reader_fails origin now message
      (st\<lparr>cp_pending := cp_pending st @ fresh, cp_read := reads\<rparr>))"
    if "\<And>r. r \<in> set fresh \<Longrightarrow> mark \<le> cr_time r \<and> \<not> is_fault r" for message fresh reads
    using that assms(1-4) by (intro fails_inv) simp_all
  have ended: "ic_stop (cp_capture (reader_fails origin now message s))" for message s
    by (simp add: reader_fails_def capture_stop_def Let_def)
  have pens: "mark \<le> cr_time r \<and> \<not> is_fault r" if "pen = Inr ps" "r \<in> pen_captured ` set ps" for ps r
    using assms(5) that by (auto simp: times_from_def list_all_iff pen_captured_def is_fault_def)
  have touches: "mark \<le> cr_time r \<and> \<not> is_fault r" if "touch = Inr ts" "r \<in> touch_captured ` set ts" for ts r
    using assms(6) that by (auto simp: times_from_def list_all_iff touch_captured_def is_fault_def)
  show ?thesis
  proof (cases pen)
    case (Inl e)
    then show ?thesis using False fails [of "[]" e "cp_read st"] ended by (simp add: read_devices_def)
  next
    case pen: (Inr ps)
    show ?thesis
    proof (cases touch)
      case (Inl e)
      then show ?thesis
        using False pen pens fails [of "map pen_captured ps" e] ended by (simp add: read_devices_def Let_def)
    next
      case touch: (Inr ts)
      let ?fresh = "map pen_captured ps @ map touch_captured ts"
      have fresh: "mark \<le> cr_time r \<and> \<not> is_fault r" if "r \<in> set ?fresh" for r
        using that pens [OF pen] touches [OF touch] by auto
      show ?thesis
        using False pen touch ended fails [where fresh = ?fresh, OF fresh]
          gather_inv [where fresh = ?fresh, OF assms(1-3) False fresh refl]
        by (simp add: read_devices_def Let_def)
    qed
  qed
qed

lemma orderly_acts_lower: "orderly_acts mark acts \<Longrightarrow> mark' \<le> mark \<Longrightarrow> orderly_acts mark' acts"
proof (induction mark acts rule: orderly_acts.induct)
  case (2 lower watermark now pen touch acts)
  then show ?case by (cases pen; cases touch) (auto simp: times_from_def list_all_iff)
qed auto

lemma act_inv:
  assumes "capture_inv origin mark st" and "orderly_acts mark (a # acts)"
  shows "\<exists>mark'. capture_inv origin mark' (capture_act origin a st) \<and> orderly_acts mark' acts"
proof (cases a)
  case (ReadDevices watermark now pen touch)
  then have o: "mark \<le> watermark" "watermark \<le> now" "times_from mark pen" "times_from mark touch"
    "orderly_acts watermark acts" using assms(2) by simp_all
  have "orderly_acts mark acts" using orderly_acts_lower [OF o(5,1)] .
  then show ?thesis
    using assms(1) read_inv [OF assms(1) _ o(1-4)] o(5) ReadDevices
    by (cases "cp_done st \<or> cp_ready st \<noteq> []") (auto split: if_splits)
next
  case PushNext
  have "capture_inv origin mark (push_next origin st)"
    using assms(1) push_inv by (cases "cp_ready st") (auto simp: push_next_def)
  then show ?thesis using PushNext assms by auto
next
  case (PollFailed now message)
  then have "capture_inv origin mark (reader_fails origin now message st)" if "cp_ready st = []"
    using fails_inv [OF assms(1) _ that, of now "[]" message "cp_read st"] assms(2) by simp
  then show ?thesis using PollFailed assms by auto
next
  case DrainQueue
  have "delivered (capture_act origin DrainQueue st) = delivered st" by (simp add: delivered_def capture_drain_def)
  then have "capture_inv origin mark (capture_act origin DrainQueue st)"
    using assms(1) by (simp add: capture_inv_def capture_drain_def Let_def)
  then show ?thesis using DrainQueue assms(2) by auto
next
  case StopCapture
  have "delivered (capture_act origin StopCapture st) = delivered st" by (simp add: delivered_def capture_stop_def)
  then have "capture_inv origin mark (capture_act origin StopCapture st)"
    using assms(1) by (simp add: capture_inv_def capture_stop_def Let_def)
  then show ?thesis using StopCapture assms(2) by auto
qed

lemma acts_inv: "capture_inv origin mark st \<Longrightarrow> orderly_acts mark acts \<Longrightarrow> \<exists>mark'. capture_inv origin mark' (capture_acts origin acts st)"
proof (induction acts arbitrary: mark st)
  case (Cons a acts)
  from act_inv [OF Cons.prems] show ?case using Cons.IH by (auto simp: capture_acts_def)
qed (auto simp: capture_acts_def)

text \<open>
  Claim C15. However the reader and the display thread interleave, the display thread gets the
  reports of both devices in the order of their times; the queue is bounded; a report in the queue
  always has its wake-up pending; a fault is the last thing delivered; and while the capture is
  running no report that a device yielded since the connection's start is lost or duplicated.
\<close>

theorem capture_delivers_in_order:
  assumes "orderly_acts 0 acts" and "st = capture_acts origin acts capture_start"
  shows "sorted (map cr_time (delivered st)) \<and> length (ic_queue (cp_capture st)) \<le> capture_capacity + 1 \<and>
    (ic_queue (cp_capture st) \<noteq> [] \<longrightarrow> ic_wake (cp_capture st)) \<and> faults_last (delivered st) \<and>
    (\<not> ic_stop (cp_capture st) \<longrightarrow> \<not> ic_failed (cp_capture st) \<and>
       mset (delivered st) + mset (since origin (cp_ready st @ cp_pending st)) = mset (since origin (cp_read st)))"
proof -
  have "capture_inv origin 0 capture_start"
    by (simp add: capture_inv_def capture_start_def capture_new_def delivered_def faults_last_def)
  from acts_inv [OF this assms(1)] obtain mark where inv: "capture_inv origin mark st" unfolding assms(2) by blast
  note inv = capture_invD [OF inv]
  show ?thesis using inv(1,6,8-11) by (auto simp: sorted_append)
qed

text \<open>A touch report older than a pen report read with it, one kept for the next round, and a drain in between.\<close>

definition example_acts :: "capture_action list" where
  "example_acts =
     [ReadDevices 20 21 (Inr [(12, [])]) (Inr [(10, [\<lparr>pe_phase = Down, pe_contact = 1, pe_x = 3, pe_y = 4\<rparr>]), (25, [])]),
      PushNext, DrainQueue, PushNext, ReadDevices 30 31 (Inr [(22, [])]) (Inr []), PushNext, PushNext]"

theorem capture_delivers_in_order_witness:
  "map cr_time (delivered (capture_acts 5 example_acts capture_start)) = [5, 7, 17, 20] \<and>
   mset (delivered (capture_acts 5 example_acts capture_start)) =
     mset (since 5 (cp_read (capture_acts 5 example_acts capture_start)))"
proof -
  let ?st = "capture_acts 5 example_acts capture_start"
  have "orderly_acts 0 example_acts" by code_simp
  note delivers = capture_delivers_in_order [OF this refl, of 5]
  have "map cr_time (delivered ?st) = [5, 7, 17, 20] \<and> \<not> ic_stop (cp_capture ?st) \<and> cp_ready ?st @ cp_pending ?st = []"
    by (simp add: example_acts_def capture_acts_def capture_start_def capture_new_def read_devices_def push_next_def
        capture_push_def capture_drain_def capture_capacity_def delivered_def pen_captured_def touch_captured_def)
  then show ?thesis using delivers by simp
qed

end
