(* ===== verification/Pairing.thy ===== *)
theory Pairing
  imports Local_Menu "HOL-Library.List_Lexorder" "HOL-Library.Product_Lexorder" "HOL-Library.Char_ord"
begin

text \<open>
  The pairing offer of the receiver, \<open>crates/rm-display-receiver/src/pairing.rs\<close>: which host
  addresses are advertised and in which order, the text of the offer, and its picture. The interfaces
  are what the operating system lists; the QR encoder is a parameter that gives the modules.
\<close>

section \<open>Addresses\<close>

type_synonym ipv4 = "u8 \<times> u8 \<times> u8 \<times> u8"

text \<open>An IPv6 address is its eight segments.\<close>

datatype ip_addr = V4 ipv4 | V6 "nat list"

record interface_ipv4 =
  if_name :: string
  if_address :: ipv4
  if_is_up :: bool

fun ipv4_unspecified :: "ipv4 \<Rightarrow> bool" where
  "ipv4_unspecified (a, b, c, d) \<longleftrightarrow> a = 0 \<and> b = 0 \<and> c = 0 \<and> d = 0"

fun ipv4_loopback :: "ipv4 \<Rightarrow> bool" where
  "ipv4_loopback (a, b, c, d) \<longleftrightarrow> a = 127"

fun ipv4_link_local :: "ipv4 \<Rightarrow> bool" where
  "ipv4_link_local (a, b, c, d) \<longleftrightarrow> a = 169 \<and> b = 254"

fun ipv4_multicast :: "ipv4 \<Rightarrow> bool" where
  "ipv4_multicast (a, b, c, d) \<longleftrightarrow> 224 \<le> a \<and> a \<le> 239"

fun ipv4_private :: "ipv4 \<Rightarrow> bool" where
  "ipv4_private (a, b, c, d) \<longleftrightarrow> a = 10 \<or> a = 172 \<and> 16 \<le> b \<and> b \<le> 31 \<or> a = 192 \<and> b = 168"

fun ip_unspecified :: "ip_addr \<Rightarrow> bool" where
  "ip_unspecified (V4 a) = ipv4_unspecified a"
| "ip_unspecified (V6 segments) = list_all (\<lambda>s. s = 0) segments"

fun ipv4_text :: "ipv4 \<Rightarrow> string" where
  "ipv4_text (a, b, c, d) = decimal_nat (unat a) @ ''.'' @ decimal_nat (unat b) @ ''.'' @
     decimal_nat (unat c) @ ''.'' @ decimal_nat (unat d)"

text \<open>
  The standard library prints an IPv6 address with its first longest run of at least two zero
  segments as two colons, and a mapped IPv4 address in the dotted form.
\<close>

fun hex_nat :: "nat \<Rightarrow> string" where
  "hex_nat n = (if n < 16 then [hex_digit n] else hex_nat (n div 16) @ [hex_digit (n mod 16)])"

declare hex_nat.simps [simp del]

fun joined :: "string \<Rightarrow> string list \<Rightarrow> string" where
  "joined sep [] = []"
| "joined sep [x] = x"
| "joined sep (x # y # xs) = x @ sep @ joined sep (y # xs)"

definition zero_run :: "nat list \<Rightarrow> nat \<Rightarrow> nat" where
  "zero_run segments i = length (takeWhile (\<lambda>s. s = 0) (drop i segments))"

definition longest_zero_run :: "nat list \<Rightarrow> nat \<times> nat" where
  "longest_zero_run segments =
     fold (\<lambda>i best. if zero_run segments i > snd best then (i, zero_run segments i) else best)
       [0..<length segments] (0, 0)"

definition ipv6_text :: "nat list \<Rightarrow> string" where
  "ipv6_text segments =
     (if take 6 segments = [0, 0, 0, 0, 0, 65535]
      then ''::ffff:'' @ joined ''.'' (map decimal_nat
        [segments ! 6 div 256, segments ! 6 mod 256, segments ! 7 div 256, segments ! 7 mod 256])
      else case longest_zero_run segments of (start, len) \<Rightarrow>
        if len > 1
        then joined '':'' (map hex_nat (take start segments)) @ ''::'' @
          joined '':'' (map hex_nat (drop (start + len) segments))
        else joined '':'' (map hex_nat segments))"

fun ip_text :: "ip_addr \<Rightarrow> string" where
  "ip_text (V4 a) = ipv4_text a"
| "ip_text (V6 segments) = ipv6_text segments"

section \<open>Choosing the hosts\<close>

definition max_advertised_hosts :: nat where "max_advertised_hosts = 4"
definition usb_gadget :: ipv4 where "usb_gadget = (10, 11, 99, 1)"

definition interface_host_rank :: "interface_ipv4 \<Rightarrow> nat \<times> nat \<times> string \<times> string" where
  "interface_host_rank i =
     (if if_name i = ''wlan0'' then 0 else if if_name i = ''usb0'' then 1 else 2,
      if ipv4_private (if_address i) \<and> if_address i \<noteq> usb_gadget then 0
      else if if_address i = usb_gadget then 1 else 2,
      if_name i, ipv4_text (if_address i))"

definition eligible :: "interface_ipv4 \<Rightarrow> bool" where
  "eligible i \<longleftrightarrow> if_is_up i \<and> \<not> ipv4_unspecified (if_address i) \<and> \<not> ipv4_loopback (if_address i) \<and>
     \<not> ipv4_link_local (if_address i) \<and> \<not> ipv4_multicast (if_address i)"

text \<open>\<open>retain\<close> with the set of addresses seen so far.\<close>

fun retain_new :: "ipv4 set \<Rightarrow> interface_ipv4 list \<Rightarrow> interface_ipv4 list" where
  "retain_new seen [] = []"
| "retain_new seen (i # is) =
     (if if_address i \<in> seen then retain_new seen is else i # retain_new (insert (if_address i) seen) is)"

definition select_advertised_hosts :: "ip_addr \<Rightarrow> interface_ipv4 list \<Rightarrow> ip_addr list" where
  "select_advertised_hosts bound addresses =
     (if \<not> ip_unspecified bound then [bound]
      else
        let hosts = take max_advertised_hosts (retain_new {} (sort_key interface_host_rank (filter eligible addresses)))
        in if hosts = [] then [V4 usb_gadget] else map (\<lambda>i. V4 (if_address i)) hosts)"

section \<open>The offer\<close>

datatype security_mode = Plaintext | Psk bytes

definition pairing_uri :: "security_mode \<Rightarrow> bytes \<Rightarrow> ip_addr \<Rightarrow> nat \<Rightarrow> interface_ipv4 list \<Rightarrow> string" where
  "pairing_uri security server_id bound port addresses =
     ''rm-display://pair/v2?'' @
     joined ''&'' (map (\<lambda>host. ''host='' @ ip_text host) (select_advertised_hosts bound addresses)) @
     ''&port='' @ decimal_nat port @
     (case security of Plaintext \<Rightarrow> ''&security=plain'' | Psk key \<Rightarrow> ''&security=psk&psk='' @ hex_encode key) @
     ''&server='' @ hex_encode server_id"

section \<open>The picture\<close>

definition quiet_modules :: nat where "quiet_modules = 4"

record qr_code =
  qr_modules :: nat
  qr_dark :: "nat \<Rightarrow> nat \<Rightarrow> bool"

datatype pairing_error = PairingEncode | DisplayTooSmall | PairingSurface surface_error

definition draw_module :: "nat \<Rightarrow> nat \<Rightarrow> nat \<Rightarrow> nat \<Rightarrow> bytes \<Rightarrow> bytes" where
  "draw_module width scale x y pixels = fold (fill_row width x scale 0) [y..<y + scale] pixels"

definition draw_modules :: "qr_code \<Rightarrow> nat \<Rightarrow> nat \<Rightarrow> nat \<Rightarrow> nat \<Rightarrow> bytes \<Rightarrow> bytes" where
  "draw_modules code width scale left upper =
     fold (\<lambda>module_y. fold (\<lambda>module_x pixels.
         if qr_dark code module_x module_y
         then draw_module width scale (left + (module_x + quiet_modules) * scale)
           (upper + (module_y + quiet_modules) * scale) pixels
         else pixels) [0..<qr_modules code]) [0..<qr_modules code]"

definition render_pairing_frame ::
  "(string \<Rightarrow> qr_code option) \<Rightarrow> nat \<Rightarrow> nat \<Rightarrow> string \<Rightarrow> (pairing_error, pixel_surface) result" where
  "render_pairing_frame qr_encode width height uri =
     (case qr_encode uri of
        None \<Rightarrow> Inl PairingEncode
      | Some code \<Rightarrow>
          let total_modules = qr_modules code + quiet_modules * 2;
              available = min width height * 4 div 5;
              scale = available div total_modules
          in if scale < 3 then Inl DisplayTooSmall
             else
               let qr_pixels = total_modules * scale;
                   left = (width - qr_pixels) div 2;
                   upper = (height - qr_pixels) div 2
               in case from_pixels width height
                      (draw_modules code width scale left upper (replicate (width * height) 255)) of
                    Inl e \<Rightarrow> Inl (PairingSurface e) | Inr frame \<Rightarrow> Inr frame)"

section \<open>The advertised hosts\<close>

lemma retain_new_set: "if_address ` set (retain_new seen is) = if_address ` set is - seen"
  by (induction seen "is" rule: retain_new.induct) auto

lemma retain_new_subset: "set (retain_new seen is) \<subseteq> set is"
  by (induction seen "is" rule: retain_new.induct) auto

lemma retain_new_distinct: "distinct (map if_address (retain_new seen is))"
proof (induction seen "is" rule: retain_new.induct)
  case (2 seen i "is")
  have "if_address i \<notin> if_address ` set (retain_new (insert (if_address i) seen) is)"
    by (simp add: retain_new_set)
  then show ?case using 2 by simp
qed simp

lemma retain_new_sorted: "sorted (map f is) \<Longrightarrow> sorted (map f (retain_new seen is))"
proof (induction seen "is" rule: retain_new.induct)
  case (2 seen i "is")
  then show ?case using retain_new_subset by (auto dest!: subsetD)
qed simp

lemma retain_new_first:
  "sorted (map f is) \<Longrightarrow> i \<in> set (retain_new seen is) \<Longrightarrow> j \<in> set is \<Longrightarrow> if_address j = if_address i \<Longrightarrow> f i \<le> f j"
proof (induction seen "is" rule: retain_new.induct)
  case (2 seen k "is")
  show ?case
  proof (cases "if_address k \<in> seen")
    case True
    then have "if_address i \<notin> seen" using 2(4) retain_new_set [of seen "is"] by (auto dest: imageI [of _ _ if_address])
    then show ?thesis using 2 True by auto
  next
    case False
    have other: "if_address i \<noteq> if_address k" if "i \<in> set (retain_new (insert (if_address k) seen) is)"
      using that retain_new_set [of "insert (if_address k) seen" "is"] by (auto dest: imageI [of _ _ if_address])
    then show ?thesis using 2 False by (cases "i = k") auto
  qed
qed simp

text \<open>
  Claim C22. With a wildcard listener the offer names the best addresses: up to four different ones,
  every one of a usable interface, in the order of preference (\<open>wlan0\<close>, \<open>usb0\<close>, others), and no
  usable address that is left out ranks before one that is named. Without a usable interface the
  offer is the USB gadget address.
\<close>

theorem advertised_hosts_best:
  assumes "ip_unspecified bound"
  shows "let usable = filter eligible addresses in
    if usable = [] then select_advertised_hosts bound addresses = [V4 usb_gadget]
    else \<exists>is. select_advertised_hosts bound addresses = map (\<lambda>i. V4 (if_address i)) is \<and>
      set is \<subseteq> set usable \<and> distinct (map if_address is) \<and>
      length is = min 4 (card (if_address ` set usable)) \<and> sorted (map interface_host_rank is) \<and>
      (\<forall>i \<in> set is. \<forall>j \<in> set usable.
         if_address j \<notin> if_address ` set is \<or> if_address j = if_address i \<longrightarrow> interface_host_rank i \<le> interface_host_rank j)"
proof -
  let ?usable = "filter eligible addresses" and ?rank = interface_host_rank
  let ?sorted = "sort_key ?rank ?usable"
  let ?all = "retain_new {} ?sorted"
  let ?is = "take 4 ?all"
  have sorted: "sorted (map ?rank ?sorted)" by simp
  have all: "sorted (map ?rank ?all)" "distinct (map if_address ?all)" "if_address ` set ?all = if_address ` set ?usable"
    using retain_new_sorted [OF sorted] retain_new_distinct retain_new_set [of "{}" ?sorted] by auto
  have sub: "set ?is \<subseteq> set ?usable" using retain_new_subset [of "{}" ?sorted] by (auto dest: in_set_takeD)
  have len: "length ?is = min 4 (card (if_address ` set ?usable))"
    using distinct_card [OF all(2)] all(3) by simp
  have best: "?rank i \<le> ?rank j" if i: "i \<in> set ?is" and j: "j \<in> set ?usable"
    and choice: "if_address j \<notin> if_address ` set ?is \<or> if_address j = if_address i" for i j
  proof (cases "if_address j = if_address i")
    case True
    then show ?thesis using retain_new_first [OF sorted, of i "{}" j] in_set_takeD [OF i] j by simp
  next
    case False
    have "if_address j \<in> if_address ` set ?all" using all(3) j by auto
    then obtain k where k: "k \<in> set ?all" "if_address k = if_address j" by auto
    have "k \<notin> set ?is" using choice False k(2) by (metis image_eqI)
    then have "k \<in> set (drop 4 ?all)" using k(1) by (metis Un_iff append_take_drop_id set_append)
    moreover have "sorted_wrt (\<lambda>x y. ?rank x \<le> ?rank y) (?is @ drop 4 ?all)" using all(1) by (simp add: sorted_map)
    ultimately have "?rank i \<le> ?rank k" using i unfolding sorted_wrt_append by blast
    also have "\<dots> \<le> ?rank j" using retain_new_first [OF sorted k(1), of j] j k(2) by simp
    finally show ?thesis .
  qed
  have "?is = [] \<longleftrightarrow> ?usable = []"
    using len by (metis card_gt_0_iff finite_imageI finite_set image_is_empty length_greater_0_conv min_less_iff_conj set_empty zero_less_numeral)
  then have host: "select_advertised_hosts bound addresses =
      (if ?usable = [] then [V4 usb_gadget] else map (\<lambda>i. V4 (if_address i)) ?is)"
    using assms by (simp add: select_advertised_hosts_def max_advertised_hosts_def Let_def)
  have "sorted (map ?rank ?is)" using all(1) by (simp add: take_map [symmetric] sorted_wrt_take)
  moreover have "distinct (map if_address ?is)" using all(2) by (simp add: take_map [symmetric])
  ultimately show ?thesis using host sub len best by (auto simp: Let_def intro!: exI [of _ ?is])
qed

text \<open>An unusable address, a second interface with the same address, and the order of preference.\<close>

theorem advertised_hosts_best_witness:
  "select_advertised_hosts (V4 (0, 0, 0, 0))
     [\<lparr>if_name = ''eth0'', if_address = (192, 168, 50, 2), if_is_up = True\<rparr>,
      \<lparr>if_name = ''usb0'', if_address = (10, 11, 99, 1), if_is_up = True\<rparr>,
      \<lparr>if_name = ''lo'', if_address = (127, 0, 0, 1), if_is_up = True\<rparr>,
      \<lparr>if_name = ''wlan0'', if_address = (192, 168, 50, 2), if_is_up = True\<rparr>] =
   [V4 (192, 168, 50, 2), V4 usb_gadget] \<and>
   distinct (select_advertised_hosts (V4 (0, 0, 0, 0)) [\<lparr>if_name = ''eth0'', if_address = (192, 168, 50, 2), if_is_up = True\<rparr>])"
proof -
  have "select_advertised_hosts (V4 (0, 0, 0, 0))
     [\<lparr>if_name = ''eth0'', if_address = (192, 168, 50, 2), if_is_up = True\<rparr>,
      \<lparr>if_name = ''usb0'', if_address = (10, 11, 99, 1), if_is_up = True\<rparr>,
      \<lparr>if_name = ''lo'', if_address = (127, 0, 0, 1), if_is_up = True\<rparr>,
      \<lparr>if_name = ''wlan0'', if_address = (192, 168, 50, 2), if_is_up = True\<rparr>] =
   [V4 (192, 168, 50, 2), V4 usb_gadget]" by code_simp
  moreover have "distinct (select_advertised_hosts (V4 (0, 0, 0, 0)) [\<lparr>if_name = ''eth0'', if_address = (192, 168, 50, 2), if_is_up = True\<rparr>])"
    using advertised_hosts_best [of "V4 (0, 0, 0, 0)" "[\<lparr>if_name = ''eth0'', if_address = (192, 168, 50, 2), if_is_up = True\<rparr>]"]
    by (auto simp: Let_def distinct_map inj_on_def comp_def split: if_splits)
  ultimately show ?thesis ..
qed

section \<open>The picture of a code\<close>

text \<open>The pixels of a module, and the module of a pixel.\<close>

definition module_pixel :: "nat \<Rightarrow> nat \<Rightarrow> nat \<Rightarrow> nat \<Rightarrow> nat \<Rightarrow> bool" where
  "module_pixel width scale x y j \<longleftrightarrow> x \<le> j mod width \<and> j mod width < x + scale \<and> y \<le> j div width \<and> j div width < y + scale"

lemma draw_module_nth:
  assumes "length pixels = height * width" "x + scale \<le> width" "y + scale \<le> height"
  shows "length (draw_module width scale x y pixels) = height * width"
    and "j < height * width \<Longrightarrow>
      draw_module width scale x y pixels ! j = (if module_pixel width scale x y j then 0 else pixels ! j)"
proof -
  have rows: "set [y..<y + scale] \<subseteq> {..<height}" using assms(3) by auto
  show "length (draw_module width scale x y pixels) = height * width"
  proof (cases "0 < height * width")
    case True
    then show ?thesis unfolding draw_module_def by (rule fill_rows_nth(1) [OF assms(1,2) rows])
  next
    case False
    then have "[y..<y + scale] = [] \<or> scale = 0" using assms by auto
    then show ?thesis using assms(1) by (auto simp: draw_module_def)
  qed
  show "draw_module width scale x y pixels ! j = (if module_pixel width scale x y j then 0 else pixels ! j)"
    if "j < height * width"
    unfolding draw_module_def fill_rows_nth(2) [OF assms(1,2) rows that] by (auto simp: module_pixel_def)
qed

lemma draw_fold_nth:
  assumes "\<And>i pixels. i \<in> set is \<Longrightarrow> length pixels = n \<Longrightarrow> length (f i pixels) = n"
    and "\<And>i pixels j. i \<in> set is \<Longrightarrow> length pixels = n \<Longrightarrow> j < n \<Longrightarrow> f i pixels ! j = (if P i j then v else pixels ! j)"
    and "length pixels = n"
  shows "length (fold f is pixels) = n"
    and "j < n \<Longrightarrow> fold f is pixels ! j = (if \<exists>i\<in>set is. P i j then v else pixels ! j)"
proof -
  have "length (fold f is pixels) = n \<and> (j < n \<longrightarrow> fold f is pixels ! j = (if \<exists>i\<in>set is. P i j then v else pixels ! j))"
    using assms by (induction "is" arbitrary: pixels) auto
  then show "length (fold f is pixels) = n"
    "j < n \<Longrightarrow> fold f is pixels ! j = (if \<exists>i\<in>set is. P i j then v else pixels ! j)" by auto
qed

lemma draw_modules_nth:
  assumes "left + (qr_modules code + 8) * scale \<le> width" "upper + (qr_modules code + 8) * scale \<le> height"
    and "length pixels = height * width"
  shows "length (draw_modules code width scale left upper pixels) = height * width"
    and "j < height * width \<Longrightarrow> draw_modules code width scale left upper pixels ! j =
      (if \<exists>my<qr_modules code. \<exists>mx<qr_modules code. qr_dark code mx my \<and>
          module_pixel width scale (left + (mx + 4) * scale) (upper + (my + 4) * scale) j then 0 else pixels ! j)"
proof -
  let ?m = "qr_modules code" and ?n = "height * width"
  let ?P = "\<lambda>my mx j. qr_dark code mx my \<and> module_pixel width scale (left + (mx + 4) * scale) (upper + (my + 4) * scale) j"
  let ?col = "\<lambda>my mx pixels. if qr_dark code mx my
      then draw_module width scale (left + (mx + quiet_modules) * scale) (upper + (my + quiet_modules) * scale) pixels else pixels"
  have fits: "left + (i + 4) * scale + scale \<le> width \<and> upper + (i + 4) * scale + scale \<le> height" if "i < ?m" for i
  proof -
    have "(i + 5) * scale \<le> (?m + 8) * scale" using that by (intro mult_le_mono1) simp
    then have "(i + 4) * scale + scale \<le> (?m + 8) * scale" by (simp add: algebra_simps)
    then show ?thesis using assms(1,2) by linarith
  qed
  have cell: "length (?col my mx ps) = ?n" "\<And>j. j < ?n \<Longrightarrow> ?col my mx ps ! j = (if ?P my mx j then 0 else ps ! j)"
    if "my < ?m" "mx < ?m" "length ps = ?n" for my mx ps
    using draw_module_nth [of ps height width "left + (mx + 4) * scale" scale "upper + (my + 4) * scale"]
      fits [OF that(1)] fits [OF that(2)] that(3) by (auto simp: quiet_modules_def)
  have row: "length (fold (?col my) [0..<?m] ps) = ?n"
    "\<And>j. j < ?n \<Longrightarrow> fold (?col my) [0..<?m] ps ! j = (if \<exists>mx<?m. ?P my mx j then 0 else ps ! j)"
    if "my < ?m" "length ps = ?n" for my ps
    using draw_fold_nth [of "[0..<?m]" ?n "?col my" "?P my" 0 ps] cell that by (auto simp: atLeast0LessThan)
  show "length (draw_modules code width scale left upper pixels) = ?n"
    unfolding draw_modules_def
    by (rule draw_fold_nth(1) [where P = "\<lambda>my j. \<exists>mx<?m. ?P my mx j"]) (use row assms(3) in auto)
  show "draw_modules code width scale left upper pixels ! j =
      (if \<exists>my<?m. \<exists>mx<?m. ?P my mx j then 0 else pixels ! j)" if "j < ?n"
    unfolding draw_modules_def
    by (subst draw_fold_nth(2) [where P = "\<lambda>my j. \<exists>mx<?m. ?P my mx j" and n = ?n and v = 0])
      (use row assms(3) that in \<open>auto simp: atLeast0LessThan\<close>)
qed

text \<open>The module a pixel belongs to, along one axis.\<close>

lemma module_of_pixel:
  assumes "0 < (scale :: nat)"
  shows "start + (i + 4) * scale \<le> x \<and> x < start + (i + 4) * scale + scale \<longleftrightarrow>
    start + 4 * scale \<le> x \<and> (x - (start + 4 * scale)) div scale = i"
proof -
  have "i * scale \<le> a \<and> a < i * scale + scale \<longleftrightarrow> a div scale = i" for a
  proof
    assume "i * scale \<le> a \<and> a < i * scale + scale"
    then show "a div scale = i" using div_nat_eqI [of scale i a] by (simp add: mult.commute add.commute)
  next
    assume a: "a div scale = i"
    show "i * scale \<le> a \<and> a < i * scale + scale"
      unfolding a [symmetric] using div_mult_mod_eq [of a scale] mod_less_divisor [OF assms, of a] by linarith
  qed
  note step = this
  show ?thesis
  proof (cases "start + 4 * scale \<le> x")
    case True
    then obtain a where "x = start + 4 * scale + a" using le_Suc_ex by blast
    then show ?thesis using step [of a] by (simp add: add_mult_distrib add.assoc add.commute [of scale])
  qed (auto simp: add_mult_distrib)
qed

lemma draw_modules_pixel:
  assumes "left + (qr_modules code + 8) * scale \<le> width" "upper + (qr_modules code + 8) * scale \<le> height"
    and "0 < scale" "x < width" "y < height"
  shows "draw_modules code width scale left upper (replicate (width * height) 255) ! (y * width + x) =
    (if left + 4 * scale \<le> x \<and> upper + 4 * scale \<le> y \<and> (x - (left + 4 * scale)) div scale < qr_modules code \<and>
        (y - (upper + 4 * scale)) div scale < qr_modules code \<and>
        qr_dark code ((x - (left + 4 * scale)) div scale) ((y - (upper + 4 * scale)) div scale) then 0 else 255)"
proof -
  let ?j = "y * width + x" and ?mx = "(x - (left + 4 * scale)) div scale" and ?my = "(y - (upper + 4 * scale)) div scale"
  have j: "?j < height * width" using assms(4,5) mult_le_mono1 [of "Suc y" height width] by simp
  have at: "?j mod width = x" "?j div width = y" using assms(4) by auto
  have hit: "module_pixel width scale (left + (mx + 4) * scale) (upper + (my + 4) * scale) ?j \<longleftrightarrow>
      (left + 4 * scale \<le> x \<and> ?mx = mx) \<and> (upper + 4 * scale \<le> y \<and> ?my = my)" for mx my
    unfolding module_pixel_def at using module_of_pixel [OF assms(3), of left mx x] module_of_pixel [OF assms(3), of upper my y]
    by blast
  have "draw_modules code width scale left upper (replicate (width * height) 255) ! ?j =
      (if \<exists>my<qr_modules code. \<exists>mx<qr_modules code. qr_dark code mx my \<and>
        module_pixel width scale (left + (mx + 4) * scale) (upper + (my + 4) * scale) ?j
       then 0 else replicate (width * height) 255 ! ?j)"
    by (rule draw_modules_nth(2) [OF assms(1,2) _ j]) (simp add: mult.commute)
  also have "replicate (width * height) 255 ! ?j = (255 :: u8)" using j by (intro nth_replicate) (simp add: mult.commute)
  finally show ?thesis unfolding hit by metis
qed

text \<open>The drawn picture is a surface with the modules where the centring puts them.\<close>

definition shows_code :: "qr_code \<Rightarrow> nat \<Rightarrow> nat \<Rightarrow> nat \<Rightarrow> nat \<Rightarrow> nat \<Rightarrow> pixel_surface \<Rightarrow> bool" where
  "shows_code code width height scale left upper frame \<longleftrightarrow>
     ps_width frame = width \<and> ps_height frame = height \<and> length (ps_pixels frame) = width * height \<and>
     (\<forall>x<width. \<forall>y<height. ps_pixels frame ! (y * width + x) =
       (if left \<le> x \<and> upper \<le> y \<and> (x - left) div scale < qr_modules code \<and> (y - upper) div scale < qr_modules code \<and>
           qr_dark code ((x - left) div scale) ((y - upper) div scale) then 0 else 255))"

lemma drawn_picture:
  assumes "left + (qr_modules code + 8) * scale \<le> width" "upper + (qr_modules code + 8) * scale \<le> height"
    and "0 < scale" "0 < width" "0 < height" "width \<le> u32_max" "height \<le> u32_max"
  shows "\<exists>frame. from_pixels width height (draw_modules code width scale left upper (replicate (width * height) 255)) = Inr frame \<and>
    shows_code code width height scale (left + 4 * scale) (upper + 4 * scale) frame"
proof -
  let ?pixels = "draw_modules code width scale left upper (replicate (width * height) 255)"
  have len: "length ?pixels = width * height"
    using draw_modules_nth(1) [OF assms(1,2), of "replicate (width * height) 255"] by (simp add: mult.commute)
  have "width * height \<le> u32_max * u32_max" using assms(6,7) by (rule mult_le_mono)
  also have "\<dots> \<le> u64_max" by (simp add: u32_max_def u64_max_def)
  finally have "pixel_len width height = Inr (width * height)"
    using assms(4,5) by (simp add: pixel_len_def checked_mul_usize_def)
  then have "from_pixels width height ?pixels =
      Inr \<lparr>ps_width = width, ps_height = height, ps_format = Gray8, ps_pixels = ?pixels\<rparr>"
    using len by (simp add: from_pixels_def)
  then show ?thesis using len draw_modules_pixel [OF assms(1-3)] by (simp add: shows_code_def)
qed

lemma centred_fits:
  assumes "side \<le> width" shows "(width - side) div 2 + side \<le> (width :: nat)"
  using assms by linarith

text \<open>
  Claim C23. The pairing picture is the QR code, centred, each module a square of the largest scale
  that fits four fifths of the shorter side: a pixel is black exactly when it lies in a dark module,
  so a quiet border of four modules stays white; a scale below three is refused.
\<close>

theorem pairing_frame_exact:
  assumes "qr_encode uri = Some code" and "width \<le> u32_max" "height \<le> u32_max"
    and "scale = min width height * 4 div 5 div (qr_modules code + 8)"
    and "left = (width - (qr_modules code + 8) * scale) div 2 + 4 * scale"
    and "upper = (height - (qr_modules code + 8) * scale) div 2 + 4 * scale"
  shows "if scale < 3 then render_pairing_frame qr_encode width height uri = Inl DisplayTooSmall
    else \<exists>frame. render_pairing_frame qr_encode width height uri = Inr frame \<and>
      shows_code code width height scale left upper frame"
proof -
  let ?side = "(qr_modules code + 8) * scale"
  let ?drawn = "from_pixels width height
    (draw_modules code width scale ((width - ?side) div 2) ((height - ?side) div 2) (replicate (width * height) 255))"
  have frame: "render_pairing_frame qr_encode width height uri =
      (if scale < 3 then Inl DisplayTooSmall
       else case ?drawn of Inl e \<Rightarrow> Inl (PairingSurface e) | Inr frame \<Rightarrow> Inr frame)"
    by (simp add: render_pairing_frame_def assms(1,4) quiet_modules_def Let_def)
  show ?thesis
  proof (cases "scale < 3")
    case False
    then have "min width height \<noteq> 0" using assms(4) by (intro notI) simp
    then have pos: "0 < scale" "0 < width" "0 < height" using False by simp_all
    have "?side \<le> min width height * 4 div 5" by (simp add: assms(4))
    then have small: "?side \<le> width" "?side \<le> height" by linarith+
    from drawn_picture [OF centred_fits [OF small(1)] centred_fits [OF small(2)] pos assms(2,3)]
    obtain drawn where "?drawn = Inr drawn" "shows_code code width height scale left upper drawn"
      unfolding assms(5,6) by blast
    then show ?thesis using False by (simp only: frame if_False sum.case) blast
  qed (simp add: frame)
qed

text \<open>A one-module code on a 45 by 40 panel.\<close>

theorem pairing_frame_exact_witness:
  "(\<exists>frame. render_pairing_frame (\<lambda>_. Some \<lparr>qr_modules = 1, qr_dark = (\<lambda>_ _. True)\<rparr>) 45 40 ''rm'' = Inr frame \<and>
      shows_code \<lparr>qr_modules = 1, qr_dark = (\<lambda>_ _. True)\<rparr> 45 40 3 21 18 frame) \<and>
   render_pairing_frame (\<lambda>_. Some \<lparr>qr_modules = 1, qr_dark = (\<lambda>_ _. True)\<rparr>) 20 20 ''rm'' = Inl DisplayTooSmall"
proof -
  let ?code = "\<lparr>qr_modules = 1, qr_dark = (\<lambda>_ _. True)\<rparr>"
  have sizes: "(45 :: nat) \<le> u32_max" "(40 :: nat) \<le> u32_max" "(20 :: nat) \<le> u32_max" by (simp_all add: u32_max_def)
  note big = pairing_frame_exact [of "\<lambda>_. Some ?code" "''rm''" ?code 45 40 3 21 18, OF refl sizes(1,2)]
  note small = pairing_frame_exact [of "\<lambda>_. Some ?code" "''rm''" ?code 20 20 1 9 9, OF refl sizes(3,3)]
  have "if (3 :: nat) < 3 then render_pairing_frame (\<lambda>_. Some ?code) 45 40 ''rm'' = Inl DisplayTooSmall
    else \<exists>frame. render_pairing_frame (\<lambda>_. Some ?code) 45 40 ''rm'' = Inr frame \<and> shows_code ?code 45 40 3 21 18 frame"
    by (rule big) simp_all
  moreover have "if (1 :: nat) < 3 then render_pairing_frame (\<lambda>_. Some ?code) 20 20 ''rm'' = Inl DisplayTooSmall
    else \<exists>frame. render_pairing_frame (\<lambda>_. Some ?code) 20 20 ''rm'' = Inr frame \<and> shows_code ?code 20 20 1 9 9 frame"
    by (rule small) simp_all
  ultimately show ?thesis by (simp only: if_True if_False less_numeral_simps)
    (simp del: One_nat_def)
qed

end
