(* ===== verification/Server.thy ===== *)
theory Server
  imports Wire Session_Order Capture Pairing
begin

text \<open>
  The connection loop of the receiver, \<open>drive_connection_loop\<close> in
  \<open>crates/rm-display-receiver/src/server.rs\<close>: one session on one stream. A turn of the loop drains
  the physical input, runs the application's hook, advances the display, handles at most eight
  messages of the input buffer, advances the display again, and reads. The clocks, the captured
  reports and the answers of the socket are the turn's arguments; the hook and the failures of a
  write are parameters.
\<close>

section \<open>The connection\<close>

datatype server_error =
  ReceiverExit | NewPair | ServerPairing pairing_error | ServerPanel panel_error | ServerSurface surface_error
  | ServerConfig config_error | ServerIo | ServerPskConfig | ServerPskTransport
  | ServerWire wire_error | ServerSession session_error

text \<open>The bytes that the peer has sent and the loop has not read, read but not decoded, and those it wrote.\<close>

record ('p, 'h) connection =
  cn_session :: "'p session"
  cn_config :: receiver_config
  cn_limit :: nat
  cn_input :: bytes
  cn_network :: bytes
  cn_sent :: bytes
  cn_hook :: 'h

text \<open>
  A write to the stream succeeds, or fails after some bytes; the hook keeps its own state and
  calls the session.
\<close>

record ('p, 'h) server_env =
  sv_receiver :: "'p receiver_env"
  sv_prost :: "envelope prost"
  sv_write :: "bytes \<Rightarrow> bytes \<Rightarrow> nat option"
  sv_hook :: "('h \<Rightarrow> nat \<Rightarrow> 'p session \<Rightarrow> ('p, envelope list) session_step \<times> 'h) option"

type_synonym ('p, 'h, 'a) server_step = "(server_error, 'a) result \<times> ('p, 'h) connection"

text \<open>What the stream does when it is read: a ready stream hands out at most what is asked for.\<close>

datatype socket_event = SocketIdle | SocketReady nat | SocketClosed | SocketFailed

record turn =
  tn_now :: nat
  tn_reports :: "captured_report list"
  tn_presses :: nat
  tn_hook_now :: nat
  tn_message_now :: "nat \<Rightarrow> nat"
  tn_poll_now :: nat
  tn_socket :: socket_event

section \<open>Calls and their messages\<close>

definition send_envelopes ::
  "('p, 'h) server_env \<Rightarrow> envelope list \<Rightarrow> ('p, 'h) connection \<Rightarrow> ('p, 'h, unit) server_step" where
  "send_envelopes env es c =
     (case write_envelopes (sv_prost env) (cn_limit c) es of
        Inl e \<Rightarrow> (Inl (ServerWire e), c)
      | Inr output \<Rightarrow>
          if output = [] then (Inr (), c)
          else case sv_write env (cn_sent c) output of
              None \<Rightarrow> (Inr (), c\<lparr>cn_sent := cn_sent c @ output\<rparr>)
            | Some n \<Rightarrow> (Inl ServerIo, c\<lparr>cn_sent := cn_sent c @ take n output\<rparr>))"

definition on_session ::
  "('p, 'h) server_env \<Rightarrow> ('p session \<Rightarrow> ('p, envelope list) session_step) \<Rightarrow> ('p, 'h) connection \<Rightarrow>
   ('p, 'h, unit) server_step" where
  "on_session env f c =
     (case f (cn_session c) of
        (Inl e, s) \<Rightarrow> (Inl (ServerSession e), c\<lparr>cn_session := s\<rparr>)
      | (Inr es, s) \<Rightarrow> send_envelopes env es (c\<lparr>cn_session := s\<rparr>))"

definition capture_call :: "'p receiver_env \<Rightarrow> captured_report \<Rightarrow> 'p session \<Rightarrow> ('p, envelope list) session_step" where
  "capture_call env r s =
     (case cr_report r of
        Touch records \<Rightarrow> input_reports env [records] (cr_time r) s
      | PenRecords records \<Rightarrow> pen_reports env [records] (cr_time r) s
      | Fault message \<Rightarrow> input_capture_failed env (cr_time r) s)"

fun drain_capture ::
  "('p, 'h) server_env \<Rightarrow> captured_report list \<Rightarrow> ('p, 'h) connection \<Rightarrow> ('p, 'h, unit) server_step" where
  "drain_capture env [] c = (Inr (), c)"
| "drain_capture env (r # rs) c =
     try_then (on_session env (capture_call (sv_receiver env) r) c) (\<lambda>_. drain_capture env rs)"

fun drain_presses ::
  "('p, 'h) server_env \<Rightarrow> nat \<Rightarrow> nat \<Rightarrow> ('p, 'h) connection \<Rightarrow> ('p, 'h, unit) server_step" where
  "drain_presses env 0 now c = (Inr (), c)"
| "drain_presses env (Suc n) now c =
     try_then (on_session env (power_key_pressed (sv_receiver env) now) c) (\<lambda>_. drain_presses env n now)"

definition run_hook :: "('p, 'h) server_env \<Rightarrow> nat \<Rightarrow> ('p, 'h) connection \<Rightarrow> ('p, 'h, unit) server_step" where
  "run_hook env now c =
     (case sv_hook env of
        None \<Rightarrow> (Inr (), c)
      | Some hook \<Rightarrow>
          (case hook (cn_hook c) now (cn_session c) of
             (step, h) \<Rightarrow> on_session env (\<lambda>_. step) (c\<lparr>cn_hook := h\<rparr>)))"

section \<open>Messages\<close>

text \<open>The way a closed session ends the loop.\<close>

definition closing :: "'p session \<Rightarrow> (server_error, unit) result" where
  "closing s =
     (if se_pairing_reset_requested s then Inl NewPair
      else if se_receiver_exit_requested s then Inl ReceiverExit else Inr ())"

definition end_loop :: "'a \<Rightarrow> ('p, 'h) connection \<Rightarrow> ('p, 'h, 'a) server_step" where
  "end_loop a c = (case closing (cn_session c) of Inl e \<Rightarrow> (Inl e, c) | Inr _ \<Rightarrow> (Inr a, c))"

text \<open>An established session raises the limit of the codec to the configured one.\<close>

definition adopt_limit :: "('p, 'h) connection \<Rightarrow> ('p, 'h) connection" where
  "adopt_limit c =
     (if se_established (cn_session c)
      then c\<lparr>cn_limit := codec_limit (rl_max_payload (rc_limits (cn_config c)))\<rparr> else c)"

text \<open>One message: an error is answered and ends the loop.\<close>

definition handle_message ::
  "('p, 'h) server_env \<Rightarrow> envelope \<Rightarrow> nat \<Rightarrow> ('p, 'h) connection \<Rightarrow> ('p, 'h, unit) server_step" where
  "handle_message env e now c =
     (case session_handle_deferred (sv_receiver env) e now (cn_session c) of
        (Inr responses, s) \<Rightarrow> send_envelopes env responses (c\<lparr>cn_session := s\<rparr>)
      | (Inl error, s) \<Rightarrow>
          (case session_protocol_error error (env_message_id e) s of
             (response, s') \<Rightarrow>
               try_then (send_envelopes env [response] (c\<lparr>cn_session := s'\<rparr>))
                 (\<lambda>_ c1. (Inl (ServerSession error), c1))))"

text \<open>The messages of a turn: how many were decoded, or none when the session is closed.\<close>

fun handle_messages ::
  "('p, 'h) server_env \<Rightarrow> (nat \<Rightarrow> nat) \<Rightarrow> nat \<Rightarrow> nat \<Rightarrow> ('p, 'h) connection \<Rightarrow> ('p, 'h, nat option) server_step" where
  "handle_messages env clock 0 decoded c = (Inr (Some decoded), c)"
| "handle_messages env clock (Suc n) decoded c =
     (case wire_decode (sv_prost env) (cn_limit c) (cn_input c) of
        (Inl e, input) \<Rightarrow> (Inl (ServerWire e), c\<lparr>cn_input := input\<rparr>)
      | (Inr None, input) \<Rightarrow> (Inr (Some decoded), c\<lparr>cn_input := input\<rparr>)
      | (Inr (Some e), input) \<Rightarrow>
          try_then (handle_message env e (clock decoded) (c\<lparr>cn_input := input\<rparr>)) (\<lambda>_ c1.
            let c2 = adopt_limit c1 in
            if se_closed (cn_session c2) then end_loop None c2
            else handle_messages env clock n (Suc decoded) c2))"

section \<open>The loop\<close>

definition read_buffer_len :: nat where "read_buffer_len = 64 * 1024"

text \<open>Reading: whether the loop goes on.\<close>

definition read_socket :: "socket_event \<Rightarrow> ('p, 'h) connection \<Rightarrow> ('p, 'h, bool) server_step" where
  "read_socket event c =
     (case event of
        SocketIdle \<Rightarrow> (Inr True, c)
      | SocketReady n \<Rightarrow>
          let count = min n read_buffer_len in
          (Inr True, c\<lparr>cn_input := cn_input c @ take count (cn_network c), cn_network := drop count (cn_network c)\<rparr>)
      | SocketClosed \<Rightarrow> (Inr False, c)
      | SocketFailed \<Rightarrow> (Inl ServerIo, c))"

definition messages_per_turn :: nat where "messages_per_turn = 8"

definition serve_turn :: "('p, 'h) server_env \<Rightarrow> turn \<Rightarrow> ('p, 'h) connection \<Rightarrow> ('p, 'h, bool) server_step" where
  "serve_turn env t c =
     try_then (drain_capture env (tn_reports t) c) (\<lambda>_ c1.
     try_then (drain_presses env (tn_presses t) (tn_now t) c1) (\<lambda>_ c2.
     try_then (run_hook env (tn_hook_now t) c2) (\<lambda>_ c3.
     try_then (on_session env (session_poll (sv_receiver env) (tn_hook_now t)) c3) (\<lambda>_ c4.
       if se_closed (cn_session c4) then end_loop False c4
       else
         try_then (handle_messages env (tn_message_now t) messages_per_turn 0 c4) (\<lambda>progress c5.
           case progress of
             None \<Rightarrow> (Inr False, c5)
           | Some decoded \<Rightarrow>
               try_then (on_session env (session_poll (sv_receiver env) (tn_poll_now t)) c5) (\<lambda>_ c6.
                 if decoded = messages_per_turn then (Inr True, c6) else read_socket (tn_socket t) c6))))))"

fun serve_turns :: "('p, 'h) server_env \<Rightarrow> turn list \<Rightarrow> ('p, 'h) connection \<Rightarrow> ('p, 'h, bool) server_step" where
  "serve_turns env [] c = (Inr True, c)"
| "serve_turns env (t # ts) c =
     try_then (serve_turn env t c) (\<lambda>goes_on c1. if goes_on then serve_turns env ts c1 else (Inr False, c1))"

text \<open>The start of a connection: a fresh session over the panel, which the pen device may join.\<close>

definition connection_new ::
  "receiver_config \<Rightarrow> 'p session \<Rightarrow> bool \<Rightarrow> 'h \<Rightarrow> bytes \<Rightarrow> ('p, 'h) connection" where
  "connection_new config s pen_available h network =
     \<lparr>cn_session = set_pen_available pen_available s, cn_config = config,
      cn_limit = pre_handshake_max_payload, cn_input = [], cn_network = network, cn_sent = [], cn_hook = h\<rparr>"

definition drive_connection_loop ::
  "('p, 'h) server_env \<Rightarrow> turn list \<Rightarrow> ('p, 'h) connection \<Rightarrow> ('p, 'h, bool) server_step" where
  "drive_connection_loop env turns c = try_then (run_hook env 0 c) (\<lambda>_. serve_turns env turns)"

section \<open>The input buffer\<close>

lemma try_then_state:
  assumes "Q (snd m)" and "\<And>a c. m = (Inr a, c) \<Longrightarrow> Q c \<Longrightarrow> Q (snd (f a c))"
  shows "Q (snd (try_then m f))"
  using assms by (cases m) (auto simp: try_then_def split: sum.split)

lemma try_then_fail: "snd (try_then m (\<lambda>_ c. (Inl e, c))) = snd m"
  by (cases m) (auto simp: try_then_def split: sum.split)

text \<open>The calls of the session leave the buffers alone.\<close>

definition same_buffers :: "('p, 'h) connection \<Rightarrow> ('p, 'h) connection \<Rightarrow> bool" where
  "same_buffers c c' \<longleftrightarrow> cn_config c' = cn_config c \<and> cn_limit c' = cn_limit c \<and>
     cn_input c' = cn_input c \<and> cn_network c' = cn_network c"

lemma same_buffers_trans: "same_buffers a b \<Longrightarrow> same_buffers b c \<Longrightarrow> same_buffers a c"
  by (simp add: same_buffers_def)

lemma same_buffers_update [simp]:
  "same_buffers (c\<lparr>cn_session := s\<rparr>) c' = same_buffers c c'" "same_buffers c (c\<lparr>cn_session := s\<rparr>)"
  "same_buffers (c\<lparr>cn_hook := h\<rparr>) c' = same_buffers c c'" "same_buffers c c"
  by (simp_all add: same_buffers_def)

lemma send_buffers: "same_buffers c (snd (send_envelopes env es c))"
  by (auto simp: send_envelopes_def same_buffers_def split: sum.split option.split)

lemma on_session_buffers: "same_buffers c (snd (on_session env f c))"
  using send_buffers [of "c\<lparr>cn_session := snd (f (cn_session c))\<rparr>"]
  by (auto simp: on_session_def split: prod.split sum.split)

lemma drain_capture_buffers: "same_buffers c (snd (drain_capture env rs c))"
proof (induction rs arbitrary: c)
  case (Cons r rs)
  show ?case unfolding drain_capture.simps
    by (rule try_then_state) (auto intro: on_session_buffers same_buffers_trans Cons)
qed (simp add: same_buffers_def)

lemma drain_presses_buffers: "same_buffers c (snd (drain_presses env n now c))"
proof (induction n arbitrary: c)
  case (Suc n)
  show ?case unfolding drain_presses.simps
    by (rule try_then_state) (auto intro: on_session_buffers same_buffers_trans Suc)
qed (simp add: same_buffers_def)

lemma run_hook_buffers: "same_buffers c (snd (run_hook env now c))"
  using on_session_buffers [of "c\<lparr>cn_hook := h\<rparr>" for h] by (auto simp: run_hook_def split: option.split prod.split)

lemma handle_message_buffers: "same_buffers c (snd (handle_message env e now c))"
proof -
  have "same_buffers c (snd (send_envelopes env es (c\<lparr>cn_session := s\<rparr>)))" for es s
    using send_buffers [of "c\<lparr>cn_session := s\<rparr>"] by simp
  then show ?thesis
    by (auto simp: handle_message_def try_then_fail split: prod.split sum.split)
qed

lemma end_loop_state [simp]: "snd (end_loop a c) = c"
  by (simp add: end_loop_def split: sum.split)

text \<open>The largest limit the codec of a connection ever has.\<close>

definition limit_bound :: "receiver_config \<Rightarrow> nat" where
  "limit_bound config = max pre_handshake_max_payload (codec_limit (rl_max_payload (rc_limits config)))"

definition limited :: "receiver_config \<Rightarrow> ('p, 'h) connection \<Rightarrow> bool" where
  "limited config c \<longleftrightarrow> cn_config c = config \<and> cn_limit c \<le> limit_bound config"

lemma limited_buffers: "same_buffers c c' \<Longrightarrow> limited config c \<Longrightarrow> limited config c'"
  by (simp add: limited_def same_buffers_def)

lemma limited_adopt: "limited config c \<Longrightarrow> limited config (adopt_limit c) \<and> cn_input (adopt_limit c) = cn_input c"
  by (auto simp: limited_def adopt_limit_def limit_bound_def)

lemma wire_decode_rest:
  "wire_decode P limit src = (res, rest) \<Longrightarrow> length rest \<le> length src \<and> (res = Inr None \<longrightarrow> length rest < header_len + limit)"
  by (auto simp: wire_decode_def header_len_def Let_def split: if_splits option.splits)

lemma handle_messages_input:
  assumes "handle_messages env clock n decoded c = (r, c')" and "limited config c"
  shows "limited config c' \<and> length (cn_input c') \<le> length (cn_input c) \<and>
    (\<forall>d. r = Inr (Some d) \<longrightarrow> d \<noteq> decoded + n \<longrightarrow> length (cn_input c') < header_len + limit_bound config)"
  using assms
proof (induction n arbitrary: decoded c)
  case (Suc n)
  obtain res input where w: "wire_decode (sv_prost env) (cn_limit c) (cn_input c) = (res, input)" by fastforce
  note rest = wire_decode_rest [OF w]
  note run = Suc.prems(1) [unfolded handle_messages.simps w prod.case]
  have ok: "limited config (c\<lparr>cn_input := input\<rparr>)" using Suc.prems(2) by (simp add: limited_def)
  have early: "r = Inl x \<or> r = Inr (Some decoded) \<and> res = Inr None \<Longrightarrow> c' = c\<lparr>cn_input := input\<rparr> \<Longrightarrow> ?case" for x
    using rest ok Suc.prems(2) by (auto simp: limited_def)
  show ?case
  proof (cases "\<exists>e. res = Inr (Some e)")
    case False
    then show ?thesis using run early by (auto split: sum.splits option.splits)
  next
    case True
    then obtain e where res: "res = Inr (Some e)" by blast
    obtain r1 c1 where m: "handle_message env e (clock decoded) (c\<lparr>cn_input := input\<rparr>) = (r1, c1)" by fastforce
    have "same_buffers (c\<lparr>cn_input := input\<rparr>) c1"
      using handle_message_buffers [of "c\<lparr>cn_input := input\<rparr>" env e "clock decoded"] by (simp add: m)
    then have c1: "limited config c1" "cn_input c1 = input"
      using Suc.prems(2) by (auto simp: limited_def same_buffers_def)
    note c2 = limited_adopt [OF c1(1)]
    show ?thesis
    proof (cases r1)
      case (Inl x)
      then have "c' = c1" "r = Inl x" using run by (auto simp: res m)
      then show ?thesis using rest c1 by simp
    next
      case (Inr u)
      have step: "(if se_closed (cn_session (adopt_limit c1)) then end_loop None (adopt_limit c1)
          else handle_messages env clock n (Suc decoded) (adopt_limit c1)) = (r, c')"
        using run by (simp add: res m Inr Let_def)
      show ?thesis
      proof (cases "se_closed (cn_session (adopt_limit c1))")
        case True
        then have "c' = adopt_limit c1" "r \<noteq> Inr (Some d)" for d
          using step end_loop_state [of "None :: nat option" "adopt_limit c1"]
          by (auto simp: end_loop_def split: sum.splits)
        then show ?thesis using rest c1 c2 by simp
      next
        case False
        then show ?thesis using step rest c1 c2 Suc.IH [of "Suc decoded" "adopt_limit c1"] by auto
      qed
    qed
  qed
qed auto

definition buffer_bound :: "receiver_config \<Rightarrow> nat" where
  "buffer_bound config = header_len + limit_bound config + read_buffer_len"

definition bounded :: "receiver_config \<Rightarrow> ('p, 'h) connection \<Rightarrow> bool" where
  "bounded config c \<longleftrightarrow> limited config c \<and> length (cn_input c) \<le> buffer_bound config"

lemma bounded_buffers: "same_buffers c c' \<Longrightarrow> bounded config c \<Longrightarrow> bounded config c'"
  by (simp add: bounded_def limited_def same_buffers_def)

lemma read_socket_bounded:
  assumes "limited config c" "length (cn_input c) < header_len + limit_bound config"
  shows "bounded config (snd (read_socket event c))"
  using assms by (cases event) (auto simp: read_socket_def bounded_def limited_def buffer_bound_def Let_def)

lemma turn_bounded:
  assumes "bounded config c"
  shows "bounded config (snd (serve_turn env t c))"
proof -
  have after: "bounded config (snd (if se_closed (cn_session c4) then end_loop False c4
      else try_then (handle_messages env (tn_message_now t) messages_per_turn 0 c4) (\<lambda>progress c5.
          case progress of
            None \<Rightarrow> (Inr False, c5)
          | Some decoded \<Rightarrow>
              try_then (on_session env (session_poll (sv_receiver env) (tn_poll_now t)) c5) (\<lambda>_ c6.
                if decoded = messages_per_turn then (Inr True, c6) else read_socket (tn_socket t) c6))))"
    if c4: "bounded config c4" for c4
  proof -
    obtain r c5 where m: "handle_messages env (tn_message_now t) messages_per_turn 0 c4 = (r, c5)" by fastforce
    have c5: "limited config c5" "length (cn_input c5) \<le> length (cn_input c4)"
      "\<And>d. r = Inr (Some d) \<Longrightarrow> d \<noteq> messages_per_turn \<Longrightarrow> length (cn_input c5) < header_len + limit_bound config"
      using handle_messages_input [OF m] c4 by (auto simp: bounded_def)
    then have b5: "bounded config c5" using c4 by (simp add: bounded_def)
    have "bounded config (snd (try_then (on_session env (session_poll (sv_receiver env) (tn_poll_now t)) c5) (\<lambda>_ c6.
        if d = messages_per_turn then (Inr True, c6) else read_socket (tn_socket t) c6)))" if r: "r = Inr (Some d)" for d
    proof -
      obtain r6 c6 where s: "on_session env (session_poll (sv_receiver env) (tn_poll_now t)) c5 = (r6, c6)" by fastforce
      have same: "same_buffers c5 c6" using on_session_buffers [of c5] s by (metis snd_conv)
      then have c6: "bounded config c6" "limited config c6" "cn_input c6 = cn_input c5"
        using b5 c5(1) bounded_buffers limited_buffers by (blast, blast, simp add: same_buffers_def)
      show ?thesis using c6 c5(3) [OF r] read_socket_bounded [OF c6(2)]
        by (cases r6) (auto simp: s)
    qed
    then show ?thesis using m b5 c4 by (auto simp: try_then_def split: sum.split option.split)
  qed
  note chain = try_then_state [where Q = "bounded config"]
  have quiet: "bounded config (snd (drain_capture env rs c))" "bounded config (snd (drain_presses env n now c))"
    "bounded config (snd (run_hook env now c))" "bounded config (snd (on_session env f c))"
    if "bounded config c" for rs n now f and c :: "('a, 'b) connection"
    using that bounded_buffers drain_capture_buffers drain_presses_buffers run_hook_buffers on_session_buffers by blast+
  show ?thesis unfolding serve_turn_def
    by (rule chain quiet after assms | assumption)+
qed

lemma turns_bounded: "bounded config c \<Longrightarrow> bounded config (snd (serve_turns env ts c))"
proof (induction ts arbitrary: c)
  case (Cons t ts)
  show ?case unfolding serve_turns.simps
    by (rule try_then_state [where Q = "bounded config"]) (auto intro: turn_bounded Cons)
qed simp

text \<open>
  Claim C19. Whatever the peer sends and however the socket, the input devices and the hook behave,
  the receiver never buffers more than one message of the largest allowed size and one read: the
  configured limit beyond the hard limit of the codec, or what the peer announces, changes nothing.
\<close>

theorem server_input_bounded:
  assumes "drive_connection_loop env turns (connection_new config s pen_available h network) = (r, c)"
  shows "length (cn_input c) \<le>
    header_len + max (64 * 1024) (min (rl_max_payload (rc_limits config)) (32 * 1024 * 1024)) + 64 * 1024"
proof -
  let ?c = "connection_new config s pen_available h network"
  have start: "bounded config ?c"
    by (simp add: bounded_def limited_def limit_bound_def connection_new_def)
  have "bounded config (snd (drive_connection_loop env turns ?c))"
    unfolding drive_connection_loop_def
    by (rule try_then_state [where Q = "bounded config"])
      (use bounded_buffers [OF run_hook_buffers start] turns_bounded in auto)
  then show ?thesis
    using assms by (simp add: bounded_def buffer_bound_def limit_bound_def read_buffer_len_def
        pre_handshake_max_payload_def codec_limit_def hard_max_payload_def)
qed

section \<open>The loop is a run of session calls\<close>

text \<open>The messages a run of calls handles, and the bytes of a list of messages.\<close>

fun handled :: "(session_call \<times> nat) list \<Rightarrow> envelope list" where
  "handled [] = []"
| "handled ((HandleDeferred e, now) # calls) = e # handled calls"
| "handled ((Handle e, now) # calls) = e # handled calls"
| "handled (_ # calls) = handled calls"

lemma handled_append [simp]: "handled (calls @ calls') = handled calls @ handled calls'"
  by (induction calls rule: handled.induct) simp_all

abbreviation stream_of :: "('p, 'h) server_env \<Rightarrow> envelope list \<Rightarrow> bytes" where
  "stream_of env es \<equiv> concat (map (frame_bytes (sv_prost env)) es)"

text \<open>
  A step on the session that makes the calls: what it returns is what the calls emitted. The hook
  of an application is such a step that handles no message itself.
\<close>

definition speaks ::
  "'p receiver_env \<Rightarrow> (session_call \<times> nat) list \<Rightarrow> 'p session \<Rightarrow> ('p, envelope list) session_step \<Rightarrow> bool" where
  "speaks R calls s step \<longleftrightarrow>
     (case session_run R calls s of (es, s') \<Rightarrow> snd step = s' \<and> (\<forall>es'. fst step = Inr es' \<longrightarrow> es' = es))"

definition hook_speaks :: "('p, 'h) server_env \<Rightarrow> bool" where
  "hook_speaks env \<longleftrightarrow> (\<forall>hook h now s. sv_hook env = Some hook \<longrightarrow>
     (\<exists>calls. handled calls = [] \<and> speaks (sv_receiver env) calls s (fst (hook h now s))))"

text \<open>
  The relation of a connection to the run behind it: which messages it handled of those the peer
  sends, and, unless it failed, that everything emitted is written and nothing received is lost.
\<close>

definition serves ::
  "('p, 'h) server_env \<Rightarrow> 'p session \<Rightarrow> envelope list \<Rightarrow> bool \<Rightarrow> ('p, 'h) connection \<Rightarrow> bool" where
  "serves env s ms fine c \<longleftrightarrow>
     (\<exists>calls es todo. session_run (sv_receiver env) calls s = (es, cn_session c) \<and> ms = handled calls @ todo \<and>
       prefix (cn_sent c) (stream_of env es) \<and>
       (fine \<longrightarrow> cn_sent c = stream_of env es \<and> cn_input c @ cn_network c = stream_of env todo))"

lemma session_run_append:
  "session_run R (calls @ calls') s =
     (case session_run R calls s of (es, s1) \<Rightarrow> case session_run R calls' s1 of (es', s2) \<Rightarrow> (es @ es', s2))"
  by (induction R calls s rule: session_run.induct) (auto split: prod.splits sum.splits)

lemma speaks_call: "speaks R [(call, now)] s (make_call R call now s)"
  by (auto simp: speaks_def split: prod.splits sum.splits)

lemma encode_all_stream:
  "encode_all P limit es out = (Inr (), out') \<Longrightarrow> out' = out @ concat (map (frame_bytes P) es)"
proof (induction es arbitrary: out)
  case (Cons e es)
  then have "encode_all P limit es (out @ frame_bytes P e) = (Inr (), out')"
    by (auto simp: wire_encode_def frame_bytes_def Let_def split: if_splits)
  from Cons.IH [OF this] show ?case by simp
qed simp

lemma send_envelopes_sent:
  assumes "send_envelopes env es c = (r, c')"
  shows "\<exists>sent. c' = c\<lparr>cn_sent := cn_sent c @ sent\<rparr> \<and> prefix sent (stream_of env es) \<and>
    (r = Inr () \<longrightarrow> sent = stream_of env es)"
proof (cases "write_envelopes (sv_prost env) (cn_limit c) es")
  case (Inl e)
  then show ?thesis using assms by (auto simp: send_envelopes_def intro!: exI [of _ "[]"])
next
  case (Inr bs)
  then have bs: "bs = stream_of env es"
    using encode_all_stream [of "sv_prost env" "cn_limit c" es "[]"]
    by (auto simp: write_envelopes_def split: prod.splits sum.splits)
  show ?thesis
  proof (cases "bs = [] \<or> sv_write env (cn_sent c) bs = None")
    case True
    then show ?thesis using assms Inr bs by (auto simp: send_envelopes_def intro!: exI [of _ bs] split: if_splits)
  next
    case False
    then obtain n where "sv_write env (cn_sent c) bs = Some n" by blast
    then have "r = Inl ServerIo" "c' = c\<lparr>cn_sent := cn_sent c @ take n bs\<rparr>"
      using assms Inr False by (simp_all add: send_envelopes_def)
    then show ?thesis using bs by (auto simp: take_is_prefix intro!: exI [of _ "take n bs"])
  qed
qed

text \<open>A message the codec carries, and the messages that a step takes off the input.\<close>

definition carried :: "('p, 'h) server_env \<Rightarrow> envelope \<Rightarrow> bool" where
  "carried env m \<longleftrightarrow> coded (sv_prost env) m \<and> prost_len (sv_prost env) m \<le> u32_max"

definition takes :: "('p, 'h) server_env \<Rightarrow> envelope list \<Rightarrow> ('p, 'h) connection \<Rightarrow> ('p, 'h) connection \<Rightarrow> bool" where
  "takes env hs c c' \<longleftrightarrow> (\<forall>todo. (\<forall>m\<in>set todo. carried env m) \<longrightarrow> cn_input c @ cn_network c = stream_of env todo \<longrightarrow>
     (\<exists>rest. todo = hs @ rest \<and> cn_input c' @ cn_network c' = stream_of env rest))"

lemma takes_nothing: "same_buffers c c' \<Longrightarrow> takes env [] c c'"
  by (simp add: takes_def same_buffers_def)

text \<open>A call and the sending of what it emits keep the relation.\<close>

lemma serves_step:
  assumes "serves env s0 ms True c" and "\<forall>m\<in>set ms. carried env m"
    and "speaks (sv_receiver env) calls (cn_session c) step" and "takes env (handled calls) c c1"
    and "cn_session c1 = snd step" "cn_sent c1 = cn_sent c"
  shows "fst step = Inl e \<Longrightarrow> serves env s0 ms False c1"
    and "fst step = Inr es \<Longrightarrow> send_envelopes env es c1 = (r, c') \<Longrightarrow> serves env s0 ms (r = Inr ()) c'"
proof -
  obtain calls0 es0 todo where c: "session_run (sv_receiver env) calls0 s0 = (es0, cn_session c)"
    "ms = handled calls0 @ todo" "cn_sent c = stream_of env es0" "cn_input c @ cn_network c = stream_of env todo"
    using assms(1) by (auto simp: serves_def)
  from assms(4) [unfolded takes_def, rule_format, OF _ c(4)] assms(2) c(2)
  obtain rest where rest: "todo = handled calls @ rest" "cn_input c1 @ cn_network c1 = stream_of env rest" by auto
  obtain es1 where run: "session_run (sv_receiver env) calls (cn_session c) = (es1, snd step)"
    and said: "\<And>es. fst step = Inr es \<Longrightarrow> es = es1"
    using assms(3) by (auto simp: speaks_def split: prod.splits)
  have all: "session_run (sv_receiver env) (calls0 @ calls) s0 = (es0 @ es1, snd step)"
    by (simp add: session_run_append c(1) run)
  have ms: "ms = handled (calls0 @ calls) @ rest" using c(2) rest(1) by simp
  have "prefix (cn_sent c1) (stream_of env (es0 @ es1))" by (simp add: assms(6) c(3))
  with all ms show "serves env s0 ms False c1" if "fst step = Inl e"
    unfolding serves_def assms(5) by blast
  show "serves env s0 ms (r = Inr ()) c'" if emitted: "fst step = Inr es" "send_envelopes env es c1 = (r, c')"
  proof -
    from send_envelopes_sent [OF emitted(2)] obtain sent where sent: "c' = c1\<lparr>cn_sent := cn_sent c1 @ sent\<rparr>"
      "prefix sent (stream_of env es1)" "r = Inr () \<longrightarrow> sent = stream_of env es1"
      using said [OF emitted(1)] by blast
    have "prefix (cn_sent c') (stream_of env (es0 @ es1))"
      "r = Inr () \<longrightarrow> cn_sent c' = stream_of env (es0 @ es1) \<and> cn_input c' @ cn_network c' = stream_of env rest"
      using sent assms(6) c(3) rest(2) by simp_all
    moreover have "cn_session c' = snd step" using sent(1) assms(5) by simp
    ultimately show ?thesis using all ms unfolding serves_def by metis
  qed
qed

definition keeps ::
  "('p, 'h) server_env \<Rightarrow> 'p session \<Rightarrow> envelope list \<Rightarrow> ('p, 'h, 'a) server_step \<Rightarrow> bool" where
  "keeps env s0 ms m \<longleftrightarrow> serves env s0 ms (\<not> isl (fst m)) (snd m)"

lemma keeps_try:
  assumes "keeps env s0 ms m" and "\<And>a c. m = (Inr a, c) \<Longrightarrow> serves env s0 ms True c \<Longrightarrow> keeps env s0 ms (f a c)"
  shows "keeps env s0 ms (try_then m f)"
  using assms by (cases m) (auto simp: try_then_def keeps_def split: sum.split)

lemma serves_partly: "serves env s0 ms True c \<Longrightarrow> serves env s0 ms b c"
  by (cases b) (auto simp: serves_def)

lemma serves_update: "cn_session c' = cn_session c \<Longrightarrow> cn_sent c' = cn_sent c \<Longrightarrow>
    cn_input c' @ cn_network c' = cn_input c @ cn_network c \<Longrightarrow> serves env s0 ms b c \<Longrightarrow> serves env s0 ms b c'"
  by (simp add: serves_def)

lemma on_session_keeps:
  assumes "serves env s0 ms True c" "\<forall>m\<in>set ms. carried env m"
    and "speaks (sv_receiver env) calls (cn_session c) (f (cn_session c))" "handled calls = []"
  shows "keeps env s0 ms (on_session env f c)"
proof -
  obtain r s where f: "f (cn_session c) = (r, s)" by fastforce
  note step = serves_step [OF assms(1-3), of "c\<lparr>cn_session := s\<rparr>", unfolded assms(4) f, OF takes_nothing]
  show ?thesis
  proof (cases r)
    case (Inl e)
    then show ?thesis using step(1) by (simp add: keeps_def on_session_def f)
  next
    case (Inr es)
    obtain r' c' where sent: "send_envelopes env es (c\<lparr>cn_session := s\<rparr>) = (r', c')" by fastforce
    from step(2) [OF _ _ _ _ sent] Inr have "serves env s0 ms (r' = Inr ()) c'" by simp
    then show ?thesis using Inr sent by (cases r') (simp_all add: keeps_def on_session_def f)
  qed
qed

lemma call_keeps:
  assumes "serves env s0 ms True c" "\<forall>m\<in>set ms. carried env m"
    and "f (cn_session c) = make_call (sv_receiver env) call now (cn_session c)" "handled [(call, now)] = []"
  shows "keeps env s0 ms (on_session env f c)"
  by (rule on_session_keeps [OF assms(1,2) _ assms(4)]) (simp only: assms(3) speaks_call)

lemma drain_capture_keeps:
  "serves env s0 ms True c \<Longrightarrow> \<forall>m\<in>set ms. carried env m \<Longrightarrow> keeps env s0 ms (drain_capture env rs c)"
proof (induction rs arbitrary: c)
  case (Cons r rs)
  obtain call now where "\<And>s. capture_call (sv_receiver env) r s = make_call (sv_receiver env) call now s"
    "handled [(call, now)] = []"
  proof (cases "cr_report r")
    case (Touch records)
    then show ?thesis using that [of "TouchReports [records]" "cr_time r"] by (simp add: capture_call_def)
  next
    case (PenRecords records)
    then show ?thesis using that [of "PenReports [records]" "cr_time r"] by (simp add: capture_call_def)
  next
    case (Fault message)
    then show ?thesis using that [of CaptureFailed "cr_time r"] by (simp add: capture_call_def)
  qed
  then have "keeps env s0 ms (on_session env (capture_call (sv_receiver env) r) c)"
    using Cons.prems by (intro call_keeps) simp_all
  then show ?case unfolding drain_capture.simps
    by (rule keeps_try) (rule Cons.IH [OF _ Cons.prems(2)])
qed (simp add: keeps_def)

lemma drain_presses_keeps:
  "serves env s0 ms True c \<Longrightarrow> \<forall>m\<in>set ms. carried env m \<Longrightarrow> keeps env s0 ms (drain_presses env n now c)"
proof (induction n arbitrary: c)
  case (Suc n)
  have "keeps env s0 ms (on_session env (power_key_pressed (sv_receiver env) now) c)"
    by (rule call_keeps [OF Suc.prems, where call = PowerKey]) simp_all
  then show ?case unfolding drain_presses.simps
    by (rule keeps_try) (rule Suc.IH [OF _ Suc.prems(2)])
qed (simp add: keeps_def)

lemma poll_keeps:
  "serves env s0 ms True c \<Longrightarrow> \<forall>m\<in>set ms. carried env m \<Longrightarrow>
   keeps env s0 ms (on_session env (session_poll (sv_receiver env) now) c)"
  by (rule call_keeps [where call = Poll and now = now]) simp_all

lemma run_hook_keeps:
  assumes "serves env s0 ms True c" "\<forall>m\<in>set ms. carried env m" "hook_speaks env"
  shows "keeps env s0 ms (run_hook env now c)"
proof (cases "sv_hook env")
  case None
  then show ?thesis using assms(1) by (simp add: run_hook_def keeps_def)
next
  case (Some hook)
  obtain step h where h: "hook (cn_hook c) now (cn_session c) = (step, h)" by fastforce
  let ?c = "c\<lparr>cn_hook := h\<rparr>"
  obtain calls where "handled calls = []" "speaks (sv_receiver env) calls (cn_session c) step"
    using assms(3) Some h unfolding hook_speaks_def by (metis fst_conv)
  moreover have "serves env s0 ms True ?c" by (rule serves_update [OF _ _ _ assms(1)]) simp_all
  ultimately have "keeps env s0 ms (on_session env (\<lambda>_. step) ?c)"
    using assms(2) by (intro on_session_keeps [where calls = calls]) simp_all
  then show ?thesis by (simp add: run_hook_def Some h)
qed

text \<open>Decoding from the buffer takes exactly the first of the messages on the way.\<close>

lemma decode_takes:
  assumes "wire_decode (sv_prost env) limit (cn_input c) = (Inr (Some e), input)"
  shows "takes env [e] c (c\<lparr>cn_input := input\<rparr>)"
  unfolding takes_def
proof (intro allI impI)
  fix todo
  let ?P = "sv_prost env"
  assume todo: "\<forall>m\<in>set todo. carried env m" "cn_input c @ cn_network c = stream_of env todo"
  have long: "header_len \<le> length (cn_input c)" using assms by (auto simp: wire_decode_def split: if_splits)
  then have "cn_input c \<noteq> []" by (auto simp: header_len_def)
  with todo(2) obtain m rest where t: "todo = m # rest" by (cases todo) auto
  have m: "coded ?P m" "prost_len ?P m \<le> u32_max" using todo(1) t by (auto simp: carried_def)
  have len: "length (frame_bytes ?P m) = header_len + prost_len ?P m"
    using m(1) by (simp add: frame_bytes_def coded_def header_len_def wire_magic_def)
  have "take header_len (cn_input c) = take header_len (frame_bytes ?P m)"
    using arg_cong [OF todo(2), of "take header_len"] long len by (simp add: t)
  then have "prefix (take header_len (frame_bytes ?P m)) (cn_input c)" by (metis take_is_prefix)
  note h = frame_header [OF this m(2)]
  have "prost_len ?P m \<le> limit" "header_len + prost_len ?P m \<le> length (cn_input c)"
    using assms by (auto simp: wire_decode_def h Let_def split: if_splits option.splits)
  moreover have "prefix (frame_bytes ?P m) (cn_input c @ cn_network c)" by (simp add: todo(2) t)
  ultimately have "prefix (frame_bytes ?P m) (cn_input c)"
    using prefix_length_prefix [of "frame_bytes ?P m" _ "cn_input c"] len by simp
  then obtain tail where tail: "cn_input c = frame_bytes ?P m @ tail" by (auto simp: prefix_def)
  have "prost_len ?P m \<le> limit" by fact
  then have "e = m" "input = tail"
    using assms decode_coded [OF m(1), of limit tail] m(2) tail by (simp_all add: sendable_def)
  then show "\<exists>rest. todo = [e] @ rest \<and>
      cn_input (c\<lparr>cn_input := input\<rparr>) @ cn_network (c\<lparr>cn_input := input\<rparr>) = stream_of env rest"
    using todo(2) by (simp add: t tail)
qed

lemma handle_message_keeps:
  assumes "serves env s0 ms True c" "\<forall>m\<in>set ms. carried env m"
    and w: "wire_decode (sv_prost env) (cn_limit c) (cn_input c) = (Inr (Some e), input)"
  shows "keeps env s0 ms (handle_message env e now (c\<lparr>cn_input := input\<rparr>))"
proof -
  let ?R = "sv_receiver env" and ?s = "cn_session c"
  obtain r s where h: "session_handle_deferred ?R e now ?s = (r, s)" by fastforce
  have took: "takes env [e] c (c\<lparr>cn_input := input, cn_session := s'\<rparr>)" for s'
    using decode_takes [OF w] by (simp add: takes_def)
  show ?thesis
  proof (cases r)
    case (Inr es)
    have "speaks ?R [(HandleDeferred e, now)] ?s (Inr es, s)"
      using speaks_call [of ?R "HandleDeferred e" now ?s] h Inr by simp
    note step = serves_step(2) [OF assms(1,2) this]
    obtain r' c' where sent: "send_envelopes env es (c\<lparr>cn_input := input, cn_session := s\<rparr>) = (r', c')" by fastforce
    have "serves env s0 ms (r' = Inr ()) c'" by (rule step [OF _ _ _ _ sent]) (simp_all add: took)
    then show ?thesis using h Inr sent by (cases r') (simp_all add: handle_message_def keeps_def)
  next
    case (Inl error)
    obtain response s' where err: "session_protocol_error error (env_message_id e) s = (response, s')" by fastforce
    have "speaks ?R [(HandleDeferred e, now), (ReportError error (env_message_id e), now)] ?s (Inr [response], s')"
      using h Inl err by (simp add: speaks_def)
    note step = serves_step(2) [OF assms(1,2) this]
    obtain r' c' where sent: "send_envelopes env [response] (c\<lparr>cn_input := input, cn_session := s'\<rparr>) = (r', c')" by fastforce
    have "serves env s0 ms (r' = Inr ()) c'" by (rule step [OF _ _ _ _ sent]) (simp_all add: took)
    then have "serves env s0 ms False c'" by (cases r') (auto simp: serves_def)
    then show ?thesis using h Inl err sent by (cases r') (simp_all add: handle_message_def keeps_def)
  qed
qed

lemma end_loop_keeps: "serves env s0 ms True c \<Longrightarrow> keeps env s0 ms (end_loop a c)"
  by (simp add: keeps_def serves_partly)

lemma handle_messages_keeps:
  "serves env s0 ms True c \<Longrightarrow> \<forall>m\<in>set ms. carried env m \<Longrightarrow> keeps env s0 ms (handle_messages env clock n decoded c)"
proof (induction n arbitrary: decoded c)
  case (Suc n)
  obtain res input where w: "wire_decode (sv_prost env) (cn_limit c) (cn_input c) = (res, input)" by fastforce
  show ?case
  proof (cases "\<exists>e. res = Inr (Some e)")
    case True
    then obtain e where res: "res = Inr (Some e)" by blast
    have "keeps env s0 ms (try_then (handle_message env e (clock decoded) (c\<lparr>cn_input := input\<rparr>)) (\<lambda>_ c1.
        let c2 = adopt_limit c1 in if se_closed (cn_session c2) then end_loop None c2
        else handle_messages env clock n (Suc decoded) c2))"
    proof (rule keeps_try [OF handle_message_keeps [OF Suc.prems w [unfolded res]]])
      fix u c1
      assume "serves env s0 ms True c1"
      then have "serves env s0 ms True (adopt_limit c1)" by (rule serves_update [rotated 3]) (simp_all add: adopt_limit_def)
      then show "keeps env s0 ms (let c2 = adopt_limit c1 in if se_closed (cn_session c2) then end_loop None c2
          else handle_messages env clock n (Suc decoded) c2)"
        using Suc by (simp add: Let_def end_loop_keeps)
    qed
    then show ?thesis by (simp add: w res)
  next
    case False
    have unchanged: "res = Inr None \<longrightarrow> input = cn_input c"
      using w by (auto simp: wire_decode_def Let_def split: if_splits option.splits)
    have partly: "serves env s0 ms False (c\<lparr>cn_input := input\<rparr>)"
      using serves_partly [OF Suc.prems(1), of False] by (simp add: serves_def)
    show ?thesis
      using False partly Suc.prems(1) unchanged by (cases res) (auto simp: w keeps_def)
  qed
qed (simp add: keeps_def)

lemma read_socket_keeps: "serves env s0 ms True c \<Longrightarrow> keeps env s0 ms (read_socket event c)"
  by (cases event) (auto simp: read_socket_def keeps_def Let_def serves_partly intro: serves_update [rotated 3])

lemma turn_keeps:
  assumes "serves env s0 ms True c" "\<forall>m\<in>set ms. carried env m" "hook_speaks env"
  shows "keeps env s0 ms (serve_turn env t c)"
proof -
  have last: "keeps env s0 ms (try_then (on_session env (session_poll (sv_receiver env) now) c5) (\<lambda>_ c6.
      if d = messages_per_turn then (Inr True, c6) else read_socket (tn_socket t) c6))"
    if "serves env s0 ms True c5" for d now c5
    using that by (intro keeps_try [OF poll_keeps [OF _ assms(2)]]) (auto simp: keeps_def intro: read_socket_keeps [unfolded keeps_def])
  have messages: "keeps env s0 ms (try_then (handle_messages env clock n 0 c4) (\<lambda>progress c5.
      case progress of None \<Rightarrow> (Inr False, c5) | Some decoded \<Rightarrow>
        try_then (on_session env (session_poll (sv_receiver env) now) c5) (\<lambda>_ c6.
          if decoded = messages_per_turn then (Inr True, c6) else read_socket (tn_socket t) c6)))"
    if "serves env s0 ms True c4" for clock n now c4
    by (rule keeps_try [OF handle_messages_keeps [OF that assms(2)]])
      (auto simp: keeps_def split: option.split intro: last [unfolded keeps_def])
  show ?thesis unfolding serve_turn_def
    by (rule keeps_try [OF drain_capture_keeps [OF assms(1,2)]],
      rule keeps_try [OF drain_presses_keeps [OF _ assms(2)]], assumption,
      rule keeps_try [OF run_hook_keeps [OF _ assms(2,3)]], assumption,
      rule keeps_try [OF poll_keeps [OF _ assms(2)]], assumption)
      (auto intro: messages end_loop_keeps)
qed

lemma turns_keep:
  "serves env s0 ms True c \<Longrightarrow> \<forall>m\<in>set ms. carried env m \<Longrightarrow> hook_speaks env \<Longrightarrow>
   keeps env s0 ms (serve_turns env ts c)"
proof (induction ts arbitrary: c)
  case (Cons t ts)
  show ?case unfolding serve_turns.simps
    by (rule keeps_try [OF turn_keeps [OF Cons.prems]]) (use Cons in \<open>auto simp: keeps_def\<close>)
qed (simp add: keeps_def)

lemma loop_keeps:
  assumes "serves env s0 ms True c" "\<forall>m\<in>set ms. carried env m" "hook_speaks env"
  shows "keeps env s0 ms (drive_connection_loop env turns c)"
  unfolding drive_connection_loop_def
  by (rule keeps_try [OF run_hook_keeps [OF assms]]) (rule turns_keep [OF _ assms(2,3)])

text \<open>
  Claim C14. The loop of the server is a run of session calls: over any turns, the messages it hands
  to the session are the messages the peer sent, each once and in order, and what it writes is the
  framing of exactly what the session emitted, in order; an error of the stream or the session cuts
  the written bytes short but neither reorders nor repeats them. The hook is assumed to return what
  its session calls emitted.
\<close>

theorem server_refines_session:
  assumes "drive_connection_loop env turns (connection_new config s pen_available h network) = (r, c)"
    and "network = concat (map (frame_bytes (sv_prost env)) ms)"
    and "\<forall>m\<in>set ms. coded (sv_prost env) m \<and> prost_len (sv_prost env) m \<le> u32_max"
    and "hook_speaks env"
  shows "\<exists>calls es todo.
    session_run (sv_receiver env) calls (set_pen_available pen_available s) = (es, cn_session c) \<and>
    ms = handled calls @ todo \<and>
    prefix (cn_sent c) (concat (map (frame_bytes (sv_prost env)) es)) \<and>
    (\<not> isl r \<longrightarrow> cn_sent c = concat (map (frame_bytes (sv_prost env)) es) \<and>
       cn_input c @ cn_network c = concat (map (frame_bytes (sv_prost env)) todo))"
proof -
  let ?c = "connection_new config s pen_available h network" and ?s = "set_pen_available pen_available s"
  have "serves env ?s ms True ?c"
    unfolding serves_def
    by (intro exI [of _ "[]"] exI [of _ ms]) (simp add: connection_new_def assms(2))
  moreover have "\<forall>m\<in>set ms. carried env m" using assms(3) by (simp add: carried_def)
  ultimately have "keeps env ?s ms (drive_connection_loop env turns ?c)" using assms(4) by (rule loop_keeps)
  then show ?thesis by (simp add: assms(1) keeps_def serves_def)
qed

section \<open>A handshake and a frame over a socket\<close>

text \<open>The messages of the example producer, numbered by one byte; what the session answers is one byte.\<close>

definition example_prost :: "envelope prost" where
  "example_prost =
     \<lparr>prost_len = \<lambda>_. 1, prost_encode = \<lambda>e. [ucast (env_message_id e)],
      prost_decode = \<lambda>bs. case bs of [b] \<Rightarrow>
        if 0 < b \<and> unat b \<le> length example_messages then Some (example_messages ! (unat b - 1)) else None | _ \<Rightarrow> None\<rparr>"

definition example_server :: "(mock_panel, nat) server_env" where
  "example_server =
     \<lparr>sv_receiver = example_env, sv_prost = example_prost, sv_write = \<lambda>_ _. None,
      sv_hook = Some (\<lambda>h now s. (session_poll example_env now s, Suc h))\<rparr>"

definition example_turn :: "nat \<Rightarrow> turn" where
  "example_turn n =
     \<lparr>tn_now = 0, tn_reports = [], tn_presses = 0, tn_hook_now = 0, tn_message_now = \<lambda>_. 0, tn_poll_now = 0,
      tn_socket = SocketReady n\<rparr>"

definition example_network :: bytes where
  "example_network = concat (map (frame_bytes example_prost) example_messages)"

definition example_connection :: "(mock_panel, nat) connection" where
  "example_connection = connection_new example_config example_session False 0 example_network"

text \<open>Three turns: a read that splits the second message, its rest, and the last two messages.\<close>

lemma example_loop:
  "\<exists>c. drive_connection_loop example_server (map example_turn [20, 20, 0]) example_connection = (Inr True, c) \<and>
     length (cn_sent c) = 36 \<and> cn_input c = [] \<and> cn_network c = []"
proof -
  have "case drive_connection_loop example_server (map example_turn [20, 20, 0]) example_connection of
      (r, c) \<Rightarrow> r = Inr True \<and> length (cn_sent c) = 36 \<and> cn_input c = [] \<and> cn_network c = []" by code_simp
  then show ?thesis by (auto split: prod.splits)
qed

theorem server_input_bounded_witness:
  "\<exists>c. drive_connection_loop example_server (map example_turn [20, 20, 0]) example_connection = (Inr True, c) \<and>
     length (cn_input c) \<le> header_len + 8 * 1024 * 1024 + 64 * 1024"
proof -
  from example_loop obtain c where
    run: "drive_connection_loop example_server (map example_turn [20, 20, 0]) example_connection = (Inr True, c)" by blast
  from server_input_bounded [OF run [unfolded example_connection_def]] show ?thesis
    using run by (simp add: example_config_def default_limits_def)
qed

theorem server_refines_session_witness:
  "\<exists>c calls es. drive_connection_loop example_server (map example_turn [20, 20, 0]) example_connection = (Inr True, c) \<and>
     session_run example_env calls (set_pen_available False example_session) = (es, cn_session c) \<and>
     handled calls = example_messages \<and> cn_sent c = concat (map (frame_bytes example_prost) es)"
proof -
  from example_loop obtain c where
    run: "drive_connection_loop example_server (map example_turn [20, 20, 0]) example_connection = (Inr True, c)"
      "cn_input c = []" "cn_network c = []" by blast
  have parts: "sv_receiver example_server = example_env" "sv_prost example_server = example_prost"
    by (simp_all add: example_server_def)
  have carried: "\<forall>m\<in>set example_messages. coded (sv_prost example_server) m \<and> prost_len (sv_prost example_server) m \<le> u32_max"
  proof -
    have "list_all (\<lambda>m. coded example_prost m \<and> prost_len example_prost m \<le> u32_max) example_messages" by code_simp
    then show ?thesis by (simp add: list_all_iff parts)
  qed
  have hook: "hook_speaks example_server"
    unfolding hook_speaks_def parts
  proof (intro allI impI)
    fix hook h now s
    assume "sv_hook example_server = Some hook"
    then have "fst (hook h now s) = make_call example_env Poll now s" by (auto simp: example_server_def)
    then show "\<exists>calls. handled calls = [] \<and> speaks example_env calls s (fst (hook h now s))"
      by (intro exI [of _ "[(Poll, now)]"]) (simp only: handled.simps speaks_call simp_thms)
  qed
  have "example_network = concat (map (frame_bytes (sv_prost example_server)) example_messages)"
    by (simp only: example_network_def parts)
  from server_refines_session [OF run(1) [unfolded example_connection_def] this carried hook]
  obtain calls es todo where "session_run example_env calls (set_pen_available False example_session) = (es, cn_session c)"
    "example_messages = handled calls @ todo" "cn_sent c = concat (map (frame_bytes example_prost) es)"
    "[] = concat (map (frame_bytes example_prost) todo)"
    unfolding parts run(2,3) append_Nil using sum.disc(2) by fast
  moreover from this have "todo = []" by (cases todo) (simp_all add: frame_bytes_nonempty)
  ultimately show ?thesis using run(1) by (metis append_Nil2)
qed

end
