(* ===== verification/Receiver_Server.thy ===== *)
theory Receiver_Server
  imports Server
begin

text \<open>
  The life of the receiver around its connections, \<open>ReceiverServer\<close> in
  \<open>crates/rm-display-receiver/src/server.rs\<close>: binding, the pairing offer on the panel, waiting with
  the local menu, serving one connection after the other. What the operating system answers (the
  listener, the devices, the TLS handshake, the key file) are arguments; so are the random numbers.
\<close>

section \<open>State\<close>

text \<open>The transport security is kept beside the configuration record, which the session also has.\<close>

record ('p, 'h) receiver_server =
  rs_config :: receiver_config
  rs_security :: security_mode
  rs_bound :: "ip_addr \<times> nat"
  rs_psk :: "bytes option"
  rs_managed_psk_path :: "string option"
  rs_panel :: 'p
  rs_pairing_frame :: pixel_surface
  rs_pairing_qr_enabled :: bool
  rs_input :: bool
  rs_pen :: bool
  rs_power_key :: bool
  rs_hook :: 'h

record ('p, 'h) outer_env =
  oe_server :: "('p, 'h) server_env"
  oe_interfaces :: "interface_ipv4 list"
  oe_qr_encode :: "string \<Rightarrow> qr_code option"

abbreviation oe_backend :: "('p, 'h) outer_env \<Rightarrow> 'p panel_backend" where
  "oe_backend env \<equiv> re_backend (sv_receiver (oe_server env))"

type_synonym ('p, 'h, 'a) outer_step = "(server_error, 'a) result \<times> ('p, 'h) receiver_server"

section \<open>Construction\<close>

text \<open>\<open>touch\<close> is the outcome of opening the touchscreen: a path, none, or the failure of an explicit one.\<close>

definition from_listener ::
  "receiver_config \<Rightarrow> security_mode \<Rightarrow> ip_addr \<times> nat \<Rightarrow> 'p panel_backend \<Rightarrow> 'p \<Rightarrow> bool \<Rightarrow> (unit, string option) result \<Rightarrow>
   bool \<Rightarrow> bool \<Rightarrow> 'h \<Rightarrow> (server_error, ('p, 'h) receiver_server) result" where
  "from_listener config security bound backend panel psk_ok touch power_key pen h =
     and_then (map_err ServerConfig (receiver_config_validate config)) (\<lambda>_.
     and_then (case security of Plaintext \<Rightarrow> Inr None | Psk key \<Rightarrow> if psk_ok then Inr (Some key) else Inl ServerPskConfig) (\<lambda>psk.
     and_then (map_err ServerSurface
         (surface_new (info_width (panel_info_of backend panel)) (info_height (panel_info_of backend panel)) 255)) (\<lambda>frame.
     and_then (map_err (\<lambda>_. ServerIo) touch) (\<lambda>input. Inr
       \<lparr>rs_config = config\<lparr>rc_input_device := input\<rparr>, rs_security = security, rs_bound = bound, rs_psk = psk,
        rs_managed_psk_path = None, rs_panel = panel, rs_pairing_frame = frame, rs_pairing_qr_enabled = False,
        rs_input = (input \<noteq> None), rs_pen = pen, rs_power_key = power_key, rs_hook = h\<rparr>))))"

definition set_managed_psk_path :: "string option \<Rightarrow> ('p, 'h) receiver_server \<Rightarrow> ('p, 'h) receiver_server" where
  "set_managed_psk_path path sv = sv\<lparr>rs_managed_psk_path := path\<rparr>"

section \<open>The pairing offer\<close>

definition offer_uri :: "('p, 'h) outer_env \<Rightarrow> ('p, 'h) receiver_server \<Rightarrow> string" where
  "offer_uri env sv =
     pairing_uri (rs_security sv) (rc_server_id (rs_config sv)) (fst (rs_bound sv)) (snd (rs_bound sv)) (oe_interfaces env)"

definition show_pairing_qr :: "('p, 'h) outer_env \<Rightarrow> ('p, 'h) receiver_server \<Rightarrow> ('p, 'h, unit) outer_step" where
  "show_pairing_qr env sv =
     (let info = panel_info_of (oe_backend env) (rs_panel sv) in
      case render_pairing_frame (oe_qr_encode env) (info_width info) (info_height info) (offer_uri env sv) of
        Inl e \<Rightarrow> (Inl (ServerPairing e), sv)
      | Inr frame \<Rightarrow>
          (case panel_submit (oe_backend env) (rs_panel sv) frame [mk_rect 0 0 (info_width info) (info_height info)]
              \<lparr>dec_waveform = FullQuality, complete_refresh = True, dec_reason = Forced\<rparr> of
             (Inl e, panel) \<Rightarrow> (Inl (ServerPanel e), sv\<lparr>rs_panel := panel\<rparr>)
           | (Inr _, panel) \<Rightarrow>
               (Inr (), sv\<lparr>rs_panel := panel, rs_pairing_frame := frame, rs_pairing_qr_enabled := True\<rparr>)))"

text \<open>A new pairing: the random key, whether it could be stored and the transport be configured.\<close>

record pairing_event =
  pv_key :: bytes
  pv_stored :: bool
  pv_configured :: bool

definition new_pairing ::
  "('p, 'h) outer_env \<Rightarrow> pairing_event \<Rightarrow> ('p, 'h) receiver_server \<Rightarrow> ('p, 'h, unit) outer_step" where
  "new_pairing env e sv =
     (case rs_security sv of
        Plaintext \<Rightarrow> show_pairing_qr env sv
      | Psk _ \<Rightarrow>
          if rs_managed_psk_path sv \<noteq> None \<and> \<not> pv_stored e then (Inl ServerIo, sv)
          else if \<not> pv_configured e then (Inl ServerPskConfig, sv)
          else show_pairing_qr env (sv\<lparr>rs_psk := Some (pv_key e), rs_security := Psk (pv_key e)\<rparr>))"

section \<open>Waiting for a connection\<close>

datatype idle_wait = IdleStream | IdleNewPair | IdleExit

text \<open>One wake-up: which sources are ready and what reading them yields.\<close>

record idle_turn =
  it_poll_ok :: bool
  it_now :: nat
  it_listener :: bool
  it_power :: bool
  it_presses :: nat
  it_pen :: bool
  it_pen_ok :: bool
  it_touch :: bool
  it_reports :: "pointer_event list list option"
  it_accepted :: bool

fun idle_presses :: "'p receiver_env \<Rightarrow> nat \<Rightarrow> nat \<Rightarrow> 'p session \<Rightarrow> ('p, unit) session_step" where
  "idle_presses R 0 now s = (Inr (), s)"
| "idle_presses R (Suc n) now s = try_then (power_key_pressed R now s) (\<lambda>_. idle_presses R n now)"

definition idle_input :: "'p receiver_env \<Rightarrow> idle_turn \<Rightarrow> bool \<Rightarrow> bool \<Rightarrow> 'p session \<Rightarrow> (server_error, unit) result \<times> 'p session" where
  "idle_input R t power_key input s =
     (case idle_presses R (if it_power t \<and> power_key then it_presses t else 0) (it_now t) s of
        (Inl e, s1) \<Rightarrow> (Inl (ServerSession e), s1)
      | (Inr _, s1) \<Rightarrow>
          if it_touch t \<and> input then
            (case it_reports t of
               None \<Rightarrow> (Inl ServerIo, s1)
             | Some reports \<Rightarrow>
                 (case input_reports R reports (it_now t) s1 of
                    (Inl e, s2) \<Rightarrow> (Inl (ServerSession e), s2) | (Inr _, s2) \<Rightarrow> (Inr (), s2)))
          else (Inr (), s1))"

definition keep_policy :: "'p session \<Rightarrow> ('p, 'h) receiver_server \<Rightarrow> ('p, 'h) receiver_server" where
  "keep_policy s sv = sv\<lparr>rs_config := (rs_config sv)\<lparr>rc_refresh_policy := rc_refresh_policy (se_config s)\<rparr>\<rparr>"

definition idle_step ::
  "('p, 'h) outer_env \<Rightarrow> idle_turn \<Rightarrow> 'p session \<times> ('p, 'h) receiver_server \<Rightarrow>
   (server_error, idle_wait option) result \<times> 'p session \<times> ('p, 'h) receiver_server" where
  "idle_step env t st =
     (case st of (s, sv) \<Rightarrow>
        let R = sv_receiver (oe_server env) in
        if \<not> it_poll_ok t then (Inl ServerIo, s, sv)
        else
          let sv1 = (if it_pen t \<and> rs_pen sv \<and> \<not> it_pen_ok t then sv\<lparr>rs_pen := False\<rparr> else sv) in
          case idle_input R t (rs_power_key sv) (rs_input sv) s of
            (Inl e, s1) \<Rightarrow> (Inl e, s1, sv1)
          | (Inr _, s1) \<Rightarrow>
              if se_receiver_exit_requested s1 then (Inr (Some IdleExit), s1, keep_policy s1 sv1)
              else if se_pairing_reset_requested s1 then (Inr (Some IdleNewPair), s1, keep_policy s1 sv1)
              else if it_listener t then
                (let s2 = snd (close_local_menu R (it_now t) s1); sv2 = keep_policy s2 sv1 in
                 if it_accepted t then (Inr (Some IdleStream), s2, sv2) else (Inl ServerIo, s2, sv2))
              else (Inr None, s1, sv1))"

fun idle_loop ::
  "('p, 'h) outer_env \<Rightarrow> idle_turn list \<Rightarrow> 'p session \<times> ('p, 'h) receiver_server \<Rightarrow>
   (server_error, idle_wait option) result \<times> 'p session \<times> ('p, 'h) receiver_server" where
  "idle_loop env [] st = (Inr None, st)"
| "idle_loop env (t # ts) st =
     try_then (idle_step env t st) (\<lambda>outcome st1.
       case outcome of None \<Rightarrow> idle_loop env ts st1 | Some w \<Rightarrow> (Inr (Some w), st1))"

definition fallback_panic :: server_error where
  "fallback_panic = ServerSession (Panicked ''fallback surface geometry was already validated'')"

text \<open>No outcome means that the receiver is still waiting when the turns end.\<close>

definition wait_for_idle_connection ::
  "('p, 'h) outer_env \<Rightarrow> idle_turn list \<Rightarrow> u64 \<Rightarrow> ('p, 'h) receiver_server \<Rightarrow> ('p, 'h, idle_wait option) outer_step" where
  "wait_for_idle_connection env ts session_id sv =
     (case session_new_with_fallback (rs_config sv) (rs_panel sv) (Some (rs_pairing_frame sv)) session_id of
        Inl _ \<Rightarrow> (Inl fallback_panic, sv)
      | Inr s \<Rightarrow>
          (case idle_loop env ts (s, sv) of (outcome, s1, sv1) \<Rightarrow> (outcome, sv1\<lparr>rs_panel := se_panel s1\<rparr>)))"

section \<open>Serving\<close>

record connection_event =
  ce_session_id :: u64
  ce_socket_ok :: bool
  ce_handshake_ok :: bool
  ce_capture_ok :: bool
  ce_capture_failed :: bool
  ce_network :: bytes
  ce_turns :: "turn list"

definition forget_input :: "bool \<Rightarrow> ('p, 'h) receiver_server \<Rightarrow> ('p, 'h) receiver_server" where
  "forget_input failed sv =
     (let sv1 = (if failed then sv\<lparr>rs_input := False, rs_pen := False\<rparr> else sv) in
      if rs_input sv1 then sv1 else sv1\<lparr>rs_config := (rs_config sv1)\<lparr>rc_input_device := None\<rparr>\<rparr>)"

text \<open>The result tells whether the connection is still open when its turns end.\<close>

definition serve_stream ::
  "('p, 'h) outer_env \<Rightarrow> connection_event \<Rightarrow> ('p, 'h) receiver_server \<Rightarrow> ('p, 'h, bool) outer_step" where
  "serve_stream env e sv =
     (if \<not> ce_socket_ok e then (Inl ServerIo, sv)
      else if rs_psk sv \<noteq> None \<and> \<not> ce_handshake_ok e then (Inl ServerPskTransport, sv)
      else if \<not> ce_capture_ok e then (Inl ServerIo, forget_input False sv)
      else case session_new_with_fallback (rs_config sv) (rs_panel sv) (Some (rs_pairing_frame sv)) (ce_session_id e) of
          Inl _ \<Rightarrow> (Inl fallback_panic, sv)
        | Inr s \<Rightarrow>
            (case drive_connection_loop (oe_server env) (ce_turns e)
                (connection_new (rs_config sv) s (rs_pen sv) (rs_hook sv) (ce_network e)) of
               (outcome, c) \<Rightarrow>
                 (outcome, forget_input (ce_capture_failed e)
                    (sv\<lparr>rs_panel := se_panel (cn_session c), rs_hook := cn_hook c\<rparr>))))"

definition serve_connected ::
  "('p, 'h) outer_env \<Rightarrow> connection_event \<Rightarrow> pairing_event \<Rightarrow> ('p, 'h) receiver_server \<Rightarrow> ('p, 'h, bool) outer_step" where
  "serve_connected env e pairing sv =
     (case serve_stream env e sv of
        (Inl ReceiverExit, sv1) \<Rightarrow> (Inr False, sv1)
      | (Inl NewPair, sv1) \<Rightarrow> try_then (new_pairing env pairing sv1) (\<lambda>_ sv2. (Inr False, sv2))
      | outcome \<Rightarrow> outcome)"

section \<open>The outer loop\<close>

record serve_round =
  rd_idle_session_id :: u64
  rd_idle :: "idle_turn list"
  rd_connection :: connection_event
  rd_pairing :: pairing_event

text \<open>Where the receiver is when the rounds end: between two rounds, waiting, serving, or ended.\<close>

datatype phase = Between | Waiting | Serving | Exited

fun receiver_run :: "('p, 'h) outer_env \<Rightarrow> serve_round list \<Rightarrow> ('p, 'h) receiver_server \<Rightarrow> ('p, 'h, phase) outer_step" where
  "receiver_run env [] sv = (Inr Between, sv)"
| "receiver_run env (r # rs) sv =
     try_then (wait_for_idle_connection env (rd_idle r) (rd_idle_session_id r) sv) (\<lambda>waited sv1.
       case waited of
         None \<Rightarrow> (Inr Waiting, sv1)
       | Some IdleExit \<Rightarrow> (Inr Exited, sv1)
       | Some IdleNewPair \<Rightarrow> try_then (new_pairing env (rd_pairing r) sv1) (\<lambda>_. receiver_run env rs)
       | Some IdleStream \<Rightarrow>
           (case serve_stream env (rd_connection r) sv1 of
              (Inl ReceiverExit, sv2) \<Rightarrow> (Inr Exited, sv2)
            | (Inl NewPair, sv2) \<Rightarrow> try_then (new_pairing env (rd_pairing r) sv2) (\<lambda>_. receiver_run env rs)
            | (Inr True, sv2) \<Rightarrow> (Inr Serving, sv2)
            | (_, sv2) \<Rightarrow>
                if rs_pairing_qr_enabled sv2 then try_then (show_pairing_qr env sv2) (\<lambda>_. receiver_run env rs)
                else receiver_run env rs sv2))"

section \<open>What stands between two connections\<close>

text \<open>The fields that only the pairing changes, and the fields that nothing changes.\<close>

definition same_offer :: "('p, 'h) receiver_server \<Rightarrow> ('p, 'h) receiver_server \<Rightarrow> bool" where
  "same_offer sv sv' \<longleftrightarrow> rs_security sv' = rs_security sv \<and> rs_psk sv' = rs_psk sv \<and> rs_bound sv' = rs_bound sv \<and>
     rs_pairing_qr_enabled sv' = rs_pairing_qr_enabled sv \<and>
     rc_server_id (rs_config sv') = rc_server_id (rs_config sv) \<and> rc_limits (rs_config sv') = rc_limits (rs_config sv) \<and>
     rc_verify_token (rs_config sv') = rc_verify_token (rs_config sv)"

lemma same_offer_trans: "same_offer a b \<Longrightarrow> same_offer b c \<Longrightarrow> same_offer a c"
  by (simp add: same_offer_def)

lemma keep_policy_offer: "same_offer sv (keep_policy s sv)"
  by (simp add: same_offer_def keep_policy_def)

lemma idle_step_offer: "idle_step env t (s, sv) = (outcome, s', sv') \<Longrightarrow> same_offer sv sv'"
  by (auto simp: idle_step_def Let_def same_offer_def keep_policy_def split: if_splits prod.splits sum.splits)

lemma idle_loop_offer: "idle_loop env ts (s, sv) = (outcome, s', sv') \<Longrightarrow> same_offer sv sv'"
proof (induction ts arbitrary: s sv)
  case (Cons t ts)
  obtain out s1 sv1 where step: "idle_step env t (s, sv) = (out, s1, sv1)" by (rule prod_cases3)
  then show ?case
    using Cons idle_step_offer [OF step]
    by (auto simp: try_then_def intro: same_offer_trans split: sum.splits option.splits)
qed (simp add: same_offer_def)

lemma wait_offer: "wait_for_idle_connection env ts i sv = (outcome, sv') \<Longrightarrow> same_offer sv sv'"
  by (auto simp: wait_for_idle_connection_def same_offer_def split: sum.splits prod.splits dest: idle_loop_offer)

lemma serve_offer: "serve_stream env e sv = (outcome, sv') \<Longrightarrow> same_offer sv sv'"
  by (auto simp: serve_stream_def forget_input_def same_offer_def Let_def split: if_splits sum.splits prod.splits)

text \<open>
  The state in which the receiver waits: the transport accepts the key of the offer, and where the
  offer is enabled the panel shows its picture.
\<close>

definition psk_of :: "security_mode \<Rightarrow> bytes option" where
  "psk_of security = (case security of Plaintext \<Rightarrow> None | Psk key \<Rightarrow> Some key)"

definition offer_current :: "('p, 'h) outer_env \<Rightarrow> ('p \<Rightarrow> pixel_surface) \<Rightarrow> ('p, 'h) receiver_server \<Rightarrow> bool" where
  "offer_current env screen sv \<longleftrightarrow> rs_psk sv = psk_of (rs_security sv) \<and>
     (rs_pairing_qr_enabled sv \<longrightarrow>
       (\<exists>width height. render_pairing_frame (oe_qr_encode env) width height (offer_uri env sv) = Inr (rs_pairing_frame sv)) \<and>
       screen (rs_panel sv) = rs_pairing_frame sv)"

text \<open>A submission of the whole panel that succeeds is what the panel shows.\<close>

definition shows_submissions :: "'p panel_backend \<Rightarrow> ('p \<Rightarrow> pixel_surface) \<Rightarrow> bool" where
  "shows_submissions backend screen \<longleftrightarrow> (\<forall>p frame d m p'.
     panel_submit backend p frame
       [mk_rect 0 0 (info_width (panel_info_of backend p)) (info_height (panel_info_of backend p))] d = (Inr m, p') \<longrightarrow>
     screen p' = frame)"

lemma show_offers:
  assumes "shows_submissions (oe_backend env) screen" and "rs_psk sv = psk_of (rs_security sv)"
    and "show_pairing_qr env sv = (Inr (), sv')"
  shows "offer_current env screen sv' \<and> rs_pairing_qr_enabled sv' \<and> rs_security sv' = rs_security sv"
  using assms by (auto simp: show_pairing_qr_def offer_current_def offer_uri_def shows_submissions_def Let_def
      split: sum.splits prod.splits) blast

lemma new_pairing_offers:
  assumes "shows_submissions (oe_backend env) screen" and "rs_psk sv = psk_of (rs_security sv)"
    and "new_pairing env e sv = (Inr (), sv')"
  shows "offer_current env screen sv' \<and> rs_pairing_qr_enabled sv'"
  using assms show_offers [OF assms(1), of sv sv']
    show_offers [OF assms(1), of "sv\<lparr>rs_psk := Some (pv_key e), rs_security := Psk (pv_key e)\<rparr>" sv']
  by (auto simp: new_pairing_def psk_of_def split: security_mode.splits if_splits)

lemma shown_offers:
  assumes "shows_submissions (oe_backend env) screen" and "rs_psk sv = psk_of (rs_security sv)"
    and "(if rs_pairing_qr_enabled sv then show_pairing_qr env sv else (Inr (), sv)) = (Inr (), sv')"
  shows "offer_current env screen sv'"
  using assms show_offers [OF assms(1,2), of sv'] by (cases "rs_pairing_qr_enabled sv") (auto simp: offer_current_def)

text \<open>The keys agree, whether or not the panel shows the offer.\<close>

lemma offers_keys: "offer_current env screen sv \<Longrightarrow> same_offer sv sv' \<Longrightarrow> rs_psk sv' = psk_of (rs_security sv')"
  by (simp add: offer_current_def same_offer_def)

lemma run_offers:
  assumes "shows_submissions (oe_backend env) screen"
  shows "receiver_run env rs sv = (Inr Between, sv') \<Longrightarrow> offer_current env screen sv \<Longrightarrow> offer_current env screen sv'"
proof (induction rs arbitrary: sv)
  case (Cons r rs)
  obtain waited sv1 where w: "wait_for_idle_connection env (rd_idle r) (rd_idle_session_id r) sv = (waited, sv1)" by fastforce
  note keys1 = offers_keys [OF Cons.prems(2) wait_offer [OF w]]
  obtain kind where kind: "waited = Inr (Some kind)" "kind \<noteq> IdleExit"
    using Cons.prems(1) w by (cases waited) (auto split: option.splits idle_wait.splits)
  have again: "offer_current env screen sv'"
    if "try_then (new_pairing env (rd_pairing r) sv0) (\<lambda>_. receiver_run env rs) = (Inr Between, sv')"
      "rs_psk sv0 = psk_of (rs_security sv0)" for sv0
    using that new_pairing_offers [OF assms that(2)] Cons.IH
    by (cases "new_pairing env (rd_pairing r) sv0") (auto simp: try_then_def split: sum.splits)
  show ?case
  proof (cases "kind = IdleNewPair")
    case True
    then show ?thesis using again [OF _ keys1] Cons.prems(1) w kind by simp
  next
    case False
    then have stream: "kind = IdleStream" using kind(2) by (cases kind) auto
    obtain served sv2 where s: "serve_stream env (rd_connection r) sv1 = (served, sv2)" by fastforce
    have keys2: "rs_psk sv2 = psk_of (rs_security sv2)"
      using keys1 serve_offer [OF s] by (simp add: same_offer_def)
    have more: "offer_current env screen sv'"
      if "(if rs_pairing_qr_enabled sv2 then try_then (show_pairing_qr env sv2) (\<lambda>_. receiver_run env rs)
        else receiver_run env rs sv2) = (Inr Between, sv')"
    proof (cases "rs_pairing_qr_enabled sv2")
      case True
      then have "try_then (show_pairing_qr env sv2) (\<lambda>_. receiver_run env rs) = (Inr Between, sv')" using that by simp
      then obtain sv3 where "show_pairing_qr env sv2 = (Inr (), sv3)" "receiver_run env rs sv3 = (Inr Between, sv')"
        by (auto simp: try_then_def split: sum.splits prod.splits)
      then show ?thesis using Cons.IH show_offers [OF assms keys2] by blast
    next
      case False
      then show ?thesis using that Cons.IH keys2 by (simp add: offer_current_def)
    qed
    show ?thesis
    proof (cases "served = Inl NewPair")
      case True
      then show ?thesis using again [OF _ keys2] Cons.prems(1) w kind stream s by simp
    next
      case False
      then show ?thesis
        using more Cons.prems(1) w kind stream s
        by (auto split: sum.splits server_error.splits bool.splits)
    qed
  qed
qed simp


section \<open>A connection that asks for a new pairing\<close>

text \<open>
  A one-module code, the mock panel, and a receiver that paints its offer, serves a connection which
  ends at once, and paints the offer again.
\<close>

definition tiny_code :: qr_code where
  "tiny_code = \<lparr>qr_modules = 1, qr_dark = \<lambda>_ _. True\<rparr>"

definition example_outer :: "(mock_panel, nat) outer_env" where
  "example_outer = \<lparr>oe_server = example_server, oe_interfaces = [], oe_qr_encode = \<lambda>_. Some tiny_code\<rparr>"

definition example_receiver :: "(mock_panel, nat) receiver_server" where
  "example_receiver =
     \<lparr>rs_config = example_config, rs_security = Psk [1], rs_bound = (V4 (10, 11, 99, 1), 7420), rs_psk = Some [1],
      rs_managed_psk_path = None, rs_panel = mock_new 34 34,
      rs_pairing_frame = \<lparr>ps_width = 34, ps_height = 34, ps_format = Gray8, ps_pixels = replicate (34 * 34) 255\<rparr>,
      rs_pairing_qr_enabled = False, rs_input = False, rs_pen = False, rs_power_key = False, rs_hook = 0\<rparr>"

definition last_shown :: "mock_panel \<Rightarrow> pixel_surface" where
  "last_shown p =
     \<lparr>ps_width = info_width (mock_info p), ps_height = info_height (mock_info p),
      ps_format = rec_pixel_format (last (mock_submissions p)), ps_pixels = rec_pixels (last (mock_submissions p))\<rparr>"

definition example_round :: serve_round where
  "example_round =
     \<lparr>rd_idle_session_id = 1,
      rd_idle = [\<lparr>it_poll_ok = True, it_now = 0, it_listener = True, it_power = False, it_presses = 0, it_pen = False,
        it_pen_ok = True, it_touch = False, it_reports = None, it_accepted = True\<rparr>],
      rd_connection = \<lparr>ce_session_id = 2, ce_socket_ok = True, ce_handshake_ok = True, ce_capture_ok = True,
        ce_capture_failed = False, ce_network = [],
        ce_turns = [(example_turn 0)\<lparr>tn_socket := SocketClosed\<rparr>]\<rparr>,
      rd_pairing = \<lparr>pv_key = [], pv_stored = True, pv_configured = True\<rparr>\<rparr>"

lemma last_shown_shows: "shows_submissions mock_backend last_shown"
proof -
  have "last_shown p' = frame" if "mock_submit p frame damage d = (Inr m, p')" for p frame damage d m p'
  proof -
    have p': "p' = p\<lparr>mock_submissions := mock_submissions p @
        [\<lparr>rec_pixel_format = ps_format frame, rec_pixels = ps_pixels frame, rec_damage = damage, rec_refresh = d\<rparr>]\<rparr>"
      and geometry: "ps_width frame = info_width (mock_info p)" "ps_height frame = info_height (mock_info p)"
      using that by (auto simp: mock_submit_def split: if_splits option.splits)
    show ?thesis unfolding p' last_shown_def by (simp add: geometry [symmetric])
  qed
  then show ?thesis by (auto simp: shows_submissions_def mock_backend_def)
qed

lemma example_offer:
  assumes "mock_info (rs_panel sv) = \<lparr>info_width = 34, info_height = 34, color_rgb565 = False\<rparr>"
    and "mock_fail_next (rs_panel sv) = None"
  shows "\<exists>frame panel. show_pairing_qr example_outer sv =
      (Inr (), sv\<lparr>rs_panel := panel, rs_pairing_frame := frame, rs_pairing_qr_enabled := True\<rparr>) \<and>
    ps_width frame = 34 \<and> ps_height frame = 34 \<and> mock_info panel = mock_info (rs_panel sv) \<and> mock_fail_next panel = None"
proof -
  have big: "(34 :: nat) \<le> u32_max" by (simp add: u32_max_def)
  obtain frame where frame: "from_pixels 34 34 (draw_modules tiny_code 34 3 3 3 (replicate (34 * 34) 255)) = Inr frame"
    "shows_code tiny_code 34 34 3 15 15 frame"
    using drawn_picture [of 3 tiny_code 3 34 3 34] big by (auto simp: tiny_code_def)
  have "render_pairing_frame (oe_qr_encode example_outer) 34 34 (offer_uri example_outer sv) = Inr frame"
    using frame(1) by (simp add: render_pairing_frame_def example_outer_def tiny_code_def quiet_modules_def)
  moreover have "ps_width frame = 34" "ps_height frame = 34" using frame(2) by (simp_all add: shows_code_def)
  ultimately have "show_pairing_qr example_outer sv = (Inr (), sv\<lparr>rs_panel := snd (mock_submit (rs_panel sv) frame
      [mk_rect 0 0 34 34] \<lparr>dec_waveform = FullQuality, complete_refresh = True, dec_reason = Forced\<rparr>),
      rs_pairing_frame := frame, rs_pairing_qr_enabled := True\<rparr>)"
    "mock_info (snd (mock_submit (rs_panel sv) frame damage d)) = mock_info (rs_panel sv)"
    "mock_fail_next (snd (mock_submit (rs_panel sv) frame damage d)) = None" for damage d
    using assms by (simp_all add: show_pairing_qr_def example_outer_def example_server_def example_env_def
        mock_backend_def mock_submit_def)
  then show ?thesis using \<open>ps_width frame = 34\<close> \<open>ps_height frame = 34\<close> by blast
qed

text \<open>The example connection: no menu is open, no surface is open, and the peer hangs up.\<close>

lemma fresh_session:
  assumes "session_new_with_fallback config panel fallback i = Inr s"
  shows "se_surface s = None" "\<not> se_closed s" "\<not> menu_visible (se_menu s)" "se_panel s = panel"
    "\<not> se_receiver_exit_requested s" "\<not> se_pairing_reset_requested s"
  using assms by (auto simp: session_new_with_fallback_def and_then_def menu_default_def split: sum.splits)

lemma fresh_session_34:
  assumes "ps_width frame = 34" "ps_height frame = 34"
  obtains s where "session_new_with_fallback config panel (Some frame) i = Inr s"
  using assms by (auto simp: session_new_with_fallback_def and_then_def overlay_transparent_def pixel_len_def
      checked_mul_usize_def u64_max_def)

lemma idle_poll: "se_surface s = None \<Longrightarrow> session_poll env now s = (Inr [], s)"
  by (simp add: session_poll_def)

lemma send_nothing: "send_envelopes env [] c = (Inr (), c)"
  by (simp add: send_envelopes_def write_envelopes_def)

lemma example_loop_ends:
  assumes "se_surface (cn_session c) = None" "\<not> se_closed (cn_session c)" "cn_input c = []"
  shows "\<exists>c'. drive_connection_loop example_server (ce_turns (rd_connection example_round)) c = (Inr False, c') \<and>
    cn_session c' = cn_session c"
proof -
  have hook: "run_hook example_server now c0 = (Inr (), c0\<lparr>cn_hook := Suc (cn_hook c0)\<rparr>)"
    and poll: "on_session example_server (session_poll env now) c0 = (Inr (), c0)"
    if "se_surface (cn_session c0) = None" for now c0 env
    using that by (simp_all add: run_hook_def on_session_def example_server_def idle_poll send_nothing)
  show ?thesis
    using assms by (simp add: drive_connection_loop_def example_round_def example_turn_def serve_turn_def hook poll
        messages_per_turn_def numeral_eq_Suc wire_decode_def header_len_def read_socket_def)
qed

lemma example_round_runs:
  assumes "mock_info (rs_panel sv) = \<lparr>info_width = 34, info_height = 34, color_rgb565 = False\<rparr>"
    and "mock_fail_next (rs_panel sv) = None" "ps_width (rs_pairing_frame sv) = 34" "ps_height (rs_pairing_frame sv) = 34"
    and "rs_pairing_qr_enabled sv" "\<not> rs_pen sv"
  shows "\<exists>sv'. receiver_run example_outer [example_round] sv = (Inr Between, sv') \<and> rs_pairing_qr_enabled sv'"
proof -
  obtain s where s: "session_new_with_fallback (rs_config sv) (rs_panel sv) (Some (rs_pairing_frame sv)) 1 = Inr s"
    using fresh_session_34 [OF assms(3,4)] .
  let ?sv1 = "(keep_policy s sv)\<lparr>rs_panel := rs_panel sv\<rparr>"
  have waited: "wait_for_idle_connection example_outer (rd_idle example_round) 1 sv = (Inr (Some IdleStream), ?sv1)"
    using fresh_session [OF s]
    by (simp add: wait_for_idle_connection_def s example_round_def idle_step_def idle_input_def close_local_menu_def Let_def)
  have "ps_width (rs_pairing_frame ?sv1) = 34" "ps_height (rs_pairing_frame ?sv1) = 34"
    using assms(3,4) by (simp_all add: keep_policy_def)
  then obtain s2 where s2: "session_new_with_fallback (rs_config ?sv1) (rs_panel ?sv1) (Some (rs_pairing_frame ?sv1)) 2 = Inr s2"
    by (rule fresh_session_34)
  let ?c = "connection_new (rs_config ?sv1) s2 (rs_pen ?sv1) (rs_hook ?sv1) []"
  have "se_surface (cn_session ?c) = None" "\<not> se_closed (cn_session ?c)" "cn_input ?c = []" "se_panel (cn_session ?c) = rs_panel sv"
    using fresh_session [OF s2] by (simp_all add: connection_new_def set_pen_available_def)
  then obtain c where c: "drive_connection_loop example_server (ce_turns (rd_connection example_round)) ?c = (Inr False, c)"
    "se_panel (cn_session c) = rs_panel sv"
    using example_loop_ends by metis
  let ?sv2 = "forget_input False (?sv1\<lparr>rs_panel := rs_panel sv, rs_hook := cn_hook c\<rparr>)"
  have flags: "ce_socket_ok (rd_connection example_round)" "ce_handshake_ok (rd_connection example_round)"
    "ce_capture_ok (rd_connection example_round)" "\<not> ce_capture_failed (rd_connection example_round)"
    "ce_session_id (rd_connection example_round) = 2" "ce_network (rd_connection example_round) = []"
    "rd_idle_session_id example_round = 1"
    by (simp_all add: example_round_def)
  have served: "serve_stream example_outer (rd_connection example_round) ?sv1 = (Inr False, ?sv2)"
    using c by (simp only: serve_stream_def flags s2 sum.case not_True_eq_False if_False simp_thms)
      (simp add: example_outer_def)
  have kept: "rs_panel ?sv2 = rs_panel sv" "rs_pairing_qr_enabled ?sv2"
    using assms(5) by (simp_all add: forget_input_def keep_policy_def Let_def)
  from example_offer [of ?sv2, unfolded kept(1), OF assms(1,2)] obtain sv3
    where "show_pairing_qr example_outer ?sv2 = (Inr (), sv3)" "rs_pairing_qr_enabled sv3" by auto
  then show ?thesis using waited served kept(2) by (simp add: flags)
qed


end
