(* ===== verification/Pixel_Sources.thy ===== *)
theory Pixel_Sources
  imports Prelude
begin

text \<open>
  The pixel sources of the command line producer, \<open>crates/rm-display-cli/src/pixels.rs\<close>: scaling
  a picture into the surface, and cutting a raw stream into frames. The image library is a parameter
  (\<open>resize\<close>, \<open>overlay\<close>, \<open>crop_imm\<close> and the decoder); a reader is the list of what its
  reads return.
\<close>

section \<open>Data\<close>

datatype fit_mode = Contain | Cover | Stretch

datatype pixel_error =
  PixelImage | ZeroGeometry | GeometryOverflow | PartialFrame nat nat | EmptyStream | PixelIo

record gray_image =
  gi_width :: nat
  gi_height :: nat
  gi_pixels :: bytes

record image_library =
  il_resize :: "gray_image \<Rightarrow> nat \<Rightarrow> nat \<Rightarrow> gray_image"
  il_overlay :: "gray_image \<Rightarrow> gray_image \<Rightarrow> int \<Rightarrow> int \<Rightarrow> gray_image"
  il_crop :: "gray_image \<Rightarrow> nat \<Rightarrow> nat \<Rightarrow> nat \<Rightarrow> nat \<Rightarrow> gray_image"

section \<open>Scaling\<close>

text \<open>The products are below 2 to the 64; a result is cut to 32 bits.\<close>

definition as_u32 :: "nat \<Rightarrow> nat" where
  "as_u32 n = n mod 2 ^ 32"

definition contain_size :: "nat \<Rightarrow> nat \<Rightarrow> nat \<Rightarrow> nat \<Rightarrow> nat \<times> nat" where
  "contain_size sw sh tw th =
     (if tw * sh \<le> th * sw then (tw, as_u32 (max (sh * tw div sw) 1))
      else (as_u32 (max (sw * th div sh) 1), th))"

definition div_ceil_u64 :: "nat \<Rightarrow> nat \<Rightarrow> nat" where
  "div_ceil_u64 value divisor = max ((value + divisor - 1) div divisor) 1"

definition cover_size :: "nat \<Rightarrow> nat \<Rightarrow> nat \<Rightarrow> nat \<Rightarrow> nat \<times> nat" where
  "cover_size sw sh tw th =
     (if tw * sh \<ge> th * sw then (tw, as_u32 (div_ceil_u64 (sh * tw) sw))
      else (as_u32 (div_ceil_u64 (sw * th) sh), th))"

definition fit_gray8 :: "image_library \<Rightarrow> gray_image \<Rightarrow> nat \<Rightarrow> nat \<Rightarrow> fit_mode \<Rightarrow> gray_image" where
  "fit_gray8 il source width height fit =
     (case fit of
        Stretch \<Rightarrow> il_resize il source width height
      | Contain \<Rightarrow>
          (case contain_size (gi_width source) (gi_height source) width height of (scaled_width, scaled_height) \<Rightarrow>
             il_overlay il \<lparr>gi_width = width, gi_height = height, gi_pixels = replicate (width * height) 255\<rparr>
               (il_resize il source scaled_width scaled_height)
               (int ((width - scaled_width) div 2)) (int ((height - scaled_height) div 2)))
      | Cover \<Rightarrow>
          (case cover_size (gi_width source) (gi_height source) width height of (scaled_width, scaled_height) \<Rightarrow>
             il_crop il (il_resize il source scaled_width scaled_height)
               ((scaled_width - width) div 2) ((scaled_height - height) div 2) width height))"

text \<open>Two 32-bit sizes multiply within 64 bits.\<close>

definition frame_len :: "nat \<Rightarrow> nat \<Rightarrow> (pixel_error, nat) result" where
  "frame_len width height =
     (if width = 0 \<or> height = 0 then Inl ZeroGeometry
      else case checked_mul_usize width height of None \<Rightarrow> Inl GeometryOverflow | Some n \<Rightarrow> Inr n)"

definition load_image_gray8 ::
  "image_library \<Rightarrow> gray_image option \<Rightarrow> nat \<Rightarrow> nat \<Rightarrow> fit_mode \<Rightarrow> (pixel_error, bytes) result" where
  "load_image_gray8 il decoded target_width target_height fit =
     (if target_width = 0 \<or> target_height = 0 then Inl ZeroGeometry
      else case decoded of
        None \<Rightarrow> Inl PixelImage
      | Some source \<Rightarrow> Inr (gi_pixels (fit_gray8 il source target_width target_height fit)))"

definition fit_raw_gray8 ::
  "image_library \<Rightarrow> bytes \<Rightarrow> nat \<Rightarrow> nat \<Rightarrow> nat \<Rightarrow> nat \<Rightarrow> fit_mode \<Rightarrow> (pixel_error, bytes) result" where
  "fit_raw_gray8 il pixels source_width source_height target_width target_height fit =
     and_then (frame_len source_width source_height) (\<lambda>expected.
       if length pixels \<noteq> expected then Inl (PartialFrame (length pixels) expected)
       else Inr (gi_pixels (fit_gray8 il
         \<lparr>gi_width = source_width, gi_height = source_height, gi_pixels = pixels\<rparr> target_width target_height fit)))"

text \<open>
  A contained picture fits the target and fills one of its sides; a covering one reaches both sides,
  as long as the scaled size needs no more than 32 bits.
\<close>

lemma contain_size_fits:
  assumes "0 < sw" "0 < sh" "0 < tw" "0 < th" "tw < 2 ^ 32" "th < 2 ^ 32" "contain_size sw sh tw th = (w, h)"
  shows "0 < w" "0 < h" "w \<le> tw" "h \<le> th" "w = tw \<or> h = th"
proof -
  have height: "sh * tw div sw \<le> th" if "tw * sh \<le> th * sw"
    using that assms(1) by (metis div_le_mono mult.commute nonzero_mult_div_cancel_left not_gr_zero)
  have width: "sw * th div sh \<le> tw" if "\<not> tw * sh \<le> th * sw"
    using that assms(2) by (metis div_le_mono mult.commute nat_le_linear nonzero_mult_div_cancel_right not_gr_zero)
  show "0 < w" "0 < h" "w \<le> tw" "h \<le> th" "w = tw \<or> h = th"
    using assms height width by (auto simp: contain_size_def as_u32_def split: if_splits)
qed

lemma div_ceil_ge: "0 < d \<Longrightarrow> d * k \<le> v \<Longrightarrow> k \<le> div_ceil_u64 v d"
  by (simp add: div_ceil_u64_def le_max_iff_disj) (metis One_nat_def Suc_leI add_diff_assoc div_le_mono le_add1 le_trans nonzero_mult_div_cancel_left not_gr_zero)

lemma cover_size_covers:
  assumes "0 < sw" "0 < sh" "div_ceil_u64 (sh * tw) sw < 2 ^ 32" "div_ceil_u64 (sw * th) sh < 2 ^ 32"
    "cover_size sw sh tw th = (w, h)"
  shows "tw \<le> w" "th \<le> h" "w = tw \<or> h = th"
proof -
  have "th \<le> div_ceil_u64 (sh * tw) sw" if "tw * sh \<ge> th * sw"
    using that assms(1) by (intro div_ceil_ge) (simp_all add: ac_simps)
  moreover have "tw \<le> div_ceil_u64 (sw * th) sh" if "\<not> tw * sh \<ge> th * sw"
    using that assms(2) by (intro div_ceil_ge) (simp_all add: ac_simps)
  ultimately show "tw \<le> w" "th \<le> h" "w = tw \<or> h = th"
    using assms by (auto simp: cover_size_def as_u32_def split: if_splits)
qed

section \<open>Streams\<close>

text \<open>
  What a reader answers: bytes, of which a read takes as many as it asks for, an interruption or an
  error. After the last answer, and for an empty chunk, a read returns no bytes.
\<close>

datatype read_event = ReadChunk bytes | ReadInterrupted | ReadFailed

datatype read_outcome = GotBytes bytes | GotInterrupted | GotError

fun reader_read :: "nat \<Rightarrow> read_event list \<Rightarrow> read_outcome \<times> read_event list" where
  "reader_read n [] = (GotBytes [], [])"
| "reader_read n (ReadChunk bs # es) =
     (GotBytes (take n bs), if length bs \<le> n then es else ReadChunk (drop n bs) # es)"
| "reader_read n (ReadInterrupted # es) = (GotInterrupted, es)"
| "reader_read n (ReadFailed # es) = (GotError, es)"

fun reader_weight :: "read_event list \<Rightarrow> nat" where
  "reader_weight [] = 0"
| "reader_weight (ReadChunk bs # es) = length bs + 1 + reader_weight es"
| "reader_weight (_ # es) = 1 + reader_weight es"

lemma reader_read_bytes:
  "reader_read n es = (GotBytes bs, es') \<Longrightarrow> bs \<noteq> [] \<Longrightarrow> reader_weight es' < reader_weight es"
  by (induction n es rule: reader_read.induct) (auto split: if_splits)

lemma reader_read_interrupted: "reader_read n es = (GotInterrupted, es') \<Longrightarrow> reader_weight es' < reader_weight es"
  by (induction n es rule: reader_read.induct) auto

lemma reader_read_le: "reader_read n es = (out, es') \<Longrightarrow> reader_weight es' \<le> reader_weight es"
  by (induction n es rule: reader_read.induct) (auto split: if_splits)

text \<open>The inner loop of \<open>stream_raw_gray8\<close>; the frame keeps what an earlier pass read into it.\<close>

function fill_frame ::
  "nat \<Rightarrow> bytes \<Rightarrow> nat \<Rightarrow> read_event list \<Rightarrow> (pixel_error, nat) result \<times> bytes \<times> read_event list" where
  "fill_frame len frame got es =
     (if got < len then
        (case reader_read (len - got) es of
           (GotBytes [], es') \<Rightarrow>
             (if got = 0 then Inr 0 else Inl (PartialFrame got len), frame, es')
         | (GotBytes (b # bs), es') \<Rightarrow>
             fill_frame len (take got frame @ (b # bs) @ drop (got + length (b # bs)) frame)
               (got + length (b # bs)) es'
         | (GotInterrupted, es') \<Rightarrow> fill_frame len frame got es'
         | (GotError, es') \<Rightarrow> (Inl PixelIo, frame, es'))
      else (Inr got, frame, es))"
  by pat_completeness auto

termination
  by (relation "measure (\<lambda>(len, frame, got, es). reader_weight es)")
    (auto dest!: sym [of _ "reader_read _ _"] dest: reader_read_bytes reader_read_interrupted)

declare fill_frame.simps [simp del]

lemma fill_frame_weight:
  "fill_frame len frame got es = (res, frame', es') \<Longrightarrow> reader_weight es' \<le> reader_weight es"
proof (induction "reader_weight es" arbitrary: es frame got rule: less_induct)
  case less
  obtain out rest where r: "reader_read (len - got) es = (out, rest)" by (cases "reader_read (len - got) es")
  note w = reader_read_le [OF r]
  note run = less.prems [unfolded fill_frame.simps [of len frame got es] r prod.case]
  show ?case
  proof (cases "\<exists>b bs. got < len \<and> out = GotBytes (b # bs)")
    case True
    then obtain b bs where out: "got < len" "out = GotBytes (b # bs)" by blast
    have rest: "reader_weight rest < reader_weight es" using reader_read_bytes [OF r [unfolded out(2)]] by simp
    have "\<exists>frame got. fill_frame len frame got rest = (res, frame', es')" using run out by auto
    then show ?thesis using less.hyps [OF rest] rest by fastforce
  next
    case False
    show ?thesis
    proof (cases "got < len \<and> out = GotInterrupted")
      case True
      then have rest: "reader_weight rest < reader_weight es" using reader_read_interrupted [of "len - got" es rest] r by simp
      have "fill_frame len frame got rest = (res, frame', es')" using run True by auto
      then show ?thesis using less.hyps [OF rest] rest by fastforce
    next
      case nothing: False
      then show ?thesis
        using run False w by (auto split: if_splits read_outcome.splits list.splits)
    qed
  qed
qed

lemma fill_frame_progress:
  assumes "fill_frame len frame 0 es = (Inr got, frame', es')" and "got \<noteq> 0"
  shows "reader_weight es' < reader_weight es"
  using assms(1)
proof (induction "reader_weight es" arbitrary: es rule: less_induct)
  case less
  obtain out rest where r: "reader_read len es = (out, rest)" by (cases "reader_read len es")
  show ?case
  proof (cases out)
    case (GotBytes bs)
    then show ?thesis
      using less.prems r assms(2) reader_read_bytes [OF r [unfolded GotBytes]] fill_frame_weight
      by (subst (asm) fill_frame.simps) (fastforce split: if_splits list.splits)
  next
    case GotInterrupted
    then have w: "reader_weight rest < reader_weight es" using reader_read_interrupted r by simp
    then show ?thesis
      using less.hyps [OF w] less.prems r GotInterrupted assms(2)
      by (subst (asm) fill_frame.simps) (auto split: if_splits)
  next
    case GotError
    then show ?thesis using less.prems r assms(2) by (subst (asm) fill_frame.simps) (auto split: if_splits)
  qed
qed

text \<open>
  The outer loop; \<open>submit\<close> is the caller's closure with its state. The last frame is repeated
  as settled at the end of the stream.
\<close>

function stream_frames ::
  "(bytes \<Rightarrow> bool \<Rightarrow> 's \<Rightarrow> (pixel_error, unit) result \<times> 's) \<Rightarrow> nat \<Rightarrow> bytes \<Rightarrow> nat \<Rightarrow> read_event list \<Rightarrow> 's \<Rightarrow>
   (pixel_error, nat \<times> bytes) result \<times> 's" where
  "stream_frames submit len frame count es s =
     (case fill_frame len frame 0 es of
        (Inl error, frame', es') \<Rightarrow> (Inl error, s)
      | (Inr got, frame', es') \<Rightarrow>
          if got = 0 then (Inr (count, frame'), s)
          else case submit frame' False s of
            (Inl error, s') \<Rightarrow> (Inl error, s')
          | (Inr _, s') \<Rightarrow> stream_frames submit len frame' (count + 1) es' s')"
  by pat_completeness auto

termination
  by (relation "measure (\<lambda>(submit, len, frame, count, es, s). reader_weight es)")
    (auto intro: fill_frame_progress [OF sym])

declare stream_frames.simps [simp del]

definition stream_raw_gray8 ::
  "(bytes \<Rightarrow> bool \<Rightarrow> 's \<Rightarrow> (pixel_error, unit) result \<times> 's) \<Rightarrow> nat \<Rightarrow> nat \<Rightarrow> read_event list \<Rightarrow> 's \<Rightarrow>
   (pixel_error, nat) result \<times> 's" where
  "stream_raw_gray8 submit width height es s =
     (case frame_len width height of
        Inl error \<Rightarrow> (Inl error, s)
      | Inr len \<Rightarrow>
          try_then (stream_frames submit len (replicate len 0) 0 es s) (\<lambda>(count, frame) s'.
            if count = 0 then (Inl EmptyStream, s')
            else try_then (submit frame True s') (\<lambda>_ s2. (Inr count, s2))))"

section \<open>What a stream submits\<close>

text \<open>A reader that delivers data in any pieces, with interruptions but without errors.\<close>

definition delivers :: "read_event \<Rightarrow> bool" where
  "delivers e = (case e of ReadChunk bs \<Rightarrow> bs \<noteq> [] | ReadInterrupted \<Rightarrow> True | ReadFailed \<Rightarrow> False)"

fun data_of :: "read_event list \<Rightarrow> bytes" where
  "data_of [] = []"
| "data_of (ReadChunk bs # es) = bs @ data_of es"
| "data_of (_ # es) = data_of es"

lemma reader_read_delivers:
  assumes "list_all delivers es" "reader_read n es = (out, es')" "0 < n"
  shows "list_all delivers es' \<and> (case out of GotBytes bs \<Rightarrow> length bs \<le> n \<and> data_of es = bs @ data_of es' \<and>
      (bs = [] \<longrightarrow> data_of es = []) | GotInterrupted \<Rightarrow> data_of es' = data_of es | GotError \<Rightarrow> False)"
  using assms by (induction n es rule: reader_read.induct) (auto simp: delivers_def split: if_splits)

definition filled ::
  "nat \<Rightarrow> bytes \<Rightarrow> nat \<Rightarrow> bytes \<Rightarrow> (pixel_error, nat) result \<times> bytes \<times> read_event list \<Rightarrow> bool" where
  "filled len frame got d out \<longleftrightarrow> (\<exists>frame' es'. out =
      (if got + length d \<ge> len then Inr len
       else if got = 0 \<and> d = [] then Inr 0 else Inl (PartialFrame (got + length d) len), frame', es') \<and>
    (got + length d \<ge> len \<longrightarrow> frame' = take got frame @ take (len - got) d \<and>
       list_all delivers es' \<and> data_of es' = drop (len - got) d) \<and>
    (got = 0 \<longrightarrow> d = [] \<longrightarrow> len \<noteq> 0 \<longrightarrow> frame' = frame))"

lemma filled_more:
  assumes "filled len (take got frame @ bs @ drop (got + length bs) frame) (got + length bs) d out"
    and "bs \<noteq> []" "got + length bs \<le> len" "length frame = len"
  shows "filled len frame got (bs @ d) out"
proof -
  have "take (got + length bs) (take got frame @ bs @ drop (got + length bs) frame) = take got frame @ bs"
    using assms(3,4) by simp
  moreover have "take (len - got) (bs @ d) = bs @ take (len - (got + length bs)) d"
    "drop (len - got) (bs @ d) = drop (len - (got + length bs)) d"
    using assms(3) by simp_all
  ultimately show ?thesis
    using assms(1,2) unfolding filled_def by (auto simp: add.assoc)
qed

lemma fill_frame_delivers:
  assumes "list_all delivers es" "length frame = len" "got \<le> len"
  shows "filled len frame got (data_of es) (fill_frame len frame got es)"
  using assms
proof (induction "reader_weight es" arbitrary: es frame got rule: less_induct)
  case less
  show ?case
  proof (cases "got < len")
    case False
    then show ?thesis using less.prems by (subst fill_frame.simps) (auto simp: filled_def)
  next
    case True
    obtain out rest where r: "reader_read (len - got) es = (out, rest)" by (cases "reader_read (len - got) es")
    have "0 < len - got" using True by simp
    note d = reader_read_delivers [OF less.prems(1) r this]
    note run = fill_frame.simps [of len frame got es, unfolded r prod.case]
    consider "out = GotBytes []" | b bs where "out = GotBytes (b # bs)" | "out = GotInterrupted" | "out = GotError"
      by (metis list.exhaust read_outcome.exhaust)
    then show ?thesis
    proof cases
      case 1
      then show ?thesis using run d True by (auto simp: filled_def)
    next
      case (2 b bs)
      let ?got = "got + length (b # bs)" and ?frame = "take got frame @ (b # bs) @ drop (got + length (b # bs)) frame"
      have rest: "reader_weight rest < reader_weight es" using reader_read_bytes [OF r [unfolded 2]] by simp
      have fits: "?got \<le> len" "data_of es = (b # bs) @ data_of rest" "list_all delivers rest" using d 2 True by auto
      have frame: "length ?frame = len" using less.prems(2) fits(1) by simp
      have eq: "fill_frame len frame got es = fill_frame len ?frame ?got rest" using run 2 True by simp
      show ?thesis
        unfolding eq fits(2) by (rule filled_more [OF less.hyps [OF rest fits(3) frame fits(1)] _ fits(1) less.prems(2)]) simp
    next
      case 3
      then have rest: "reader_weight rest < reader_weight es" using reader_read_interrupted [of "len - got" es rest] r by simp
      have eq: "fill_frame len frame got es = fill_frame len frame got rest" "data_of es = data_of rest"
        "list_all delivers rest" using run 3 True d by auto
      show ?thesis unfolding eq(1,2) by (rule less.hyps [OF rest eq(3) less.prems(2,3)])
    next
      case 4
      then show ?thesis using d by simp
    qed
  qed
qed

text \<open>A caller that records what is submitted.\<close>

definition record_submit :: "bytes \<Rightarrow> bool \<Rightarrow> (bytes \<times> bool) list \<Rightarrow> (pixel_error, unit) result \<times> (bytes \<times> bool) list" where
  "record_submit frame settled s = (Inr (), s @ [(frame, settled)])"

definition whole_frames :: "nat \<Rightarrow> bytes \<Rightarrow> bytes list" where
  "whole_frames n d = map (\<lambda>i. take n (drop (i * n) d)) [0..<length d div n]"

lemma whole_frames_short: "length d < n \<Longrightarrow> whole_frames n d = []"
  by (simp add: whole_frames_def)

lemma whole_frames_step:
  assumes "0 < n" "n \<le> length d"
  shows "whole_frames n d = take n d # whole_frames n (drop n d)"
proof -
  have k: "length d div n = Suc ((length d - n) div n)" using assms by (simp add: le_div_geq)
  have "map (\<lambda>i. take n (drop (i * n) d)) [Suc 0..<Suc ((length d - n) div n)] =
      map (\<lambda>i. take n (drop (i * n) (drop n d))) [0..<(length d - n) div n]"
    by (simp add: map_Suc_upt [symmetric] ac_simps del: upt_Suc)
  then show ?thesis
    by (simp add: whole_frames_def k upt_conv_Cons del: upt_Suc)
qed

lemma stream_frames_delivers:
  assumes "0 < len"
  shows "list_all delivers es \<Longrightarrow> length frame = len \<Longrightarrow>
    \<exists>r. stream_frames record_submit len frame count es s =
        (r, s @ map (\<lambda>f. (f, False)) (whole_frames len (data_of es))) \<and>
      r = (if length (data_of es) mod len \<noteq> 0 then Inl (PartialFrame (length (data_of es) mod len) len)
           else Inr (count + length (data_of es) div len, last (frame # whole_frames len (data_of es))))"
proof (induction "reader_weight es" arbitrary: es frame count s rule: less_induct)
  case less
  let ?d = "data_of es"
  obtain res frame' es' where f: "fill_frame len frame 0 es = (res, frame', es')" by (rule prod_cases3)
  have filled: "filled len frame 0 ?d (res, frame', es')"
    using fill_frame_delivers [OF less.prems, of 0] f by simp
  note run = stream_frames.simps [of record_submit len frame count es s, unfolded f prod.case]
  consider (whole) "len \<le> length ?d" | (none) "?d = []" | (part) "0 < length ?d" "length ?d < len" by fastforce
  then show ?case
  proof cases
    case whole
    then have fr: "res = Inr len" "frame' = take len ?d" "list_all delivers es'" "data_of es' = drop len ?d"
      using filled assms by (auto simp: filled_def)
    have w: "reader_weight es' < reader_weight es" using fill_frame_progress f fr(1) assms by blast
    have "length frame' = len" using whole fr(2) by simp
    from less.hyps [OF w fr(3) this, of "count + 1" "s @ [(frame', False)]"] show ?thesis
      using run fr whole assms whole_frames_step [OF assms whole]
      by (auto simp: record_submit_def le_mod_geq le_div_geq)
  next
    case none
    then show ?thesis using filled run assms by (auto simp: filled_def whole_frames_def)
  next
    case part
    then show ?thesis using filled run assms whole_frames_short [OF part(2)] by (auto simp: filled_def)
  qed
qed

text \<open>
  Claim C20. A raw stream is cut into its frames however the reader delivers the bytes: every whole
  frame is submitted once, in order; a stream that ends on a frame boundary repeats its last frame
  as settled and counts the frames; one that ends inside a frame is an error that names the bytes
  read, and an empty one is an error.
\<close>

theorem stream_frames_exact:
  assumes "list_all delivers es" and "0 < width" "0 < height" "width * height \<le> u64_max"
  shows "let n = width * height; d = data_of es; frames = whole_frames n d in
    stream_raw_gray8 record_submit width height es [] =
      (if length d mod n \<noteq> 0 then (Inl (PartialFrame (length d mod n) n), map (\<lambda>f. (f, False)) frames)
       else if d = [] then (Inl EmptyStream, [])
       else (Inr (length d div n), map (\<lambda>f. (f, False)) frames @ [(last frames, True)]))"
proof -
  let ?n = "width * height" and ?d = "data_of es"
  have n: "0 < ?n" using assms(2,3) by simp
  have len: "frame_len width height = Inr ?n"
    using assms(2-4) by (simp add: frame_len_def checked_mul_usize_def)
  obtain r where run: "stream_frames record_submit ?n (replicate ?n 0) 0 es [] =
      (r, map (\<lambda>f. (f, False)) (whole_frames ?n ?d))"
    and r: "r = (if length ?d mod ?n \<noteq> 0 then Inl (PartialFrame (length ?d mod ?n) ?n)
      else Inr (length ?d div ?n, last (replicate ?n 0 # whole_frames ?n ?d)))"
    using stream_frames_delivers [OF n assms(1), of "replicate ?n 0" 0 "[]"] by auto
  let ?submitted = "map (\<lambda>f. (f, False)) (whole_frames ?n ?d)"
  have stream: "stream_raw_gray8 record_submit width height es [] =
      try_then (r, ?submitted) (\<lambda>(count, frame) s'.
        if count = 0 then (Inl EmptyStream, s') else (Inr count, s' @ [(frame, True)]))"
    unfolding stream_raw_gray8_def len sum.case run by (simp add: record_submit_def [abs_def] try_then_def cong: if_cong)
  consider (part) "length ?d mod ?n \<noteq> 0" | (none) "?d = []" | (whole) "length ?d mod ?n = 0" "?d \<noteq> []" by blast
  then show ?thesis
  proof cases
    case part
    then show ?thesis by (simp add: stream r Let_def)
  next
    case none
    then show ?thesis by (simp add: stream r Let_def whole_frames_def)
  next
    case whole
    then have "?n \<le> length ?d" using mod_less [of "length ?d" ?n] by (cases "length ?d < ?n") auto
    then have "length ?d div ?n \<noteq> 0" "whole_frames ?n ?d \<noteq> []"
      using n whole_frames_step [OF n] by (auto simp: div_eq_0_iff)
    then show ?thesis using whole by (simp add: stream r Let_def)
  qed
qed

theorem stream_frames_exact_witness:
  "stream_raw_gray8 record_submit 2 1 [ReadChunk [1], ReadInterrupted, ReadChunk [2, 3, 4]] [] =
     (Inr 2, [([1, 2], False), ([3, 4], False), ([3, 4], True)])"
proof -
  let ?es = "[ReadChunk [1], ReadInterrupted, ReadChunk [2, 3, 4]]"
  have "list_all delivers ?es" "(2 :: nat) * 1 \<le> u64_max" by (simp_all add: delivers_def u64_max_def)
  moreover have "whole_frames 2 (data_of ?es) = [[1, 2], [3, 4]]" "length (data_of ?es) = 4" "data_of ?es \<noteq> []"
    by code_simp+
  ultimately show ?thesis using stream_frames_exact [of ?es 2 1] by (simp add: Let_def del: One_nat_def)
qed

end
