(* ===== verification/Stats.thy ===== *)
theory Stats
  imports Client_State "HOL-Library.Multiset"
begin

text \<open>
  The statistics of the command-line producer, \<open>crates/rm-display-cli/src/stats.rs\<close>: per-frame
  records, the window of samples, and the summary with its percentiles. What is written is a list of
  the JSON values; a rate, which the code computes in floating point, is kept as the numerator and
  the denominator of its quotient. Whether a write succeeds and the clock are arguments.
\<close>

section \<open>State\<close>

record sample =
  sa_total_us :: nat
  sa_wait_us :: nat
  sa_queue_us :: nat
  sa_present_us :: nat

record distribution =
  di_p50 :: nat
  di_p95 :: nat
  di_max :: nat

record summary =
  su_frames :: nat
  su_window_frames :: nat
  su_wall_us :: nat
  su_fps :: "nat \<times> nat"
  su_wire_bytes :: nat
  su_wire_mib_s :: "nat \<times> nat"
  su_source_wait_us :: nat
  su_prepare_us :: nat
  su_producer_total :: distribution
  su_result_wait :: distribution
  su_receiver_queue :: distribution
  su_receiver_present :: distribution

datatype metric_line = FrameLine json | SummaryLine summary

record stats_reporter =
  sr_human :: bool
  sr_jsonl :: bool
  sr_samples :: "sample list"
  sr_total_frames :: nat
  sr_total_wire_bytes :: nat
  sr_total_source_wait_us :: nat
  sr_total_prepare_us :: nat
  sr_lines :: "metric_line list"

definition stats_new :: "bool \<Rightarrow> bool \<Rightarrow> stats_reporter" where
  "stats_new human jsonl =
     \<lparr>sr_human = human, sr_jsonl = jsonl, sr_samples = [], sr_total_frames = 0, sr_total_wire_bytes = 0,
      sr_total_source_wait_us = 0, sr_total_prepare_us = 0, sr_lines = []\<rparr>"

definition summary_window :: nat where "summary_window = 10000"

definition saturating_add_u64 :: "nat \<Rightarrow> nat \<Rightarrow> nat" where
  "saturating_add_u64 a b = min (a + b) u64_max"

section \<open>Frames\<close>

definition default_frame_metrics :: frame_metrics where
  "default_frame_metrics =
     \<lparr>fm_decode_us = 0, fm_queue_us = 0, fm_present_us = 0, fm_compose_us = 0, fm_convert_us = 0, fm_submit_us = 0,
      fm_damage_pixels = 0, fm_damage_regions = 0, fm_waveform = 0, fm_complete_refresh = False,
      fm_full_refresh_reason = 0\<rparr>"

text \<open>The names of the result codes in the protocol file, and of any other number.\<close>

definition result_name :: "int \<Rightarrow> string" where
  "result_name code =
     (if code = 0 then ''FRAME_RESULT_CODE_UNSPECIFIED'' else if code = 1 then ''FRAME_RESULT_CODE_PRESENTED''
      else if code = 2 then ''FRAME_RESULT_CODE_SUPERSEDED'' else if code = 3 then ''FRAME_RESULT_CODE_NEED_KEYFRAME''
      else if code = 4 then ''FRAME_RESULT_CODE_REJECTED'' else ''UNKNOWN'')"

definition receiver_json :: "frame_metrics \<Rightarrow> json" where
  "receiver_json m = JObject
     [(''decode_us'', JNat (fm_decode_us m)), (''queue_us'', JNat (fm_queue_us m)), (''compose_us'', JNat (fm_compose_us m)),
      (''native_convert_us'', JNat (fm_convert_us m)), (''backend_submit_us'', JNat (fm_submit_us m)),
      (''present_us'', JNat (fm_present_us m)), (''damage_pixels'', JNat (fm_damage_pixels m)),
      (''damage_regions'', JNat (fm_damage_regions m)), (''waveform'', JNat (fm_waveform m)),
      (''complete_refresh'', JBool (fm_complete_refresh m)), (''full_refresh_reason'', JInt (fm_full_refresh_reason m))]"

definition frame_json :: "string \<Rightarrow> nat \<Rightarrow> nat \<Rightarrow> frame_report \<Rightarrow> json" where
  "frame_json phase source_wait_us prepare_us report =
     (let result = rep_result report; producer = rep_producer report in JObject
       [(''kind'', JString ''frame''), (''frame_id'', JNat (fr_frame_id result)), (''phase'', JString phase),
        (''result'', JString (result_name (fr_result result))),
        (''producer'', JObject
          [(''source_wait_us'', JNat source_wait_us), (''prepare_us'', JNat prepare_us),
           (''attempts'', JNat (pm_attempts producer)), (''build_us'', JNat (pm_build_us producer)),
           (''wire_encode_us'', JNat (pm_wire_encode_us producer)), (''socket_write_us'', JNat (pm_write_us producer)),
           (''result_wait_us'', JNat (pm_wait_us producer)), (''total_us'', JNat (pm_total_us producer)),
           (''wire_bytes'', JNat (pm_wire_bytes producer))]),
        (''receiver'', receiver_json (case fr_metrics result of None \<Rightarrow> default_frame_metrics | Some m \<Rightarrow> m)),
        (''physical_ink_settle_us'', JNull)])"

definition write_json :: "bool \<Rightarrow> metric_line \<Rightarrow> stats_reporter \<Rightarrow> (unit, unit) result \<times> stats_reporter" where
  "write_json ok line s =
     (if \<not> sr_jsonl s then (Inr (), s) else if ok then (Inr (), s\<lparr>sr_lines := sr_lines s @ [line]\<rparr>) else (Inl (), s))"

definition sample_of :: "frame_report \<Rightarrow> sample" where
  "sample_of report =
     (let receiver = (case fr_metrics (rep_result report) of None \<Rightarrow> default_frame_metrics | Some m \<Rightarrow> m) in
      \<lparr>sa_total_us = pm_total_us (rep_producer report), sa_wait_us = pm_wait_us (rep_producer report),
       sa_queue_us = fm_queue_us receiver, sa_present_us = fm_present_us receiver\<rparr>)"

definition stats_record ::
  "bool \<Rightarrow> string \<Rightarrow> nat \<Rightarrow> nat \<Rightarrow> frame_report \<Rightarrow> stats_reporter \<Rightarrow> (unit, unit) result \<times> stats_reporter" where
  "stats_record ok phase source_wait_us prepare_us report s =
     (if \<not> sr_human s \<and> \<not> sr_jsonl s then (Inr (), s)
      else try_then (write_json ok (FrameLine (frame_json phase source_wait_us prepare_us report)) s) (\<lambda>_ s1.
        let samples = (if length (sr_samples s1) = summary_window then drop 1 (sr_samples s1) else sr_samples s1) in
        (Inr (), s1\<lparr>sr_total_frames := saturating_add_u64 (sr_total_frames s1) 1,
          sr_total_wire_bytes := saturating_add_u64 (sr_total_wire_bytes s1) (pm_wire_bytes (rep_producer report)),
          sr_total_source_wait_us := saturating_add_u64 (sr_total_source_wait_us s1) source_wait_us,
          sr_total_prepare_us := saturating_add_u64 (sr_total_prepare_us s1) prepare_us,
          sr_samples := samples @ [sample_of report]\<rparr>)))"

section \<open>The summary\<close>

definition stat_values :: "sample list \<Rightarrow> (sample \<Rightarrow> nat) \<Rightarrow> nat list" where
  "stat_values samples field = sort (map field samples)"

definition saturating_mul_usize :: "nat \<Rightarrow> nat \<Rightarrow> nat" where
  "saturating_mul_usize a b = min (a * b) u64_max"

definition percentile :: "nat list \<Rightarrow> nat \<Rightarrow> nat" where
  "percentile values p =
     (let index = min (div_ceil (saturating_mul_usize (length values) p) 100 - 1) (length values - 1) in values ! index)"

definition distribution_of :: "nat list \<Rightarrow> distribution" where
  "distribution_of values = \<lparr>di_p50 = percentile values 50, di_p95 = percentile values 95, di_max = percentile values 100\<rparr>"

definition summary_of :: "nat \<Rightarrow> stats_reporter \<Rightarrow> summary" where
  "summary_of elapsed s =
     (let wall = max elapsed 1 in
      \<lparr>su_frames = sr_total_frames s, su_window_frames = length (sr_samples s), su_wall_us = wall,
       su_fps = (sr_total_frames s * 1000000, wall), su_wire_bytes = sr_total_wire_bytes s,
       su_wire_mib_s = (sr_total_wire_bytes s * 1000000, wall * (1024 * 1024)),
       su_source_wait_us = sr_total_source_wait_us s, su_prepare_us = sr_total_prepare_us s,
       su_producer_total = distribution_of (stat_values (sr_samples s) sa_total_us),
       su_result_wait = distribution_of (stat_values (sr_samples s) sa_wait_us),
       su_receiver_queue = distribution_of (stat_values (sr_samples s) sa_queue_us),
       su_receiver_present = distribution_of (stat_values (sr_samples s) sa_present_us)\<rparr>)"

definition stats_finish :: "bool \<Rightarrow> nat \<Rightarrow> stats_reporter \<Rightarrow> (unit, unit) result \<times> stats_reporter" where
  "stats_finish ok elapsed s =
     (if sr_samples s = [] then (Inr (), s) else write_json ok (SummaryLine (summary_of elapsed s)) s)"

section \<open>The nearest rank\<close>

lemma sorted_count_le:
  assumes "sorted xs" "i < length xs"
  shows "Suc i \<le> length (filter (\<lambda>x. x \<le> xs ! i) xs)" and "length (filter (\<lambda>x. x < xs ! i) xs) \<le> i"
proof -
  have split: "xs = take (Suc i) xs @ drop (Suc i) xs" by simp
  have "filter (\<lambda>x. x \<le> xs ! i) (take (Suc i) xs) = take (Suc i) xs"
    using assms by (auto simp: filter_id_conv in_set_conv_nth sorted_nth_mono)
  then have "Suc i = length (filter (\<lambda>x. x \<le> xs ! i) (take (Suc i) xs))" using assms(2) by simp
  also have "\<dots> \<le> length (filter (\<lambda>x. x \<le> xs ! i) xs)" by (subst (2) split) (simp only: filter_append length_append)
  finally show "Suc i \<le> length (filter (\<lambda>x. x \<le> xs ! i) xs)" .
  have "filter (\<lambda>x. x < xs ! i) (drop i xs) = []"
    using assms by (auto simp: filter_empty_conv in_set_conv_nth not_less sorted_nth_mono)
  then have "length (filter (\<lambda>x. x < xs ! i) xs) = length (filter (\<lambda>x. x < xs ! i) (take i xs))"
    by (metis append_take_drop_id filter_append append_Nil2)
  also have "\<dots> \<le> i" using length_filter_le [of "\<lambda>x. x < xs ! i" "take i xs"] by simp
  finally show "length (filter (\<lambda>x. x < xs ! i) xs) \<le> i" .
qed

text \<open>
  The percentile is the nearest rank: the smallest of the values such that at least the wanted share
  of the values is not above it.
\<close>

definition nearest_rank :: "nat list \<Rightarrow> nat \<Rightarrow> nat \<Rightarrow> bool" where
  "nearest_rank values p v \<longleftrightarrow> v \<in> set values \<and> p * length values \<le> 100 * length (filter (\<lambda>x. x \<le> v) values) \<and>
     100 * length (filter (\<lambda>x. x < v) values) < p * length values"

lemma percentile_nearest_rank:
  assumes "sorted values" "values \<noteq> []" "0 < p" "p \<le> 100" "length values * 100 \<le> u64_max"
  shows "nearest_rank values p (percentile values p)"
proof -
  let ?n = "length values" and ?rank = "div_ceil (length values * p) 100"
  have n: "0 < ?n" using assms(2) by simp
  have "?n * p \<le> ?n * 100" using assms(4) by (rule mult_le_mono2)
  then have "?n * p \<le> u64_max" using assms(5) by (rule le_trans)
  then have fits: "saturating_mul_usize ?n p = ?n * p" by (simp add: saturating_mul_usize_def min_absorb1)
  have rank: "0 < ?rank" using n assms(3) by (simp add: div_ceil_le_iff)
  have "\<not> ?n < ?rank" using assms(4) by (simp add: div_ceil_le_iff)
  then have index: "min (?rank - 1) (?n - 1) = ?rank - 1" "?rank - 1 < ?n" using rank by simp_all
  have v: "percentile values p = values ! (?rank - 1)" unfolding percentile_def Let_def fits index ..
  have low: "(?rank - 1) * 100 < ?n * p" using div_ceil_le_iff [of 100 "?rank - 1" "?n * p"] rank by simp
  have high: "?n * p \<le> ?rank * 100" using div_ceil_le_iff [of 100 ?rank "?n * p"] by simp
  note counts = sorted_count_le [OF assms(1) index(2)]
  have "p * ?n \<le> 100 * length (filter (\<lambda>x. x \<le> values ! (?rank - 1)) values)"
    using counts(1) high rank by (simp add: mult.commute)
  moreover have "100 * length (filter (\<lambda>x. x < values ! (?rank - 1)) values) < p * ?n"
    using counts(2) low by (simp add: mult.commute)
  ultimately show ?thesis unfolding v nearest_rank_def using index(2) by simp
qed

lemma nearest_rank_mset: "mset xs = mset ys \<Longrightarrow> nearest_rank xs p v \<Longrightarrow> nearest_rank ys p v"
  by (metis nearest_rank_def mset_filter set_mset_mset size_mset)

section \<open>A run of the reporter\<close>

text \<open>The frames of a run, each with the share of its waiting and preparing.\<close>

fun record_all :: "(nat \<times> nat \<times> frame_report) list \<Rightarrow> stats_reporter \<Rightarrow> stats_reporter" where
  "record_all [] s = s"
| "record_all ((wait, prepare, report) # fs) s = record_all fs (snd (stats_record True ''latest'' wait prepare report s))"

definition last_of :: "nat \<Rightarrow> 'a list \<Rightarrow> 'a list" where
  "last_of n xs = drop (length xs - n) xs"

lemma last_of_snoc: "0 < n \<Longrightarrow> last_of n (xs @ [x]) = (if length (last_of n xs) = n then drop 1 (last_of n xs) else last_of n xs) @ [x]"
  by (auto simp: last_of_def Suc_diff_le)

lemma record_all_samples:
  assumes "sr_human s \<or> sr_jsonl s"
  shows "sr_samples s = last_of summary_window seen \<Longrightarrow> sr_total_frames s = min (length seen) u64_max \<Longrightarrow>
    sr_samples (record_all fs s) = last_of summary_window (seen @ map (\<lambda>(_, _, r). sample_of r) fs) \<and>
    sr_total_frames (record_all fs s) = min (length seen + length fs) u64_max \<and>
    sr_jsonl (record_all fs s) = sr_jsonl s \<and> sr_human (record_all fs s) = sr_human s"
  using assms
proof (induction fs arbitrary: s seen)
  case (Cons f fs)
  obtain wait prepare report where f: "f = (wait, prepare, report)" by (rule prod_cases3)
  let ?s = "snd (stats_record True ''latest'' wait prepare report s)"
  have s: "sr_samples ?s = last_of summary_window (seen @ [sample_of report])" "sr_jsonl ?s = sr_jsonl s" "sr_human ?s = sr_human s"
    "sr_total_frames ?s = min (length (seen @ [sample_of report])) u64_max"
    using Cons.prems by (auto simp: stats_record_def write_json_def Let_def summary_window_def last_of_snoc saturating_add_u64_def)
  from Cons.IH [OF s(1,4)] s(2,3) Cons.prems(3) show ?case by (simp add: f)
qed simp

text \<open>
  Claim C24. After any number of recorded frames the summary is about the last ten thousand of them,
  counts all, and each of its percentiles is the nearest rank of the window's values.
\<close>

theorem stats_summary_exact:
  assumes "s = record_all fs (stats_new human True)" and "fs \<noteq> []"
    and "window = last_of summary_window (map (\<lambda>(_, _, report). sample_of report) fs)"
  shows "\<exists>sum. sr_lines (snd (stats_finish True elapsed s)) = sr_lines s @ [SummaryLine sum] \<and>
    su_frames sum = min (length fs) u64_max \<and> su_window_frames sum = min (length fs) 10000 \<and>
    (\<forall>(field, d) \<in> {(sa_total_us, su_producer_total sum), (sa_wait_us, su_result_wait sum),
        (sa_queue_us, su_receiver_queue sum), (sa_present_us, su_receiver_present sum)}.
      nearest_rank (map field window) 50 (di_p50 d) \<and> nearest_rank (map field window) 95 (di_p95 d) \<and>
      nearest_rank (map field window) 100 (di_max d))"
proof -
  have samples: "sr_samples s = window" "sr_total_frames s = min (length fs) u64_max" "sr_jsonl s"
    using record_all_samples [of "stats_new human True" "[]" fs]
    by (simp_all add: assms(1,3) stats_new_def last_of_def)
  have len: "length window = min (length fs) 10000" by (auto simp: assms(3) last_of_def summary_window_def)
  have rank: "nearest_rank (map field window) p (percentile (stat_values window field) p)" if "0 < p" "p \<le> 100" for field p
  proof -
    have "length (sort (map field window)) \<noteq> 0" using len assms(2) by simp
    then have "sort (map field window) \<noteq> []" by (metis list.size(3))
    then have "nearest_rank (sort (map field window)) p (percentile (sort (map field window)) p)"
      using that assms(2) len by (intro percentile_nearest_rank) (use len in \<open>simp_all add: u64_max_def\<close>)
    then show ?thesis unfolding stat_values_def by (rule nearest_rank_mset [rotated]) simp
  qed
  have "window \<noteq> []" using assms(2) len by (cases fs) auto
  then have "snd (stats_finish True elapsed s) = s\<lparr>sr_lines := sr_lines s @ [SummaryLine (summary_of elapsed s)]\<rparr>"
    using samples by (simp add: stats_finish_def write_json_def)
  then show ?thesis
    using samples len rank by (intro exI [of _ "summary_of elapsed s"])
      (simp add: summary_of_def Let_def distribution_of_def)
qed

definition example_report :: "nat \<Rightarrow> nat \<times> nat \<times> frame_report" where
  "example_report n = (0, 0, \<lparr>rep_result = \<lparr>fr_surface_id = 1, fr_generation = 1, fr_frame_id = n, fr_result = 1, fr_reason = 0,
     fr_credits = 2, fr_logical_frame_id = n, fr_presented_frame_id = n, fr_metrics = None, fr_byte_credits = 0\<rparr>,
     rep_producer = no_metrics\<lparr>pm_total_us := n\<rparr>\<rparr>)"

theorem stats_summary_exact_witness:
  "\<exists>sum. sr_lines (snd (stats_finish True 7 (record_all (map example_report [30, 10, 20]) (stats_new False True)))) =
     sr_lines (record_all (map example_report [30, 10, 20]) (stats_new False True)) @ [SummaryLine sum] \<and>
     su_frames sum = 3 \<and> nearest_rank [30, 10, 20] 50 (di_p50 (su_producer_total sum)) \<and> percentile [10, 20, 30] 50 = 20"
proof -
  have "last_of summary_window (map (\<lambda>(_, _, report). sample_of report) (map example_report [30, 10, 20])) =
      map (\<lambda>n. \<lparr>sa_total_us = n, sa_wait_us = 0, sa_queue_us = 0, sa_present_us = 0\<rparr>) [30, 10, 20]"
    by (simp add: last_of_def summary_window_def example_report_def sample_of_def default_frame_metrics_def no_metrics_def Let_def)
  from stats_summary_exact [OF refl _ this [symmetric], of 7 False] show ?thesis
    by (auto simp: u64_max_def percentile_def saturating_mul_usize_def div_ceil_def)
qed

end
