(* ===== verification/Startup.thy ===== *)
theory Startup
  imports Receiver_Config Pairing
begin

text \<open>
  The start of the receiver, \<open>crates/rm-display-receiver/src/main.rs\<close>: its command line, its
  persistent identity and pairing key, and the configuration it serves with; and the key files of
  \<open>crates/rm-display-transport/src/lib.rs\<close>. A text is the list of its UTF-8 bytes, a path the list
  of its components, a file what opening and reading it finds. Socket addresses are parsed by a
  parameter; the random numbers are arguments.
\<close>

section \<open>Texts\<close>

definition strip_prefix :: "string \<Rightarrow> string \<Rightarrow> string option" where
  "strip_prefix start s = (if take (length start) s = start then Some (drop (length start) s) else None)"

definition strip_suffix :: "string \<Rightarrow> string \<Rightarrow> string option" where
  "strip_suffix tail s =
     (if length tail \<le> length s \<and> drop (length s - length tail) s = tail
      then Some (take (length s - length tail) s) else None)"

text \<open>The value of a digit in base 16, and what \<open>u8::from_str_radix\<close> accepts: a sign plus, then digits.\<close>

definition hex_value :: "char \<Rightarrow> nat option" where
  "hex_value c =
     (let n = of_char c :: nat in
      if 48 \<le> n \<and> n \<le> 57 then Some (n - 48)
      else if 97 \<le> n \<and> n \<le> 102 then Some (n - 87)
      else if 65 \<le> n \<and> n \<le> 70 then Some (n - 55) else None)"

fun hex_number :: "nat \<Rightarrow> string \<Rightarrow> nat option" where
  "hex_number acc [] = Some acc"
| "hex_number acc (c # cs) =
     (case hex_value c of None \<Rightarrow> None
      | Some d \<Rightarrow> if acc * 16 + d > 255 then None else hex_number (acc * 16 + d) cs)"

definition after_plus :: "string \<Rightarrow> string" where
  "after_plus s = (case s of [] \<Rightarrow> [] | c # cs \<Rightarrow> if c = CHR ''+'' then cs else s)"

definition u8_from_hex :: "string \<Rightarrow> nat option" where
  "u8_from_hex s = (if after_plus s = [] then None else hex_number 0 (after_plus s))"

definition is_digit :: "char \<Rightarrow> bool" where
  "is_digit c \<longleftrightarrow> 48 \<le> (of_char c :: nat) \<and> (of_char c :: nat) \<le> 57"

definition parse_u32 :: "string \<Rightarrow> nat option" where
  "parse_u32 s =
     (let digits = after_plus s; n = foldl (\<lambda>acc c. acc * 10 + (of_char c - 48)) 0 digits in
      if digits = [] \<or> \<not> list_all is_digit digits \<or> n > u32_max then None else Some n)"

section \<open>Hexadecimal identities\<close>

fun hex_pairs :: "string \<Rightarrow> bytes option" where
  "hex_pairs (a # b # s) =
     (case u8_from_hex [a, b] of None \<Rightarrow> None | Some n \<Rightarrow> map_option ((#) (word_of_nat n)) (hex_pairs s))"
| "hex_pairs _ = Some []"

definition is_ascii :: "string \<Rightarrow> bool" where
  "is_ascii s \<longleftrightarrow> list_all (\<lambda>c. (of_char c :: nat) < 128) s"

datatype hex_error = HexLength | HexDigit

definition parse_hex :: "nat \<Rightarrow> string \<Rightarrow> (hex_error, bytes) result" where
  "parse_hex n value =
     (if length value \<noteq> n * 2 \<or> \<not> is_ascii value then Inl HexLength
      else case hex_pairs value of None \<Rightarrow> Inl HexDigit | Some bs \<Rightarrow> Inr bs)"

section \<open>Files\<close>

text \<open>\<open>Regular private text\<close>: \<open>private\<close> when group and others have no permission.\<close>

datatype file_state = Missing | Unreadable | NotRegular | Regular bool string

datatype load_error = LoadNotFound | LoadIo | LoadNotAFile | LoadPermissions | LoadEncoding

definition private_text :: "file_state \<Rightarrow> (load_error, string) result" where
  "private_text f =
     (case f of Missing \<Rightarrow> Inl LoadNotFound | Unreadable \<Rightarrow> Inl LoadIo | NotRegular \<Rightarrow> Inl LoadNotAFile
      | Regular private contents \<Rightarrow> if private then Inr contents else Inl LoadPermissions)"

definition psk_len :: nat where "psk_len = 32"
definition newline :: string where "newline = [char_of (10 :: nat)]"
definition carriage_newline :: string where "carriage_newline = [char_of (13 :: nat), char_of (10 :: nat)]"

definition without_newline :: "string \<Rightarrow> string" where
  "without_newline s =
     (case strip_suffix carriage_newline s of Some t \<Rightarrow> t
      | None \<Rightarrow> (case strip_suffix newline s of Some t \<Rightarrow> t | None \<Rightarrow> s))"

text \<open>\<open>hex::decode_to_slice\<close>, on digits only.\<close>

fun hex_decode :: "string \<Rightarrow> bytes option" where
  "hex_decode (a # b # s) =
     (case (hex_value a, hex_value b) of
        (Some x, Some y) \<Rightarrow> map_option ((#) (word_of_nat (x * 16 + y))) (hex_decode s)
      | _ \<Rightarrow> None)"
| "hex_decode [] = Some []"
| "hex_decode [_] = None"

definition psk_load :: "file_state \<Rightarrow> (load_error, bytes) result" where
  "psk_load f =
     and_then (private_text f) (\<lambda>contents.
       let s = without_newline contents in
       if length s \<noteq> psk_len * 2 \<or> \<not> list_all (\<lambda>c. hex_value c \<noteq> None) s then Inl LoadEncoding
       else case hex_decode s of None \<Rightarrow> Inl LoadEncoding | Some bs \<Rightarrow> Inr bs)"

text \<open>The white space that \<open>trim_end\<close> removes, in UTF-8.\<close>

definition white_space :: "string list" where
  "white_space = map (map (char_of :: nat \<Rightarrow> char))
     ([[9], [10], [11], [12], [13], [32], [0xC2, 0x85], [0xC2, 0xA0], [0xE1, 0x9A, 0x80],
       [0xE2, 0x80, 0xA8], [0xE2, 0x80, 0xA9], [0xE2, 0x80, 0xAF], [0xE2, 0x81, 0x9F], [0xE3, 0x80, 0x80]] @
      map (\<lambda>n. [0xE2, 0x80, n]) [0x80..<0x8B])"

text \<open>On the reversed text.\<close>

function trim_rev :: "string \<Rightarrow> string" where
  "trim_rev s =
     (case find (\<lambda>w. take (length w) s = rev w) white_space of
        None \<Rightarrow> s | Some w \<Rightarrow> if s = [] then [] else trim_rev (drop (max 1 (length w)) s))"
  by pat_completeness auto
termination by (relation "measure length") auto

declare trim_rev.simps [simp del]

definition trim_end :: "string \<Rightarrow> string" where
  "trim_end s = rev (trim_rev (rev s))"

definition load_server_id :: "file_state \<Rightarrow> (load_error, bytes) result" where
  "load_server_id f =
     and_then (private_text f) (\<lambda>contents. map_err (\<lambda>_. LoadEncoding) (parse_hex 16 (trim_end contents)))"

section \<open>Storing\<close>

definition psk_text :: "bytes \<Rightarrow> string" where "psk_text key = hex_encode key @ newline"

datatype store_outcome = Stored | AlreadyExists | StoreFailed

text \<open>A write succeeds, or fails after some of the text; the key file is then removed, the identity is not.\<close>

definition psk_store_new :: "bytes \<Rightarrow> nat option \<Rightarrow> file_state \<Rightarrow> store_outcome \<times> file_state" where
  "psk_store_new key write f =
     (if f \<noteq> Missing then (AlreadyExists, f)
      else case write of None \<Rightarrow> (Stored, Regular True (psk_text key)) | Some _ \<Rightarrow> (StoreFailed, Missing))"

definition store_server_id :: "bytes \<Rightarrow> nat option \<Rightarrow> file_state \<Rightarrow> store_outcome \<times> file_state" where
  "store_server_id i write f =
     (if f \<noteq> Missing then (AlreadyExists, f)
      else case write of
          None \<Rightarrow> (Stored, Regular True (hex_encode i @ newline))
        | Some n \<Rightarrow> (StoreFailed, Regular True (take n (hex_encode i @ newline))))"

text \<open>
  A key that replaces another is written to a new file beside it, which is then renamed; when writing
  or renaming fails, that file is removed.
\<close>

definition psk_store_atomic :: "bytes \<Rightarrow> nat option \<Rightarrow> bool \<Rightarrow> file_state \<Rightarrow> store_outcome \<times> file_state" where
  "psk_store_atomic key write renamed f =
     (if write = None \<and> renamed then (Stored, Regular True (psk_text key)) else (StoreFailed, f))"

section \<open>The persistent state\<close>

text \<open>
  What happens to a file while the receiver starts: how it is found, how it is found again when it is
  to be created (another process may have been faster), and whether writing it fails.
\<close>

record file_run =
  fr_found :: file_state
  fr_raced :: file_state
  fr_write :: "nat option"

datatype startup_error =
  LoadFailed load_error | PersistFailed | BadListen | PskFileEmpty | PskFileTwice | BadServerId hex_error | BadGeometry
  | BadProfile | BadInterval | BadDamageTile | Usage | UnknownArgument string | PlaintextWithPsk
  | UnreachablePsk | BadInkWaveform | NoStateDirectory | NoPanel | Unreachable

definition load_or_create ::
  "(file_state \<Rightarrow> (load_error, bytes) result) \<Rightarrow> (bytes \<Rightarrow> nat option \<Rightarrow> file_state \<Rightarrow> store_outcome \<times> file_state) \<Rightarrow>
   bytes \<Rightarrow> file_run \<Rightarrow> (startup_error, bytes) result \<times> file_state" where
  "load_or_create load store fresh r =
     (case load (fr_found r) of
        Inr value \<Rightarrow> (Inr value, fr_found r)
      | Inl e \<Rightarrow>
          if e \<noteq> LoadNotFound then (Inl (LoadFailed e), fr_found r)
          else case store fresh (fr_write r) (fr_raced r) of
              (Stored, f) \<Rightarrow> (Inr fresh, f)
            | (AlreadyExists, f) \<Rightarrow> (map_err LoadFailed (load f), f)
            | (StoreFailed, f) \<Rightarrow> (Inl PersistFailed, f))"

definition load_or_create_psk :: "bytes \<Rightarrow> file_run \<Rightarrow> (startup_error, bytes) result \<times> file_state" where
  "load_or_create_psk = load_or_create psk_load psk_store_new"

text \<open>The loop of \<open>random_server_id\<close> over the values the generator yields.\<close>

fun random_server_id :: "bytes list \<Rightarrow> bytes option" where
  "random_server_id [] = None"
| "random_server_id (i # is) = (if i = replicate 16 0 then random_server_id is else Some i)"

definition load_or_create_server_id :: "bytes \<Rightarrow> file_run \<Rightarrow> (startup_error, bytes) result \<times> file_state" where
  "load_or_create_server_id = load_or_create load_server_id store_server_id"

section \<open>The command line\<close>

type_synonym path = "string list"

record arguments =
  ar_listen :: "ip_addr \<times> nat"
  ar_psk_file :: "path option"
  ar_plaintext :: bool
  ar_server_id :: "bytes option"
  ar_mock_geometry :: "(nat \<times> nat) option"
  ar_input_device :: "string option"
  ar_epaper_profile :: refresh_profile
  ar_full_refresh_interval :: "nat option"
  ar_damage_tile :: nat
  ar_pairing_qr :: bool

definition default_arguments :: arguments where
  "default_arguments =
     \<lparr>ar_listen = (V4 (0, 0, 0, 0), 7420), ar_psk_file = None, ar_plaintext = False, ar_server_id = None,
      ar_mock_geometry = None, ar_input_device = None, ar_epaper_profile = Balanced, ar_full_refresh_interval = None,
      ar_damage_tile = cfg_damage_tile (for_profile Balanced), ar_pairing_qr = True\<rparr>"

definition parse_epaper_profile :: "string \<Rightarrow> (startup_error, refresh_profile) result" where
  "parse_epaper_profile value =
     (if value = ''realtime'' then Inr Realtime else if value = ''animate'' then Inr Animate
      else if value = ''balanced'' then Inr Balanced else if value = ''reading'' then Inr Reading
      else if value = ''quality'' then Inr QualityProfile else Inl BadProfile)"

definition parse_geometry :: "string \<Rightarrow> (startup_error, nat \<times> nat) result" where
  "parse_geometry value =
     (if CHR ''x'' \<notin> set value then Inl BadGeometry
      else case (parse_u32 (takeWhile (\<lambda>c. c \<noteq> CHR ''x'') value),
          parse_u32 (drop 1 (dropWhile (\<lambda>c. c \<noteq> CHR ''x'') value))) of
          (Some width, Some height) \<Rightarrow> if width = 0 \<or> height = 0 then Inl BadGeometry else Inr (width, height)
        | _ \<Rightarrow> Inl BadGeometry)"

text \<open>The options with a value, in the order in which they are tried.\<close>

type_synonym option_setter = "string \<Rightarrow> arguments \<Rightarrow> (startup_error, arguments) result"

definition set_listen :: "(string \<Rightarrow> (ip_addr \<times> nat) option) \<Rightarrow> option_setter" where
  "set_listen parse_address value parsed =
     (case parse_address value of None \<Rightarrow> Inl BadListen | Some address \<Rightarrow> Inr (parsed\<lparr>ar_listen := address\<rparr>))"

definition set_psk_file :: option_setter where
  "set_psk_file value parsed =
     (if value = [] then Inl PskFileEmpty else if ar_psk_file parsed \<noteq> None then Inl PskFileTwice
      else Inr (parsed\<lparr>ar_psk_file := Some [value]\<rparr>))"

definition set_server_id :: option_setter where
  "set_server_id value parsed =
     (case parse_hex 16 value of Inl e \<Rightarrow> Inl (BadServerId e) | Inr i \<Rightarrow> Inr (parsed\<lparr>ar_server_id := Some i\<rparr>))"

definition set_mock :: option_setter where
  "set_mock value parsed = and_then (parse_geometry value) (\<lambda>g. Inr (parsed\<lparr>ar_mock_geometry := Some g\<rparr>))"

definition set_input :: option_setter where
  "set_input value parsed = Inr (parsed\<lparr>ar_input_device := Some value\<rparr>)"

definition set_profile :: option_setter where
  "set_profile value parsed = and_then (parse_epaper_profile value) (\<lambda>p. Inr (parsed\<lparr>ar_epaper_profile := p\<rparr>))"

definition set_interval :: option_setter where
  "set_interval value parsed =
     (case parse_u32 value of None \<Rightarrow> Inl BadInterval | Some n \<Rightarrow> Inr (parsed\<lparr>ar_full_refresh_interval := Some n\<rparr>))"

definition set_damage_tile :: option_setter where
  "set_damage_tile value parsed =
     (case parse_u32 value of None \<Rightarrow> Inl BadDamageTile
      | Some n \<Rightarrow> if n = 0 then Inl BadDamageTile else Inr (parsed\<lparr>ar_damage_tile := n\<rparr>))"

definition option_setters :: "(string \<Rightarrow> (ip_addr \<times> nat) option) \<Rightarrow> (string \<times> option_setter) list" where
  "option_setters parse_address =
     [(''--listen='', set_listen parse_address), (''--psk-file='', set_psk_file), (''--server-id='', set_server_id),
      (''--mock='', set_mock), (''--input='', set_input), (''--epaper-profile='', set_profile),
      (''--full-refresh-interval='', set_interval), (''--damage-tile='', set_damage_tile)]"

text \<open>The switches are no beginnings of these options, nor do they begin with one.\<close>

definition parse_argument ::
  "(string \<Rightarrow> (ip_addr \<times> nat) option) \<Rightarrow> string \<Rightarrow> arguments \<Rightarrow> (startup_error, arguments) result" where
  "parse_argument parse_address a parsed =
     (case find (\<lambda>(name, _). strip_prefix name a \<noteq> None) (option_setters parse_address) of
        Some (name, setter) \<Rightarrow> setter (the (strip_prefix name a)) parsed
      | None \<Rightarrow>
          if a = ''--plaintext'' then Inr (parsed\<lparr>ar_plaintext := True\<rparr>)
          else if a = ''--no-pairing-qr'' then Inr (parsed\<lparr>ar_pairing_qr := False\<rparr>)
          else if a = ''--help'' \<or> a = ''-h'' then Inl Usage else Inl (UnknownArgument a))"

fun parse_each ::
  "(string \<Rightarrow> (ip_addr \<times> nat) option) \<Rightarrow> string list \<Rightarrow> arguments \<Rightarrow> (startup_error, arguments) result" where
  "parse_each parse_address [] parsed = Inr parsed"
| "parse_each parse_address (a # as) parsed = and_then (parse_argument parse_address a parsed) (parse_each parse_address as)"

definition arguments_parse ::
  "(string \<Rightarrow> (ip_addr \<times> nat) option) \<Rightarrow> string list \<Rightarrow> (startup_error, arguments) result" where
  "arguments_parse parse_address as =
     and_then (parse_each parse_address as default_arguments) (\<lambda>parsed.
       if ar_plaintext parsed \<and> ar_psk_file parsed \<noteq> None then Inl PlaintextWithPsk
       else if \<not> ar_pairing_qr parsed \<and> \<not> ar_plaintext parsed \<and> ar_psk_file parsed = None then Inl UnreachablePsk
       else Inr parsed)"

section \<open>Starting\<close>

definition parse_ink_waveform :: "string option \<Rightarrow> (startup_error, waveform) result" where
  "parse_ink_waveform value =
     (if value = None \<or> value = Some ''fastest'' then Inr Fastest else if value = Some ''fast'' then Inr Fast
      else if value = Some ''quality'' then Inr QualityWf else Inl BadInkWaveform)"

definition nonempty :: "string option \<Rightarrow> string option" where
  "nonempty value = (if value = Some [] then None else value)"

definition default_state_directory :: "string option \<Rightarrow> string option \<Rightarrow> path option \<Rightarrow> (startup_error, path) result" where
  "default_state_directory xdg_state_home home executable_parent =
     (case nonempty xdg_state_home of
        Some p \<Rightarrow> Inr [p, ''rm-display'']
      | None \<Rightarrow>
          (case nonempty home of
             Some h \<Rightarrow> Inr [h, ''.local'', ''state'', ''rm-display'']
           | None \<Rightarrow> (case executable_parent of None \<Rightarrow> Inl NoStateDirectory | Some d \<Rightarrow> Inr (d @ [''.state'']))))"

text \<open>What the process finds: its environment, its files, and random numbers.\<close>

record process_env =
  pr_xdg_state_home :: "string option"
  pr_home :: "string option"
  pr_executable_parent :: "path option"
  pr_ink_waveform :: "string option"
  pr_files :: "path \<Rightarrow> file_run"
  pr_fresh_psk :: bytes
  pr_fresh_id :: bytes

definition choose_security ::
  "process_env \<Rightarrow> path \<Rightarrow> arguments \<Rightarrow> (startup_error, security_mode \<times> path option) result" where
  "choose_security env state_directory a =
     (case (ar_plaintext a, ar_psk_file a) of
        (False, Some psk_file) \<Rightarrow>
          and_then (map_err LoadFailed (psk_load (fr_found (pr_files env psk_file)))) (\<lambda>key. Inr (Psk key, Some psk_file))
      | (True, None) \<Rightarrow> Inr (Plaintext, None)
      | (False, None) \<Rightarrow>
          let p = state_directory @ [''pairing.psk''] in
          and_then (fst (load_or_create_psk (pr_fresh_psk env) (pr_files env p))) (\<lambda>key. Inr (Psk key, Some p))
      | (True, Some _) \<Rightarrow> Inl Unreachable)"

definition startup_policy :: "arguments \<Rightarrow> refresh_config" where
  "startup_policy a =
     (let policy = for_profile (ar_epaper_profile a);
          policy = (case ar_full_refresh_interval a of None \<Rightarrow> policy
            | Some interval \<Rightarrow> policy\<lparr>cleanup_after_updates := interval\<rparr>)
      in policy\<lparr>cfg_damage_tile := ar_damage_tile a\<rparr>)"

text \<open>
  The steps of \<open>run\<close> up to the panel: the security, the managed key file, the configuration and the
  geometry of the mock panel, which a build without the vendor display library needs.
\<close>

record startup =
  st_security :: security_mode
  st_managed_psk :: "path option"
  st_config :: receiver_config
  st_listen :: "ip_addr \<times> nat"
  st_geometry :: "nat \<times> nat"
  st_pairing_qr :: bool

definition startup_of ::
  "(string \<Rightarrow> (ip_addr \<times> nat) option) \<Rightarrow> process_env \<Rightarrow> string list \<Rightarrow> (startup_error, startup) result" where
  "startup_of parse_address env as =
     and_then (arguments_parse parse_address as) (\<lambda>a.
     and_then (default_state_directory (pr_xdg_state_home env) (pr_home env) (pr_executable_parent env)) (\<lambda>directory.
     and_then (choose_security env directory a) (\<lambda>(security, managed).
     and_then (case ar_server_id a of Some i \<Rightarrow> Inr i
       | None \<Rightarrow> fst (load_or_create_server_id (pr_fresh_id env) (pr_files env (directory @ [''server-id''])))) (\<lambda>server_id.
     and_then (parse_ink_waveform (pr_ink_waveform env)) (\<lambda>ink.
     and_then (case ar_mock_geometry a of None \<Rightarrow> Inl NoPanel | Some g \<Rightarrow> Inr g) (\<lambda>geometry. Inr
       \<lparr>st_security = security, st_managed_psk = managed,
        st_config = \<lparr>rc_verify_token = reserved_zero_token, rc_server_id = server_id, rc_name = ''rm-display'',
          rc_limits = default_limits, rc_refresh_policy = startup_policy a, rc_ink_waveform = ink,
          rc_input_device = ar_input_device a\<rparr>,
        st_listen = ar_listen a, st_geometry = geometry, st_pairing_qr = ar_pairing_qr a\<rparr>))))))"

section \<open>The command line yields a valid configuration\<close>

definition sane :: "arguments \<Rightarrow> bool" where
  "sane a \<longleftrightarrow> ar_damage_tile a \<noteq> 0 \<and> (\<forall>w h. ar_mock_geometry a = Some (w, h) \<longrightarrow> 0 < w \<and> 0 < h \<and> w \<le> u32_max \<and> h \<le> u32_max)"

lemma parse_u32_max: "parse_u32 s = Some n \<Longrightarrow> n \<le> u32_max"
  by (auto simp: parse_u32_def Let_def split: if_splits)

lemma parse_geometry_sane: "parse_geometry value = Inr (w, h) \<Longrightarrow> 0 < w \<and> 0 < h \<and> w \<le> u32_max \<and> h \<le> u32_max"
  by (auto simp: parse_geometry_def dest: parse_u32_max split: if_splits option.splits)

lemma find_mem: "find P xs = Some x \<Longrightarrow> x \<in> set xs"
  by (auto simp: find_Some_iff)

lemma setters_sane:
  assumes "(name, setter) \<in> set (option_setters pa)" "setter value parsed = Inr b" "sane parsed"
  shows "sane b"
proof -
  note defs = set_listen_def set_psk_file_def set_server_id_def set_mock_def set_input_def set_profile_def
    set_interval_def set_damage_tile_def
  have "setter \<in> {set_listen pa, set_psk_file, set_server_id, set_mock, set_input, set_profile, set_interval, set_damage_tile}"
    using assms(1) by (auto simp: option_setters_def)
  then show ?thesis
    using assms(2,3) by (auto simp: defs sane_def and_then_def dest!: parse_geometry_sane split: option.splits if_splits sum.splits)
qed

lemma parse_argument_sane:
  assumes "parse_argument pa a parsed = Inr b" "sane parsed"
  shows "sane b"
proof (cases "find (\<lambda>(name, _). strip_prefix name a \<noteq> None) (option_setters pa)")
  case None
  then show ?thesis using assms by (auto simp: parse_argument_def sane_def split: if_splits)
next
  case (Some entry)
  obtain name setter where entry: "entry = (name, setter)" by fastforce
  then have "(name, setter) \<in> set (option_setters pa)" using find_mem [OF Some] by simp
  then show ?thesis using assms Some entry setters_sane by (auto simp: parse_argument_def)
qed

lemma parse_each_sane: "parse_each pa as parsed = Inr b \<Longrightarrow> sane parsed \<Longrightarrow> sane b"
proof (induction "as" arbitrary: parsed)
  case (Cons a as)
  from Cons.prems(1) obtain c where c: "parse_argument pa a parsed = Inr c" "parse_each pa as c = Inr b"
    by (auto simp: and_then_def split: sum.splits)
  have "sane c"
    using parse_argument_sane [OF c(1) Cons.prems(2)] .
  then show ?case using Cons.IH c(2) by blast
qed simp

text \<open>No step but the choice of the security can reach the unreachable arm.\<close>

lemma setters_reachable:
  assumes "(name, setter) \<in> set (option_setters pa)"
  shows "setter value parsed \<noteq> Inl Unreachable"
proof -
  note defs = set_listen_def set_psk_file_def set_server_id_def set_mock_def set_input_def set_profile_def
    set_interval_def set_damage_tile_def parse_geometry_def parse_epaper_profile_def
  have "setter \<in> {set_listen pa, set_psk_file, set_server_id, set_mock, set_input, set_profile, set_interval, set_damage_tile}"
    using assms by (auto simp: option_setters_def)
  then show ?thesis by (auto simp: defs and_then_def split: option.splits if_splits sum.splits)
qed

lemma parse_each_reachable: "parse_each pa as parsed \<noteq> Inl Unreachable"
proof (induction "as" arbitrary: parsed)
  case (Cons a as)
  have "parse_argument pa a parsed \<noteq> Inl Unreachable"
  proof (cases "find (\<lambda>(name, _). strip_prefix name a \<noteq> None) (option_setters pa)")
    case (Some entry)
    obtain name setter where "entry = (name, setter)" by fastforce
    moreover from this find_mem [OF Some] have "(name, setter) \<in> set (option_setters pa)" by simp
    ultimately show ?thesis using Some setters_reachable by (simp add: parse_argument_def)
  qed (simp add: parse_argument_def)
  then show ?case using Cons.IH by (auto simp: and_then_Inl_iff)
qed simp

lemma arguments_parsed:
  assumes "arguments_parse pa as = Inr a"
  shows "sane a" "\<not> (ar_plaintext a \<and> ar_psk_file a \<noteq> None)"
    "\<not> ar_pairing_qr a \<Longrightarrow> ar_plaintext a \<or> ar_psk_file a \<noteq> None"
proof -
  have "parse_each pa as default_arguments = Inr a" "\<not> (ar_plaintext a \<and> ar_psk_file a \<noteq> None)"
    "\<not> (\<not> ar_pairing_qr a \<and> \<not> ar_plaintext a \<and> ar_psk_file a = None)"
    using assms by (auto simp: arguments_parse_def and_then_Inr_iff split: if_splits)
  moreover have "sane default_arguments" by (simp add: sane_def default_arguments_def)
  ultimately show "sane a" "\<not> (ar_plaintext a \<and> ar_psk_file a \<noteq> None)"
    "\<not> ar_pairing_qr a \<Longrightarrow> ar_plaintext a \<or> ar_psk_file a \<noteq> None"
    using parse_each_sane by auto
qed

lemma load_or_create_reachable: "fst (load_or_create load store fresh r) \<noteq> Inl Unreachable"
  by (auto simp: load_or_create_def map_err_def split: sum.split prod.split store_outcome.split)

lemma choose_security_reachable:
  assumes "\<not> (ar_plaintext a \<and> ar_psk_file a \<noteq> None)"
  shows "choose_security env directory a \<noteq> Inl Unreachable"
    and "choose_security env directory a = Inr (security, managed) \<Longrightarrow> security \<noteq> Plaintext \<longleftrightarrow> managed \<noteq> None"
proof -
  show "choose_security env directory a \<noteq> Inl Unreachable"
    using assms load_or_create_reachable
    by (auto simp: choose_security_def Let_def load_or_create_psk_def and_then_Inl_iff map_err_def split: bool.split option.split sum.splits)
  show "security \<noteq> Plaintext \<longleftrightarrow> managed \<noteq> None" if "choose_security env directory a = Inr (security, managed)"
    using that by (auto simp: choose_security_def Let_def and_then_Inr_iff split: bool.splits option.splits)
qed

lemma startup_policy_ok: "sane a \<Longrightarrow> config_ok (startup_policy a)"
  using for_profile_ok [of "ar_epaper_profile a"]
  by (auto simp: startup_policy_def sane_def config_ok_iff Let_def split: option.split)


definition example_process :: process_env where
  "example_process =
     \<lparr>pr_xdg_state_home = None, pr_home = Some ''home'', pr_executable_parent = None, pr_ink_waveform = Some ''fast'',
      pr_files = \<lambda>_. \<lparr>fr_found = Missing, fr_raced = Missing, fr_write = None\<rparr>, pr_fresh_psk = replicate 32 7,
      pr_fresh_id = replicate 16 9\<rparr>"


section \<open>What is stored is what is loaded\<close>

lemma hex_value_digit: "n < 16 \<Longrightarrow> hex_value (hex_digit n) = Some n"
proof -
  have "list_all (\<lambda>n. hex_value (hex_digit n) = Some n) [0..<16]" by code_simp
  then show "n < 16 \<Longrightarrow> hex_value (hex_digit n) = Some n" by (simp add: list_all_iff)
qed

lemma hex_digit_plain: "n < 16 \<Longrightarrow> (of_char (hex_digit n) :: nat) \<in> {48..57} \<union> {97..102}"
proof -
  have "list_all (\<lambda>n. let c = (of_char (hex_digit n) :: nat) in 48 \<le> c \<and> c \<le> 57 \<or> 97 \<le> c \<and> c \<le> 102) [0..<16]" by code_simp
  then show "n < 16 \<Longrightarrow> (of_char (hex_digit n) :: nat) \<in> {48..57} \<union> {97..102}" by (auto simp: list_all_iff Let_def)
qed

lemma unat_u8: "unat (b :: u8) < 256"
proof -
  have "unat b < 2 ^ LENGTH(8)" by (rule unsigned_less)
  then show ?thesis by simp
qed

lemma hex_halves: "unat (b :: u8) div 16 < 16" "unat b mod 16 < 16"
  using unat_u8 [of b] by (simp_all add: less_mult_imp_div_less)

lemma hex_encode_simps [simp]: "hex_encode [] = []"
  "hex_encode (b # bs) = hex_digit (unat b div 16) # hex_digit (unat b mod 16) # hex_encode bs"
  by (simp_all add: hex_encode_def)

lemma hex_byte: "word_of_nat (unat (b :: u8) div 16 * 16 + unat b mod 16) = b"
  by (simp only: div_mult_mod_eq) simp

lemma hex_decode_encode: "hex_decode (hex_encode bs) = Some bs"
  by (induction bs) (simp_all add: hex_value_digit hex_halves hex_byte)

lemma u8_from_hex_digits:
  "u8_from_hex [hex_digit (unat (b :: u8) div 16), hex_digit (unat b mod 16)] = Some (unat b)"
proof -
  have "hex_digit n \<noteq> CHR ''+''" if "n < 16" for n using hex_digit_plain [OF that] by auto
  moreover have "unat b div 16 * 16 + unat b mod 16 = unat b" by (rule div_mult_mod_eq)
  moreover have "unat b \<le> 255" using unat_u8 [of b] by simp
  ultimately show ?thesis
    using hex_halves [of b] by (simp add: u8_from_hex_def after_plus_def hex_value_digit)
qed

lemma hex_pairs_encode: "hex_pairs (hex_encode bs) = Some bs"
  by (induction bs) (simp_all add: u8_from_hex_digits)

lemma hex_encode_chars: "c \<in> set (hex_encode bs) \<Longrightarrow> \<exists>n<16. c = hex_digit n"
  by (induction bs) (use hex_halves in \<open>auto intro: exI [of _ "unat b mod 16" for b :: u8]\<close>)

lemma length_hex_encode: "length (hex_encode bs) = 2 * length bs"
  by (induction bs) simp_all

lemma parse_hex_encode: "parse_hex (length bs) (hex_encode bs) = Inr bs"
proof -
  have "is_ascii (hex_encode bs)"
    using hex_encode_chars hex_digit_plain by (fastforce simp: is_ascii_def list_all_iff)
  then show ?thesis by (simp add: parse_hex_def length_hex_encode hex_pairs_encode)
qed

lemma char_apart: "(of_char c :: nat) \<noteq> of_char d \<Longrightarrow> c \<noteq> d"
  by auto

text \<open>A hexadecimal text ends with no white space.\<close>

lemma trim_hex: "trim_end (hex_encode bs @ newline) = hex_encode bs"
proof -
  have ends: "list_all (\<lambda>w. w \<noteq> [] \<and> (of_char (last w) :: nat) \<notin> {48..57} \<union> {97..102}) white_space"
    by (simp add: white_space_def upt_rec)
  have stay: "trim_rev (rev (hex_encode bs)) = rev (hex_encode bs)"
  proof -
    have "take (length w) (rev (hex_encode bs)) \<noteq> rev w" if "w \<in> set white_space" for w
    proof
      assume same: "take (length w) (rev (hex_encode bs)) = rev w"
      have w: "w \<noteq> []" "(of_char (last w) :: nat) \<notin> {48..57} \<union> {97..102}" using ends that by (auto simp: list_all_iff)
      then have "last w \<in> set (take (length w) (rev (hex_encode bs)))" unfolding same by simp
      then have "last w \<in> set (rev (hex_encode bs))" by (rule in_set_takeD)
      then have "last w \<in> set (hex_encode bs)" by simp
      then show False using hex_encode_chars hex_digit_plain w(2) by metis
    qed
    then have "find (\<lambda>w. take (length w) (rev (hex_encode bs)) = rev w) white_space = None"
      by (auto simp: find_None_iff)
    then show ?thesis by (simp add: trim_rev.simps)
  qed
  have "find (\<lambda>w. take (length w) (char_of (10 :: nat) # rev (hex_encode bs)) = rev w) white_space = Some newline"
    by (simp add: white_space_def newline_def)
  then have "trim_rev (char_of (10 :: nat) # rev (hex_encode bs)) = trim_rev (rev (hex_encode bs))"
    by (subst trim_rev.simps) (simp add: newline_def)
  then show ?thesis by (simp add: trim_end_def newline_def stay)
qed

lemma psk_load_text:
  assumes "length key = psk_len"
  shows "psk_load (Regular True (psk_text key)) = Inr key"
proof -
  have "without_newline (psk_text key) = hex_encode key"
  proof (cases "strip_suffix carriage_newline (psk_text key)")
    case None
    moreover have "strip_suffix newline (psk_text key) = Some (hex_encode key)"
      by (simp add: strip_suffix_def psk_text_def newline_def)
    ultimately show ?thesis by (simp add: without_newline_def)
  next
    case (Some t)
    then have cut: "drop (length (psk_text key) - 2) (psk_text key) = carriage_newline" "2 \<le> length (psk_text key)"
      by (auto simp: strip_suffix_def carriage_newline_def numeral_2_eq_2 split: if_splits)
    let ?n = "length (psk_text key) - 2"
    have n: "?n < length (hex_encode key)" using assms by (simp add: psk_text_def newline_def length_hex_encode psk_len_def)
    have "psk_text key ! ?n = carriage_newline ! 0"
      using arg_cong [OF cut(1), of "\<lambda>xs. xs ! 0"] cut(2) by (simp add: nth_drop)
    then have eq: "hex_encode key ! ?n = char_of (13 :: nat)"
      using n by (simp add: psk_text_def nth_append carriage_newline_def)
    have "char_of (13 :: nat) \<in> set (hex_encode key)" using nth_mem [OF n] unfolding eq .
    then obtain m where "m < 16" "char_of (13 :: nat) = hex_digit m" using hex_encode_chars by blast
    then have "(of_char (char_of (13 :: nat) :: char) :: nat) \<in> {48..57} \<union> {97..102}" using hex_digit_plain [of m] by simp
    then show ?thesis by simp
  qed
  moreover have "list_all (\<lambda>c. hex_value c \<noteq> None) (hex_encode key)"
    using hex_encode_chars hex_value_digit by (fastforce simp: list_all_iff)
  ultimately show ?thesis
    using assms by (simp add: psk_load_def private_text_def and_then_def length_hex_encode hex_decode_encode)
qed

lemma server_id_load_text: "length i = 16 \<Longrightarrow> load_server_id (Regular True (hex_encode i @ newline)) = Inr i"
  using parse_hex_encode [of i] by (simp add: load_server_id_def private_text_def and_then_def trim_hex map_err_def)

text \<open>Loading or creating leaves a file that loads to the same value.\<close>

lemma load_or_create_reloads:
  assumes "load_or_create load store fresh r = (Inr value, f)"
    and "\<And>f'. store fresh (fr_write r) (fr_raced r) = (Stored, f') \<Longrightarrow> load f' = Inr fresh"
  shows "load f = Inr value"
  using assms by (auto simp: load_or_create_def map_err_def split: sum.splits if_splits prod.splits store_outcome.splits)

text \<open>
  Claim C18. The pairing key and the identity that a receiver started with, found or newly created and
  whichever process created them, are the ones its next start finds; after a new pairing the next
  start finds the new key exactly when storing it succeeded, and the old one otherwise.
\<close>

theorem startup_state_kept:
  assumes "length fresh_key = 32" "length fresh_id = 16" "length new_key = 32"
    and "load_or_create_psk fresh_key r = (Inr key, f)" "load_or_create_server_id fresh_id q = (Inr i, g)"
    and "psk_store_atomic new_key write renamed f = (outcome, f2)"
  shows "load_or_create_psk other_key \<lparr>fr_found = f, fr_raced = f', fr_write = n\<rparr> = (Inr key, f) \<and>
    load_or_create_server_id other_id \<lparr>fr_found = g, fr_raced = g', fr_write = m\<rparr> = (Inr i, g) \<and>
    load_or_create_psk other_key \<lparr>fr_found = f2, fr_raced = f', fr_write = n\<rparr> =
      (Inr (if outcome = Stored then new_key else key), f2)"
proof -
  have "psk_load f = Inr key"
    by (rule load_or_create_reloads [OF assms(4) [unfolded load_or_create_psk_def]])
      (use assms(1) psk_load_text in \<open>auto simp: psk_store_new_def psk_len_def split: if_splits option.splits\<close>)
  moreover from this have "psk_load f2 = Inr (if outcome = Stored then new_key else key)"
    using assms(3,6) psk_load_text [of new_key] by (auto simp: psk_store_atomic_def psk_len_def split: if_splits)
  moreover have "load_server_id g = Inr i"
    by (rule load_or_create_reloads [OF assms(5) [unfolded load_or_create_server_id_def]])
      (use assms(2) server_id_load_text in \<open>auto simp: store_server_id_def split: if_splits option.splits\<close>)
  ultimately show ?thesis by (simp add: load_or_create_psk_def load_or_create_server_id_def load_or_create_def)
qed

theorem startup_state_kept_witness:
  "\<exists>f g. load_or_create_psk (replicate 32 7) \<lparr>fr_found = Missing, fr_raced = Missing, fr_write = None\<rparr> = (Inr (replicate 32 7), f) \<and>
     load_or_create_psk [] \<lparr>fr_found = f, fr_raced = Missing, fr_write = None\<rparr> = (Inr (replicate 32 7), f) \<and>
     load_or_create_server_id (replicate 16 9) \<lparr>fr_found = Missing, fr_raced = Missing, fr_write = None\<rparr> = (Inr (replicate 16 9), g) \<and>
     load_or_create_server_id [] \<lparr>fr_found = g, fr_raced = Missing, fr_write = None\<rparr> = (Inr (replicate 16 9), g) \<and>
     load_or_create_psk [] \<lparr>fr_found = Regular True (psk_text (replicate 32 8)), fr_raced = Missing, fr_write = None\<rparr> =
       (Inr (replicate 32 8), Regular True (psk_text (replicate 32 8)))"
proof -
  have key: "load_or_create_psk (replicate 32 7) \<lparr>fr_found = Missing, fr_raced = Missing, fr_write = None\<rparr> =
      (Inr (replicate 32 7), Regular True (psk_text (replicate 32 7)))"
    by (simp add: load_or_create_psk_def load_or_create_def psk_load_def private_text_def and_then_def psk_store_new_def)
  have i: "load_or_create_server_id (replicate 16 9) \<lparr>fr_found = Missing, fr_raced = Missing, fr_write = None\<rparr> =
      (Inr (replicate 16 9), Regular True (hex_encode (replicate 16 9) @ newline))"
    by (simp add: load_or_create_server_id_def load_or_create_def load_server_id_def private_text_def and_then_def
        store_server_id_def)
  have new: "psk_store_atomic (replicate 32 8) None True f = (Stored, Regular True (psk_text (replicate 32 8)))" for f
    by (simp add: psk_store_atomic_def)
  note kept = startup_state_kept [OF length_replicate length_replicate length_replicate key i new, of "[]" Missing None "[]" Missing None]
  show ?thesis using kept key i unfolding if_P [OF refl] by blast
qed

section \<open>Two slips\<close>

text \<open>
  \<open>u8::from_str_radix\<close> takes a plus sign, so an identity with one is accepted although it is not
  hexadecimal; and an identity file whose writing failed half way stays and blocks the next start.
\<close>

lemma plus_is_no_digit: "parse_hex 2 ''+a0b'' = Inr [10, 11]"
  by (simp add: parse_hex_def is_ascii_def u8_from_hex_def after_plus_def hex_value_def)

lemma trim_rev_shorter: "length (trim_rev s) \<le> length s"
proof (induction s rule: trim_rev.induct)
  case (1 s)
  show ?case
  proof (cases "find (\<lambda>w. take (length w) s = rev w) white_space")
    case None
    then show ?thesis by (simp add: trim_rev.simps)
  next
    case (Some w)
    then show ?thesis using 1 by (subst trim_rev.simps) (auto intro: le_trans)
  qed
qed

lemma half_written_identity_blocks:
  assumes "n < 32"
  shows "\<exists>f. load_or_create_server_id fresh \<lparr>fr_found = Missing, fr_raced = Missing, fr_write = Some n\<rparr> = (Inl PersistFailed, f) \<and>
    load_or_create_server_id other \<lparr>fr_found = f, fr_raced = f', fr_write = None\<rparr> = (Inl (LoadFailed LoadEncoding), f)"
proof -
  let ?f = "Regular True (take n (hex_encode fresh @ newline))"
  have "length (trim_end (take n (hex_encode fresh @ newline))) < 32"
    using trim_rev_shorter [of "rev (take n (hex_encode fresh @ newline))"] assms by (simp add: trim_end_def)
  then have "load_server_id ?f = Inl LoadEncoding"
    by (simp add: load_server_id_def private_text_def and_then_def parse_hex_def map_err_def)
  moreover have "load_or_create_server_id fresh \<lparr>fr_found = Missing, fr_raced = Missing, fr_write = Some n\<rparr> = (Inl PersistFailed, ?f)"
    by (simp add: load_or_create_server_id_def load_or_create_def load_server_id_def private_text_def and_then_def
        store_server_id_def)
  ultimately show ?thesis by (simp add: load_or_create_server_id_def load_or_create_def)
qed

end
