(* ===== verification/Cli_Main.thy ===== *)
theory Cli_Main
  imports Client_Attempts Pixel_Sources Stats Startup
begin

text \<open>
  The command-line producer, \<open>crates/rm-display-cli/src/main.rs\<close>: the checks of its options, the
  policy it requests, its commands as programs over the client, and what it prints. The option
  parser, the transport and the image decoder are outside; the random client id and hello nonce,
  whether a file can be opened and whether a metrics line can be written are arguments. What is
  printed is a list of values, without their human-readable layout.
\<close>

section \<open>Options\<close>

datatype waveform_arg = FastestArg | FastArg | QualityArg

datatype profile_arg = RealtimeArg | AnimateArg | BalancedArg | ReadingArg | QualityProfileArg | CustomArg

fun waveform_of_arg :: "waveform_arg \<Rightarrow> epaper_waveform" where
  "waveform_of_arg FastestArg = EwFastest"
| "waveform_of_arg FastArg = EwFast"
| "waveform_of_arg QualityArg = EwQuality"

fun profile_of_arg :: "profile_arg \<Rightarrow> epaper_profile" where
  "profile_of_arg RealtimeArg = EpRealtime"
| "profile_of_arg AnimateArg = EpAnimate"
| "profile_of_arg BalancedArg = EpBalanced"
| "profile_of_arg ReadingArg = EpReading"
| "profile_of_arg QualityProfileArg = EpQuality"
| "profile_of_arg CustomArg = EpCustom"

text \<open>The image to show is what decoding its file gives; the frames of a stream are what its reads return.\<close>

datatype command =
  Probe | Info | Profile | Refresh
  | Show "gray_image option" fit_mode bool
  | StreamFrames "nat option" "nat option" fit_mode bool "read_event list"
  | Doctor | Events

record cli_options =
  op_psk_file :: "file_state option"
  op_stats :: bool
  op_stats_jsonl :: bool
  op_epaper_profile :: "profile_arg option"
  op_latest_text :: "waveform_arg option"
  op_latest_photo :: "waveform_arg option"
  op_latest_video :: "waveform_arg option"
  op_settled :: "waveform_arg option"
  op_clean_first_frame :: "bool option"
  op_damage_tile :: "nat option"
  op_partial_refresh :: "bool option"
  op_cleanup_after :: "nat option"
  op_large_update :: "nat option"
  op_static_cleanup :: "nat option"
  op_cleanup_now :: bool
  op_command :: command

text \<open>The ranges that the option parser enforces.\<close>

definition options_in_range :: "cli_options \<Rightarrow> bool" where
  "options_in_range o' \<longleftrightarrow>
     (\<forall>t. op_damage_tile o' = Some t \<longrightarrow> 8 \<le> t \<and> t \<le> 512) \<and>
     (\<forall>p. op_large_update o' = Some p \<longrightarrow> p \<le> 100)"

datatype cli_error =
  CustomOptionsWithoutProfile | TileNoPowerOfTwo | CliPsk load_error | CliConnect
  | CliProducer producer_error | CliPixels pixel_error | ProfileStateMissing | CliStats | CliEventOutput
  | DimensionsTogether | NoCompleteFrame

definition custom_selected :: "cli_options \<Rightarrow> bool" where
  "custom_selected o' \<longleftrightarrow> op_epaper_profile o' = Some CustomArg"

definition check_options :: "cli_options \<Rightarrow> (cli_error, unit) result" where
  "check_options o' =
     (if \<not> custom_selected o' \<and>
         (op_latest_text o' \<noteq> None \<or> op_latest_photo o' \<noteq> None \<or> op_latest_video o' \<noteq> None \<or> op_settled o' \<noteq> None \<or>
          op_clean_first_frame o' \<noteq> None \<or> op_damage_tile o' \<noteq> None)
      then Inl CustomOptionsWithoutProfile
      else if custom_selected o' \<and> (case op_damage_tile o' of None \<Rightarrow> False | Some t \<Rightarrow> \<not> is_power_of_two t)
      then Inl TileNoPowerOfTwo
      else Inr ())"

definition or_else :: "'a option \<Rightarrow> 'a \<Rightarrow> 'a" where
  "or_else value fallback = (case value of None \<Rightarrow> fallback | Some v \<Rightarrow> v)"

definition waveform_field :: "waveform_arg option \<Rightarrow> waveform_arg \<Rightarrow> int" where
  "waveform_field value fallback = epaper_waveform_i32 (waveform_of_arg (or_else value fallback))"

definition custom_configuration :: "cli_options \<Rightarrow> profile_configuration" where
  "custom_configuration o' =
     \<lparr>pc_latest_text_waveform = waveform_field (op_latest_text o') FastArg,
      pc_latest_photo_waveform = waveform_field (op_latest_photo o') QualityArg,
      pc_latest_video_waveform = waveform_field (op_latest_video o') FastestArg,
      pc_settled_waveform = waveform_field (op_settled o') QualityArg,
      pc_partial_refresh_enabled = or_else (op_partial_refresh o') True,
      pc_cleanup_after_updates = or_else (op_cleanup_after o') 90,
      pc_clean_first_frame = or_else (op_clean_first_frame o') True,
      pc_large_update_threshold_percent = or_else (op_large_update o') 0,
      pc_static_cleanup_after_fast_updates = or_else (op_static_cleanup o') 6,
      pc_damage_tile = or_else (op_damage_tile o') 64\<rparr>"

section \<open>What is printed\<close>

definition json_option :: "('a \<Rightarrow> json) \<Rightarrow> 'a option \<Rightarrow> json" where
  "json_option f value = (case value of None \<Rightarrow> JNull | Some v \<Rightarrow> f v)"

definition server_id :: "server_hello \<Rightarrow> string" where
  "server_id server = hex_encode (sh_server_id server)"

definition display_json :: "display_info \<Rightarrow> json" where
  "display_json display = JObject
     [(''width'', JNat (di_width display)), (''height'', JNat (di_height display)),
      (''orientation'', JInt (di_orientation display)),
      (''pixel_formats'', JArray (map JInt (di_pixel_formats display))),
      (''encodings'', JArray (map JInt (di_encodings display))),
      (''input_capabilities'', JArray (map JInt (di_input_capabilities display)))]"

definition limits_json :: "limits \<Rightarrow> json" where
  "limits_json limits = JObject
     [(''max_payload'', JNat (li_max_payload limits)), (''max_frame_bytes'', JNat (li_max_frame_bytes limits)),
      (''max_regions'', JNat (li_max_regions limits)), (''max_inflight'', JNat (li_max_inflight limits)),
      (''max_inflight_bytes'', JNat (li_max_inflight_bytes limits)), (''max_fps_x100'', JNat (li_max_fps_x100 limits)),
      (''settled_deadline_ms'', JNat (li_settled_deadline_ms limits))]"

definition server_json :: "server_hello \<Rightarrow> json" where
  "server_json server = JObject
     [(''name'', JString (sh_name server)), (''server_id'', JString (server_id server)),
      (''minor'', JNat (sh_selected_minor server)), (''features'', JArray (map JInt (sh_features server))),
      (''display'', json_option display_json (sh_display server)),
      (''limits'', json_option limits_json (sh_limits server))]"

definition refresh_state_json :: "refresh_state \<Rightarrow> json" where
  "refresh_state_json st = JObject
     [(''partial_refresh_enabled'', JBool (rs_partial_refresh_enabled st)),
      (''cleanup_after_updates'', JNat (rs_cleanup_after_updates st)),
      (''large_update_threshold_percent'', JNat (rs_large_update_threshold_percent st)),
      (''presented_since_full_refresh'', JNat (rs_presented_since_full_refresh st)),
      (''cleanup_pending'', JBool (rs_cleanup_pending st)),
      (''static_cleanup_after_fast_updates'', JNat (rs_static_cleanup_after_fast_updates st)),
      (''fast_updates_since_settled'', JNat (rs_fast_updates_since_settled st))]"

definition epaper_refresh_json :: "refresh_result \<Rightarrow> json" where
  "epaper_refresh_json r = JObject
     [(''request_id'', JNat (rt_request_id r)), (''operation'', JInt (rt_operation r)), (''result'', JInt (rt_result r)),
      (''cleanup_performed'', JBool (rt_cleanup_performed r)), (''message'', JString (rt_message r)),
      (''active'', json_option refresh_state_json (rt_active r))]"

text \<open>The names of the protocol file.\<close>

fun profile_str_name :: "epaper_profile \<Rightarrow> string" where
  "profile_str_name EpUnspecified = ''EPAPER_PROFILE_UNSPECIFIED''"
| "profile_str_name EpAnimate = ''EPAPER_PROFILE_ANIMATE''"
| "profile_str_name EpBalanced = ''EPAPER_PROFILE_BALANCED''"
| "profile_str_name EpQuality = ''EPAPER_PROFILE_QUALITY''"
| "profile_str_name EpRealtime = ''EPAPER_PROFILE_REALTIME''"
| "profile_str_name EpReading = ''EPAPER_PROFILE_READING''"
| "profile_str_name EpCustom = ''EPAPER_PROFILE_CUSTOM''"

fun waveform_str_name :: "epaper_waveform \<Rightarrow> string" where
  "waveform_str_name EwUnspecified = ''EPAPER_WAVEFORM_UNSPECIFIED''"
| "waveform_str_name EwFastest = ''EPAPER_WAVEFORM_FASTEST''"
| "waveform_str_name EwFast = ''EPAPER_WAVEFORM_FAST''"
| "waveform_str_name EwQuality = ''EPAPER_WAVEFORM_QUALITY''"

definition epaper_profile_name :: "int \<Rightarrow> string" where
  "epaper_profile_name value = profile_str_name (or_else (epaper_profile_of_i32 value) EpUnspecified)"

definition epaper_waveform_name :: "int \<Rightarrow> string" where
  "epaper_waveform_name value = waveform_str_name (or_else (epaper_waveform_of_i32 value) EwUnspecified)"

definition effective_json :: "profile_configuration \<Rightarrow> json" where
  "effective_json c = JObject
     [(''latest_text_waveform'', JInt (pc_latest_text_waveform c)),
      (''latest_text_waveform_name'', JString (epaper_waveform_name (pc_latest_text_waveform c))),
      (''latest_photo_waveform'', JInt (pc_latest_photo_waveform c)),
      (''latest_photo_waveform_name'', JString (epaper_waveform_name (pc_latest_photo_waveform c))),
      (''latest_video_waveform'', JInt (pc_latest_video_waveform c)),
      (''latest_video_waveform_name'', JString (epaper_waveform_name (pc_latest_video_waveform c))),
      (''settled_waveform'', JInt (pc_settled_waveform c)),
      (''settled_waveform_name'', JString (epaper_waveform_name (pc_settled_waveform c))),
      (''partial_refresh_enabled'', JBool (pc_partial_refresh_enabled c)),
      (''cleanup_after_updates'', JNat (pc_cleanup_after_updates c)),
      (''clean_first_frame'', JBool (pc_clean_first_frame c)),
      (''large_update_threshold_percent'', JNat (pc_large_update_threshold_percent c)),
      (''static_cleanup_after_fast_updates'', JNat (pc_static_cleanup_after_fast_updates c)),
      (''damage_tile'', JNat (pc_damage_tile c))]"

definition profile_state_json :: "profile_state \<Rightarrow> json" where
  "profile_state_json st = JObject
     [(''profile'', JInt (ps_profile st)), (''profile_name'', JString (epaper_profile_name (ps_profile st))),
      (''cleanup_after_updates'', JNat (ps_cleanup_after_updates st)),
      (''large_update_threshold_percent'', JNat (ps_large_update_threshold_percent st)),
      (''damage_tile'', JNat (ps_damage_tile st)), (''clean_first_frame'', JBool (ps_clean_first_frame st)),
      (''static_cleanup_after_fast_updates'', JNat (ps_static_cleanup_after_fast_updates st)),
      (''effective'', json_option effective_json (ps_effective st))]"

definition epaper_profile_json :: "profile_result \<Rightarrow> json" where
  "epaper_profile_json r = JObject
     [(''request_id'', JNat (pt_request_id r)), (''operation'', JInt (pt_operation r)),
      (''requested_profile'', JInt (pt_requested_profile r)), (''result'', JInt (pt_result r)),
      (''cleanup_performed'', JBool (pt_cleanup_performed r)), (''cleanup_pending'', JBool (pt_cleanup_pending r)),
      (''message'', JString (pt_message r)), (''active'', json_option profile_state_json (pt_active r))]"

definition doctor_json :: "client_surface \<Rightarrow> frame_result \<Rightarrow> json" where
  "doctor_json surface r = JObject
     [(''status'', JString ''ok''),
      (''surface'', JObject [(''width'', JNat (cs_width surface)), (''height'', JNat (cs_height surface))]),
      (''logical_frame_id'', JNat (fr_logical_frame_id r)), (''presented_frame_id'', JNat (fr_presented_frame_id r)),
      (''credits'', JNat (fr_credits r))]"

datatype printed =
  ProbeOk string string | PrintedJson json | NoteProfile string nat nat bool bool | NoteRefresh json
  | NoteCleanup json | NotePresented nat | NoteStreamed nat

section \<open>The state of a run\<close>

record cli_env =
  cv_client :: client_env
  cv_library :: image_library
  cv_connect :: "bytes option \<Rightarrow> bytes option"
  cv_client_id :: bytes
  cv_nonce :: bytes
  cv_stats_open :: bool
  cv_stats_write :: "metric_line list \<Rightarrow> bool"
  cv_events_open :: bool

record cli_state =
  cr_client :: producer_client
  cr_stats :: stats_reporter
  cr_started :: nat
  cr_printed :: "printed list"

type_synonym 'a cli_step = "(cli_error, 'a) result \<times> cli_state"

definition on_client :: "(producer_client \<Rightarrow> 'a client_step) \<Rightarrow> cli_state \<Rightarrow> 'a cli_step" where
  "on_client step s = (case step (cr_client s) of (res, c) \<Rightarrow> (map_err CliProducer res, s\<lparr>cr_client := c\<rparr>))"

definition print :: "printed \<Rightarrow> cli_state \<Rightarrow> cli_state" where
  "print p s = s\<lparr>cr_printed := cr_printed s @ [p]\<rparr>"

definition read_clock :: "cli_env \<Rightarrow> cli_state \<Rightarrow> nat \<times> cli_state" where
  "read_clock env s = (case instant_now (cv_client env) (cr_client s) of (t, c) \<Rightarrow> (t, s\<lparr>cr_client := c\<rparr>))"

definition elapsed_since :: "cli_env \<Rightarrow> nat \<Rightarrow> cli_state \<Rightarrow> nat \<times> cli_state" where
  "elapsed_since env started s = (case elapsed_us (cv_client env) started (cr_client s) of (t, c) \<Rightarrow> (t, s\<lparr>cr_client := c\<rparr>))"

definition record_frame :: "cli_env \<Rightarrow> string \<Rightarrow> nat \<Rightarrow> nat \<Rightarrow> frame_report \<Rightarrow> cli_state \<Rightarrow> unit cli_step" where
  "record_frame env phase source_wait_us prepare_us report s =
     (case stats_record (cv_stats_write env (sr_lines (cr_stats s))) phase source_wait_us prepare_us report (cr_stats s) of
        (res, st) \<Rightarrow> (map_err (\<lambda>_. CliStats) res, s\<lparr>cr_stats := st\<rparr>))"

definition finish_stats :: "cli_env \<Rightarrow> cli_state \<Rightarrow> unit cli_step" where
  "finish_stats env s =
     (if sr_samples (cr_stats s) = [] then (Inr (), s)
      else case read_clock env s of (now, s1) \<Rightarrow>
        (case stats_finish (cv_stats_write env (sr_lines (cr_stats s1))) ((now - cr_started s) div 1000) (cr_stats s1) of
           (res, st) \<Rightarrow> (map_err (\<lambda>_. CliStats) res, s1\<lparr>cr_stats := st\<rparr>)))"

section \<open>Policy requests\<close>

definition connect_client :: "cli_env \<Rightarrow> cli_options \<Rightarrow> (cli_error, producer_client) result" where
  "connect_client env o' =
     and_then (case op_psk_file o' of None \<Rightarrow> Inr None | Some f \<Rightarrow> map_err CliPsk (and_then (psk_load f) (\<lambda>k. Inr (Some k))))
       (\<lambda>psk. case cv_connect env psk of None \<Rightarrow> Inl CliConnect | Some input \<Rightarrow> Inr (client_new input (cv_client_id env)))"

definition request_profile :: "cli_env \<Rightarrow> cli_options \<Rightarrow> cli_state \<Rightarrow> unit cli_step" where
  "request_profile env o' s =
     (case op_epaper_profile o' of
        None \<Rightarrow> (Inr (), s)
      | Some profile \<Rightarrow>
          try_then (on_client (if custom_selected o'
              then request_custom_epaper_profile (cv_client env) (custom_configuration o')
              else request_epaper_profile (cv_client env) (profile_of_arg profile)) s) (\<lambda>result s1.
            case pt_active result of
              None \<Rightarrow> (Inl ProfileStateMissing, s1)
            | Some active \<Rightarrow>
                (Inr (), print (NoteProfile (epaper_profile_name (ps_profile active)) (ps_cleanup_after_updates active)
                  (ps_damage_tile active) (pt_cleanup_performed result) (pt_cleanup_pending result)) s1)))"

definition request_parameters :: "cli_env \<Rightarrow> cli_options \<Rightarrow> cli_state \<Rightarrow> unit cli_step" where
  "request_parameters env o' s =
     (if \<not> custom_selected o' \<and>
         (op_partial_refresh o' \<noteq> None \<or> op_cleanup_after o' \<noteq> None \<or> op_large_update o' \<noteq> None \<or>
          op_static_cleanup o' \<noteq> None)
      then try_then (on_client (update_epaper_refresh (cv_client env) (op_partial_refresh o') (op_cleanup_after o')
          (op_large_update o') (op_static_cleanup o')) s) (\<lambda>result s1.
            (Inr (), print (NoteRefresh (epaper_refresh_json result)) s1))
      else (Inr (), s))"

definition request_cleanup_now :: "cli_env \<Rightarrow> cli_options \<Rightarrow> cli_state \<Rightarrow> unit cli_step" where
  "request_cleanup_now env o' s =
     (if op_cleanup_now o' then try_then (on_client (request_epaper_cleanup (cv_client env)) s) (\<lambda>result s1.
        (Inr (), print (NoteCleanup (epaper_refresh_json result)) s1))
      else (Inr (), s))"

section \<open>Commands\<close>

definition source_linux_stream :: int where "source_linux_stream = 3"
definition source_document :: int where "source_document = 4"
definition source_test_pattern :: int where "source_test_pattern = 5"

definition install_event_output :: "cli_env \<Rightarrow> bool \<Rightarrow> cli_state \<Rightarrow> unit cli_step" where
  "install_event_output env path s =
     (if \<not> path then (Inr (), s)
      else if cv_events_open env then (Inr (), s\<lparr>cr_client := set_event_output (cr_client s)\<rparr>)
      else (Inl CliEventOutput, s))"

text \<open>
  The loop of \<open>stream_stdin\<close>. \<open>read_frame\<close> fills the frame as the loop of the library does: its
  length is not zero, so 0 bytes are the end of the input.
\<close>

function stream_loop ::
  "cli_env \<Rightarrow> client_surface \<Rightarrow> nat \<Rightarrow> nat \<Rightarrow> fit_mode \<Rightarrow> nat \<Rightarrow> bytes \<Rightarrow> bytes option \<Rightarrow> nat \<Rightarrow> read_event list \<Rightarrow>
   cli_state \<Rightarrow> (bytes option \<times> nat) cli_step" where
  "stream_loop env surface source_width source_height fit len frame latest streamed es s =
     (case read_clock env s of (source_wait_started, s1) \<Rightarrow>
      case fill_frame len frame 0 es of
        (Inl error, frame', es') \<Rightarrow> (Inl (CliPixels error), s1)
      | (Inr got, frame', es') \<Rightarrow>
          (case elapsed_since env source_wait_started s1 of (source_wait_us, s2) \<Rightarrow>
           if got = 0 then (Inr (latest, streamed), s2)
           else case read_clock env s2 of (prepare_started, s3) \<Rightarrow>
             (case fit_raw_gray8 (cv_library env) frame' source_width source_height (cs_width surface)
                 (cs_height surface) fit of
                Inl error \<Rightarrow> (Inl (CliPixels error), s3)
              | Inr pixels \<Rightarrow>
                  (case elapsed_since env prepare_started s3 of (prepare_us, s4) \<Rightarrow>
                   case on_client (send_frame_report (cv_client env) surface pixels Latest Mixed) s4 of
                     (Inl error, s5) \<Rightarrow> (Inl error, s5)
                   | (Inr report, s5) \<Rightarrow>
                       (case record_frame env ''latest'' source_wait_us prepare_us report s5 of
                          (Inl error, s6) \<Rightarrow> (Inl error, s6)
                        | (Inr _, s6) \<Rightarrow>
                            stream_loop env surface source_width source_height fit len frame' (Some pixels)
                              (streamed + 1) es' s6)))))"
  by pat_completeness auto

termination
  by (relation "measure (\<lambda>(env, surface, source_width, source_height, fit, len, frame, latest, streamed, es, s).
      reader_weight es)")
    (auto intro: fill_frame_progress [OF sym])

declare stream_loop.simps [simp del]

definition stream_stdin ::
  "cli_env \<Rightarrow> client_surface \<Rightarrow> nat option \<Rightarrow> nat option \<Rightarrow> fit_mode \<Rightarrow> read_event list \<Rightarrow> cli_state \<Rightarrow> unit cli_step" where
  "stream_stdin env surface width height fit es s =
     (case (case (width, height) of
          (None, None) \<Rightarrow> Inr (cs_width surface, cs_height surface)
        | (Some w, Some h) \<Rightarrow> Inr (w, h)
        | _ \<Rightarrow> Inl DimensionsTogether) of
        Inl error \<Rightarrow> (Inl error, s)
      | Inr (source_width, source_height) \<Rightarrow>
          (case frame_len source_width source_height of
             Inl error \<Rightarrow> (Inl (CliPixels error), s)
           | Inr len \<Rightarrow>
               try_then (stream_loop env surface source_width source_height fit len (replicate len 0) None 0 es s)
                 (\<lambda>(latest, streamed) s1.
                   case latest of
                     None \<Rightarrow> (Inl NoCompleteFrame, s1)
                   | Some pixels \<Rightarrow>
                       try_then (on_client (send_frame_report (cv_client env) surface pixels Settled Mixed) s1) (\<lambda>report s2.
                       try_then (record_frame env ''settled'' 0 0 report s2) (\<lambda>_ s3.
                         (Inr (), print (NoteStreamed streamed) s3))))))"

lemma pump_once_consumes: "pump_once env c = (Inr x, c') \<Longrightarrow> length (cl_input c') < length (cl_input c)"
  using handle_auxiliary_input [of env]
  by (auto simp: pump_once_def dest!: try_then_Inr [OF sym] receive_consumes split: option.splits)
    (metis snd_conv)+

text \<open>The loop of \<open>events\<close> leaves with the first error; the end of the connection is one.\<close>

function pump_all :: "client_env \<Rightarrow> producer_client \<Rightarrow> producer_error \<times> producer_client" where
  "pump_all env c =
     (case pump_once env c of
        (Inl error, c1) \<Rightarrow> (error, c1)
      | (Inr _, c1) \<Rightarrow> pump_all env c1)"
  by pat_completeness auto

termination
  by (relation "measure (\<lambda>(env, c). length (cl_input c))") (auto dest: pump_once_consumes [OF sym])

declare pump_all.simps [simp del]

definition run_show :: "cli_env \<Rightarrow> gray_image option \<Rightarrow> fit_mode \<Rightarrow> bool \<Rightarrow> cli_state \<Rightarrow> unit cli_step" where
  "run_show env decoded fit events s0 =
     try_then (install_event_output env events s0) (\<lambda>_ s1.
     try_then (on_client (client_open_surface (cv_client env) 0 0 source_document events ''Linux image'') s1) (\<lambda>surface s2.
       case read_clock env s2 of (prepare_started, s3) \<Rightarrow>
         (case load_image_gray8 (cv_library env) decoded (cs_width surface) (cs_height surface) fit of
            Inl error \<Rightarrow> (Inl (CliPixels error), s3)
          | Inr pixels \<Rightarrow>
              (case elapsed_since env prepare_started s3 of (prepare_us, s4) \<Rightarrow>
               try_then (on_client (send_frame_report (cv_client env) surface pixels Settled Mixed) s4) (\<lambda>report s5.
               try_then (record_frame env ''settled'' 0 prepare_us report s5) (\<lambda>_ s6.
               try_then (finish_stats env s6) (\<lambda>_ s7.
                 on_client (client_goodbye (cv_client env))
                   (print (NotePresented (fr_presented_frame_id (rep_result report))) s7))))))))"

definition run_stream ::
  "cli_env \<Rightarrow> nat option \<Rightarrow> nat option \<Rightarrow> fit_mode \<Rightarrow> bool \<Rightarrow> read_event list \<Rightarrow> cli_state \<Rightarrow> unit cli_step" where
  "run_stream env width height fit events es s0 =
     try_then (install_event_output env events s0) (\<lambda>_ s1.
     try_then (on_client (client_open_surface (cv_client env) 0 0 source_linux_stream events ''Linux raw Gray8 stream'') s1)
       (\<lambda>surface s2.
     try_then (stream_stdin env surface width height fit es s2) (\<lambda>_ s3.
     try_then (finish_stats env s3) (\<lambda>_ s4. on_client (client_goodbye (cv_client env)) s4))))"

text \<open>The white frame of \<open>doctor\<close> and \<open>events\<close>.\<close>

definition show_white ::
  "cli_env \<Rightarrow> bool \<Rightarrow> string \<Rightarrow> cli_state \<Rightarrow> (client_surface \<times> frame_report) cli_step" where
  "show_white env accept_input label s0 =
     try_then (on_client (client_open_surface (cv_client env) 0 0 source_test_pattern accept_input label) s0) (\<lambda>surface s1.
       case frame_len (cs_width surface) (cs_height surface) of
         Inl error \<Rightarrow> (Inl (CliPixels error), s1)
       | Inr len \<Rightarrow>
           try_then (on_client (send_frame_report (cv_client env) surface (replicate len 255) Settled TextUi) s1) (\<lambda>report s2.
           try_then (record_frame env ''settled'' 0 0 report s2) (\<lambda>_ s3.
           try_then (finish_stats env s3) (\<lambda>_ s4. (Inr (surface, report), s4)))))"

definition run_doctor :: "cli_env \<Rightarrow> cli_state \<Rightarrow> unit cli_step" where
  "run_doctor env s0 =
     try_then (show_white env False ''doctor'' s0) (\<lambda>(surface, report) s1.
       on_client (client_goodbye (cv_client env)) (print (PrintedJson (doctor_json surface (rep_result report))) s1))"

definition run_events :: "cli_env \<Rightarrow> cli_state \<Rightarrow> unit cli_step" where
  "run_events env s0 =
     try_then (install_event_output env True s0) (\<lambda>_ s1.
     try_then (show_white env True ''events'' s1) (\<lambda>_ s2.
       case pump_all (cv_client env) (cr_client s2) of (error, c) \<Rightarrow> (Inl (CliProducer error), s2\<lparr>cr_client := c\<rparr>)))"

definition run_command :: "cli_env \<Rightarrow> server_hello \<Rightarrow> command \<Rightarrow> cli_state \<Rightarrow> unit cli_step" where
  "run_command env server cmd s =
     (case cmd of
        Probe \<Rightarrow> on_client (client_goodbye (cv_client env)) (print (ProbeOk (server_id server) (sh_name server)) s)
      | Info \<Rightarrow> on_client (client_goodbye (cv_client env)) (print (PrintedJson (server_json server)) s)
      | Profile \<Rightarrow>
          try_then (on_client (query_epaper_profile (cv_client env)) s) (\<lambda>result s1.
            on_client (client_goodbye (cv_client env)) (print (PrintedJson (epaper_profile_json result)) s1))
      | Refresh \<Rightarrow>
          try_then (on_client (query_epaper_refresh (cv_client env)) s) (\<lambda>result s1.
            on_client (client_goodbye (cv_client env)) (print (PrintedJson (epaper_refresh_json result)) s1))
      | Show decoded fit events \<Rightarrow> run_show env decoded fit events s
      | StreamFrames width height fit events es \<Rightarrow> run_stream env width height fit events es s
      | Doctor \<Rightarrow> run_doctor env s
      | Events \<Rightarrow> run_events env s)"

text \<open>
  \<open>main\<close>. A run that ends before the client exists has no state. The statistics start after the
  policy requests; when they write lines to a file, it has to open.
\<close>

definition cli_main :: "cli_env \<Rightarrow> cli_options \<Rightarrow> (cli_error, unit) result \<times> cli_state option" where
  "cli_main env o' =
     (case and_then (check_options o') (\<lambda>_. connect_client env o') of
        Inl error \<Rightarrow> (Inl error, None)
      | Inr c \<Rightarrow>
          (case try_then (on_client (client_hello_step (cv_client env) ''rm-display-cli'' (cv_nonce env))
              \<lparr>cr_client = c, cr_stats = stats_new (op_stats o') (op_stats_jsonl o'), cr_started = 0, cr_printed = []\<rparr>)
            (\<lambda>server s1. try_then (request_profile env o' s1) (\<lambda>_ s2.
              try_then (request_parameters env o' s2) (\<lambda>_ s3.
              try_then (request_cleanup_now env o' s3) (\<lambda>_ s4.
                if op_stats_jsonl o' \<and> \<not> cv_stats_open env then (Inl CliStats, s4)
                else case read_clock env s4 of (started, s5) \<Rightarrow>
                  run_command env server (op_command o') (s5\<lparr>cr_started := started\<rparr>)))))
           of (res, s) \<Rightarrow> (res, Some s)))"

section \<open>The custom profile a command line asks for\<close>

lemma waveform_field_custom: "\<exists>w. w \<noteq> FullQuality \<and> waveform_field value fallback = epaper_waveform_i32 (protocol_waveform w)"
proof (cases "or_else value fallback")
  case FastestArg
  then show ?thesis by (intro exI [of _ Fastest]) (simp add: waveform_field_def)
next
  case FastArg
  then show ?thesis by (intro exI [of _ Fast]) (simp add: waveform_field_def)
next
  case QualityArg
  then show ?thesis by (intro exI [of _ QualityWf]) (simp add: waveform_field_def)
qed

text \<open>
  Claim C21. Every custom profile that the command line can ask for is accepted by the receiver:
  options that pass the parser and the checks of \<open>main\<close> give a configuration whose waveforms, damage
  tile and thresholds the receiver admits, and the policy that becomes active is the one asked for,
  the options left out being the defaults of the command.
\<close>

theorem cli_custom_profile_accepted:
  assumes "options_in_range o'" and "check_options o' = Inr ()" and "custom_selected o'"
  shows "\<exists>config. custom_profile_config (custom_configuration o') = Inr config \<and> cfg_profile config = Custom \<and>
    profile_configuration_of config = custom_configuration o'"
proof -
  let ?c = "custom_configuration o'"
  obtain text_wf where t: "text_wf \<noteq> FullQuality" "pc_latest_text_waveform ?c = epaper_waveform_i32 (protocol_waveform text_wf)"
    using waveform_field_custom by (fastforce simp: custom_configuration_def)
  obtain photo_wf where p: "photo_wf \<noteq> FullQuality" "pc_latest_photo_waveform ?c = epaper_waveform_i32 (protocol_waveform photo_wf)"
    using waveform_field_custom by (fastforce simp: custom_configuration_def)
  obtain video_wf where v: "video_wf \<noteq> FullQuality" "pc_latest_video_waveform ?c = epaper_waveform_i32 (protocol_waveform video_wf)"
    using waveform_field_custom by (fastforce simp: custom_configuration_def)
  obtain settled_wf where s: "settled_wf \<noteq> FullQuality" "pc_settled_waveform ?c = epaper_waveform_i32 (protocol_waveform settled_wf)"
    using waveform_field_custom by (fastforce simp: custom_configuration_def)
  have "is_power_of_two 64" by (simp add: power_of_two_iff) (rule exI [of _ 6], simp)
  then have tile: "8 \<le> pc_damage_tile ?c" "pc_damage_tile ?c \<le> 512" "\<exists>k. pc_damage_tile ?c = 2 ^ k"
    using assms by (auto simp: custom_configuration_def or_else_def options_in_range_def check_options_def
        power_of_two_iff [symmetric] split: option.splits if_splits)
  have percent: "pc_large_update_threshold_percent ?c \<le> 100"
    using assms(1) by (auto simp: custom_configuration_def or_else_def options_in_range_def split: option.splits)
  obtain config where config: "config = \<lparr>cfg_profile = Custom, latest_text_waveform = text_wf,
      latest_photo_waveform = photo_wf, latest_video_waveform = video_wf, settled_waveform = settled_wf,
      partial_refresh_enabled = pc_partial_refresh_enabled ?c, cleanup_after_updates = pc_cleanup_after_updates ?c,
      clean_first_frame = pc_clean_first_frame ?c,
      large_update_threshold_percent = pc_large_update_threshold_percent ?c,
      static_cleanup_after_fast_updates = pc_static_cleanup_after_fast_updates ?c,
      cfg_damage_tile = pc_damage_tile ?c\<rparr>" by simp
  have same: "profile_configuration_of config = ?c"
    by (simp add: config profile_configuration_of_def t(2) [symmetric] p(2) [symmetric] v(2) [symmetric] s(2) [symmetric])
  have "custom_profile_config ?c = Inr config"
    unfolding custom_profile_exact using t p v s tile percent same by (auto simp: config config_ok_iff)
  then show ?thesis using same by (auto simp: config)
qed

definition example_options :: cli_options where
  "example_options = \<lparr>op_psk_file = None, op_stats = False, op_stats_jsonl = False,
     op_epaper_profile = Some CustomArg, op_latest_text = None,
     op_latest_photo = None, op_latest_video = Some FastArg, op_settled = None, op_clean_first_frame = Some False,
     op_damage_tile = Some 32, op_partial_refresh = None, op_cleanup_after = Some 0, op_large_update = Some 100,
     op_static_cleanup = None, op_cleanup_now = False, op_command = Doctor\<rparr>"

theorem cli_custom_profile_accepted_witness:
  "\<exists>config. custom_profile_config (custom_configuration example_options) = Inr config \<and> cfg_damage_tile config = 32"
proof -
  have "is_power_of_two 32" by (simp add: power_of_two_iff) (rule exI [of _ 5], simp)
  then have "options_in_range example_options" "check_options example_options = Inr ()" "custom_selected example_options"
    by (simp_all add: example_options_def options_in_range_def check_options_def custom_selected_def)
  from cli_custom_profile_accepted [OF this] obtain config where
    c: "custom_profile_config (custom_configuration example_options) = Inr config"
      "profile_configuration_of config = custom_configuration example_options" by blast
  from arg_cong [OF c(2), of pc_damage_tile] have "cfg_damage_tile config = 32"
    by (simp add: profile_configuration_of_def custom_configuration_def example_options_def or_else_def)
  with c(1) show ?thesis by blast
qed

end
