(* ===== verification/Spec2Isabelle.thy ===== *)
theory Spec2Isabelle
  imports Display_Faults Wire Native Touch_Select Pen Session_Frames Handshake Client_Attempts Client_Example
    Receiver_Server Cli_Main
begin

text \<open>
  Verification library of rm-display, a remote display for e-paper tablets.

  \<^bold>\<open>The program.\<close> A producer (\<open>crates/rm-display-cli\<close>) sends pixels over one byte
  stream to a receiver (\<open>crates/rm-display-receiver\<close>), which owns an e-paper panel. Messages are
  framed protobuf envelopes (\<open>crates/rm-display-protocol\<close>); the receiver validates a frame, commits
  it to the display core (\<open>crates/rm-display-core\<close>), and presents it by its own refresh policy.
  Input of the tablet travels the other way. A receiver serves one producer at a time; between two of
  them it shows a local menu and a pairing code. The parts meet as follows:

    main.rs (receiver) > server.rs > session.rs > scheduler.rs > surface.rs, refresh.rs > panel.rs

    input_capture.rs > evdev.rs > session.rs          main.rs (producer) > client.rs > wire.rs

  Every theory follows one file or one part of a file, in its order; the definitions keep the names
  of the source where Isabelle allows it.

  \<^bold>\<open>The library.\<close>
  \<^item> \<open>Prelude\<close>: machine types, Rust's checked, saturating and wrapping arithmetic, results, calls with
    state (\<open>try_then\<close> is the question mark operator), slices; the collections of rewrite rules.
  \<^item> \<open>Grid\<close>: packed pixel buffers seen pixel by pixel, and the one lemma that carries every loop over
    rectangles, rows and pixels.
  \<^item> \<open>Ordered_Map\<close>: \<open>BTreeMap\<close>, with the locale of finite maps and its interpretation.

  \<^bold>\<open>Protocol.\<close>
  \<^item> \<open>Protocol\<close>, \<open>Messages\<close>: the enumerations and messages of \<open>rm_display.proto\<close>, rectangles, and the
    errors of the session with their codes.
  \<^item> \<open>Wire\<close> (\<open>wire.rs\<close>): framing; a batch is decoded to the same envelopes however the transport
    splits its bytes, and the decoder needs at most one frame of buffer.
  \<^item> \<open>Semantic\<close> (\<open>semantic.rs\<close>): validation and decoding of frames; an accepted frame is well formed, a
    well-formed raw frame is accepted with its own pixels.

  \<^bold>\<open>Display core.\<close>
  \<^item> \<open>Pixels\<close>, \<open>Surface\<close>, \<open>Overlay\<close>, \<open>Damage\<close> (\<open>surface.rs\<close>, with the damage functions of
    \<open>scheduler.rs\<close>): blending and RGB565, the surface with its atomic updates and composition, the local
    planes, pen segments, tile damage. The lemmas say which pixels an operation writes and with what,
    and that the fast paths agree with the plain ones.
  \<^item> \<open>Refresh\<close> (\<open>refresh.rs\<close>): presets, decision, debt; the invariant over every reachable policy state
    and the bound of periodic cleanup.
  \<^item> \<open>Panel\<close> (\<open>panel.rs\<close>): the backend as a record of functions, the locale \<open>panel_contract\<close> with what
    the scheduler relies on, and the mock panel as its interpretation.
  \<^item> \<open>Scheduler\<close>, \<open>Scheduler_Inv\<close>, \<open>Display\<close>, \<open>Display_Faults\<close> (\<open>scheduler.rs\<close>): every operation of
    \<open>DisplayCore\<close>, its invariant, the core as a step relation whose runs keep the presented buffer equal
    to the panel and to the composition, and the edges where a rejected submission departs from that.
  \<^item> \<open>Native\<close> (\<open>native_pixels.rs\<close>): conversion of damage into the framebuffer.

  \<^bold>\<open>Receiver.\<close>
  \<^item> \<open>Touch_Parser\<close>, \<open>Touch_Gesture\<close>, \<open>Touch_Select\<close>, \<open>Pen\<close> (\<open>evdev.rs\<close>): kernel events to pointer
    events, the five-finger chord, the choice of devices, the pen; \<open>Capture\<close> (\<open>input_capture.rs\<close>): the
    queue between the reader thread and the display thread, the threads as interleaved actions.
  \<^item> \<open>Local_Menu\<close> (\<open>local_menu.rs\<close>): targets and drawing, byte for byte.
  \<^item> \<open>Receiver_Config\<close> (\<open>config.rs\<close> and the profile conversions), \<open>Session_State\<close>, \<open>Session_Control\<close>,
    \<open>Session_Display\<close>, \<open>Session_Input\<close>, \<open>Session\<close> (\<open>session.rs\<close>): every method of a session.
  \<^item> \<open>Emission\<close>, \<open>Emission_Input\<close>: the locales between the handlers of the session and a property of
    the messages they emit; \<open>Session_Order\<close> and \<open>Session_Frames\<close> interpret them for the numbering of
    messages and for the accounting of frames.
  \<^item> \<open>Server\<close>, \<open>Receiver_Server\<close> (\<open>server.rs\<close>): the connection loop, its bounded buffers and its
    refinement of the abstract exchange of a session with its messages; the outer loop with the
    pairing offer, which always stands for the key the transport uses.
  \<^item> \<open>Pairing\<close> (\<open>pairing.rs\<close>): advertised hosts, the text and the picture of the offer.
  \<^item> \<open>Startup\<close> (\<open>main.rs\<close>, and the key files of the transport's \<open>lib.rs\<close>): command line, persistent key
    and identity, the configuration.

  \<^bold>\<open>Producer.\<close>
  \<^item> \<open>Delta\<close>, \<open>Client_State\<close>, \<open>Client\<close>, \<open>Client_Requests\<close>, \<open>Client_Frames\<close> (\<open>client.rs\<close>, \<open>events.rs\<close>):
    the delta encoder and every method of the client.
  \<^item> \<open>Client_Flow\<close>, \<open>Client_Accounts\<close>, \<open>Client_Run\<close>, \<open>Client_Live\<close>, \<open>Client_Attempts\<close>: flow control over
    all calls, one report for every queued frame, progress of a flush, the end of the retry loop.
  \<^item> \<open>Handshake\<close>: the hello of the producer against a fresh session of the receiver.
  \<^item> \<open>Pixel_Sources\<close> (\<open>pixels.rs\<close>), \<open>Stats\<close> (\<open>stats.rs\<close>), \<open>Cli_Main\<close> (\<open>main.rs\<close>): image fitting and raw
    streams, statistics, the commands as programs over the client; the custom profiles it can ask for
    are the ones the receiver admits.
  \<^item> \<open>Session_Example\<close>, \<open>Client_Example\<close>: a concrete receiver and producer on which the claims are
    evaluated.

  \<^bold>\<open>How the code is modelled.\<close> A struct is a record, an enum a datatype. Geometry, counts and times are
  natural numbers, and each operation of the source that can leave its width is written with its
  width; counters that wrap and bytes are words; \<open>usize\<close> has 64 bits. A method that can fail returns
  its result together with the state it leaves, also on an early return. An \<open>expect\<close> that could fail
  is the error \<open>Panicked\<close>, or the value \<open>None\<close>, and the invariants show where it cannot. A time that
  the code measures is an argument; a \<open>Duration\<close> is a number of nanoseconds. A connection is the bytes
  still to be read and the bytes written, so that a theorem over all inputs covers every peer; a failed
  write may have written a part. What a thread, a poll or a device contributes is a list of turns or
  actions: a theorem over all lists covers every interleaving.

  \<^bold>\<open>Bounds and loops.\<close> No operation has fuel. The loops of the client end because every message consumes
  input (\<open>await_reply\<close>, \<open>pump_all\<close>), those of the raw stream because every read consumes an answer of
  the reader (\<open>reader_weight\<close>); scans over a buffer are structural. The loops of the server never end by
  themselves: \<open>serve_turns\<close>, \<open>idle_loop\<close> and \<open>receiver_run\<close> run for the turns they are given and say
  whether they would go on.

  \<^bold>\<open>Parameters.\<close> Code outside the repository is an argument of the definitions that use it: the panel
  backend, the protobuf library, the zlib, zstd and checksum crates, the image library, the QR encoder,
  the parser of socket addresses. Where a theorem needs them, their documented behaviour is a
  hypothesis, and its witness instantiates them.

  \<^bold>\<open>Not modelled.\<close> The Quill backend (\<open>quill.rs\<close>) is calls of the vendor's display library. The TLS
  contexts and handshakes of the transport are OpenSSL calls; only their outcome appears. Opening and
  configuring sockets and input devices, \<open>ioctl\<close>, \<open>poll\<close>, \<open>getifaddrs\<close> and the enumeration under
  \<open>/dev/input\<close> are the operating system's; only their answers appear. The option parser of the producer
  is clap, of which the ranges of its options appear. Human-readable log lines and usage texts are left
  out; a rate that the code computes in floating point is kept as a quotient. The tests and the
  examples of the crates, which embed the receiver or exercise it, are not part of the program.
\<close>

end
